(* ===== verification/Sync_Prelude.thy ===== *)
theory Sync_Prelude
  imports Main
    "HOL-Library.Multiset"
    "HOL-Library.Word"
    "HOL-Library.Finite_Map"
    "HOL-Library.List_Lexorder"
    "HOL-Library.Char_ord"
begin

text \<open>
  Shared vocabulary of the development: machine integers, Rust's \<open>Result\<close> with the
  \<open>?\<close> operator and the iterator idioms the sources use (\<open>try_for_each\<close>,
  \<open>collect::<Result<_, _>>\<close>, \<open>position\<close>, \<open>Vec::remove\<close>), and \<open>BTreeMap\<close> as a finite map
  iterated in key order.  Every component theory builds on these definitions and on
  the two fact collections declared here.
\<close>

named_theorems result_conv \<open>inversion of successful result computations\<close>
named_theorems btree_simps \<open>membership and lookup in the entries of a BTreeMap\<close>

section \<open>Machine integers\<close>

type_synonym u8 = "8 word"
type_synonym u16 = "16 word"
type_synonym u64 = "64 word"
type_synonym i64 = "64 word" \<comment> \<open>read with \<open>sint\<close>\<close>
type_synonym byte = u8

text \<open>An unsigned addition overflows exactly when the wrapped sum is below a summand.\<close>

definition checked_add :: "u64 \<Rightarrow> u64 \<Rightarrow> u64 option" where
  "checked_add a b = (if a \<le> a + b then Some (a + b) else None)"

definition saturating_add :: "u64 \<Rightarrow> u64 \<Rightarrow> u64" where
  "saturating_add a b = (if a \<le> a + b then a + b else - 1)"

definition checked_sub :: "nat \<Rightarrow> nat \<Rightarrow> nat option" where
  "checked_sub a b = (if b \<le> a then Some (a - b) else None)"

section \<open>Results and iterators\<close>

definition rbind :: "'e + 'a \<Rightarrow> ('a \<Rightarrow> 'e + 'b) \<Rightarrow> 'e + 'b" where
  "rbind r f = (case r of Inl e \<Rightarrow> Inl e | Inr x \<Rightarrow> f x)"

definition ok_or :: "'e \<Rightarrow> 'a option \<Rightarrow> 'e + 'a" where
  "ok_or e x = (case x of None \<Rightarrow> Inl e | Some y \<Rightarrow> Inr y)"

definition ensure :: "bool \<Rightarrow> 'e \<Rightarrow> 'e + unit" where
  "ensure b e = (if b then Inr () else Inl e)"

fun for_each :: "('a \<Rightarrow> 'e + unit) \<Rightarrow> 'a list \<Rightarrow> 'e + unit" where
  "for_each f [] = Inr ()"
| "for_each f (x # xs) = rbind (f x) (\<lambda>_. for_each f xs)"

fun try_map :: "('a \<Rightarrow> 'e + 'b) \<Rightarrow> 'a list \<Rightarrow> 'e + 'b list" where
  "try_map f [] = Inr []"
| "try_map f (x # xs) = rbind (f x) (\<lambda>y. rbind (try_map f xs) (\<lambda>ys. Inr (y # ys)))"

fun try_fold :: "('s \<Rightarrow> 'a \<Rightarrow> 'e + 's) \<Rightarrow> 's \<Rightarrow> 'a list \<Rightarrow> 'e + 's" where
  "try_fold f s [] = Inr s"
| "try_fold f s (x # xs) = rbind (f s x) (\<lambda>s'. try_fold f s' xs)"

fun position :: "('a \<Rightarrow> bool) \<Rightarrow> 'a list \<Rightarrow> nat option" where
  "position p [] = None"
| "position p (x # xs) = (if p x then Some 0 else map_option Suc (position p xs))"

definition remove_at :: "nat \<Rightarrow> 'a list \<Rightarrow> 'a list" where
  "remove_at i xs = take i xs @ drop (Suc i) xs"

definition is_some_and :: "'a option \<Rightarrow> ('a \<Rightarrow> bool) \<Rightarrow> bool" where
  "is_some_and x p = (case x of None \<Rightarrow> False | Some y \<Rightarrow> p y)"

fun windows2 :: "'a list \<Rightarrow> ('a \<times> 'a) list" where
  "windows2 (x # y # zs) = (x, y) # windows2 (y # zs)"
| "windows2 _ = []"

fun insert_by :: "('a \<Rightarrow> 'a \<Rightarrow> bool) \<Rightarrow> 'a \<Rightarrow> 'a list \<Rightarrow> 'a list" where
  "insert_by le x [] = [x]"
| "insert_by le x (y # ys) = (if le x y then x # y # ys else y # insert_by le x ys)"

text \<open>\<open>slice::sort_by\<close>: the stable sort for a comparator read as "not greater".\<close>

fun sort_by :: "('a \<Rightarrow> 'a \<Rightarrow> bool) \<Rightarrow> 'a list \<Rightarrow> 'a list" where
  "sort_by le [] = []"
| "sort_by le (x # xs) = insert_by le x (sort_by le xs)"

text \<open>\<open>Display\<close> of an unsigned integer: its decimal digits.\<close>

definition digit_char :: "nat \<Rightarrow> char" where
  "digit_char d = char_of (48 + d)"

fun decimal :: "nat \<Rightarrow> string" where
  "decimal n = (if n < 10 then [digit_char n] else decimal (n div 10) @ [digit_char (n mod 10)])"

declare decimal.simps [simp del]

section \<open>BTreeMap\<close>

definition entries :: "('k::linorder, 'v) fmap \<Rightarrow> ('k \<times> 'v) list" where
  "entries m = sorted_list_of_fmap m"

definition map_len :: "('k, 'v) fmap \<Rightarrow> nat" where
  "map_len m = fcard (fmdom m)"

definition contains_key :: "('k, 'v) fmap \<Rightarrow> 'k \<Rightarrow> bool" where
  "contains_key m k = (fmlookup m k \<noteq> None)"

section \<open>Facts on integers\<close>

lemma no_overflow_iff: "(a :: u64) \<le> a + b \<longleftrightarrow> unat a + unat b < 2 ^ 64"
  by (simp add: no_olen_add_nat)

lemma unat_add_iff: "unat (a + b :: u64) = unat a + unat b \<longleftrightarrow> unat a + unat b < 2 ^ 64"
proof -
  have "unat (a + b) < 2 ^ 64" using unsigned_less [of "a + b"] by simp
  then show ?thesis by (auto simp: unat_word_ariths)
qed

lemma checked_add_Some [result_conv]:
  "checked_add a b = Some c \<longleftrightarrow> c = a + b \<and> unat c = unat a + unat b"
  unfolding checked_add_def no_overflow_iff by (auto simp: unat_add_iff)

lemma checked_add_None: "checked_add a b = None \<longleftrightarrow> 2 ^ 64 \<le> unat a + unat b"
  unfolding checked_add_def no_overflow_iff by auto

lemma saturating_add_eq: "saturating_add a b = (if unat a + unat b < 2 ^ 64 then a + b else - 1)"
  unfolding saturating_add_def no_overflow_iff ..

lemma checked_add_1_gt: "checked_add a 1 = Some c \<Longrightarrow> a < c"
  by (auto simp: result_conv word_less_nat_alt)

lemma checked_sub_Some [result_conv]:
  "checked_sub a b = Some c \<longleftrightarrow> b \<le> a \<and> c = a - b"
  by (auto simp: checked_sub_def)

lemma sint_inject [simp]: "sint (a :: 'l::len word) = sint b \<longleftrightarrow> a = b"
proof
  assume "sint a = sint b"
  then have "word_of_int (sint a) = (word_of_int (sint b) :: 'l word)" by simp
  then show "a = b" by simp
qed simp

section \<open>Facts on results\<close>

lemma rbind_simps [simp]:
  "rbind (Inl e) f = Inl e" "rbind (Inr x) f = f x"
  by (simp_all add: rbind_def)

lemma rbind_Inr [result_conv]:
  "rbind r f = Inr y \<longleftrightarrow> (\<exists>x. r = Inr x \<and> f x = Inr y)"
  by (cases r) auto

lemma rbind_Inl: "rbind r f = Inl e \<longleftrightarrow> r = Inl e \<or> (\<exists>x. r = Inr x \<and> f x = Inl e)"
  by (cases r) auto

lemma ok_or_Inr [result_conv]: "ok_or e x = Inr y \<longleftrightarrow> x = Some y"
  by (cases x) (auto simp: ok_or_def)

lemma ok_or_simps [simp]: "ok_or e None = Inl e" "ok_or e (Some y) = Inr y"
  by (simp_all add: ok_or_def)

lemma ensure_Inr [result_conv]: "ensure b e = Inr u \<longleftrightarrow> b"
  by (auto simp: ensure_def)

lemma ensure_Inl: "ensure b e = Inl e' \<longleftrightarrow> \<not> b \<and> e' = e"
  by (auto simp: ensure_def)

lemma unit_result_cases: "(r :: 'e + unit) = Inr () \<or> (\<exists>e. r = Inl e)"
  by (cases r) auto

lemma for_each_Inr [result_conv]:
  "for_each f xs = Inr u \<longleftrightarrow> (\<forall>x \<in> set xs. f x = Inr ())"
  by (induction xs) (auto simp: rbind_Inr)

lemma for_each_append: "for_each f (xs @ ys) = rbind (for_each f xs) (\<lambda>_. for_each f ys)"
  by (induction xs) (auto simp: rbind_def split: sum.splits)

lemma try_map_Inr [result_conv]:
  "try_map f xs = Inr ys \<longleftrightarrow> list_all2 (\<lambda>x y. f x = Inr y) xs ys"
  by (induction xs arbitrary: ys) (auto simp: rbind_Inr list_all2_Cons1)

lemma try_map_InrI: "(\<And>x. x \<in> set xs \<Longrightarrow> f x = Inr (g x)) \<Longrightarrow> try_map f xs = Inr (map g xs)"
  by (induction xs) auto

lemma try_fold_append:
  "try_fold f s (xs @ ys) = rbind (try_fold f s xs) (\<lambda>s'. try_fold f s' ys)"
  by (induction xs arbitrary: s) (auto simp: rbind_def split: sum.splits)

text \<open>The loop rule: an invariant kept by every successful iteration holds at the end.\<close>

lemma try_fold_invariant:
  assumes "try_fold f s xs = Inr t" and "P s"
    and "\<And>s x s'. x \<in> set xs \<Longrightarrow> P s \<Longrightarrow> f s x = Inr s' \<Longrightarrow> P s'"
  shows "P t"
  using assms
proof (induction xs arbitrary: s)
  case Nil
  then show ?case by simp
next
  case (Cons x xs)
  from Cons.prems(1) obtain s' where s': "f s x = Inr s'" and rest: "try_fold f s' xs = Inr t"
    by (auto simp: rbind_Inr)
  have "P s'" using Cons.prems(2,3) s' by auto
  with rest Cons.prems(3) show ?case by (intro Cons.IH) auto
qed

lemma try_fold_each:
  assumes "try_fold f s xs = Inr t" and "x \<in> set xs"
  shows "\<exists>s' t'. f s' x = Inr t'"
  using assms by (induction xs arbitrary: s) (auto simp: rbind_Inr)

section \<open>Facts on positions\<close>

lemma position_Some:
  "position p xs = Some i \<Longrightarrow> i < length xs \<and> p (xs ! i) \<and> (\<forall>j < i. \<not> p (xs ! j))"
  by (induction xs arbitrary: i) (auto simp: nth_Cons split: if_splits nat.splits)

lemma position_None [simp]: "position p xs = None \<longleftrightarrow> (\<forall>x \<in> set xs. \<not> p x)"
  by (induction xs) auto

lemma position_ex: "x \<in> set xs \<Longrightarrow> p x \<Longrightarrow> \<exists>i. position p xs = Some i"
  using position_None [of p xs] by (cases "position p xs") auto

lemma remove_at_split:
  "i < length xs \<Longrightarrow> mset xs = add_mset (xs ! i) (mset (remove_at i xs))"
  by (metis add_mset_add_single append_take_drop_id Cons_nth_drop_Suc mset.simps(2)
      mset_append remove_at_def union_mset_add_mset_right)

lemma set_remove_at_subset: "set (remove_at i xs) \<subseteq> set xs"
  by (auto simp: remove_at_def dest: in_set_takeD in_set_dropD)

lemma map_remove_at: "map f (remove_at i xs) = remove_at i (map f xs)"
  by (simp add: remove_at_def take_map drop_map)

lemma find_map: "List.find P (map f xs) = map_option f (List.find (P \<circ> f) xs)"
  by (induction xs) auto

lemma find_append_last:
  "(\<forall>x \<in> set xs. \<not> P x) \<Longrightarrow> P y \<Longrightarrow> List.find P (xs @ [y]) = Some y"
  by (induction xs) auto

lemma in_map_filter: "y \<in> set (List.map_filter f xs) \<longleftrightarrow> (\<exists>x \<in> set xs. f x = Some y)"
  by (induction xs) (auto split: option.splits)

lemma map_filter_append [simp]:
  "List.map_filter f (xs @ ys) = List.map_filter f xs @ List.map_filter f ys"
  by (induction xs) (auto split: option.splits)

lemma is_some_and_simps [simp]:
  "is_some_and None p = False" "is_some_and (Some y) p = p y"
  by (simp_all add: is_some_and_def)

lemma is_some_and_iff: "is_some_and x p \<longleftrightarrow> (\<exists>y. x = Some y \<and> p y)"
  by (cases x) auto

lemma windows2_set: "(a, b) \<in> set (windows2 xs) \<longleftrightarrow> (\<exists>i. Suc i < length xs \<and> a = xs ! i \<and> b = xs ! Suc i)"
proof (induction xs rule: windows2.induct)
  case (1 x y zs)
  show ?case
  proof
    assume "(a, b) \<in> set (windows2 (x # y # zs))"
    then consider "a = x \<and> b = y"
      | i where "Suc i < length (y # zs)" "a = (y # zs) ! i" "b = (y # zs) ! Suc i"
      using "1.IH" by auto
    then show "\<exists>i. Suc i < length (x # y # zs) \<and> a = (x # y # zs) ! i \<and> b = (x # y # zs) ! Suc i"
    proof cases
      case 1
      then show ?thesis by (intro exI [of _ 0]) simp
    next
      case (2 i)
      then show ?thesis by (intro exI [of _ "Suc i"]) simp
    qed
  next
    assume "\<exists>i. Suc i < length (x # y # zs) \<and> a = (x # y # zs) ! i \<and> b = (x # y # zs) ! Suc i"
    then obtain i where i: "Suc i < length (x # y # zs)" "a = (x # y # zs) ! i"
      "b = (x # y # zs) ! Suc i" by blast
    then show "(a, b) \<in> set (windows2 (x # y # zs))"
      using "1.IH" by (cases i) auto
  qed
qed auto

section \<open>Facts on sorting\<close>

lemma mset_insert_by [simp]: "mset (insert_by le x xs) = add_mset x (mset xs)"
  by (induction xs) auto

lemma mset_sort_by [simp]: "mset (sort_by le xs) = mset xs"
  by (induction xs) auto

lemma set_sort_by [simp]: "set (sort_by le xs) = set xs"
  by (metis mset_sort_by set_mset_mset)

lemma sorted_insert_by:
  assumes "sorted_wrt le xs" and "transp le" and "totalp_on (insert x (set xs)) le" and "reflp le"
  shows "sorted_wrt le (insert_by le x xs)"
  using assms
proof (induction xs)
  case Nil
  then show ?case by simp
next
  case (Cons y ys)
  have set: "set (insert_by le x ys) = insert x (set ys)"
    by (metis mset_insert_by set_mset_add_mset_insert set_mset_mset)
  show ?case
  proof (cases "le x y")
    case True
    with Cons.prems show ?thesis by (auto dest: transpD)
  next
    case False
    with Cons.prems(3,4) have "le y x"
      by (metis insertI1 list.simps(15) insertCI reflpD totalp_onD)
    moreover have "totalp_on (insert x (set ys)) le"
      using Cons.prems(3) by (auto simp: totalp_on_def)
    ultimately show ?thesis using Cons.prems Cons.IH False set by auto
  qed
qed

lemma sorted_sort_by:
  assumes "transp le" and "totalp_on (set xs) le" and "reflp le"
  shows "sorted_wrt le (sort_by le xs)"
  using assms
proof (induction xs)
  case Nil
  then show ?case by simp
next
  case (Cons x xs)
  have "totalp_on (set xs) le" using Cons.prems(2) by (auto simp: totalp_on_def)
  then have "sorted_wrt le (sort_by le xs)" using Cons by simp
  then show ?case using Cons.prems by (simp add: sorted_insert_by)
qed

section \<open>Facts on decimal rendering\<close>

lemma decimal_nonempty: "decimal n \<noteq> []"
  by (subst decimal.simps) simp

lemma digit_char_inject: "a < 10 \<Longrightarrow> b < 10 \<Longrightarrow> digit_char a = digit_char b \<longleftrightarrow> a = b"
  by (auto simp: digit_char_def char_of_eq_iff take_bit_eq_mod)

lemma digit_char_not_colon: "d < 10 \<Longrightarrow> digit_char d \<noteq> CHR '':''"
proof
  assume d: "d < 10" and "digit_char d = CHR '':''"
  then have "(of_char (char_of (48 + d)) :: nat) = of_char CHR '':''"
    by (simp add: digit_char_def)
  with d show False by (simp add: of_char_of)
qed

lemma decimal_no_colon: "CHR '':'' \<notin> set (decimal n)"
proof (induction n rule: decimal.induct)
  case (1 n)
  then show ?case
    by (subst decimal.simps) (auto simp: digit_char_not_colon dest: sym)
qed

lemma decimal_inject [simp]: "decimal m = decimal n \<longleftrightarrow> m = n"
proof (induction m arbitrary: n rule: decimal.induct)
  case (1 m)
  have dm: "decimal m = (if m < 10 then [digit_char m]
      else decimal (m div 10) @ [digit_char (m mod 10)])" by (rule decimal.simps)
  have dn: "decimal n = (if n < 10 then [digit_char n]
      else decimal (n div 10) @ [digit_char (n mod 10)])" by (rule decimal.simps)
  show ?case
  proof
    assume eq: "decimal m = decimal n"
    show "m = n"
    proof (cases "m < 10")
      case True
      with eq dm dn show ?thesis
        by (auto simp: digit_char_inject decimal_nonempty decimal_nonempty [symmetric] split: if_splits)
    next
      case False
      with eq dm dn have n: "\<not> n < 10" by (auto simp: decimal_nonempty split: if_splits)
      with eq dm dn False have "decimal (m div 10) = decimal (n div 10)"
        and d: "digit_char (m mod 10) = digit_char (n mod 10)" by auto
      with "1.IH" [OF False] have "m div 10 = n div 10" by blast
      moreover from d have "m mod 10 = n mod 10" by (simp add: digit_char_inject)
      ultimately show ?thesis by (metis div_mult_mod_eq)
    qed
  qed simp
qed

text \<open>A field without the separator is recovered from the text in front of it.\<close>

lemma append_sep_inject:
  "c \<notin> set xs \<Longrightarrow> c \<notin> set ys \<Longrightarrow> xs @ c # us = ys @ c # vs \<longleftrightarrow> xs = ys \<and> us = vs"
proof (induction xs arbitrary: ys)
  case Nil
  then show ?case by (cases ys) auto
next
  case (Cons x xs)
  then show ?case by (cases ys) auto
qed

section \<open>Facts on BTreeMap iteration\<close>

lemma map_of_entries [btree_simps]: "map_of (entries m) = fmlookup m"
  by (simp add: entries_def map_of_sorted_list)

lemma keys_entries [btree_simps]: "map fst (entries m) = sorted_list_of_fset (fmdom m)"
  by (simp add: entries_def sorted_list_of_fmap_def comp_def)

lemma sorted_entries: "sorted_wrt (<) (map fst (entries m))"
  by (simp add: keys_entries sorted_list_of_fset.rep_eq strict_sorted_iff)

lemma distinct_entries: "distinct (map fst (entries m))"
  by (simp add: keys_entries sorted_list_of_fset.rep_eq)

lemma in_entries [btree_simps]: "(k, v) \<in> set (entries m) \<longleftrightarrow> fmlookup m k = Some v"
  by (metis distinct_entries map_of_entries map_of_eq_Some_iff)

lemma set_entries: "set (entries m) = {(k, v). fmlookup m k = Some v}"
  by (auto simp: in_entries)

lemma entries_keys_set [btree_simps]: "set (map fst (entries m)) = fset (fmdom m)"
  by (simp add: keys_entries)

lemma ball_entries [btree_simps]:
  "(\<forall>(k, v) \<in> set (entries m). P k v) \<longleftrightarrow> (\<forall>k v. fmlookup m k = Some v \<longrightarrow> P k v)"
  by (auto simp: set_entries)

lemma bex_entries [btree_simps]:
  "(\<exists>(k, v) \<in> set (entries m). P k v) \<longleftrightarrow> (\<exists>k v. fmlookup m k = Some v \<and> P k v)"
  by (auto simp: set_entries)

lemma map_of_rev_entries: "map_of (rev (entries m)) = fmlookup m"
  using map_of_inject_set [of "rev (entries m)" "entries m"] distinct_entries [of m]
  by (simp add: map_of_entries rev_map [symmetric])

lemma contains_key_dom [btree_simps]: "contains_key m k \<longleftrightarrow> k |\<in>| fmdom m"
  by (simp add: contains_key_def fmlookup_dom_iff)

lemma length_entries: "length (entries m) = map_len m"
  by (metis distinct_card distinct_entries entries_keys_set fcard.rep_eq length_map map_len_def)

lemma entries_empty [simp]: "entries fmempty = []"
  by (metis fmempty_lookup in_entries list.set_intros(1) neq_Nil_conv option.distinct(1) prod.exhaust)

lemma for_each_entries:
  "for_each (case_prod f) (entries m) = Inr u \<longleftrightarrow> (\<forall>k v. fmlookup m k = Some v \<longrightarrow> f k v = Inr ())"
  unfolding for_each_Inr by (auto simp: set_entries)

lemma list_all_entries:
  "list_all (case_prod p) (entries m) \<longleftrightarrow> (\<forall>k v. fmlookup m k = Some v \<longrightarrow> p k v)"
  unfolding list_all_iff by (auto simp: set_entries)

end
