(* ===== verification/Protocol_Types.thy ===== *)
theory Protocol_Types
  imports Sync_Prelude
begin

text \<open>
  The versioned, transport-neutral messages of \<open>surrealdb-sync/1\<close>
  (\<open>crates/surrealdb-sync-protocol/src/lib.rs\<close>).  Rust strings are byte sequences: \<open>len\<close>
  counts bytes and \<open>Ord\<close> compares them lexicographically, which is what \<open>length\<close> and the
  order of \<open>string\<close> do here.  Newtypes are one-constructor datatypes; \<open>RecordId\<close> is a
  \<open>BTreeMap\<close> key, so it is made an instance of \<open>linorder\<close> by the derived order of its
  string.
\<close>

section \<open>Identifiers\<close>

datatype schema_version = V1

datatype partition_id = PartitionId (partition_str: string)
datatype client_id = ClientId (client_str: string)
datatype client_commit_id = ClientCommitId (commit_str: string)
datatype fingerprint = Fingerprint (fingerprint_str: string)
datatype record_id = RecordId (record_str: string)
datatype scope_identity = ScopeIdentity (scope_str: string)
datatype opaque_checkpoint = OpaqueCheckpoint (token_str: string)

definition record_id_le :: "record_id \<Rightarrow> record_id \<Rightarrow> bool" where
  "record_id_le a b = (record_str a \<le> record_str b)"

definition record_id_lt :: "record_id \<Rightarrow> record_id \<Rightarrow> bool" where
  "record_id_lt a b = (record_str a < record_str b)"

instantiation record_id :: linorder
begin

definition less_eq_record_id :: "record_id \<Rightarrow> record_id \<Rightarrow> bool" where
  "less_eq_record_id = record_id_le"

definition less_record_id :: "record_id \<Rightarrow> record_id \<Rightarrow> bool" where
  "less_record_id = record_id_lt"

instance
  by standard (auto simp: less_eq_record_id_def less_record_id_def record_id_le_def record_id_lt_def
      intro: record_id.expand)

end

lemma record_id_less: "a < b \<longleftrightarrow> record_str a < record_str b"
  by (simp add: less_record_id_def record_id_lt_def)

definition v1_name :: string where
  "v1_name = ''surrealdb-sync/1''"

section \<open>Commits\<close>

record commit_identity =
  client_commit_id :: client_commit_id
  fingerprint :: fingerprint

datatype base_version = BaseAbsent | BaseExact u64

datatype 'v operation =
    Upsert record_id base_version 'v "record_id option"
  | Delete record_id u64

fun operation_record_id :: "'v operation \<Rightarrow> record_id" where
  "operation_record_id (Upsert r b v ref) = r"
| "operation_record_id (Delete r b) = r"

record 'v client_commit =
  identity :: commit_identity
  operations :: "'v operation list"

record 'v push_request =
  pq_schema_version :: schema_version
  pq_partition_id :: partition_id
  pq_client_id :: client_id
  pq_commit :: "'v client_commit"

section \<open>Outcomes\<close>

record id_mapping =
  local_id :: record_id
  canonical_id :: record_id

datatype 'v record_state =
    Absent
  | Present 'v u64 "record_id option"
  | Tombstone u64

fun record_state_version :: "'v record_state \<Rightarrow> u64 option" where
  "record_state_version Absent = None"
| "record_state_version (Present v n ref) = Some n"
| "record_state_version (Tombstone n) = Some n"

datatype reject_reason =
  InvalidOperation | CommitIdentityMismatch | Unauthorized | UnsupportedSchemaVersion

datatype 'v durable_outcome =
    Accepted commit_identity u64 "id_mapping list"
  | Conflict commit_identity record_id "'v record_state"
  | Rejected commit_identity reject_reason

fun outcome_identity :: "'v durable_outcome \<Rightarrow> commit_identity" where
  "outcome_identity (Accepted i s m) = i"
| "outcome_identity (Conflict i r a) = i"
| "outcome_identity (Rejected i r) = i"

record 'v push_response =
  ps_schema_version :: schema_version
  ps_partition_id :: partition_id
  ps_client_id :: client_id
  ps_outcome :: "'v durable_outcome"

section \<open>Pulls\<close>

record cursor =
  epoch :: u64
  sequence :: u64

record scope_snapshot =
  scope_id :: scope_identity
  authorization_revision :: u64
  scope_subscription_revision :: u64

record checkpoint =
  token :: opaque_checkpoint
  cursor :: cursor
  scope :: scope_snapshot

record pull_request =
  pl_schema_version :: schema_version
  pl_partition_id :: partition_id
  pl_client_id :: client_id
  pl_checkpoint :: "opaque_checkpoint option"
  pl_requested_scope :: scope_identity
  pl_subscription_revision :: u64

record 'v applied_record =
  ar_record_id :: record_id
  ar_state :: "'v record_state"

record 'v pull_commit =
  pc_sequence :: u64
  pc_source :: "commit_identity option"
  pc_records :: "'v applied_record list"

datatype 'v pull_frame =
    Start checkpoint
  | Commit opaque_checkpoint "'v pull_commit"
  | End checkpoint

record 'v pull_batch =
  frames :: "'v pull_frame list"

datatype reset_reason =
    CheckpointExpired | EpochChanged | AuthorizationChanged
  | SubscriptionChanged | ScopeChanged | ExternalWriteQuarantined

record 'v snapshot_record =
  sr_record_id :: record_id
  sr_state :: "'v record_state"

record 'v reset_snapshot =
  rs_reason :: reset_reason
  rs_checkpoint :: checkpoint
  rs_records :: "'v snapshot_record list"

datatype 'v pull_response =
    Batch "'v pull_batch"
  | Reset "'v reset_snapshot"

end
