(* ===== verification/Subscription_Types.thy ===== *)
theory Subscription_Types
  imports Protocol_Types
begin

text \<open>
  The ordered-window subscription protocol (\<open>crates/surrealdb-sync-protocol/src/subscription.rs\<close>):
  its messages, the derived order on sort keys (\<open>Bool < Int < Text\<close>, each by content, with
  \<open>i64\<close> compared as a signed integer) and the two structural validators every request and
  response passes before any state is touched.
\<close>

section \<open>Limits\<close>

definition max_subscriptions :: nat where "max_subscriptions = 32"
definition max_window_rows :: nat where "max_window_rows = 32"
definition max_parameters :: nat where "max_parameters = 8"
definition max_subscription_text :: nat where "max_subscription_text = 256"

section \<open>Scalars\<close>

datatype query_scalar = QBool bool | QInt i64 | QText string
datatype scalar_kind = KBool | KInt | KText

fun scalar_kind_of :: "query_scalar \<Rightarrow> scalar_kind" where
  "scalar_kind_of (QBool b) = KBool"
| "scalar_kind_of (QInt n) = KInt"
| "scalar_kind_of (QText s) = KText"

text \<open>The derived order: by variant, then by content.\<close>

fun query_scalar_le :: "query_scalar \<Rightarrow> query_scalar \<Rightarrow> bool" where
  "query_scalar_le (QBool a) (QBool b) = (a \<le> b)"
| "query_scalar_le (QBool a) _ = True"
| "query_scalar_le (QInt a) (QBool b) = False"
| "query_scalar_le (QInt a) (QInt b) = (sint a \<le> sint b)"
| "query_scalar_le (QInt a) (QText b) = True"
| "query_scalar_le (QText a) (QText b) = (a \<le> b)"
| "query_scalar_le (QText a) _ = False"

definition query_scalar_lt :: "query_scalar \<Rightarrow> query_scalar \<Rightarrow> bool" where
  "query_scalar_lt a b = (query_scalar_le a b \<and> \<not> query_scalar_le b a)"

instantiation query_scalar :: linorder
begin

definition less_eq_query_scalar :: "query_scalar \<Rightarrow> query_scalar \<Rightarrow> bool" where
  "less_eq_query_scalar = query_scalar_le"

definition less_query_scalar :: "query_scalar \<Rightarrow> query_scalar \<Rightarrow> bool" where
  "less_query_scalar = query_scalar_lt"

instance
proof
  fix x y z :: query_scalar
  show "(x < y) = (x \<le> y \<and> \<not> y \<le> x)"
    by (simp add: less_query_scalar_def less_eq_query_scalar_def query_scalar_lt_def)
  show "x \<le> x"
    by (cases x) (auto simp: less_eq_query_scalar_def)
  show "x \<le> y \<Longrightarrow> y \<le> z \<Longrightarrow> x \<le> z"
    by (cases x; cases y; cases z) (auto simp: less_eq_query_scalar_def)
  show "x \<le> y \<Longrightarrow> y \<le> x \<Longrightarrow> x = y"
    by (cases x; cases y) (auto simp: less_eq_query_scalar_def)
  show "x \<le> y \<or> y \<le> x"
    by (cases x; cases y) (auto simp: less_eq_query_scalar_def)
qed

end

lemma query_scalar_le_simps [simp]:
  "QBool a \<le> QBool b \<longleftrightarrow> a \<le> b" "QBool a \<le> QInt m" "QBool a \<le> QText s"
  "\<not> QInt m \<le> QBool b" "QInt m \<le> QInt n \<longleftrightarrow> sint m \<le> sint n" "QInt m \<le> QText s"
  "\<not> QText s \<le> QBool b" "\<not> QText s \<le> QInt n" "QText s \<le> QText t \<longleftrightarrow> s \<le> t"
  by (simp_all add: less_eq_query_scalar_def)

datatype sort_direction = Ascending | Descending

section \<open>Requests\<close>

datatype subscription_command =
    CmdStart string u64 string "(string, query_scalar) fmap" u16
  | CmdResume string u64 opaque_checkpoint
  | CmdCancel string u64

fun command_identity :: "subscription_command \<Rightarrow> string \<times> u64" where
  "command_identity (CmdStart i g d p l) = (i, g)"
| "command_identity (CmdResume i g t) = (i, g)"
| "command_identity (CmdCancel i g) = (i, g)"

fun is_start :: "subscription_command \<Rightarrow> bool" where
  "is_start (CmdStart i g d p l) = True"
| "is_start _ = False"

record subscription_request =
  sq_partition_id :: partition_id
  sq_client_id :: client_id
  sq_requested_scope :: scope_identity
  sq_subscription_revision :: u64
  sq_command :: subscription_command

definition valid_subscription_text :: "string \<Rightarrow> bool" where
  "valid_subscription_text value \<longleftrightarrow> value \<noteq> [] \<and> length value \<le> max_subscription_text"

fun scalar_text_bounded :: "query_scalar \<Rightarrow> bool" where
  "scalar_text_bounded (QText value) = (length value \<le> max_subscription_text)"
| "scalar_text_bounded _ = True"

definition validate_subscription_request :: "subscription_request \<Rightarrow> bool" where
  "validate_subscription_request request =
     (let (sid, generation) = command_identity (sq_command request) in
      if \<not> valid_subscription_text (partition_str (sq_partition_id request))
         \<or> \<not> valid_subscription_text (client_str (sq_client_id request))
         \<or> \<not> valid_subscription_text (scope_str (sq_requested_scope request))
         \<or> \<not> valid_subscription_text sid
         \<or> generation = 0
      then False
      else case sq_command request of
        CmdStart _ _ definition_id parameters limit \<Rightarrow>
          valid_subscription_text definition_id
          \<and> limit > 0
          \<and> unat limit \<le> max_window_rows
          \<and> map_len parameters \<le> max_parameters
          \<and> list_all (\<lambda>(key, value). valid_subscription_text key \<and> scalar_text_bounded value)
              (entries parameters)
      | CmdResume _ _ t \<Rightarrow> valid_subscription_text (token_str t)
      | CmdCancel _ _ \<Rightarrow> True)"

section \<open>Responses\<close>

record window_coverage =
  definition_id :: string
  limit :: u16
  order_field :: string
  order_kind :: scalar_kind
  direction :: sort_direction

record 'v subscription_row =
  row_record_id :: record_id
  row_value :: 'v
  row_version :: u64
  sort_key :: query_scalar

datatype 'v membership_change =
    MUpsert "'v subscription_row"
  | MLeave record_id
  | MDelete record_id u64

fun change_record_id :: "'v membership_change \<Rightarrow> record_id" where
  "change_record_id (MUpsert row) = row_record_id row"
| "change_record_id (MLeave r) = r"
| "change_record_id (MDelete r n) = r"

datatype window_reset_reason = Initial | Expired | Stale | WindowEpochChanged | PlanChanged

datatype window_response_kind =
    WSnapshot window_reset_reason
  | WDelta u64
  | WCancelled

record 'v subscription_response =
  sp_partition_id :: partition_id
  sp_client_id :: client_id
  sp_subscription_id :: string
  sp_generation :: u64
  sp_plan_fingerprint :: string
  sp_scope :: scope_snapshot
  sp_frontier :: cursor
  sp_view_revision :: u64
  sp_coverage :: window_coverage
  sp_response :: window_response_kind
  sp_token :: "opaque_checkpoint option"
  sp_ordered_ids :: "record_id list"
  sp_changes :: "'v membership_change list"

fun is_mupsert :: "'v membership_change \<Rightarrow> bool" where
  "is_mupsert (MUpsert row) = True"
| "is_mupsert _ = False"

definition response_shape :: "'v subscription_response \<Rightarrow> bool" where
  "response_shape response =
     (case sp_response response of
        WCancelled \<Rightarrow>
          sp_token response = None \<and> sp_ordered_ids response = [] \<and> sp_changes response = []
      | WSnapshot _ \<Rightarrow> sp_token response \<noteq> None \<and> list_all is_mupsert (sp_changes response)
      | WDelta _ \<Rightarrow> sp_token response \<noteq> None)"

fun change_valid :: "window_coverage \<Rightarrow> 'v membership_change \<Rightarrow> bool" where
  "change_valid coverage (MUpsert row) =
     (valid_subscription_text (record_str (row_record_id row))
      \<and> row_version row > 0
      \<and> scalar_kind_of (sort_key row) = order_kind coverage
      \<and> scalar_text_bounded (sort_key row))"
| "change_valid coverage (MLeave r) = valid_subscription_text (record_str r)"
| "change_valid coverage (MDelete r version) =
     (valid_subscription_text (record_str r) \<and> version > 0)"

definition validate_subscription_response :: "'v subscription_response \<Rightarrow> bool" where
  "validate_subscription_response response =
     (response_shape response
      \<and> card (set (map change_record_id (sp_changes response))) = length (sp_changes response)
      \<and> card (set (sp_ordered_ids response)) = length (sp_ordered_ids response)
      \<and> valid_subscription_text (partition_str (sp_partition_id response))
      \<and> valid_subscription_text (client_str (sp_client_id response))
      \<and> valid_subscription_text (sp_subscription_id response)
      \<and> sp_generation response > 0
      \<and> valid_subscription_text (sp_plan_fingerprint response)
      \<and> epoch (sp_frontier response) > 0
      \<and> sp_view_revision response > 0
      \<and> valid_subscription_text (scope_str (scope_id (sp_scope response)))
      \<and> valid_subscription_text (definition_id (sp_coverage response))
      \<and> valid_subscription_text (order_field (sp_coverage response))
      \<and> limit (sp_coverage response) > 0
      \<and> unat (limit (sp_coverage response)) \<le> max_window_rows
      \<and> length (sp_ordered_ids response) \<le> unat (limit (sp_coverage response))
      \<and> list_all (\<lambda>i. valid_subscription_text (record_str i)) (sp_ordered_ids response)
      \<and> length (sp_changes response) \<le> max_window_rows * 2
      \<and> (case sp_token response of None \<Rightarrow> True | Some t \<Rightarrow> valid_subscription_text (token_str t))
      \<and> list_all (change_valid (sp_coverage response)) (sp_changes response))"

end
