(* ===== verification/Client_State.thy ===== *)
theory Client_State
  imports Subscription_Types
begin

text \<open>
  The durable state of one partition/client/scope tuple
  (\<open>crates/surrealdb-sync-client/src/lib.rs\<close>, \<open>read.rs\<close>, \<open>subscriptions.rs\<close>) and the
  validation that every loaded or prepared state has to pass: commits, outcomes,
  conflict resolutions, checkpoint, reset coverage, subscriptions and the record-ID map.
  A \<open>BTreeMap\<close> is a finite map iterated by \<open>entries\<close>; a \<open>BTreeSet\<close> used only for
  membership is a set.
\<close>

section \<open>State\<close>

datatype conflict_resolution =
    ResKeepServer
  | ResPreferServerPolicyV1
  | ResKeepLocal commit_identity
  | ResMerge commit_identity

datatype automatic_conflict_policy = Manual | PreferServerV1

datatype 'v conflict_resolution_request =
    ReqKeepServer
  | ReqKeepLocal "'v client_commit"
  | ReqMerge "'v client_commit"

record 'v resolved_commit =
  local_commit :: "'v client_commit"
  outcome :: "'v durable_outcome"
  resolution :: "conflict_resolution option"
  covered_by_reset :: bool

record reset_coverage =
  cov_cursor :: cursor
  cov_scope :: scope_snapshot

record subscription_slot =
  slot_generation :: u64
  slot_plan_fingerprint :: string
  slot_scope :: scope_snapshot
  slot_frontier :: cursor
  slot_view_revision :: u64
  slot_coverage :: window_coverage
  ordered_ids :: "record_id list"
  slot_token :: opaque_checkpoint
  members :: "(record_id, string) fmap"

record 'v durable_subscriptions =
  requests :: "(string, subscription_request) fmap"
  slots :: "(string, subscription_slot) fmap"
  records :: "(string, 'v subscription_row) fmap"
  cancelled :: "(string, u64) fmap"
  authorization_scope :: "scope_snapshot option"

definition default_subscriptions :: "'v durable_subscriptions" where
  "default_subscriptions = \<lparr>requests = fmempty, slots = fmempty, records = fmempty,
     cancelled = fmempty, authorization_scope = None\<rparr>"

record 'v durable_client_state =
  partition_id :: partition_id
  client_id :: client_id
  requested_scope :: scope_identity
  subscription_revision :: u64
  revision :: u64
  confirmed :: "(record_id, 'v record_state) fmap"
  outbox :: "'v client_commit list"
  outcomes :: "'v resolved_commit list"
  checkpoint :: "checkpoint option"
  reset_coverage :: "reset_coverage option"
  id_map :: "(record_id, record_id) fmap"
  subscriptions :: "'v durable_subscriptions option"

definition empty_state ::
  "partition_id \<Rightarrow> client_id \<Rightarrow> scope_identity \<Rightarrow> u64 \<Rightarrow> 'v durable_client_state" where
  "empty_state p c s n = \<lparr>partition_id = p, client_id = c, requested_scope = s,
     subscription_revision = n, revision = 0, confirmed = fmempty, outbox = [], outcomes = [],
     checkpoint = None, reset_coverage = None, id_map = fmempty, subscriptions = None\<rparr>"

datatype client_error =
    InvalidSubscription
  | SubscriptionCancelled
  | EmptyCommit
  | DuplicateOperation record_id
  | DuplicateCommitId client_commit_id
  | UnknownCommit client_commit_id
  | UnknownConflict client_commit_id
  | ConflictAlreadyResolved client_commit_id
  | InvalidConflictResolution
  | OutcomeIdentityMismatch
  | EnvelopeMismatch
  | InvalidPullFraming
  | CheckpointMismatch
  | ScopeMismatch
  | InvalidReadCoverage
  | NeedsNewScopeJournal
  | PendingQuarantineRequired
  | CursorEpochMismatch
  | CursorWouldMoveBackward
  | CommitSequenceGap
  | DuplicateSnapshotRecord record_id
  | InvalidSnapshotVersion record_id
  | AbsentConfirmedRecord record_id
  | InvalidIdMapping id_mapping
  | IdMappingCollision record_id
  | MappedLocalIdRemains record_id
  | RevisionExhausted
  | StaleTransition u64 u64

section \<open>Outcome and identifier predicates\<close>

fun is_accepted :: "'v durable_outcome \<Rightarrow> bool" where
  "is_accepted (Accepted i s m) = True"
| "is_accepted _ = False"

fun is_conflict :: "'v durable_outcome \<Rightarrow> bool" where
  "is_conflict (Conflict i r a) = True"
| "is_conflict _ = False"

abbreviation commit_id_of :: "'v client_commit \<Rightarrow> client_commit_id" where
  "commit_id_of c \<equiv> client_commit_id (identity c)"

fun operation_contains_id :: "record_id \<Rightarrow> 'v operation \<Rightarrow> bool" where
  "operation_contains_id r (Upsert i b v ref) = (i = r \<or> ref = Some r)"
| "operation_contains_id r (Delete i b) = (i = r)"

definition commit_contains_id :: "'v client_commit \<Rightarrow> record_id \<Rightarrow> bool" where
  "commit_contains_id commit r = list_ex (operation_contains_id r) (operations commit)"

fun references_id :: "'v record_state \<Rightarrow> record_id \<Rightarrow> bool" where
  "references_id (Present v n (Some ref)) r = (ref = r)"
| "references_id _ r = False"

fun outcome_contains_id :: "'v durable_outcome \<Rightarrow> record_id \<Rightarrow> bool" where
  "outcome_contains_id (Conflict i c a) r = (c = r \<or> references_id a r)"
| "outcome_contains_id _ r = False"

definition identity_exists :: "'v durable_client_state \<Rightarrow> client_commit_id \<Rightarrow> bool" where
  "identity_exists state cid =
     (list_ex (\<lambda>c. commit_id_of c = cid) (outbox state)
      \<or> list_ex (\<lambda>r. commit_id_of (local_commit r) = cid) (outcomes state))"

text \<open>The pending-intent test the scope guards share: unsent commits or open conflicts.\<close>

definition has_pending_intent :: "'v durable_client_state \<Rightarrow> bool" where
  "has_pending_intent state =
     (outbox state \<noteq> []
      \<or> list_ex (\<lambda>r. is_conflict (outcome r) \<and> resolution r = None) (outcomes state))"

section \<open>Validation of commits and outcomes\<close>

fun validate_operations :: "record_id set \<Rightarrow> 'v operation list \<Rightarrow> client_error + unit" where
  "validate_operations seen [] = Inr ()"
| "validate_operations seen (op # ops) =
     (if operation_record_id op \<in> seen then Inl (DuplicateOperation (operation_record_id op))
      else validate_operations (insert (operation_record_id op) seen) ops)"

definition validate_commit :: "'v client_commit \<Rightarrow> client_error + unit" where
  "validate_commit commit =
     (if operations commit = [] then Inl EmptyCommit
      else validate_operations {} (operations commit))"

fun prefer_server_eligible :: "'v client_commit \<Rightarrow> 'v durable_outcome \<Rightarrow> bool" where
  "prefer_server_eligible commit (Conflict i r (Present v version ref)) =
     (case operations commit of
        [Upsert operation_id (BaseExact base) _ _] \<Rightarrow>
          operation_id = r \<and> base > 0 \<and> version > base
      | _ \<Rightarrow> False)"
| "prefer_server_eligible commit _ = False"

fun validate_outbox ::
  "client_commit_id set \<Rightarrow> 'v client_commit list \<Rightarrow> client_error + client_commit_id set" where
  "validate_outbox identities [] = Inr identities"
| "validate_outbox identities (commit # rest) =
     rbind (validate_commit commit) (\<lambda>_.
       if commit_id_of commit \<in> identities then Inl (DuplicateCommitId (commit_id_of commit))
       else validate_outbox (insert (commit_id_of commit) identities) rest)"

fun validate_outcomes ::
  "client_commit_id set \<Rightarrow> 'v resolved_commit list \<Rightarrow> client_error + client_commit_id set" where
  "validate_outcomes identities [] = Inr identities"
| "validate_outcomes identities (resolved # rest) =
     rbind (validate_commit (local_commit resolved)) (\<lambda>_.
       if covered_by_reset resolved \<and> \<not> is_accepted (outcome resolved)
       then Inl InvalidReadCoverage
       else if outcome_identity (outcome resolved) \<noteq> identity (local_commit resolved)
       then Inl OutcomeIdentityMismatch
       else let cid = commit_id_of (local_commit resolved) in
         if cid \<in> identities then Inl (DuplicateCommitId cid)
         else validate_outcomes (insert cid identities) rest)"

definition replacement_known :: "'v durable_client_state \<Rightarrow> commit_identity \<Rightarrow> bool" where
  "replacement_known state replacement =
     (list_ex (\<lambda>c. identity c = replacement) (outbox state)
      \<or> list_ex (\<lambda>r. identity (local_commit r) = replacement) (outcomes state))"

definition validate_resolution ::
  "'v durable_client_state \<Rightarrow> 'v resolved_commit \<Rightarrow> client_error + unit" where
  "validate_resolution state resolved =
     (case resolution resolved of
        None \<Rightarrow> Inr ()
      | Some res \<Rightarrow>
          if \<not> is_conflict (outcome resolved) then Inl InvalidConflictResolution
          else let check = (\<lambda>replacement.
            if replacement = identity (local_commit resolved) \<or> \<not> replacement_known state replacement
            then Inl InvalidConflictResolution else Inr ()) in
          (case res of
            ResKeepServer \<Rightarrow> Inr ()
          | ResPreferServerPolicyV1 \<Rightarrow>
              if prefer_server_eligible (local_commit resolved) (outcome resolved) then Inr ()
              else Inl InvalidConflictResolution
          | ResKeepLocal replacement \<Rightarrow> check replacement
          | ResMerge replacement \<Rightarrow> check replacement))"

definition validate_conflict_resolutions :: "'v durable_client_state \<Rightarrow> client_error + unit" where
  "validate_conflict_resolutions state = for_each (validate_resolution state) (outcomes state)"

section \<open>Validation of the checkpoint, the coverage and the ID map\<close>

definition validate_scope :: "'v durable_client_state \<Rightarrow> checkpoint \<Rightarrow> client_error + unit" where
  "validate_scope state cp =
     (if scope_id (scope cp) \<noteq> requested_scope state
         \<or> scope_subscription_revision (scope cp) \<noteq> subscription_revision state
      then Inl ScopeMismatch else Inr ())"

definition validate_checkpoint :: "'v durable_client_state \<Rightarrow> client_error + unit" where
  "validate_checkpoint state =
     rbind (for_each (\<lambda>(r, s). if s = Absent then Inl (AbsentConfirmedRecord r) else Inr ())
              (entries (confirmed state))) (\<lambda>_.
       case checkpoint state of
         None \<Rightarrow> Inr ()
       | Some cp \<Rightarrow>
           if token_str (token cp) = [] \<or> epoch (cursor cp) = 0 then Inl CheckpointMismatch
           else validate_scope state cp)"

definition validate_coverage :: "'v durable_client_state \<Rightarrow> client_error + unit" where
  "validate_coverage state =
     (case reset_coverage state of
        None \<Rightarrow> Inr ()
      | Some coverage \<Rightarrow>
          rbind (ok_or InvalidReadCoverage (checkpoint state)) (\<lambda>cp.
            if epoch (cov_cursor coverage) = 0
               \<or> epoch (cov_cursor coverage) \<noteq> epoch (cursor cp)
               \<or> sequence (cov_cursor coverage) > sequence (cursor cp)
               \<or> cov_scope coverage \<noteq> scope cp
            then Inl InvalidReadCoverage else Inr ()))"

definition validate_id_map :: "(record_id, record_id) fmap \<Rightarrow> client_error + unit" where
  "validate_id_map m =
     for_each (\<lambda>(l, c). if l = c \<or> contains_key m c
         then Inl (InvalidIdMapping \<lparr>local_id = l, canonical_id = c\<rparr>) else Inr ())
       (entries m)"

definition confirmed_contains :: "'v durable_client_state \<Rightarrow> record_id \<Rightarrow> bool" where
  "confirmed_contains state l =
     list_ex (\<lambda>(r, s). r = l \<or> references_id s l) (entries (confirmed state))"

definition outcomes_contain :: "'v durable_client_state \<Rightarrow> record_id \<Rightarrow> bool" where
  "outcomes_contain state l =
     list_ex (\<lambda>r. commit_contains_id (local_commit r) l \<or> outcome_contains_id (outcome r) l)
       (outcomes state)"

definition validate_no_mapped_local_ids :: "'v durable_client_state \<Rightarrow> client_error + unit" where
  "validate_no_mapped_local_ids state =
     for_each (\<lambda>(l, _).
         if confirmed_contains state l
            \<or> list_ex (\<lambda>c. commit_contains_id c l) (outbox state)
            \<or> outcomes_contain state l
         then Inl (MappedLocalIdRemains l) else Inr ())
       (entries (id_map state))"

section \<open>Validation of the durable subscriptions\<close>

definition cache_key :: "u64 \<Rightarrow> 'v subscription_row \<Rightarrow> string" where
  "cache_key ep row =
     decimal (unat ep) @ '':'' @ decimal (unat (row_version row)) @ '':''
     @ decimal (length (record_str (row_record_id row))) @ '':''
     @ record_str (row_record_id row)"

text \<open>Strictly before in the window order: by sort key in the window's direction, then by ID.\<close>

fun row_less :: "sort_direction \<Rightarrow> 'v subscription_row \<Rightarrow> 'v subscription_row \<Rightarrow> bool" where
  "row_less Ascending a b =
     (sort_key a < sort_key b
      \<or> (sort_key a = sort_key b \<and> row_record_id a < row_record_id b))"
| "row_less Descending a b =
     (sort_key b < sort_key a
      \<or> (sort_key a = sort_key b \<and> row_record_id a < row_record_id b))"

definition ordered ::
  "(record_id, 'v subscription_row) fmap \<Rightarrow> window_coverage \<Rightarrow> record_id list" where
  "ordered rows coverage =
     map row_record_id
       (sort_by (\<lambda>a b. \<not> row_less (direction coverage) b a) (map snd (entries rows)))"

definition collect_records :: "'v durable_subscriptions \<Rightarrow> 'v durable_subscriptions" where
  "collect_records subs =
     (let used = set (concat (map (\<lambda>(_, slot). map snd (entries (members slot))) (entries (slots subs))))
      in subs\<lparr>records := fmfilter (\<lambda>key. key \<in> used) (records subs)\<rparr>)"

definition request_owned ::
  "'v durable_client_state \<Rightarrow> subscription_request \<Rightarrow> bool" where
  "request_owned owner request =
     (sq_partition_id request = partition_id owner
      \<and> sq_client_id request = client_id owner
      \<and> sq_requested_scope request = requested_scope owner
      \<and> sq_subscription_revision request = subscription_revision owner)"

definition validate_requests ::
  "'v durable_subscriptions \<Rightarrow> 'v durable_client_state \<Rightarrow> client_error + unit" where
  "validate_requests self owner =
     for_each (\<lambda>(i, request).
         ensure (validate_subscription_request request
                 \<and> is_start (sq_command request)
                 \<and> fst (command_identity (sq_command request)) = i
                 \<and> request_owned owner request) InvalidSubscription)
       (entries (requests self))"

definition validate_authorization_scope ::
  "'v durable_subscriptions \<Rightarrow> 'v durable_client_state \<Rightarrow> client_error + unit" where
  "validate_authorization_scope self owner =
     (case authorization_scope self of
        Some s \<Rightarrow>
          ensure (scope_id s = requested_scope owner
                  \<and> scope_subscription_revision s = subscription_revision owner
                  \<and> \<not> is_some_and (checkpoint owner) (\<lambda>cp. scope cp \<noteq> s)) InvalidSubscription
      | None \<Rightarrow> ensure (slots self = fmempty) InvalidSubscription)"

fun row_text_valid :: "query_scalar \<Rightarrow> bool" where
  "row_text_valid (QText text) = valid_subscription_text text"
| "row_text_valid _ = True"

definition validate_member ::
  "'v durable_subscriptions \<Rightarrow> subscription_slot \<Rightarrow>
   string set \<times> (record_id, 'v subscription_row) fmap \<Rightarrow> record_id \<times> string \<Rightarrow>
   client_error + string set \<times> (record_id, 'v subscription_row) fmap" where
  "validate_member self slot acc entry =
     (let (used, rows) = acc; (r, key) = entry in
      rbind (ok_or InvalidSubscription (fmlookup (records self) key)) (\<lambda>row.
      rbind (ensure (valid_subscription_text (record_str r)
                     \<and> row_text_valid (sort_key row)
                     \<and> row_record_id row = r
                     \<and> cache_key (epoch (slot_frontier slot)) row = key
                     \<and> scalar_kind_of (sort_key row) = order_kind (slot_coverage slot)
                     \<and> row_version row \<noteq> 0) InvalidSubscription) (\<lambda>_.
      Inr (insert key used, fmupd r row rows))))"

definition slot_header_valid ::
  "'v durable_subscriptions \<Rightarrow> 'v durable_client_state \<Rightarrow> string \<Rightarrow> subscription_slot \<Rightarrow>
   subscription_request \<Rightarrow> bool" where
  "slot_header_valid self owner i slot request =
     (snd (command_identity (sq_command request)) = slot_generation slot
      \<and> \<not> is_some_and (fmlookup (cancelled self) i) (\<lambda>barrier. barrier \<ge> slot_generation slot)
      \<and> epoch (slot_frontier slot) \<noteq> 0
      \<and> slot_view_revision slot \<noteq> 0
      \<and> scope_id (slot_scope slot) = requested_scope owner
      \<and> scope_subscription_revision (slot_scope slot) = subscription_revision owner
      \<and> valid_subscription_text (slot_plan_fingerprint slot)
      \<and> valid_subscription_text (token_str (slot_token slot))
      \<and> limit (slot_coverage slot) \<noteq> 0
      \<and> unat (limit (slot_coverage slot)) \<le> max_window_rows
      \<and> map_len (members slot) \<le> unat (limit (slot_coverage slot)))"

fun start_matches_coverage :: "subscription_command \<Rightarrow> window_coverage \<Rightarrow> bool" where
  "start_matches_coverage (CmdStart _ _ d _ l) coverage =
     (d = definition_id coverage \<and> l = limit coverage)"
| "start_matches_coverage _ coverage = True"

definition validate_slot ::
  "'v durable_subscriptions \<Rightarrow> 'v durable_client_state \<Rightarrow> string set \<Rightarrow>
   string \<times> subscription_slot \<Rightarrow> client_error + string set" where
  "validate_slot self owner used entry =
     (let (i, slot) = entry in
      rbind (ok_or InvalidSubscription (fmlookup (requests self) i)) (\<lambda>request.
      rbind (ensure (authorization_scope self = Some (slot_scope slot)) InvalidSubscription) (\<lambda>_.
      rbind (ensure (slot_header_valid self owner i slot request) InvalidSubscription) (\<lambda>_.
      rbind (ensure (start_matches_coverage (sq_command request) (slot_coverage slot))
               InvalidSubscription) (\<lambda>_.
      rbind (ensure (valid_subscription_text (order_field (slot_coverage slot)))
               InvalidSubscription) (\<lambda>_.
      rbind (try_fold (validate_member self slot) (used, fmempty) (entries (members slot)))
        (\<lambda>(used', rows).
      rbind (ensure (map_len rows = length (ordered_ids slot)
                     \<and> card (set (ordered_ids slot)) = map_len rows
                     \<and> list_all (contains_key rows) (ordered_ids slot)) InvalidSubscription) (\<lambda>_.
      rbind (for_each (\<lambda>(x, y).
               rbind (ok_or InvalidSubscription (fmlookup rows x)) (\<lambda>a.
               rbind (ok_or InvalidSubscription (fmlookup rows y)) (\<lambda>b.
                 ensure (row_less (direction (slot_coverage slot)) a b) InvalidSubscription)))
               (windows2 (ordered_ids slot))) (\<lambda>_.
      Inr used')))))))))"

definition validate_subscriptions ::
  "'v durable_subscriptions \<Rightarrow> 'v durable_client_state \<Rightarrow> client_error + unit" where
  "validate_subscriptions self owner =
     rbind (ensure (map_len (requests self) \<le> max_subscriptions
                    \<and> map_len (cancelled self) \<le> max_subscriptions
                    \<and> map_len (slots self) \<le> max_subscriptions
                    \<and> map_len (records self) \<le> max_subscriptions * max_window_rows)
              InvalidSubscription) (\<lambda>_.
     rbind (validate_requests self owner) (\<lambda>_.
     rbind (for_each (\<lambda>(i, barrier).
              ensure (valid_subscription_text i \<and> barrier \<noteq> 0) InvalidSubscription)
              (entries (cancelled self))) (\<lambda>_.
     rbind (ensure (fcard (fmdom (requests self) |\<union>| fmdom (cancelled self)) \<le> max_subscriptions)
              InvalidSubscription) (\<lambda>_.
     rbind (validate_authorization_scope self owner) (\<lambda>_.
     rbind (try_fold (validate_slot self owner) {} (entries (slots self))) (\<lambda>used.
     ensure (list_all (\<lambda>(key, _). key \<in> used) (entries (records self))) InvalidSubscription))))))"

section \<open>Validation of a whole state\<close>

definition validate :: "'v durable_client_state \<Rightarrow> client_error + unit" where
  "validate state =
     rbind (validate_outbox {} (outbox state)) (\<lambda>identities.
     rbind (validate_outcomes identities (outcomes state)) (\<lambda>_.
     rbind (validate_conflict_resolutions state) (\<lambda>_.
     rbind (validate_checkpoint state) (\<lambda>_.
     rbind (validate_coverage state) (\<lambda>_.
     rbind (case subscriptions state of None \<Rightarrow> Inr () | Some subs \<Rightarrow> validate_subscriptions subs state)
       (\<lambda>_.
     rbind (validate_id_map (id_map state)) (\<lambda>_.
     validate_no_mapped_local_ids state)))))))"

section \<open>What the validators accept\<close>

definition all_commits :: "'v durable_client_state \<Rightarrow> 'v client_commit list" where
  "all_commits state = outbox state @ map local_commit (outcomes state)"

definition well_formed_commit :: "'v client_commit \<Rightarrow> bool" where
  "well_formed_commit commit \<longleftrightarrow>
     operations commit \<noteq> [] \<and> distinct (map operation_record_id (operations commit))"

text \<open>A record ID occurs in the canonical rows, the pending commits or the kept outcomes.\<close>

definition occurs :: "'v durable_client_state \<Rightarrow> record_id \<Rightarrow> bool" where
  "occurs state l \<longleftrightarrow>
     (\<exists>r s. fmlookup (confirmed state) r = Some s \<and> (r = l \<or> references_id s l))
     \<or> (\<exists>c \<in> set (all_commits state). commit_contains_id c l)
     \<or> (\<exists>r \<in> set (outcomes state). outcome_contains_id (outcome r) l)"

definition valid_outcome :: "'v durable_client_state \<Rightarrow> 'v resolved_commit \<Rightarrow> bool" where
  "valid_outcome state r \<longleftrightarrow>
     (covered_by_reset r \<longrightarrow> is_accepted (outcome r))
     \<and> outcome_identity (outcome r) = identity (local_commit r)
     \<and> validate_resolution state r = Inr ()"

definition valid_position :: "'v durable_client_state \<Rightarrow> bool" where
  "valid_position state \<longleftrightarrow>
     (\<forall>r. fmlookup (confirmed state) r \<noteq> Some Absent)
     \<and> (\<forall>cp. checkpoint state = Some cp \<longrightarrow>
           token_str (token cp) \<noteq> [] \<and> epoch (cursor cp) \<noteq> 0
           \<and> scope_id (scope cp) = requested_scope state
           \<and> scope_subscription_revision (scope cp) = subscription_revision state)
     \<and> (\<forall>cov. reset_coverage state = Some cov \<longrightarrow>
           (\<exists>cp. checkpoint state = Some cp \<and> epoch (cov_cursor cov) \<noteq> 0
              \<and> epoch (cov_cursor cov) = epoch (cursor cp)
              \<and> sequence (cov_cursor cov) \<le> sequence (cursor cp) \<and> cov_scope cov = scope cp))"

definition valid_mappings :: "'v durable_client_state \<Rightarrow> bool" where
  "valid_mappings state \<longleftrightarrow>
     (\<forall>l c. fmlookup (id_map state) l = Some c \<longrightarrow>
        l \<noteq> c \<and> c |\<notin>| fmdom (id_map state) \<and> \<not> occurs state l)"

text \<open>The declarative reading of \<open>DurableClientState::validate\<close>.\<close>

definition valid_state :: "'v durable_client_state \<Rightarrow> bool" where
  "valid_state state \<longleftrightarrow>
     (\<forall>c \<in> set (all_commits state). well_formed_commit c)
     \<and> distinct (map commit_id_of (all_commits state))
     \<and> (\<forall>r \<in> set (outcomes state). valid_outcome state r)
     \<and> valid_position state
     \<and> (\<forall>subs. subscriptions state = Some subs \<longrightarrow> validate_subscriptions subs state = Inr ())
     \<and> valid_mappings state"

lemma validate_operations_Inr [result_conv]:
  "validate_operations seen ops = Inr u \<longleftrightarrow>
     distinct (map operation_record_id ops) \<and> operation_record_id ` set ops \<inter> seen = {}"
  by (induction ops arbitrary: seen) auto

lemma validate_commit_Inr [result_conv]: "validate_commit c = Inr u \<longleftrightarrow> well_formed_commit c"
  by (auto simp: validate_commit_def well_formed_commit_def result_conv)

lemma validate_outbox_Inr [result_conv]:
  "validate_outbox ids cs = Inr ids' \<longleftrightarrow>
     (\<forall>c \<in> set cs. well_formed_commit c) \<and> distinct (map commit_id_of cs)
     \<and> commit_id_of ` set cs \<inter> ids = {} \<and> ids' = ids \<union> commit_id_of ` set cs"
  by (induction cs arbitrary: ids) (auto simp: result_conv)

lemma validate_outcomes_Inr [result_conv]:
  "validate_outcomes ids rs = Inr ids' \<longleftrightarrow>
     (\<forall>r \<in> set rs. well_formed_commit (local_commit r)
        \<and> (covered_by_reset r \<longrightarrow> is_accepted (outcome r))
        \<and> outcome_identity (outcome r) = identity (local_commit r))
     \<and> distinct (map (commit_id_of \<circ> local_commit) rs)
     \<and> (commit_id_of \<circ> local_commit) ` set rs \<inter> ids = {}
     \<and> ids' = ids \<union> (commit_id_of \<circ> local_commit) ` set rs"
  by (induction rs arbitrary: ids) (auto simp: result_conv Let_def split: if_splits)

lemma validate_scope_Inr [result_conv]:
  "validate_scope state cp = Inr u \<longleftrightarrow>
     scope_id (scope cp) = requested_scope state
     \<and> scope_subscription_revision (scope cp) = subscription_revision state"
  by (auto simp: validate_scope_def)

lemma if_Inl_Inr: "(if b then Inl e else Inr ()) = Inr u \<longleftrightarrow> \<not> b"
  by simp

lemma validate_position:
  "validate_checkpoint state = Inr () \<and> validate_coverage state = Inr () \<longleftrightarrow> valid_position state"
  unfolding validate_checkpoint_def validate_coverage_def valid_position_def rbind_Inr
    for_each_entries if_Inl_Inr
  by (auto simp: result_conv split: option.splits if_splits)

lemma list_ex_contains:
  "list_ex (\<lambda>r. commit_contains_id (local_commit r) l \<or> outcome_contains_id (outcome r) l) rs \<longleftrightarrow>
     (\<exists>r \<in> set rs. commit_contains_id (local_commit r) l)
     \<or> (\<exists>r \<in> set rs. outcome_contains_id (outcome r) l)"
  by (auto simp: list_ex_iff)

lemma occurs_checks:
  "confirmed_contains state l \<or> list_ex (\<lambda>c. commit_contains_id c l) (outbox state)
     \<or> outcomes_contain state l \<longleftrightarrow> occurs state l"
  unfolding confirmed_contains_def outcomes_contain_def occurs_def all_commits_def list_ex_contains
  by (auto simp: list_ex_iff btree_simps)

lemma validate_mappings:
  "validate_id_map (id_map state) = Inr () \<and> validate_no_mapped_local_ids state = Inr () \<longleftrightarrow>
     valid_mappings state"
  unfolding validate_id_map_def validate_no_mapped_local_ids_def valid_mappings_def
    for_each_entries if_Inl_Inr occurs_checks contains_key_dom
  by blast

lemma validate_iff: "validate state = Inr () \<longleftrightarrow> valid_state state"
proof -
  have "(\<exists>ids. validate_outbox {} (outbox state) = Inr ids
            \<and> (\<exists>ids'. validate_outcomes ids (outcomes state) = Inr ids'))
          \<and> validate_conflict_resolutions state = Inr () \<longleftrightarrow>
        (\<forall>c \<in> set (all_commits state). well_formed_commit c)
          \<and> distinct (map commit_id_of (all_commits state))
          \<and> (\<forall>r \<in> set (outcomes state). valid_outcome state r)"
    unfolding all_commits_def valid_outcome_def validate_conflict_resolutions_def
    by (auto simp: result_conv)
  moreover have "validate state = Inr () \<longleftrightarrow>
      (\<exists>ids. validate_outbox {} (outbox state) = Inr ids
            \<and> (\<exists>ids'. validate_outcomes ids (outcomes state) = Inr ids'))
      \<and> validate_conflict_resolutions state = Inr ()
      \<and> (validate_checkpoint state = Inr () \<and> validate_coverage state = Inr ())
      \<and> (\<forall>subs. subscriptions state = Some subs \<longrightarrow> validate_subscriptions subs state = Inr ())
      \<and> (validate_id_map (id_map state) = Inr () \<and> validate_no_mapped_local_ids state = Inr ())"
    unfolding validate_def by (auto simp: rbind_Inr split: option.splits)
  ultimately show ?thesis
    unfolding validate_position validate_mappings valid_state_def by blast
qed

lemma validate_not_Inl: "validate state \<noteq> Inr () \<longleftrightarrow> (\<exists>e. validate state = Inl e)"
  by (cases "validate state") auto

section \<open>Sample data\<close>

text \<open>A small journal with string values, used by the witnesses of the component theories.\<close>

definition demo_state :: "string durable_client_state" where
  "demo_state = empty_state (PartitionId ''primary'') (ClientId ''client-a'') (ScopeIdentity ''scope'') 1"

definition demo_identity :: "string \<Rightarrow> commit_identity" where
  "demo_identity s = \<lparr>client_commit_id = ClientCommitId s, fingerprint = Fingerprint (''sha256:'' @ s)\<rparr>"

definition demo_commit :: "string \<Rightarrow> string \<Rightarrow> string \<Rightarrow> string client_commit" where
  "demo_commit c r v = \<lparr>identity = demo_identity c,
     operations = [Upsert (RecordId r) BaseAbsent v None]\<rparr>"

definition demo_scope :: scope_snapshot where
  "demo_scope = \<lparr>scope_id = ScopeIdentity ''scope'', authorization_revision = 1,
     scope_subscription_revision = 1\<rparr>"

definition demo_checkpoint :: "u64 \<Rightarrow> checkpoint" where
  "demo_checkpoint n = \<lparr>token = OpaqueCheckpoint ''t'', cursor = \<lparr>epoch = 1, sequence = n\<rparr>,
     scope = demo_scope\<rparr>"

end
