(* ===== verification/Client_Runtime.thy ===== *)
theory Client_Runtime
  imports Client_State
begin

text \<open>
  The storage-neutral transitions of \<open>ClientRuntime\<close>
  (\<open>crates/surrealdb-sync-client/src/lib.rs\<close>): every \<open>prepare_*\<close> computes a complete
  replacement state without installing it, \<open>install\<close> switches to a prepared state.  The
  subscription guard of \<open>subscriptions.rs\<close> that pulls and snapshots call is here too.
  \<open>u64\<close> arithmetic wraps, as in the release profile of the workspace.
\<close>

record 'v prepared_transition =
  base_revision :: u64
  prepared_state :: "'v durable_client_state"

record 'v client_runtime =
  rt_state :: "'v durable_client_state"

definition open_runtime :: "'v durable_client_state \<Rightarrow> client_error + 'v client_runtime" where
  "open_runtime state = rbind (validate state) (\<lambda>_. Inr \<lparr>rt_state = state\<rparr>)"

definition prepare ::
  "'v client_runtime \<Rightarrow> 'v durable_client_state \<Rightarrow> client_error + 'v prepared_transition" where
  "prepare rt next =
     rbind (if next \<noteq> rt_state rt
            then rbind (ok_or RevisionExhausted (checked_add (revision (rt_state rt)) 1))
                   (\<lambda>r. Inr (next\<lparr>revision := r\<rparr>))
            else Inr next) (\<lambda>next'.
     rbind (validate next') (\<lambda>_.
       Inr \<lparr>base_revision = revision (rt_state rt), prepared_state = next'\<rparr>))"

definition install ::
  "'v client_runtime \<Rightarrow> 'v prepared_transition \<Rightarrow> client_error + 'v client_runtime" where
  "install rt prepared =
     (if base_revision prepared \<noteq> revision (rt_state rt)
      then Inl (StaleTransition (base_revision prepared) (revision (rt_state rt)))
      else Inr (rt\<lparr>rt_state := prepared_state prepared\<rparr>))"

section \<open>Local commits\<close>

definition prepare_enqueue ::
  "'v client_runtime \<Rightarrow> 'v client_commit \<Rightarrow> client_error + 'v prepared_transition" where
  "prepare_enqueue rt commit =
     rbind (validate_commit commit) (\<lambda>_.
       if identity_exists (rt_state rt) (commit_id_of commit)
       then Inl (DuplicateCommitId (commit_id_of commit))
       else prepare rt ((rt_state rt)\<lparr>outbox := outbox (rt_state rt) @ [commit]\<rparr>))"

section \<open>Record-ID remapping\<close>

definition remap_record_id :: "id_mapping \<Rightarrow> record_id \<Rightarrow> record_id" where
  "remap_record_id m r = (if r = local_id m then canonical_id m else r)"

fun remap_operation :: "id_mapping \<Rightarrow> 'v operation \<Rightarrow> 'v operation" where
  "remap_operation m (Upsert r b v ref) =
     Upsert (remap_record_id m r) b v (map_option (remap_record_id m) ref)"
| "remap_operation m (Delete r b) = Delete (remap_record_id m r) b"

definition remap_commit :: "id_mapping \<Rightarrow> 'v client_commit \<Rightarrow> 'v client_commit" where
  "remap_commit m commit = commit\<lparr>operations := map (remap_operation m) (operations commit)\<rparr>"

fun remap_reference :: "id_mapping \<Rightarrow> 'v record_state \<Rightarrow> 'v record_state" where
  "remap_reference m (Present v n (Some ref)) = Present v n (Some (remap_record_id m ref))"
| "remap_reference m s = s"

fun remap_outcome :: "id_mapping \<Rightarrow> 'v durable_outcome \<Rightarrow> 'v durable_outcome" where
  "remap_outcome m (Conflict i r a) = Conflict i (remap_record_id m r) (remap_reference m a)"
| "remap_outcome m oc = oc"

definition remap_resolved :: "id_mapping \<Rightarrow> 'v resolved_commit \<Rightarrow> 'v resolved_commit" where
  "remap_resolved m r =
     r\<lparr>local_commit := remap_commit m (local_commit r), outcome := remap_outcome m (outcome r)\<rparr>"

definition move_confirmed ::
  "id_mapping \<Rightarrow> (record_id, 'v record_state) fmap \<Rightarrow>
   client_error + (record_id, 'v record_state) fmap" where
  "move_confirmed m conf =
     (case fmlookup conf (local_id m) of
        None \<Rightarrow> Inr conf
      | Some local_state \<Rightarrow>
          (let removed = fmdrop (local_id m) conf in
           case fmlookup removed (canonical_id m) of
             Some canonical_state \<Rightarrow>
               if canonical_state \<noteq> local_state then Inl (IdMappingCollision (canonical_id m))
               else Inr removed
           | None \<Rightarrow> Inr (fmupd (canonical_id m) local_state removed)))"

definition apply_id_mapping ::
  "'v durable_client_state \<Rightarrow> id_mapping \<Rightarrow> client_error + 'v durable_client_state" where
  "apply_id_mapping state m =
     (if local_id m = canonical_id m \<or> contains_key (id_map state) (canonical_id m)
      then Inl (InvalidIdMapping m)
      else case fmlookup (id_map state) (local_id m) of
        Some existing \<Rightarrow>
          if existing = canonical_id m then Inr state else Inl (InvalidIdMapping m)
      | None \<Rightarrow>
          rbind (move_confirmed m (confirmed state)) (\<lambda>conf.
            Inr (state\<lparr>confirmed := fmmap (remap_reference m) conf,
                       outbox := map (remap_commit m) (outbox state),
                       outcomes := map (remap_resolved m) (outcomes state),
                       id_map := fmupd (local_id m) (canonical_id m)
                                   (fmmap (remap_record_id m) (id_map state))\<rparr>)))"

section \<open>Push outcomes\<close>

fun accepted_mappings :: "'v durable_outcome \<Rightarrow> id_mapping list" where
  "accepted_mappings (Accepted i s ms) = ms"
| "accepted_mappings _ = []"

definition resolve_pushed ::
  "automatic_conflict_policy \<Rightarrow> 'v durable_outcome \<Rightarrow> 'v client_commit \<Rightarrow> 'v resolved_commit" where
  "resolve_pushed policy oc commit =
     (let lc = fold remap_commit (accepted_mappings oc) commit in
      \<lparr>local_commit = lc, outcome = oc,
       resolution = (if policy = PreferServerV1 \<and> prefer_server_eligible lc oc
                     then Some ResPreferServerPolicyV1 else None),
       covered_by_reset = False\<rparr>)"

definition prepare_push_response_with_policy ::
  "'v client_runtime \<Rightarrow> 'v push_response \<Rightarrow> automatic_conflict_policy \<Rightarrow>
   client_error + 'v prepared_transition" where
  "prepare_push_response_with_policy rt response policy =
     (let state = rt_state rt; oc = ps_outcome response; ident = outcome_identity oc in
      if ps_schema_version response \<noteq> V1 \<or> ps_partition_id response \<noteq> partition_id state
         \<or> ps_client_id response \<noteq> client_id state
      then Inl EnvelopeMismatch
      else case List.find (\<lambda>r. commit_id_of (local_commit r) = client_commit_id ident) (outcomes state) of
        Some resolved \<Rightarrow>
          if outcome resolved = oc then prepare rt state else Inl OutcomeIdentityMismatch
      | None \<Rightarrow>
          rbind (ok_or (UnknownCommit (client_commit_id ident))
                   (position (\<lambda>c. identity c = ident) (outbox state))) (\<lambda>index.
          let commit = outbox state ! index in
          rbind (try_fold apply_id_mapping (state\<lparr>outbox := remove_at index (outbox state)\<rparr>)
                   (accepted_mappings oc)) (\<lambda>next.
          prepare rt (next\<lparr>outcomes := outcomes next @ [resolve_pushed policy oc commit]\<rparr>))))"

definition prepare_push_response ::
  "'v client_runtime \<Rightarrow> 'v push_response \<Rightarrow> client_error + 'v prepared_transition" where
  "prepare_push_response rt response = prepare_push_response_with_policy rt response Manual"

section \<open>Conflict resolution\<close>

definition validate_replacement_identity ::
  "'v durable_client_state \<Rightarrow> 'v client_commit \<Rightarrow> client_error + unit" where
  "validate_replacement_identity state replacement =
     rbind (validate_commit replacement) (\<lambda>_.
       if identity_exists state (commit_id_of replacement)
       then Inl (DuplicateCommitId (commit_id_of replacement)) else Inr ())"

definition known_commit :: "'v durable_client_state \<Rightarrow> 'v client_commit \<Rightarrow> bool" where
  "known_commit state c = list_ex (\<lambda>d. d = c) (outbox state @ map local_commit (outcomes state))"

fun resolution_request_matches ::
  "'v durable_client_state \<Rightarrow> conflict_resolution \<Rightarrow> 'v conflict_resolution_request \<Rightarrow> bool" where
  "resolution_request_matches state ResKeepServer ReqKeepServer = True"
| "resolution_request_matches state ResPreferServerPolicyV1 ReqKeepServer = True"
| "resolution_request_matches state (ResKeepLocal i) (ReqKeepLocal replacement) =
     (i = identity replacement \<and> known_commit state replacement)"
| "resolution_request_matches state (ResMerge i) (ReqMerge replacement) =
     (i = identity replacement \<and> known_commit state replacement)"
| "resolution_request_matches state _ _ = False"

fun same_operation_intent :: "'v operation \<Rightarrow> 'v operation \<Rightarrow> bool" where
  "same_operation_intent (Upsert r b v ref) (Upsert r' b' v' ref') = (r = r' \<and> v = v' \<and> ref = ref')"
| "same_operation_intent (Delete r b) (Delete r' b') = (r = r')"
| "same_operation_intent _ _ = False"

definition same_intent :: "'v client_commit \<Rightarrow> 'v client_commit \<Rightarrow> bool" where
  "same_intent original replacement =
     (length (operations original) = length (operations replacement)
      \<and> list_all (\<lambda>(a, b). same_operation_intent a b)
          (zip (operations original) (operations replacement)))"

fun base_matches :: "'v operation \<Rightarrow> 'v record_state \<Rightarrow> bool" where
  "base_matches (Upsert r BaseAbsent v ref) Absent = True"
| "base_matches (Upsert r (BaseExact base) v ref) (Present w version wref) = (base = version)"
| "base_matches (Upsert r (BaseExact base) v ref) (Tombstone version) = (base = version)"
| "base_matches (Delete r base) (Present w version wref) = (base = version)"
| "base_matches _ _ = False"

definition commit_matches_authoritative_base ::
  "'v client_commit \<Rightarrow> record_id \<Rightarrow> 'v record_state \<Rightarrow> bool" where
  "commit_matches_authoritative_base commit r authoritative =
     is_some_and (List.find (\<lambda>op. operation_record_id op = r) (operations commit))
       (\<lambda>op. base_matches op authoritative)"

definition resolve_at ::
  "'v client_runtime \<Rightarrow> nat \<Rightarrow> record_id \<Rightarrow> 'v record_state \<Rightarrow>
   'v conflict_resolution_request \<Rightarrow> client_error + 'v prepared_transition" where
  "resolve_at rt index r authoritative request =
     (let state = rt_state rt; resolved = outcomes state ! index;
          decide = (\<lambda>res. (outcomes state)[index := resolved\<lparr>resolution := Some res\<rparr>]) in
      case request of
        ReqKeepServer \<Rightarrow> prepare rt (state\<lparr>outcomes := decide ResKeepServer\<rparr>)
      | ReqKeepLocal replacement \<Rightarrow>
          rbind (validate_replacement_identity state replacement) (\<lambda>_.
            if \<not> same_intent (local_commit resolved) replacement
               \<or> \<not> commit_matches_authoritative_base replacement r authoritative
            then Inl InvalidConflictResolution
            else prepare rt (state\<lparr>outcomes := decide (ResKeepLocal (identity replacement)),
                                   outbox := outbox state @ [replacement]\<rparr>))
      | ReqMerge replacement \<Rightarrow>
          rbind (validate_replacement_identity state replacement) (\<lambda>_.
            if \<not> commit_matches_authoritative_base replacement r authoritative
            then Inl InvalidConflictResolution
            else prepare rt (state\<lparr>outcomes := decide (ResMerge (identity replacement)),
                                   outbox := outbox state @ [replacement]\<rparr>)))"

text \<open>
  The third branch of the inner case is the source's \<open>unreachable!\<close>: \<open>position\<close> found a
  conflict.  The lemma \<open>resolve_conflict_cases\<close> below shows that it is never taken.
\<close>

definition prepare_resolve_conflict ::
  "'v client_runtime \<Rightarrow> client_commit_id \<Rightarrow> 'v conflict_resolution_request \<Rightarrow>
   client_error + 'v prepared_transition" where
  "prepare_resolve_conflict rt conflicted request =
     (let state = rt_state rt in
      rbind (ok_or (UnknownConflict conflicted)
               (position (\<lambda>r. commit_id_of (local_commit r) = conflicted \<and> is_conflict (outcome r))
                  (outcomes state))) (\<lambda>index.
      case resolution (outcomes state ! index) of
        Some res \<Rightarrow>
          if resolution_request_matches state res request then prepare rt state
          else Inl (ConflictAlreadyResolved conflicted)
      | None \<Rightarrow>
          (case outcome (outcomes state ! index) of
             Conflict i r authoritative \<Rightarrow> resolve_at rt index r authoritative request
           | _ \<Rightarrow> Inl (UnknownConflict conflicted))))"

section \<open>Pull batches\<close>

fun frame_commits ::
  "opaque_checkpoint \<Rightarrow> 'v pull_frame list \<Rightarrow> client_error + 'v pull_commit list" where
  "frame_commits tok [] = Inr []"
| "frame_commits tok (Commit cp commit # rest) =
     (if cp \<noteq> tok then Inl CheckpointMismatch
      else rbind (frame_commits tok rest) (\<lambda>cs. Inr (commit # cs)))"
| "frame_commits tok (_ # rest) = Inl InvalidPullFraming"

fun check_sequence :: "u64 \<Rightarrow> 'v pull_commit list \<Rightarrow> client_error + u64" where
  "check_sequence expected [] = Inr expected"
| "check_sequence expected (commit # rest) =
     (if pc_sequence commit \<noteq> expected then Inl CommitSequenceGap
      else check_sequence (expected + 1) rest)"

definition current_sequence :: "'v durable_client_state \<Rightarrow> checkpoint \<Rightarrow> u64" where
  "current_sequence state end_cp =
     (case checkpoint state of
        None \<Rightarrow> 0
      | Some current \<Rightarrow>
          if epoch (cursor current) = epoch (cursor end_cp) then sequence (cursor current) else 0)"

fun frame_ends :: "'v pull_frame list \<Rightarrow> (checkpoint \<times> checkpoint) option" where
  "frame_ends [] = None"
| "frame_ends (f # fs) =
     (case (f, last (f # fs)) of (Start s, End e) \<Rightarrow> Some (s, e) | _ \<Rightarrow> None)"

definition check_against_current ::
  "'v durable_client_state \<Rightarrow> checkpoint \<Rightarrow> client_error + unit" where
  "check_against_current state end_cp =
     (case checkpoint state of
        None \<Rightarrow> Inr ()
      | Some current \<Rightarrow>
          if scope end_cp \<noteq> scope current then Inl ScopeMismatch
          else if epoch (cursor end_cp) \<noteq> epoch (cursor current) then Inl CursorEpochMismatch
          else if sequence (cursor end_cp) < sequence (cursor current)
          then Inl CursorWouldMoveBackward
          else Inr ())"

definition check_commit_sequences ::
  "'v durable_client_state \<Rightarrow> checkpoint \<Rightarrow> 'v pull_commit list \<Rightarrow> client_error + unit" where
  "check_commit_sequences state end_cp commits =
     rbind (for_each (\<lambda>(a, b). ensure (pc_sequence b = saturating_add (pc_sequence a) 1)
              CommitSequenceGap) (windows2 commits)) (\<lambda>_.
     rbind (ensure (commits = [] \<or> pc_sequence (last commits) = sequence (cursor end_cp))
              CommitSequenceGap) (\<lambda>_.
     if sequence (cursor end_cp) > current_sequence state end_cp
     then rbind (check_sequence (current_sequence state end_cp + 1) commits) (\<lambda>expected.
            ensure (expected - 1 = sequence (cursor end_cp)) CommitSequenceGap)
     else Inr ()))"

definition validate_pull_batch ::
  "'v durable_client_state \<Rightarrow> 'v pull_batch \<Rightarrow>
   client_error + checkpoint \<times> 'v pull_commit list" where
  "validate_pull_batch state batch =
     rbind (ok_or InvalidPullFraming (frame_ends (frames batch))) (\<lambda>(start_cp, end_cp).
       if start_cp \<noteq> end_cp then Inl CheckpointMismatch
       else
         rbind (validate_scope state end_cp) (\<lambda>_.
         rbind (check_against_current state end_cp) (\<lambda>_.
         rbind (frame_commits (token end_cp) (butlast (tl (frames batch)))) (\<lambda>commits.
         rbind (check_commit_sequences state end_cp commits) (\<lambda>_.
         Inr (end_cp, commits))))))"

definition guard_subscription_scope ::
  "'v durable_client_state \<Rightarrow> scope_snapshot \<Rightarrow> client_error + unit" where
  "guard_subscription_scope state s =
     (if is_some_and (Option.bind (subscriptions state) authorization_scope) (\<lambda>previous. previous \<noteq> s)
      then if has_pending_intent state then Inl PendingQuarantineRequired
           else Inl NeedsNewScopeJournal
      else Inr ())"

definition apply_record ::
  "'v applied_record \<Rightarrow> (record_id, 'v record_state) fmap \<Rightarrow> (record_id, 'v record_state) fmap" where
  "apply_record rec conf =
     (case ar_state rec of
        Absent \<Rightarrow> fmdrop (ar_record_id rec) conf
      | s \<Rightarrow> fmupd (ar_record_id rec) s conf)"

definition apply_commits ::
  "'v pull_commit list \<Rightarrow> (record_id, 'v record_state) fmap \<Rightarrow> (record_id, 'v record_state) fmap" where
  "apply_commits commits conf = fold (\<lambda>c. fold apply_record (pc_records c)) commits conf"

definition prepare_pull_batch ::
  "'v client_runtime \<Rightarrow> 'v pull_batch \<Rightarrow> client_error + 'v prepared_transition" where
  "prepare_pull_batch rt batch =
     (let state = rt_state rt in
      rbind (validate_pull_batch state batch) (\<lambda>(cp, commits).
      rbind (guard_subscription_scope state (scope cp)) (\<lambda>_.
        if is_some_and (checkpoint state)
             (\<lambda>current. sequence (cursor cp) = sequence (cursor current))
        then if checkpoint state = Some cp then prepare rt state
             else if commits \<noteq> [] then Inl InvalidPullFraming
             else prepare rt (state\<lparr>checkpoint := Some cp\<rparr>)
        else prepare rt (state\<lparr>confirmed := apply_commits commits (confirmed state),
                              checkpoint := Some cp\<rparr>))))"

section \<open>Snapshots\<close>

fun snapshot_confirmed ::
  "record_id set \<Rightarrow> (record_id, 'v record_state) fmap \<Rightarrow> 'v snapshot_record list \<Rightarrow>
   client_error + (record_id, 'v record_state) fmap" where
  "snapshot_confirmed seen conf [] = Inr conf"
| "snapshot_confirmed seen conf (rec # rest) =
     (if sr_record_id rec \<in> seen then Inl (DuplicateSnapshotRecord (sr_record_id rec))
      else snapshot_confirmed (insert (sr_record_id rec) seen)
             (if sr_state rec \<noteq> Absent then fmupd (sr_record_id rec) (sr_state rec) conf else conf)
             rest)"

definition same_epoch :: "'v durable_client_state \<Rightarrow> checkpoint \<Rightarrow> bool" where
  "same_epoch state cp =
     is_some_and (checkpoint state) (\<lambda>current. epoch (cursor current) = epoch (cursor cp))"

definition cover_outcome ::
  "bool \<Rightarrow> u64 \<Rightarrow> 'v resolved_commit \<Rightarrow> 'v resolved_commit" where
  "cover_outcome same frontier r =
     (case outcome r of
        Accepted i s ms \<Rightarrow> if \<not> same \<or> s \<le> frontier then r\<lparr>covered_by_reset := True\<rparr> else r
      | _ \<Rightarrow> r)"

definition check_snapshot_frontier ::
  "'v durable_client_state \<Rightarrow> checkpoint \<Rightarrow> client_error + unit" where
  "check_snapshot_frontier state incoming =
     (case checkpoint state of
        None \<Rightarrow> Inr ()
      | Some current \<Rightarrow>
          if epoch (cursor incoming) < epoch (cursor current)
             \<or> (epoch (cursor incoming) = epoch (cursor current)
                \<and> sequence (cursor incoming) < sequence (cursor current))
          then Inl CursorWouldMoveBackward
          else if authorization_revision (scope incoming) < authorization_revision (scope current)
          then Inl ScopeMismatch
          else if scope incoming \<noteq> scope current
          then if has_pending_intent state then Inl PendingQuarantineRequired
               else if outcomes state \<noteq> [] then Inl NeedsNewScopeJournal
               else Inr ()
          else Inr ())"

definition prepare_snapshot ::
  "'v client_runtime \<Rightarrow> checkpoint \<Rightarrow> 'v snapshot_record list \<Rightarrow>
   client_error + 'v prepared_transition" where
  "prepare_snapshot rt cp recs =
     (let state = rt_state rt in
      rbind (validate_scope state cp) (\<lambda>_.
      rbind (guard_subscription_scope state (scope cp)) (\<lambda>_.
      rbind (check_snapshot_frontier state cp) (\<lambda>_.
      rbind (snapshot_confirmed {} fmempty recs) (\<lambda>conf.
      prepare rt (state\<lparr>confirmed := conf,
        outcomes := map (cover_outcome (same_epoch state cp) (sequence (cursor cp))) (outcomes state),
        reset_coverage := Some \<lparr>cov_cursor = cursor cp, cov_scope = scope cp\<rparr>,
        checkpoint := Some cp\<rparr>))))))"

definition prepare_reset ::
  "'v client_runtime \<Rightarrow> 'v reset_snapshot \<Rightarrow> client_error + 'v prepared_transition" where
  "prepare_reset rt snapshot = prepare_snapshot rt (rs_checkpoint snapshot) (rs_records snapshot)"

fun check_bootstrap_record :: "'v snapshot_record \<Rightarrow> client_error + unit" where
  "check_bootstrap_record rec =
     (case sr_state rec of
        Absent \<Rightarrow> Inl (AbsentConfirmedRecord (sr_record_id rec))
      | Present v n ref \<Rightarrow> if n = 0 then Inl (InvalidSnapshotVersion (sr_record_id rec)) else Inr ()
      | Tombstone n \<Rightarrow> if n = 0 then Inl (InvalidSnapshotVersion (sr_record_id rec)) else Inr ())"

definition prepare_bootstrap_snapshot ::
  "'v client_runtime \<Rightarrow> checkpoint \<Rightarrow> 'v snapshot_record list \<Rightarrow>
   client_error + 'v prepared_transition" where
  "prepare_bootstrap_snapshot rt cp recs =
     (if \<not> same_epoch (rt_state rt) cp
         \<and> list_ex (\<lambda>r. is_accepted (outcome r)) (outcomes (rt_state rt))
      then Inl NeedsNewScopeJournal
      else rbind (for_each check_bootstrap_record recs) (\<lambda>_. prepare_snapshot rt cp recs))"

fun prepare_pull_response ::
  "'v client_runtime \<Rightarrow> 'v pull_response \<Rightarrow> client_error + 'v prepared_transition" where
  "prepare_pull_response rt (Batch batch) = prepare_pull_batch rt batch"
| "prepare_pull_response rt (Reset snapshot) = prepare_reset rt snapshot"

section \<open>The optimistic projection\<close>

datatype 'v optimistic_record =
    OptPresent 'v base_version "record_id option"
  | OptDeleted u64

definition applied_sequence :: "'v durable_client_state \<Rightarrow> u64" where
  "applied_sequence state =
     (case checkpoint state of None \<Rightarrow> 0 | Some cp \<Rightarrow> sequence (cursor cp))"

fun accepted_not_pulled :: "u64 \<Rightarrow> 'v resolved_commit \<Rightarrow> 'v client_commit option" where
  "accepted_not_pulled applied r =
     (case outcome r of
        Accepted i s ms \<Rightarrow>
          if \<not> covered_by_reset r \<and> s > applied then Some (local_commit r) else None
      | _ \<Rightarrow> None)"

definition optimistic_operations :: "'v durable_client_state \<Rightarrow> 'v operation list" where
  "optimistic_operations state =
     concat (map operations
       (List.map_filter (accepted_not_pulled (applied_sequence state)) (outcomes state)
        @ outbox state))"

fun optimistic_of_record :: "'v record_state \<Rightarrow> 'v optimistic_record option" where
  "optimistic_of_record Absent = None"
| "optimistic_of_record (Present v n ref) = Some (OptPresent v (BaseExact n) ref)"
| "optimistic_of_record (Tombstone n) = Some (OptDeleted n)"

fun optimistic_of_operation :: "'v operation \<Rightarrow> 'v optimistic_record" where
  "optimistic_of_operation (Upsert r b v ref) = OptPresent v b ref"
| "optimistic_of_operation (Delete r b) = OptDeleted b"

definition optimistic_projection ::
  "'v durable_client_state \<Rightarrow> (record_id, 'v optimistic_record) fmap" where
  "optimistic_projection state =
     fold (\<lambda>op. fmupd (operation_record_id op) (optimistic_of_operation op))
       (optimistic_operations state)
       (fmap_of_list (List.map_filter
          (\<lambda>(r, s). map_option (Pair r) (optimistic_of_record s)) (entries (confirmed state))))"

end
