(* ===== verification/Client_Read.thy ===== *)
theory Client_Read
  imports Client_Runtime
begin

text \<open>
  The additive local read protocol (\<open>crates/surrealdb-sync-client/src/read.rs\<close>): the
  snapshot of one installed revision, its metadata, and the committed batch of row
  changes between two installed revisions.
\<close>

definition read_protocol_version :: u8 where "read_protocol_version = 1"

record read_scope_v1 =
  rd_partition_id :: partition_id
  rd_scope_identity :: scope_identity
  rd_subscription_revision :: u64
  rd_authorization_revision :: "u64 option"

datatype read_readiness_v1 = LocalAvailableAwaitingCoverage | AuthorizedScopeAsOf

datatype read_coverage_v1 = CoverageUnknown | AuthorizedReset cursor

record read_metadata_v1 =
  md_revision :: u64
  md_scope :: read_scope_v1
  md_as_of :: "cursor option"
  md_readiness :: read_readiness_v1
  md_coverage :: read_coverage_v1

datatype read_confirmed_absence_v1 = NotAbsent | AbsenceUnknown | AbsentWithinAuthorizedScope

record read_conflict_v1 =
  cf_identity :: commit_identity
  cf_resolution :: "conflict_resolution option"

datatype read_accepted_status_v1 = CoveredByAuthorizedReset | AwaitingPullEpochUnknown

record read_accepted_v1 =
  ac_identity :: commit_identity
  ac_sequence :: u64
  ac_status :: read_accepted_status_v1

record 'v read_row_v1 =
  rr_record_id :: record_id
  rr_confirmed :: "'v record_state"
  rr_confirmed_absence :: read_confirmed_absence_v1
  rr_optimistic :: "'v optimistic_record option"
  rr_pending :: "commit_identity list"
  rr_conflicts :: "read_conflict_v1 list"
  rr_accepted :: "read_accepted_v1 list"

record 'v read_snapshot_v1 =
  sn_protocol_version :: u8
  sn_metadata :: read_metadata_v1
  sn_rows :: "(record_id, 'v read_row_v1) fmap"

datatype 'v read_row_change_v1 =
    RowUpsert "'v read_row_v1"
  | RowRemove record_id

record 'v committed_read_batch_v1 =
  cb_protocol_version :: u8
  cb_before_revision :: u64
  cb_revision :: u64
  cb_metadata :: read_metadata_v1
  cb_changes :: "'v read_row_change_v1 list"

datatype scope_transition_decision_v1 =
  Unchanged | DecideNeedsNewScopeJournal | DecidePendingQuarantineRequired

section \<open>Snapshots\<close>

definition metadata :: "'v durable_client_state \<Rightarrow> read_metadata_v1" where
  "metadata state =
     \<lparr>md_revision = revision state,
      md_scope = \<lparr>rd_partition_id = partition_id state,
                  rd_scope_identity = requested_scope state,
                  rd_subscription_revision = subscription_revision state,
                  rd_authorization_revision =
                    map_option (\<lambda>c. authorization_revision (scope c)) (checkpoint state)\<rparr>,
      md_as_of = map_option cursor (checkpoint state),
      md_readiness = (if reset_coverage state \<noteq> None then AuthorizedScopeAsOf
                      else LocalAvailableAwaitingCoverage),
      md_coverage = (case reset_coverage state of
                       None \<Rightarrow> CoverageUnknown
                     | Some coverage \<Rightarrow> AuthorizedReset (cov_cursor coverage))\<rparr>"

definition empty_row :: "bool \<Rightarrow> record_id \<Rightarrow> 'v read_row_v1" where
  "empty_row complete r =
     \<lparr>rr_record_id = r, rr_confirmed = Absent,
      rr_confirmed_absence = (if complete then AbsentWithinAuthorizedScope else AbsenceUnknown),
      rr_optimistic = None, rr_pending = [], rr_conflicts = [], rr_accepted = []\<rparr>"

text \<open>\<open>rows.entry(id).or_insert_with(empty_row)\<close> followed by an update in place.\<close>

definition update_row ::
  "bool \<Rightarrow> record_id \<Rightarrow> ('v read_row_v1 \<Rightarrow> 'v read_row_v1) \<Rightarrow>
   (record_id, 'v read_row_v1) fmap \<Rightarrow> (record_id, 'v read_row_v1) fmap" where
  "update_row complete r f rows =
     fmupd r (f (case fmlookup rows r of None \<Rightarrow> empty_row complete r | Some row \<Rightarrow> row)) rows"

definition confirmed_row :: "bool \<Rightarrow> record_id \<Rightarrow> 'v record_state \<Rightarrow> 'v read_row_v1" where
  "confirmed_row complete r s =
     (empty_row complete r)\<lparr>rr_confirmed := s, rr_confirmed_absence := NotAbsent\<rparr>"

definition push_pending :: "commit_identity \<Rightarrow> 'v read_row_v1 \<Rightarrow> 'v read_row_v1" where
  "push_pending i row = row\<lparr>rr_pending := rr_pending row @ [i]\<rparr>"

definition push_outcome :: "'v resolved_commit \<Rightarrow> 'v read_row_v1 \<Rightarrow> 'v read_row_v1" where
  "push_outcome resolved row =
     (case outcome resolved of
        Accepted i s ms \<Rightarrow>
          row\<lparr>rr_accepted := rr_accepted row @
            [\<lparr>ac_identity = identity (local_commit resolved), ac_sequence = s,
              ac_status = (if covered_by_reset resolved then CoveredByAuthorizedReset
                           else AwaitingPullEpochUnknown)\<rparr>]\<rparr>
      | Conflict i r a \<Rightarrow>
          row\<lparr>rr_conflicts := rr_conflicts row @
            [\<lparr>cf_identity = identity (local_commit resolved), cf_resolution = resolution resolved\<rparr>]\<rparr>
      | Rejected i rs \<Rightarrow> row)"

definition confirmed_rows ::
  "'v durable_client_state \<Rightarrow> (record_id, 'v read_row_v1) fmap" where
  "confirmed_rows state =
     fold (\<lambda>(r, s). fmupd r (confirmed_row (reset_coverage state \<noteq> None) r s))
       (entries (confirmed state)) fmempty"

definition add_optimistic ::
  "'v durable_client_state \<Rightarrow> (record_id, 'v read_row_v1) fmap \<Rightarrow> (record_id, 'v read_row_v1) fmap" where
  "add_optimistic state rows =
     fold (\<lambda>(r, oc). update_row (reset_coverage state \<noteq> None) r (\<lambda>row. row\<lparr>rr_optimistic := Some oc\<rparr>))
       (entries (optimistic_projection state)) rows"

definition add_pending ::
  "'v durable_client_state \<Rightarrow> (record_id, 'v read_row_v1) fmap \<Rightarrow> (record_id, 'v read_row_v1) fmap" where
  "add_pending state rows =
     fold (\<lambda>commit. fold (\<lambda>op. update_row (reset_coverage state \<noteq> None) (operation_record_id op)
                                  (push_pending (identity commit))) (operations commit))
       (outbox state) rows"

fun is_rejected :: "'v durable_outcome \<Rightarrow> bool" where
  "is_rejected (Rejected i r) = True"
| "is_rejected _ = False"

definition add_outcomes ::
  "'v durable_client_state \<Rightarrow> (record_id, 'v read_row_v1) fmap \<Rightarrow> (record_id, 'v read_row_v1) fmap" where
  "add_outcomes state rows =
     fold (\<lambda>resolved. fold (\<lambda>op rows.
              if is_rejected (outcome resolved) then rows
              else update_row (reset_coverage state \<noteq> None) (operation_record_id op)
                     (push_outcome resolved) rows) (operations (local_commit resolved)))
       (outcomes state) rows"

definition read_snapshot :: "'v durable_client_state \<Rightarrow> 'v read_snapshot_v1" where
  "read_snapshot state =
     \<lparr>sn_protocol_version = read_protocol_version,
      sn_metadata = metadata state,
      sn_rows = add_outcomes state (add_pending state (add_optimistic state (confirmed_rows state)))\<rparr>"

definition snapshot_row :: "'v read_snapshot_v1 \<Rightarrow> record_id \<Rightarrow> 'v read_row_v1" where
  "snapshot_row snapshot r =
     (case fmlookup (sn_rows snapshot) r of
        Some row \<Rightarrow> row
      | None \<Rightarrow> empty_row (case md_coverage (sn_metadata snapshot) of
                            AuthorizedReset _ \<Rightarrow> True | CoverageUnknown \<Rightarrow> False) r)"

definition scope_transition_decision ::
  "'v client_runtime \<Rightarrow> scope_identity \<Rightarrow> u64 \<Rightarrow> scope_transition_decision_v1" where
  "scope_transition_decision rt requested sub_revision =
     (if requested = requested_scope (rt_state rt)
         \<and> sub_revision = subscription_revision (rt_state rt)
      then Unchanged
      else if has_pending_intent (rt_state rt) then DecidePendingQuarantineRequired
      else DecideNeedsNewScopeJournal)"

section \<open>Committed batches\<close>

definition row_changes ::
  "(record_id, 'v read_row_v1) fmap \<Rightarrow> (record_id, 'v read_row_v1) fmap \<Rightarrow>
   'v read_row_change_v1 list" where
  "row_changes before after =
     List.map_filter (\<lambda>r.
         if fmlookup before r \<noteq> fmlookup after r
         then Some (case fmlookup after r of Some row \<Rightarrow> RowUpsert row | None \<Rightarrow> RowRemove r)
         else None)
       (sorted_list_of_fset (fmdom before |\<union>| fmdom after))"

definition committed_batch ::
  "'v durable_client_state \<Rightarrow> 'v durable_client_state \<Rightarrow> 'v committed_read_batch_v1 option" where
  "committed_batch before after =
     (if revision before = revision after then None
      else let b = read_snapshot before; a = read_snapshot after in
        Some \<lparr>cb_protocol_version = read_protocol_version,
              cb_before_revision = md_revision (sn_metadata b),
              cb_revision = md_revision (sn_metadata a),
              cb_metadata = sn_metadata a,
              cb_changes = row_changes (sn_rows b) (sn_rows a)\<rparr>)"

definition install_with_read_batch ::
  "'v client_runtime \<Rightarrow> 'v prepared_transition \<Rightarrow>
   client_error + 'v client_runtime \<times> 'v committed_read_batch_v1 option" where
  "install_with_read_batch rt prepared =
     (if base_revision prepared \<noteq> revision (rt_state rt)
      then Inl (StaleTransition (base_revision prepared) (revision (rt_state rt)))
      else Inr (rt\<lparr>rt_state := prepared_state prepared\<rparr>,
                committed_batch (rt_state rt) (prepared_state prepared)))"

end
