(* ===== verification/Client_Subscriptions.thy ===== *)
theory Client_Subscriptions
  imports Client_Runtime
begin

text \<open>
  Durable ordered-window subscriptions (\<open>crates/surrealdb-sync-client/src/subscriptions.rs\<close>):
  starting and cancelling a generation, installing a server response (a snapshot, a delta
  or a cancellation), and reading the installed window and the resume request back.
\<close>

definition subscriptions_or_default :: "'v durable_client_state \<Rightarrow> 'v durable_subscriptions" where
  "subscriptions_or_default state =
     (case subscriptions state of None \<Rightarrow> default_subscriptions | Some subs \<Rightarrow> subs)"

section \<open>Start and cancel\<close>

definition prepare_start_subscription ::
  "'v client_runtime \<Rightarrow> subscription_request \<Rightarrow> client_error + 'v prepared_transition" where
  "prepare_start_subscription rt request =
     (let state = rt_state rt; (i, generation) = command_identity (sq_command request);
          subs = subscriptions_or_default state;
          start = (if \<not> contains_key (requests subs) i \<and> \<not> contains_key (cancelled subs) i
                      \<and> fcard (fmdom (requests subs) |\<union>| fmdom (cancelled subs)) \<ge> max_subscriptions
                   then Inl InvalidSubscription
                   else prepare rt (state\<lparr>subscriptions := Some (collect_records
                     (subs\<lparr>slots := fmdrop i (slots subs),
                           requests := fmupd i request (requests subs)\<rparr>))\<rparr>)) in
      if \<not> validate_subscription_request request \<or> \<not> is_start (sq_command request)
         \<or> \<not> request_owned state request
      then Inl InvalidSubscription
      else if is_some_and (fmlookup (cancelled subs) i) (\<lambda>barrier. barrier \<ge> generation)
      then Inl SubscriptionCancelled
      else case fmlookup (requests subs) i of
        Some previous \<Rightarrow>
          if previous = request then prepare rt (state\<lparr>subscriptions := Some subs\<rparr>)
          else if snd (command_identity (sq_command previous)) \<ge> generation
          then Inl InvalidSubscription else start
      | None \<Rightarrow> start)"

definition prepare_cancel_subscription ::
  "'v client_runtime \<Rightarrow> string \<Rightarrow> u64 \<Rightarrow> client_error + 'v prepared_transition" where
  "prepare_cancel_subscription rt i generation =
     (let state = rt_state rt; subs = subscriptions_or_default state in
      if \<not> valid_subscription_text i \<or> generation = 0 then Inl InvalidSubscription
      else if \<not> contains_key (cancelled subs) i \<and> map_len (cancelled subs) \<ge> max_subscriptions
      then Inl InvalidSubscription
      else if is_some_and (fmlookup (requests subs) i)
                (\<lambda>request. snd (command_identity (sq_command request)) > generation)
      then Inl InvalidSubscription
      else
        let barrier = (case fmlookup (cancelled subs) i of None \<Rightarrow> generation | Some b \<Rightarrow> max b generation)
        in prepare rt (state\<lparr>subscriptions := Some (collect_records
             (subs\<lparr>cancelled := fmupd i barrier (cancelled subs),
                   slots := fmdrop i (slots subs),
                   requests := fmdrop i (requests subs)\<rparr>))\<rparr>))"

section \<open>Responses\<close>

text \<open>The admission checks of \<open>prepare_subscription_response\<close> before any row is looked at.\<close>

definition response_matches_request ::
  "'v durable_client_state \<Rightarrow> subscription_request \<Rightarrow> string \<Rightarrow> u16 \<Rightarrow>
   'v subscription_response \<Rightarrow> bool" where
  "response_matches_request state request d l response =
     (sp_partition_id response = partition_id state
      \<and> sp_client_id response = client_id state
      \<and> sp_generation response = snd (command_identity (sq_command request))
      \<and> scope_id (sp_scope response) = requested_scope state
      \<and> scope_subscription_revision (sp_scope response) = subscription_revision state
      \<and> definition_id (sp_coverage response) = d
      \<and> limit (sp_coverage response) = l
      \<and> epoch (sp_frontier response) \<noteq> 0
      \<and> sp_view_revision response \<noteq> 0
      \<and> length (sp_changes response) \<le> max_window_rows * 2
      \<and> length (sp_ordered_ids response) \<le> unat l
      \<and> valid_subscription_text (sp_plan_fingerprint response))"

definition pending_or_new_journal :: "'v durable_client_state \<Rightarrow> client_error" where
  "pending_or_new_journal state =
     (if has_pending_intent state then PendingQuarantineRequired else NeedsNewScopeJournal)"

definition check_response_progress ::
  "'v durable_client_state \<Rightarrow> subscription_slot option \<Rightarrow> 'v subscription_response \<Rightarrow>
   client_error + unit" where
  "check_response_progress state previous response =
     (if is_some_and (checkpoint state) (\<lambda>cp. scope cp \<noteq> sp_scope response)
      then Inl (pending_or_new_journal state)
      else case previous of
        None \<Rightarrow> Inr ()
      | Some p \<Rightarrow>
          if sp_scope response \<noteq> slot_scope p then Inl (pending_or_new_journal state)
          else ensure (\<not> (epoch (sp_frontier response) < epoch (slot_frontier p)
                 \<or> (epoch (sp_frontier response) = epoch (slot_frontier p)
                    \<and> sequence (sp_frontier response) < sequence (slot_frontier p))
                 \<or> sp_view_revision response < slot_view_revision p)) InvalidSubscription)"

fun change_already_installed ::
  "'v durable_subscriptions \<Rightarrow> subscription_slot \<Rightarrow> 'v membership_change \<Rightarrow> bool" where
  "change_already_installed current p (MUpsert row) =
     (Option.bind (fmlookup (members p) (row_record_id row)) (fmlookup (records current)) = Some row)"
| "change_already_installed current p (MLeave r) = (\<not> contains_key (members p) r)"
| "change_already_installed current p (MDelete r n) = (\<not> contains_key (members p) r)"

definition is_replay ::
  "'v durable_subscriptions \<Rightarrow> subscription_slot \<Rightarrow> 'v subscription_response \<Rightarrow> bool" where
  "is_replay current p response =
     (sp_scope response = slot_scope p
      \<and> sp_frontier response = slot_frontier p
      \<and> sp_plan_fingerprint response = slot_plan_fingerprint p
      \<and> sp_coverage response = slot_coverage p
      \<and> sp_ordered_ids response = ordered_ids p
      \<and> sp_token response = Some (slot_token p)
      \<and> list_all (change_already_installed current p) (sp_changes response))"

definition member_rows ::
  "'v durable_subscriptions \<Rightarrow> subscription_slot \<Rightarrow>
   client_error + (record_id, 'v subscription_row) fmap" where
  "member_rows current p =
     try_fold (\<lambda>rows (i, key).
         rbind (ok_or InvalidSubscription (fmlookup (records current) key))
           (\<lambda>row. Inr (fmupd i row rows)))
       fmempty (entries (members p))"

text \<open>The rows a response starts from: none for a snapshot, the installed ones for a delta.\<close>

definition base_rows ::
  "'v durable_subscriptions \<Rightarrow> subscription_slot option \<Rightarrow> 'v subscription_response \<Rightarrow>
   client_error + (record_id, 'v subscription_row) fmap" where
  "base_rows current previous response =
     (case sp_response response of
        WDelta before_revision \<Rightarrow>
          rbind (ok_or InvalidSubscription previous) (\<lambda>p.
          if before_revision \<noteq> slot_view_revision p then Inl InvalidSubscription
          else rbind (ok_or InvalidSubscription (checked_add before_revision 1)) (\<lambda>next_revision.
          if sp_view_revision response \<noteq> next_revision
             \<or> sp_plan_fingerprint response \<noteq> slot_plan_fingerprint p
             \<or> epoch (sp_frontier response) \<noteq> epoch (slot_frontier p)
             \<or> sp_coverage response \<noteq> slot_coverage p
          then Inl InvalidSubscription
          else member_rows current p))
      | WSnapshot _ \<Rightarrow> Inr fmempty
      | WCancelled \<Rightarrow> Inl InvalidSubscription)"

fun is_delta :: "window_response_kind \<Rightarrow> bool" where
  "is_delta (WDelta n) = True"
| "is_delta _ = False"

fun apply_change ::
  "'v subscription_response \<Rightarrow> (record_id, 'v subscription_row) fmap \<Rightarrow> 'v membership_change \<Rightarrow>
   client_error + (record_id, 'v subscription_row) fmap" where
  "apply_change response rows (MUpsert row) =
     (if row_version row = 0 \<or> scalar_kind_of (sort_key row) \<noteq> order_kind (sp_coverage response)
      then Inl InvalidSubscription
      else if is_some_and (fmlookup rows (row_record_id row))
                (\<lambda>previous. row_version row < row_version previous)
      then Inl InvalidSubscription
      else Inr (fmupd (row_record_id row) row rows))"
| "apply_change response rows (MLeave r) =
     (if \<not> is_delta (sp_response response) \<or> \<not> contains_key rows r
      then Inl InvalidSubscription else Inr (fmdrop r rows))"
| "apply_change response rows (MDelete r version) =
     (if is_some_and (fmlookup rows r) (\<lambda>previous. version \<le> row_version previous)
      then Inl InvalidSubscription
      else if \<not> is_delta (sp_response response) \<or> \<not> contains_key rows r
      then Inl InvalidSubscription else Inr (fmdrop r rows))"

definition touch_change ::
  "'v subscription_response \<Rightarrow> record_id set \<times> (record_id, 'v subscription_row) fmap \<Rightarrow>
   'v membership_change \<Rightarrow>
   client_error + record_id set \<times> (record_id, 'v subscription_row) fmap" where
  "touch_change response acc change =
     (let (touched, rows) = acc; i = change_record_id change in
      if \<not> valid_subscription_text (record_str i) \<or> i \<in> touched then Inl InvalidSubscription
      else rbind (apply_change response rows change) (\<lambda>rows'. Inr (insert i touched, rows')))"

definition window_rows ::
  "'v durable_subscriptions \<Rightarrow> subscription_slot option \<Rightarrow> 'v subscription_response \<Rightarrow>
   client_error + (record_id, 'v subscription_row) fmap" where
  "window_rows current previous response =
     rbind (base_rows current previous response) (\<lambda>rows.
     rbind (try_fold (touch_change response) ({}, rows) (sp_changes response)) (\<lambda>(_, rows').
     if map_len rows' > unat (limit (sp_coverage response))
        \<or> ordered rows' (sp_coverage response) \<noteq> sp_ordered_ids response
     then Inl InvalidSubscription else Inr rows'))"

definition store_row ::
  "u64 \<Rightarrow> (string, 'v subscription_row) fmap \<times> (record_id, string) fmap \<Rightarrow>
   record_id \<times> 'v subscription_row \<Rightarrow>
   client_error + (string, 'v subscription_row) fmap \<times> (record_id, string) fmap" where
  "store_row ep acc entry =
     (let (recs, mems) = acc; (i, row) = entry; key = cache_key ep row in
      if is_some_and (fmlookup recs key) (\<lambda>stored. stored \<noteq> row) then Inl InvalidSubscription
      else Inr (fmupd key row recs, fmupd i key mems))"

definition install_window ::
  "'v client_runtime \<Rightarrow> 'v durable_subscriptions \<Rightarrow> 'v subscription_response \<Rightarrow>
   opaque_checkpoint \<Rightarrow> (record_id, 'v subscription_row) fmap \<Rightarrow>
   client_error + 'v prepared_transition" where
  "install_window rt current response tok rows =
     rbind (try_fold (store_row (epoch (sp_frontier response))) (records current, fmempty) (entries rows))
       (\<lambda>(recs, mems).
     let slot = \<lparr>slot_generation = sp_generation response,
                 slot_plan_fingerprint = sp_plan_fingerprint response,
                 slot_scope = sp_scope response,
                 slot_frontier = sp_frontier response,
                 slot_view_revision = sp_view_revision response,
                 slot_coverage = sp_coverage response,
                 ordered_ids = sp_ordered_ids response,
                 slot_token = tok,
                 members = mems\<rparr>
     in prepare rt ((rt_state rt)\<lparr>subscriptions := Some (collect_records
          (current\<lparr>authorization_scope := Some (sp_scope response), records := recs,
                   slots := fmupd (sp_subscription_id response) slot (slots current)\<rparr>))\<rparr>))"

text \<open>After admission: replay of the installed view revision, or a new window.\<close>

definition advance_window ::
  "'v client_runtime \<Rightarrow> 'v durable_subscriptions \<Rightarrow> 'v subscription_response \<Rightarrow>
   opaque_checkpoint \<Rightarrow> client_error + 'v prepared_transition" where
  "advance_window rt current response tok =
     (let state = rt_state rt; previous = fmlookup (slots current) (sp_subscription_id response) in
      rbind (guard_subscription_scope state (sp_scope response)) (\<lambda>_.
      rbind (check_response_progress state previous response) (\<lambda>_.
      if is_some_and previous (\<lambda>p. sp_view_revision response = slot_view_revision p)
      then if is_some_and previous (\<lambda>p. is_replay current p response)
           then prepare rt state else Inl InvalidSubscription
      else rbind (window_rows current previous response) (install_window rt current response tok))))"

definition prepare_subscription_response ::
  "'v client_runtime \<Rightarrow> 'v subscription_response \<Rightarrow> client_error + 'v prepared_transition" where
  "prepare_subscription_response rt response =
     (let state = rt_state rt; i = sp_subscription_id response in
      if \<not> validate_subscription_response response then Inl InvalidSubscription
      else rbind (ok_or InvalidSubscription (subscriptions state)) (\<lambda>current.
      if is_some_and (fmlookup (cancelled current) i) (\<lambda>barrier. barrier \<ge> sp_generation response)
      then Inl SubscriptionCancelled
      else rbind (ok_or InvalidSubscription (fmlookup (requests current) i)) (\<lambda>request.
      case sq_command request of
        CmdStart _ _ d _ l \<Rightarrow>
          if \<not> response_matches_request state request d l response then Inl InvalidSubscription
          else if sp_response response = WCancelled
          then prepare_cancel_subscription rt i (sp_generation response)
          else rbind (ok_or InvalidSubscription (sp_token response)) (\<lambda>tok.
            if \<not> valid_subscription_text (token_str tok) then Inl InvalidSubscription
            else advance_window rt current response tok)
      | _ \<Rightarrow> Inl InvalidSubscription)))"

section \<open>Reads\<close>

definition subscription_request_for ::
  "'v client_runtime \<Rightarrow> string \<Rightarrow> subscription_request option" where
  "subscription_request_for rt i =
     (let state = rt_state rt in
      Option.bind (subscriptions state) (\<lambda>subs.
      case fmlookup (requests subs) i of
        None \<Rightarrow> map_option (\<lambda>generation.
            \<lparr>sq_partition_id = partition_id state, sq_client_id = client_id state,
             sq_requested_scope = requested_scope state,
             sq_subscription_revision = subscription_revision state,
             sq_command = CmdCancel i generation\<rparr>) (fmlookup (cancelled subs) i)
      | Some request \<Rightarrow>
          (case fmlookup (slots subs) i of
             None \<Rightarrow> Some request
           | Some slot \<Rightarrow> Some (request\<lparr>sq_command :=
               CmdResume i (slot_generation slot) (slot_token slot)\<rparr>))))"

record subscription_view_metadata =
  vm_revision :: u64
  vm_subscription_id :: string
  vm_generation :: u64
  vm_plan_fingerprint :: string
  vm_scope :: scope_snapshot
  vm_frontier :: cursor
  vm_view_revision :: u64
  vm_coverage :: window_coverage

record 'v installed_subscription =
  is_metadata :: subscription_view_metadata
  is_rows :: "'v subscription_row list"
  pending_outside_window :: "record_id list option"

definition slot_rows ::
  "'v durable_subscriptions \<Rightarrow> subscription_slot \<Rightarrow> 'v subscription_row list" where
  "slot_rows subs slot =
     List.map_filter (\<lambda>r. Option.bind (fmlookup (members slot) r) (fmlookup (records subs)))
       (ordered_ids slot)"

definition outside_window :: "'v durable_client_state \<Rightarrow> subscription_slot \<Rightarrow> record_id list" where
  "outside_window state slot =
     sorted_list_of_set (set (filter (\<lambda>r. \<not> contains_key (members slot) r)
       (concat (map (\<lambda>c. map operation_record_id (operations c)) (outbox state)))))"

definition subscription_snapshot ::
  "'v client_runtime \<Rightarrow> string \<Rightarrow> 'v installed_subscription option" where
  "subscription_snapshot rt i =
     (let state = rt_state rt in
      Option.bind (subscriptions state) (\<lambda>subs.
      map_option (\<lambda>slot.
        \<lparr>is_metadata = \<lparr>vm_revision = revision state, vm_subscription_id = i,
            vm_generation = slot_generation slot,
            vm_plan_fingerprint = slot_plan_fingerprint slot, vm_scope = slot_scope slot,
            vm_frontier = slot_frontier slot, vm_view_revision = slot_view_revision slot,
            vm_coverage = slot_coverage slot\<rparr>,
         is_rows = slot_rows subs slot,
         pending_outside_window =
           (if validate_coverage state = Inr ()
               \<and> is_some_and (reset_coverage state) (\<lambda>coverage. cov_scope coverage = slot_scope slot)
               \<and> is_some_and (checkpoint state) (\<lambda>cp. scope cp = slot_scope slot)
            then Some (outside_window state slot) else None)\<rparr>)
        (fmlookup (slots subs) i)))"

end
