(* ===== verification/Client_Transitions.thy ===== *)
theory Client_Transitions
  imports Client_Read Client_Subscriptions
begin

text \<open>
  The contract every transition of \<open>ClientRuntime\<close> fulfils, as locales: \<open>transition\<close> (the
  prepared state was validated and carries the revision discipline) and
  \<open>journal_transition\<close> (the partition, client and scope of the journal never change, and
  no local commit is lost).  The events of a client are the sum of its \<open>prepare_*\<close>
  operations, and \<open>prepare_event\<close> interprets both locales.
\<close>

section \<open>The prepare step\<close>

lemma prepare_Inr [result_conv]:
  "prepare rt next = Inr p \<longleftrightarrow>
     base_revision p = revision (rt_state rt) \<and> valid_state (prepared_state p) \<and>
     (if next = rt_state rt then prepared_state p = next
      else (\<exists>r. checked_add (revision (rt_state rt)) 1 = Some r
                \<and> prepared_state p = next\<lparr>revision := r\<rparr>))"
  unfolding prepare_def
  by (cases p) (auto simp: result_conv validate_iff simp del: checked_add_Some
      intro: validate_iff [THEN iffD2])

lemma checked_add_1: "(r :: u64) \<noteq> - 1 \<Longrightarrow> checked_add r 1 = Some (r + 1)"
  using inc_less_eq_self_iff_eq [of r] by (auto simp: checked_add_def)

lemma prepare_changed:
  assumes "next \<noteq> rt_state rt" and "revision (rt_state rt) \<noteq> - 1"
    and "valid_state (next\<lparr>revision := revision (rt_state rt) + 1\<rparr>)"
  shows "prepare rt next = Inr \<lparr>base_revision = revision (rt_state rt),
    prepared_state = next\<lparr>revision := revision (rt_state rt) + 1\<rparr>\<rparr>"
  using assms checked_add_1 [OF assms(2)] validate_iff [THEN iffD2, OF assms(3)]
  by (simp add: prepare_def)

lemma prepare_same:
  "valid_state (rt_state rt) \<Longrightarrow> prepare rt (rt_state rt) =
     Inr \<lparr>base_revision = revision (rt_state rt), prepared_state = rt_state rt\<rparr>"
  using validate_iff [THEN iffD2] by (fastforce simp: prepare_def)

text \<open>Apart from its revision, the prepared state is the state handed to \<open>prepare\<close>.\<close>

lemma prepare_fields:
  assumes "prepare rt next = Inr p"
  shows "partition_id (prepared_state p) = partition_id next"
    "client_id (prepared_state p) = client_id next"
    "requested_scope (prepared_state p) = requested_scope next"
    "subscription_revision (prepared_state p) = subscription_revision next"
    "confirmed (prepared_state p) = confirmed next" "outbox (prepared_state p) = outbox next"
    "outcomes (prepared_state p) = outcomes next" "checkpoint (prepared_state p) = checkpoint next"
    "reset_coverage (prepared_state p) = reset_coverage next" "id_map (prepared_state p) = id_map next"
    "subscriptions (prepared_state p) = subscriptions next"
proof -
  have "prepared_state p = next \<or> (\<exists>r. prepared_state p = next\<lparr>revision := r\<rparr>)"
    using assms unfolding prepare_Inr by (cases "next = rt_state rt") auto
  then show "partition_id (prepared_state p) = partition_id next"
    "client_id (prepared_state p) = client_id next"
    "requested_scope (prepared_state p) = requested_scope next"
    "subscription_revision (prepared_state p) = subscription_revision next"
    "confirmed (prepared_state p) = confirmed next" "outbox (prepared_state p) = outbox next"
    "outcomes (prepared_state p) = outcomes next" "checkpoint (prepared_state p) = checkpoint next"
    "reset_coverage (prepared_state p) = reset_coverage next" "id_map (prepared_state p) = id_map next"
    "subscriptions (prepared_state p) = subscriptions next"
    by auto
qed

lemma prepare_state_eq:
  "prepare rt next = Inr p \<Longrightarrow> prepared_state p = next\<lparr>revision := revision (prepared_state p)\<rparr>"
  using prepare_fields [of rt "next" p] by (intro durable_client_state.equality) simp_all

lemma prepare_is_valid: "prepare rt next = Inr p \<Longrightarrow> valid_state (prepared_state p)"
  by (simp add: prepare_Inr)

definition unchanged_or_bumped :: "'v durable_client_state \<Rightarrow> 'v durable_client_state \<Rightarrow> bool" where
  "unchanged_or_bumped s t \<longleftrightarrow>
     t = s \<or> unat (revision t) = Suc (unat (revision s))"

lemma prepare_revision:
  "prepare rt next = Inr p \<Longrightarrow> unchanged_or_bumped (rt_state rt) (prepared_state p)"
  by (auto simp: result_conv unchanged_or_bumped_def split: if_splits)

locale transition =
  fixes op :: "'v client_runtime \<Rightarrow> 'a \<Rightarrow> client_error + 'v prepared_transition"
  assumes via_prepare: "op rt x = Inr p \<Longrightarrow> \<exists>next. prepare rt next = Inr p"
begin

lemma prepared_valid: "op rt x = Inr p \<Longrightarrow> valid_state (prepared_state p)"
  using via_prepare [of rt x p] by (auto simp: prepare_Inr)

lemma prepared_base: "op rt x = Inr p \<Longrightarrow> base_revision p = revision (rt_state rt)"
  using via_prepare [of rt x p] by (auto simp: prepare_Inr)

lemma prepared_revision:
  "op rt x = Inr p \<Longrightarrow> unchanged_or_bumped (rt_state rt) (prepared_state p)"
  using via_prepare [of rt x p] by (auto intro: prepare_revision)

lemma prepared_installs: "op rt x = Inr p \<Longrightarrow> install rt p = Inr \<lparr>rt_state = prepared_state p\<rparr>"
  using prepared_base [of rt x p] by (simp add: install_def)

lemma prepared_reopens: "op rt x = Inr p \<Longrightarrow> open_runtime (prepared_state p) = Inr \<lparr>rt_state = prepared_state p\<rparr>"
  using prepared_valid [of rt x p] by (simp add: open_runtime_def flip: validate_iff)

end

definition same_owner :: "'v durable_client_state \<Rightarrow> 'v durable_client_state \<Rightarrow> bool" where
  "same_owner s t \<longleftrightarrow>
     partition_id t = partition_id s \<and> client_id t = client_id s
     \<and> requested_scope t = requested_scope s
     \<and> subscription_revision t = subscription_revision s"

definition keeps_intent :: "'v durable_client_state \<Rightarrow> 'v durable_client_state \<Rightarrow> bool" where
  "keeps_intent s t \<longleftrightarrow> mset (map identity (all_commits s)) \<subseteq># mset (map identity (all_commits t))"

locale journal_transition = transition op
  for op :: "'v client_runtime \<Rightarrow> 'a \<Rightarrow> client_error + 'v prepared_transition" +
  assumes owner: "op rt x = Inr p \<Longrightarrow> same_owner (rt_state rt) (prepared_state p)"
    and intent: "op rt x = Inr p \<Longrightarrow> keeps_intent (rt_state rt) (prepared_state p)"
begin

lemma commit_ids_kept:
  assumes "op rt x = Inr p" and "c \<in> set (all_commits (rt_state rt))"
  shows "\<exists>d \<in> set (all_commits (prepared_state p)). identity d = identity c"
proof -
  have "identity c \<in># mset (map identity (all_commits (rt_state rt)))"
    using assms(2) by simp
  with intent [OF assms(1)] have "identity c \<in># mset (map identity (all_commits (prepared_state p)))"
    unfolding keeps_intent_def by (rule mset_subset_eqD)
  then show ?thesis by auto
qed

end

text \<open>A transition that prepares one state: its owner and commits decide the contract.\<close>

lemma prepare_frame:
  assumes "prepare rt next = Inr p" and "same_owner (rt_state rt) next"
    and "keeps_intent (rt_state rt) next"
  shows "same_owner (rt_state rt) (prepared_state p)" "keeps_intent (rt_state rt) (prepared_state p)"
  using assms by (auto simp: prepare_Inr same_owner_def keeps_intent_def all_commits_def
      split: if_splits)

lemma same_owner_refl [simp]: "same_owner s s"
  by (simp add: same_owner_def)

lemma keeps_intent_refl [simp]: "keeps_intent s s"
  by (simp add: keeps_intent_def)

section \<open>Each operation prepares through one state\<close>

definition frame_ok :: "'v durable_client_state \<Rightarrow> 'v durable_client_state \<Rightarrow> bool" where
  "frame_ok s t \<longleftrightarrow> same_owner s t \<and> keeps_intent s t"

definition prepared_by ::
  "'v client_runtime \<Rightarrow> 'v prepared_transition \<Rightarrow> bool" where
  "prepared_by rt p \<longleftrightarrow> (\<exists>next. prepare rt next = Inr p \<and> frame_ok (rt_state rt) next)"

lemma prepared_byI: "prepare rt next = Inr p \<Longrightarrow> frame_ok (rt_state rt) next \<Longrightarrow> prepared_by rt p"
  unfolding prepared_by_def by blast

lemma prepared_by_same: "prepare rt (rt_state rt) = Inr p \<Longrightarrow> prepared_by rt p"
  by (erule prepared_byI) (simp add: frame_ok_def)

lemma journal_transitionI:
  assumes "\<And>rt x p. op rt x = Inr p \<Longrightarrow> prepared_by rt p"
  shows "journal_transition op"
proof unfold_locales
  fix rt x p assume "op rt x = Inr p"
  then have "prepared_by rt p" by (rule assms)
  then obtain nxt where n: "prepare rt nxt = Inr p" and f: "frame_ok (rt_state rt) nxt"
    unfolding prepared_by_def by blast
  show "\<exists>next. prepare rt next = Inr p" using n by blast
  show "same_owner (rt_state rt) (prepared_state p)"
    and "keeps_intent (rt_state rt) (prepared_state p)"
    using f prepare_frame [OF n] by (simp_all add: frame_ok_def)
qed

lemma frame_same_commits:
  "same_owner s t \<Longrightarrow> outbox t = outbox s \<Longrightarrow> outcomes t = outcomes s \<Longrightarrow> frame_ok s t"
  by (simp add: frame_ok_def keeps_intent_def all_commits_def)

lemma enqueue_prepared: "prepare_enqueue rt c = Inr p \<Longrightarrow> prepared_by rt p"
  unfolding prepare_enqueue_def
  by (auto simp: rbind_Inr frame_ok_def same_owner_def keeps_intent_def all_commits_def
      split: if_splits intro!: prepared_byI)

lemma remap_commit_identity [simp]: "identity (remap_commit m c) = identity c"
  by (simp add: remap_commit_def)

lemma fold_remap_commit_identity [simp]: "identity (fold remap_commit ms c) = identity c"
  by (induction ms arbitrary: c) auto

lemma remap_resolved_identity [simp]:
  "identity (local_commit (remap_resolved m r)) = identity (local_commit r)"
  by (simp add: remap_resolved_def)

definition identities :: "'v durable_client_state \<Rightarrow> commit_identity multiset" where
  "identities s = mset (map identity (outbox s)) + mset (map (identity \<circ> local_commit) (outcomes s))"

lemma keeps_intent_identities: "keeps_intent s t \<longleftrightarrow> identities s \<subseteq># identities t"
  by (simp add: keeps_intent_def identities_def all_commits_def)

lemma apply_id_mapping_frame:
  "apply_id_mapping s m = Inr t \<Longrightarrow> same_owner s t \<and> identities t = identities s"
  unfolding apply_id_mapping_def
  by (auto simp: rbind_Inr same_owner_def identities_def comp_def multiset.map_comp
      split: if_splits option.splits)

lemma apply_id_mappings_frame:
  assumes "try_fold apply_id_mapping s ms = Inr t"
  shows "same_owner s t \<and> identities t = identities s"
  using assms
  by (rule try_fold_invariant [where P = "\<lambda>u. same_owner s u \<and> identities u = identities s"])
    (auto dest!: apply_id_mapping_frame simp: same_owner_def)

lemma resolve_pushed_simps [simp]:
  "identity (local_commit (resolve_pushed policy oc c)) = identity c"
  "outcome (resolve_pushed policy oc c) = oc"
  "covered_by_reset (resolve_pushed policy oc c) = False"
  by (simp_all add: resolve_pushed_def Let_def)

text \<open>The two ways a push response is recorded: a retry, or the first outcome of a commit.\<close>

lemma push_cases:
  assumes "prepare_push_response_with_policy rt response policy = Inr p"
  obtains (retry) resolved where
      "resolved \<in> set (outcomes (rt_state rt))" "outcome resolved = ps_outcome response"
      "commit_id_of (local_commit resolved) = client_commit_id (outcome_identity (ps_outcome response))"
      "prepare rt (rt_state rt) = Inr p"
    | (first) index nxt where
      "\<forall>r \<in> set (outcomes (rt_state rt)).
         commit_id_of (local_commit r) \<noteq> client_commit_id (outcome_identity (ps_outcome response))"
      "position (\<lambda>c. identity c = outcome_identity (ps_outcome response)) (outbox (rt_state rt)) = Some index"
      "try_fold apply_id_mapping
         ((rt_state rt)\<lparr>outbox := remove_at index (outbox (rt_state rt))\<rparr>)
         (accepted_mappings (ps_outcome response)) = Inr nxt"
      "prepare rt (nxt\<lparr>outcomes := outcomes nxt @
         [resolve_pushed policy (ps_outcome response) (outbox (rt_state rt) ! index)]\<rparr>) = Inr p"
proof (cases "List.find (\<lambda>r. commit_id_of (local_commit r) =
    client_commit_id (outcome_identity (ps_outcome response))) (outcomes (rt_state rt))")
  case (Some resolved)
  then have "resolved \<in> set (outcomes (rt_state rt))"
    and "commit_id_of (local_commit resolved) = client_commit_id (outcome_identity (ps_outcome response))"
    by (auto simp: find_Some_iff)
  with Some assms show ?thesis
    by (intro retry) (auto simp: prepare_push_response_with_policy_def Let_def split: if_splits)
next
  case None
  with assms obtain index nxt where
    "position (\<lambda>c. identity c = outcome_identity (ps_outcome response)) (outbox (rt_state rt)) = Some index"
    "try_fold apply_id_mapping
         ((rt_state rt)\<lparr>outbox := remove_at index (outbox (rt_state rt))\<rparr>)
         (accepted_mappings (ps_outcome response)) = Inr nxt"
    "prepare rt (nxt\<lparr>outcomes := outcomes nxt @
         [resolve_pushed policy (ps_outcome response) (outbox (rt_state rt) ! index)]\<rparr>) = Inr p"
    unfolding prepare_push_response_with_policy_def
    by (auto simp: Let_def rbind_Inr ok_or_Inr split: if_splits)
  moreover have "\<forall>r \<in> set (outcomes (rt_state rt)).
      commit_id_of (local_commit r) \<noteq> client_commit_id (outcome_identity (ps_outcome response))"
    using None by (auto simp: find_None_iff)
  ultimately show ?thesis by (rule first [rotated])
qed

lemma push_prepared:
  assumes "prepare_push_response_with_policy rt response policy = Inr p"
  shows "prepared_by rt p"
  using assms
proof (cases rule: push_cases)
  case (retry resolved)
  then show ?thesis by (intro prepared_by_same)
next
  case (first index nxt)
  let ?s = "rt_state rt" and ?oc = "ps_outcome response"
  have "index < length (outbox ?s)" using position_Some [OF first(2)] by blast
  then have "mset (map identity (outbox ?s)) =
      add_mset (identity (outbox ?s ! index)) (mset (map identity (remove_at index (outbox ?s))))"
    using remove_at_split [of index "map identity (outbox ?s)"] by (simp add: map_remove_at)
  moreover have "same_owner (?s\<lparr>outbox := remove_at index (outbox ?s)\<rparr>) nxt"
    and "identities nxt = identities (?s\<lparr>outbox := remove_at index (outbox ?s)\<rparr>)"
    using apply_id_mappings_frame [OF first(3)] by auto
  ultimately have "frame_ok ?s (nxt\<lparr>outcomes := outcomes nxt @ [resolve_pushed policy ?oc (outbox ?s ! index)]\<rparr>)"
    by (simp add: frame_ok_def same_owner_def keeps_intent_identities identities_def)
  with first(4) show ?thesis by (rule prepared_byI)
qed

lemma resolve_at_prepared:
  assumes "resolve_at rt index r a request = Inr p" and "index < length (outcomes (rt_state rt))"
  shows "prepared_by rt p"
proof -
  let ?s = "rt_state rt"
  have same: "map (identity \<circ> local_commit)
      ((outcomes ?s)[index := (outcomes ?s ! index)\<lparr>resolution := Some res\<rparr>])
      = map (identity \<circ> local_commit) (outcomes ?s)" for res
    using assms(2) by (simp add: map_update list_update_same_conv)
  have frame: "frame_ok ?s (?s\<lparr>outcomes := (outcomes ?s)[index := (outcomes ?s ! index)
      \<lparr>resolution := Some res\<rparr>], outbox := outbox ?s @ cs\<rparr>)" for res cs
    by (simp add: frame_ok_def same_owner_def keeps_intent_identities identities_def same)
  show ?thesis
    using assms(1) frame frame [where cs = "[]"] unfolding resolve_at_def
    by (auto simp: Let_def rbind_Inr split: conflict_resolution_request.splits if_splits
        intro!: prepared_byI)
qed

lemma resolve_prepared: "prepare_resolve_conflict rt cid request = Inr p \<Longrightarrow> prepared_by rt p"
  unfolding prepare_resolve_conflict_def
  by (auto simp: Let_def rbind_Inr ok_or_Inr split: option.splits if_splits durable_outcome.splits
      dest!: position_Some intro: prepared_by_same resolve_at_prepared)

lemma pull_batch_prepared: "prepare_pull_batch rt batch = Inr p \<Longrightarrow> prepared_by rt p"
  unfolding prepare_pull_batch_def
  by (auto simp: Let_def rbind_Inr same_owner_def split: if_splits
      elim!: prepared_byI intro!: frame_same_commits)

lemma cover_outcome_local_commit [simp]: "local_commit (cover_outcome b n r) = local_commit r"
  by (simp add: cover_outcome_def split: durable_outcome.splits)

lemma cover_outcome_outcome [simp]: "outcome (cover_outcome b n r) = outcome r"
  by (simp add: cover_outcome_def split: durable_outcome.splits)

lemma snapshot_prepared: "prepare_snapshot rt cp recs = Inr p \<Longrightarrow> prepared_by rt p"
  unfolding prepare_snapshot_def
  by (auto simp: Let_def rbind_Inr frame_ok_def same_owner_def keeps_intent_identities
      identities_def comp_def intro!: prepared_byI)

lemma bootstrap_prepared: "prepare_bootstrap_snapshot rt cp recs = Inr p \<Longrightarrow> prepared_by rt p"
  unfolding prepare_bootstrap_snapshot_def
  by (auto simp: rbind_Inr split: if_splits intro: snapshot_prepared)

lemma pull_prepared: "prepare_pull_response rt response = Inr p \<Longrightarrow> prepared_by rt p"
  by (cases response)
    (auto simp: prepare_reset_def intro: pull_batch_prepared snapshot_prepared)

lemma start_prepared: "prepare_start_subscription rt request = Inr p \<Longrightarrow> prepared_by rt p"
  unfolding prepare_start_subscription_def
  by (auto simp: Let_def same_owner_def split: prod.splits if_splits option.splits
      intro!: prepared_byI frame_same_commits)

lemma cancel_prepared: "prepare_cancel_subscription rt i generation = Inr p \<Longrightarrow> prepared_by rt p"
  unfolding prepare_cancel_subscription_def
  by (auto simp: Let_def same_owner_def split: if_splits
      intro!: prepared_byI frame_same_commits)

lemma install_window_prepared: "install_window rt current response tok rows = Inr p \<Longrightarrow> prepared_by rt p"
  unfolding install_window_def
  by (auto simp: Let_def rbind_Inr same_owner_def intro!: prepared_byI frame_same_commits)

lemma advance_window_prepared: "advance_window rt current response tok = Inr p \<Longrightarrow> prepared_by rt p"
  unfolding advance_window_def
  by (auto simp: Let_def rbind_Inr split: if_splits
      intro: prepared_by_same install_window_prepared)

lemma window_cases:
  assumes "prepare_subscription_response rt response = Inr p"
  obtains (cancel) current request where
      "validate_subscription_response response"
      "subscriptions (rt_state rt) = Some current"
      "fmlookup (requests current) (sp_subscription_id response) = Some request"
      "sp_response response = WCancelled"
      "prepare_cancel_subscription rt (sp_subscription_id response) (sp_generation response) = Inr p"
    | (advance) current request sid generation d params l tok where
      "validate_subscription_response response"
      "subscriptions (rt_state rt) = Some current"
      "\<not> is_some_and (fmlookup (cancelled current) (sp_subscription_id response))
         (\<lambda>barrier. barrier \<ge> sp_generation response)"
      "fmlookup (requests current) (sp_subscription_id response) = Some request"
      "sq_command request = CmdStart sid generation d params l"
      "response_matches_request (rt_state rt) request d l response"
      "sp_response response \<noteq> WCancelled"
      "sp_token response = Some tok"
      "advance_window rt current response tok = Inr p"
proof -
  from assms obtain current request where
      v: "validate_subscription_response response"
    and current: "subscriptions (rt_state rt) = Some current"
    and barrier: "\<not> is_some_and (fmlookup (cancelled current) (sp_subscription_id response))
         (\<lambda>barrier. barrier \<ge> sp_generation response)"
    and request: "fmlookup (requests current) (sp_subscription_id response) = Some request"
    unfolding prepare_subscription_response_def
    by (auto simp: Let_def rbind_Inr ok_or_Inr split: if_splits)
  show thesis
  proof (cases "sq_command request")
    case (CmdStart sid generation d params l)
    with assms v current barrier request show ?thesis
      unfolding prepare_subscription_response_def
      by (cases "sp_response response = WCancelled")
        (auto simp: Let_def rbind_Inr ok_or_Inr split: if_splits intro: that)
  qed (use assms v current barrier request in
      \<open>auto simp: prepare_subscription_response_def Let_def\<close>)
qed

lemma window_prepared:
  assumes "prepare_subscription_response rt response = Inr p"
  shows "prepared_by rt p"
  using assms
  by (cases rule: window_cases) (auto intro: cancel_prepared advance_window_prepared)

section \<open>The events of a client\<close>

datatype 'v client_event =
    EvEnqueue "'v client_commit"
  | EvPush "'v push_response" automatic_conflict_policy
  | EvResolve client_commit_id "'v conflict_resolution_request"
  | EvPull "'v pull_response"
  | EvBootstrap checkpoint "'v snapshot_record list"
  | EvStart subscription_request
  | EvCancel string u64
  | EvWindow "'v subscription_response"

fun prepare_event :: "'v client_runtime \<Rightarrow> 'v client_event \<Rightarrow> client_error + 'v prepared_transition" where
  "prepare_event rt (EvEnqueue commit) = prepare_enqueue rt commit"
| "prepare_event rt (EvPush response policy) = prepare_push_response_with_policy rt response policy"
| "prepare_event rt (EvResolve cid request) = prepare_resolve_conflict rt cid request"
| "prepare_event rt (EvPull response) = prepare_pull_response rt response"
| "prepare_event rt (EvBootstrap cp recs) = prepare_bootstrap_snapshot rt cp recs"
| "prepare_event rt (EvStart request) = prepare_start_subscription rt request"
| "prepare_event rt (EvCancel i generation) = prepare_cancel_subscription rt i generation"
| "prepare_event rt (EvWindow response) = prepare_subscription_response rt response"

lemmas prepared_facts = enqueue_prepared push_prepared resolve_prepared pull_prepared
  bootstrap_prepared start_prepared cancel_prepared window_prepared

interpretation event: journal_transition prepare_event
proof (rule journal_transitionI)
  fix rt :: "'v client_runtime" and x p
  assume "prepare_event rt x = Inr p"
  then show "prepared_by rt p" by (cases x) (auto intro: prepared_facts)
qed

end
