(* ===== verification/Client_Push.thy ===== *)
theory Client_Push
  imports Client_Transitions
begin

text \<open>
  What recording a push outcome does (\<open>prepare_push_response_with_policy\<close>,
  \<open>apply_id_mapping\<close>): the record-ID renaming an accepted commit brings with it, the move
  of one commit from the outbox to the outcomes, retries, and the identities a response
  has to match.
\<close>

section \<open>Renaming record IDs\<close>

lemma remap_record_id_simps [simp]:
  "remap_record_id m (local_id m) = canonical_id m"
  "r \<noteq> local_id m \<Longrightarrow> remap_record_id m r = r"
  by (simp_all add: remap_record_id_def)

lemma remap_record_id_eq:
  "remap_record_id m r = l \<longleftrightarrow> (r = local_id m \<and> l = canonical_id m) \<or> (r \<noteq> local_id m \<and> l = r)"
  by (auto simp: remap_record_id_def)

lemma operation_contains_remap:
  "operation_contains_id l (remap_operation m op) \<longleftrightarrow>
     (\<exists>k. operation_contains_id k op \<and> remap_record_id m k = l)"
  by (cases "(m, op)" rule: remap_operation.cases) auto

lemma commit_contains_remap:
  "commit_contains_id (remap_commit m c) l \<longleftrightarrow>
     (\<exists>k. commit_contains_id c k \<and> remap_record_id m k = l)"
  by (auto simp: commit_contains_id_def remap_commit_def list_ex_iff operation_contains_remap)

lemma references_remap:
  "references_id (remap_reference m s) l \<longleftrightarrow>
     (\<exists>k. references_id s k \<and> remap_record_id m k = l)"
  by (cases "(m, s)" rule: remap_reference.cases) auto

lemma outcome_contains_remap:
  "outcome_contains_id (remap_outcome m oc) l \<longleftrightarrow>
     (\<exists>k. outcome_contains_id oc k \<and> remap_record_id m k = l)"
  by (cases oc) (auto simp: references_remap)

lemmas contains_remap = operation_contains_remap commit_contains_remap references_remap
  outcome_contains_remap

text \<open>The rows that remain after the move, without the reference renaming.\<close>

lemma move_confirmed_lookup:
  assumes "move_confirmed m conf = Inr conf'" and "local_id m \<noteq> canonical_id m"
  shows "fmlookup conf' r =
    (if r = local_id m then None
     else if r = canonical_id m \<and> fmlookup conf (local_id m) \<noteq> None then fmlookup conf (local_id m)
     else fmlookup conf r)"
  using assms unfolding move_confirmed_def Let_def
  by (auto split: option.splits if_splits)

lemma apply_id_mapping_cases:
  assumes "apply_id_mapping s m = Inr t"
  obtains (known) "fmlookup (id_map s) (local_id m) = Some (canonical_id m)" "t = s"
    "local_id m \<noteq> canonical_id m" "canonical_id m |\<notin>| fmdom (id_map s)"
  | (fresh) conf where "local_id m \<noteq> canonical_id m" "canonical_id m |\<notin>| fmdom (id_map s)"
      "fmlookup (id_map s) (local_id m) = None"
      "move_confirmed m (confirmed s) = Inr conf"
      "t = s\<lparr>confirmed := fmmap (remap_reference m) conf,
             outbox := map (remap_commit m) (outbox s),
             outcomes := map (remap_resolved m) (outcomes s),
             id_map := fmupd (local_id m) (canonical_id m)
                         (fmmap (remap_record_id m) (id_map s))\<rparr>"
  using assms unfolding apply_id_mapping_def contains_key_dom
  by (auto simp: rbind_Inr split: if_splits option.splits)

text \<open>Every ID that occurs after a renaming is the renamed form of one that occurred before.\<close>

lemma occurs_after_mapping:
  assumes "apply_id_mapping s m = Inr t" and "fmlookup (id_map s) (local_id m) = None"
    and "occurs t l"
  shows "\<exists>k. occurs s k \<and> remap_record_id m k = l"
  using assms(1)
proof (cases rule: apply_id_mapping_cases)
  case (fresh conf)
  note lookup = move_confirmed_lookup [OF fresh(4,1)]
  have commits: "all_commits t = map (remap_commit m) (all_commits s)"
    using fresh(5) by (simp add: all_commits_def remap_resolved_def comp_def)
  from assms(3) consider
      (row) r x where "fmlookup (confirmed t) r = Some x" "r = l \<or> references_id x l"
    | (com) c where "c \<in> set (all_commits t)" "commit_contains_id c l"
    | (out) r where "r \<in> set (outcomes t)" "outcome_contains_id (outcome r) l"
    unfolding occurs_def by blast
  then show ?thesis
  proof cases
    case row
    then obtain y where y: "fmlookup conf r = Some y" "x = remap_reference m y"
      using fresh(5) by (auto simp: fmlookup_map)
    then obtain k where k: "fmlookup (confirmed s) k = Some y" "remap_record_id m k = r"
      using lookup [of r] by (auto split: if_splits)
    show ?thesis
      using row(2) k unfolding y(2) occurs_def references_remap by blast
  next
    case com
    then obtain d k where "d \<in> set (all_commits s)" "commit_contains_id d k" "remap_record_id m k = l"
      unfolding commits by (auto simp: commit_contains_remap)
    then show ?thesis unfolding occurs_def by blast
  next
    case out
    then obtain q k where "q \<in> set (outcomes s)" "outcome_contains_id (outcome q) k"
        "remap_record_id m k = l"
      using fresh(5) by (auto simp: remap_resolved_def outcome_contains_remap)
    then show ?thesis unfolding occurs_def by blast
  qed
qed (use assms(2) in simp)

lemma apply_id_mapping_keeps_valid_mappings:
  assumes "apply_id_mapping s m = Inr t" and "valid_mappings s"
  shows "valid_mappings t"
  using assms(1)
proof (cases rule: apply_id_mapping_cases)
  case (fresh conf)
  have gone: "\<not> occurs t l" if "l = local_id m \<or> l |\<in>| fmdom (id_map s)" for l
  proof
    assume "occurs t l"
    then obtain k where k: "occurs s k" "remap_record_id m k = l"
      using occurs_after_mapping [OF assms(1) fresh(3)] by blast
    then show False
      using that fresh(1,2) assms(2)
      by (auto simp: remap_record_id_eq valid_mappings_def fmlookup_dom_iff)
  qed
  show ?thesis
    unfolding valid_mappings_def
  proof (intro allI impI conjI)
    fix l c assume lc: "fmlookup (id_map t) l = Some c"
    then have l: "l = local_id m \<or> l |\<in>| fmdom (id_map s)"
      using fresh(5) by (auto simp: fmlookup_map fmlookup_dom_iff split: if_splits)
    then show "\<not> occurs t l" by (rule gone)
    have "c = canonical_id m \<or> (c \<noteq> local_id m \<and> fmlookup (id_map s) l = Some c)"
      using lc fresh(5) by (auto simp: fmlookup_map remap_record_id_def split: if_splits)
    then show "l \<noteq> c" and "c |\<notin>| fmdom (id_map t)"
      using l fresh(1,2,3,5) assms(2) by (auto simp: valid_mappings_def fmlookup_dom_iff)
  qed
qed (use assms(2) in simp)

section \<open>What validation reads of the journal's owner\<close>

lemma validate_subscriptions_cong:
  assumes "same_owner s t" and "checkpoint t = checkpoint s"
  shows "validate_subscriptions subs t = validate_subscriptions subs s"
proof -
  have "request_owned t = request_owned s"
    using assms by (auto simp: request_owned_def same_owner_def fun_eq_iff)
  then have "validate_requests subs t = validate_requests subs s"
    by (simp add: validate_requests_def)
  moreover have "validate_authorization_scope subs t = validate_authorization_scope subs s"
    using assms by (simp add: validate_authorization_scope_def same_owner_def cong: option.case_cong)
  moreover have "validate_slot subs t = validate_slot subs s"
    using assms by (auto simp: validate_slot_def slot_header_valid_def same_owner_def fun_eq_iff)
  ultimately show ?thesis by (simp add: validate_subscriptions_def)
qed

lemma validate_resolution_cong:
  assumes "identities s \<subseteq># identities t" and "validate_resolution s r = Inr ()"
  shows "validate_resolution t r = Inr ()"
proof -
  have known: "replacement_known u i \<longleftrightarrow> i \<in># identities u" for u :: "'a durable_client_state" and i
    by (auto simp: replacement_known_def identities_def list_ex_iff)
  have "replacement_known s i \<Longrightarrow> replacement_known t i" for i
    unfolding known using assms(1) by (rule mset_subset_eqD)
  with assms(2) show ?thesis
    unfolding validate_resolution_def
    by (auto simp: Let_def split: option.splits conflict_resolution.splits if_splits)
qed

text \<open>
  A state with the same position and owner, a permutation of the commits and only good
  outcomes is valid again.
\<close>

lemma valid_state_transfer:
  assumes "valid_state s" and "same_owner s t" and "checkpoint t = checkpoint s"
    and "confirmed t = confirmed s" and "reset_coverage t = reset_coverage s"
    and "subscriptions t = subscriptions s" and "id_map t = id_map s"
    and "mset (all_commits t) = mset (all_commits s)"
    and "\<forall>r \<in> set (outcomes t). valid_outcome t r"
    and "\<And>r l. r \<in> set (outcomes t) \<Longrightarrow> l |\<in>| fmdom (id_map s) \<Longrightarrow> \<not> outcome_contains_id (outcome r) l"
  shows "valid_state t"
proof -
  have set: "set (all_commits t) = set (all_commits s)"
    using assms(8) by (rule mset_eq_setD)
  have "mset (map commit_id_of (all_commits t)) = mset (map commit_id_of (all_commits s))"
    using assms(8) by simp
  then have "distinct (map commit_id_of (all_commits t))"
    using assms(1) mset_eq_imp_distinct_iff unfolding valid_state_def by blast
  moreover have "valid_position t"
    using assms(1-5) by (simp add: valid_state_def valid_position_def same_owner_def)
  moreover have "\<not> occurs t l" if "fmlookup (id_map s) l = Some c" for l c
    using that assms(1,4,10) set
    by (auto simp: valid_state_def valid_mappings_def occurs_def fmlookup_dom_iff)
  then have "valid_mappings t"
    using assms(1,7) by (simp add: valid_state_def valid_mappings_def)
  ultimately show ?thesis
    using assms(1,6,9) set validate_subscriptions_cong [OF assms(2,3)]
    by (simp add: valid_state_def)
qed

section \<open>Recording an outcome\<close>

lemma valid_after_outcome:
  assumes "valid_state s" and "i < length (outbox s)"
    and "local_commit r = outbox s ! i" and "outcome_identity (outcome r) = identity (local_commit r)"
    and "\<not> covered_by_reset r"
    and "resolution r = None \<or> resolution r = Some ResPreferServerPolicyV1
           \<and> prefer_server_eligible (local_commit r) (outcome r)"
    and "\<forall>l. l |\<in>| fmdom (id_map s) \<longrightarrow> \<not> outcome_contains_id (outcome r) l"
  shows "valid_state (s\<lparr>outbox := remove_at i (outbox s), outcomes := outcomes s @ [r], revision := n\<rparr>)"
    (is "valid_state ?u")
proof (rule valid_state_transfer [OF assms(1)])
  show perm: "mset (all_commits ?u) = mset (all_commits s)"
    using remove_at_split [OF assms(2)] assms(3) by (simp add: all_commits_def)
  have "identities u = mset (map identity (all_commits u))" for u :: "'a durable_client_state"
    by (simp add: identities_def all_commits_def)
  with perm have ids: "identities s \<subseteq># identities ?u" by (metis mset_map subset_mset.order_refl)
  have "prefer_server_eligible (local_commit r) (outcome r) \<Longrightarrow> is_conflict (outcome r)"
    by (cases "outcome r") auto
  then have "validate_resolution ?u r = Inr ()"
    using assms(6) by (auto simp: validate_resolution_def Let_def)
  then have "valid_outcome ?u r" using assms(4,5) by (simp add: valid_outcome_def)
  moreover have "valid_outcome ?u q" if "q \<in> set (outcomes s)" for q
    using that assms(1) validate_resolution_cong [OF ids]
    by (auto simp: valid_outcome_def valid_state_def)
  ultimately show "\<forall>q \<in> set (outcomes ?u). valid_outcome ?u q" by auto
  show "\<not> outcome_contains_id (outcome q) l" if "q \<in> set (outcomes ?u)" "l |\<in>| fmdom (id_map s)" for q l
    using that assms(1,7) by (auto simp: valid_state_def valid_mappings_def occurs_def fmlookup_dom_iff)
qed (simp_all add: same_owner_def)

text \<open>Identities are unique, so the position search finds the pending commit itself.\<close>

lemma pending_position:
  assumes "valid_state s" and "c \<in> set (outbox s)"
  obtains i where "position (\<lambda>d. identity d = identity c) (outbox s) = Some i"
    "i < length (outbox s)" "outbox s ! i = c"
    "List.find (\<lambda>r. commit_id_of (local_commit r) = commit_id_of c) (outcomes s) = None"
proof -
  obtain i where i: "position (\<lambda>d. identity d = identity c) (outbox s) = Some i"
    using position_ex [OF assms(2), of "\<lambda>d. identity d = identity c"] by blast
  then have len: "i < length (outbox s)" and id: "identity (outbox s ! i) = identity c"
    using position_Some [OF i] by auto
  have dist: "distinct (map commit_id_of (outbox s @ map local_commit (outcomes s)))"
    using assms(1) by (simp add: valid_state_def all_commits_def)
  then have "outbox s ! i = c"
    using len id assms(2) by (metis distinct_append distinct_map inj_onD map_append nth_mem)
  moreover have "List.find (\<lambda>r. commit_id_of (local_commit r) = commit_id_of c) (outcomes s) = None"
    using dist assms(2) unfolding find_None_iff by force
  ultimately show thesis using that i len by blast
qed

text \<open>The identities of resolved commits keep their places under renaming.\<close>

lemma apply_id_mapping_outcome_ids:
  "apply_id_mapping s m = Inr t \<Longrightarrow>
     map (identity \<circ> local_commit) (outcomes t) = map (identity \<circ> local_commit) (outcomes s)"
  by (cases rule: apply_id_mapping_cases) (auto simp: comp_def)

lemma apply_id_mappings_outcome_ids:
  assumes "try_fold apply_id_mapping s ms = Inr t"
  shows "map (identity \<circ> local_commit) (outcomes t) = map (identity \<circ> local_commit) (outcomes s)"
  using assms
  by (rule try_fold_invariant [where P = "\<lambda>u. map (identity \<circ> local_commit) (outcomes u) =
        map (identity \<circ> local_commit) (outcomes s)"])
    (auto dest: apply_id_mapping_outcome_ids)

lemma push_recorded:
  assumes "prepare_push_response_with_policy rt response policy = Inr p"
  obtains resolved where
    "List.find (\<lambda>r. commit_id_of (local_commit r) =
        client_commit_id (outcome_identity (ps_outcome response))) (outcomes (prepared_state p))
      = Some resolved"
    "outcome resolved = ps_outcome response"
proof -
  let ?P = "\<lambda>r. commit_id_of (local_commit r) = client_commit_id (outcome_identity (ps_outcome response))"
  show thesis
    using assms
  proof (cases rule: push_cases)
    case (retry resolved)
    then have "prepared_state p = rt_state rt" by (simp add: prepare_Inr)
    moreover from assms have "\<exists>r. List.find ?P (outcomes (rt_state rt)) = Some r
        \<and> outcome r = ps_outcome response"
      using retry by (auto simp: prepare_push_response_with_policy_def Let_def find_None_iff
          split: if_splits option.splits)
    ultimately show thesis using that by auto
  next
    case (first index nxt)
    have "map (identity \<circ> local_commit) (outcomes nxt) = map (identity \<circ> local_commit) (outcomes (rt_state rt))"
      using apply_id_mappings_outcome_ids [OF first(3)] by simp
    then have "(identity \<circ> local_commit) ` set (outcomes nxt) = (identity \<circ> local_commit) ` set (outcomes (rt_state rt))"
      by (metis list.set_map)
    with first(1) have "\<forall>r \<in> set (outcomes nxt). \<not> ?P r" by (auto simp: image_iff set_eq_iff) metis
    moreover have "?P (resolve_pushed policy (ps_outcome response) (outbox (rt_state rt) ! index))"
      using position_Some [OF first(2)] by simp
    ultimately have "List.find ?P (outcomes nxt @ [resolve_pushed policy (ps_outcome response)
        (outbox (rt_state rt) ! index)]) = Some (resolve_pushed policy (ps_outcome response)
        (outbox (rt_state rt) ! index))"
      by (rule find_append_last)
    moreover have "outcomes (prepared_state p) = outcomes nxt @ [resolve_pushed policy
        (ps_outcome response) (outbox (rt_state rt) ! index)]"
      using prepare_fields [OF first(4)] by simp
    ultimately show thesis using that by simp
  qed
qed

lemma push_envelope:
  "prepare_push_response_with_policy rt response policy = Inr p \<Longrightarrow>
     ps_partition_id response = partition_id (rt_state rt) \<and> ps_client_id response = client_id (rt_state rt)"
  by (auto simp: prepare_push_response_with_policy_def Let_def split: if_splits)

section \<open>Optimistic content under renaming\<close>

definition remap_optimistic :: "id_mapping \<Rightarrow> 'v optimistic_record \<Rightarrow> 'v optimistic_record" where
  "remap_optimistic m x = (case x of
     OptPresent v b ref \<Rightarrow> OptPresent v b (map_option (remap_record_id m) ref)
   | OptDeleted n \<Rightarrow> OptDeleted n)"

text \<open>The record state a reader sees for one record: the last operation on it, else the row.\<close>

definition last_writer :: "'v durable_client_state \<Rightarrow> record_id \<Rightarrow> 'v optimistic_record option" where
  "last_writer s r =
     (case List.find (\<lambda>op. operation_record_id op = r) (rev (optimistic_operations s)) of
        Some op \<Rightarrow> Some (optimistic_of_operation op)
      | None \<Rightarrow> Option.bind (fmlookup (confirmed s) r) optimistic_of_record)"

lemma fold_operations_lookup:
  "fmlookup (fold (\<lambda>op. fmupd (operation_record_id op) (optimistic_of_operation op)) ops m) r =
     (case List.find (\<lambda>op. operation_record_id op = r) (rev ops) of
        Some op \<Rightarrow> Some (optimistic_of_operation op) | None \<Rightarrow> fmlookup m r)"
  by (induction ops rule: rev_induct) auto

lemma lookup_confirmed_projection:
  "fmlookup (fmap_of_list (List.map_filter (\<lambda>(r, s). map_option (Pair r) (f s)) (entries m))) k =
     Option.bind (fmlookup m k) f"
proof -
  have "map_of (List.map_filter (\<lambda>(r, s). map_option (Pair r) (f s)) xs) k = Option.bind (map_of xs k) f"
    if "distinct (map fst xs)" for xs
    using that
  proof (induction xs arbitrary: k)
    case (Cons x xs)
    obtain r s where x: "x = (r, s)" by force
    have "map_of xs r = None"
      using Cons.prems x by (simp add: map_of_eq_None_iff)
    then show ?case using Cons x by (cases "f s") auto
  qed simp
  from this [OF distinct_entries] show ?thesis
    by (simp add: fmlookup_of_list map_of_entries)
qed

lemma optimistic_projection_lookup: "fmlookup (optimistic_projection s) r = last_writer s r"
  unfolding optimistic_projection_def last_writer_def fold_operations_lookup
    lookup_confirmed_projection ..

lemma optimistic_operations_remap:
  assumes "apply_id_mapping s m = Inr t" and "fmlookup (id_map s) (local_id m) = None"
  shows "optimistic_operations t = map (remap_operation m) (optimistic_operations s)"
  using assms(1)
proof (cases rule: apply_id_mapping_cases)
  case (fresh conf)
  have 1: "accepted_not_pulled n (remap_resolved m r) = map_option (remap_commit m) (accepted_not_pulled n r)"
    for n and r :: "'a resolved_commit"
    by (cases "outcome r") (auto simp: remap_resolved_def)
  have 2: "List.map_filter (accepted_not_pulled n) (map (remap_resolved m) rs) =
      map (remap_commit m) (List.map_filter (accepted_not_pulled n) rs)" for n and rs :: "'a resolved_commit list"
    by (induction rs) (auto simp: 1 simp del: accepted_not_pulled.simps split: option.splits)
  show ?thesis
    using fresh(5)
    by (simp add: optimistic_operations_def applied_sequence_def 2 map_concat comp_def remap_commit_def)
qed (use assms(2) in simp)

lemma operation_record_id_remap [simp]:
  "operation_record_id (remap_operation m op) = remap_record_id m (operation_record_id op)"
  by (cases op) auto

lemma optimistic_of_operation_remap [simp]:
  "optimistic_of_operation (remap_operation m op) = remap_optimistic m (optimistic_of_operation op)"
  by (cases op) (auto simp: remap_optimistic_def)

lemma optimistic_of_record_remap [simp]:
  "optimistic_of_record (remap_reference m x) = map_option (remap_optimistic m) (optimistic_of_record x)"
  by (cases "(m, x)" rule: remap_reference.cases) (auto simp: remap_optimistic_def)

lemma accepted_not_pulled_commit: "accepted_not_pulled n r = Some c \<Longrightarrow> c = local_commit r"
  by (cases "outcome r") (auto split: if_splits)

lemma optimistic_operations_occur:
  assumes "op \<in> set (optimistic_operations s)"
  shows "occurs s (operation_record_id op)"
proof -
  from assms obtain c where "c \<in> set (all_commits s)" "op \<in> set (operations c)"
    by (fastforce simp: optimistic_operations_def all_commits_def in_map_filter
        simp del: accepted_not_pulled.simps dest!: accepted_not_pulled_commit)
  moreover have "operation_contains_id (operation_record_id op) op" by (cases op) auto
  ultimately show ?thesis
    unfolding occurs_def commit_contains_id_def list_ex_iff by blast
qed

lemma last_writer_remap:
  assumes "apply_id_mapping s m = Inr t" and "fmlookup (id_map s) (local_id m) = None"
    and "\<not> occurs s (canonical_id m)" and "r \<noteq> canonical_id m"
  shows "last_writer t (remap_record_id m r) = map_option (remap_optimistic m) (last_writer s r)"
  using assms(1)
proof (cases rule: apply_id_mapping_cases)
  case (fresh conf)
  have "remap_record_id m (operation_record_id op) = remap_record_id m r \<longleftrightarrow> operation_record_id op = r"
    if "op \<in> set (optimistic_operations s)" for op
    using optimistic_operations_occur [OF that] assms(3,4) by (auto simp: remap_record_id_def)
  then have "List.find (\<lambda>op. remap_record_id m (operation_record_id op) = remap_record_id m r)
        (rev (optimistic_operations s))
      = List.find (\<lambda>op. operation_record_id op = r) (rev (optimistic_operations s))"
    by (intro find_cong) auto
  then have ops: "List.find (\<lambda>op. operation_record_id op = remap_record_id m r) (rev (optimistic_operations t))
      = map_option (remap_operation m)
          (List.find (\<lambda>op. operation_record_id op = r) (rev (optimistic_operations s)))"
    unfolding optimistic_operations_remap [OF assms(1,2)] rev_map find_map
    by (simp add: comp_def)
  have "fmlookup (confirmed s) (canonical_id m) = None"
    using assms(3) unfolding occurs_def by fastforce
  then have row: "fmlookup (confirmed t) (remap_record_id m r) =
      map_option (remap_reference m) (fmlookup (confirmed s) r)"
    using fresh(1,5) assms(4) move_confirmed_lookup [OF fresh(4,1)]
    by (auto simp: fmlookup_map remap_record_id_def)
  show ?thesis
    unfolding last_writer_def ops row
    by (auto split: option.splits simp: bind_map_option comp_def map_option_bind)
qed (use assms(2) in simp)

section \<open>Renaming with the commit being recorded\<close>

text \<open>An outcome that names no record adds only the operations of its commit.\<close>

definition with_outcome :: "'v durable_client_state \<Rightarrow> 'v resolved_commit \<Rightarrow> 'v durable_client_state" where
  "with_outcome s r = s\<lparr>outcomes := outcomes s @ [r]\<rparr>"

lemma remap_commit_fresh:
  assumes "\<not> commit_contains_id c (local_id m)"
  shows "remap_commit m c = c"
proof -
  have "\<not> operation_contains_id (local_id m) op \<Longrightarrow> remap_operation m op = op" for op :: "'a operation"
    by (cases op) (auto simp: remap_record_id_def map_option_case split: option.splits)
  with assms have "map (remap_operation m) (operations c) = operations c"
    by (intro map_idI) (auto simp: commit_contains_id_def list_ex_iff)
  then show ?thesis by (simp add: remap_commit_def)
qed

text \<open>Mapping a journal and the commit being recorded apart is mapping them together.\<close>

lemma mapping_with_outcome:
  assumes "apply_id_mapping s m = Inr t" "outcome r = Accepted i n ms" "valid_mappings (with_outcome s r)"
  shows "apply_id_mapping (with_outcome s r) m = Inr (with_outcome t (r\<lparr>local_commit := remap_commit m (local_commit r)\<rparr>))"
  using assms(1)
proof (cases rule: apply_id_mapping_cases)
  case known
  then have "\<not> occurs (with_outcome s r) (local_id m)"
    using assms(3) by (simp add: valid_mappings_def with_outcome_def)
  then have "remap_commit m (local_commit r) = local_commit r"
    by (intro remap_commit_fresh) (auto simp: occurs_def all_commits_def with_outcome_def)
  with known show ?thesis
    by (simp add: apply_id_mapping_def with_outcome_def contains_key_dom)
next
  case (fresh conf)
  with assms(2) show ?thesis
    by (simp add: apply_id_mapping_def with_outcome_def contains_key_dom remap_resolved_def)
qed

lemma mappings_with_outcome:
  assumes "try_fold apply_id_mapping s ms' = Inr t" "outcome r = Accepted i n ms" "valid_mappings (with_outcome s r)"
  shows "valid_mappings (with_outcome t (r\<lparr>local_commit := fold remap_commit ms' (local_commit r)\<rparr>))
    \<and> fset (fmdom (id_map s)) \<union> local_id ` set ms' \<subseteq> fset (fmdom (id_map t))"
  using assms
proof (induction ms' arbitrary: s r)
  case (Cons m ms')
  then obtain u where u: "apply_id_mapping s m = Inr u" "try_fold apply_id_mapping u ms' = Inr t" by (auto simp: rbind_Inr)
  let ?r = "r\<lparr>local_commit := remap_commit m (local_commit r)\<rparr>"
  have v: "valid_mappings (with_outcome u ?r)"
    by (rule apply_id_mapping_keeps_valid_mappings[OF mapping_with_outcome[OF u(1) Cons.prems(2,3)] Cons.prems(3)])
  have dom: "fset (fmdom (id_map s)) \<union> {local_id m} \<subseteq> fset (fmdom (id_map u))"
    using u(1) by (cases rule: apply_id_mapping_cases) (auto simp: fmdomI)
  from Cons.IH[OF u(2) _ v] Cons.prems(2) dom show ?case by auto
qed (simp add: with_outcome_def)

lemma removed_with_outcome:
  assumes "valid_mappings s" "index < length (outbox s)" "outcome r = Accepted i n ms" "local_commit r = outbox s ! index"
  shows "valid_mappings (with_outcome (s\<lparr>outbox := remove_at index (outbox s)\<rparr>) r)"
proof -
  let ?t = "with_outcome (s\<lparr>outbox := remove_at index (outbox s)\<rparr>) r"
  have "set (remove_at index (outbox s)) \<subseteq> set (outbox s)"
    using remove_at_split[OF assms(2)] by (metis set_mset_add_mset_insert set_mset_mset subset_insertI)
  then have "set (all_commits ?t) \<subseteq> set (all_commits s)"
    using assms(2,4) by (auto simp: all_commits_def with_outcome_def)
  moreover have "confirmed ?t = confirmed s" "outcomes ?t = outcomes s @ [r]" by (simp_all add: with_outcome_def)
  ultimately have "occurs ?t l \<Longrightarrow> occurs s l" for l
    using assms(3) unfolding occurs_def by auto
  with assms(1) show ?thesis by (auto simp: valid_mappings_def with_outcome_def)
qed

section \<open>The contract of push responses\<close>

definition pushed_state :: "string durable_client_state" where
  "pushed_state = demo_state\<lparr>outbox := [demo_commit ''c1'' ''local:1'' ''draft'',
     \<lparr>identity = demo_identity ''c2'', operations =
        [Upsert (RecordId ''note:2'') BaseAbsent ''reply'' (Some (RecordId ''local:1''))]\<rparr>]\<rparr>"

definition pushed_mapping :: id_mapping where
  "pushed_mapping = \<lparr>local_id = RecordId ''local:1'', canonical_id = RecordId ''note:1''\<rparr>"

definition pushed_response :: "string push_response" where
  "pushed_response = \<lparr>ps_schema_version = V1, ps_partition_id = PartitionId ''primary'',
     ps_client_id = ClientId ''client-a'',
     ps_outcome = Accepted (demo_identity ''c1'') 5 [pushed_mapping]\<rparr>"

definition pushed_prepared :: "string prepared_transition" where
  "pushed_prepared = projr (prepare_push_response \<lparr>rt_state = pushed_state\<rparr> pushed_response)"

definition mapped_state :: "string durable_client_state" where
  "mapped_state = projr (apply_id_mapping pushed_state pushed_mapping)"

lemma pushed_ok: "prepare_push_response_with_policy \<lparr>rt_state = pushed_state\<rparr> pushed_response Manual
    = Inr pushed_prepared"
  by code_simp

lemma mapped_ok: "apply_id_mapping pushed_state pushed_mapping = Inr mapped_state"
  by code_simp

lemma pushed_fresh: "fmlookup (id_map pushed_state) (local_id pushed_mapping) = None"
  by code_simp

lemma pushed_valid: "valid_state pushed_state"
  unfolding validate_iff [symmetric] by code_simp

text \<open>
  C17: The record-ID mappings the server returns with an accepted commit are applied to
  the rows, the commits and the conflicts of the journal.  In the state that the first
  response for a commit hands to \<open>prepare\<close>, before it is validated, every mapped local ID
  is in the mapping table, and no canonical row and no reference of one, no operation of a
  pending commit or of a commit kept with its outcome (the one being accepted included) and
  no recorded conflict names it; nor does an ID mapped earlier reappear.  (The accepted
  outcome itself keeps the server's mappings as sent, and query windows are not renamed.)
\<close>

theorem id_mapping_complete:
  assumes "valid_state s" and "ps_outcome response = Accepted i n ms"
    and "ps_schema_version response = V1" "ps_partition_id response = partition_id s" "ps_client_id response = client_id s"
    and "\<forall>r \<in> set (outcomes s). commit_id_of (local_commit r) \<noteq> client_commit_id i"
    and "position (\<lambda>c. identity c = i) (outbox s) = Some index"
    and "try_fold apply_id_mapping (s\<lparr>outbox := remove_at index (outbox s)\<rparr>) ms = Inr nxt"
    and "recorded = nxt\<lparr>outcomes := outcomes nxt @ [resolve_pushed policy (Accepted i n ms) (outbox s ! index)]\<rparr>"
  shows "prepare_push_response_with_policy \<lparr>rt_state = s\<rparr> response policy = prepare \<lparr>rt_state = s\<rparr> recorded
    \<and> (\<forall>m \<in> set ms. local_id m |\<in>| fmdom (id_map recorded)) \<and> fmdom (id_map s) |\<subseteq>| fmdom (id_map recorded)
    \<and> (\<forall>l. l |\<in>| fmdom (id_map recorded) \<longrightarrow>
         (\<forall>r x. fmlookup (confirmed recorded) r = Some x \<longrightarrow> r \<noteq> l \<and> \<not> references_id x l)
         \<and> (\<forall>c \<in> set (outbox recorded) \<union> local_commit ` set (outcomes recorded). \<not> commit_contains_id c l)
         \<and> (\<forall>r \<in> set (outcomes recorded). \<not> outcome_contains_id (outcome r) l))"
proof -
  let ?r = "resolve_pushed policy (Accepted i n ms) (outbox s ! index)"
  have index: "index < length (outbox s)" using position_Some [OF assms(7)] by blast
  have v: "valid_mappings (with_outcome (s\<lparr>outbox := remove_at index (outbox s)\<rparr>) (?r\<lparr>local_commit := outbox s ! index\<rparr>))"
    using assms(1) index by (intro removed_with_outcome) (auto simp: valid_state_def)
  have "fold remap_commit ms (outbox s ! index) = local_commit ?r" by (simp add: resolve_pushed_def Let_def)
  with mappings_with_outcome [OF assms(8) _ v] have m: "valid_mappings recorded"
      "fset (fmdom (id_map s)) \<union> local_id ` set ms \<subseteq> fset (fmdom (id_map recorded))"
    by (auto simp: assms(9) with_outcome_def)
  have "\<not> occurs recorded l" if "l |\<in>| fmdom (id_map recorded)" for l
    using m(1) that by (auto simp: valid_mappings_def fmlookup_dom_iff)
  moreover have "List.find (\<lambda>r. commit_id_of (local_commit r) = client_commit_id i) (outcomes s) = None"
    using assms(6) by (simp add: find_None_iff)
  ultimately show ?thesis
    using m(2) assms(2-5,7-9)
    by (auto simp: prepare_push_response_with_policy_def Let_def occurs_def all_commits_def less_eq_fset.rep_eq)
qed

definition pushed_mapped :: "string durable_client_state" where
  "pushed_mapped = projr (try_fold apply_id_mapping (pushed_state\<lparr>outbox := remove_at 0 (outbox pushed_state)\<rparr>) [pushed_mapping])"

theorem id_mapping_complete_witness:
  "\<exists>recorded. prepare_push_response_with_policy \<lparr>rt_state = pushed_state\<rparr> pushed_response Manual
       = prepare \<lparr>rt_state = pushed_state\<rparr> recorded
     \<and> RecordId ''local:1'' |\<in>| fmdom (id_map recorded)
     \<and> (\<forall>c \<in> set (outbox recorded). \<not> commit_contains_id c (RecordId ''local:1''))"
proof -
  have "ps_outcome pushed_response = Accepted (demo_identity ''c1'') 5 [pushed_mapping]"
    "ps_schema_version pushed_response = V1" "ps_partition_id pushed_response = partition_id pushed_state"
    "ps_client_id pushed_response = client_id pushed_state"
    "\<forall>r \<in> set (outcomes pushed_state). commit_id_of (local_commit r) \<noteq> client_commit_id (demo_identity ''c1'')"
    "position (\<lambda>c. identity c = demo_identity ''c1'') (outbox pushed_state) = Some 0"
    "try_fold apply_id_mapping (pushed_state\<lparr>outbox := remove_at 0 (outbox pushed_state)\<rparr>) [pushed_mapping] = Inr pushed_mapped"
    by code_simp+
  from id_mapping_complete [OF pushed_valid this refl, of Manual] show ?thesis
    by (intro exI conjI) (auto simp: pushed_mapping_def)
qed

text \<open>
  Renaming a record does not change what a reader sees: after the mapping, the
  optimistic projection shows under the canonical ID exactly what it showed under the local
  ID (references renamed with it), and every other record is untouched, provided the
  canonical ID was not in use yet.
\<close>

theorem id_mapping_renames_projection:
  assumes "apply_id_mapping s m = Inr t" and "fmlookup (id_map s) (local_id m) = None"
    and "\<not> occurs s (canonical_id m)" and "r \<noteq> canonical_id m"
  shows "fmlookup (optimistic_projection t) (remap_record_id m r) =
    map_option (remap_optimistic m) (fmlookup (optimistic_projection s) r)"
  unfolding optimistic_projection_lookup using assms by (rule last_writer_remap)

theorem id_mapping_renames_projection_witness:
  "fmlookup (optimistic_projection mapped_state) (RecordId ''note:1'') =
     Some (OptPresent ''draft'' BaseAbsent None)"
proof -
  have "\<not> occurs pushed_state (canonical_id pushed_mapping)"
    unfolding occurs_checks [symmetric] by code_simp
  moreover have "RecordId ''local:1'' \<noteq> canonical_id pushed_mapping"
    by (simp add: pushed_mapping_def)
  moreover have "fmlookup (optimistic_projection pushed_state) (RecordId ''local:1'') =
      Some (OptPresent ''draft'' BaseAbsent None)"
    by code_simp
  ultimately show ?thesis
    using id_mapping_renames_projection [OF mapped_ok pushed_fresh, of "RecordId ''local:1''"]
    by (simp add: pushed_mapping_def remap_record_id_def remap_optimistic_def)
qed

text \<open>
  The first outcome of a pending commit is always recorded: given a valid journal, a
  response addressed to it whose identity (ID and fingerprint) is pending, without ID
  mappings and naming no already mapped local ID, the commit moves from its place in the
  outbox to the end of the outcomes, uncovered, with the automatic resolution the policy
  asks for, and nothing else changes but the revision.
\<close>

theorem push_records_first_outcome:
  assumes "valid_state s" and "c \<in> set (outbox s)" and "identity c = outcome_identity oc"
    and "accepted_mappings oc = []" and "revision s \<noteq> - 1"
    and "\<forall>l. l |\<in>| fmdom (id_map s) \<longrightarrow> \<not> outcome_contains_id oc l"
  shows "\<exists>xs ys. outbox s = xs @ c # ys \<and>
    prepare_push_response_with_policy \<lparr>rt_state = s\<rparr>
      \<lparr>ps_schema_version = V1, ps_partition_id = partition_id s, ps_client_id = client_id s,
       ps_outcome = oc\<rparr> policy
    = Inr \<lparr>base_revision = revision s, prepared_state = s\<lparr>revision := revision s + 1,
        outbox := xs @ ys, outcomes := outcomes s @ [resolve_pushed policy oc c]\<rparr>\<rparr>"
proof -
  obtain i where i: "position (\<lambda>d. identity d = identity c) (outbox s) = Some i"
      "i < length (outbox s)" "outbox s ! i = c"
      "List.find (\<lambda>r. commit_id_of (local_commit r) = commit_id_of c) (outcomes s) = None"
    using assms(1,2) by (rule pending_position)
  let ?r = "resolve_pushed policy oc c"
  let ?t = "s\<lparr>outbox := remove_at i (outbox s), outcomes := outcomes s @ [?r]\<rparr>"
  have valid: "valid_state (?t\<lparr>revision := revision s + 1\<rparr>)"
    using valid_after_outcome [OF assms(1) i(2), of ?r] i(3) assms(3,4,6)
    by (simp add: resolve_pushed_def Let_def)
  have "outcomes ?t \<noteq> outcomes s" by simp
  then have "?t \<noteq> s" by fastforce
  then have "prepare \<lparr>rt_state = s\<rparr> ?t = Inr \<lparr>base_revision = revision s,
      prepared_state = ?t\<lparr>revision := revision s + 1\<rparr>\<rparr>"
    using prepare_changed [of ?t "\<lparr>rt_state = s\<rparr>"] assms(5) valid by simp
  then have "prepare_push_response_with_policy \<lparr>rt_state = s\<rparr>
      \<lparr>ps_schema_version = V1, ps_partition_id = partition_id s, ps_client_id = client_id s,
       ps_outcome = oc\<rparr> policy = Inr \<lparr>base_revision = revision s,
      prepared_state = ?t\<lparr>revision := revision s + 1\<rparr>\<rparr>"
    using i assms(3,4) by (simp add: prepare_push_response_with_policy_def)
  moreover have "outbox s = take i (outbox s) @ c # drop (Suc i) (outbox s)"
    using i(2,3) id_take_nth_drop by force
  ultimately show ?thesis
    by (intro exI [of _ "take i (outbox s)"] exI [of _ "drop (Suc i) (outbox s)"])
      (simp add: remove_at_def)
qed

theorem push_records_first_outcome_witness:
  "\<exists>xs ys. outbox pushed_state = xs @ demo_commit ''c1'' ''local:1'' ''draft'' # ys \<and>
    prepare_push_response_with_policy \<lparr>rt_state = pushed_state\<rparr>
      \<lparr>ps_schema_version = V1, ps_partition_id = partition_id pushed_state,
       ps_client_id = client_id pushed_state,
       ps_outcome = Rejected (demo_identity ''c1'') Unauthorized\<rparr> PreferServerV1
    = Inr \<lparr>base_revision = revision pushed_state,
        prepared_state = pushed_state\<lparr>revision := revision pushed_state + 1, outbox := xs @ ys,
        outcomes := outcomes pushed_state @ [resolve_pushed PreferServerV1
          (Rejected (demo_identity ''c1'') Unauthorized) (demo_commit ''c1'' ''local:1'' ''draft'')]\<rparr>\<rparr>"
  by (rule push_records_first_outcome [OF pushed_valid])
    (simp_all add: pushed_state_def demo_commit_def demo_state_def empty_state_def)

text \<open>
  C15: Recording an outcome is idempotent.  Once a response was recorded, the same response
  (under either policy) is accepted again and prepares the installed state unchanged, so
  a push whose acknowledgement was lost can be retried.
\<close>

theorem push_retry_idempotent:
  assumes "prepare_push_response_with_policy rt response policy = Inr p"
  shows "prepare_push_response_with_policy \<lparr>rt_state = prepared_state p\<rparr> response retry_policy
    = Inr \<lparr>base_revision = revision (prepared_state p), prepared_state = prepared_state p\<rparr>"
proof -
  obtain resolved where
    "List.find (\<lambda>r. commit_id_of (local_commit r) =
        client_commit_id (outcome_identity (ps_outcome response))) (outcomes (prepared_state p))
      = Some resolved" "outcome resolved = ps_outcome response"
    using assms by (rule push_recorded)
  moreover have "prepare_event rt (EvPush response policy) = Inr p" using assms by simp
  then have "same_owner (rt_state rt) (prepared_state p)" and v: "valid_state (prepared_state p)"
    by (rule event.owner, rule event.prepared_valid)
  ultimately show ?thesis
    using push_envelope [OF assms] prepare_same [of "\<lparr>rt_state = prepared_state p\<rparr>"]
    by (cases "ps_schema_version response")
      (simp add: prepare_push_response_with_policy_def Let_def same_owner_def)
qed

theorem push_retry_idempotent_witness:
  "prepare_push_response_with_policy \<lparr>rt_state = prepared_state pushed_prepared\<rparr> pushed_response
     PreferServerV1
   = Inr \<lparr>base_revision = revision (prepared_state pushed_prepared),
          prepared_state = prepared_state pushed_prepared\<rparr>"
  using pushed_ok by (rule push_retry_idempotent)

text \<open>
  A response the client did not ask for is refused and changes nothing.  When no
  pending commit has its identity (ID and content fingerprint) and its outcome is not the
  one already kept, the result is an error: a different outcome for a resolved commit is
  an identity mismatch, anything else an unknown commit, a reused ID with another
  fingerprint included.
\<close>

theorem push_response_refused:
  assumes "ps_partition_id response = partition_id (rt_state rt)"
    and "ps_client_id response = client_id (rt_state rt)"
    and "outcome_identity (ps_outcome response) \<notin> identity ` set (outbox (rt_state rt))"
    and "ps_outcome response \<notin> outcome ` set (outcomes (rt_state rt))"
  shows "prepare_push_response_with_policy rt response policy =
    Inl (if \<exists>r \<in> set (outcomes (rt_state rt)). commit_id_of (local_commit r) =
              client_commit_id (outcome_identity (ps_outcome response))
         then OutcomeIdentityMismatch
         else UnknownCommit (client_commit_id (outcome_identity (ps_outcome response))))"
proof (cases "List.find (\<lambda>r. commit_id_of (local_commit r) =
    client_commit_id (outcome_identity (ps_outcome response))) (outcomes (rt_state rt))")
  case None
  moreover from this have "\<not> (\<exists>r \<in> set (outcomes (rt_state rt)). commit_id_of (local_commit r) =
      client_commit_id (outcome_identity (ps_outcome response)))"
    by (auto simp: find_None_iff)
  moreover have "position (\<lambda>c. identity c = outcome_identity (ps_outcome response))
      (outbox (rt_state rt)) = None"
    using assms(3) by (force simp: image_iff)
  ultimately show ?thesis
    using assms(1,2) by (cases "ps_schema_version response")
      (simp add: prepare_push_response_with_policy_def Let_def del: position_None)
next
  case (Some r)
  moreover from this have r: "r \<in> set (outcomes (rt_state rt))"
      "commit_id_of (local_commit r) = client_commit_id (outcome_identity (ps_outcome response))"
    by (auto simp: find_Some_iff)
  moreover from r(1) have "outcome r \<noteq> ps_outcome response" using assms(4) by (metis imageI)
  ultimately show ?thesis
    using assms(1,2) by (cases "ps_schema_version response")
      (auto simp: prepare_push_response_with_policy_def Let_def)
qed

theorem push_response_refused_witness:
  "prepare_push_response_with_policy \<lparr>rt_state = pushed_state\<rparr>
     (pushed_response\<lparr>ps_outcome := Rejected \<lparr>client_commit_id = ClientCommitId ''c1'',
        fingerprint = Fingerprint ''sha256:other''\<rparr> Unauthorized\<rparr>) Manual
   = Inl (UnknownCommit (ClientCommitId ''c1''))"
  by (subst push_response_refused)
    (simp_all add: pushed_state_def pushed_response_def demo_commit_def demo_identity_def
      demo_state_def empty_state_def)

text \<open>
  Accepting the oldest pending commit is invisible to readers: as long as the pull
  has not reached its sequence, the optimistic projection is the same before and after
  the outcome is recorded.
\<close>

theorem accept_keeps_projection:
  assumes "outbox s = c # cs" and "identity c = i"
    and "applied_sequence s < n"
    and "prepare_push_response_with_policy \<lparr>rt_state = s\<rparr> response policy = Inr p"
    and "ps_outcome response = Accepted i n []"
  shows "optimistic_projection (prepared_state p) = optimistic_projection s"
  using assms(4)
proof (cases rule: push_cases)
  case (first index nxt)
  have "index = 0" using first(2) assms(1,2,5) by simp
  with first assms(1,5) have nxt: "nxt = s\<lparr>outbox := cs\<rparr>"
    by (simp add: remove_at_def)
  let ?r = "resolve_pushed policy (ps_outcome response) c"
  have "accepted_not_pulled (applied_sequence s) ?r = Some c"
    using assms(3,5) by (simp add: resolve_pushed_def Let_def)
  moreover have "applied_sequence (prepared_state p) = applied_sequence s"
    using prepare_fields [OF first(4)] nxt by (simp add: applied_sequence_def)
  ultimately have "optimistic_operations (prepared_state p) = optimistic_operations s"
    using prepare_fields [OF first(4)] nxt assms(1) \<open>index = 0\<close>
    by (simp add: optimistic_operations_def map_filter_append
        del: accepted_not_pulled.simps)
  then show ?thesis
    using prepare_fields [OF first(4)] nxt by (simp add: optimistic_projection_def)
next
  case (retry resolved)
  then show ?thesis by (simp add: prepare_Inr)
qed

theorem accept_keeps_projection_witness:
  "optimistic_projection (prepared_state (projr (prepare_push_response_with_policy
      \<lparr>rt_state = pushed_state\<rparr> (pushed_response\<lparr>ps_outcome := Accepted (demo_identity ''c1'') 5 []\<rparr>)
      Manual)))
   = optimistic_projection pushed_state"
proof (rule accept_keeps_projection)
  show "outbox pushed_state = demo_commit ''c1'' ''local:1'' ''draft'' #
      [\<lparr>identity = demo_identity ''c2'', operations =
        [Upsert (RecordId ''note:2'') BaseAbsent ''reply'' (Some (RecordId ''local:1''))]\<rparr>]"
    by (simp add: pushed_state_def)
  show "applied_sequence pushed_state < 5" by code_simp
  show "prepare_push_response_with_policy \<lparr>rt_state = pushed_state\<rparr>
      (pushed_response\<lparr>ps_outcome := Accepted (demo_identity ''c1'') 5 []\<rparr>) Manual
    = Inr (projr (prepare_push_response_with_policy \<lparr>rt_state = pushed_state\<rparr>
      (pushed_response\<lparr>ps_outcome := Accepted (demo_identity ''c1'') 5 []\<rparr>) Manual))"
    by code_simp
  show "identity (demo_commit ''c1'' ''local:1'' ''draft'') = demo_identity ''c1''"
    by (simp add: demo_commit_def)
qed simp

end
