(* ===== verification/Client_Journal.thy ===== *)
theory Client_Journal
  imports Client_Transitions
begin

text \<open>
  The life of a journal under the adapter protocol the crate documents: prepare a
  transition, persist its state atomically under the expected revision, install it only
  after persistence succeeded.  Persistence may fail, its acknowledgement may be lost,
  and the process may crash and reopen at any point.  The steps are a relation over the
  durable state, the runtime in memory and the phase of the one transition in flight.
\<close>

section \<open>Invariants of step relations\<close>

locale step_invariant =
  fixes step :: "'s \<Rightarrow> 's \<Rightarrow> bool" and inv :: "'s \<Rightarrow> bool"
  assumes inv_step: "inv s \<Longrightarrow> step s t \<Longrightarrow> inv t"
begin

lemma inv_reach: "step\<^sup>*\<^sup>* s t \<Longrightarrow> inv s \<Longrightarrow> inv t"
  by (induction rule: rtranclp_induct) (auto intro: inv_step)

text \<open>A preorder that every step from an invariant state respects holds along every run.\<close>

lemma reach_preorder:
  assumes "step\<^sup>*\<^sup>* s t" and "inv s" and "\<And>s. le s s"
    and "\<And>s t u. le s t \<Longrightarrow> le t u \<Longrightarrow> le s u"
    and "\<And>s t. inv s \<Longrightarrow> step s t \<Longrightarrow> le s t"
  shows "le s t"
  using assms(1)
proof (induction rule: rtranclp_induct)
  case base
  show ?case by (rule assms(3))
next
  case (step t u)
  have "inv t" using step.hyps(1) assms(2) by (rule inv_reach)
  then show ?case using step assms(4,5) by blast
qed

end

section \<open>The journal\<close>

datatype 'v phase =
    Idle
  | Prepared "'v prepared_transition"
  | Persisted "'v prepared_transition"

record 'v journal =
  durable :: "'v durable_client_state"
  memory :: "'v client_runtime"
  phase :: "'v phase"

inductive journal_step :: "'v journal \<Rightarrow> 'v journal \<Rightarrow> bool" where
  j_prepare: "phase j = Idle \<Longrightarrow> prepare_event (memory j) ev = Inr p \<Longrightarrow>
    journal_step j (j\<lparr>phase := Prepared p\<rparr>)"
| j_persist: "phase j = Prepared p \<Longrightarrow> base_revision p = revision (durable j) \<Longrightarrow>
    journal_step j (j\<lparr>durable := prepared_state p, phase := Persisted p\<rparr>)"
| j_persist_failed: "phase j = Prepared p \<Longrightarrow> journal_step j (j\<lparr>phase := Idle\<rparr>)"
| j_ack_lost: "phase j = Persisted p \<Longrightarrow> journal_step j (j\<lparr>phase := Idle\<rparr>)"
| j_install: "phase j = Persisted p \<Longrightarrow> install (memory j) p = Inr rt \<Longrightarrow>
    journal_step j (j\<lparr>memory := rt, phase := Idle\<rparr>)"
| j_crash: "open_runtime (durable j) = Inr rt \<Longrightarrow>
    journal_step j (j\<lparr>memory := rt, phase := Idle\<rparr>)"

inductive_cases journal_stepE: "journal_step j j'"

definition opened_journal :: "'v durable_client_state \<Rightarrow> 'v journal" where
  "opened_journal s = \<lparr>durable = s, memory = \<lparr>rt_state = s\<rparr>, phase = Idle\<rparr>"

definition journal_inv :: "'v journal \<Rightarrow> bool" where
  "journal_inv j \<longleftrightarrow>
     valid_state (durable j)
     \<and> revision (rt_state (memory j)) \<le> revision (durable j)
     \<and> (revision (rt_state (memory j)) = revision (durable j) \<longrightarrow> rt_state (memory j) = durable j)
     \<and> (case phase j of
          Idle \<Rightarrow> True
        | Prepared p \<Rightarrow> \<exists>ev. prepare_event (memory j) ev = Inr p
        | Persisted p \<Rightarrow> durable j = prepared_state p
             \<and> base_revision p = revision (rt_state (memory j)))"

lemma unchanged_or_bumped_le: "unchanged_or_bumped s t \<Longrightarrow> revision s \<le> revision t"
  by (auto simp: unchanged_or_bumped_def word_le_nat_alt)

lemma unchanged_or_bumped_eq: "unchanged_or_bumped s t \<Longrightarrow> revision s = revision t \<Longrightarrow> s = t"
  by (auto simp: unchanged_or_bumped_def)

lemma journal_inv_opened: "valid_state s \<Longrightarrow> journal_inv (opened_journal s)"
  by (simp add: journal_inv_def opened_journal_def)

lemma open_runtime_Inr [result_conv]:
  "open_runtime s = Inr rt \<longleftrightarrow> valid_state s \<and> rt = \<lparr>rt_state = s\<rparr>"
  by (auto simp: open_runtime_def rbind_Inr validate_iff)

lemma install_Inr [result_conv]:
  "install rt p = Inr rt' \<longleftrightarrow> base_revision p = revision (rt_state rt) \<and> rt' = \<lparr>rt_state = prepared_state p\<rparr>"
  by (auto simp: install_def)

text \<open>The compare-and-swap of a persist pins the durable state to the one prepared from.\<close>

lemma persist_from_durable:
  assumes "journal_inv j" and "phase j = Prepared p" and "base_revision p = revision (durable j)"
  shows "rt_state (memory j) = durable j \<and> (\<exists>ev. prepare_event (memory j) ev = Inr p)"
proof -
  from assms(1,2) obtain ev where ev: "prepare_event (memory j) ev = Inr p"
    by (auto simp: journal_inv_def)
  have "revision (rt_state (memory j)) = revision (durable j)"
    using event.prepared_base [OF ev] assms(3) by simp
  with assms(1) have "rt_state (memory j) = durable j"
    unfolding journal_inv_def by blast
  with ev show ?thesis by blast
qed

interpretation journal: step_invariant journal_step journal_inv
proof
  fix j j' :: "'v journal"
  assume inv: "journal_inv j" and step: "journal_step j j'"
  from step show "journal_inv j'"
  proof cases
    case (j_persist p)
    with persist_from_durable [OF inv] obtain ev where
      m: "rt_state (memory j) = durable j" and ev: "prepare_event (memory j) ev = Inr p" by auto
    have bump: "unchanged_or_bumped (rt_state (memory j)) (prepared_state p)"
      using ev by (rule event.prepared_revision)
    then have "revision (rt_state (memory j)) \<le> revision (prepared_state p)"
      by (rule unchanged_or_bumped_le)
    then show ?thesis
      using j_persist event.prepared_valid [OF ev] event.prepared_base [OF ev]
        unchanged_or_bumped_eq [OF bump]
      by (auto simp: journal_inv_def)
  qed (use inv in \<open>auto simp: journal_inv_def result_conv\<close>)
qed

section \<open>Crash safety\<close>

lemma keeps_intent_trans: "keeps_intent s t \<Longrightarrow> keeps_intent t u \<Longrightarrow> keeps_intent s u"
  unfolding keeps_intent_def by (rule subset_mset.order_trans)

lemma durable_step:
  assumes "journal_inv j" and "journal_step j j'"
  shows "durable j' = durable j \<or>
    (\<exists>ev p. prepare_event \<lparr>rt_state = durable j\<rparr> ev = Inr p \<and> durable j' = prepared_state p)"
  using assms(2)
proof cases
  case (j_persist p)
  with persist_from_durable [OF assms(1)] obtain ev where
    "rt_state (memory j) = durable j" and "prepare_event (memory j) ev = Inr p" by auto
  moreover from this(1) have "memory j = \<lparr>rt_state = durable j\<rparr>" by (cases "memory j") simp
  ultimately show ?thesis using j_persist by auto
qed auto

lemma durable_keeps_intent:
  "journal_inv j \<Longrightarrow> journal_step j j' \<Longrightarrow> keeps_intent (durable j) (durable j')"
  by (drule (1) durable_step) (auto dest: event.intent)

definition demo_runtime :: "string client_runtime" where
  "demo_runtime = \<lparr>rt_state = demo_state\<rparr>"

definition demo_enqueued :: "string prepared_transition" where
  "demo_enqueued = \<lparr>base_revision = 0, prepared_state = demo_state\<lparr>revision := 1,
     outbox := [demo_commit ''c1'' ''note:1'' ''hello'']\<rparr>\<rparr>"

definition demo_persisted :: "string journal" where
  "demo_persisted = \<lparr>durable = prepared_state demo_enqueued, memory = demo_runtime,
     phase = Persisted demo_enqueued\<rparr>"

lemma demo_open: "open_runtime demo_state = Inr demo_runtime"
  by code_simp

lemma demo_prepare: "prepare_event demo_runtime (EvEnqueue (demo_commit ''c1'' ''note:1'' ''hello'')) = Inr demo_enqueued"
  by code_simp

definition demo_prepared :: "string journal" where
  "demo_prepared = \<lparr>durable = demo_state, memory = demo_runtime, phase = Prepared demo_enqueued\<rparr>"

lemma demo_prepare_step: "journal_step (opened_journal demo_state) demo_prepared"
proof -
  have m: "memory (opened_journal demo_state) = demo_runtime"
    by (simp add: opened_journal_def demo_runtime_def)
  have "journal_step (opened_journal demo_state)
      ((opened_journal demo_state)\<lparr>phase := Prepared demo_enqueued\<rparr>)"
    by (rule j_prepare [OF _ demo_prepare [folded m]]) (simp add: opened_journal_def)
  then show ?thesis
    by (simp add: opened_journal_def demo_prepared_def demo_runtime_def)
qed

lemma demo_persist_step: "journal_step demo_prepared demo_persisted"
proof -
  have "journal_step demo_prepared (demo_prepared
      \<lparr>durable := prepared_state demo_enqueued, phase := Persisted demo_enqueued\<rparr>)"
    by (rule j_persist) (simp_all add: demo_prepared_def demo_enqueued_def demo_state_def empty_state_def)
  then show ?thesis by (simp add: demo_prepared_def demo_persisted_def)
qed

lemma demo_prepare_run: "journal_step\<^sup>*\<^sup>* (opened_journal demo_state) demo_prepared"
  using demo_prepare_step by (rule r_into_rtranclp)

lemma demo_persist_run: "journal_step\<^sup>*\<^sup>* demo_prepared demo_persisted"
  using demo_persist_step by (rule r_into_rtranclp)

lemmas demo_run = rtranclp_trans [OF demo_prepare_run demo_persist_run]

lemma reached_inv:
  assumes "open_runtime s = Inr rt" and "journal_step\<^sup>*\<^sup>* (opened_journal s) j"
  shows "journal_inv j"
  using assms(2) journal_inv_opened
  by (rule journal.inv_reach) (use assms(1) in \<open>simp add: result_conv\<close>)

text \<open>
  C4: Whatever sequence of prepared, persisted, failed, lost, installed and crashed
  transitions a journal went through, the durable state on disk passes validation, so the
  next process start reopens it and finds exactly that state.
\<close>

theorem journal_always_reopens:
  assumes "open_runtime s = Inr rt" and "journal_step\<^sup>*\<^sup>* (opened_journal s) j"
  shows "open_runtime (durable j) = Inr \<lparr>rt_state = durable j\<rparr>"
  using reached_inv [OF assms] by (simp add: journal_inv_def result_conv)

theorem journal_always_reopens_witness:
  "open_runtime (durable demo_persisted) = Inr \<lparr>rt_state = durable demo_persisted\<rparr>"
  using journal_always_reopens [OF demo_open demo_run] .

text \<open>
  C2: No lost update.  The durable state only ever changes to the result of a client event
  prepared from the durable state itself: a transition prepared from a stale runtime is
  refused by the revision check, also after a lost acknowledgement.
\<close>

theorem journal_no_lost_update:
  assumes "open_runtime s = Inr rt" and "journal_step\<^sup>*\<^sup>* (opened_journal s) j"
    and "journal_step j j'" and "durable j' \<noteq> durable j"
  shows "\<exists>ev p. prepare_event \<lparr>rt_state = durable j\<rparr> ev = Inr p \<and> durable j' = prepared_state p"
  using durable_step [OF reached_inv [OF assms(1,2)] assms(3)] assms(4) by blast

theorem journal_no_lost_update_witness:
  "\<exists>ev p. prepare_event \<lparr>rt_state = durable demo_prepared\<rparr> ev = Inr p
     \<and> durable demo_persisted = prepared_state p"
  using journal_no_lost_update [OF demo_open demo_prepare_run demo_persist_step]
  by (simp add: demo_prepared_def demo_persisted_def demo_enqueued_def demo_state_def empty_state_def)

text \<open>
  The install that follows a successful persist is never stale: with one transition in
  flight at a time, the runtime still has the revision the transition was prepared from,
  and after the install runtime and disk agree.
\<close>

theorem install_after_persist:
  assumes "open_runtime s = Inr rt" and "journal_step\<^sup>*\<^sup>* (opened_journal s) j"
    and "phase j = Persisted p"
  shows "install (memory j) p = Inr \<lparr>rt_state = durable j\<rparr>"
  using reached_inv [OF assms(1,2)] assms(3) by (simp add: journal_inv_def result_conv)

theorem install_after_persist_witness:
  "install (memory demo_persisted) demo_enqueued = Inr \<lparr>rt_state = durable demo_persisted\<rparr>"
  by (rule install_after_persist [OF demo_open demo_run]) (simp add: demo_persisted_def)

text \<open>
  C1: No local intent is lost.  Between any two points of a journal's life every commit
  that was pending or resolved on disk is still there, with its identity and
  multiplicity, whatever was pushed, pulled, reset, bootstrapped, resolved or crashed.
\<close>

theorem journal_keeps_intent:
  assumes "open_runtime s = Inr rt" and "journal_step\<^sup>*\<^sup>* (opened_journal s) j"
    and "journal_step\<^sup>*\<^sup>* j j'"
  shows "mset (map identity (all_commits (durable j))) \<subseteq>#
         mset (map identity (all_commits (durable j')))"
proof -
  have inv: "journal_inv j" using assms(1,2) by (rule reached_inv)
  have "keeps_intent (durable j) (durable j')"
    by (rule journal.reach_preorder [OF assms(3) inv,
          where le = "\<lambda>a b. keeps_intent (durable a) (durable b)"])
      (auto intro: keeps_intent_trans durable_keeps_intent)
  then show ?thesis by (simp add: keeps_intent_def)
qed

theorem journal_keeps_intent_witness:
  "mset (map identity (all_commits (durable demo_prepared))) \<subseteq>#
   mset (map identity (all_commits (durable demo_persisted)))"
  using journal_keeps_intent [OF demo_open demo_prepare_run demo_persist_run] .

end
