(* ===== verification/Client_Pull.thy ===== *)
theory Client_Pull
  imports Client_Push Client_Journal
begin

text \<open>
  What pulling does: the framing and sequence rules of a batch
  (\<open>validate_pull_batch\<close>), the refinement of the server's commit log by the canonical
  rows, snapshots that replace them (\<open>prepare_snapshot\<close>, resets and bootstraps), the
  cursor that never moves backward, and the optimistic projection over it all.
\<close>

section \<open>Framing and sequences\<close>

lemma frame_commits_Inr [result_conv]:
  "frame_commits tok fs = Inr cs \<longleftrightarrow> fs = map (Commit tok) cs"
  by (induction tok fs arbitrary: cs rule: frame_commits.induct) (auto simp: rbind_Inr)

lemma frame_ends_Some [result_conv]:
  "frame_ends fs = Some (a, b) \<longleftrightarrow> (\<exists>mid. fs = Start a # mid @ [End b])"
proof (cases fs)
  case (Cons f rest)
  have "(\<exists>mid. rest = mid @ [End b]) \<longleftrightarrow> rest \<noteq> [] \<and> last rest = End b"
    by (metis append_butlast_last_id last_snoc snoc_eq_iff_butlast)
  then show ?thesis
    unfolding Cons by (cases f; cases "rest = []") (auto split: pull_frame.splits)
qed simp

lemma check_against_current_Inr [result_conv]:
  "check_against_current s cp = Inr u \<longleftrightarrow>
     (\<forall>current. checkpoint s = Some current \<longrightarrow>
        scope cp = scope current \<and> epoch (cursor cp) = epoch (cursor current)
        \<and> sequence (cursor current) \<le> sequence (cursor cp))"
  by (auto simp: check_against_current_def split: option.splits if_splits)

lemma guard_subscription_scope_Inr [result_conv]:
  "guard_subscription_scope s sc = Inr u \<longleftrightarrow>
     \<not> is_some_and (Option.bind (subscriptions s) authorization_scope) (\<lambda>previous. previous \<noteq> sc)"
  by (simp add: guard_subscription_scope_def)

lemma unat_inc: "(r :: u64) \<noteq> - 1 \<Longrightarrow> unat (r + 1) = Suc (unat r)"
  using checked_add_1 [of r] by (simp add: checked_add_Some)

text \<open>The saturating comparison of neighbours excludes a wrap inside a batch.\<close>

lemma check_sequence_contiguous:
  assumes "check_sequence e cs = Inr e'"
    and "\<forall>(a, b) \<in> set (windows2 cs). pc_sequence b = saturating_add (pc_sequence a) 1"
  shows "map (unat \<circ> pc_sequence) cs = [unat e..<unat e + length cs]"
  using assms
proof (induction cs arbitrary: e)
  case (Cons c cs)
  from Cons.prems(1) have c: "pc_sequence c = e" and rest: "check_sequence (e + 1) cs = Inr e'"
    by (auto split: if_splits)
  show ?case
  proof (cases cs)
    case (Cons d ds)
    have "pc_sequence d = e + 1" using rest Cons by (auto split: if_splits)
    then have "saturating_add e 1 = e + 1" using Cons.prems(2) Cons c by simp
    then have "e \<noteq> - 1" by (auto simp: saturating_add_def)
    then have "unat (e + 1) = Suc (unat e)" by (rule unat_inc)
    moreover have "map (unat \<circ> pc_sequence) cs = [unat (e + 1)..<unat (e + 1) + length cs]"
      using rest Cons.prems(2) Cons by (intro Cons.IH) auto
    ultimately show ?thesis
      using c by (simp add: upt_conv_Cons comp_def del: upt_Suc)
  qed (use c in simp)
qed simp

lemma pull_gap_free:
  assumes "check_commit_sequences s cp cs = Inr ()"
    and "current_sequence s cp < sequence (cursor cp)"
  shows "map (unat \<circ> pc_sequence) cs =
    [Suc (unat (current_sequence s cp))..<Suc (unat (sequence (cursor cp)))]"
proof -
  let ?n = "current_sequence s cp" and ?m = "sequence (cursor cp)"
  from assms obtain e where chain: "\<forall>(a, b) \<in> set (windows2 cs). pc_sequence b = saturating_add (pc_sequence a) 1"
    and last: "cs = [] \<or> pc_sequence (last cs) = ?m"
    and e: "check_sequence (?n + 1) cs = Inr e" and fin: "e - 1 = ?m"
    unfolding check_commit_sequences_def
    by (auto simp: rbind_Inr for_each_Inr ensure_Inr split_beta split: if_splits)
  have "?n \<noteq> - 1" using assms(2) by (auto simp: word_order.extremum_strict)
  then have n1: "unat (?n + 1) = Suc (unat ?n)" by (rule unat_inc)
  have seqs: "map (unat \<circ> pc_sequence) cs = [unat (?n + 1)..<unat (?n + 1) + length cs]"
    using e chain by (rule check_sequence_contiguous)
  have "cs \<noteq> []" using e fin assms(2) by auto
  then have "unat ?m = unat ?n + length cs"
    using last seqs n1 last_map [of cs "unat \<circ> pc_sequence"]
    by (simp add: Suc_le_eq del: upt_Suc)
  then show ?thesis using seqs n1 by simp
qed

lemma pull_batch_cases:
  assumes "prepare_pull_batch rt batch = Inr p"
  obtains cp cs where
    "frames batch = Start cp # map (Commit (token cp)) cs @ [End cp]"
    "check_against_current (rt_state rt) cp = Inr ()"
    "check_commit_sequences (rt_state rt) cp cs = Inr ()"
    "checkpoint (prepared_state p) = Some cp"
    "confirmed (prepared_state p) =
       (if is_some_and (checkpoint (rt_state rt))
             (\<lambda>current. sequence (cursor cp) = sequence (cursor current))
        then confirmed (rt_state rt) else apply_commits cs (confirmed (rt_state rt)))"
    "outbox (prepared_state p) = outbox (rt_state rt)"
    "outcomes (prepared_state p) = outcomes (rt_state rt)"
    "id_map (prepared_state p) = id_map (rt_state rt)"
    "subscriptions (prepared_state p) = subscriptions (rt_state rt)"
    "guard_subscription_scope (rt_state rt) (scope cp) = Inr ()"
proof -
  from assms obtain cp cs where v: "validate_pull_batch (rt_state rt) batch = Inr (cp, cs)"
    and g: "guard_subscription_scope (rt_state rt) (scope cp) = Inr ()"
    and p: "(if is_some_and (checkpoint (rt_state rt))
             (\<lambda>current. sequence (cursor cp) = sequence (cursor current))
        then if checkpoint (rt_state rt) = Some cp then prepare rt (rt_state rt)
             else if cs \<noteq> [] then Inl InvalidPullFraming
             else prepare rt ((rt_state rt)\<lparr>checkpoint := Some cp\<rparr>)
        else prepare rt ((rt_state rt)\<lparr>confirmed := apply_commits cs (confirmed (rt_state rt)),
                              checkpoint := Some cp\<rparr>)) = Inr p"
    unfolding prepare_pull_batch_def by (auto simp: rbind_Inr Let_def)
  from v have f: "frames batch = Start cp # map (Commit (token cp)) cs @ [End cp]"
      "check_against_current (rt_state rt) cp = Inr ()"
      "check_commit_sequences (rt_state rt) cp cs = Inr ()"
    unfolding validate_pull_batch_def
    by (auto simp: rbind_Inr ok_or_Inr frame_ends_Some frame_commits_Inr butlast_append split: if_splits)
  show thesis
    using p by (intro that [OF f _ _ _ _ _ _ g]) (auto split: if_splits dest: prepare_fields)
qed

lemma current_sequence_applied:
  "check_against_current s cp = Inr u \<Longrightarrow> current_sequence s cp = applied_sequence s"
  by (auto simp: check_against_current_Inr current_sequence_def applied_sequence_def split: option.splits)

lemma pull_batch_advance:
  assumes "prepare_pull_batch rt batch = Inr p"
  shows "\<exists>cp cs. frames batch = Start cp # map (Commit (token cp)) cs @ [End cp]
    \<and> checkpoint (prepared_state p) = Some cp
    \<and> applied_sequence (rt_state rt) \<le> applied_sequence (prepared_state p)
    \<and> (applied_sequence (rt_state rt) < applied_sequence (prepared_state p) \<longrightarrow>
         map (unat \<circ> pc_sequence) cs =
           [Suc (unat (applied_sequence (rt_state rt)))..<Suc (unat (applied_sequence (prepared_state p)))]
         \<and> confirmed (prepared_state p) = apply_commits cs (confirmed (rt_state rt)))
    \<and> (applied_sequence (prepared_state p) = applied_sequence (rt_state rt)
         \<and> checkpoint (rt_state rt) \<noteq> None \<longrightarrow>
           confirmed (prepared_state p) = confirmed (rt_state rt))"
  using assms
proof (cases rule: pull_batch_cases)
  case (1 cp cs)
  have cur: "current_sequence (rt_state rt) cp = applied_sequence (rt_state rt)"
    using 1(2) by (rule current_sequence_applied)
  have new: "applied_sequence (prepared_state p) = sequence (cursor cp)"
    using 1(4) by (simp add: applied_sequence_def)
  have "applied_sequence (rt_state rt) \<le> sequence (cursor cp)"
    using 1(2) by (auto simp: check_against_current_Inr applied_sequence_def split: option.splits)
  moreover have "is_some_and (checkpoint (rt_state rt))
      (\<lambda>current. sequence (cursor cp) = sequence (cursor current)) \<longleftrightarrow>
      checkpoint (rt_state rt) \<noteq> None \<and> sequence (cursor cp) = applied_sequence (rt_state rt)"
    by (auto simp: is_some_and_iff applied_sequence_def split: option.splits)
  ultimately show ?thesis
    using 1(1,4,5) pull_gap_free [OF 1(3)] unfolding cur new
    by (intro exI [of _ cp] exI [of _ cs] conjI impI) (simp_all, auto)
qed

section \<open>The server's commit log\<close>

text \<open>
  The log is the parameter: the commit the server assigned to each sequence number.  The
  canonical rows of a client that started empty are the log applied up to its cursor.
\<close>

definition server_rows :: "(nat \<Rightarrow> 'v pull_commit) \<Rightarrow> nat \<Rightarrow> (record_id, 'v record_state) fmap" where
  "server_rows log n = apply_commits (map log [1..<Suc n]) fmempty"

lemma apply_commits_append:
  "apply_commits (cs @ ds) m = apply_commits ds (apply_commits cs m)"
  by (simp add: apply_commits_def)

lemma server_rows_extend:
  assumes "m \<le> n"
  shows "apply_commits (map log [Suc m..<Suc n]) (server_rows log m) = server_rows log n"
proof -
  have "[1..<Suc n] = [1..<Suc m] @ [Suc m..<Suc n]"
    using assms by (metis Suc_le_mono le_add1 plus_1_eq_Suc upt_add_eq_append le_Suc_ex add_Suc)
  then show ?thesis
    unfolding server_rows_def apply_commits_append [symmetric] map_append [symmetric] by simp
qed

lemma commits_from_log:
  assumes "map (unat \<circ> pc_sequence) cs = ns" and "\<forall>c \<in> set cs. c = log (unat (pc_sequence c))"
  shows "cs = map log ns"
proof -
  have "map (\<lambda>c. log (unat (pc_sequence c))) cs = cs"
    by (rule map_idI) (use assms(2) in auto)
  then show ?thesis unfolding assms(1) [symmetric] by (simp add: comp_def)
qed

definition batch_commits :: "'v pull_batch \<Rightarrow> 'v pull_commit list" where
  "batch_commits batch = List.map_filter (\<lambda>f. case f of Commit t c \<Rightarrow> Some c | _ \<Rightarrow> None) (frames batch)"

lemma batch_commits_framed:
  "frames batch = Start a # map (Commit t) cs @ [End b] \<Longrightarrow> batch_commits batch = cs"
proof -
  have "List.map_filter (\<lambda>f. case f of Commit t c \<Rightarrow> Some c | _ \<Rightarrow> None) (map (Commit t) cs) = cs"
    by (induction cs) auto
  then show "frames batch = Start a # map (Commit t) cs @ [End b] \<Longrightarrow> batch_commits batch = cs"
    by (simp add: batch_commits_def)
qed

section \<open>The contract of pull batches\<close>

definition pull_log :: "nat \<Rightarrow> string pull_commit" where
  "pull_log n = \<lparr>pc_sequence = of_nat n, pc_source = None, pc_records =
     [\<lparr>ar_record_id = RecordId ''note:1'',
       ar_state = if n = 2 then Absent else Present ''hi'' (of_nat n) None\<rparr>]\<rparr>"

definition pull_demo_batch :: "u64 \<Rightarrow> nat list \<Rightarrow> string pull_batch" where
  "pull_demo_batch n ns = \<lparr>frames = Start (demo_checkpoint n)
     # map (Commit (OpaqueCheckpoint ''t'')) (map pull_log ns) @ [End (demo_checkpoint n)]\<rparr>"

definition pull_demo_rt :: "string client_runtime" where
  "pull_demo_rt = \<lparr>rt_state = demo_state\<lparr>outbox := [demo_commit ''c1'' ''note:2'' ''mine'']\<rparr>\<rparr>"

definition pull_demo :: "string prepared_transition" where
  "pull_demo = projr (prepare_pull_batch pull_demo_rt (pull_demo_batch 3 [1, 2, 3]))"

lemma pull_demo_ok: "prepare_pull_batch pull_demo_rt (pull_demo_batch 3 [1, 2, 3]) = Inr pull_demo"
  by code_simp

text \<open>
  C3: The canonical rows refine the server's log.  If they are the log applied up to the
  client's sequence, and a batch carries commits of that log, then after any accepted
  batch they are the log applied up to the new sequence: every commit is applied exactly
  once and in order, whatever prefix the batch repeats or tries to skip.
\<close>

theorem pull_refines_server_log:
  assumes "prepare_pull_batch rt batch = Inr p"
    and "\<forall>c \<in> set (batch_commits batch). c = log (unat (pc_sequence c)) \<and> pc_sequence c \<noteq> 0"
    and "confirmed (rt_state rt) = server_rows log (unat (applied_sequence (rt_state rt)))"
  shows "confirmed (prepared_state p) = server_rows log (unat (applied_sequence (prepared_state p)))"
  using assms(1)
proof (cases rule: pull_batch_cases)
  case (1 cp cs)
  let ?s = "rt_state rt" and ?t = "prepared_state p"
  have cs: "batch_commits batch = cs" using 1(1) by (rule batch_commits_framed)
  note adv = pull_batch_advance [OF assms(1)]
  consider (up) "applied_sequence ?s < applied_sequence ?t"
    | (same) "applied_sequence ?t = applied_sequence ?s" "checkpoint ?s \<noteq> None"
    | (first) "applied_sequence ?t = applied_sequence ?s" "checkpoint ?s = None"
    using adv by force
  then show ?thesis
  proof cases
    case up
    then have seqs: "map (unat \<circ> pc_sequence) cs =
          [Suc (unat (applied_sequence ?s))..<Suc (unat (applied_sequence ?t))]"
      and conf: "confirmed ?t = apply_commits cs (confirmed ?s)"
      using adv batch_commits_framed cs by blast+
    have "cs = map log [Suc (unat (applied_sequence ?s))..<Suc (unat (applied_sequence ?t))]"
      using seqs assms(2) cs by (intro commits_from_log) auto
    moreover have "unat (applied_sequence ?s) \<le> unat (applied_sequence ?t)"
      using up by (simp add: word_less_nat_alt)
    ultimately show ?thesis
      using conf assms(3) server_rows_extend by metis
  next
    case same
    then show ?thesis using adv assms(3) by auto
  next
    case first
    then have "sequence (cursor cp) = 0" using 1(4) by (simp add: applied_sequence_def)
    then have "cs = [] \<or> pc_sequence (last cs) = 0"
      using 1(3) by (auto simp: check_commit_sequences_def rbind_Inr ensure_Inr)
    then have "cs = []" using assms(2) cs last_in_set by metis
    then show ?thesis
      using 1(5) first assms(3) by (simp add: apply_commits_def split: if_splits)
  qed
qed

theorem pull_refines_server_log_witness:
  "confirmed (prepared_state pull_demo) = server_rows pull_log (unat (applied_sequence (prepared_state pull_demo)))"
  by (rule pull_refines_server_log [OF pull_demo_ok]) code_simp+

text \<open>
  A batch is applied only when it is framed by one checkpoint and gap free: its
  commits carry exactly the sequence numbers after the client's own up to the
  checkpoint's, without wrap-around, and a batch that does not advance changes no row.
\<close>

theorem pull_batch_gap_free:
  assumes "prepare_pull_batch rt batch = Inr p"
  shows "\<exists>cp cs. frames batch = Start cp # map (Commit (token cp)) cs @ [End cp]
    \<and> checkpoint (prepared_state p) = Some cp
    \<and> applied_sequence (rt_state rt) \<le> applied_sequence (prepared_state p)
    \<and> (applied_sequence (rt_state rt) < applied_sequence (prepared_state p) \<longrightarrow>
         map (unat \<circ> pc_sequence) cs =
           [Suc (unat (applied_sequence (rt_state rt)))..<Suc (unat (applied_sequence (prepared_state p)))]
         \<and> confirmed (prepared_state p) = apply_commits cs (confirmed (rt_state rt)))
    \<and> (applied_sequence (prepared_state p) = applied_sequence (rt_state rt)
         \<and> checkpoint (rt_state rt) \<noteq> None \<longrightarrow>
           confirmed (prepared_state p) = confirmed (rt_state rt))"
  using assms by (rule pull_batch_advance)

theorem pull_batch_gap_free_witness:
  "\<exists>cp cs. frames (pull_demo_batch 3 [1, 2, 3]) = Start cp # map (Commit (token cp)) cs @ [End cp]
    \<and> checkpoint (prepared_state pull_demo) = Some cp
    \<and> map (unat \<circ> pc_sequence) cs = [1..<4]"
proof -
  have "applied_sequence (rt_state pull_demo_rt) < applied_sequence (prepared_state pull_demo)"
    and "unat (applied_sequence (rt_state pull_demo_rt)) = 0"
    and "unat (applied_sequence (prepared_state pull_demo)) = 3"
    by code_simp+
  then show ?thesis using pull_batch_gap_free [OF pull_demo_ok] by fastforce
qed

text \<open>Pulling the same batch again is accepted and changes nothing.\<close>

theorem pull_replay_idempotent:
  assumes "prepare_pull_batch rt batch = Inr p"
  shows "prepare_pull_batch \<lparr>rt_state = prepared_state p\<rparr> batch =
    Inr \<lparr>base_revision = revision (prepared_state p), prepared_state = prepared_state p\<rparr>"
  using assms
proof (cases rule: pull_batch_cases)
  case (1 cp cs)
  let ?t = "prepared_state p"
  have "prepare_event rt (EvPull (Batch batch)) = Inr p" using assms by simp
  then have own: "same_owner (rt_state rt) ?t" and valid: "valid_state ?t"
    by (rule event.owner, rule event.prepared_valid)
  have "validate_scope ?t cp = Inr ()"
    using valid 1(4) by (simp add: valid_state_def valid_position_def validate_scope_Inr)
  moreover have "check_against_current ?t cp = Inr ()"
    using 1(4) by (simp add: check_against_current_Inr)
  moreover have "check_commit_sequences ?t cp cs = Inr ()"
    using 1(3,4) unfolding check_commit_sequences_def
    by (auto simp: rbind_Inr current_sequence_def)
  ultimately have "validate_pull_batch ?t batch = Inr (cp, cs)"
    using 1(1) frame_commits_Inr [of "token cp" "map (Commit (token cp)) cs" cs]
      frame_ends_Some [of "frames batch" cp cp]
    by (simp add: validate_pull_batch_def butlast_append)
  moreover have "guard_subscription_scope ?t (scope cp) = Inr ()"
    using 1(9,10) by (simp add: guard_subscription_scope_Inr)
  ultimately show ?thesis
    using 1(4) prepare_same [of "\<lparr>rt_state = ?t\<rparr>"] valid by (simp add: prepare_pull_batch_def Let_def)
qed

theorem pull_replay_idempotent_witness:
  "prepare_pull_batch \<lparr>rt_state = prepared_state pull_demo\<rparr> (pull_demo_batch 3 [1, 2, 3]) =
    Inr \<lparr>base_revision = revision (prepared_state pull_demo), prepared_state = prepared_state pull_demo\<rparr>"
  using pull_demo_ok by (rule pull_replay_idempotent)

end
