(* ===== verification/Client_Snapshot.thy ===== *)
theory Client_Snapshot
  imports Client_Pull
begin

text \<open>
  Snapshots that replace the canonical rows (\<open>prepare_snapshot\<close>, reached through
  \<open>prepare_reset\<close> and \<open>prepare_bootstrap_snapshot\<close>): exactness, coverage of accepted
  writes, replay, the order of cursors along a journal's whole life, and what the
  optimistic projection shows after it all.
\<close>

section \<open>The rows of a snapshot\<close>

text \<open>A snapshot read as a finite map, records without a row left out.\<close>

definition snapshot_lookup :: "'v snapshot_record list \<Rightarrow> record_id \<Rightarrow> 'v record_state option" where
  "snapshot_lookup recs r =
     (case List.find (\<lambda>x. sr_record_id x = r) recs of
        None \<Rightarrow> None | Some x \<Rightarrow> if sr_state x = Absent then None else Some (sr_state x))"

lemma snapshot_lookup_Cons:
  "snapshot_lookup (rec # rest) r =
     (if sr_record_id rec = r then if sr_state rec = Absent then None else Some (sr_state rec)
      else snapshot_lookup rest r)"
  by (simp add: snapshot_lookup_def)

lemma snapshot_confirmed_Inr:
  assumes "snapshot_confirmed seen m recs = Inr conf"
  shows "distinct (map sr_record_id recs) \<and> sr_record_id ` set recs \<inter> seen = {}
    \<and> (\<forall>r. fmlookup conf r = (case snapshot_lookup recs r of Some x \<Rightarrow> Some x | None \<Rightarrow> fmlookup m r))"
  using assms
proof (induction seen m recs rule: snapshot_confirmed.induct)
  case (2 seen m rec rest)
  let ?m = "if sr_state rec \<noteq> Absent then fmupd (sr_record_id rec) (sr_state rec) m else m"
  have IH: "distinct (map sr_record_id rest)" "sr_record_id ` set rest \<inter> insert (sr_record_id rec) seen = {}"
    "fmlookup conf r = (case snapshot_lookup rest r of Some x \<Rightarrow> Some x | None \<Rightarrow> fmlookup ?m r)" for r
    using 2 by (auto split: if_splits)
  have "snapshot_lookup rest (sr_record_id rec) = None"
    using IH(2) by (auto simp: snapshot_lookup_def find_Some_iff in_set_conv_nth split: option.splits)
      (metis IH(2) Int_insert_right disjoint_iff image_eqI insertI1 nth_mem)
  then have "fmlookup conf r = (case snapshot_lookup (rec # rest) r of Some x \<Rightarrow> Some x | None \<Rightarrow> fmlookup m r)" for r
    using IH(3) [of r] by (cases "sr_record_id rec = r") (auto simp: snapshot_lookup_Cons split: option.splits)
  then show ?case using IH(1,2) 2(2) by (auto split: if_splits)
qed (simp add: snapshot_lookup_def)

lemma snapshot_cases:
  assumes "prepare_snapshot rt cp recs = Inr p"
  shows "distinct (map sr_record_id recs)"
    and "fmlookup (confirmed (prepared_state p)) r = snapshot_lookup recs r"
    and "check_snapshot_frontier (rt_state rt) cp = Inr ()"
    and "guard_subscription_scope (rt_state rt) (scope cp) = Inr ()"
    and "snapshot_confirmed {} fmempty recs = Inr (confirmed (prepared_state p))"
    and "outbox (prepared_state p) = outbox (rt_state rt)"
    and "outcomes (prepared_state p) = map (cover_outcome (same_epoch (rt_state rt) cp)
           (sequence (cursor cp))) (outcomes (rt_state rt))"
    and "reset_coverage (prepared_state p) = Some \<lparr>cov_cursor = cursor cp, cov_scope = scope cp\<rparr>"
    and "checkpoint (prepared_state p) = Some cp"
    and "id_map (prepared_state p) = id_map (rt_state rt)"
    and "subscriptions (prepared_state p) = subscriptions (rt_state rt)"
    and "valid_state (prepared_state p)"
proof -
  from assms obtain conf where c: "snapshot_confirmed {} fmempty recs = Inr conf"
    and f: "check_snapshot_frontier (rt_state rt) cp = Inr ()"
    and g: "guard_subscription_scope (rt_state rt) (scope cp) = Inr ()"
    and p: "prepare rt ((rt_state rt)\<lparr>confirmed := conf,
        outcomes := map (cover_outcome (same_epoch (rt_state rt) cp) (sequence (cursor cp)))
          (outcomes (rt_state rt)),
        reset_coverage := Some \<lparr>cov_cursor = cursor cp, cov_scope = scope cp\<rparr>,
        checkpoint := Some cp\<rparr>) = Inr p"
    unfolding prepare_snapshot_def by (auto simp: rbind_Inr Let_def)
  note fields = prepare_fields [OF p]
  show "distinct (map sr_record_id recs)"
    and "fmlookup (confirmed (prepared_state p)) r = snapshot_lookup recs r"
    using snapshot_confirmed_Inr [OF c] fields by (simp_all split: option.splits)
  show "check_snapshot_frontier (rt_state rt) cp = Inr ()"
    and "guard_subscription_scope (rt_state rt) (scope cp) = Inr ()"
    and "valid_state (prepared_state p)"
    using f g prepare_is_valid [OF p] by simp_all
  show "snapshot_confirmed {} fmempty recs = Inr (confirmed (prepared_state p))"
    and "outbox (prepared_state p) = outbox (rt_state rt)"
    and "outcomes (prepared_state p) = map (cover_outcome (same_epoch (rt_state rt) cp)
           (sequence (cursor cp))) (outcomes (rt_state rt))"
    and "reset_coverage (prepared_state p) = Some \<lparr>cov_cursor = cursor cp, cov_scope = scope cp\<rparr>"
    and "checkpoint (prepared_state p) = Some cp"
    and "id_map (prepared_state p) = id_map (rt_state rt)"
    and "subscriptions (prepared_state p) = subscriptions (rt_state rt)"
    using fields c by simp_all
qed

lemma cover_outcome_idem:
  "cover_outcome True n (cover_outcome same n r) = cover_outcome same n r"
  by (auto simp: cover_outcome_def split: durable_outcome.splits)

section \<open>Cursors along a journal\<close>

fun cursor_le :: "checkpoint option \<Rightarrow> checkpoint option \<Rightarrow> bool" where
  "cursor_le None b = True"
| "cursor_le (Some a) None = False"
| "cursor_le (Some a) (Some b) =
     (epoch (cursor a) < epoch (cursor b)
      \<or> (epoch (cursor a) = epoch (cursor b) \<and> sequence (cursor a) \<le> sequence (cursor b)))"

lemma cursor_le_refl [simp]: "cursor_le a a"
  by (cases a) auto

lemma cursor_le_trans: "cursor_le a b \<Longrightarrow> cursor_le b c \<Longrightarrow> cursor_le a c"
  by (cases a; cases b; cases c) auto

lemma check_snapshot_frontier_cursor:
  "check_snapshot_frontier s cp = Inr u \<Longrightarrow> cursor_le (checkpoint s) (Some cp)"
  by (auto simp: check_snapshot_frontier_def split: option.splits if_splits)

lemma apply_id_mappings_checkpoint:
  assumes "try_fold apply_id_mapping s ms = Inr t"
  shows "checkpoint t = checkpoint s \<and> subscriptions t = subscriptions s"
  using assms
  by (rule try_fold_invariant [where P = "\<lambda>u. checkpoint u = checkpoint s \<and> subscriptions u = subscriptions s"])
    (auto elim!: apply_id_mapping_cases)

lemma push_checkpoint:
  assumes "prepare_push_response_with_policy rt response policy = Inr p"
  shows "checkpoint (prepared_state p) = checkpoint (rt_state rt)
    \<and> subscriptions (prepared_state p) = subscriptions (rt_state rt)"
  using assms
proof (cases rule: push_cases)
  case (first index nxt)
  then show ?thesis
    using prepare_fields [OF first(4)] apply_id_mappings_checkpoint [OF first(3)] by simp
qed (simp add: prepare_Inr)

lemma resolve_checkpoint:
  assumes "prepare_resolve_conflict rt cid request = Inr p"
  shows "checkpoint (prepared_state p) = checkpoint (rt_state rt)
    \<and> subscriptions (prepared_state p) = subscriptions (rt_state rt)"
  using assms unfolding prepare_resolve_conflict_def resolve_at_def
  by (auto simp: Let_def rbind_Inr ok_or_Inr
      split: option.splits if_splits durable_outcome.splits conflict_resolution_request.splits
      dest: prepare_fields)

lemma enqueue_checkpoint:
  "prepare_enqueue rt c = Inr p \<Longrightarrow> checkpoint (prepared_state p) = checkpoint (rt_state rt)
    \<and> subscriptions (prepared_state p) = subscriptions (rt_state rt)"
  unfolding prepare_enqueue_def by (auto simp: rbind_Inr split: if_splits dest: prepare_fields)

lemma start_checkpoint:
  "prepare_start_subscription rt request = Inr p \<Longrightarrow> checkpoint (prepared_state p) = checkpoint (rt_state rt)"
  unfolding prepare_start_subscription_def
  by (auto simp: Let_def split: prod.splits if_splits option.splits dest: prepare_fields)

lemma cancel_checkpoint:
  "prepare_cancel_subscription rt i g = Inr p \<Longrightarrow> checkpoint (prepared_state p) = checkpoint (rt_state rt)"
  unfolding prepare_cancel_subscription_def
  by (auto simp: Let_def split: if_splits dest: prepare_fields)

lemma advance_window_checkpoint:
  "advance_window rt current response tok = Inr p \<Longrightarrow>
     checkpoint (prepared_state p) = checkpoint (rt_state rt)"
  unfolding advance_window_def install_window_def
  by (auto simp: Let_def rbind_Inr split: if_splits dest: prepare_fields)

lemma window_checkpoint:
  "prepare_subscription_response rt response = Inr p \<Longrightarrow>
     checkpoint (prepared_state p) = checkpoint (rt_state rt)"
  by (erule window_cases) (auto dest: cancel_checkpoint advance_window_checkpoint)

lemma pull_cursor:
  assumes "prepare_pull_response rt response = Inr p"
  shows "cursor_le (checkpoint (rt_state rt)) (checkpoint (prepared_state p))"
proof (cases response)
  case (Batch batch)
  with assms have "prepare_pull_batch rt batch = Inr p" by simp
  then show ?thesis
    by (cases rule: pull_batch_cases)
      (cases "checkpoint (rt_state rt)"; auto simp: check_against_current_Inr)
next
  case (Reset snapshot)
  with assms have "prepare_snapshot rt (rs_checkpoint snapshot) (rs_records snapshot) = Inr p"
    by (simp add: prepare_reset_def)
  from snapshot_cases(3,9) [OF this] show ?thesis
    using check_snapshot_frontier_cursor by metis
qed

lemma bootstrap_snapshot:
  "prepare_bootstrap_snapshot rt cp recs = Inr p \<Longrightarrow> prepare_snapshot rt cp recs = Inr p"
  by (auto simp: prepare_bootstrap_snapshot_def rbind_Inr split: if_splits)

lemma event_cursor:
  assumes "prepare_event rt ev = Inr p"
  shows "cursor_le (checkpoint (rt_state rt)) (checkpoint (prepared_state p))"
proof (cases ev)
  case (EvPull response)
  with assms show ?thesis by (simp add: pull_cursor)
next
  case (EvBootstrap cp recs)
  with assms have "prepare_snapshot rt cp recs = Inr p" by (simp add: bootstrap_snapshot)
  from snapshot_cases(3,9) [OF this] show ?thesis
    using check_snapshot_frontier_cursor by metis
qed (use assms in \<open>auto dest: enqueue_checkpoint push_checkpoint resolve_checkpoint start_checkpoint
      cancel_checkpoint window_checkpoint\<close>)

text \<open>
  C19: The pull cursor never moves backward.  Between any two points of a journal's life
  the checkpoint on disk is kept, or its cursor has moved to a later epoch, or to a later
  or equal sequence of the same epoch; a checkpoint once recorded is never lost.
\<close>

theorem journal_cursor_monotone:
  assumes "open_runtime s = Inr rt" and "journal_step\<^sup>*\<^sup>* (opened_journal s) j"
    and "journal_step\<^sup>*\<^sup>* j j'"
  shows "cursor_le (checkpoint (durable j)) (checkpoint (durable j'))"
proof (rule journal.reach_preorder [OF assms(3) reached_inv [OF assms(1,2)],
      where le = "\<lambda>a b. cursor_le (checkpoint (durable a)) (checkpoint (durable b))"])
  show "cursor_le (checkpoint (durable a)) (checkpoint (durable b))"
    if "journal_inv a" "journal_step a b" for a b :: "'a journal"
    using durable_step [OF that] by (auto dest: event_cursor)
qed (auto intro: cursor_le_trans)

theorem journal_cursor_monotone_witness:
  "cursor_le (checkpoint (durable demo_prepared)) (checkpoint (durable demo_persisted))"
  using demo_open demo_prepare_run demo_persist_run by (rule journal_cursor_monotone)

section \<open>The contract of snapshots\<close>

definition snap_state :: "string durable_client_state" where
  "snap_state = demo_state\<lparr>outbox := [demo_commit ''c3'' ''note:3'' ''pending''],
     confirmed := fmap_of_list [(RecordId ''note:9'', Present ''old'' 1 None)],
     checkpoint := Some (demo_checkpoint 2),
     outcomes := [\<lparr>local_commit = demo_commit ''c1'' ''note:1'' ''a'',
         outcome = Accepted (demo_identity ''c1'') 3 [], resolution = None, covered_by_reset = False\<rparr>,
       \<lparr>local_commit = demo_commit ''c2'' ''note:2'' ''b'',
         outcome = Accepted (demo_identity ''c2'') 7 [], resolution = None, covered_by_reset = False\<rparr>]\<rparr>"

definition snap_records :: "string snapshot_record list" where
  "snap_records = [\<lparr>sr_record_id = RecordId ''note:1'', sr_state = Present ''a'' 1 None\<rparr>,
     \<lparr>sr_record_id = RecordId ''note:4'', sr_state = Tombstone 2\<rparr>]"

definition snap_demo :: "string prepared_transition" where
  "snap_demo = projr (prepare_snapshot \<lparr>rt_state = snap_state\<rparr> (demo_checkpoint 5) snap_records)"

lemma snap_demo_ok: "prepare_snapshot \<lparr>rt_state = snap_state\<rparr> (demo_checkpoint 5) snap_records = Inr snap_demo"
  by code_simp

lemma snap_reset_ok:
  "prepare_reset \<lparr>rt_state = snap_state\<rparr> \<lparr>rs_reason = CheckpointExpired,
     rs_checkpoint = demo_checkpoint 5, rs_records = snap_records\<rparr> = Inr snap_demo"
  by code_simp

lemma snap_bootstrap_ok:
  "prepare_bootstrap_snapshot \<lparr>rt_state = snap_state\<rparr> (demo_checkpoint 5) snap_records = Inr snap_demo"
  by code_simp

text \<open>
  A reset replaces the canonical rows exactly: afterwards a record has the snapshot's
  state, or no row if the snapshot has none or marks it absent; the pending commits and
  all kept outcomes stay, and an accepted write is marked as covered only if the snapshot
  includes its sequence or belongs to another epoch.
\<close>

theorem reset_exact:
  assumes "prepare_reset rt snapshot = Inr p"
  shows "fmlookup (confirmed (prepared_state p)) r = snapshot_lookup (rs_records snapshot) r
    \<and> outbox (prepared_state p) = outbox (rt_state rt)
    \<and> checkpoint (prepared_state p) = Some (rs_checkpoint snapshot)
    \<and> outcomes (prepared_state p) = map (cover_outcome (same_epoch (rt_state rt) (rs_checkpoint snapshot))
         (sequence (cursor (rs_checkpoint snapshot)))) (outcomes (rt_state rt))
    \<and> distinct (map sr_record_id (rs_records snapshot))"
proof -
  have snap: "prepare_snapshot rt (rs_checkpoint snapshot) (rs_records snapshot) = Inr p"
    using assms by (simp add: prepare_reset_def)
  show ?thesis using snapshot_cases [OF snap] by simp
qed

theorem reset_exact_witness:
  "fmlookup (confirmed (prepared_state snap_demo)) (RecordId ''note:9'') = None
   \<and> outbox (prepared_state snap_demo) = outbox snap_state
   \<and> map covered_by_reset (outcomes (prepared_state snap_demo)) = [True, False]"
  using reset_exact [OF snap_reset_ok, of "RecordId ''note:9''"]
  by (simp add: snap_records_def snapshot_lookup_def snap_state_def same_epoch_def
      demo_checkpoint_def cover_outcome_def)

text \<open>Replaying a reset that was installed is accepted and changes nothing.\<close>

theorem reset_replay_idempotent:
  assumes "prepare_reset rt snapshot = Inr p"
  shows "prepare_reset \<lparr>rt_state = prepared_state p\<rparr> snapshot =
    Inr \<lparr>base_revision = revision (prepared_state p), prepared_state = prepared_state p\<rparr>"
proof -
  let ?t = "prepared_state p" and ?cp = "rs_checkpoint snapshot"
  have snap: "prepare_snapshot rt ?cp (rs_records snapshot) = Inr p"
    using assms by (simp add: prepare_reset_def)
  note facts = snapshot_cases [OF snap]
  have "validate_scope ?t ?cp = Inr ()"
    using facts(9,12) by (simp add: valid_state_def valid_position_def validate_scope_Inr)
  moreover have "guard_subscription_scope ?t (scope ?cp) = Inr ()"
    using facts(4,11) by (simp add: guard_subscription_scope_Inr)
  moreover have "check_snapshot_frontier ?t ?cp = Inr ()"
    using facts(9) by (simp add: check_snapshot_frontier_def)
  moreover have "same_epoch ?t ?cp" using facts(9) by (simp add: same_epoch_def)
  moreover have "map (cover_outcome True (sequence (cursor ?cp))) (outcomes ?t) = outcomes ?t"
    using facts(7) by (simp add: cover_outcome_idem)
  moreover have "?t\<lparr>confirmed := confirmed ?t, outcomes := outcomes ?t,
      reset_coverage := Some \<lparr>cov_cursor = cursor ?cp, cov_scope = scope ?cp\<rparr>,
      checkpoint := Some ?cp\<rparr> = ?t"
    using facts(8,9) by (intro durable_client_state.equality) simp_all
  ultimately show ?thesis
    using facts(5) prepare_same [of "\<lparr>rt_state = ?t\<rparr>"] facts(12)
    by (simp add: prepare_reset_def prepare_snapshot_def Let_def)
qed

theorem reset_replay_idempotent_witness:
  "prepare_reset \<lparr>rt_state = prepared_state snap_demo\<rparr> \<lparr>rs_reason = CheckpointExpired,
     rs_checkpoint = demo_checkpoint 5, rs_records = snap_records\<rparr>
   = Inr \<lparr>base_revision = revision (prepared_state snap_demo), prepared_state = prepared_state snap_demo\<rparr>"
  using snap_reset_ok by (rule reset_replay_idempotent)

text \<open>
  C36: A bootstrap never hides an accepted write the snapshot does not include: an
  accepted commit beyond the snapshot's sequence is kept exactly as it was, so readers
  still see it on top of the new rows.  (A bootstrap that could not tell, because the
  epoch changed, is refused.)
\<close>

theorem bootstrap_keeps_accepted:
  assumes "prepare_bootstrap_snapshot rt cp recs = Inr p"
    and "resolved \<in> set (outcomes (rt_state rt))" and "outcome resolved = Accepted i n ms"
    and "sequence (cursor cp) < n" and "\<not> covered_by_reset resolved"
  shows "resolved \<in> set (outcomes (prepared_state p))
    \<and> set (operations (local_commit resolved)) \<subseteq> set (optimistic_operations (prepared_state p))"
proof -
  have epoch: "same_epoch (rt_state rt) cp"
    using assms(1-3) by (auto simp: prepare_bootstrap_snapshot_def list_ex_iff split: if_splits)
  have "cover_outcome True (sequence (cursor cp)) resolved = resolved"
    using assms(3,4) by (simp add: cover_outcome_def)
  then have mem: "resolved \<in> set (outcomes (prepared_state p))"
    using snapshot_cases(7) [OF bootstrap_snapshot [OF assms(1)]] epoch assms(2) by force
  have "applied_sequence (prepared_state p) = sequence (cursor cp)"
    using snapshot_cases(9) [OF bootstrap_snapshot [OF assms(1)]] by (simp add: applied_sequence_def)
  then have "accepted_not_pulled (applied_sequence (prepared_state p)) resolved = Some (local_commit resolved)"
    using assms(3-5) by simp
  with mem have "local_commit resolved \<in> set (List.map_filter
      (accepted_not_pulled (applied_sequence (prepared_state p))) (outcomes (prepared_state p)))"
    unfolding in_map_filter by blast
  with mem show ?thesis by (auto simp: optimistic_operations_def simp del: accepted_not_pulled.simps)
qed

theorem bootstrap_keeps_accepted_witness:
  "Upsert (RecordId ''note:2'') BaseAbsent ''b'' None \<in> set (optimistic_operations (prepared_state snap_demo))"
  using bootstrap_keeps_accepted [OF snap_bootstrap_ok, of "outcomes snap_state ! 1" "demo_identity ''c2''" 7 "[]"]
  by (simp add: snap_state_def demo_commit_def demo_checkpoint_def)

section \<open>What a reader sees\<close>

text \<open>
  The record state a reader should see, stated on the journal itself: an operation is the
  last one on a record in a commit, a commit touches a record, and an accepted commit is
  not in the canonical rows yet.
\<close>

definition last_on :: "record_id \<Rightarrow> 'v operation list \<Rightarrow> 'v operation \<Rightarrow> bool" where
  "last_on r ops op \<longleftrightarrow> (\<exists>xs ys. ops = xs @ op # ys \<and> operation_record_id op = r
     \<and> (\<forall>x \<in> set ys. operation_record_id x \<noteq> r))"

definition touches :: "record_id \<Rightarrow> 'v client_commit \<Rightarrow> bool" where
  "touches r c \<longleftrightarrow> (\<exists>op \<in> set (operations c). operation_record_id op = r)"

definition unpulled :: "'v durable_client_state \<Rightarrow> 'v resolved_commit \<Rightarrow> bool" where
  "unpulled s a \<longleftrightarrow> \<not> covered_by_reset a \<and> (\<exists>i n ms. outcome a = Accepted i n ms
     \<and> (case checkpoint s of None \<Rightarrow> 0 < n | Some cp \<Rightarrow> sequence (cursor cp) < n))"

lemma find_last:
  assumes "last_on r ops op" "\<forall>x \<in> set rest. operation_record_id x \<noteq> r"
  shows "List.find (\<lambda>x. operation_record_id x = r) (rev (before @ ops @ rest)) = Some op"
proof -
  have none: "\<forall>x \<in> set zs. operation_record_id x \<noteq> r \<Longrightarrow>
      List.find (\<lambda>x. operation_record_id x = r) (zs @ more) = List.find (\<lambda>x. operation_record_id x = r) more"
    for zs more :: "'a operation list" by (induction zs) auto
  from assms(1) obtain xs ys where "ops = xs @ op # ys" "operation_record_id op = r"
    "\<forall>x \<in> set ys. operation_record_id x \<noteq> r" by (auto simp: last_on_def)
  with assms(2) none [of "rev rest"] none [of "rev ys"] show ?thesis by simp
qed

lemma unpulled_commit:
  "accepted_not_pulled (applied_sequence s) a = (if unpulled s a then Some (local_commit a) else None)"
  by (cases "outcome a"; cases "checkpoint s") (auto simp: unpulled_def applied_sequence_def)

lemma untouched_operations:
  "\<forall>c \<in> set cs. \<not> touches r c \<Longrightarrow> \<forall>x \<in> set (concat (map operations cs)). operation_record_id x \<noteq> r"
  by (auto simp: touches_def)

lemma untouched_unpulled:
  "\<forall>a \<in> set as. unpulled s a \<longrightarrow> \<not> touches r (local_commit a) \<Longrightarrow>
   \<forall>c \<in> set (List.map_filter (accepted_not_pulled (applied_sequence s)) as). \<not> touches r c"
  by (auto simp: in_map_filter unpulled_commit simp del: accepted_not_pulled.simps split: if_splits)

lemma projection_of_last:
  assumes "optimistic_operations s = before @ ops @ rest" "last_on r ops op"
    and "\<forall>x \<in> set rest. operation_record_id x \<noteq> r"
  shows "fmlookup (optimistic_projection s) r = Some (optimistic_of_operation op)"
  using find_last [OF assms(2,3), of before]
  unfolding optimistic_projection_lookup last_writer_def assms(1) by simp

lemma map_filter_split:
  "List.map_filter f (xs @ ys) = List.map_filter f xs @ List.map_filter f ys"
  by (simp add: List.map_filter_def)

text \<open>
  C18: What the optimistic projection shows for a record: what the last operation on it in
  the last pending commit that touches it leaves (the content with its base version and
  reference, or a deletion); if no pending commit touches it, the same for the last accepted
  commit that touches it, is not covered by a reset and has a sequence beyond the
  checkpoint's; and if there is none either, the canonical row, a tombstone as a deletion.
\<close>

theorem projection_last_writer:
  "(\<forall>before c after op. outbox s = before @ c # after \<longrightarrow> last_on r (operations c) op \<longrightarrow> (\<forall>d \<in> set after. \<not> touches r d)
      \<longrightarrow> fmlookup (optimistic_projection s) r =
        Some (case op of Upsert _ b v ref \<Rightarrow> OptPresent v b ref | Delete _ b \<Rightarrow> OptDeleted b))
   \<and> (\<forall>before a after op. outcomes s = before @ a # after \<longrightarrow> unpulled s a \<longrightarrow> last_on r (operations (local_commit a)) op
      \<longrightarrow> (\<forall>b \<in> set after. unpulled s b \<longrightarrow> \<not> touches r (local_commit b)) \<longrightarrow> (\<forall>c \<in> set (outbox s). \<not> touches r c)
      \<longrightarrow> fmlookup (optimistic_projection s) r =
        Some (case op of Upsert _ b v ref \<Rightarrow> OptPresent v b ref | Delete _ b \<Rightarrow> OptDeleted b))
   \<and> ((\<forall>a \<in> set (outcomes s). unpulled s a \<longrightarrow> \<not> touches r (local_commit a)) \<longrightarrow> (\<forall>c \<in> set (outbox s). \<not> touches r c)
      \<longrightarrow> fmlookup (optimistic_projection s) r =
        (case fmlookup (confirmed s) r of
           Some (Present v n ref) \<Rightarrow> Some (OptPresent v (BaseExact n) ref) | Some (Tombstone n) \<Rightarrow> Some (OptDeleted n)
         | _ \<Rightarrow> None))"
proof (intro conjI allI impI)
  let ?acc = "List.map_filter (accepted_not_pulled (applied_sequence s))"
  have ops: "optimistic_operations s = concat (map operations (?acc (outcomes s))) @ concat (map operations (outbox s))"
    by (simp add: optimistic_operations_def)
  have shown: "optimistic_of_operation op = (case op of Upsert _ b v ref \<Rightarrow> OptPresent v b ref | Delete _ b \<Rightarrow> OptDeleted b)"
    for op :: "'a operation" by (cases op) auto
  show "fmlookup (optimistic_projection s) r = Some (case op of Upsert _ b v ref \<Rightarrow> OptPresent v b ref | Delete _ b \<Rightarrow> OptDeleted b)"
    if "outbox s = before @ c # after" "last_on r (operations c) op" "\<forall>d \<in> set after. \<not> touches r d" for before c after op
    unfolding shown [symmetric]
    by (rule projection_of_last [where before = "concat (map operations (?acc (outcomes s))) @ concat (map operations before)"
          and ops = "operations c", OF _ that(2) untouched_operations [OF that(3)]]) (simp add: ops that(1))
  show "fmlookup (optimistic_projection s) r = Some (case op of Upsert _ b v ref \<Rightarrow> OptPresent v b ref | Delete _ b \<Rightarrow> OptDeleted b)"
    if "outcomes s = before @ a # after" "unpulled s a" "last_on r (operations (local_commit a)) op"
      "\<forall>b \<in> set after. unpulled s b \<longrightarrow> \<not> touches r (local_commit b)" "\<forall>c \<in> set (outbox s). \<not> touches r c" for before a after op
  proof -
    have "?acc (outcomes s) = ?acc before @ local_commit a # ?acc after"
      using that(1,2) by (simp add: map_filter_split unpulled_commit del: accepted_not_pulled.simps)
    then have "optimistic_operations s = concat (map operations (?acc before)) @ operations (local_commit a)
        @ concat (map operations (?acc after @ outbox s))" by (simp add: ops)
    moreover have "\<forall>c \<in> set (?acc after @ outbox s). \<not> touches r c"
      using untouched_unpulled [OF that(4)] that(5) by auto
    ultimately show ?thesis
      unfolding shown [symmetric] using untouched_operations by (intro projection_of_last [OF _ that(3)])
  qed
  show "fmlookup (optimistic_projection s) r = (case fmlookup (confirmed s) r of
           Some (Present v n ref) \<Rightarrow> Some (OptPresent v (BaseExact n) ref) | Some (Tombstone n) \<Rightarrow> Some (OptDeleted n)
         | _ \<Rightarrow> None)"
    if "\<forall>a \<in> set (outcomes s). unpulled s a \<longrightarrow> \<not> touches r (local_commit a)" "\<forall>c \<in> set (outbox s). \<not> touches r c"
  proof -
    have "\<forall>x \<in> set (rev (optimistic_operations s)). operation_record_id x \<noteq> r"
      using untouched_operations [OF untouched_unpulled [OF that(1)]] untouched_operations [OF that(2)] by (auto simp: ops)
    then have "List.find (\<lambda>x. operation_record_id x = r) (rev (optimistic_operations s)) = None"
      by (simp add: find_None_iff)
    then show ?thesis
      unfolding optimistic_projection_lookup last_writer_def by (auto split: option.splits record_state.splits)
  qed
qed

theorem projection_last_writer_witness:
  "fmlookup (optimistic_projection snap_state) (RecordId ''note:3'') = Some (OptPresent ''pending'' BaseAbsent None)
   \<and> fmlookup (optimistic_projection snap_state) (RecordId ''note:2'') = Some (OptPresent ''b'' BaseAbsent None)
   \<and> fmlookup (optimistic_projection snap_state) (RecordId ''note:9'') = Some (OptPresent ''old'' (BaseExact 1) None)"
proof -
  have out: "outbox snap_state = [] @ demo_commit ''c3'' ''note:3'' ''pending'' # []"
    "outcomes snap_state = [outcomes snap_state ! 0] @ outcomes snap_state ! 1 # []"
    by (simp_all add: snap_state_def)
  have last: "last_on (RecordId k) (operations (demo_commit i k v)) (Upsert (RecordId k) BaseAbsent v None)" for i k v
    unfolding last_on_def by (intro exI [of _ "[]"]) (simp add: demo_commit_def)
  have names: "touches r (demo_commit i k v) \<longleftrightarrow> r = RecordId k" for r i k v
    by (auto simp: touches_def demo_commit_def)
  have second: "local_commit (outcomes snap_state ! 1) = demo_commit ''c2'' ''note:2'' ''b''"
    "local_commit (outcomes snap_state ! 0) = demo_commit ''c1'' ''note:1'' ''a''" "unpulled snap_state (outcomes snap_state ! 1)"
    by (simp_all add: snap_state_def unpulled_def demo_checkpoint_def)
  note spec = projection_last_writer [of snap_state]
  have "fmlookup (optimistic_projection snap_state) (RecordId ''note:3'') = Some (OptPresent ''pending'' BaseAbsent None)"
    using spec [of "RecordId ''note:3''", THEN conjunct1, rule_format, OF out(1) last] by simp
  moreover have "fmlookup (optimistic_projection snap_state) (RecordId ''note:2'') = Some (OptPresent ''b'' BaseAbsent None)"
    using spec [of "RecordId ''note:2''", THEN conjunct2, THEN conjunct1, rule_format, OF out(2) second(3), unfolded second(1), OF last]
    by (simp add: out(1) names)
  moreover have "fmlookup (optimistic_projection snap_state) (RecordId ''note:9'') = Some (OptPresent ''old'' (BaseExact 1) None)"
  proof (subst spec [of "RecordId ''note:9''", THEN conjunct2, THEN conjunct2, rule_format])
    fix a assume "a \<in> set (outcomes snap_state)"
    then have "a = outcomes snap_state ! 0 \<or> a = outcomes snap_state ! 1" by (subst (asm) out(2)) auto
    then show "\<not> touches (RecordId ''note:9'') (local_commit a)" by (auto simp: second [simplified] names)
  qed (auto simp: out(1) names, simp add: snap_state_def)
  ultimately show ?thesis by blast
qed

end
