(* ===== verification/Client_Read_View.thy ===== *)
theory Client_Read_View
  imports Client_Snapshot
begin

text \<open>
  What the local read protocol shows (\<open>read.rs\<close>): every row of a snapshot equals a
  declarative view of the installed state, absence is claimed only within an authorized
  reset, and the committed batch between two revisions turns the old rows into the new.
\<close>

section \<open>Rows under updates\<close>

definition row_at :: "bool \<Rightarrow> (record_id, 'v read_row_v1) fmap \<Rightarrow> record_id \<Rightarrow> 'v read_row_v1" where
  "row_at complete rows r =
     (case fmlookup rows r of None \<Rightarrow> empty_row complete r | Some row \<Rightarrow> row)"

lemma row_at_update_row:
  "row_at c (update_row c k f rows) r = (if k = r then f (row_at c rows r) else row_at c rows r)"
  by (auto simp: row_at_def update_row_def)

lemma row_at_fold_update:
  "row_at c (fold (\<lambda>x. update_row c (key x) (f x)) xs rows) r =
     fold f (filter (\<lambda>x. key x = r) xs) (row_at c rows r)"
  by (induction xs arbitrary: rows) (auto simp: row_at_update_row)

lemma fold_nested:
  "fold (\<lambda>c. fold (f c) (g c)) cs rows =
     fold (\<lambda>(c, x). f c x) (concat (map (\<lambda>c. map (Pair c) (g c)) cs)) rows"
  by (induction cs arbitrary: rows) (auto simp: fold_map comp_def)

lemma filter_entries:
  "filter (\<lambda>x. fst x = r) (entries m) = (case fmlookup m r of None \<Rightarrow> [] | Some v \<Rightarrow> [(r, v)])"
proof -
  have "filter (\<lambda>x. fst x = r) xs = (case map_of xs r of None \<Rightarrow> [] | Some v \<Rightarrow> [(r, v)])"
    if "distinct (map fst xs)" for xs :: "('a \<times> 'b) list"
    using that
  proof (induction xs)
    case (Cons x xs)
    have "fst x = r \<Longrightarrow> map_of xs r = None"
      using Cons.prems by (auto simp: map_of_eq_None_iff)
    with Cons show ?case by (cases x) (auto split: option.splits)
  qed simp
  from this [OF distinct_entries] show ?thesis by (simp add: map_of_entries)
qed

lemma lookup_fold_fmupd:
  "fmlookup (fold (\<lambda>(k, v). fmupd k (h k v)) xs m) r =
     (case map_of (rev xs) r of None \<Rightarrow> fmlookup m r | Some v \<Rightarrow> Some (h r v))"
  by (induction xs rule: rev_induct) auto

lemma lookup_fold_entries:
  "fmlookup (fold (\<lambda>(k, v). fmupd k (h k v)) (entries m) fmempty) r = map_option (h r) (fmlookup m r)"
  unfolding lookup_fold_fmupd map_of_rev_entries by (auto split: option.splits)

section \<open>The declarative view\<close>

definition covered :: "'v durable_client_state \<Rightarrow> bool" where
  "covered s \<longleftrightarrow> reset_coverage s \<noteq> None"

definition touches :: "record_id \<Rightarrow> 'v client_commit \<Rightarrow> bool" where
  "touches r commit \<longleftrightarrow> r \<in> operation_record_id ` set (operations commit)"

definition conflict_view :: "'v resolved_commit \<Rightarrow> read_conflict_v1" where
  "conflict_view r = \<lparr>cf_identity = identity (local_commit r), cf_resolution = resolution r\<rparr>"

fun accepted_view :: "'v resolved_commit \<Rightarrow> read_accepted_v1" where
  "accepted_view r = \<lparr>ac_identity = identity (local_commit r),
     ac_sequence = (case outcome r of Accepted i s ms \<Rightarrow> s | _ \<Rightarrow> 0),
     ac_status = (if covered_by_reset r then CoveredByAuthorizedReset else AwaitingPullEpochUnknown)\<rparr>"

definition read_view :: "'v durable_client_state \<Rightarrow> record_id \<Rightarrow> 'v read_row_v1" where
  "read_view s r =
     \<lparr>rr_record_id = r,
      rr_confirmed = (case fmlookup (confirmed s) r of None \<Rightarrow> Absent | Some x \<Rightarrow> x),
      rr_confirmed_absence =
        (if fmlookup (confirmed s) r \<noteq> None then NotAbsent
         else if covered s then AbsentWithinAuthorizedScope else AbsenceUnknown),
      rr_optimistic = fmlookup (optimistic_projection s) r,
      rr_pending = map identity (filter (touches r) (outbox s)),
      rr_conflicts = map conflict_view
        (filter (\<lambda>x. touches r (local_commit x) \<and> is_conflict (outcome x)) (outcomes s)),
      rr_accepted = map accepted_view
        (filter (\<lambda>x. touches r (local_commit x) \<and> is_accepted (outcome x)) (outcomes s))\<rparr>"

text \<open>A well-formed commit touches a record through exactly one operation.\<close>

lemma operations_on:
  fixes c :: "'v client_commit"
  assumes "well_formed_commit c"
  shows "map (Pair a) (filter (\<lambda>op. operation_record_id op = r) (operations c)) =
    (if touches r c then [(a, the (List.find (\<lambda>op. operation_record_id op = r) (operations c)))] else [])"
proof -
  have "map (Pair a) (filter (\<lambda>op. operation_record_id op = r) ops) =
      (if r \<in> operation_record_id ` set ops
       then [(a, the (List.find (\<lambda>op. operation_record_id op = r) ops))] else [])"
    if "distinct (map operation_record_id ops)" for ops :: "'v operation list"
    using that
  proof (induction ops)
    case (Cons op ops)
    then show ?case by (auto simp: filter_empty_conv image_iff)
  qed simp
  then show ?thesis using assms unfolding well_formed_commit_def touches_def by blast
qed

text \<open>Updating the rows of every operation updates the row of a touched record once per commit.\<close>

lemma row_at_fold_commits:
  assumes "\<forall>x \<in> set xs. well_formed_commit (com x)"
  shows "row_at c (fold (\<lambda>x. fold (\<lambda>op. update_row c (operation_record_id op) (f x)) (operations (com x))) xs rows) r
    = fold f (filter (touches r \<circ> com) xs) (row_at c rows r)"
proof -
  let ?ops = "concat (map (\<lambda>x. map (Pair x) (operations (com x))) xs)"
  have "row_at c (fold (\<lambda>x. fold (\<lambda>op. update_row c (operation_record_id op) (f x)) (operations (com x))) xs rows) r
      = row_at c (fold (\<lambda>y. update_row c (operation_record_id (snd y)) (f (fst y))) ?ops rows) r"
    unfolding fold_nested [of "\<lambda>x op. update_row c (operation_record_id op) (f x)" "\<lambda>x. operations (com x)"]
    by (simp add: case_prod_unfold)
  also have "\<dots> = fold (\<lambda>y. f (fst y)) (filter (\<lambda>y. operation_record_id (snd y) = r) ?ops) (row_at c rows r)"
    by (rule row_at_fold_update)
  also have "\<dots> = fold f (map fst (filter (\<lambda>y. operation_record_id (snd y) = r) ?ops)) (row_at c rows r)"
    by (simp add: fold_map comp_def)
  also have "map fst (filter (\<lambda>y. operation_record_id (snd y) = r) ?ops) = filter (touches r \<circ> com) xs"
    using assms
  proof (induction xs)
    case (Cons x xs)
    then show ?case
      using operations_on [of "com x" x r] by (simp add: filter_map comp_def)
  qed simp
  finally show ?thesis .
qed

lemma fold_push_pending:
  "fold (\<lambda>x. push_pending (g x)) xs row = row\<lparr>rr_pending := rr_pending row @ map g xs\<rparr>"
  by (induction xs arbitrary: row) (auto simp: push_pending_def)

lemma fold_push_outcome:
  "fold push_outcome xs row = row\<lparr>
     rr_conflicts := rr_conflicts row @ map conflict_view (filter (is_conflict \<circ> outcome) xs),
     rr_accepted := rr_accepted row @ map accepted_view (filter (is_accepted \<circ> outcome) xs)\<rparr>"
proof (induction xs arbitrary: row)
  case (Cons x xs)
  then show ?case
    by (cases "outcome x") (auto simp: push_outcome_def conflict_view_def)
qed simp

section \<open>Snapshots show the view\<close>

lemma row_at_confirmed:
  "row_at (covered s) (confirmed_rows s) r =
     (case fmlookup (confirmed s) r of
        None \<Rightarrow> empty_row (covered s) r | Some x \<Rightarrow> confirmed_row (covered s) r x)"
  unfolding row_at_def confirmed_rows_def covered_def [symmetric] lookup_fold_entries
  by (auto split: option.splits)

lemma row_at_optimistic:
  "row_at (covered s) (add_optimistic s rows) r =
     (case fmlookup (optimistic_projection s) r of
        None \<Rightarrow> row_at (covered s) rows r
      | Some x \<Rightarrow> (row_at (covered s) rows r)\<lparr>rr_optimistic := Some x\<rparr>)"
proof -
  have "add_optimistic s rows = fold (\<lambda>x. update_row (covered s) (fst x)
      (\<lambda>row. row\<lparr>rr_optimistic := Some (snd x)\<rparr>)) (entries (optimistic_projection s)) rows"
    by (simp add: add_optimistic_def covered_def case_prod_unfold)
  then show ?thesis
    by (simp add: row_at_fold_update filter_entries split: option.splits)
qed

lemma row_at_pending:
  assumes "valid_state s"
  shows "row_at (covered s) (add_pending s rows) r = (row_at (covered s) rows r)
    \<lparr>rr_pending := rr_pending (row_at (covered s) rows r) @ map identity (filter (touches r) (outbox s))\<rparr>"
proof -
  have "\<forall>c \<in> set (outbox s). well_formed_commit c"
    using assms by (simp add: valid_state_def all_commits_def)
  from row_at_fold_commits [where com = "\<lambda>x. x"
      and f = "\<lambda>x. push_pending (identity x)", OF this] show ?thesis
    unfolding add_pending_def covered_def [symmetric] by (simp add: fold_push_pending comp_def)
qed

lemma push_outcome_rejected: "is_rejected (outcome x) \<Longrightarrow> push_outcome x row = row"
  by (cases "outcome x") (auto simp: push_outcome_def)

lemma fold_filter_rejected:
  "fold push_outcome (filter (\<lambda>x. \<not> is_rejected (outcome x)) xs) row = fold push_outcome xs row"
  by (induction xs arbitrary: row) (auto simp: push_outcome_rejected)

lemma fold_skip: "fold (\<lambda>x m. m) xs m = m"
  by (induction xs) auto

lemma row_at_outcomes:
  fixes s :: "'v durable_client_state"
  assumes "valid_state s"
  shows "row_at (covered s) (add_outcomes s rows) r =
    fold push_outcome (filter (touches r \<circ> local_commit) (outcomes s)) (row_at (covered s) rows r)"
proof -
  let ?live = "filter (\<lambda>x. \<not> is_rejected (outcome x)) (outcomes s)"
  have wf: "\<forall>x \<in> set ?live. well_formed_commit (local_commit x)"
    using assms by (simp add: valid_state_def all_commits_def)
  have "fold (\<lambda>x. fold (\<lambda>op rows. if is_rejected (outcome x) then rows
          else update_row (covered s) (operation_record_id op) (push_outcome x) rows)
          (operations (local_commit x))) xs rows =
      fold (\<lambda>x. fold (\<lambda>op. update_row (covered s) (operation_record_id op) (push_outcome x))
          (operations (local_commit x))) (filter (\<lambda>x. \<not> is_rejected (outcome x)) xs) rows"
    for xs :: "'v resolved_commit list" and rows
    by (induction xs arbitrary: rows) (auto simp: fold_skip)
  then have "add_outcomes s rows = fold (\<lambda>x. fold (\<lambda>op. update_row (covered s)
      (operation_record_id op) (push_outcome x)) (operations (local_commit x))) ?live rows"
    unfolding add_outcomes_def covered_def [symmetric] by simp
  then have "row_at (covered s) (add_outcomes s rows) r =
      fold push_outcome (filter (touches r \<circ> local_commit) ?live) (row_at (covered s) rows r)"
    using row_at_fold_commits [OF wf] by simp
  then show ?thesis
    using fold_filter_rejected [of "filter (touches r \<circ> local_commit) (outcomes s)"]
    by (simp add: conj_commute)
qed

lemma snapshot_row_view:
  fixes s :: "'v durable_client_state"
  assumes "valid_state s"
  shows "row_at (covered s) (sn_rows (read_snapshot s)) r = read_view s r"
proof -
  have "filter (is_conflict \<circ> outcome) (filter (touches r \<circ> local_commit) xs) =
      filter (\<lambda>x. touches r (local_commit x) \<and> is_conflict (outcome x)) xs"
    and "filter (is_accepted \<circ> outcome) (filter (touches r \<circ> local_commit) xs) =
      filter (\<lambda>x. touches r (local_commit x) \<and> is_accepted (outcome x)) xs"
    for xs :: "'v resolved_commit list"
    by (simp_all add: comp_def)
  moreover have "sn_rows (read_snapshot s) =
      add_outcomes s (add_pending s (add_optimistic s (confirmed_rows s)))"
    by (simp add: read_snapshot_def)
  ultimately show ?thesis
    by (simp only: row_at_outcomes [OF assms] row_at_pending [OF assms] row_at_optimistic
        row_at_confirmed fold_push_outcome)
      (simp add: read_view_def empty_row_def confirmed_row_def split: option.splits)
qed

lemma snapshot_row_row_at: "snapshot_row (read_snapshot s) r = row_at (covered s) (sn_rows (read_snapshot s)) r"
  by (auto simp: snapshot_row_def row_at_def read_snapshot_def metadata_def covered_def split: option.splits)

lemma snapshot_rows_keyed:
  assumes "valid_state s" and "fmlookup (sn_rows (read_snapshot s)) r = Some row"
  shows "rr_record_id row = r"
  using snapshot_row_view [OF assms(1), of r] assms(2) by (auto simp: row_at_def read_view_def)

section \<open>Committed batches\<close>

fun apply_row_change :: "'v read_row_change_v1 \<Rightarrow> (record_id, 'v read_row_v1) fmap \<Rightarrow> (record_id, 'v read_row_v1) fmap" where
  "apply_row_change (RowUpsert row) rows = fmupd (rr_record_id row) row rows"
| "apply_row_change (RowRemove r) rows = fmdrop r rows"

lemma apply_row_changes_lookup:
  assumes "\<And>r row. fmlookup after r = Some row \<Longrightarrow> rr_record_id row = r"
  shows "fmlookup (fold apply_row_change (List.map_filter (\<lambda>r.
      if fmlookup before r \<noteq> fmlookup after r
      then Some (case fmlookup after r of Some row \<Rightarrow> RowUpsert row | None \<Rightarrow> RowRemove r)
      else None) ks) rows) k =
    (if k \<in> set ks \<and> fmlookup before k \<noteq> fmlookup after k then fmlookup after k else fmlookup rows k)"
proof (induction ks arbitrary: rows)
  case (Cons r ks)
  show ?case
  proof (cases "fmlookup before r = fmlookup after r")
    case True
    then show ?thesis using Cons by auto
  next
    case False
    then show ?thesis
      using Cons assms [of r] by (cases "fmlookup after r") auto
  qed
qed simp

lemma row_changes_apply:
  assumes "\<And>r row. fmlookup after r = Some row \<Longrightarrow> rr_record_id row = r"
  shows "fold apply_row_change (row_changes before after) before = after"
proof (rule fmap_ext)
  fix k
  have "k \<notin> set (sorted_list_of_fset (fmdom before |\<union>| fmdom after)) \<Longrightarrow>
      fmlookup before k = None \<and> fmlookup after k = None"
    by (auto simp: fmdom_notD)
  then show "fmlookup (fold apply_row_change (row_changes before after) before) k = fmlookup after k"
    unfolding row_changes_def
    by (subst apply_row_changes_lookup) (use assms in auto)
qed

section \<open>The contract of local reads\<close>

definition read_demo :: "string durable_client_state" where
  "read_demo = prepared_state snap_demo"

lemma read_demo_valid: "valid_state read_demo"
  unfolding validate_iff [symmetric] by code_simp

lemma snap_state_valid: "valid_state snap_state"
  unfolding validate_iff [symmetric] by code_simp

text \<open>
  A local read shows exactly the installed state.  For every record, present in the
  snapshot's rows or not, the row has its canonical state, the optimistic record, the
  pending commits that touch it in order, and its conflicts and accepted writes; absence
  is claimed only when no row exists and an authorized reset covers the scope.
\<close>

theorem read_row_exact:
  assumes "valid_state s"
  shows "snapshot_row (read_snapshot s) r = read_view s r"
  unfolding snapshot_row_row_at using assms by (rule snapshot_row_view)

theorem read_row_exact_witness:
  "rr_confirmed_absence (snapshot_row (read_snapshot read_demo) (RecordId ''note:3'')) = AbsentWithinAuthorizedScope
   \<and> rr_pending (snapshot_row (read_snapshot read_demo) (RecordId ''note:3'')) = [demo_identity ''c3'']"
  unfolding read_row_exact [OF read_demo_valid] touches_def by code_simp

lemma batch_applies:
  assumes "valid_state after" and "committed_batch before after = Some batch"
  shows "fold apply_row_change (cb_changes batch) (sn_rows (read_snapshot before)) =
    sn_rows (read_snapshot after)"
proof -
  have "cb_changes batch = row_changes (sn_rows (read_snapshot before)) (sn_rows (read_snapshot after))"
    using assms(2) by (auto simp: committed_batch_def Let_def split: if_splits)
  then show ?thesis
    using row_changes_apply snapshot_rows_keyed [OF assms(1)] by metis
qed

text \<open>
  C20: The batch committed between two installed states is complete and exact: applying its
  row changes to the rows of the old snapshot gives the rows of the new one.
\<close>

theorem committed_batch_applies:
  assumes "valid_state after" and "committed_batch before after = Some batch"
  shows "fold apply_row_change (cb_changes batch) (sn_rows (read_snapshot before)) =
    sn_rows (read_snapshot after)"
  using assms by (rule batch_applies)

theorem committed_batch_applies_witness:
  "fold apply_row_change (cb_changes (the (committed_batch snap_state read_demo))) (sn_rows (read_snapshot snap_state)) =
    sn_rows (read_snapshot read_demo)"
proof (rule committed_batch_applies [OF read_demo_valid])
  have "revision snap_state \<noteq> revision read_demo" by code_simp
  then show "committed_batch snap_state read_demo = Some (the (committed_batch snap_state read_demo))"
    by (simp add: committed_batch_def Let_def)
qed

text \<open>
  Installing a prepared event publishes a batch exactly when the state changed, and
  consecutive batches form a chain: each starts at the installed revision and ends at its
  successor, with no revision skipped or reused.
\<close>

theorem event_publishes_batch:
  assumes "prepare_event rt ev = Inr p"
  shows "\<exists>published. install_with_read_batch rt p = Inr (\<lparr>rt_state = prepared_state p\<rparr>, published)
    \<and> (published = None \<longleftrightarrow> prepared_state p = rt_state rt)
    \<and> (\<forall>batch. published = Some batch \<longrightarrow>
         cb_before_revision batch = revision (rt_state rt)
         \<and> unat (cb_revision batch) = Suc (unat (revision (rt_state rt))))"
proof -
  have base: "base_revision p = revision (rt_state rt)" using assms by (rule event.prepared_base)
  have "unchanged_or_bumped (rt_state rt) (prepared_state p)" using assms by (rule event.prepared_revision)
  then consider "prepared_state p = rt_state rt"
    | "unat (revision (prepared_state p)) = Suc (unat (revision (rt_state rt)))"
    unfolding unchanged_or_bumped_def by blast
  then show ?thesis
  proof cases
    case 1
    then show ?thesis using base by (simp add: install_with_read_batch_def committed_batch_def)
  next
    case 2
    then have "revision (prepared_state p) \<noteq> revision (rt_state rt)" by auto
    moreover from this have "prepared_state p \<noteq> rt_state rt" by auto
    ultimately show ?thesis
      using base 2
      by (auto simp: install_with_read_batch_def committed_batch_def Let_def read_snapshot_def metadata_def)
  qed
qed

theorem event_publishes_batch_witness:
  "\<exists>batch. install_with_read_batch demo_runtime demo_enqueued = Inr (\<lparr>rt_state = prepared_state demo_enqueued\<rparr>, Some batch)
    \<and> cb_before_revision batch = revision (rt_state demo_runtime)"
proof -
  have "prepared_state demo_enqueued \<noteq> rt_state demo_runtime"
    by (simp add: demo_enqueued_def demo_runtime_def demo_state_def empty_state_def)
  then show ?thesis using event_publishes_batch [OF demo_prepare] by blast
qed

end
