(* ===== verification/Client_Conflict.thy ===== *)
theory Client_Conflict
  imports Client_Snapshot
begin

text \<open>
  Conflict resolution (\<open>prepare_resolve_conflict\<close> and its checks, the automatic
  prefer-server policy): what a decision changes, that it is taken once, and which
  replacements are admitted.
\<close>

section \<open>Finding the conflict\<close>

definition conflict_of :: "client_commit_id \<Rightarrow> 'v resolved_commit \<Rightarrow> bool" where
  "conflict_of cid r \<longleftrightarrow> commit_id_of (local_commit r) = cid \<and> is_conflict (outcome r)"

lemma is_conflictE:
  assumes "is_conflict oc"
  obtains i r a where "oc = Conflict i r a"
  using assms by (cases oc) auto

text \<open>The branch of the source marked unreachable is never taken.\<close>

lemma resolve_conflict_cases:
  assumes "position (conflict_of cid) (outcomes (rt_state rt)) = Some index"
    and "outcome (outcomes (rt_state rt) ! index) = Conflict i r a"
  shows "prepare_resolve_conflict rt cid request =
    (case resolution (outcomes (rt_state rt) ! index) of
       Some res \<Rightarrow> if resolution_request_matches (rt_state rt) res request then prepare rt (rt_state rt)
                   else Inl (ConflictAlreadyResolved cid)
     | None \<Rightarrow> resolve_at rt index r a request)"
proof -
  have "position (\<lambda>r. commit_id_of (local_commit r) = cid \<and> is_conflict (outcome r))
      (outcomes (rt_state rt)) = Some index"
    using assms(1) unfolding conflict_of_def .
  then show ?thesis
    using assms(2) by (simp add: prepare_resolve_conflict_def Let_def split: option.split)
qed

lemma resolve_conflict_found:
  assumes "prepare_resolve_conflict rt cid request = Inr p"
  obtains index i r a where "position (conflict_of cid) (outcomes (rt_state rt)) = Some index"
    "outcome (outcomes (rt_state rt) ! index) = Conflict i r a"
proof -
  from assms obtain index where pos: "position (conflict_of cid) (outcomes (rt_state rt)) = Some index"
    unfolding conflict_of_def by (auto simp: prepare_resolve_conflict_def Let_def rbind_Inr ok_or_Inr)
  then have "is_conflict (outcome (outcomes (rt_state rt) ! index))"
    by (auto simp: conflict_of_def dest!: position_Some)
  with pos that show thesis by (metis is_conflictE)
qed

section \<open>The decision\<close>

fun replacement_of :: "'v conflict_resolution_request \<Rightarrow> 'v client_commit list" where
  "replacement_of ReqKeepServer = []"
| "replacement_of (ReqKeepLocal c) = [c]"
| "replacement_of (ReqMerge c) = [c]"

fun resolution_of :: "'v conflict_resolution_request \<Rightarrow> conflict_resolution" where
  "resolution_of ReqKeepServer = ResKeepServer"
| "resolution_of (ReqKeepLocal c) = ResKeepLocal (identity c)"
| "resolution_of (ReqMerge c) = ResMerge (identity c)"

text \<open>What an operation means to do, whatever version it was based on.\<close>

fun intent_of :: "'v operation \<Rightarrow> record_id \<times> ('v \<times> record_id option) option" where
  "intent_of (Upsert r b v ref) = (r, Some (v, ref))"
| "intent_of (Delete r b) = (r, None)"

lemma same_operation_intent_iff: "same_operation_intent a b \<longleftrightarrow> intent_of a = intent_of b"
  by (cases "(a, b)" rule: same_operation_intent.cases) auto

lemma map_eq_zip:
  "map f xs = map f ys \<longleftrightarrow> length xs = length ys \<and> list_all (\<lambda>(a, b). f a = f b) (zip xs ys)"
  by (induction xs ys rule: list_induct2') auto

lemma same_intent_iff:
  "same_intent c d \<longleftrightarrow> map intent_of (operations c) = map intent_of (operations d)"
  by (simp add: same_intent_def same_operation_intent_iff map_eq_zip)

lemma resolve_at_effect:
  assumes "resolve_at rt index r a request = Inr p"
  shows "outcomes (prepared_state p) = (outcomes (rt_state rt))
        [index := (outcomes (rt_state rt) ! index)\<lparr>resolution := Some (resolution_of request)\<rparr>]"
    and "outbox (prepared_state p) = outbox (rt_state rt) @ replacement_of request"
    and "\<And>c. c \<in> set (replacement_of request) \<Longrightarrow>
          well_formed_commit c \<and> \<not> identity_exists (rt_state rt) (commit_id_of c)
          \<and> commit_matches_authoritative_base c r a"
    and "\<And>c. request = ReqKeepLocal c \<Longrightarrow>
          map intent_of (operations c) = map intent_of (operations (local_commit (outcomes (rt_state rt) ! index)))"
  using assms unfolding resolve_at_def validate_replacement_identity_def same_intent_iff
  by (auto simp: Let_def rbind_Inr validate_commit_Inr
      split: conflict_resolution_request.splits if_splits dest: prepare_fields)

lemma resolved_position:
  assumes "position (conflict_of cid) rs = Some index"
  shows "position (conflict_of cid) (rs[index := (rs ! index)\<lparr>resolution := x\<rparr>]) = Some index"
  using assms
proof (induction rs arbitrary: index)
  case (Cons r rs)
  then show ?case
    by (cases index) (auto simp: conflict_of_def split: if_splits)
qed simp

text \<open>After any successful resolution the conflict carries a decision.\<close>

lemma resolve_decided:
  assumes "prepare_resolve_conflict rt cid request = Inr p"
  obtains index i r a res where
    "position (conflict_of cid) (outcomes (prepared_state p)) = Some index"
    "outcome (outcomes (prepared_state p) ! index) = Conflict i r a"
    "resolution (outcomes (prepared_state p) ! index) = Some res"
    "resolution_request_matches (prepared_state p) res request"
proof -
  obtain index i r a where pos: "position (conflict_of cid) (outcomes (rt_state rt)) = Some index"
    and oc: "outcome (outcomes (rt_state rt) ! index) = Conflict i r a"
    using assms by (rule resolve_conflict_found)
  have len: "index < length (outcomes (rt_state rt))" using position_Some [OF pos] by blast
  show thesis
  proof (cases "resolution (outcomes (rt_state rt) ! index)")
    case None
    then have at: "resolve_at rt index r a request = Inr p"
      using assms resolve_conflict_cases [OF pos oc] by simp
    have "resolution_request_matches (prepared_state p) (resolution_of request) request"
      using resolve_at_effect(2) [OF at]
      by (cases request) (auto simp: known_commit_def)
    then show thesis
      using resolve_at_effect(1) [OF at] resolved_position [OF pos] oc len
      by (intro that [of index i r a "resolution_of request"]) simp_all
  next
    case (Some res)
    then have "resolution_request_matches (rt_state rt) res request" and "prepared_state p = rt_state rt"
      using assms resolve_conflict_cases [OF pos oc, of request]
      by (auto simp: prepare_Inr split: if_splits)
    then show thesis using pos oc Some by (intro that) simp_all
  qed
qed

lemma prefer_server_single:
  "prefer_server_eligible c (Conflict i r (Present w version wref)) \<longleftrightarrow>
     (\<exists>base v ref. operations c = [Upsert r (BaseExact base) v ref] \<and> 0 < base \<and> base < version)"
proof (cases "operations c")
  case (Cons op ops)
  then show ?thesis
    by (cases ops; cases op) (auto split: base_version.splits)
qed simp

section \<open>The contract of conflict resolution\<close>

definition conflict_state :: "string durable_client_state" where
  "conflict_state = demo_state\<lparr>outcomes := [
     \<lparr>local_commit = \<lparr>identity = demo_identity ''c1'',
        operations = [Upsert (RecordId ''note:1'') (BaseExact 3) ''mine'' None]\<rparr>,
      outcome = Conflict (demo_identity ''c1'') (RecordId ''note:1'') (Present ''theirs'' 5 None),
      resolution = None, covered_by_reset = False\<rparr>]\<rparr>"

definition conflict_replacement :: "string client_commit" where
  "conflict_replacement = \<lparr>identity = demo_identity ''c2'',
     operations = [Upsert (RecordId ''note:1'') (BaseExact 5) ''mine'' None]\<rparr>"

definition conflict_demo :: "string prepared_transition" where
  "conflict_demo = projr (prepare_resolve_conflict \<lparr>rt_state = conflict_state\<rparr> (ClientCommitId ''c1'')
     (ReqKeepLocal conflict_replacement))"

lemma conflict_demo_ok:
  "prepare_resolve_conflict \<lparr>rt_state = conflict_state\<rparr> (ClientCommitId ''c1'')
     (ReqKeepLocal conflict_replacement) = Inr conflict_demo"
  by code_simp

text \<open>
  C35: Resolving an open conflict records the decision on exactly that conflict and appends
  at most one replacement commit to the outbox; a replacement is well formed, has a fresh
  commit ID and is based on the server's authoritative version, and a keep-local
  replacement repeats the operations of the conflicted commit one for one.
\<close>

theorem resolve_conflict_effect:
  assumes "prepare_resolve_conflict rt cid request = Inr p"
    and "\<forall>x \<in> set (outcomes (rt_state rt)). conflict_of cid x \<longrightarrow> resolution x = None"
  shows "\<exists>index i r a. outcome (outcomes (rt_state rt) ! index) = Conflict i r a
    \<and> conflict_of cid (outcomes (rt_state rt) ! index)
    \<and> outcomes (prepared_state p) = (outcomes (rt_state rt))
        [index := (outcomes (rt_state rt) ! index)\<lparr>resolution := Some (resolution_of request)\<rparr>]
    \<and> outbox (prepared_state p) = outbox (rt_state rt) @ replacement_of request
    \<and> (\<forall>c \<in> set (replacement_of request). well_formed_commit c
         \<and> \<not> identity_exists (rt_state rt) (commit_id_of c) \<and> commit_matches_authoritative_base c r a)
    \<and> (\<forall>c. request = ReqKeepLocal c \<longrightarrow> map intent_of (operations c) =
         map intent_of (operations (local_commit (outcomes (rt_state rt) ! index))))"
proof -
  obtain index i r a where pos: "position (conflict_of cid) (outcomes (rt_state rt)) = Some index"
    and oc: "outcome (outcomes (rt_state rt) ! index) = Conflict i r a"
    using assms(1) by (rule resolve_conflict_found)
  have c: "index < length (outcomes (rt_state rt))" "conflict_of cid (outcomes (rt_state rt) ! index)"
    using position_Some [OF pos] by simp_all
  then have "resolution (outcomes (rt_state rt) ! index) = None" using assms(2) by simp
  then have at: "resolve_at rt index r a request = Inr p"
    using assms(1) resolve_conflict_cases [OF pos oc] by simp
  show ?thesis
    using oc c(2) resolve_at_effect [OF at]
    by (intro exI [of _ index] exI [of _ i] exI [of _ r] exI [of _ a]) blast
qed

theorem resolve_conflict_effect_witness:
  "outbox (prepared_state conflict_demo) = [conflict_replacement]
   \<and> map intent_of (operations conflict_replacement) =
       [(RecordId ''note:1'', Some (''mine'', None))]"
  using resolve_conflict_effect [OF conflict_demo_ok]
  by (auto simp: conflict_state_def demo_state_def empty_state_def conflict_replacement_def)

text \<open>
  A conflict is decided once.  After a resolution was recorded, repeating the same
  request is accepted and changes nothing, and no other request for that conflict can
  change the state: it is the recorded decision again or an error.
\<close>

theorem resolve_conflict_once:
  assumes "prepare_resolve_conflict rt cid request = Inr p"
  shows "prepare_resolve_conflict \<lparr>rt_state = prepared_state p\<rparr> cid request =
      Inr \<lparr>base_revision = revision (prepared_state p), prepared_state = prepared_state p\<rparr>
    \<and> (prepare_resolve_conflict \<lparr>rt_state = prepared_state p\<rparr> cid other =
         Inr \<lparr>base_revision = revision (prepared_state p), prepared_state = prepared_state p\<rparr>
       \<or> prepare_resolve_conflict \<lparr>rt_state = prepared_state p\<rparr> cid other =
         Inl (ConflictAlreadyResolved cid))"
proof -
  obtain index i r a res where
    pos: "position (conflict_of cid) (outcomes (prepared_state p)) = Some index"
    and oc: "outcome (outcomes (prepared_state p) ! index) = Conflict i r a"
    and res: "resolution (outcomes (prepared_state p) ! index) = Some res"
    and m: "resolution_request_matches (prepared_state p) res request"
    using assms by (rule resolve_decided)
  have "prepare_event rt (EvResolve cid request) = Inr p" using assms by simp
  then have "valid_state (prepared_state p)" by (rule event.prepared_valid)
  then have "prepare \<lparr>rt_state = prepared_state p\<rparr> (prepared_state p) =
      Inr \<lparr>base_revision = revision (prepared_state p), prepared_state = prepared_state p\<rparr>"
    using prepare_same [of "\<lparr>rt_state = prepared_state p\<rparr>"] by simp
  then show ?thesis
    using resolve_conflict_cases [of cid "\<lparr>rt_state = prepared_state p\<rparr>" index i r a] pos oc res m
    by simp
qed

theorem resolve_conflict_once_witness:
  "prepare_resolve_conflict \<lparr>rt_state = prepared_state conflict_demo\<rparr> (ClientCommitId ''c1'')
     (ReqKeepLocal conflict_replacement) =
   Inr \<lparr>base_revision = revision (prepared_state conflict_demo), prepared_state = prepared_state conflict_demo\<rparr>"
  using resolve_conflict_once [OF conflict_demo_ok] by blast

text \<open>
  The automatic policy gives up local intent only in one situation: under
  prefer-server, when the whole commit is a single upsert of the conflicted record based
  on an exact, nonzero version and the server's row is present and strictly newer.
\<close>

theorem policy_resolution_exact:
  "resolution (resolve_pushed policy oc c) \<noteq> None \<longleftrightarrow>
     policy = PreferServerV1 \<and> (\<exists>i r w version wref base v ref.
       oc = Conflict i r (Present w version wref)
       \<and> operations c = [Upsert r (BaseExact base) v ref] \<and> 0 < base \<and> base < version)"
proof (cases "\<exists>i r w version wref. oc = Conflict i r (Present w version wref)")
  case True
  then show ?thesis
    by (cases policy)
      (auto simp: resolve_pushed_def prefer_server_single simp del: prefer_server_eligible.simps(1)
        split: if_splits)
next
  case False
  then have "\<not> prefer_server_eligible d oc" for d :: "'a client_commit"
    by (cases "(d, oc)" rule: prefer_server_eligible.cases) auto
  then show ?thesis using False by (auto simp: resolve_pushed_def Let_def)
qed

end
