(* ===== verification/Client_Windows.thy ===== *)
theory Client_Windows
  imports Client_Snapshot
begin

text \<open>
  What durable subscriptions guarantee (\<open>subscriptions.rs\<close>): installed windows are
  complete, strictly ordered and bounded; a delta changes exactly the rows it names; a
  cancellation is a barrier for the rest of the journal's life; shared rows are stored
  under an unambiguous key; and no subscription operation touches the commit journal.
\<close>

section \<open>Loops over members\<close>

lemma validate_member_Inr:
  "validate_member self slot (used, rows) (r, key) = Inr acc \<longleftrightarrow>
     (\<exists>row. fmlookup (records self) key = Some row
        \<and> valid_subscription_text (record_str r) \<and> row_text_valid (sort_key row)
        \<and> row_record_id row = r \<and> cache_key (epoch (slot_frontier slot)) row = key
        \<and> scalar_kind_of (sort_key row) = order_kind (slot_coverage slot) \<and> row_version row \<noteq> 0
        \<and> acc = (insert key used, fmupd r row rows))"
  by (auto simp: validate_member_def rbind_Inr ok_or_Inr ensure_Inr)

lemma validate_members_rows:
  assumes "try_fold (validate_member self slot) (used, rows) xs = Inr (used', rows')"
  shows "fmlookup rows' r =
    (case map_of (rev xs) r of Some key \<Rightarrow> fmlookup (records self) key | None \<Rightarrow> fmlookup rows r)
    \<and> (\<forall>(r, key) \<in> set xs. \<exists>row. fmlookup (records self) key = Some row \<and> row_record_id row = r)"
  using assms
proof (induction xs arbitrary: used rows)
  case (Cons x xs)
  obtain k key where x: "x = (k, key)" by force
  from Cons.prems obtain row where row: "fmlookup (records self) key = Some row" "row_record_id row = k"
    and rest: "try_fold (validate_member self slot) (insert key used, fmupd k row rows) xs = Inr (used', rows')"
    unfolding x by (auto simp: rbind_Inr validate_member_Inr)
  from Cons.IH [OF rest] row show ?case
    unfolding x by (auto simp: map_add_def split: option.splits)
qed simp

section \<open>Installed windows\<close>

definition slot_row :: "'v durable_subscriptions \<Rightarrow> subscription_slot \<Rightarrow> record_id \<Rightarrow> 'v subscription_row option" where
  "slot_row subs slot r = Option.bind (fmlookup (members slot) r) (fmlookup (records subs))"

lemma validate_slot_facts:
  assumes "validate_slot self owner used (i, slot) = Inr used'"
  shows "\<And>r. r |\<in>| fmdom (members slot) \<Longrightarrow> \<exists>row. slot_row self slot r = Some row \<and> row_record_id row = r"
    and "distinct (ordered_ids slot)" and "set (ordered_ids slot) = fset (fmdom (members slot))"
    and "length (ordered_ids slot) \<le> unat (limit (slot_coverage slot))"
    and "\<forall>(x, y) \<in> set (windows2 (ordered_ids slot)). \<exists>a b. slot_row self slot x = Some a
           \<and> slot_row self slot y = Some b \<and> row_less (direction (slot_coverage slot)) a b"
    and "\<not> is_some_and (fmlookup (cancelled self) i) (\<lambda>barrier. barrier \<ge> slot_generation slot)"
proof -
  from assms obtain request rows where
      header: "slot_header_valid self owner i slot request"
    and fold: "try_fold (validate_member self slot) (used, fmempty) (entries (members slot)) = Inr (used', rows)"
    and ids: "map_len rows = length (ordered_ids slot)" "card (set (ordered_ids slot)) = map_len rows"
      "list_all (contains_key rows) (ordered_ids slot)"
    and wins: "\<forall>(x, y) \<in> set (windows2 (ordered_ids slot)). \<exists>a b. fmlookup rows x = Some a
      \<and> fmlookup rows y = Some b \<and> row_less (direction (slot_coverage slot)) a b"
    unfolding validate_slot_def
    by (auto simp: Let_def rbind_Inr ok_or_Inr ensure_Inr for_each_Inr case_prod_unfold)
  have member: "\<exists>row. fmlookup (records self) key = Some row \<and> row_record_id row = r"
    if "fmlookup (members slot) r = Some key" for r key
    using validate_members_rows [OF fold, of r] that by (auto simp: set_entries)
  have rows: "fmlookup rows r = slot_row self slot r" for r
    using validate_members_rows [OF fold, of r]
    by (auto simp: map_of_rev_entries slot_row_def split: option.splits)
  then have "r |\<in>| fmdom rows \<longleftrightarrow> r |\<in>| fmdom (members slot)" for r
    using member [of r] rows [of r]
    by (cases "fmlookup (members slot) r") (auto simp: fmlookup_dom_iff slot_row_def)
  then have dom: "fmdom rows = fmdom (members slot)" by blast
  show "\<exists>row. slot_row self slot r = Some row \<and> row_record_id row = r" if "r |\<in>| fmdom (members slot)" for r
    using that member by (auto simp: slot_row_def fmlookup_dom_iff)
  show "distinct (ordered_ids slot)" using ids(1,2) by (simp add: card_distinct)
  have "set (ordered_ids slot) \<subseteq> fset (fmdom rows)"
    using ids(3) by (auto simp: list_all_iff contains_key_dom)
  moreover have "card (set (ordered_ids slot)) = card (fset (fmdom rows))"
    using ids(2) by (simp add: map_len_def fcard.rep_eq)
  ultimately show "set (ordered_ids slot) = fset (fmdom (members slot))"
    unfolding dom [symmetric] by (intro card_subset_eq) simp_all
  show "length (ordered_ids slot) \<le> unat (limit (slot_coverage slot))"
    using header ids(1) dom by (simp add: slot_header_valid_def map_len_def)
  show "\<forall>(x, y) \<in> set (windows2 (ordered_ids slot)). \<exists>a b. slot_row self slot x = Some a
      \<and> slot_row self slot y = Some b \<and> row_less (direction (slot_coverage slot)) a b"
    using wins unfolding rows .
  show "\<not> is_some_and (fmlookup (cancelled self) i) (\<lambda>barrier. barrier \<ge> slot_generation slot)"
    using header by (simp add: slot_header_valid_def)
qed

lemma valid_slot:
  assumes "valid_state s" and "subscriptions s = Some subs" and "fmlookup (slots subs) i = Some slot"
  shows "\<exists>used used'. validate_slot subs s used (i, slot) = Inr used'"
proof -
  from assms(1,2) have "validate_subscriptions subs s = Inr ()" by (simp add: valid_state_def)
  then obtain used where "try_fold (validate_slot subs s) {} (entries (slots subs)) = Inr used"
    by (auto simp: validate_subscriptions_def rbind_Inr)
  then show ?thesis
    by (rule try_fold_each) (use assms(3) in \<open>simp add: set_entries\<close>)
qed

lemma transp_row_less: "transp (row_less d)"
  by (rule transpI; cases d) (auto dest: less_trans)

lemma slot_rows_ordered:
  assumes "validate_slot subs owner used (i, slot) = Inr used'"
  shows "map row_record_id (slot_rows subs slot) = ordered_ids slot
    \<and> sorted_wrt (row_less (direction (slot_coverage slot))) (slot_rows subs slot)"
proof -
  note facts = validate_slot_facts [OF assms]
  let ?row = "\<lambda>r. the (slot_row subs slot r)"
  have row: "slot_row subs slot r = Some (?row r) \<and> row_record_id (?row r) = r"
    if "r \<in> set (ordered_ids slot)" for r
    using facts(1) [of r] facts(3) that by auto
  have "List.map_filter (slot_row subs slot) xs = map ?row xs" if "set xs \<subseteq> set (ordered_ids slot)" for xs
    using that row by (induction xs) (auto split: option.splits)
  then have rows: "slot_rows subs slot = map ?row (ordered_ids slot)"
    by (simp add: slot_rows_def slot_row_def [abs_def])
  have "row_less (direction (slot_coverage slot)) (?row (ordered_ids slot ! k)) (?row (ordered_ids slot ! Suc k))"
    if "Suc k < length (ordered_ids slot)" for k
  proof -
    have "(ordered_ids slot ! k, ordered_ids slot ! Suc k) \<in> set (windows2 (ordered_ids slot))"
      using that by (auto simp: windows2_set)
    with facts(5) show ?thesis by force
  qed
  then have "sorted_wrt (row_less (direction (slot_coverage slot))) (slot_rows subs slot)"
    unfolding rows by (simp add: sorted_wrt_iff_nth_Suc_transp [OF transp_row_less])
  moreover have "map row_record_id (slot_rows subs slot) = ordered_ids slot"
    unfolding rows map_map by (rule map_idI) (simp add: row [THEN conjunct2])
  ultimately show ?thesis by simp
qed

section \<open>Deltas\<close>

text \<open>What a list of membership changes asks of one record.\<close>

definition changed_row ::
  "'v membership_change list \<Rightarrow> record_id \<Rightarrow> 'v subscription_row option \<Rightarrow> 'v subscription_row option" where
  "changed_row changes r old =
     (case List.find (\<lambda>c. change_record_id c = r) changes of
        None \<Rightarrow> old | Some (MUpsert row) \<Rightarrow> Some row | Some _ \<Rightarrow> None)"

lemma apply_change_lookup:
  "apply_change response rows change = Inr rows' \<Longrightarrow>
     fmlookup rows' r = changed_row [change] r (fmlookup rows r)"
  by (cases change) (auto simp: changed_row_def split: if_splits)

lemma touch_change_Inr:
  "touch_change response (touched, rows) c = Inr acc \<longleftrightarrow>
     valid_subscription_text (record_str (change_record_id c)) \<and> change_record_id c \<notin> touched
     \<and> (\<exists>rows'. apply_change response rows c = Inr rows' \<and> acc = (insert (change_record_id c) touched, rows'))"
  by (auto simp: touch_change_def Let_def rbind_Inr split: if_splits)

lemma touch_changes_lookup:
  assumes "try_fold (touch_change response) (touched, rows) changes = Inr (touched', rows')"
  shows "fmlookup rows' r = changed_row changes r (fmlookup rows r) \<and>
    (\<forall>c \<in> set changes. change_record_id c \<notin> touched)"
  using assms
proof (induction changes arbitrary: touched rows)
  case (Cons c changes)
  let ?i = "change_record_id c"
  from Cons.prems obtain mid where fresh: "?i \<notin> touched"
    and mid: "apply_change response rows c = Inr mid"
    and rest: "try_fold (touch_change response) (insert ?i touched, mid) changes = Inr (touched', rows')"
    by (auto simp: rbind_Inr touch_change_Inr)
  note IH = Cons.IH [OF rest]
  have "List.find (\<lambda>d. change_record_id d = r) changes = None" if "?i = r"
    using IH that by (auto simp: find_None_iff)
  then show ?case
    using IH fresh apply_change_lookup [OF mid, of r]
    by (auto simp: changed_row_def split: option.splits)
qed (simp add: changed_row_def)

lemma member_rows_lookup:
  assumes "member_rows current p = Inr rows"
  shows "fmlookup rows r = slot_row current p r"
proof -
  have "fmlookup rows' r = (case map_of (rev xs) r of Some key \<Rightarrow> fmlookup (records current) key
      | None \<Rightarrow> fmlookup m r)"
    if "try_fold (\<lambda>rows (i, key). rbind (ok_or InvalidSubscription (fmlookup (records current) key))
      (\<lambda>row. Inr (fmupd i row rows))) m xs = Inr rows'" for xs m rows'
    using that
  proof (induction xs arbitrary: m)
    case (Cons x xs)
    obtain k key where x: "x = (k, key)" by force
    from Cons.prems obtain row where "fmlookup (records current) key = Some row"
      and rest: "try_fold (\<lambda>rows (i, key). rbind (ok_or InvalidSubscription (fmlookup (records current) key))
        (\<lambda>row. Inr (fmupd i row rows))) (fmupd k row m) xs = Inr rows'"
      unfolding x by (auto simp: rbind_Inr ok_or_Inr)
    with Cons.IH [OF rest] show ?case unfolding x by (auto split: option.splits)
  qed simp
  from this [OF assms [unfolded member_rows_def]] show ?thesis
    by (auto simp: map_of_rev_entries slot_row_def split: option.splits)
qed

lemma window_rows_lookup:
  assumes "window_rows current previous response = Inr rows"
  shows "fmlookup rows r = changed_row (sp_changes response) r
    (if is_delta (sp_response response)
     then Option.bind previous (\<lambda>p. slot_row current p r) else None)"
proof -
  from assms obtain base touched where base: "base_rows current previous response = Inr base"
    and fold: "try_fold (touch_change response) ({}, base) (sp_changes response) = Inr (touched, rows)"
    by (auto simp: window_rows_def rbind_Inr split: if_splits)
  have "fmlookup base r = (if is_delta (sp_response response)
      then Option.bind previous (\<lambda>p. slot_row current p r) else None)"
    using base by (cases "sp_response response"; cases previous)
      (auto simp: base_rows_def rbind_Inr ok_or_Inr member_rows_lookup split: if_splits)
  with touch_changes_lookup [OF fold, of r] show ?thesis by simp
qed

section \<open>Storing rows\<close>

lemma cache_key_eq:
  "cache_key e a = cache_key f b \<longleftrightarrow>
     e = f \<and> row_version a = row_version b \<and> row_record_id a = row_record_id b"
  by (auto simp: cache_key_def append_sep_inject decimal_no_colon word_unat_eq_iff
      intro: record_id.expand)

lemma store_row_Inr:
  "store_row ep (recs, mems) (r, row) = Inr acc \<longleftrightarrow>
     (fmlookup recs (cache_key ep row) = None \<or> fmlookup recs (cache_key ep row) = Some row)
     \<and> acc = (fmupd (cache_key ep row) row recs, fmupd r (cache_key ep row) mems)"
  by (cases "fmlookup recs (cache_key ep row)") (auto simp: store_row_def Let_def)

lemma store_rows:
  assumes "try_fold (store_row ep) (recs, mems) xs = Inr (recs', mems')"
  shows "(\<forall>(r, row) \<in> set xs. fmlookup recs' (cache_key ep row) = Some row)
    \<and> (\<forall>key row. fmlookup recs key = Some row \<longrightarrow> fmlookup recs' key = Some row)
    \<and> (\<forall>r. fmlookup mems' r = (case map_of (rev xs) r of
         Some row \<Rightarrow> Some (cache_key ep row) | None \<Rightarrow> fmlookup mems r))"
  using assms
proof (induction xs arbitrary: recs mems)
  case (Cons x xs)
  obtain r row where x: "x = (r, row)" by force
  let ?key = "cache_key ep row"
  from Cons.prems have clash: "fmlookup recs ?key = None \<or> fmlookup recs ?key = Some row"
    and rest: "try_fold (store_row ep) (fmupd ?key row recs, fmupd r ?key mems) xs = Inr (recs', mems')"
    unfolding x by (auto simp: rbind_Inr store_row_Inr)
  note IH = Cons.IH [OF rest]
  have "fmlookup recs' key = Some v" if "fmlookup recs key = Some v" for key v
    using IH that clash by (metis fmupd_lookup option.distinct(1))
  moreover have "fmlookup recs' ?key = Some row" using IH by simp
  ultimately show ?case using IH unfolding x by (auto split: option.splits)
qed simp

lemma collect_records_simps [simp]:
  "slots (collect_records subs) = slots subs" "requests (collect_records subs) = requests subs"
  "cancelled (collect_records subs) = cancelled subs"
  "authorization_scope (collect_records subs) = authorization_scope subs"
  by (simp_all add: collect_records_def Let_def)

text \<open>Garbage collection keeps every row a window refers to.\<close>

lemma collect_records_lookup:
  assumes "fmlookup (slots subs) i = Some slot" and "fmlookup (members slot) r = Some key"
  shows "fmlookup (records (collect_records subs)) key = fmlookup (records subs) key"
proof -
  have "(r, key) \<in> set (entries (members slot))" using assms(2) by (simp add: set_entries)
  then have "key \<in> snd ` set (entries (members slot))" by force
  moreover have "(i, slot) \<in> set (entries (slots subs))" using assms(1) by (simp add: set_entries)
  ultimately have "\<exists>x \<in> set (entries (slots subs)). key \<in> snd ` set (entries (members (snd x)))"
    by (intro bexI [of _ "(i, slot)"]) simp_all
  then have "key \<in> set (concat (map (\<lambda>x. map snd (entries (members (snd x)))) (entries (slots subs))))"
    by simp
  then show ?thesis by (simp add: collect_records_def Let_def case_prod_unfold)
qed

definition installed_slot :: "'v durable_client_state \<Rightarrow> string \<Rightarrow> subscription_slot option" where
  "installed_slot s i = Option.bind (subscriptions s) (\<lambda>subs. fmlookup (slots subs) i)"

definition window_row :: "'v durable_client_state \<Rightarrow> string \<Rightarrow> record_id \<Rightarrow> 'v subscription_row option" where
  "window_row s i r = Option.bind (subscriptions s) (\<lambda>subs.
     Option.bind (fmlookup (slots subs) i) (\<lambda>slot. slot_row subs slot r))"

lemma install_window_effect:
  assumes "install_window rt current response tok rows = Inr p"
  obtains subs slot where
    "subscriptions (prepared_state p) = Some subs"
    "fmlookup (slots subs) (sp_subscription_id response) = Some slot"
    "\<And>r. slot_row subs slot r = fmlookup rows r"
    "\<And>r. contains_key (members slot) r \<longleftrightarrow> contains_key rows r"
    "slot_scope slot = sp_scope response" "slot_frontier slot = sp_frontier response"
    "slot_plan_fingerprint slot = sp_plan_fingerprint response" "slot_coverage slot = sp_coverage response"
    "ordered_ids slot = sp_ordered_ids response" "slot_token slot = tok"
    "slot_view_revision slot = sp_view_revision response"
    "requests subs = requests current" "cancelled subs = cancelled current"
    "authorization_scope subs = Some (sp_scope response)"
proof -
  let ?i = "sp_subscription_id response" and ?ep = "epoch (sp_frontier response)"
  from assms obtain recs mems where
    fold: "try_fold (store_row ?ep) (records current, fmempty) (entries rows) = Inr (recs, mems)"
    by (auto simp: install_window_def rbind_Inr)
  define slot where "slot = \<lparr>slot_generation = sp_generation response,
    slot_plan_fingerprint = sp_plan_fingerprint response, slot_scope = sp_scope response,
    slot_frontier = sp_frontier response, slot_view_revision = sp_view_revision response,
    slot_coverage = sp_coverage response, ordered_ids = sp_ordered_ids response,
    slot_token = tok, members = mems\<rparr>"
  define subs where "subs = collect_records (current\<lparr>authorization_scope := Some (sp_scope response),
    records := recs, slots := fmupd ?i slot (slots current)\<rparr>)"
  have "prepare rt ((rt_state rt)\<lparr>subscriptions := Some subs\<rparr>) = Inr p"
    using assms fold by (simp add: install_window_def subs_def slot_def)
  from prepare_fields [OF this] have new: "subscriptions (prepared_state p) = Some subs" by simp
  have lookup: "fmlookup mems r = map_option (cache_key ?ep) (fmlookup rows r)" for r
    using store_rows [OF fold] by (auto simp: map_of_rev_entries split: option.splits)
  have at: "fmlookup (slots subs) ?i = Some slot" by (simp add: subs_def)
  have "slot_row subs slot r = fmlookup rows r" for r
  proof (cases "fmlookup rows r")
    case (Some row)
    then have key: "fmlookup (members slot) r = Some (cache_key ?ep row)" by (simp add: slot_def lookup)
    have "fmlookup recs (cache_key ?ep row) = Some row"
      using store_rows [OF fold] Some by (auto simp: set_entries)
    then show ?thesis
      using Some key collect_records_lookup [OF _ key, of "current\<lparr>authorization_scope :=
        Some (sp_scope response), records := recs, slots := fmupd ?i slot (slots current)\<rparr>" ?i]
      by (simp add: slot_row_def subs_def)
  qed (simp add: slot_row_def slot_def lookup)
  moreover have "contains_key (members slot) r \<longleftrightarrow> contains_key rows r" for r
    by (simp add: slot_def contains_key_def lookup)
  moreover have "requests subs = requests current" "cancelled subs = cancelled current"
      "authorization_scope subs = Some (sp_scope response)"
    by (simp_all add: subs_def)
  ultimately show thesis
    by (intro that [OF new at]) (simp_all add: slot_def)
qed

text \<open>The two ways a window response is installed: a replay, or a new window.\<close>

lemma advance_cases:
  assumes "advance_window rt current response tok = Inr p"
  obtains (replay) slot where
      "fmlookup (slots current) (sp_subscription_id response) = Some slot"
      "sp_view_revision response = slot_view_revision slot"
      "is_replay current slot response" "prepare rt (rt_state rt) = Inr p"
  | (new) rows where
      "window_rows current (fmlookup (slots current) (sp_subscription_id response)) response = Inr rows"
      "\<forall>slot. fmlookup (slots current) (sp_subscription_id response) = Some slot \<longrightarrow>
         sp_view_revision response \<noteq> slot_view_revision slot"
      "check_response_progress (rt_state rt)
         (fmlookup (slots current) (sp_subscription_id response)) response = Inr ()"
      "install_window rt current response tok rows = Inr p"
proof (cases "fmlookup (slots current) (sp_subscription_id response)")
  case None
  with assms obtain rows where "window_rows current None response = Inr rows"
      "check_response_progress (rt_state rt) None response = Inr ()"
      "install_window rt current response tok rows = Inr p"
    by (auto simp: advance_window_def rbind_Inr Let_def)
  with None show ?thesis by (intro new) simp_all
next
  case (Some slot)
  show ?thesis
  proof (cases "sp_view_revision response = slot_view_revision slot")
    case True
    with assms Some have "is_replay current slot response" "prepare rt (rt_state rt) = Inr p"
      by (auto simp: advance_window_def rbind_Inr Let_def split: if_splits)
    with Some True show ?thesis by (intro replay)
  next
    case False
    with assms Some obtain rows where "window_rows current (Some slot) response = Inr rows"
        "check_response_progress (rt_state rt) (Some slot) response = Inr ()"
        "install_window rt current response tok rows = Inr p"
      by (auto simp: advance_window_def rbind_Inr Let_def)
    with Some False show ?thesis by (intro new) simp_all
  qed
qed

section \<open>Cancellation barriers\<close>

definition barrier :: "'v durable_client_state \<Rightarrow> string \<Rightarrow> u64 option" where
  "barrier s i = Option.bind (subscriptions s) (\<lambda>subs. fmlookup (cancelled subs) i)"

definition barrier_le :: "'v durable_client_state \<Rightarrow> 'v durable_client_state \<Rightarrow> bool" where
  "barrier_le s t \<longleftrightarrow> (\<forall>i b. barrier s i = Some b \<longrightarrow> (\<exists>b'. barrier t i = Some b' \<and> b \<le> b'))"

lemma barrier_le_same: "subscriptions t = subscriptions s \<Longrightarrow> barrier_le s t"
  by (auto simp: barrier_le_def barrier_def)

lemma barrier_le_trans: "barrier_le s t \<Longrightarrow> barrier_le t u \<Longrightarrow> barrier_le s u"
  unfolding barrier_le_def by (meson order_trans)

lemma barrier_default: "barrier s i = fmlookup (cancelled (subscriptions_or_default s)) i"
  by (cases "subscriptions s") (simp_all add: barrier_def subscriptions_or_default_def default_subscriptions_def)

lemma barrier_installed: "subscriptions t = Some subs \<Longrightarrow> barrier t i = fmlookup (cancelled subs) i"
  by (simp add: barrier_def)

lemma start_barrier:
  assumes "prepare_start_subscription rt request = Inr p"
  shows "barrier_le (rt_state rt) (prepared_state p)"
proof -
  let ?s = "rt_state rt"
  obtain i generation where c: "command_identity (sq_command request) = (i, generation)" by force
  have "prepare rt (?s\<lparr>subscriptions := Some (subscriptions_or_default ?s)\<rparr>) = Inr p
      \<or> prepare rt (?s\<lparr>subscriptions := Some (collect_records ((subscriptions_or_default ?s)
          \<lparr>slots := fmdrop i (slots (subscriptions_or_default ?s)),
           requests := fmupd i request (requests (subscriptions_or_default ?s))\<rparr>))\<rparr>) = Inr p"
    using assms c unfolding prepare_start_subscription_def
    by (auto simp: Let_def split: if_splits option.splits)
  then have "\<exists>subs. subscriptions (prepared_state p) = Some subs
      \<and> cancelled subs = cancelled (subscriptions_or_default ?s)"
    by (auto dest: prepare_fields)
  then show ?thesis
    unfolding barrier_le_def by (metis barrier_default barrier_installed order_refl)
qed

lemma cancel_barrier:
  assumes "prepare_cancel_subscription rt i g = Inr p"
  shows "barrier_le (rt_state rt) (prepared_state p) \<and> (\<exists>b. barrier (prepared_state p) i = Some b \<and> g \<le> b)"
proof -
  let ?s = "rt_state rt"
  let ?subs = "subscriptions_or_default ?s"
  let ?b = "case fmlookup (cancelled ?subs) i of None \<Rightarrow> g | Some b \<Rightarrow> max b g"
  have "prepare rt (?s\<lparr>subscriptions := Some (collect_records (?subs
      \<lparr>cancelled := fmupd i ?b (cancelled ?subs), slots := fmdrop i (slots ?subs),
       requests := fmdrop i (requests ?subs)\<rparr>))\<rparr>) = Inr p"
    using assms by (simp add: prepare_cancel_subscription_def Let_def split: if_splits)
  from prepare_fields(11) [OF this]
  have "barrier (prepared_state p) k = fmlookup (fmupd i ?b (cancelled ?subs)) k" for k
    by (simp add: barrier_def)
  then show ?thesis
    by (auto simp: barrier_le_def barrier_default [of ?s] split: option.splits)
qed

lemma window_barrier:
  assumes "prepare_subscription_response rt response = Inr p"
  shows "barrier_le (rt_state rt) (prepared_state p)"
  using assms
proof (cases rule: window_cases)
  case (cancel current request)
  then show ?thesis using cancel_barrier by blast
next
  case (advance current request sid generation d params l tok)
  from advance(9) show ?thesis
  proof (cases rule: advance_cases)
    case (replay slot)
    then show ?thesis by (intro barrier_le_same) (simp add: prepare_Inr)
  next
    case (new rows)
    from new(4) advance(2) show ?thesis
      by (auto elim!: install_window_effect simp: barrier_le_def barrier_def)
  qed
qed

lemma event_barrier:
  assumes "prepare_event rt ev = Inr p"
  shows "barrier_le (rt_state rt) (prepared_state p)"
proof (cases ev)
  case (EvPull response)
  show ?thesis
  proof (cases response)
    case (Batch batch)
    with EvPull assms have "prepare_pull_batch rt batch = Inr p" by simp
    then show ?thesis by (cases rule: pull_batch_cases) (simp add: barrier_le_same)
  next
    case (Reset snapshot)
    with EvPull assms have "prepare_snapshot rt (rs_checkpoint snapshot) (rs_records snapshot) = Inr p"
      by (simp add: prepare_reset_def)
    then show ?thesis by (intro barrier_le_same) (rule snapshot_cases(11))
  qed
next
  case (EvBootstrap cp recs)
  with assms have "prepare_snapshot rt cp recs = Inr p" by (simp add: bootstrap_snapshot)
  then show ?thesis by (intro barrier_le_same) (rule snapshot_cases(11))
qed (use assms in \<open>auto dest!: enqueue_checkpoint push_checkpoint resolve_checkpoint start_barrier
      window_barrier cancel_barrier intro: barrier_le_same\<close>)

lemma journal_barrier:
  assumes "open_runtime s = Inr rt" and "journal_step\<^sup>*\<^sup>* (opened_journal s) j"
    and "journal_step\<^sup>*\<^sup>* j j'"
  shows "barrier_le (durable j) (durable j')"
proof (rule journal.reach_preorder [OF assms(3) reached_inv [OF assms(1,2)],
      where le = "\<lambda>a b. barrier_le (durable a) (durable b)"])
  show "barrier_le (durable a) (durable b)" if "journal_inv a" "journal_step a b" for a b :: "'a journal"
    using durable_step [OF that] by (auto dest: event_barrier intro: barrier_le_same)
qed (auto intro: barrier_le_trans barrier_le_same)

lemma start_above_barrier:
  assumes "prepare_start_subscription rt request = Inr p" and "barrier (rt_state rt) i = Some b"
    and "command_identity (sq_command request) = (i, g)"
  shows "b < g"
  using assms unfolding prepare_start_subscription_def barrier_def
  by (auto simp: Let_def subscriptions_or_default_def split: if_splits option.splits)

lemma response_above_barrier:
  assumes "prepare_subscription_response rt response = Inr p"
    and "barrier (rt_state rt) (sp_subscription_id response) = Some b"
  shows "b < sp_generation response"
  using assms unfolding prepare_subscription_response_def barrier_def
  by (auto simp: Let_def rbind_Inr ok_or_Inr split: if_splits option.splits)

section \<open>The contract of subscriptions\<close>

definition win_request :: subscription_request where
  "win_request = \<lparr>sq_partition_id = PartitionId ''primary'', sq_client_id = ClientId ''client-a'',
     sq_requested_scope = ScopeIdentity ''scope'', sq_subscription_revision = 1,
     sq_command = CmdStart ''s1'' 1 ''recent'' fmempty 2\<rparr>"

definition win_coverage :: "scalar_kind \<Rightarrow> window_coverage" where
  "win_coverage k = \<lparr>definition_id = ''recent'', limit = 2, order_field = ''at'', order_kind = k,
     direction = Descending\<rparr>"

definition win_row :: "string \<Rightarrow> query_scalar \<Rightarrow> string subscription_row" where
  "win_row i k = \<lparr>row_record_id = RecordId i, row_value = ''v'', row_version = 1, sort_key = k\<rparr>"

definition win_response ::
  "scalar_kind \<Rightarrow> window_response_kind \<Rightarrow> u64 \<Rightarrow> string list \<Rightarrow> string membership_change list \<Rightarrow>
   string subscription_response" where
  "win_response k kind n ids changes = \<lparr>sp_partition_id = PartitionId ''primary'',
     sp_client_id = ClientId ''client-a'', sp_subscription_id = ''s1'', sp_generation = 1,
     sp_plan_fingerprint = ''plan'', sp_scope = demo_scope, sp_frontier = \<lparr>epoch = 1, sequence = n\<rparr>,
     sp_view_revision = n, sp_coverage = win_coverage k, sp_response = kind,
     sp_token = Some (OpaqueCheckpoint ''w''), sp_ordered_ids = map RecordId ids, sp_changes = changes\<rparr>"

definition win_snapshot :: "string subscription_response" where
  "win_snapshot = win_response KInt (WSnapshot Initial) 1 [''a'', ''b'']
     [MUpsert (win_row ''a'' (QInt 3)), MUpsert (win_row ''b'' (QInt 2))]"

definition win_delta :: "string subscription_response" where
  "win_delta = win_response KInt (WDelta 1) 2 [''c'', ''a''] [MLeave (RecordId ''b''), MUpsert (win_row ''c'' (QInt 5))]"

definition win_started :: "string prepared_transition" where
  "win_started = projr (prepare_start_subscription demo_runtime win_request)"

definition win_installed :: "string prepared_transition" where
  "win_installed = projr (prepare_subscription_response \<lparr>rt_state = prepared_state win_started\<rparr> win_snapshot)"

definition win_moved :: "string prepared_transition" where
  "win_moved = projr (prepare_subscription_response \<lparr>rt_state = prepared_state win_installed\<rparr> win_delta)"

lemma win_started_ok: "prepare_start_subscription demo_runtime win_request = Inr win_started"
  by code_simp

lemma win_installed_ok:
  "prepare_subscription_response \<lparr>rt_state = prepared_state win_started\<rparr> win_snapshot = Inr win_installed"
  by code_simp

lemma win_moved_ok:
  "prepare_subscription_response \<lparr>rt_state = prepared_state win_installed\<rparr> win_delta = Inr win_moved"
  by code_simp

text \<open>
  What a subscription shows is a complete, strictly ordered, bounded window: in every
  valid state the rows read back for an installed subscription are exactly its ordered
  member IDs, each strictly before the next by sort key in the window's direction and then
  by record ID, and never more than the window's limit.
\<close>

theorem installed_window_ordered:
  assumes "valid_state s" and "subscription_snapshot \<lparr>rt_state = s\<rparr> i = Some view"
  shows "\<exists>slot. installed_slot s i = Some slot
    \<and> map row_record_id (is_rows view) = ordered_ids slot
    \<and> sorted_wrt (row_less (direction (vm_coverage (is_metadata view)))) (is_rows view)
    \<and> length (is_rows view) \<le> unat (limit (vm_coverage (is_metadata view)))"
proof -
  from assms(2) obtain subs slot where subs: "subscriptions s = Some subs" "fmlookup (slots subs) i = Some slot"
    and view: "is_rows view = slot_rows subs slot" "vm_coverage (is_metadata view) = slot_coverage slot"
    by (auto simp: subscription_snapshot_def Let_def bind_eq_Some_conv)
  obtain used used' where v: "validate_slot subs s used (i, slot) = Inr used'"
    using valid_slot [OF assms(1) subs] by blast
  have "length (slot_rows subs slot) = length (ordered_ids slot)"
    using slot_rows_ordered [OF v] by (metis length_map)
  then show ?thesis
    using slot_rows_ordered [OF v] validate_slot_facts(4) [OF v] subs view
    by (simp add: installed_slot_def)
qed

theorem installed_window_ordered_witness:
  "map (record_str \<circ> row_record_id) (is_rows (the (subscription_snapshot
      \<lparr>rt_state = prepared_state win_moved\<rparr> ''s1''))) = [''c'', ''a'']"
proof -
  have "subscription_snapshot \<lparr>rt_state = prepared_state win_moved\<rparr> ''s1'' =
      Some (the (subscription_snapshot \<lparr>rt_state = prepared_state win_moved\<rparr> ''s1''))"
    by code_simp
  moreover have "valid_state (prepared_state win_moved)"
    unfolding validate_iff [symmetric] by code_simp
  ultimately obtain slot where "installed_slot (prepared_state win_moved) ''s1'' = Some slot"
    and "map row_record_id (is_rows (the (subscription_snapshot
      \<lparr>rt_state = prepared_state win_moved\<rparr> ''s1''))) = ordered_ids slot"
    using installed_window_ordered by blast
  moreover have "map_option ordered_ids (installed_slot (prepared_state win_moved) ''s1'') =
      Some [RecordId ''c'', RecordId ''a'']"
    by code_simp
  ultimately show ?thesis by (simp flip: map_map)
qed

text \<open>
  Installing a response changes exactly the rows it names: after a snapshot the window
  has the snapshot's rows and nothing else, after a delta a record has its new row, has
  left, or is what it was before.
\<close>

theorem window_response_exact:
  assumes "prepare_subscription_response rt response = Inr p" and "sp_response response \<noteq> WCancelled"
    and "\<forall>slot. installed_slot (rt_state rt) (sp_subscription_id response) = Some slot \<longrightarrow>
           sp_view_revision response \<noteq> slot_view_revision slot"
  shows "window_row (prepared_state p) (sp_subscription_id response) r =
    changed_row (sp_changes response) r
      (if is_delta (sp_response response)
       then window_row (rt_state rt) (sp_subscription_id response) r else None)"
  using assms(1)
proof (cases rule: window_cases)
  case (advance current request sid generation d params l tok)
  have cur: "installed_slot (rt_state rt) (sp_subscription_id response) =
      fmlookup (slots current) (sp_subscription_id response)"
    using advance(2) by (simp add: installed_slot_def)
  from advance(9) show ?thesis
  proof (cases rule: advance_cases)
    case (new rows)
    from new(4) have "window_row (prepared_state p) (sp_subscription_id response) r = fmlookup rows r"
      by (elim install_window_effect) (simp add: window_row_def)
    then show ?thesis
      using window_rows_lookup [OF new(1)] advance(2) by (simp add: window_row_def)
  qed (use assms(3) cur in simp)
qed (use assms(2) in simp)

theorem window_response_exact_witness:
  "window_row (prepared_state win_moved) ''s1'' (RecordId ''a'') =
     window_row (prepared_state win_installed) ''s1'' (RecordId ''a'')
   \<and> window_row (prepared_state win_moved) ''s1'' (RecordId ''b'') = None"
proof -
  have "map_option slot_view_revision (installed_slot (prepared_state win_installed) ''s1'') = Some 1"
    by code_simp
  then have "\<forall>slot. installed_slot (rt_state \<lparr>rt_state = prepared_state win_installed\<rparr>)
      (sp_subscription_id win_delta) = Some slot \<longrightarrow> sp_view_revision win_delta \<noteq> slot_view_revision slot"
    by (auto simp: win_delta_def win_response_def)
  from window_response_exact [OF win_moved_ok _ this, of "RecordId ''a''"]
    window_response_exact [OF win_moved_ok _ this, of "RecordId ''b''"]
  show ?thesis by (simp add: win_delta_def win_response_def changed_row_def win_row_def)
qed

text \<open>
  C16: A cancellation is final.  Once a generation of a subscription is cancelled on disk,
  at every later point of the journal's life a start or a server response for that
  subscription is accepted only with a higher generation.
\<close>

theorem cancellation_is_barrier:
  assumes "open_runtime s = Inr rt" and "journal_step\<^sup>*\<^sup>* (opened_journal s) j"
    and "barrier (durable j) i = Some b" and "journal_step\<^sup>*\<^sup>* j j'"
    and "prepare_start_subscription \<lparr>rt_state = durable j'\<rparr> request = Inr p
           \<and> command_identity (sq_command request) = (i, g)
         \<or> prepare_subscription_response \<lparr>rt_state = durable j'\<rparr> response = Inr p
           \<and> sp_subscription_id response = i \<and> sp_generation response = g"
  shows "b < g"
proof -
  obtain b' where b': "barrier (durable j') i = Some b'" "b \<le> b'"
    using journal_barrier [OF assms(1,2,4)] assms(3) by (auto simp: barrier_le_def)
  then have "b' < g"
    using assms(5) start_above_barrier response_above_barrier by fastforce
  with b'(2) show ?thesis by simp
qed

definition win_cancelled :: "string durable_client_state" where
  "win_cancelled = prepared_state (projr (prepare_cancel_subscription
     \<lparr>rt_state = prepared_state win_moved\<rparr> ''s1'' 1))"

theorem cancellation_is_barrier_witness:
  "barrier win_cancelled ''s1'' = Some 1 \<and> (1 :: u64) < 2
   \<and> isl (prepare_start_subscription \<lparr>rt_state = win_cancelled\<rparr> win_request)"
proof -
  let ?again = "win_request\<lparr>sq_command := CmdStart ''s1'' 2 ''recent'' fmempty 2\<rparr>"
  have o: "open_runtime win_cancelled = Inr \<lparr>rt_state = win_cancelled\<rparr>" by code_simp
  have b: "barrier win_cancelled ''s1'' = Some 1" by code_simp
  have s: "prepare_start_subscription \<lparr>rt_state = win_cancelled\<rparr> ?again =
      Inr (projr (prepare_start_subscription \<lparr>rt_state = win_cancelled\<rparr> ?again))"
    by code_simp
  have "command_identity (sq_command ?again) = (''s1'', 2)" by simp
  with s have "(1 :: u64) < 2"
    using cancellation_is_barrier [OF o rtranclp.rtrancl_refl _ rtranclp.rtrancl_refl,
        of "''s1''" 1 ?again _ 2 win_snapshot] b
    by (simp add: opened_journal_def)
  moreover have "isl (prepare_start_subscription \<lparr>rt_state = win_cancelled\<rparr> win_request)" by code_simp
  ultimately show ?thesis using b by simp
qed

text \<open>
  Rows shared between windows are stored under an unambiguous key: two rows have the
  same cache key exactly when epoch, version and record ID agree, also for record IDs that
  contain the separator.
\<close>

theorem cache_key_unambiguous:
  "cache_key e a = cache_key f b \<longleftrightarrow>
     e = f \<and> row_version a = row_version b \<and> row_record_id a = row_record_id b"
  by (rule cache_key_eq)

lemma subscription_only:
  "prepare rt ((rt_state rt)\<lparr>subscriptions := x\<rparr>) = Inr p \<Longrightarrow>
     \<exists>n subs. prepared_state p = (rt_state rt)\<lparr>subscriptions := subs, revision := n\<rparr>"
  by (drule prepare_state_eq) metis

lemma subscription_unchanged:
  assumes "prepare rt (rt_state rt) = Inr p"
  shows "\<exists>n subs. prepared_state p = (rt_state rt)\<lparr>subscriptions := subs, revision := n\<rparr>"
proof -
  have "prepared_state p = (rt_state rt)\<lparr>subscriptions := subscriptions (rt_state rt),
      revision := revision (rt_state rt)\<rparr>"
    using assms by (simp add: prepare_Inr)
  then show ?thesis by blast
qed

lemma cancel_only:
  "prepare_cancel_subscription rt i g = Inr p \<Longrightarrow>
     \<exists>n subs. prepared_state p = (rt_state rt)\<lparr>subscriptions := subs, revision := n\<rparr>"
  unfolding prepare_cancel_subscription_def
  by (auto simp: Let_def split: if_splits intro: subscription_only)

lemma window_only:
  assumes "prepare_subscription_response rt response = Inr p"
  shows "\<exists>n subs. prepared_state p = (rt_state rt)\<lparr>subscriptions := subs, revision := n\<rparr>"
  using assms
proof (cases rule: window_cases)
  case (cancel current request)
  then show ?thesis by (intro cancel_only)
next
  case (advance current request sid generation d params l tok)
  from advance(9) show ?thesis
  proof (cases rule: advance_cases)
    case (new rows)
    from new(4) show ?thesis
      by (auto simp: install_window_def rbind_Inr Let_def intro: subscription_only)
  qed (rule subscription_unchanged)
qed

text \<open>
  Subscriptions never touch the commit journal: starting, cancelling and every window
  response leave the rows, the pending commits, the outcomes, the checkpoint, the coverage
  and the ID map exactly as they were.
\<close>

theorem subscription_frame:
  assumes "prepare_start_subscription rt request = Inr p \<or> prepare_cancel_subscription rt i g = Inr p
    \<or> prepare_subscription_response rt response = Inr p"
  shows "\<exists>n subs. prepared_state p = (rt_state rt)\<lparr>subscriptions := subs, revision := n\<rparr>"
proof -
  have "prepare_start_subscription rt request = Inr p \<Longrightarrow> ?thesis"
    unfolding prepare_start_subscription_def
    by (auto simp: Let_def split: if_splits option.splits prod.splits intro: subscription_only)
  then show ?thesis using assms cancel_only window_only by blast
qed

theorem subscription_frame_witness:
  "\<exists>n subs. prepared_state win_moved = (prepared_state win_installed)\<lparr>subscriptions := subs, revision := n\<rparr>"
  using subscription_frame [of "\<lparr>rt_state = prepared_state win_installed\<rparr>" win_request win_moved
      "''s1''" 1 win_delta] win_moved_ok
  by simp

section \<open>Replayed windows\<close>

lemma installed_changes:
  assumes "\<And>r. slot_row subs slot r = changed_row changes r (old r)"
    and "\<And>r. contains_key (members slot) r \<longleftrightarrow> slot_row subs slot r \<noteq> None"
    and "distinct (map change_record_id changes)"
  shows "list_all (change_already_installed subs slot) changes"
  unfolding list_all_iff
proof
  fix c assume c: "c \<in> set changes"
  have "List.find (\<lambda>d. change_record_id d = change_record_id c) changes = Some c"
    using c assms(3)
  proof (induction changes)
    case (Cons d changes)
    then show ?case by (cases "d = c") (auto simp: image_iff)
  qed simp
  then have "slot_row subs slot (change_record_id c) = (case c of MUpsert row \<Rightarrow> Some row | _ \<Rightarrow> None)"
    using assms(1) [of "change_record_id c"] by (simp add: changed_row_def split: membership_change.splits)
  then show "change_already_installed subs slot c"
    using assms(2) [of "change_record_id c"] by (cases c) (auto simp: slot_row_def)
qed

text \<open>After a response was installed, the slot it installed recognises it as a replay.\<close>

lemma advance_is_replay:
  assumes "advance_window rt current response tok = Inr p" and "sp_token response = Some tok"
    and "distinct (map change_record_id (sp_changes response))"
    and "subscriptions (rt_state rt) = Some current"
  obtains subs slot where "subscriptions (prepared_state p) = Some subs"
    "fmlookup (slots subs) (sp_subscription_id response) = Some slot"
    "sp_view_revision response = slot_view_revision slot" "is_replay subs slot response"
    "requests subs = requests current" "cancelled subs = cancelled current"
    "authorization_scope subs = Some (sp_scope response)
       \<or> prepared_state p = rt_state rt"
  using assms(1)
proof (cases rule: advance_cases)
  case (replay slot)
  then have "prepared_state p = rt_state rt" by (simp add: prepare_Inr)
  with replay assms(4) show thesis by (intro that) simp_all
next
  case (new rows)
  from new(4) show thesis
  proof (cases rule: install_window_effect)
    case (1 subs slot)
    have "slot_row subs slot r = changed_row (sp_changes response) r
        (if is_delta (sp_response response) then Option.bind (fmlookup (slots current)
           (sp_subscription_id response)) (\<lambda>p. slot_row current p r) else None)" for r
      using 1(3) window_rows_lookup [OF new(1)] by simp
    moreover have "contains_key (members slot) r \<longleftrightarrow> slot_row subs slot r \<noteq> None" for r
      using 1(3,4) by (simp add: contains_key_def)
    ultimately have "list_all (change_already_installed subs slot) (sp_changes response)"
      using assms(3) by (rule installed_changes)
    then have "is_replay subs slot response" using 1 assms(2) by (simp add: is_replay_def)
    with 1 show thesis by (intro that [of subs slot]) simp_all
  qed
qed

text \<open>
  A window response whose acknowledgement was lost can be delivered again: it is
  recognised as a replay, accepted, and changes nothing.
\<close>

theorem window_replay_idempotent:
  assumes "prepare_subscription_response rt response = Inr p" and "sp_response response \<noteq> WCancelled"
  shows "prepare_subscription_response \<lparr>rt_state = prepared_state p\<rparr> response =
    Inr \<lparr>base_revision = revision (prepared_state p), prepared_state = prepared_state p\<rparr>"
  using assms(1)
proof (cases rule: window_cases)
  case (advance current request sid generation d params l tok)
  let ?t = "prepared_state p" and ?i = "sp_subscription_id response"
  have "distinct (map change_record_id (sp_changes response))"
    using advance(1) by (simp add: validate_subscription_response_def card_distinct)
  then obtain subs slot where new: "subscriptions ?t = Some subs" "fmlookup (slots subs) ?i = Some slot"
      "sp_view_revision response = slot_view_revision slot" "is_replay subs slot response"
      "requests subs = requests current" "cancelled subs = cancelled current"
      "authorization_scope subs = Some (sp_scope response) \<or> ?t = rt_state rt"
    using advance_is_replay [OF advance(9,8) _ advance(2)] by blast
  have ev: "prepare_event rt (EvWindow response) = Inr p" using assms(1) by simp
  have own: "same_owner (rt_state rt) ?t" and valid: "valid_state ?t"
    using event.owner [OF ev] event.prepared_valid [OF ev] by simp_all
  have checkpoint: "checkpoint ?t = checkpoint (rt_state rt)" using assms(1) by (rule window_checkpoint)
  have old: "guard_subscription_scope (rt_state rt) (sp_scope response) = Inr ()"
      "check_response_progress (rt_state rt) (fmlookup (slots current) ?i) response = Inr ()"
    using advance(9) by (auto simp: advance_window_def rbind_Inr Let_def)
  have "guard_subscription_scope ?t (sp_scope response) = Inr ()"
    using old(1) new(1,7) by (auto simp: guard_subscription_scope_Inr)
  moreover have "check_response_progress ?t (Some slot) response = Inr ()"
    using old(2) new(3,4) checkpoint
    by (auto simp: check_response_progress_def is_replay_def ensure_Inr split: if_splits option.splits)
  ultimately have "advance_window \<lparr>rt_state = ?t\<rparr> subs response tok =
      Inr \<lparr>base_revision = revision ?t, prepared_state = ?t\<rparr>"
    using new(2,3,4) prepare_same [of "\<lparr>rt_state = ?t\<rparr>"] valid
    by (simp add: advance_window_def Let_def)
  moreover have "response_matches_request ?t request d l response"
    using advance(6) own by (simp add: response_matches_request_def same_owner_def)
  moreover have "valid_subscription_text (token_str tok)"
    using advance(1,8) by (simp add: validate_subscription_response_def)
  ultimately show ?thesis
    using advance(1,3,4,5,7,8) new(1,5,6)
    by (simp add: prepare_subscription_response_def Let_def)
qed (use assms(2) in simp)

theorem window_replay_idempotent_witness:
  "prepare_subscription_response \<lparr>rt_state = prepared_state win_moved\<rparr> win_delta =
    Inr \<lparr>base_revision = revision (prepared_state win_moved), prepared_state = prepared_state win_moved\<rparr>"
  by (rule window_replay_idempotent [OF win_moved_ok]) (simp add: win_delta_def win_response_def)

lemma slot_row_text:
  assumes "validate_slot self owner used (i, slot) = Inr used'" "slot_row self slot r = Some row"
  shows "row_text_valid (sort_key row)"
proof -
  from assms(1) obtain rows where
    fold: "try_fold (validate_member self slot) (used, fmempty) (entries (members slot)) = Inr (used', rows)"
    unfolding validate_slot_def by (auto simp: Let_def rbind_Inr)
  from assms(2) obtain key where key: "fmlookup (members slot) r = Some key" "fmlookup (records self) key = Some row"
    by (auto simp: slot_row_def bind_eq_Some_conv)
  then have "(r, key) \<in> set (entries (members slot))" by (simp add: set_entries)
  from try_fold_each [OF fold this] obtain used1 rows1 acc where
    "validate_member self slot (used1, rows1) (r, key) = Inr acc" by force
  with key(2) show ?thesis by (auto simp: validate_member_Inr)
qed

lemma empty_sort_rejected:
  assumes "MUpsert row \<in> set (sp_changes response)" and "sort_key row = QText []"
  shows "\<exists>e. prepare_subscription_response rt response = Inl e"
proof (cases "prepare_subscription_response rt response")
  case (Inr p)
  then show ?thesis
  proof (cases rule: window_cases)
    case (cancel current request)
    then have "sp_changes response = []" by (simp add: validate_subscription_response_def response_shape_def)
    with assms(1) show ?thesis by simp
  next
    case (advance current request sid generation d params l tok)
    have "distinct (map change_record_id (sp_changes response))"
      using advance(1) by (simp add: validate_subscription_response_def card_distinct)
    from advance_is_replay [OF advance(9,8) this advance(2)] obtain subs slot where
      s: "subscriptions (prepared_state p) = Some subs" "fmlookup (slots subs) (sp_subscription_id response) = Some slot"
        "is_replay subs slot response" by metis
    from s(3) assms(1) have "change_already_installed subs slot (MUpsert row)"
      unfolding is_replay_def list_all_iff by blast
    then have row: "slot_row subs slot (row_record_id row) = Some row" by (simp add: slot_row_def)
    have "valid_state (prepared_state p)"
      using event.prepared_valid [of rt "EvWindow response" p] Inr by simp
    from valid_slot [OF this s(1,2)] slot_row_text [OF _ row] assms(2) have False
      by (auto simp: valid_subscription_text_def)
    then show ?thesis ..
  qed
qed blast

text \<open>
  C37: The two text rules for sort keys disagree: the protocol's rule accepts an empty text,
  but no response that upserts a row with an empty sort text is ever accepted, in any state,
  as a snapshot, a delta or a replay, because the durable validator requires sort texts to
  be nonempty.
\<close>

theorem empty_sort_key_refused:
  assumes "MUpsert row \<in> set (sp_changes response)" and "sort_key row = QText []"
  shows "scalar_text_bounded (sort_key row) \<and> (\<exists>e. prepare_subscription_response rt response = Inl e)"
  using empty_sort_rejected [OF assms] by (simp add: assms(2))

theorem empty_sort_key_refused_witness:
  "validate_subscription_response (win_response KText (WSnapshot Initial) 1 [''a''] [MUpsert (win_row ''a'' (QText []))])
   \<and> (\<exists>e. prepare_subscription_response \<lparr>rt_state = prepared_state win_started\<rparr>
       (win_response KText (WSnapshot Initial) 1 [''a''] [MUpsert (win_row ''a'' (QText []))]) = Inl e)"
proof -
  have "validate_subscription_response (win_response KText (WSnapshot Initial) 1 [''a''] [MUpsert (win_row ''a'' (QText []))])"
    by code_simp
  moreover have "\<exists>e. prepare_subscription_response \<lparr>rt_state = prepared_state win_started\<rparr>
       (win_response KText (WSnapshot Initial) 1 [''a''] [MUpsert (win_row ''a'' (QText []))]) = Inl e"
    by (rule empty_sort_key_refused [of "win_row ''a'' (QText [])", THEN conjunct2]) (simp_all add: win_response_def win_row_def)
  ultimately show ?thesis by blast
qed

end
