(* ===== verification/Canonical_Value.thy ===== *)
theory Canonical_Value
  imports Protocol_Types
begin

unbundle bit_operations_syntax

text \<open>
  The bounded canonical value profile of \<open>surrealdb-sync/1\<close>
  (\<open>crates/surrealdb-sync-protocol/src/canonical.rs\<close>): values, their conversion to and from
  CBOR data items, the item and byte budgets, the limited writer, the structural preflight
  of encoded bytes, and the commit fingerprint.  The CBOR library and SHA-256 are
  parameters: \<open>ser\<close> gives the chunks a value is written in and whether writing succeeds,
  \<open>de\<close> the item at the start of an input and its length.

  A \<open>usize\<close> is an \<open>int\<close>; every subtraction is checked, so it never becomes negative.  A
  \<open>f64\<close> is its bit pattern.
\<close>

type_synonym usize = int

abbreviation len :: "'a list \<Rightarrow> usize" where
  "len xs \<equiv> int (length xs)"

section \<open>Values\<close>

datatype codec_error =
    Decode
  | Encode
  | TrailingBytes
  | NonCanonical
  | Unsupported string
  | InvalidRecordId
  | DuplicateObjectKey
  | InvalidIdentifier
  | InvalidFingerprint
  | InvalidEnvelope
  | DepthLimit
  | ContainerLimit
  | StringLimit
  | EncodedLimit

definition max_depth :: nat where "max_depth = 32"
definition max_container_items :: usize where "max_container_items = 1024"
definition max_total_items :: usize where "max_total_items = 4096"
definition max_string_bytes :: usize where "max_string_bytes = 1048576"
definition max_encoded_bytes :: usize where "max_encoded_bytes = 4194304"

datatype canonical_float = CanonicalFloat u64

definition is_finite_bits :: "u64 \<Rightarrow> bool" where
  "is_finite_bits w = (drop_bit 52 w AND 0x7FF \<noteq> 0x7FF)"

definition is_zero_bits :: "u64 \<Rightarrow> bool" where
  "is_zero_bits w = (w = 0 \<or> w = 0x8000000000000000)"

definition canonical_float_new :: "u64 \<Rightarrow> codec_error + canonical_float" where
  "canonical_float_new value =
     (if \<not> is_finite_bits value then Inl (Unsupported ''non-finite float'')
      else Inr (CanonicalFloat (if is_zero_bits value then 0 else value)))"

fun canonical_float_get :: "canonical_float \<Rightarrow> u64" where
  "canonical_float_get (CanonicalFloat w) = w"

datatype canonical_value =
    VNone
  | VNull
  | VBool bool
  | VInt i64
  | VFloat canonical_float
  | VString string
  | VBytes "byte list"
  | VArray "canonical_value list"
  | VObject "(string, canonical_value) fmap"
  | VRecordId string canonical_value

text \<open>The data items of the CBOR library (\<open>ciborium::value::Value\<close>).\<close>

datatype cbor =
    CInteger int
  | CBytes "byte list"
  | CFloat u64
  | CText string
  | CBool bool
  | CNull
  | CTag u64 cbor
  | CArray "cbor list"
  | CMap "(cbor \<times> cbor) list"

definition none_tag :: u64 where "none_tag = 6"
definition record_id_tag :: u64 where "record_id_tag = 8"

section \<open>Budgets\<close>

definition checked_sub_usize :: "usize \<Rightarrow> usize \<Rightarrow> usize option" where
  "checked_sub_usize a b = (if b \<le> a then Some (a - b) else None)"

text \<open>The mutable pair of remaining items and remaining bytes.\<close>

type_synonym budget = "usize \<times> usize"

fun take_items :: "usize \<Rightarrow> budget \<Rightarrow> codec_error + budget" where
  "take_items n (items, bytes) =
     rbind (ok_or ContainerLimit (checked_sub_usize items n)) (\<lambda>items'. Inr (items', bytes))"

fun take_bytes :: "usize \<Rightarrow> budget \<Rightarrow> codec_error + budget" where
  "take_bytes n (items, bytes) =
     rbind (ok_or EncodedLimit (checked_sub_usize bytes n)) (\<lambda>bytes'. Inr (items, bytes'))"

fun record_key_kind :: "canonical_value \<Rightarrow> bool" where
  "record_key_kind (VInt n) = True"
| "record_key_kind (VString s) = True"
| "record_key_kind (VArray vs) = True"
| "record_key_kind (VObject m) = True"
| "record_key_kind _ = False"

text \<open>The depth check and the one item every value costs.\<close>

definition enter :: "nat \<Rightarrow> budget \<Rightarrow> codec_error + budget" where
  "enter depth b = (if depth > max_depth then Inl DepthLimit else take_items 1 b)"

definition validate_text :: "usize \<Rightarrow> budget \<Rightarrow> codec_error + budget" where
  "validate_text n b = (if n > max_string_bytes then Inl StringLimit else take_bytes n b)"

primrec validate_with_budget :: "canonical_value \<Rightarrow> nat \<Rightarrow> budget \<Rightarrow> codec_error + budget" where
  "validate_with_budget VNone = (\<lambda>depth b. rbind (enter depth b) (take_items 1))"
| "validate_with_budget VNull = enter"
| "validate_with_budget (VBool x) = enter"
| "validate_with_budget (VInt n) = enter"
| "validate_with_budget (VFloat f) = enter"
| "validate_with_budget (VString s) = (\<lambda>depth b. rbind (enter depth b) (validate_text (len s)))"
| "validate_with_budget (VBytes bs) = (\<lambda>depth b. rbind (enter depth b) (validate_text (len bs)))"
| "validate_with_budget (VArray vs) = (\<lambda>depth b. rbind (enter depth b) (\<lambda>b.
     if len vs > max_container_items then Inl ContainerLimit
     else try_fold (\<lambda>b f. f (Suc depth) b) b (map validate_with_budget vs)))"
| "validate_with_budget (VObject m) = (\<lambda>depth b. rbind (enter depth b) (\<lambda>b.
     if int (map_len m) > max_container_items then Inl ContainerLimit
     else rbind (take_items (int (map_len m)) b) (\<lambda>b.
       try_fold (\<lambda>b (key, f). rbind (validate_text (len key) b) (f (Suc depth))) b
         (entries (fmmap validate_with_budget m)))))"
| "validate_with_budget (VRecordId table key) = (\<lambda>depth b. rbind (enter depth b) (\<lambda>b.
     if table = [] then Inl InvalidRecordId
     else rbind (validate_text (len table) b) (\<lambda>b.
       if \<not> record_key_kind key then Inl InvalidRecordId
       else rbind (take_items 2 b) (validate_with_budget key (Suc depth)))))"

definition validate_value :: "canonical_value \<Rightarrow> codec_error + unit" where
  "validate_value value =
     rbind (validate_with_budget value 0 (max_total_items, max_encoded_bytes)) (\<lambda>_. Inr ())"

section \<open>Conversion to and from CBOR\<close>

text \<open>Object keys are written by length, then bytewise.\<close>

definition key_le :: "string \<times> 'a \<Rightarrow> string \<times> 'a \<Rightarrow> bool" where
  "key_le a b = (length (fst a) < length (fst b)
     \<or> (length (fst a) = length (fst b) \<and> fst a \<le> fst b))"

primrec to_cbor :: "canonical_value \<Rightarrow> codec_error + cbor" where
  "to_cbor VNone = Inr (CTag none_tag CNull)"
| "to_cbor VNull = Inr CNull"
| "to_cbor (VBool b) = Inr (CBool b)"
| "to_cbor (VInt n) = Inr (CInteger (sint n))"
| "to_cbor (VFloat f) = Inr (CFloat (canonical_float_get f))"
| "to_cbor (VString s) = Inr (CText s)"
| "to_cbor (VBytes bs) = Inr (CBytes bs)"
| "to_cbor (VArray vs) = rbind (try_map (\<lambda>r. r) (map to_cbor vs)) (\<lambda>cs. Inr (CArray cs))"
| "to_cbor (VObject m) =
     rbind (try_map (\<lambda>(key, r). rbind r (\<lambda>c. Inr (CText key, c)))
              (sort_by key_le (entries (fmmap to_cbor m)))) (\<lambda>cs. Inr (CMap cs))"
| "to_cbor (VRecordId table key) =
     rbind (to_cbor key) (\<lambda>c. Inr (CTag record_id_tag (CArray [CText table, c])))"

definition i64_try_from :: "int \<Rightarrow> i64 option" where
  "i64_try_from n = (if - (2 ^ 63) \<le> n \<and> n < 2 ^ 63 then Some (word_of_int n) else None)"

fun from_cbor :: "cbor \<Rightarrow> codec_error + canonical_value"
  and record_id_from_cbor :: "cbor \<Rightarrow> codec_error + canonical_value"
  and array_from_cbor :: "cbor list \<Rightarrow> codec_error + canonical_value list"
  and map_from_cbor :: "(string, canonical_value) fmap \<Rightarrow> (cbor \<times> cbor) list \<Rightarrow>
        codec_error + (string, canonical_value) fmap" where
  "from_cbor (CInteger n) = rbind (ok_or (Unsupported ''integer outside i64'') (i64_try_from n)) (\<lambda>w. Inr (VInt w))"
| "from_cbor (CBytes bs) = Inr (VBytes bs)"
| "from_cbor (CFloat w) = rbind (canonical_float_new w) (\<lambda>f. Inr (VFloat f))"
| "from_cbor (CText s) = Inr (VString s)"
| "from_cbor (CBool b) = Inr (VBool b)"
| "from_cbor CNull = Inr VNull"
| "from_cbor (CTag tag c) =
     (if tag = none_tag \<and> c = CNull then Inr VNone
      else if tag = record_id_tag then record_id_from_cbor c
      else Inl (Unsupported ''CBOR tag''))"
| "from_cbor (CArray cs) = rbind (array_from_cbor cs) (\<lambda>vs. Inr (VArray vs))"
| "from_cbor (CMap es) = rbind (map_from_cbor fmempty es) (\<lambda>m. Inr (VObject m))"
| "record_id_from_cbor (CArray [part, k]) =
     rbind (from_cbor k) (\<lambda>key.
       case part of
         CText table \<Rightarrow>
           rbind (validate_value (VRecordId table key)) (\<lambda>_. Inr (VRecordId table key))
       | _ \<Rightarrow> Inl InvalidRecordId)"
| "record_id_from_cbor _ = Inl InvalidRecordId"
| "array_from_cbor [] = Inr []"
| "array_from_cbor (c # cs) =
     rbind (from_cbor c) (\<lambda>v. rbind (array_from_cbor cs) (\<lambda>vs. Inr (v # vs)))"
| "map_from_cbor m [] = Inr m"
| "map_from_cbor m ((k, c) # es) =
     (case k of
        CText key \<Rightarrow>
          rbind (from_cbor c) (\<lambda>v.
            if contains_key m key then Inl DuplicateObjectKey
            else map_from_cbor (fmupd key v m) es)
      | _ \<Rightarrow> Inl (Unsupported ''non-text object key''))"

section \<open>Encoding\<close>

record limited_writer =
  written :: "byte list"
  write_limit :: usize
  exceeded :: bool

text \<open>One write: the input is appended, or the writer is marked and the write fails.\<close>

definition write_chunk :: "byte list \<Rightarrow> limited_writer \<Rightarrow> bool \<times> limited_writer" where
  "write_chunk input w =
     (if len (written w) + len input > write_limit w then (False, w\<lparr>exceeded := True\<rparr>)
      else (True, w\<lparr>written := written w @ input\<rparr>))"

text \<open>\<open>into_writer\<close> stops at the first write that fails.\<close>

fun write_chunks :: "byte list list \<Rightarrow> limited_writer \<Rightarrow> bool \<times> limited_writer" where
  "write_chunks [] w = (True, w)"
| "write_chunks (c # cs) w =
     (case write_chunk c w of (ok, w') \<Rightarrow> if ok then write_chunks cs w' else (False, w'))"

type_synonym serializer = "cbor \<Rightarrow> byte list list \<times> bool"
type_synonym deserializer = "byte list \<Rightarrow> (cbor \<times> nat) option"

definition encode_cbor_value :: "serializer \<Rightarrow> cbor \<Rightarrow> codec_error + byte list" where
  "encode_cbor_value ser value =
     (let (chunks, finishes) = ser value;
          (complete, w) = write_chunks chunks \<lparr>written = [], write_limit = max_encoded_bytes, exceeded = False\<rparr>
      in if exceeded w then Inl EncodedLimit
         else if complete \<and> finishes then Inr (written w) else Inl Encode)"

section \<open>Preflight\<close>

definition byte_at :: "byte list \<Rightarrow> nat \<Rightarrow> byte option" where
  "byte_at bytes i = (if i < length bytes then Some (bytes ! i) else None)"

definition argument_width :: "byte \<Rightarrow> nat option" where
  "argument_width additional =
     (if additional = 24 then Some 1 else if additional = 25 then Some 2
      else if additional = 26 then Some 4 else if additional = 27 then Some 8 else None)"

definition read_cbor_argument :: "byte list \<Rightarrow> nat \<Rightarrow> byte \<Rightarrow> codec_error + u64 \<times> nat" where
  "read_cbor_argument bytes pos additional =
     (if additional \<le> 23 then Inr (ucast additional, pos)
      else rbind (ok_or Decode (argument_width additional)) (\<lambda>width.
        if pos + width > length bytes then Inl Decode
        else Inr (fold (\<lambda>b v. push_bit 8 v OR ucast b) (take width (drop pos bytes)) 0,
                  pos + width)))"

text \<open>
  The scan of one item and of \<open>n\<close> items in a row; the result is the new cursor and the
  items left.  The depth bound makes it terminate.
\<close>

function scan_cbor_item :: "byte list \<Rightarrow> nat \<Rightarrow> nat \<Rightarrow> usize \<Rightarrow> codec_error + nat \<times> usize"
  and scan_cbor_items :: "nat \<Rightarrow> byte list \<Rightarrow> nat \<Rightarrow> nat \<Rightarrow> usize \<Rightarrow> codec_error + nat \<times> usize" where
  "scan_cbor_item bytes pos depth items =
     (if depth > max_depth then Inl DepthLimit
      else rbind (ok_or ContainerLimit (checked_sub_usize items 1)) (\<lambda>items.
      rbind (ok_or Decode (byte_at bytes pos)) (\<lambda>initial.
      rbind (read_cbor_argument bytes (Suc pos) (initial AND 0x1F)) (\<lambda>(argument, pos).
      let major = drop_bit 5 initial in
      if major \<le> 1 then Inr (pos, items)
      else if major \<le> 3 then
        if uint argument > max_string_bytes then Inl StringLimit
        else if pos + nat (uint argument) > length bytes then Inl Decode
        else Inr (pos + nat (uint argument), items)
      else if major \<le> 5 then
        if uint argument > max_container_items then Inl ContainerLimit
        else scan_cbor_items (if major = 5 then nat (uint argument) * 2 else nat (uint argument))
               bytes pos (Suc depth) items
      else if major = 6 then scan_cbor_item bytes pos (Suc depth) items
      else if major = 7 then Inr (pos, items)
      else Inl Decode))))"
| "scan_cbor_items 0 bytes pos depth items = Inr (pos, items)"
| "scan_cbor_items (Suc n) bytes pos depth items =
     rbind (scan_cbor_item bytes pos depth items) (\<lambda>(pos', items').
       scan_cbor_items n bytes pos' depth items')"
  by pat_completeness auto

termination
  by (relation "measures [\<lambda>x. case x of Inl (_, _, depth, _) \<Rightarrow> Suc max_depth - depth
                                      | Inr (_, _, _, depth, _) \<Rightarrow> Suc max_depth - depth,
                          \<lambda>x. case x of Inl _ \<Rightarrow> 0 | Inr (n, _) \<Rightarrow> n]")
    (auto simp: max_depth_def)

definition preflight_canonical_cbor :: "byte list \<Rightarrow> codec_error + unit" where
  "preflight_canonical_cbor bytes =
     rbind (scan_cbor_item bytes 0 0 max_total_items) (\<lambda>(pos, _).
       if pos \<noteq> length bytes then Inl TrailingBytes else Inr ())"

section \<open>The canonical codec\<close>

definition canonical_cbor :: "serializer \<Rightarrow> canonical_value \<Rightarrow> codec_error + byte list" where
  "canonical_cbor ser value =
     rbind (validate_value value) (\<lambda>_.
     rbind (to_cbor value) (\<lambda>c.
     rbind (encode_cbor_value ser c) (\<lambda>bytes.
     rbind (preflight_canonical_cbor bytes) (\<lambda>_. Inr bytes))))"

definition decode_canonical_cbor ::
  "serializer \<Rightarrow> deserializer \<Rightarrow> byte list \<Rightarrow> codec_error + canonical_value" where
  "decode_canonical_cbor ser de bytes =
     (if len bytes > max_encoded_bytes then Inl EncodedLimit
      else rbind (preflight_canonical_cbor bytes) (\<lambda>_.
      rbind (ok_or Decode (de bytes)) (\<lambda>(decoded, position).
      if position \<noteq> length bytes then Inl TrailingBytes
      else rbind (from_cbor decoded) (\<lambda>value.
      rbind (validate_value value) (\<lambda>_.
      rbind (canonical_cbor ser value) (\<lambda>encoded.
      if encoded \<noteq> bytes then Inl NonCanonical else Inr value))))))"

section \<open>The commit fingerprint\<close>

definition fingerprint_domain :: string where
  "fingerprint_domain = ''surrealdb-sync/1/commit-fingerprint/sha256''"

definition validate_identifier :: "string \<Rightarrow> codec_error + unit" where
  "validate_identifier value =
     (if value = [] \<or> len value > max_string_bytes then Inl InvalidIdentifier else Inr ())"

fun base_version_to_cbor :: "base_version \<Rightarrow> cbor" where
  "base_version_to_cbor BaseAbsent = CArray [CInteger 0]"
| "base_version_to_cbor (BaseExact n) = CArray [CInteger 1, CInteger (uint n)]"

fun optional_record_id_to_cbor :: "record_id option \<Rightarrow> cbor" where
  "optional_record_id_to_cbor None = CNull"
| "optional_record_id_to_cbor (Some r) = CText (record_str r)"

fun operation_to_cbor :: "budget \<Rightarrow> canonical_value operation \<Rightarrow> codec_error + budget \<times> cbor" where
  "operation_to_cbor b (Upsert r base value reference) =
     rbind (validate_identifier (record_str r)) (\<lambda>_.
     rbind (take_bytes (len (record_str r)) b) (\<lambda>b.
     rbind (case reference of
              None \<Rightarrow> Inr b
            | Some ref \<Rightarrow> rbind (validate_identifier (record_str ref)) (\<lambda>_. take_bytes (len (record_str ref)) b))
       (\<lambda>b.
     rbind (validate_with_budget value 0 b) (\<lambda>b.
     rbind (to_cbor value) (\<lambda>c.
     Inr (b, CArray [CInteger 0, CText (record_str r), base_version_to_cbor base, c,
                     optional_record_id_to_cbor reference]))))))"
| "operation_to_cbor b (Delete r base) =
     rbind (validate_identifier (record_str r)) (\<lambda>_.
     rbind (take_bytes (len (record_str r)) b) (\<lambda>b.
     Inr (b, CArray [CInteger 1, CText (record_str r), CInteger (uint base)])))"

fun operations_to_cbor :: "budget \<Rightarrow> canonical_value operation list \<Rightarrow> codec_error + cbor list" where
  "operations_to_cbor b [] = Inr []"
| "operations_to_cbor b (op # ops) =
     rbind (operation_to_cbor b op) (\<lambda>(b, c). rbind (operations_to_cbor b ops) (\<lambda>cs. Inr (c # cs)))"

definition hex_digit :: "nat \<Rightarrow> char" where
  "hex_digit n = char_of (if n < 10 then 48 + n else 87 + n)"

definition hex_byte :: "byte \<Rightarrow> string" where
  "hex_byte b = [hex_digit (unat b div 16), hex_digit (unat b mod 16)]"

text \<open>The bytes that are hashed: the domain-separated envelope of a commit.\<close>

definition fingerprint_preimage ::
  "serializer \<Rightarrow> partition_id \<Rightarrow> client_id \<Rightarrow> client_commit_id \<Rightarrow>
   canonical_value operation list \<Rightarrow> codec_error + byte list" where
  "fingerprint_preimage ser p c cid ops =
     (if len ops > max_container_items then Inl ContainerLimit
      else rbind (validate_identifier (partition_str p)) (\<lambda>_.
      rbind (validate_identifier (client_str c)) (\<lambda>_.
      rbind (validate_identifier (commit_str cid)) (\<lambda>_.
      rbind (take_bytes (len fingerprint_domain) (max_total_items, max_encoded_bytes)) (\<lambda>b.
      rbind (take_bytes (len v1_name) b) (\<lambda>b.
      rbind (take_bytes (len (partition_str p)) b) (\<lambda>b.
      rbind (take_bytes (len (client_str c)) b) (\<lambda>b.
      rbind (take_bytes (len (commit_str cid)) b) (\<lambda>b.
      rbind (operations_to_cbor b ops) (\<lambda>cs.
      encode_cbor_value ser (CArray [CText fingerprint_domain, CText v1_name,
        CText (partition_str p), CText (client_str c), CText (commit_str cid), CArray cs])))))))))))"

definition fingerprint_commit ::
  "serializer \<Rightarrow> (byte list \<Rightarrow> byte list) \<Rightarrow> partition_id \<Rightarrow> client_id \<Rightarrow> client_commit_id \<Rightarrow>
   canonical_value operation list \<Rightarrow> codec_error + fingerprint" where
  "fingerprint_commit ser sha256 p c cid ops =
     rbind (fingerprint_preimage ser p c cid ops) (\<lambda>bytes.
       Inr (Fingerprint (''sha256:'' @ concat (map hex_byte (sha256 bytes)))))"

end
