(* ===== verification/Canonical_Codec.thy ===== *)
theory Canonical_Codec
  imports Canonical_Value
begin

text \<open>
  Correctness of the canonical codec.  The CBOR library is used through the locale
  \<open>cbor_library\<close>, whose one law is that decoding the bytes an item was written to gives
  the item back.  Under it, encoding and decoding are inverse to each other, encodings are
  unique, and a commit fingerprint binds its whole content.
\<close>

section \<open>Type invariants of values\<close>

text \<open>Well-formed UTF-8, the invariant of a Rust \<open>String\<close>.\<close>

definition cont_byte :: "nat \<Rightarrow> bool" where
  "cont_byte n \<longleftrightarrow> 128 \<le> n \<and> n < 192"

fun utf8_codes :: "nat list \<Rightarrow> bool" where
  "utf8_codes [] = True"
| "utf8_codes (a # rest) =
     (if a < 128 then utf8_codes rest
      else case rest of
        [] \<Rightarrow> False
      | b # rest2 \<Rightarrow>
          if 194 \<le> a \<and> a < 224 then cont_byte b \<and> utf8_codes rest2
          else (case rest2 of
            [] \<Rightarrow> False
          | c # rest3 \<Rightarrow>
              if 224 \<le> a \<and> a < 240 then
                cont_byte b \<and> cont_byte c \<and> (a = 224 \<longrightarrow> 160 \<le> b) \<and> (a = 237 \<longrightarrow> b < 160)
                \<and> utf8_codes rest3
              else (case rest3 of
                [] \<Rightarrow> False
              | d # rest4 \<Rightarrow>
                  240 \<le> a \<and> a < 245 \<and> cont_byte b \<and> cont_byte c \<and> cont_byte d
                  \<and> (a = 240 \<longrightarrow> 144 \<le> b) \<and> (a = 244 \<longrightarrow> b < 144) \<and> utf8_codes rest4)))"

definition utf8 :: "string \<Rightarrow> bool" where
  "utf8 s = utf8_codes (map of_char s)"

text \<open>What \<open>CanonicalFloat::new\<close> leaves behind: a finite value that is not negative zero.\<close>

fun float_invariant :: "canonical_float \<Rightarrow> bool" where
  "float_invariant (CanonicalFloat w) = (is_finite_bits w \<and> (is_zero_bits w \<longrightarrow> w = 0))"

lemma canonical_float_new_invariant: "canonical_float_new w = Inr f \<Longrightarrow> float_invariant f"
  by (auto simp: canonical_float_new_def is_zero_bits_def is_finite_bits_def split: if_splits)

lemma canonical_float_new_get: "float_invariant f \<Longrightarrow> canonical_float_new (canonical_float_get f) = Inr f"
  by (cases f) (auto simp: canonical_float_new_def)

primrec well_typed :: "canonical_value \<Rightarrow> bool" where
  "well_typed VNone = True"
| "well_typed VNull = True"
| "well_typed (VBool b) = True"
| "well_typed (VInt n) = True"
| "well_typed (VFloat f) = float_invariant f"
| "well_typed (VString s) = utf8 s"
| "well_typed (VBytes bs) = True"
| "well_typed (VArray vs) = list_all (\<lambda>b. b) (map well_typed vs)"
| "well_typed (VObject m) = list_all (\<lambda>(key, b). utf8 key \<and> b) (entries (fmmap well_typed m))"
| "well_typed (VRecordId table key) = (utf8 table \<and> well_typed key)"

lemma well_typed_array [simp]: "well_typed (VArray vs) \<longleftrightarrow> (\<forall>v \<in> set vs. well_typed v)"
  by (simp add: list_all_iff)

lemma well_typed_object:
  "well_typed (VObject m) \<longleftrightarrow> (\<forall>key v. fmlookup m key = Some v \<longrightarrow> utf8 key \<and> well_typed v)"
  by (auto simp: list_all_entries fmlookup_map)

declare well_typed.simps(8,9) [simp del]

section \<open>The CBOR library\<close>

primrec cbor_depth :: "cbor \<Rightarrow> nat" where
  "cbor_depth (CInteger n) = 0"
| "cbor_depth (CBytes bs) = 0"
| "cbor_depth (CFloat w) = 0"
| "cbor_depth (CText s) = 0"
| "cbor_depth (CBool b) = 0"
| "cbor_depth CNull = 0"
| "cbor_depth (CTag t c) = Suc (cbor_depth c)"
| "cbor_depth (CArray cs) = Suc (fold max (map cbor_depth cs) 0)"
| "cbor_depth (CMap es) = Suc (fold max (map (\<lambda>(a, b). max a b) (map (map_prod cbor_depth cbor_depth) es)) 0)"

text \<open>The items a program can build: 64-bit integers and lengths, UTF-8 text, finite floats.\<close>

primrec representable :: "cbor \<Rightarrow> bool" where
  "representable (CInteger n) = (- (2 ^ 64) \<le> n \<and> n < 2 ^ 64)"
| "representable (CBytes bs) = (len bs < 2 ^ 64)"
| "representable (CFloat w) = is_finite_bits w"
| "representable (CText s) = (utf8 s \<and> len s < 2 ^ 64)"
| "representable (CBool b) = True"
| "representable CNull = True"
| "representable (CTag t c) = representable c"
| "representable (CArray cs) = (list_all (\<lambda>b. b) (map representable cs) \<and> len cs < 2 ^ 64)"
| "representable (CMap es) =
     (list_all (\<lambda>(a, b). a \<and> b) (map (map_prod representable representable) es) \<and> len es < 2 ^ 64)"

lemma fold_max_le: "fold max ns (0::nat) \<le> k \<longleftrightarrow> (\<forall>n \<in> set ns. n \<le> k)"
proof -
  have "fold max ns a \<le> k \<longleftrightarrow> a \<le> k \<and> (\<forall>n \<in> set ns. n \<le> k)" for a
    by (induction ns arbitrary: a) auto
  then show ?thesis by simp
qed

lemma cbor_depth_le [simp]:
  "cbor_depth (CArray cs) \<le> Suc k \<longleftrightarrow> (\<forall>c \<in> set cs. cbor_depth c \<le> k)"
  "cbor_depth (CMap es) \<le> Suc k \<longleftrightarrow> (\<forall>(a, b) \<in> set es. cbor_depth a \<le> k \<and> cbor_depth b \<le> k)"
  by (auto simp: fold_max_le)

lemma representable_containers [simp]:
  "representable (CArray cs) \<longleftrightarrow> (\<forall>c \<in> set cs. representable c) \<and> len cs < 2 ^ 64"
  "representable (CMap es) \<longleftrightarrow> (\<forall>(a, b) \<in> set es. representable a \<and> representable b) \<and> len es < 2 ^ 64"
  by (auto simp: list_all_iff)

declare cbor_depth.simps(8,9) [simp del] representable.simps(8,9) [simp del]

text \<open>The library decodes at most 128 nested items here; its own default limit is higher.\<close>

locale cbor_library =
  fixes ser :: serializer and de :: deserializer
  assumes de_ser: "representable c \<Longrightarrow> cbor_depth c \<le> 128 \<Longrightarrow> ser c = (chunks, True) \<Longrightarrow>
    de (concat chunks) = Some (c, length (concat chunks))"

section \<open>Budgets\<close>

lemma checked_sub_usize_Some [result_conv]:
  "checked_sub_usize a b = Some c \<longleftrightarrow> b \<le> a \<and> c = a - b"
  by (auto simp: checked_sub_usize_def)

lemma take_items_Inr: "take_items n (i, b) = Inr x \<longleftrightarrow> n \<le> i \<and> x = (i - n, b)"
  by (auto simp: result_conv)

lemma take_bytes_Inr: "take_bytes n (i, b) = Inr x \<longleftrightarrow> n \<le> b \<and> x = (i, b - n)"
  by (auto simp: result_conv)

lemma enter_Inr: "enter d (i, b) = Inr x \<longleftrightarrow> d \<le> max_depth \<and> 1 \<le> i \<and> x = (i - 1, b)"
  by (auto simp: enter_def take_items_Inr simp del: take_items.simps)

lemma validate_text_Inr:
  "validate_text n (i, b) = Inr x \<longleftrightarrow> n \<le> max_string_bytes \<and> n \<le> b \<and> x = (i, b - n)"
  by (auto simp: validate_text_def take_bytes_Inr simp del: take_bytes.simps)

lemmas budget_conv = take_items_Inr take_bytes_Inr enter_Inr validate_text_Inr

declare take_items.simps [simp del] take_bytes.simps [simp del]

text \<open>
  A validation that succeeds also succeeds with more budget and at a smaller depth, and
  uses the same amount.
\<close>

definition shifts :: "(nat \<Rightarrow> budget \<Rightarrow> codec_error + budget) \<Rightarrow> bool" where
  "shifts f \<longleftrightarrow> (\<forall>d i b i' b' D x y. f d (i, b) = Inr (i', b') \<longrightarrow> D \<le> d \<longrightarrow> 0 \<le> x \<longrightarrow> 0 \<le> y \<longrightarrow>
     f D (i + x, b + y) = Inr (i' + x, b' + y) \<and> i' \<le> i \<and> b' \<le> b)"

lemma shiftsD:
  "shifts f \<Longrightarrow> f d (i, b) = Inr (i', b') \<Longrightarrow> D \<le> d \<Longrightarrow> 0 \<le> x \<Longrightarrow> 0 \<le> y \<Longrightarrow>
     f D (i + x, b + y) = Inr (i' + x, b' + y) \<and> i' \<le> i \<and> b' \<le> b"
  unfolding shifts_def by blast

lemma shifts_enter: "shifts enter"
  by (auto simp: shifts_def enter_Inr)

lemma shifts_try_fold:
  assumes "\<And>f. f \<in> set fs \<Longrightarrow> shifts f"
    and "try_fold (\<lambda>b f. f d b) (i, b) fs = Inr (i', b')" and "D \<le> d" and "0 \<le> x" and "0 \<le> y"
  shows "try_fold (\<lambda>b f. f D b) (i + x, b + y) fs = Inr (i' + x, b' + y) \<and> i' \<le> i \<and> b' \<le> b"
  using assms(1,2)
proof (induction fs arbitrary: i b)
  case (Cons f fs)
  from Cons.prems(2) obtain i1 b1 where f: "f d (i, b) = Inr (i1, b1)"
    and rest: "try_fold (\<lambda>b f. f d b) (i1, b1) fs = Inr (i', b')"
    by (auto simp: rbind_Inr)
  have "f D (i + x, b + y) = Inr (i1 + x, b1 + y) \<and> i1 \<le> i \<and> b1 \<le> b"
    using Cons.prems(1) f assms(3-5) by (intro shiftsD) auto
  moreover have "try_fold (\<lambda>b f. f D b) (i1 + x, b1 + y) fs = Inr (i' + x, b' + y) \<and> i' \<le> i1 \<and> b' \<le> b1"
    using Cons.prems(1) rest by (intro Cons.IH) auto
  ultimately show ?case by auto
qed simp

lemma shifts_text:
  assumes "shifts f"
  shows "shifts (\<lambda>d b. rbind (validate_text (int n) b) (f d))"
  unfolding shifts_def
proof (intro allI impI)
  fix d i b i' b' D x y
  assume a: "rbind (validate_text (int n) (i, b)) (f d) = Inr (i', b')" and D: "D \<le> d"
    and x: "(0::int) \<le> x" and y: "(0::int) \<le> y"
  from a have n: "int n \<le> max_string_bytes" "int n \<le> b" "f d (i, b - int n) = Inr (i', b')"
    by (auto simp: rbind_Inr validate_text_Inr)
  have "f D (i + x, b - int n + y) = Inr (i' + x, b' + y) \<and> i' \<le> i \<and> b' \<le> b - int n"
    using assms n(3) D x y by (rule shiftsD)
  then show "rbind (validate_text (int n) (i + x, b + y)) (f D) = Inr (i' + x, b' + y) \<and> i' \<le> i \<and> b' \<le> b"
    using n(1,2) y unfolding diff_add_eq by (auto simp: rbind_Inr validate_text_Inr)
qed

lemma shifts_try_fold_keyed:
  assumes "\<And>k f. (k, f) \<in> set fs \<Longrightarrow> shifts f"
    and "try_fold (\<lambda>b (k, f). rbind (validate_text (len k) b) (f d)) (i, b) fs = Inr (i', b')"
    and "D \<le> d" and "0 \<le> x" and "0 \<le> y"
  shows "try_fold (\<lambda>b (k, f). rbind (validate_text (len k) b) (f D)) (i + x, b + y) fs = Inr (i' + x, b' + y)
    \<and> i' \<le> i \<and> b' \<le> b"
proof -
  let ?g = "\<lambda>(k, f) d b. rbind (validate_text (len k) b) (f d)"
  have eq: "try_fold (\<lambda>b (k, f). rbind (validate_text (len k) b) (f e)) s fs = try_fold (\<lambda>b f. f e b) s (map ?g fs)"
    for e s by (induction fs arbitrary: s) (auto simp: rbind_def split: sum.splits)
  have "shifts (?g (k, f))" if "(k, f) \<in> set fs" for k f
    using shifts_text [OF assms(1) [OF that]] by simp
  then have "\<And>h. h \<in> set (map ?g fs) \<Longrightarrow> shifts h" by fastforce
  then show ?thesis
    using assms(2-5) unfolding eq by (rule shifts_try_fold)
qed

lemma shifts_items:
  assumes "shifts f"
  shows "shifts (\<lambda>d b. rbind (take_items (int n) b) (f d))"
  unfolding shifts_def
proof (intro allI impI)
  fix d i b i' b' D x y
  assume a: "rbind (take_items (int n) (i, b)) (f d) = Inr (i', b')" and D: "D \<le> d"
    and x: "(0::int) \<le> x" and y: "(0::int) \<le> y"
  from a have n: "int n \<le> i" "f d (i - int n, b) = Inr (i', b')"
    by (auto simp: rbind_Inr take_items_Inr)
  have "f D (i - int n + x, b + y) = Inr (i' + x, b' + y) \<and> i' \<le> i - int n \<and> b' \<le> b"
    using assms n(2) D x y by (rule shiftsD)
  then show "rbind (take_items (int n) (i + x, b + y)) (f D) = Inr (i' + x, b' + y) \<and> i' \<le> i \<and> b' \<le> b"
    using n(1) x unfolding diff_add_eq by (auto simp: rbind_Inr take_items_Inr)
qed

lemma shifts_entered:
  assumes "shifts f"
  shows "shifts (\<lambda>d b. rbind (enter d b) (f d))"
  unfolding shifts_def
proof (intro allI impI)
  fix d i b i' b' D x y
  assume a: "rbind (enter d (i, b)) (f d) = Inr (i', b')" and D: "D \<le> d"
    and x: "(0::int) \<le> x" and y: "(0::int) \<le> y"
  from a have n: "d \<le> max_depth" "1 \<le> i" "f d (i - 1, b) = Inr (i', b')"
    by (auto simp: rbind_Inr enter_Inr)
  have "f D (i - 1 + x, b + y) = Inr (i' + x, b' + y) \<and> i' \<le> i - 1 \<and> b' \<le> b"
    using assms n(3) D x y by (rule shiftsD)
  then show "rbind (enter D (i + x, b + y)) (f D) = Inr (i' + x, b' + y) \<and> i' \<le> i \<and> b' \<le> b"
    using n(1,2) x D unfolding diff_add_eq by (auto simp: rbind_Inr enter_Inr)
qed

lemma rbind_done [simp]: "rbind r Inr = r"
  by (cases r) simp_all

lemma shifts_done: "shifts (\<lambda>d. Inr)"
  by (simp add: shifts_def)

lemma shifts_fail: "shifts (\<lambda>d b. Inl e)"
  by (simp add: shifts_def)

lemma shifts_if: "shifts f \<Longrightarrow> shifts g \<Longrightarrow> shifts (\<lambda>d b. if c then f d b else g d b)"
  by (cases c) simp_all

lemma shifts_deeper: "shifts f \<Longrightarrow> shifts (\<lambda>d. f (Suc d))"
  unfolding shifts_def by (metis Suc_le_mono)

lemma validate_shifts: "shifts (validate_with_budget v)"
proof (induction v)
  case VNone
  show ?case
    using shifts_entered [OF shifts_items [OF shifts_done, of 1]] by simp
next
  case (VArray vs)
  have "shifts (\<lambda>d b. try_fold (\<lambda>b f. f (Suc d) b) b (map validate_with_budget vs))"
    unfolding shifts_def
    by (intro allI impI shifts_try_fold) (use VArray in auto)
  then show ?case by (simp add: shifts_entered shifts_fail shifts_if)
next
  case (VObject m)
  have "shifts (\<lambda>d b. try_fold (\<lambda>b (key, f). rbind (validate_text (len key) b) (f (Suc d))) b
      (entries (fmmap validate_with_budget m)))"
    unfolding shifts_def
    by (intro allI impI shifts_try_fold_keyed)
      (use VObject in \<open>auto simp: set_entries fmlookup_map fmlookup_ran'_iff\<close>)
  then show ?case by (simp add: shifts_entered shifts_fail shifts_if shifts_items)
next
  case (VRecordId table key)
  have "shifts (\<lambda>d b. rbind (take_items 2 b) (validate_with_budget key (Suc d)))"
    using shifts_items [OF shifts_deeper [OF VRecordId], of 2] by simp
  then show ?case by (simp add: shifts_entered shifts_fail shifts_if shifts_text)
qed (use shifts_enter shifts_entered [OF shifts_text [OF shifts_done]] in simp_all)

text \<open>A value that passed some validation, inside a larger value or on its own.\<close>

definition validated :: "canonical_value \<Rightarrow> nat \<Rightarrow> bool" where
  "validated v d \<longleftrightarrow> (\<exists>i b x. i \<le> max_total_items \<and> b \<le> max_encoded_bytes
     \<and> validate_with_budget v d (i, b) = Inr x)"

lemma validated_value: "validated v d \<Longrightarrow> validate_value v = Inr ()"
proof -
  assume "validated v d"
  then obtain i b i' b' where le: "i \<le> max_total_items" "b \<le> max_encoded_bytes"
    and v: "validate_with_budget v d (i, b) = Inr (i', b')"
    unfolding validated_def by auto
  have "validate_with_budget v 0 (i + (max_total_items - i), b + (max_encoded_bytes - b)) =
      Inr (i' + (max_total_items - i), b' + (max_encoded_bytes - b))"
    using shiftsD [OF validate_shifts v, of 0 "max_total_items - i" "max_encoded_bytes - b"] le by simp
  then show ?thesis by (simp add: validate_value_def)
qed

lemma validate_value_validated: "validate_value v = Inr () \<Longrightarrow> validated v 0"
  unfolding validate_value_def validated_def by (auto simp: rbind_Inr)

lemma validated_depth: "validated v d \<Longrightarrow> d \<le> max_depth"
  unfolding validated_def
  by (cases v) (auto simp: rbind_Inr enter_Inr)

text \<open>The fold over sub-values starts within the budget and never leaves it.\<close>

lemma try_fold_validated:
  assumes "try_fold (\<lambda>b f. f d b) (i, b) (map validate_with_budget vs) = Inr x"
    and "i \<le> max_total_items" and "b \<le> max_encoded_bytes" and "v \<in> set vs"
  shows "validated v d"
  using assms
proof (induction vs arbitrary: i b)
  case (Cons w vs)
  from Cons.prems(1) obtain i1 b1 where w: "validate_with_budget w d (i, b) = Inr (i1, b1)"
    and rest: "try_fold (\<lambda>b f. f d b) (i1, b1) (map validate_with_budget vs) = Inr x"
    by (auto simp: rbind_Inr)
  show ?case
  proof (cases "v = w")
    case True
    then show ?thesis using w Cons.prems(2,3) unfolding validated_def by blast
  next
    case False
    have "i1 \<le> i \<and> b1 \<le> b" using shiftsD [OF validate_shifts w, of d 0 0] by simp
    then show ?thesis using Cons.IH [OF rest] Cons.prems(2-4) False by auto
  qed
qed simp

lemma try_fold_keyed_validated:
  assumes "try_fold (\<lambda>b (k, f). rbind (validate_text (len k) b) (f d)) (i, b)
      (map (\<lambda>(k, v). (k, validate_with_budget v)) kvs) = Inr x"
    and "i \<le> max_total_items" and "b \<le> max_encoded_bytes" and "(key, v) \<in> set kvs"
  shows "validated v d \<and> len key \<le> max_string_bytes"
  using assms
proof (induction kvs arbitrary: i b)
  case (Cons kw kvs)
  obtain k w where kw: "kw = (k, w)" by force
  from Cons.prems(1) obtain i1 b1 where k: "len k \<le> max_string_bytes" "len k \<le> b"
    and w: "validate_with_budget w d (i, b - len k) = Inr (i1, b1)"
    and rest: "try_fold (\<lambda>b (k, f). rbind (validate_text (len k) b) (f d)) (i1, b1)
      (map (\<lambda>(k, v). (k, validate_with_budget v)) kvs) = Inr x"
    unfolding kw by (auto simp: rbind_Inr validate_text_Inr)
  show ?case
  proof (cases "(key, v) = (k, w)")
    case True
    moreover have "b - len k \<le> max_encoded_bytes" using Cons.prems(3) by simp
    ultimately show ?thesis using k w Cons.prems(2) unfolding validated_def by blast
  next
    case False
    have "i1 \<le> i \<and> b1 \<le> b - len k" using shiftsD [OF validate_shifts w, of d 0 0] by simp
    then show ?thesis using Cons.IH [OF rest] Cons.prems(2-4) False kw by auto
  qed
qed simp

lemma entries_fmmap: "entries (fmmap f m) = map (\<lambda>(k, v). (k, f v)) (entries m)"
  by (auto simp: entries_def sorted_list_of_fmap_def fmlookup_map fmlookup_dom_iff)

lemma validated_array:
  assumes "validated (VArray vs) d"
  shows "len vs \<le> max_container_items" and "v \<in> set vs \<Longrightarrow> validated v (Suc d)"
proof -
  from assms obtain i b x where v: "validate_with_budget (VArray vs) d (i, b) = Inr x"
    and i: "i \<le> max_total_items" and b: "b \<le> max_encoded_bytes"
    unfolding validated_def by blast
  from v have fold: "try_fold (\<lambda>b f. f (Suc d) b) (i - 1, b) (map validate_with_budget vs) = Inr x"
    and len: "len vs \<le> max_container_items"
    by (auto simp: rbind_Inr enter_Inr split: if_splits)
  show "len vs \<le> max_container_items" by (rule len)
  show "v \<in> set vs \<Longrightarrow> validated v (Suc d)"
    using fold i b by (auto intro: try_fold_validated)
qed

lemma validated_object:
  assumes "validated (VObject m) d"
  shows "int (map_len m) \<le> max_container_items"
    and "fmlookup m key = Some v \<Longrightarrow> validated v (Suc d) \<and> len key \<le> max_string_bytes"
proof -
  from assms obtain i b x where v: "validate_with_budget (VObject m) d (i, b) = Inr x"
    and i: "i \<le> max_total_items" and b: "b \<le> max_encoded_bytes"
    unfolding validated_def by blast
  from v have fold: "try_fold (\<lambda>b (k, f). rbind (validate_text (len k) b) (f (Suc d))) (i - 1 - int (map_len m), b)
      (map (\<lambda>(k, v). (k, validate_with_budget v)) (entries m)) = Inr x"
    and len: "int (map_len m) \<le> max_container_items"
    by (auto simp: rbind_Inr enter_Inr take_items_Inr entries_fmmap split: if_splits)
  show "int (map_len m) \<le> max_container_items" by (rule len)
  show "fmlookup m key = Some v \<Longrightarrow> validated v (Suc d) \<and> len key \<le> max_string_bytes"
    using try_fold_keyed_validated [OF fold] i b by (simp add: set_entries)
qed

lemma validated_record_id:
  assumes "validated (VRecordId table key) d"
  shows "validated key (Suc d)" and "len table \<le> max_string_bytes"
proof -
  from assms obtain i b x where v: "validate_with_budget (VRecordId table key) d (i, b) = Inr x"
    and i: "i \<le> max_total_items" and b: "b \<le> max_encoded_bytes"
    unfolding validated_def by blast
  from v have "validate_with_budget key (Suc d) (i - 1 - 2, b - len table) = Inr x"
    and len: "len table \<le> max_string_bytes"
    by (auto simp: rbind_Inr budget_conv split: if_splits)
  then show "validated key (Suc d)"
    unfolding validated_def using i b
    by (intro exI [of _ "i - 1 - 2"] exI [of _ "b - len table"] exI [of _ x]) simp
  show "len table \<le> max_string_bytes" by (rule len)
qed

lemma validated_text:
  "validated (VString s) d \<Longrightarrow> len s \<le> max_string_bytes"
  "validated (VBytes bs) d \<Longrightarrow> len bs \<le> max_string_bytes"
  unfolding validated_def by (auto simp: rbind_Inr budget_conv)

section \<open>Conversion round trip\<close>

lemma max_usize_lt: "max_string_bytes < 2 ^ 64" "max_container_items < 2 ^ 64"
  by (simp_all add: max_string_bytes_def max_container_items_def)

lemma sorted_keyed:
  fixes m :: "(string, 'a) fmap"
  shows "set (sort_by key_le (entries m)) = set (entries m)"
    and "distinct (map fst (sort_by key_le (entries m)))"
proof -
  have "mset (map fst (sort_by key_le (entries m))) = mset (map fst (entries m))" by simp
  then show "distinct (map fst (sort_by key_le (entries m)))"
    using distinct_entries mset_eq_imp_distinct_iff by blast
qed simp

lemma in_sorted_entries:
  "(key, r) \<in> set (sort_by key_le (entries (fmmap f m))) \<longleftrightarrow> (\<exists>v. fmlookup m key = Some v \<and> r = f v)"
  by (auto simp: set_entries fmlookup_map)

lemma array_from_cbor_Inr:
  "list_all2 (\<lambda>v c. from_cbor c = Inr v) vs cs \<Longrightarrow> array_from_cbor cs = Inr vs"
  by (induction vs cs rule: list_all2_induct) auto

lemma map_from_cbor_Inr:
  assumes "list_all2 (\<lambda>(key, v) e. \<exists>c. e = (CText key, c) \<and> from_cbor c = Inr v) kvs es"
    and "distinct (map fst kvs)" and "\<forall>key \<in> fst ` set kvs. \<not> contains_key m key"
  shows "\<exists>m'. map_from_cbor m es = Inr m' \<and>
    (\<forall>key. fmlookup m' key = (case map_of kvs key of Some v \<Rightarrow> Some v | None \<Rightarrow> fmlookup m key))"
  using assms
proof (induction kvs es arbitrary: m rule: list_all2_induct)
  case (Cons kv kvs e es)
  obtain key v where kv: "kv = (key, v)" by force
  with Cons.hyps(1) obtain c where e: "e = (CText key, c)" and c: "from_cbor c = Inr v" by auto
  have fresh: "\<not> contains_key m key" and tail: "key \<notin> fst ` set kvs"
    using Cons.prems kv by auto
  have "\<forall>k \<in> fst ` set kvs. \<not> contains_key (fmupd key v m) k"
    using Cons.prems(2) tail kv by (auto simp: contains_key_def)
  with Cons.IH [of "fmupd key v m"] Cons.prems(1) kv obtain m' where
    m': "map_from_cbor (fmupd key v m) es = Inr m'"
    "\<And>k. fmlookup m' k = (case map_of kvs k of Some v \<Rightarrow> Some v | None \<Rightarrow> fmlookup (fmupd key v m) k)"
    by auto
  have "map_of kvs key = None" using tail by (simp add: map_of_eq_None_iff)
  then show ?case
    using m' c fresh unfolding e kv by (auto split: option.splits)
qed simp

lemma to_cbor_from_cbor:
  assumes "to_cbor v = Inr c" and "well_typed v" and "validated v d"
  shows "from_cbor c = Inr v"
  using assms
proof (induction v arbitrary: c d)
  case VNone
  then show ?case by auto
next
  case (VInt n)
  have "- (2 ^ 63) \<le> sint n \<and> sint n < 2 ^ 63"
    using sint_greater_eq [of n] sint_lt [of n] by simp
  with VInt show ?case by (auto simp: i64_try_from_def)
next
  case (VFloat f)
  then show ?case by (auto simp: canonical_float_new_get)
next
  case (VArray vs)
  from VArray.prems(1) obtain cs where c: "c = CArray cs"
    and cs: "list_all2 (\<lambda>v c. to_cbor v = Inr c) vs cs"
    by (auto simp: rbind_Inr try_map_Inr list_all2_map1)
  have "list_all2 (\<lambda>v c. from_cbor c = Inr v) vs cs"
    using cs VArray.IH VArray.prems(2) validated_array(2) [OF VArray.prems(3)]
    unfolding list_all2_conv_all_nth well_typed_array by (metis nth_mem)
  then show ?case unfolding c by (simp add: array_from_cbor_Inr)
next
  case (VObject m)
  define zs where "zs = sort_by key_le (entries (fmmap to_cbor m))"
  define kvs where "kvs = map (\<lambda>(key, r). (key, the (fmlookup m key))) zs"
  from VObject.prems(1) obtain es where c: "c = CMap es"
    and es: "list_all2 (\<lambda>(key, r) e. \<exists>c. r = Inr c \<and> (CText key, c) = e) zs es"
    by (auto simp: rbind_Inr try_map_Inr case_prod_unfold zs_def [symmetric])
  have zs: "(key, r) \<in> set zs \<longleftrightarrow> (\<exists>v. fmlookup m key = Some v \<and> r = to_cbor v)" for key r
    unfolding zs_def by (rule in_sorted_entries)
  have "list_all2 (\<lambda>(key, v) e. \<exists>c. e = (CText key, c) \<and> from_cbor c = Inr v) kvs es"
    unfolding list_all2_conv_all_nth
  proof (intro conjI allI impI)
    show "length kvs = length es" using es by (simp add: kvs_def list_all2_lengthD)
    fix n assume n: "n < length kvs"
    obtain key r where z: "zs ! n = (key, r)" by force
    have "n < length zs" using n by (simp add: kvs_def)
    with z have "(key, r) \<in> set zs" by (metis nth_mem)
    then obtain v where v: "fmlookup m key = Some v" "r = to_cbor v" unfolding zs by blast
    obtain c where e: "es ! n = (CText key, c)" and r: "r = Inr c"
      using list_all2_nthD [OF es, of n] n z by (auto simp: kvs_def dest: sym)
    have "from_cbor c = Inr v"
      using VObject.IH [of v c "Suc d"] v r VObject.prems(2,3) validated_object(2) [OF VObject.prems(3) v(1)]
      by (auto simp: well_typed_object fmlookup_ran'_iff)
    then show "(case kvs ! n of (key, v) \<Rightarrow> \<lambda>e. \<exists>c. e = (CText key, c) \<and> from_cbor c = Inr v) (es ! n)"
      using n z e v by (simp add: kvs_def)
  qed
  moreover have "map fst kvs = map fst zs" by (simp add: kvs_def comp_def case_prod_unfold)
  then have dist: "distinct (map fst kvs)" using sorted_keyed(2) [of "fmmap to_cbor m"] by (simp only: zs_def)
  ultimately obtain m' where m0: "map_from_cbor fmempty es = Inr m'"
      "\<And>key. fmlookup m' key = (case map_of kvs key of Some v \<Rightarrow> Some v | None \<Rightarrow> fmlookup fmempty key)"
    using map_from_cbor_Inr [of kvs es fmempty] unfolding contains_key_def fmlookup_dom_iff by auto
  have m': "map_from_cbor fmempty es = Inr m'" "\<And>key. fmlookup m' key = map_of kvs key"
    using m0 by (simp_all add: option.case_eq_if)
  have "(key, v) \<in> set kvs \<longleftrightarrow> fmlookup m key = Some v" for key v
    unfolding kvs_def using zs by (force simp: image_iff)
  then have "map_of kvs key = fmlookup m key" for key
    using dist by (metis map_of_eq_Some_iff not_None_eq)
  then have "m' = m" by (intro fmap_ext) (simp add: m'(2))
  with m'(1) show ?case unfolding c by simp
next
  case (VRecordId table key)
  from VRecordId.prems(1) obtain k where c: "c = CTag record_id_tag (CArray [CText table, k])"
    and k: "to_cbor key = Inr k" by (auto simp: rbind_Inr)
  have "from_cbor k = Inr key"
    using VRecordId.IH [OF k] VRecordId.prems(2) validated_record_id(1) [OF VRecordId.prems(3)] by simp
  moreover have "validate_value (VRecordId table key) = Inr ()"
    using VRecordId.prems(3) by (rule validated_value)
  moreover have "record_id_tag \<noteq> none_tag" by (simp add: record_id_tag_def none_tag_def)
  ultimately show ?case unfolding c by simp
qed auto

lemma to_cbor_total: "\<exists>c. to_cbor v = Inr c"
proof (induction v)
  case (VArray vs)
  then obtain f where "\<And>v. v \<in> set vs \<Longrightarrow> to_cbor v = Inr (f v)" by metis
  then have "try_map (\<lambda>r. r) (map to_cbor vs) = Inr (map f vs)"
    by (auto simp: try_map_Inr list_all2_conv_all_nth)
  then show ?case by simp
next
  case (VObject m)
  define zs where "zs = sort_by key_le (entries (fmmap to_cbor m))"
  have "\<exists>c. snd z = Inr c" if "z \<in> set zs" for z
    using that VObject in_sorted_entries [of "fst z" "snd z" to_cbor m]
    unfolding zs_def prod.collapse by (metis fmran'I)
  then obtain f where "\<And>z. z \<in> set zs \<Longrightarrow> snd z = Inr (f z)" by metis
  then have "try_map (\<lambda>(key, r). rbind r (\<lambda>c. Inr (CText key, c))) zs =
      Inr (map (\<lambda>z. (CText (fst z), f z)) zs)"
    by (intro try_map_InrI) (auto simp: case_prod_unfold)
  then show ?case by (simp add: zs_def)
qed auto

text \<open>Whatever validation admits, the library can carry.\<close>

lemma to_cbor_representable:
  assumes "to_cbor v = Inr c" and "well_typed v" and "validated v d"
  shows "representable c \<and> cbor_depth c \<le> 2 * (Suc max_depth - d)"
  using assms
proof (induction v arbitrary: c d)
  case (VInt n)
  have "- (2 ^ 63) \<le> sint n \<and> sint n < 2 ^ 63"
    using sint_greater_eq [of n] sint_lt [of n] by simp
  with VInt show ?case by auto
next
  case (VFloat f)
  then show ?case by (cases f) auto
next
  case VNone
  then show ?case using validated_depth [OF VNone.prems(3)] by auto
next
  case (VString s)
  then show ?case using validated_text(1) [OF VString.prems(3)] max_usize_lt by auto
next
  case (VBytes bs)
  then show ?case using validated_text(2) [OF VBytes.prems(3)] max_usize_lt by auto
next
  case (VArray vs)
  from VArray.prems(1) obtain cs where c: "c = CArray cs"
    and cs: "list_all2 (\<lambda>v c. to_cbor v = Inr c) vs cs"
    by (auto simp: rbind_Inr try_map_Inr list_all2_map1)
  have d: "d \<le> max_depth" using VArray.prems(3) by (rule validated_depth)
  have each: "representable x \<and> cbor_depth x \<le> 2 * (Suc max_depth - Suc d)" if "x \<in> set cs" for x
  proof -
    from that obtain n where "n < length cs" "x = cs ! n" by (auto simp: in_set_conv_nth)
    with cs have "vs ! n \<in> set vs" "to_cbor (vs ! n) = Inr x"
      by (auto simp: list_all2_conv_all_nth)
    then show ?thesis
      using VArray.IH [of "vs ! n" x "Suc d"] VArray.prems(2) validated_array(2) [OF VArray.prems(3), of "vs ! n"]
      by (simp only: well_typed_array)
  qed
  have "cbor_depth c \<le> Suc (2 * (Suc max_depth - Suc d))" unfolding c using each by simp
  then have "cbor_depth c \<le> 2 * (Suc max_depth - d)" using d by linarith
  moreover have "len cs < 2 ^ 64"
    using validated_array(1) [OF VArray.prems(3)] max_usize_lt cs by (simp add: list_all2_lengthD)
  ultimately show ?case using each unfolding c by (simp only: representable_containers) blast
next
  case (VObject m)
  define zs where "zs = sort_by key_le (entries (fmmap to_cbor m))"
  from VObject.prems(1) obtain es where c: "c = CMap es"
    and es: "list_all2 (\<lambda>(key, r) e. \<exists>c. r = Inr c \<and> (CText key, c) = e) zs es"
    by (auto simp: rbind_Inr try_map_Inr case_prod_unfold zs_def [symmetric])
  have d: "d \<le> max_depth" using VObject.prems(3) by (rule validated_depth)
  have each: "\<exists>key. a = CText key \<and> utf8 key \<and> len key \<le> max_string_bytes
      \<and> representable x \<and> cbor_depth x \<le> 2 * (Suc max_depth - Suc d)" if "(a, x) \<in> set es" for a x
  proof -
    from that obtain n where n: "n < length es" "es ! n = (a, x)" by (auto simp: in_set_conv_nth)
    obtain key r where z: "zs ! n = (key, r)" by force
    from list_all2_nthD2 [OF es n(1)] z n(2) have r: "r = Inr x" "a = CText key" by auto
    have "(key, r) \<in> set zs" using z n(1) list_all2_lengthD [OF es] by (metis nth_mem)
    then obtain v where v: "fmlookup m key = Some v" "to_cbor v = Inr x"
      using r(1) in_sorted_entries [of key r to_cbor m] unfolding zs_def by auto
    then show ?thesis
      using VObject.IH [of v x "Suc d"] VObject.prems(2) validated_object(2) [OF VObject.prems(3) v(1)] r(2)
      by (auto simp: well_typed_object fmlookup_ran'_iff)
  qed
  have "cbor_depth c \<le> Suc (2 * (Suc max_depth - Suc d))" unfolding c using each by fastforce
  moreover have "len es < 2 ^ 64"
  proof -
    have "length es = map_len m"
      using list_all2_lengthD [OF es] mset_sort_by [of key_le "entries (fmmap to_cbor m)"]
      unfolding zs_def by (metis entries_fmmap length_entries length_map size_mset)
    then show ?thesis using validated_object(1) [OF VObject.prems(3)] max_usize_lt by simp
  qed
  moreover have "representable c"
    unfolding c using each \<open>len es < 2 ^ 64\<close> max_usize_lt by fastforce
  ultimately show ?case using d by auto
next
  case (VRecordId table key)
  from VRecordId.prems(1) obtain k where c: "c = CTag record_id_tag (CArray [CText table, k])"
    and k: "to_cbor key = Inr k" by (auto simp: rbind_Inr)
  have d: "d \<le> max_depth" using VRecordId.prems(3) by (rule validated_depth)
  have "representable k \<and> cbor_depth k \<le> 2 * (Suc max_depth - Suc d)"
    using VRecordId.IH [OF k, of "Suc d"] VRecordId.prems(2) validated_record_id(1) [OF VRecordId.prems(3)]
    by (simp only: well_typed.simps)
  moreover from this have "cbor_depth (CArray [CText table, k]) \<le> Suc (2 * (Suc max_depth - Suc d))" by simp
  then have "cbor_depth c \<le> 2 * (Suc max_depth - d)" using d unfolding c cbor_depth.simps(7) by linarith
  ultimately show ?case
    using validated_record_id(2) [OF VRecordId.prems(3)] max_usize_lt VRecordId.prems(2)
    unfolding c by simp
qed auto

section \<open>The limited writer\<close>

lemma write_chunks_written:
  assumes "write_chunks cs w = (ok, w')" and "len (written w) \<le> write_limit w"
  shows "if ok then written w' = written w @ concat cs \<and> exceeded w' = exceeded w
     \<and> len (written w @ concat cs) \<le> write_limit w else exceeded w'"
  using assms
proof (induction cs arbitrary: w)
  case (Cons c cs)
  show ?case
  proof (cases "len (written w) + len c > write_limit w")
    case True
    then show ?thesis using Cons.prems(1) by (auto simp: write_chunk_def)
  next
    case False
    then show ?thesis
      using Cons.IH [of "w\<lparr>written := written w @ c\<rparr>"] Cons.prems(1)
      by (auto simp: write_chunk_def split: if_splits)
  qed
qed auto

lemma encode_Inr:
  assumes "encode_cbor_value ser c = Inr bytes"
  shows "\<exists>chunks. ser c = (chunks, True) \<and> bytes = concat chunks \<and> len bytes \<le> max_encoded_bytes"
proof -
  obtain chunks fin where ser: "ser c = (chunks, fin)" by force
  obtain ok w where w: "write_chunks chunks
      \<lparr>written = [], write_limit = max_encoded_bytes, exceeded = False\<rparr> = (ok, w)" by force
  from assms ser w have "fin" "ok" "bytes = written w"
    by (auto simp: encode_cbor_value_def split: if_splits)
  moreover have "written w = concat chunks \<and> len (written w) \<le> max_encoded_bytes"
    using write_chunks_written [OF w] \<open>ok\<close> by (simp add: max_encoded_bytes_def)
  ultimately show ?thesis using ser by auto
qed

section \<open>The codec\<close>

lemma canonical_cbor_Inr:
  "canonical_cbor ser v = Inr bytes \<longleftrightarrow>
     (validate_value v = Inr () \<and> preflight_canonical_cbor bytes = Inr ()
      \<and> (\<exists>c. to_cbor v = Inr c \<and> encode_cbor_value ser c = Inr bytes))"
  by (auto simp: canonical_cbor_def rbind_Inr)

context cbor_library
begin

lemma decode_written:
  assumes "encode_cbor_value ser c = Inr bytes" and "representable c" and "cbor_depth c \<le> 128"
  shows "de bytes = Some (c, length bytes)"
  using encode_Inr [OF assms(1)] de_ser [OF assms(2,3)] by auto

lemma decode_canonical:
  assumes v: "canonical_cbor ser v = Inr bytes" and t: "well_typed v"
  shows "decode_canonical_cbor ser de bytes = Inr v"
proof -
  from v obtain c where c: "to_cbor v = Inr c" "encode_cbor_value ser c = Inr bytes"
    and val: "validate_value v = Inr ()" and pre: "preflight_canonical_cbor bytes = Inr ()"
    by (auto simp: canonical_cbor_Inr)
  from val have ok: "validated v 0"
    by (auto simp: validate_value_def rbind_Inr validated_def)
  have rep: "representable c" "cbor_depth c \<le> 128"
    using to_cbor_representable [OF c(1) t ok] by (simp_all add: max_depth_def)
  have de: "de bytes = Some (c, length bytes)" using c(2) rep by (rule decode_written)
  have conv: "from_cbor c = Inr v" using c(1) t ok by (rule to_cbor_from_cbor)
  have size: "len bytes \<le> max_encoded_bytes" using encode_Inr [OF c(2)] by auto
  show ?thesis
    using size pre de conv val v by (simp add: decode_canonical_cbor_def)
qed

lemma canonical_unique:
  assumes "canonical_cbor ser v = Inr bytes" and "canonical_cbor ser w = Inr bytes"
    and "well_typed v" and "well_typed w"
  shows "v = w"
  using decode_canonical assms by (metis sum.inject(2))

end

lemma decode_canonical_Inr:
  assumes "decode_canonical_cbor ser de bytes = Inr v"
  shows "canonical_cbor ser v = Inr bytes" and "len bytes \<le> max_encoded_bytes"
    and "\<exists>c. de bytes = Some (c, length bytes) \<and> from_cbor c = Inr v"
  using assms
  by (auto simp: decode_canonical_cbor_def rbind_Inr result_conv split: if_splits)

section \<open>The preflight scan\<close>

lemma read_cbor_argument_Inr:
  "read_cbor_argument bytes pos a = Inr (n, pos') \<Longrightarrow> pos \<le> length bytes \<Longrightarrow> pos \<le> pos' \<and> pos' \<le> length bytes"
  by (auto simp: read_cbor_argument_def rbind_Inr split: if_splits)

text \<open>Every item costs a byte, and the cursor stays within the input.\<close>

definition item_bounds :: "byte list \<Rightarrow> nat \<Rightarrow> bool" where
  "item_bounds bytes depth \<longleftrightarrow> (\<forall>pos items pos' items'.
     scan_cbor_item bytes pos depth items = Inr (pos', items') \<longrightarrow> pos \<le> length bytes \<longrightarrow>
       0 \<le> items' \<and> items' < items \<and> int pos + (items - items') \<le> int pos' \<and> pos' \<le> length bytes)"

lemma scan_items_bounds:
  assumes "item_bounds bytes depth" and "scan_cbor_items n bytes pos depth items = Inr (pos', items')"
    and "pos \<le> length bytes" and "0 \<le> items"
  shows "0 \<le> items' \<and> items' \<le> items \<and> int pos + (items - items') \<le> int pos' \<and> pos' \<le> length bytes"
  using assms(2-4)
proof (induction n arbitrary: pos items)
  case (Suc n)
  from Suc.prems(1) obtain p i where item: "scan_cbor_item bytes pos depth items = Inr (p, i)"
    and rest: "scan_cbor_items n bytes p depth i = Inr (pos', items')"
    by (auto simp: rbind_Inr simp del: scan_cbor_item.simps)
  have "0 \<le> i \<and> i < items \<and> int pos + (items - i) \<le> int p \<and> p \<le> length bytes"
    using assms(1) item Suc.prems(2) unfolding item_bounds_def by blast
  moreover from this have "0 \<le> items' \<and> items' \<le> i \<and> int p + (i - items') \<le> int pos' \<and> pos' \<le> length bytes"
    using Suc.IH [OF rest] by simp
  ultimately show ?case by linarith
qed simp

lemma item_bounds_step:
  assumes "item_bounds bytes (Suc depth)"
  shows "item_bounds bytes depth"
  unfolding item_bounds_def
proof (intro allI impI)
  fix pos items pos' items'
  assume scan: "scan_cbor_item bytes pos depth items = Inr (pos', items')" and pos: "pos \<le> length bytes"
  define i where "i = items - 1"
  from scan [unfolded scan_cbor_item.simps [of bytes pos depth items]] obtain b argument p where b: "pos < length bytes" and items: "0 \<le> i"
    and arg: "read_cbor_argument bytes (Suc pos) (b AND 0x1F) = Inr (argument, p)"
    and result: "(pos', items') = (p, i) \<or> (\<exists>k. (pos', items') = (p + k, i) \<and> pos' \<le> length bytes)
      \<or> (\<exists>n. scan_cbor_items n bytes p (Suc depth) i = Inr (pos', items'))
      \<or> scan_cbor_item bytes p (Suc depth) i = Inr (pos', items')"
    by (auto simp: rbind_Inr result_conv byte_at_def i_def Let_def
        simp del: scan_cbor_item.simps split: if_splits)
  have p: "Suc pos \<le> p" "p \<le> length bytes"
    using read_cbor_argument_Inr [OF arg] b by simp_all
  from result show "0 \<le> items' \<and> items' < items \<and> int pos + (items - items') \<le> int pos' \<and> pos' \<le> length bytes"
  proof (elim disjE exE)
    fix n assume "scan_cbor_items n bytes p (Suc depth) i = Inr (pos', items')"
    from scan_items_bounds [OF assms this p(2) items] show ?thesis using p i_def by linarith
  next
    assume "scan_cbor_item bytes p (Suc depth) i = Inr (pos', items')"
    with assms p(2) have "0 \<le> items' \<and> items' < i \<and> int p + (i - items') \<le> int pos' \<and> pos' \<le> length bytes"
      unfolding item_bounds_def by blast
    then show ?thesis using p i_def by linarith
  qed (use p items i_def in auto)
qed

lemma item_bounds: "item_bounds bytes depth"
proof (induction "Suc max_depth - depth" arbitrary: depth)
  case 0
  then show ?case by (simp add: item_bounds_def)
next
  case (Suc k)
  then have "item_bounds bytes (Suc depth)" by simp
  then show ?case by (rule item_bounds_step)
qed

text \<open>An accepted input has at least as many bytes as items, and at most 4096 items.\<close>

lemma preflight_bounds:
  assumes "preflight_canonical_cbor bytes = Inr ()"
  shows "\<exists>left. scan_cbor_item bytes 0 0 max_total_items = Inr (length bytes, left)
    \<and> 0 \<le> left \<and> left < max_total_items \<and> max_total_items - left \<le> len bytes"
proof -
  from assms obtain left where scan: "scan_cbor_item bytes 0 0 max_total_items = Inr (length bytes, left)"
    by (auto simp: preflight_canonical_cbor_def rbind_Inr simp del: scan_cbor_item.simps split: if_splits)
  have "0 \<le> left \<and> left < max_total_items \<and> int 0 + (max_total_items - left) \<le> int (length bytes)"
    using item_bounds [of bytes 0] scan unfolding item_bounds_def by blast
  then show ?thesis using scan by simp
qed

section \<open>Fingerprints\<close>

fun typed_operation :: "canonical_value operation \<Rightarrow> bool" where
  "typed_operation (Upsert r base value reference) =
     (utf8 (record_str r) \<and> well_typed value \<and> (case reference of None \<Rightarrow> True | Some ref \<Rightarrow> utf8 (record_str ref)))"
| "typed_operation (Delete r base) = utf8 (record_str r)"

abbreviation within_budget :: "budget \<Rightarrow> bool" where
  "within_budget b \<equiv> fst b \<le> max_total_items \<and> snd b \<le> max_encoded_bytes"

lemma validate_identifier_Inr: "validate_identifier x = Inr u \<longleftrightarrow> x \<noteq> [] \<and> len x \<le> max_string_bytes"
  by (auto simp: validate_identifier_def)

lemma validate_budget:
  assumes "validate_with_budget v d b = Inr b'" and "within_budget b"
  shows "validated v d" and "within_budget b'"
proof -
  obtain i x i' x' where b: "b = (i, x)" "b' = (i', x')" by (metis surj_pair)
  show "validated v d" using assms unfolding b validated_def by auto
  show "within_budget b'" using shiftsD [OF validate_shifts assms(1) [unfolded b], of d 0 0] assms(2) b by simp
qed

lemma take_bytes_budget: "take_bytes n b = Inr b' \<Longrightarrow> 0 \<le> n \<Longrightarrow> within_budget b \<Longrightarrow> within_budget b'"
  by (cases b) (auto simp: take_bytes_Inr)

lemma uint_inject: "uint (x :: u64) = uint y \<longleftrightarrow> x = y"
  by (simp add: word_uint_eq_iff)

lemma base_version_inject: "base_version_to_cbor x = base_version_to_cbor y \<longleftrightarrow> x = y"
  by (cases x; cases y) (auto simp: uint_inject)

lemma optional_record_id_inject: "optional_record_id_to_cbor x = optional_record_id_to_cbor y \<longleftrightarrow> x = y"
  by (cases x; cases y) (auto intro: record_id.expand)

lemma to_cbor_inject:
  "to_cbor v = Inr c \<Longrightarrow> to_cbor w = Inr c \<Longrightarrow> well_typed v \<Longrightarrow> well_typed w \<Longrightarrow>
     validated v d \<Longrightarrow> validated w e \<Longrightarrow> v = w"
  using to_cbor_from_cbor by (metis sum.inject(2))

lemma operation_to_cbor_budget:
  "operation_to_cbor b op = Inr (b', c) \<Longrightarrow> within_budget b \<Longrightarrow> within_budget b'"
  by (cases op) (auto simp: rbind_Inr dest!: validate_budget(2) take_bytes_budget split: option.splits)

lemma operation_to_cbor_Upsert:
  assumes "operation_to_cbor b (Upsert r base v ref) = Inr (b', c)" and "within_budget b"
  shows "\<exists>x. to_cbor v = Inr x \<and> validated v 0 \<and> len (record_str r) \<le> max_string_bytes
    \<and> (\<forall>q. ref = Some q \<longrightarrow> len (record_str q) \<le> max_string_bytes)
    \<and> c = CArray [CInteger 0, CText (record_str r), base_version_to_cbor base, x, optional_record_id_to_cbor ref]"
  using assms
  by (auto simp: rbind_Inr validate_identifier_Inr dest!: validate_budget(1) take_bytes_budget split: option.splits)

lemma operation_to_cbor_inject:
  assumes "operation_to_cbor b op = Inr (b1, c)" and "operation_to_cbor d op' = Inr (b2, c)"
    and "within_budget b" and "within_budget d" and "typed_operation op" and "typed_operation op'"
  shows "op = op'"
proof (cases op)
  case (Upsert r base v ref)
  from operation_to_cbor_Upsert [OF assms(1) [unfolded Upsert] assms(3)] obtain x where
    x: "to_cbor v = Inr x" "validated v 0"
      "c = CArray [CInteger 0, CText (record_str r), base_version_to_cbor base, x, optional_record_id_to_cbor ref]"
    by blast
  show ?thesis
  proof (cases op')
    case U: (Upsert r' base' v' ref')
    from operation_to_cbor_Upsert [OF assms(2) [unfolded U] assms(4)] x(3) have
      "to_cbor v' = Inr x" "validated v' 0" "record_str r = record_str r'"
      "base_version_to_cbor base = base_version_to_cbor base'"
      "optional_record_id_to_cbor ref = optional_record_id_to_cbor ref'" by auto
    then show ?thesis
      using x to_cbor_inject [of v x v' 0 0] assms(5,6) Upsert U
      by (auto simp: base_version_inject optional_record_id_inject intro: record_id.expand)
  next
    case (Delete r' base')
    then show ?thesis using assms(2) x(3) by (auto simp: rbind_Inr)
  qed
next
  case (Delete r base)
  then have c: "c = CArray [CInteger 1, CText (record_str r), CInteger (uint base)]"
    using assms(1) by (auto simp: rbind_Inr)
  then show ?thesis
    using Delete assms(2) by (cases op') (auto simp: rbind_Inr uint_inject intro: record_id.expand)
qed

lemma operations_to_cbor_inject:
  assumes "operations_to_cbor b ops = Inr cs" and "operations_to_cbor d ops' = Inr cs"
    and "within_budget b" and "within_budget d"
    and "list_all typed_operation ops" and "list_all typed_operation ops'"
  shows "ops = ops'"
  using assms
proof (induction ops arbitrary: b d ops' cs)
  case Nil
  then show ?case by (cases ops') (auto simp: rbind_Inr)
next
  case (Cons op ops)
  from Cons.prems(1) obtain b1 c cs1 where c: "cs = c # cs1" "operation_to_cbor b op = Inr (b1, c)"
    "operations_to_cbor b1 ops = Inr cs1" by (auto simp: rbind_Inr)
  with Cons.prems(2) obtain d1 op' rest where d: "ops' = op' # rest" "operation_to_cbor d op' = Inr (d1, c)"
    "operations_to_cbor d1 rest = Inr cs1" by (cases ops') (auto simp: rbind_Inr)
  have "op = op'" using operation_to_cbor_inject [OF c(2) d(2)] Cons.prems(3-6) d(1) by simp
  moreover have "within_budget b1" "within_budget d1"
    using operation_to_cbor_budget [OF c(2)] operation_to_cbor_budget [OF d(2)] Cons.prems(3,4) by simp_all
  then have "ops = rest" using Cons.IH [OF c(3) d(3)] Cons.prems(5,6) d(1) by simp
  ultimately show ?case using d(1) by simp
qed

lemma uint_u64_range: "- (2 ^ 64) \<le> uint (x :: u64)" "uint (x :: u64) < 2 ^ 64"
proof -
  have "uint x < 2 ^ LENGTH(64)" by (rule unsigned_less)
  then show "uint x < 2 ^ 64" by simp
  have "0 \<le> uint x" by simp
  then show "- (2 ^ 64) \<le> uint x" by (rule order.trans [rotated]) simp
qed

lemma base_version_representable: "representable (base_version_to_cbor x) \<and> cbor_depth (base_version_to_cbor x) \<le> 1"
  using uint_u64_range by (cases x) (auto simp: cbor_depth.simps)

lemma operation_to_cbor_representable:
  assumes "operation_to_cbor b op = Inr (b', c)" and "within_budget b" and "typed_operation op"
  shows "representable c \<and> cbor_depth c \<le> 100"
proof (cases op)
  case (Upsert r base v ref)
  from operation_to_cbor_Upsert [OF assms(1) [unfolded Upsert] assms(2)] obtain x where
    x: "to_cbor v = Inr x" "validated v 0" "len (record_str r) \<le> max_string_bytes"
      "\<And>q. ref = Some q \<Longrightarrow> len (record_str q) \<le> max_string_bytes"
      "c = CArray [CInteger 0, CText (record_str r), base_version_to_cbor base, x, optional_record_id_to_cbor ref]"
    by blast
  have "representable x \<and> cbor_depth x \<le> 66"
    using to_cbor_representable [OF x(1) _ x(2)] assms(3) Upsert by (simp add: max_depth_def)
  moreover have "representable (optional_record_id_to_cbor ref) \<and> cbor_depth (optional_record_id_to_cbor ref) = 0"
    using x(4) assms(3) Upsert max_usize_lt by (cases ref) auto
  ultimately show ?thesis
    using x(3,5) assms(3) Upsert max_usize_lt base_version_representable [of base]
    by (auto simp: cbor_depth.simps)
next
  case (Delete r base)
  then show ?thesis
    using assms uint_u64_range [of base] max_usize_lt
    by (auto simp: rbind_Inr validate_identifier_Inr cbor_depth.simps)
qed

lemma operations_to_cbor_representable:
  assumes "operations_to_cbor b ops = Inr cs" and "within_budget b" and "list_all typed_operation ops"
  shows "(\<forall>c \<in> set cs. representable c \<and> cbor_depth c \<le> 100) \<and> length cs = length ops"
  using assms
proof (induction ops arbitrary: b cs)
  case (Cons op ops)
  from Cons.prems(1) obtain b1 c cs1 where c: "cs = c # cs1" "operation_to_cbor b op = Inr (b1, c)"
    "operations_to_cbor b1 ops = Inr cs1" by (auto simp: rbind_Inr)
  show ?case
    using Cons.IH [OF c(3)] operation_to_cbor_budget [OF c(2)] operation_to_cbor_representable [OF c(2)]
      Cons.prems(2,3) c(1) by auto
qed simp

text \<open>The envelope of a commit, once every bound is checked.\<close>

lemma fingerprint_preimage_Inr:
  assumes "fingerprint_preimage ser p c cid ops = Inr bytes"
  shows "\<exists>b cs. within_budget b \<and> operations_to_cbor b ops = Inr cs \<and> len ops \<le> max_container_items
    \<and> len (partition_str p) \<le> max_string_bytes \<and> len (client_str c) \<le> max_string_bytes
    \<and> len (commit_str cid) \<le> max_string_bytes
    \<and> encode_cbor_value ser (CArray [CText fingerprint_domain, CText v1_name,
        CText (partition_str p), CText (client_str c), CText (commit_str cid), CArray cs]) = Inr bytes"
proof -
  from assms obtain b where b: "within_budget b"
    "rbind (operations_to_cbor b ops) (\<lambda>cs.
      encode_cbor_value ser (CArray [CText fingerprint_domain, CText v1_name,
        CText (partition_str p), CText (client_str c), CText (commit_str cid), CArray cs])) = Inr bytes"
    unfolding fingerprint_preimage_def
    by (auto simp: rbind_Inr dest!: take_bytes_budget split: if_splits)
  moreover have "len ops \<le> max_container_items \<and> len (partition_str p) \<le> max_string_bytes
      \<and> len (client_str c) \<le> max_string_bytes \<and> len (commit_str cid) \<le> max_string_bytes"
    using assms by (auto simp: fingerprint_preimage_def rbind_Inr validate_identifier_Inr split: if_splits)
  moreover from b(2) obtain cs where "operations_to_cbor b ops = Inr cs"
      "encode_cbor_value ser (CArray [CText fingerprint_domain, CText v1_name,
        CText (partition_str p), CText (client_str c), CText (commit_str cid), CArray cs]) = Inr bytes"
    by (auto simp: rbind_Inr)
  ultimately show ?thesis by blast
qed

abbreviation typed_commit :: "partition_id \<Rightarrow> client_id \<Rightarrow> client_commit_id \<Rightarrow> canonical_value operation list \<Rightarrow> bool" where
  "typed_commit p c cid ops \<equiv> utf8 (partition_str p) \<and> utf8 (client_str c) \<and> utf8 (commit_str cid)
     \<and> list_all typed_operation ops"

context cbor_library
begin

lemma preimage_decodes:
  assumes "fingerprint_preimage ser p c cid ops = Inr bytes" and "typed_commit p c cid ops"
  shows "\<exists>b cs. within_budget b \<and> operations_to_cbor b ops = Inr cs
    \<and> de bytes = Some (CArray [CText fingerprint_domain, CText v1_name,
        CText (partition_str p), CText (client_str c), CText (commit_str cid), CArray cs], length bytes)"
proof -
  from fingerprint_preimage_Inr [OF assms(1)] obtain b cs where b: "within_budget b"
    "operations_to_cbor b ops = Inr cs" "len ops \<le> max_container_items"
    and ids: "len (partition_str p) \<le> max_string_bytes" "len (client_str c) \<le> max_string_bytes"
      "len (commit_str cid) \<le> max_string_bytes"
    and enc: "encode_cbor_value ser (CArray [CText fingerprint_domain, CText v1_name,
        CText (partition_str p), CText (client_str c), CText (commit_str cid), CArray cs]) = Inr bytes"
    by blast
  have cs: "\<forall>x \<in> set cs. representable x \<and> cbor_depth x \<le> 100" "length cs = length ops"
    using operations_to_cbor_representable [OF b(2,1)] assms(2) by simp_all
  have "utf8 fingerprint_domain" "utf8 v1_name" by code_simp+
  moreover have "len fingerprint_domain < 2 ^ 64" "len v1_name < 2 ^ 64" by code_simp+
  ultimately have "representable (CArray [CText fingerprint_domain, CText v1_name,
        CText (partition_str p), CText (client_str c), CText (commit_str cid), CArray cs])"
    using cs b(3) ids assms(2) max_usize_lt by simp
  moreover have "cbor_depth (CArray cs) \<le> Suc 100" using cs(1) unfolding cbor_depth_le(1) by blast
  then have "cbor_depth (CArray cs) \<le> 127" by (rule order.trans) simp
  then have "cbor_depth (CArray [CText fingerprint_domain, CText v1_name,
        CText (partition_str p), CText (client_str c), CText (commit_str cid), CArray cs]) \<le> Suc 127"
    unfolding cbor_depth_le(1) by simp
  ultimately have "de bytes = Some (CArray [CText fingerprint_domain, CText v1_name,
        CText (partition_str p), CText (client_str c), CText (commit_str cid), CArray cs], length bytes)"
    by (intro decode_written [OF enc]) simp_all
  then show ?thesis using b(1,2) by blast
qed

lemma preimage_inject:
  assumes "fingerprint_preimage ser p c cid ops = Inr bytes" and "typed_commit p c cid ops"
    and "fingerprint_preimage ser p' c' cid' ops' = Inr bytes" and "typed_commit p' c' cid' ops'"
  shows "p = p' \<and> c = c' \<and> cid = cid' \<and> ops = ops'"
proof -
  from preimage_decodes [OF assms(1,2)] preimage_decodes [OF assms(3,4)] obtain b cs b' where
    "within_budget b" "within_budget b'" "operations_to_cbor b ops = Inr cs" "operations_to_cbor b' ops' = Inr cs"
    and "partition_str p = partition_str p'" "client_str c = client_str c'" "commit_str cid = commit_str cid'"
    by auto
  then show ?thesis
    using operations_to_cbor_inject [of b ops cs b' ops'] assms(2,4)
    by (auto intro: partition_id.expand client_id.expand client_commit_id.expand)
qed

end

lemma hex_digit_inject: "m < 16 \<Longrightarrow> n < 16 \<Longrightarrow> hex_digit m = hex_digit n \<longleftrightarrow> m = n"
  by (auto simp: hex_digit_def char_of_eq_iff take_bit_eq_mod split: if_splits)

lemma byte_lt: "unat (x :: byte) < 256"
proof -
  have "unat x < 2 ^ LENGTH(8)" by (rule unsigned_less)
  then show ?thesis by simp
qed

lemma hex_byte_inject: "hex_byte x = hex_byte y \<longleftrightarrow> x = y"
proof
  assume "hex_byte x = hex_byte y"
  then have "unat x div 16 = unat y div 16" "unat x mod 16 = unat y mod 16"
    using byte_lt [of x] byte_lt [of y] by (auto simp: hex_byte_def hex_digit_inject)
  then have "unat x = unat y" by (metis div_mult_mod_eq)
  then show "x = y" by (simp add: word_unat_eq_iff)
qed simp

lemma hex_bytes_inject: "concat (map hex_byte xs) = concat (map hex_byte ys) \<Longrightarrow> xs = ys"
proof (induction xs arbitrary: ys)
  case Nil
  then show ?case by (cases ys) (simp_all add: hex_byte_def)
next
  case (Cons x xs)
  then obtain y ys' where ys: "ys = y # ys'" by (cases ys) (simp_all add: hex_byte_def)
  have "length (hex_byte x) = length (hex_byte y)" by (simp add: hex_byte_def)
  with Cons.prems ys have "hex_byte x = hex_byte y" "concat (map hex_byte xs) = concat (map hex_byte ys')" by auto
  then show ?case using Cons.IH ys by (simp add: hex_byte_inject)
qed

lemma fingerprint_commit_Inr:
  "fingerprint_commit ser sha256 p c cid ops = Inr fp \<longleftrightarrow>
     (\<exists>bytes. fingerprint_preimage ser p c cid ops = Inr bytes
        \<and> fp = Fingerprint (''sha256:'' @ concat (map hex_byte (sha256 bytes))))"
  by (auto simp: fingerprint_commit_def rbind_Inr)

end
