(* ===== verification/Reference_Cbor.thy ===== *)
theory Reference_Cbor
  imports Canonical_Codec
begin

text \<open>
  A CBOR codec after RFC 8949, as a concrete instance of the interface the canonical codec
  relies on: shortest heads, floats in eight bytes, definite lengths.  It meets the law of
  \<open>cbor_library\<close>, and the codec's properties are applied to it at concrete inputs.
\<close>

section \<open>Big-endian integers\<close>

primrec be_bytes :: "nat \<Rightarrow> int \<Rightarrow> byte list" where
  "be_bytes 0 n = []"
| "be_bytes (Suc k) n = word_of_int (n div 256 ^ k) # be_bytes k (n mod 256 ^ k)"

definition be_val :: "byte list \<Rightarrow> int" where
  "be_val bs = foldl (\<lambda>a b. a * 256 + uint b) 0 bs"

lemma length_be_bytes [simp]: "length (be_bytes k n) = k"
  by (induction k arbitrary: n) simp_all

lemma uint_byte: "0 \<le> x \<Longrightarrow> x < 256 \<Longrightarrow> uint (word_of_int x :: byte) = x"
  by (simp add: uint_word_of_int)

lemma div_lt: "0 < p \<Longrightarrow> n < q * p \<Longrightarrow> (n :: int) div p < q"
  by (smt (verit) mult.commute mult_less_cancel_right_pos pos_mod_sign div_mult_mod_eq)

lemma be_val_be_bytes:
  assumes "0 \<le> n" and "n < 256 ^ k"
  shows "be_val (be_bytes k n) = n"
proof -
  have "foldl (\<lambda>a b. a * 256 + uint b) a (be_bytes k n) = a * 256 ^ k + n" for a
    using assms
  proof (induction k arbitrary: n a)
    case (Suc k)
    have "n div 256 ^ k < 256" using Suc.prems(2) by (intro div_lt) simp_all
    moreover have "0 \<le> n div 256 ^ k" using Suc.prems(1) by (simp add: pos_imp_zdiv_nonneg_iff)
    ultimately have top: "uint (word_of_int (n div 256 ^ k) :: byte) = n div 256 ^ k"
      by (intro uint_byte)
    have "a * 256 ^ Suc k + n = (a * 256 + n div 256 ^ k) * 256 ^ k + n mod 256 ^ k"
      using div_mult_mod_eq [of n "256 ^ k"] by (simp add: algebra_simps)
    then show ?case using Suc.IH [of "n mod 256 ^ k"] top by simp
  qed simp
  then show ?thesis by (simp add: be_val_def)
qed

section \<open>Heads\<close>

definition head :: "int \<Rightarrow> int \<Rightarrow> byte list" where
  "head major n =
     (if n < 24 then [word_of_int (32 * major + n)]
      else if n < 256 then word_of_int (32 * major + 24) # be_bytes 1 n
      else if n < 65536 then word_of_int (32 * major + 25) # be_bytes 2 n
      else if n < 4294967296 then word_of_int (32 * major + 26) # be_bytes 4 n
      else word_of_int (32 * major + 27) # be_bytes 8 n)"

definition head_width :: "int \<Rightarrow> nat option" where
  "head_width a = (if a = 24 then Some 1 else if a = 25 then Some 2 else if a = 26 then Some 4
     else if a = 27 then Some 8 else None)"

fun read_head :: "byte list \<Rightarrow> (int \<times> int \<times> int \<times> byte list) option" where
  "read_head [] = None"
| "read_head (b # bs) =
     (let major = uint b div 32; a = uint b mod 32 in
      if a < 24 then Some (major, a, a, bs)
      else case head_width a of
        None \<Rightarrow> None
      | Some k \<Rightarrow> if length bs < k then None
                  else Some (major, a, be_val (take k bs), drop k bs))"

lemma initial_byte:
  assumes "0 \<le> major" "major < 8" "0 \<le> a" "a < 32"
  shows "uint (word_of_int (32 * major + a) :: byte) div 32 = major"
    and "uint (word_of_int (32 * major + a) :: byte) mod 32 = a"
proof -
  have "uint (word_of_int (32 * major + a) :: byte) = 32 * major + a"
    using assms by (intro uint_byte) simp_all
  then show "uint (word_of_int (32 * major + a) :: byte) div 32 = major"
    "uint (word_of_int (32 * major + a) :: byte) mod 32 = a" using assms by simp_all
qed

lemma read_wide:
  assumes "0 \<le> major" "major < 8" and "head_width a = Some k" and "0 \<le> n" "n < 256 ^ k"
  shows "read_head (word_of_int (32 * major + a) # be_bytes k n @ rest) = Some (major, a, n, rest)"
proof -
  have a: "24 \<le> a" "a < 28" using assms(3) by (auto simp: head_width_def split: if_splits)
  show ?thesis
    using initial_byte [of major a] assms a be_val_be_bytes [of n k] by simp
qed

definition head_info :: "int \<Rightarrow> int" where
  "head_info n = (if n < 24 then n else if n < 256 then 24 else if n < 65536 then 25
     else if n < 4294967296 then 26 else 27)"

lemma read_head_head:
  assumes "0 \<le> major" "major < 8" "0 \<le> n" "n < 2 ^ 64"
  shows "read_head (head major n @ rest) = Some (major, head_info n, n, rest)"
proof -
  consider "n < 24" | "24 \<le> n" "n < 256" | "256 \<le> n" "n < 65536" | "65536 \<le> n" "n < 4294967296"
    | "4294967296 \<le> n" by linarith
  then show ?thesis
  proof cases
    case 1
    then show ?thesis
      using assms initial_byte [of major n] by (simp add: head_def head_info_def del: of_int_add of_int_mult)
  next
    case 2
    then show ?thesis using read_wide [of major 24 1 n rest] assms by (simp add: head_def head_info_def head_width_def)
  next
    case 3
    then show ?thesis using read_wide [of major 25 2 n rest] assms by (simp add: head_def head_info_def head_width_def)
  next
    case 4
    then show ?thesis using read_wide [of major 26 4 n rest] assms by (simp add: head_def head_info_def head_width_def)
  next
    case 5
    then show ?thesis using read_wide [of major 27 8 n rest] assms by (simp add: head_def head_info_def head_width_def)
  qed
qed

section \<open>Items\<close>

definition text_bytes :: "string \<Rightarrow> byte list" where
  "text_bytes s = map (\<lambda>ch. word_of_int (of_char ch)) s"

definition bytes_text :: "byte list \<Rightarrow> string" where
  "bytes_text bs = map (\<lambda>b. char_of (uint b)) bs"

lemma bytes_text_bytes [simp]: "bytes_text (text_bytes s) = s"
  by (simp add: bytes_text_def text_bytes_def comp_def uint_word_of_int)

lemma length_text_bytes [simp]: "length (text_bytes s) = length s"
  by (simp add: text_bytes_def)

primrec item_chunks :: "cbor \<Rightarrow> byte list list" where
  "item_chunks (CInteger n) = [if 0 \<le> n then head 0 n else head 1 (- 1 - n)]"
| "item_chunks (CBytes bs) = [head 2 (len bs), bs]"
| "item_chunks (CText s) = [head 3 (len s), text_bytes s]"
| "item_chunks (CArray cs) = head 4 (len cs) # concat (map item_chunks cs)"
| "item_chunks (CMap es) =
     head 5 (len es) # concat (map (\<lambda>(a, b). a @ b) (map (map_prod item_chunks item_chunks) es))"
| "item_chunks (CTag t c) = head 6 (uint t) # item_chunks c"
| "item_chunks (CBool b) = [[if b then 0xF5 else 0xF4]]"
| "item_chunks CNull = [[0xF6]]"
| "item_chunks (CFloat w) = [0xFB # be_bytes 8 (uint w)]"

type_synonym 'a item_parser = "byte list \<Rightarrow> ('a \<times> byte list) option"

primrec repeat_parse :: "nat \<Rightarrow> 'a item_parser \<Rightarrow> 'a list item_parser" where
  "repeat_parse 0 p bs = Some ([], bs)"
| "repeat_parse (Suc n) p bs =
     Option.bind (p bs) (\<lambda>(x, bs'). Option.bind (repeat_parse n p bs') (\<lambda>(xs, bs''). Some (x # xs, bs'')))"

definition pair_parse :: "'a item_parser \<Rightarrow> ('a \<times> 'a) item_parser" where
  "pair_parse p bs = Option.bind (p bs) (\<lambda>(x, bs'). Option.bind (p bs') (\<lambda>(y, bs''). Some ((x, y), bs'')))"

text \<open>The first argument bounds the nesting.\<close>

primrec read_item :: "nat \<Rightarrow> cbor item_parser" where
  "read_item 0 bs = None"
| "read_item (Suc k) bs = Option.bind (read_head bs) (\<lambda>(major, a, n, rest).
     if major = 0 then Some (CInteger n, rest)
     else if major = 1 then Some (CInteger (- 1 - n), rest)
     else if major = 2 then
       (if n > len rest then None else Some (CBytes (take (nat n) rest), drop (nat n) rest))
     else if major = 3 then
       (if n > len rest \<or> \<not> utf8 (bytes_text (take (nat n) rest)) then None
        else Some (CText (bytes_text (take (nat n) rest)), drop (nat n) rest))
     else if major = 4 then
       Option.bind (repeat_parse (nat n) (read_item k) rest) (\<lambda>(cs, rest). Some (CArray cs, rest))
     else if major = 5 then
       Option.bind (repeat_parse (nat n) (pair_parse (read_item k)) rest) (\<lambda>(es, rest). Some (CMap es, rest))
     else if major = 6 then
       Option.bind (read_item k rest) (\<lambda>(c, rest). Some (CTag (word_of_int n) c, rest))
     else if a = 20 then Some (CBool False, rest)
     else if a = 21 then Some (CBool True, rest)
     else if a = 22 then Some (CNull, rest)
     else if a = 27 then Some (CFloat (word_of_int n), rest)
     else None)"

definition rfc_ser :: serializer where
  "rfc_ser c = (item_chunks c, True)"

definition rfc_de :: deserializer where
  "rfc_de bs = Option.bind (read_item 129 bs) (\<lambda>(c, rest). Some (c, length bs - length rest))"

section \<open>The law\<close>

lemma repeat_parse_concat:
  assumes "\<And>x rest. x \<in> set xs \<Longrightarrow> p (f x @ rest) = Some (x, rest)"
  shows "repeat_parse (length xs) p (concat (map f xs) @ rest) = Some (xs, rest)"
  using assms by (induction xs) auto

lemma concat_item_chunks:
  "concat (concat (map item_chunks cs)) = concat (map (\<lambda>c. concat (item_chunks c)) cs)"
  by (induction cs) simp_all

lemma concat_pair_chunks:
  "concat (concat (map (\<lambda>(a, b). a @ b) (map (map_prod item_chunks item_chunks) es))) =
     concat (map (\<lambda>(a, b). concat (item_chunks a) @ concat (item_chunks b)) es)"
  by (induction es) auto

lemma read_item_chunks:
  assumes "representable c" and "cbor_depth c < k"
  shows "read_item k (concat (item_chunks c) @ rest) = Some (c, rest)"
  using assms
proof (induction c arbitrary: k rest)
  case (CInteger n)
  then obtain j where k: "k = Suc j" by (cases k) auto
  show ?case
  proof (cases "0 \<le> n")
    case True
    then show ?thesis using read_head_head [of 0 n rest] CInteger.prems(1) k by auto
  next
    case False
    then show ?thesis using read_head_head [of 1 "- 1 - n" rest] CInteger.prems(1) k by auto
  qed
next
  case (CBytes bs)
  then obtain j where k: "k = Suc j" by (cases k) auto
  show ?case using read_head_head [of 2 "len bs" "bs @ rest"] CBytes.prems(1) k by auto
next
  case (CText s)
  then obtain j where k: "k = Suc j" by (cases k) auto
  show ?case using read_head_head [of 3 "len s" "text_bytes s @ rest"] CText.prems(1) k by auto
next
  case (CFloat w)
  then obtain j where k: "k = Suc j" by (cases k) auto
  have "uint w < 256 ^ 8" using uint_u64_range(2) [of w] by simp
  then have "read_head (0xFB # be_bytes 8 (uint w) @ rest) = Some (7, 27, uint w, rest)"
    using read_wide [of 7 27 8 "uint w" rest] by (simp add: head_width_def)
  then show ?case using k by simp
next
  case (CTag t c)
  then obtain j where k: "k = Suc j" by (cases k) auto
  have "read_head (head 6 (uint t) @ x) = Some (6, head_info (uint t), uint t, x)" for x
    using read_head_head [of 6 "uint t"] uint_u64_range(2) [of t] by simp
  then show ?case using CTag.IH [of j rest] CTag.prems k by simp
next
  case (CArray cs)
  then obtain j where k: "k = Suc j" by (cases k) auto
  have "repeat_parse (length cs) (read_item j) (concat (map (\<lambda>c. concat (item_chunks c)) cs) @ rest) = Some (cs, rest)"
  proof (rule repeat_parse_concat)
    fix c r assume "c \<in> set cs"
    moreover from this have "cbor_depth c < j"
      using CArray.prems(2) cbor_depth_le(1) [of cs "j - 1"] k by (cases j) (auto simp: cbor_depth.simps less_Suc_eq_le)
    ultimately show "read_item j (concat (item_chunks c) @ r) = Some (c, r)"
      using CArray.IH CArray.prems(1) by simp
  qed
  moreover have "read_head (head 4 (len cs) @ x) = Some (4, head_info (len cs), len cs, x)" for x
    using read_head_head [of 4 "len cs"] CArray.prems(1) by simp
  ultimately show ?case using k by (simp add: concat_item_chunks)
next
  case (CMap es)
  then obtain j where k: "k = Suc j" by (cases k) auto
  have "repeat_parse (length es) (pair_parse (read_item j))
      (concat (map (\<lambda>(a, b). concat (item_chunks a) @ concat (item_chunks b)) es) @ rest) = Some (es, rest)"
  proof (rule repeat_parse_concat)
    fix e r assume e: "e \<in> set es"
    obtain a b where ab: "e = (a, b)" by force
    have "cbor_depth a < j" "cbor_depth b < j"
      using CMap.prems(2) cbor_depth_le(2) [of es "j - 1"] k e ab
      by (cases j; auto simp: cbor_depth.simps less_Suc_eq_le)+
    moreover have "representable a" "representable b" using CMap.prems(1) e ab by auto
    ultimately have "read_item j (concat (item_chunks a) @ x) = Some (a, x)"
      "read_item j (concat (item_chunks b) @ x) = Some (b, x)" for x
      using CMap.IH(1) [OF e, of a j x] CMap.IH(2) [OF e, of b j x] ab by simp_all
    then show "pair_parse (read_item j)
        ((case e of (a, b) \<Rightarrow> concat (item_chunks a) @ concat (item_chunks b)) @ r) = Some (e, r)"
      unfolding ab by (simp add: pair_parse_def)
  qed
  moreover have "read_head (head 5 (len es) @ x) = Some (5, head_info (len es), len es, x)" for x
    using read_head_head [of 5 "len es"] CMap.prems(1) by simp
  ultimately show ?case using k by (simp add: concat_pair_chunks [unfolded map_map])
next
  case (CBool b)
  then obtain j where k: "k = Suc j" by (cases k) auto
  then show ?case by (cases b) simp_all
next
  case CNull
  then obtain j where k: "k = Suc j" by (cases k) auto
  then show ?case by simp
qed

interpretation rfc: cbor_library rfc_ser rfc_de
proof
  fix c chunks
  assume c: "representable c" "cbor_depth c \<le> 128" and ser: "rfc_ser c = (chunks, True)"
  have "read_item 129 (concat chunks @ []) = Some (c, [])"
    using read_item_chunks [of c 129 "[]"] c ser by (simp only: rfc_ser_def prod.inject)
  then show "rfc_de (concat chunks) = Some (c, length (concat chunks))"
    by (simp add: rfc_de_def del: read_item.simps)
qed

end
