(* ===== verification/Codec_Properties.thy ===== *)
theory Codec_Properties
  imports Reference_Cbor
begin

text \<open>
  The properties of the canonical codec and of commit fingerprints, for every CBOR library
  that meets the law of \<open>cbor_library\<close>.  The witnesses apply them to the codec of
  \<open>Reference_Cbor\<close> and to a stand-in digest of four bytes.
\<close>

section \<open>Sample values\<close>

definition demo_value :: canonical_value where
  "demo_value = VObject (fmap_of_list
     [(''tags'', VArray [VNone, VNull, VBool True, VInt (- 300)]),
      (''id'', VRecordId ''person'' (VString ''tobie'')),
      (''score'', VFloat (CanonicalFloat 0x3FF8000000000000))])"

definition demo_bytes :: "byte list" where
  "demo_bytes = projr (canonical_cbor rfc_ser demo_value)"

lemma demo_bytes_ok: "canonical_cbor rfc_ser demo_value = Inr demo_bytes"
  by code_simp

lemma demo_value_typed: "well_typed demo_value"
  by code_simp

definition demo_digest :: "byte list \<Rightarrow> byte list" where
  "demo_digest bs = [fold (+) bs 0, of_nat (length bs), 0xAB, 0x0C]"

definition demo_operations :: "canonical_value operation list" where
  "demo_operations = [Upsert (RecordId ''person:1'') BaseAbsent (VInt 7) (Some (RecordId ''team:1'')),
     Delete (RecordId ''person:2'') 3]"

definition demo_preimage :: "byte list" where
  "demo_preimage = projr (fingerprint_preimage rfc_ser
     (PartitionId ''p'') (ClientId ''c'') (ClientCommitId ''c1'') demo_operations)"

lemma demo_preimage_ok:
  "fingerprint_preimage rfc_ser (PartitionId ''p'') (ClientId ''c'') (ClientCommitId ''c1'')
     demo_operations = Inr demo_preimage"
  by code_simp

definition demo_fingerprint :: fingerprint where
  "demo_fingerprint = Fingerprint (''sha256:'' @ concat (map hex_byte (demo_digest demo_preimage)))"

lemma demo_fingerprint_ok:
  "fingerprint_commit rfc_ser demo_digest (PartitionId ''p'') (ClientId ''c'') (ClientCommitId ''c1'')
     demo_operations = Inr demo_fingerprint"
  by (simp add: fingerprint_commit_Inr demo_preimage_ok demo_fingerprint_def)

lemma demo_commit_typed:
  "typed_commit (PartitionId ''p'') (ClientId ''c'') (ClientCommitId ''c1'') demo_operations"
  by code_simp

section \<open>Properties\<close>

text \<open>
  C29: encoding and decoding are inverse to each other: for a value built by the program, a
  byte string decodes to it exactly when it is the value's canonical encoding.
\<close>

theorem canonical_roundtrip:
  assumes "cbor_library ser de" and "well_typed v"
  shows "decode_canonical_cbor ser de bytes = Inr v \<longleftrightarrow> canonical_cbor ser v = Inr bytes"
  using assms cbor_library.decode_canonical decode_canonical_Inr(1) by blast

theorem canonical_roundtrip_witness:
  "decode_canonical_cbor rfc_ser rfc_de demo_bytes = Inr demo_value \<and> take 1 demo_bytes = [0xA3]"
proof
  show "decode_canonical_cbor rfc_ser rfc_de demo_bytes = Inr demo_value"
    using canonical_roundtrip [OF rfc.cbor_library_axioms demo_value_typed, of demo_bytes] demo_bytes_ok by simp
  show "take 1 demo_bytes = [0xA3]" by code_simp
qed

text \<open>
  Whatever the library does, an accepted input is at most 4 MiB, passed the preflight,
  is the canonical encoding of its value, and no other accepted input has that value.
\<close>

theorem decode_rejects_noncanonical:
  assumes "decode_canonical_cbor ser de bytes = Inr v"
  shows "len bytes \<le> max_encoded_bytes \<and> preflight_canonical_cbor bytes = Inr () \<and> validate_value v = Inr ()
    \<and> (\<forall>other. decode_canonical_cbor ser de other = Inr v \<longrightarrow> other = bytes)"
  using decode_canonical_Inr [OF assms] decode_canonical_Inr(1) [of ser de _ v]
  by (auto simp: canonical_cbor_Inr)

theorem decode_rejects_noncanonical_witness:
  "preflight_canonical_cbor demo_bytes = Inr () \<and> decode_canonical_cbor rfc_ser rfc_de [0x18, 5] = Inl NonCanonical"
proof
  have "decode_canonical_cbor rfc_ser rfc_de demo_bytes = Inr demo_value" by code_simp
  from decode_rejects_noncanonical [OF this] show "preflight_canonical_cbor demo_bytes = Inr ()" by simp
  show "decode_canonical_cbor rfc_ser rfc_de [0x18, 5] = Inl NonCanonical" by code_simp
qed

text \<open>
  The preflight stays in bounds: an accepted input is one item that ends at the last
  byte, its nested items are at most 4096, and at least one byte pays for every one of them.
\<close>

theorem preflight_exact:
  assumes "preflight_canonical_cbor bytes = Inr ()"
  shows "\<exists>left. scan_cbor_item bytes 0 0 max_total_items = Inr (length bytes, left)
    \<and> 0 \<le> left \<and> left < max_total_items \<and> max_total_items - left \<le> len bytes"
  using assms by (rule preflight_bounds)

theorem preflight_exact_witness:
  "(\<exists>left. scan_cbor_item demo_bytes 0 0 max_total_items = Inr (length demo_bytes, left)
    \<and> 0 \<le> left \<and> left < max_total_items \<and> max_total_items - left \<le> len demo_bytes)
   \<and> preflight_canonical_cbor [0x82, 0x01] = Inl Decode"
proof
  have "preflight_canonical_cbor demo_bytes = Inr ()" by code_simp
  then show "\<exists>left. scan_cbor_item demo_bytes 0 0 max_total_items = Inr (length demo_bytes, left)
    \<and> 0 \<le> left \<and> left < max_total_items \<and> max_total_items - left \<le> len demo_bytes"
    by (rule preflight_exact)
  show "preflight_canonical_cbor [0x82, 0x01] = Inl Decode" by code_simp
qed

text \<open>
  C34: a fingerprint binds the whole commit.  Two commits with the same fingerprint have
  hashed byte strings with the same digest, and those byte strings are equal exactly when
  partition, client, commit id and ordered operations are all equal: the only way to share
  a fingerprint is a collision of the hash.
\<close>

theorem fingerprint_binds:
  assumes "cbor_library ser de"
    and "typed_commit p c cid ops" and "fingerprint_commit ser sha256 p c cid ops = Inr fp"
    and "typed_commit p' c' cid' ops'" and "fingerprint_commit ser sha256 p' c' cid' ops' = Inr fp"
  shows "\<exists>b b'. fingerprint_preimage ser p c cid ops = Inr b \<and> fingerprint_preimage ser p' c' cid' ops' = Inr b'
    \<and> sha256 b = sha256 b' \<and> (b = b' \<longleftrightarrow> p = p' \<and> c = c' \<and> cid = cid' \<and> ops = ops')"
proof -
  from assms(3,5) obtain b b' where b: "fingerprint_preimage ser p c cid ops = Inr b"
    "fingerprint_preimage ser p' c' cid' ops' = Inr b'"
    and "concat (map hex_byte (sha256 b)) = concat (map hex_byte (sha256 b'))"
    by (auto simp: fingerprint_commit_Inr)
  then have "sha256 b = sha256 b'" by (intro hex_bytes_inject)
  moreover have "b = b' \<longleftrightarrow> p = p' \<and> c = c' \<and> cid = cid' \<and> ops = ops'"
    using cbor_library.preimage_inject [OF assms(1) b(1) assms(2) _ assms(4)] b by auto
  ultimately show ?thesis using b by blast
qed

theorem fingerprint_binds_witness:
  "\<exists>b. fingerprint_preimage rfc_ser (PartitionId ''p'') (ClientId ''c'') (ClientCommitId ''c1'') demo_operations = Inr b
     \<and> demo_digest b = demo_digest demo_preimage \<and> b = demo_preimage"
  using fingerprint_binds [OF rfc.cbor_library_axioms demo_commit_typed demo_fingerprint_ok
      demo_commit_typed demo_fingerprint_ok] demo_preimage_ok
  by auto

end
