(* ===== verification/Http_Codec.thy ===== *)
theory Http_Codec
  imports Canonical_Value
begin

text \<open>
  The bounded CBOR envelopes of the HTTP boundary
  (\<open>crates/surrealdb-sync-protocol/src/http_codec.rs\<close>): push and pull requests and
  responses.  The \<open>Encoder\<close> of the source is its pair of remaining items and bytes; its
  methods take the pair and return it with the data item they built.  Elements of a
  \<open>vec!\<close> literal are evaluated from left to right, so the budget is threaded that way.
\<close>

definition max_identity_bytes :: usize where "max_identity_bytes = 1024"
definition max_checkpoint_bytes :: usize where "max_checkpoint_bytes = 4096"

definition schema_v1 :: u64 where "schema_v1 = 0"
definition push_request_kind :: u64 where "push_request_kind = 0"
definition push_response_kind :: u64 where "push_response_kind = 1"
definition pull_request_kind :: u64 where "pull_request_kind = 2"
definition pull_response_kind :: u64 where "pull_response_kind = 3"

section \<open>Shared readers and writers of items\<close>

definition integer :: "u64 \<Rightarrow> cbor" where
  "integer n = CInteger (uint n)"

definition array_vec :: "cbor \<Rightarrow> codec_error + cbor list" where
  "array_vec value =
     (case value of
        CArray cs \<Rightarrow> if len cs > max_container_items then Inl ContainerLimit else Inr cs
      | _ \<Rightarrow> Inl InvalidEnvelope)"

text \<open>\<open>array::<N>\<close> checks the exact length; the callers then match its \<open>N\<close> elements.\<close>

definition array_n :: "nat \<Rightarrow> cbor \<Rightarrow> codec_error + cbor list" where
  "array_n n value =
     (case value of
        CArray cs \<Rightarrow> if length cs = n then Inr cs else Inl InvalidEnvelope
      | _ \<Rightarrow> Inl InvalidEnvelope)"

definition vec_decode :: "cbor \<Rightarrow> (cbor \<Rightarrow> codec_error + 'a) \<Rightarrow> codec_error + 'a list" where
  "vec_decode value decode = rbind (array_vec value) (try_map decode)"

definition unsigned_item :: "cbor \<Rightarrow> codec_error + u64" where
  "unsigned_item value =
     (case value of
        CInteger n \<Rightarrow> if 0 \<le> n \<and> n < 2 ^ 64 then Inr (word_of_int n) else Inl InvalidEnvelope
      | _ \<Rightarrow> Inl InvalidEnvelope)"

definition text_item :: "cbor \<Rightarrow> codec_error + string" where
  "text_item value = (case value of CText s \<Rightarrow> Inr s | _ \<Rightarrow> Inl InvalidEnvelope)"

definition identity_item :: "cbor \<Rightarrow> codec_error + string" where
  "identity_item value = rbind (text_item value) (\<lambda>value.
     if value = [] \<or> len value > max_identity_bytes then Inl InvalidIdentifier else Inr value)"

definition checkpoint_text_item :: "cbor \<Rightarrow> codec_error + string" where
  "checkpoint_text_item value = rbind (text_item value) (\<lambda>value.
     if value = [] \<or> len value > max_checkpoint_bytes then Inl InvalidIdentifier else Inr value)"

definition fingerprint_prefix :: string where
  "fingerprint_prefix = ''sha256:''"

definition is_lower_hex :: "char \<Rightarrow> bool" where
  "is_lower_hex ch = (let n = of_char ch :: int in (48 \<le> n \<and> n \<le> 57) \<or> (97 \<le> n \<and> n \<le> 102))"

definition strip_prefix :: "string \<Rightarrow> string \<Rightarrow> string option" where
  "strip_prefix pre s = (if take (length pre) s = pre then Some (drop (length pre) s) else None)"

definition validate_fingerprint :: "string \<Rightarrow> codec_error + unit" where
  "validate_fingerprint value =
     (case strip_prefix fingerprint_prefix value of
        None \<Rightarrow> Inl InvalidFingerprint
      | Some hex \<Rightarrow>
          if len hex \<noteq> 64 \<or> \<not> list_all is_lower_hex hex then Inl InvalidFingerprint else Inr ())"

definition fingerprint_text_item :: "cbor \<Rightarrow> codec_error + string" where
  "fingerprint_text_item value = rbind (text_item value) (\<lambda>value.
     rbind (validate_fingerprint value) (\<lambda>_. Inr value))"

fun ensure_v1 :: "schema_version \<Rightarrow> codec_error + unit" where
  "ensure_v1 V1 = Inr ()"

fun encode_base_version :: "base_version \<Rightarrow> cbor" where
  "encode_base_version BaseAbsent = CArray [integer 0]"
| "encode_base_version (BaseExact n) = CArray [integer 1, integer n]"

definition decode_base_version :: "cbor \<Rightarrow> codec_error + base_version" where
  "decode_base_version value = rbind (array_vec value) (\<lambda>values.
     case values of
       [kind] \<Rightarrow> rbind (unsigned_item kind) (\<lambda>k.
         if k = 0 then Inr BaseAbsent else Inl InvalidEnvelope)
     | [kind, version] \<Rightarrow> rbind (unsigned_item kind) (\<lambda>k.
         if k = 1 then rbind (unsigned_item version) (\<lambda>n. Inr (BaseExact n)) else Inl InvalidEnvelope)
     | _ \<Rightarrow> Inl InvalidEnvelope)"

definition decode_optional_record_id :: "cbor \<Rightarrow> codec_error + record_id option" where
  "decode_optional_record_id value =
     (if value = CNull then Inr None
      else rbind (identity_item value) (\<lambda>s. Inr (Some (RecordId s))))"

definition decode_optional_checkpoint :: "cbor \<Rightarrow> codec_error + opaque_checkpoint option" where
  "decode_optional_checkpoint value =
     (if value = CNull then Inr None
      else rbind (checkpoint_text_item value) (\<lambda>s. Inr (Some (OpaqueCheckpoint s))))"

definition decode_identity :: "cbor \<Rightarrow> codec_error + commit_identity" where
  "decode_identity value = rbind (array_n 2 value) (\<lambda>values.
     rbind (identity_item (values ! 0)) (\<lambda>cid.
     rbind (fingerprint_text_item (values ! 1)) (\<lambda>fp.
     Inr \<lparr>client_commit_id = ClientCommitId cid, fingerprint = Fingerprint fp\<rparr>)))"

definition decode_checkpoint :: "cbor \<Rightarrow> codec_error + checkpoint" where
  "decode_checkpoint value = rbind (array_n 3 value) (\<lambda>values.
     rbind (array_n 2 (values ! 1)) (\<lambda>position.
     rbind (array_n 3 (values ! 2)) (\<lambda>scoped.
     rbind (checkpoint_text_item (values ! 0)) (\<lambda>t.
     rbind (unsigned_item (position ! 0)) (\<lambda>e.
     rbind (unsigned_item (position ! 1)) (\<lambda>s.
     rbind (identity_item (scoped ! 0)) (\<lambda>sid.
     rbind (unsigned_item (scoped ! 1)) (\<lambda>ar.
     rbind (unsigned_item (scoped ! 2)) (\<lambda>sr.
     Inr \<lparr>token = OpaqueCheckpoint t, cursor = \<lparr>epoch = e, sequence = s\<rparr>,
          scope = \<lparr>scope_id = ScopeIdentity sid, authorization_revision = ar,
                   scope_subscription_revision = sr\<rparr>\<rparr>)))))))))"

fun reject_reason_code :: "reject_reason \<Rightarrow> u64" where
  "reject_reason_code InvalidOperation = 0"
| "reject_reason_code CommitIdentityMismatch = 1"
| "reject_reason_code Unauthorized = 2"
| "reject_reason_code UnsupportedSchemaVersion = 3"

definition decode_reject_reason :: "u64 \<Rightarrow> codec_error + reject_reason" where
  "decode_reject_reason n =
     (if n = 0 then Inr InvalidOperation else if n = 1 then Inr CommitIdentityMismatch
      else if n = 2 then Inr Unauthorized else if n = 3 then Inr UnsupportedSchemaVersion
      else Inl InvalidEnvelope)"

fun reset_reason_code :: "reset_reason \<Rightarrow> u64" where
  "reset_reason_code CheckpointExpired = 0"
| "reset_reason_code EpochChanged = 1"
| "reset_reason_code AuthorizationChanged = 2"
| "reset_reason_code SubscriptionChanged = 3"
| "reset_reason_code ScopeChanged = 4"
| "reset_reason_code ExternalWriteQuarantined = 5"

definition decode_reset_reason :: "u64 \<Rightarrow> codec_error + reset_reason" where
  "decode_reset_reason n =
     (if n = 0 then Inr CheckpointExpired else if n = 1 then Inr EpochChanged
      else if n = 2 then Inr AuthorizationChanged else if n = 3 then Inr SubscriptionChanged
      else if n = 4 then Inr ScopeChanged else if n = 5 then Inr ExternalWriteQuarantined
      else Inl InvalidEnvelope)"

section \<open>The encoder\<close>

type_synonym 'a encoder = "budget \<Rightarrow> codec_error + budget \<times> 'a"

definition emit :: "'a \<Rightarrow> 'a encoder" where
  "emit x b = Inr (b, x)"

definition ebind :: "'a encoder \<Rightarrow> ('a \<Rightarrow> 'b encoder) \<Rightarrow> 'b encoder" where
  "ebind m f b = rbind (m b) (\<lambda>(b', x). f x b')"

text \<open>\<open>Encoder::item\<close> before the rest.\<close>

definition item :: "usize \<Rightarrow> 'a encoder \<Rightarrow> 'a encoder" where
  "item n m b = rbind (take_items n b) m"

definition vec :: "usize \<Rightarrow> 'a encoder \<Rightarrow> 'a encoder" where
  "vec n m b = (if n > max_container_items then Inl ContainerLimit else item (n + 1) m b)"

primrec each :: "('a \<Rightarrow> 'b encoder) \<Rightarrow> 'a list \<Rightarrow> 'b list encoder" where
  "each f [] = emit []"
| "each f (x # xs) = ebind (f x) (\<lambda>y. ebind (each f xs) (\<lambda>ys. emit (y # ys)))"

text \<open>An array literal: its elements in order.\<close>

definition array_of :: "cbor encoder list \<Rightarrow> cbor encoder" where
  "array_of ms = ebind (each (\<lambda>m. m) ms) (\<lambda>cs. emit (CArray cs))"

definition bounded_text :: "usize \<Rightarrow> string \<Rightarrow> cbor encoder" where
  "bounded_text bound value b =
     (if value = [] \<or> len value > bound then Inl InvalidIdentifier
      else rbind (take_bytes (len value) b) (item 1 (emit (CText value))))"

definition enc_identity_text :: "string \<Rightarrow> cbor encoder" where
  "enc_identity_text = bounded_text max_identity_bytes"

definition enc_checkpoint_text :: "string \<Rightarrow> cbor encoder" where
  "enc_checkpoint_text = bounded_text max_checkpoint_bytes"

definition enc_fingerprint :: "fingerprint \<Rightarrow> cbor encoder" where
  "enc_fingerprint fp b =
     rbind (validate_fingerprint (fingerprint_str fp)) (\<lambda>_.
     rbind (take_bytes (len (fingerprint_str fp)) b) (item 1 (emit (CText (fingerprint_str fp)))))"

definition enc_canonical_value :: "canonical_value \<Rightarrow> cbor encoder" where
  "enc_canonical_value value b =
     rbind (validate_with_budget value 0 b) (\<lambda>b. rbind (to_cbor value) (\<lambda>c. Inr (b, c)))"

definition enc_optional_record_id :: "record_id option \<Rightarrow> cbor encoder" where
  "enc_optional_record_id value =
     (case value of
        Some r \<Rightarrow> enc_identity_text (record_str r)
      | None \<Rightarrow> item 1 (emit CNull))"

fun enc_operation :: "canonical_value operation \<Rightarrow> cbor encoder" where
  "enc_operation (Upsert r base value reference) =
     item 6 (array_of [emit (integer 0), enc_identity_text (record_str r), emit (encode_base_version base),
       enc_canonical_value value, enc_optional_record_id reference])"
| "enc_operation (Delete r base) =
     item 4 (array_of [emit (integer 1), enc_identity_text (record_str r), emit (integer base)])"

definition enc_commit :: "canonical_value client_commit \<Rightarrow> cbor encoder" where
  "enc_commit commit =
     item 4 (vec (len (operations commit))
       (ebind (each enc_operation (operations commit)) (\<lambda>ops.
         array_of [enc_identity_text (commit_str (client_commit_id (identity commit))),
           enc_fingerprint (fingerprint (identity commit)), emit (CArray ops)])))"

definition enc_push_request :: "canonical_value push_request \<Rightarrow> cbor encoder" where
  "enc_push_request request b =
     rbind (ensure_v1 (pq_schema_version request)) (\<lambda>_.
     item 5 (array_of [enc_identity_text (partition_str (pq_partition_id request)),
       enc_identity_text (client_str (pq_client_id request)), enc_commit (pq_commit request)]) b)"

definition enc_identity :: "commit_identity \<Rightarrow> cbor encoder" where
  "enc_identity i =
     item 3 (array_of [enc_identity_text (commit_str (client_commit_id i)), enc_fingerprint (fingerprint i)])"

fun enc_record_state :: "canonical_value record_state \<Rightarrow> cbor encoder" where
  "enc_record_state Absent = item 2 (emit (CArray [integer 0]))"
| "enc_record_state (Present value version reference) =
     item 5 (array_of [emit (integer 1), enc_canonical_value value, emit (integer version),
       enc_optional_record_id reference])"
| "enc_record_state (Tombstone version) = item 3 (emit (CArray [integer 2, integer version]))"

definition enc_id_mapping :: "id_mapping \<Rightarrow> cbor encoder" where
  "enc_id_mapping m =
     item 3 (array_of [enc_identity_text (record_str (local_id m)), enc_identity_text (record_str (canonical_id m))])"

fun enc_outcome :: "canonical_value durable_outcome \<Rightarrow> cbor encoder" where
  "enc_outcome (Accepted i n mappings) =
     item 5 (vec (len mappings) (ebind (each enc_id_mapping mappings) (\<lambda>ms.
       array_of [emit (integer 0), enc_identity i, emit (integer n), emit (CArray ms)])))"
| "enc_outcome (Conflict i r authoritative) =
     item 5 (array_of [emit (integer 1), enc_identity i, enc_identity_text (record_str r),
       enc_record_state authoritative])"
| "enc_outcome (Rejected i reason) =
     item 4 (array_of [emit (integer 2), enc_identity i, emit (integer (reject_reason_code reason))])"

definition enc_push_response :: "canonical_value push_response \<Rightarrow> cbor encoder" where
  "enc_push_response response b =
     rbind (ensure_v1 (ps_schema_version response)) (\<lambda>_.
     item 5 (array_of [enc_identity_text (partition_str (ps_partition_id response)),
       enc_identity_text (client_str (ps_client_id response)), enc_outcome (ps_outcome response)]) b)"

definition enc_pull_request :: "pull_request \<Rightarrow> cbor encoder" where
  "enc_pull_request request b =
     rbind (ensure_v1 (pl_schema_version request)) (\<lambda>_.
     item 8 (ebind (case pl_checkpoint request of
                      Some t \<Rightarrow> enc_checkpoint_text (token_str t)
                    | None \<Rightarrow> emit CNull) (\<lambda>t.
       array_of [enc_identity_text (partition_str (pl_partition_id request)),
         enc_identity_text (client_str (pl_client_id request)), emit t,
         enc_identity_text (scope_str (pl_requested_scope request)),
         emit (integer (pl_subscription_revision request))])) b)"

definition enc_snapshot_record :: "canonical_value snapshot_record \<Rightarrow> cbor encoder" where
  "enc_snapshot_record r =
     item 3 (array_of [enc_identity_text (record_str (sr_record_id r)), enc_record_state (sr_state r)])"

definition enc_applied_record :: "canonical_value applied_record \<Rightarrow> cbor encoder" where
  "enc_applied_record r =
     item 3 (array_of [enc_identity_text (record_str (ar_record_id r)), enc_record_state (ar_state r)])"

definition enc_checkpoint :: "checkpoint \<Rightarrow> cbor encoder" where
  "enc_checkpoint cp =
     item 4 (array_of [enc_checkpoint_text (token_str (token cp)),
       emit (CArray [integer (epoch (cursor cp)), integer (sequence (cursor cp))]),
       array_of [enc_identity_text (scope_str (scope_id (scope cp))),
         emit (integer (authorization_revision (scope cp))),
         emit (integer (scope_subscription_revision (scope cp)))]])"

text \<open>The source identity of a commit is deliberately not written.\<close>

definition enc_pull_commit :: "canonical_value pull_commit \<Rightarrow> cbor encoder" where
  "enc_pull_commit commit =
     item 3 (vec (len (pc_records commit)) (ebind (each enc_applied_record (pc_records commit)) (\<lambda>rs.
       emit (CArray [integer (pc_sequence commit), CArray rs]))))"

fun enc_pull_frame :: "canonical_value pull_frame \<Rightarrow> cbor encoder" where
  "enc_pull_frame (Start cp) = item 3 (array_of [emit (integer 0), enc_checkpoint cp])"
| "enc_pull_frame (Commit t commit) =
     item 4 (array_of [emit (integer 1), enc_checkpoint_text (token_str t), enc_pull_commit commit])"
| "enc_pull_frame (End cp) = item 3 (array_of [emit (integer 2), enc_checkpoint cp])"

fun enc_pull_response :: "canonical_value pull_response \<Rightarrow> cbor encoder" where
  "enc_pull_response (Batch batch) =
     item 3 (vec (len (frames batch)) (ebind (each enc_pull_frame (frames batch)) (\<lambda>fs.
       emit (CArray [integer 0, CArray fs]))))"
| "enc_pull_response (Reset reset) =
     item 5 (vec (len (rs_records reset)) (ebind (each enc_snapshot_record (rs_records reset)) (\<lambda>rs.
       array_of [emit (integer 1), emit (integer (reset_reason_code (rs_reason reset))),
         enc_checkpoint (rs_checkpoint reset), emit (CArray rs)])))"

section \<open>The decoder\<close>

definition dec_operation :: "cbor \<Rightarrow> codec_error + canonical_value operation" where
  "dec_operation value = rbind (array_vec value) (\<lambda>values.
     if values = [] then Inl InvalidEnvelope
     else rbind (unsigned_item (values ! 0)) (\<lambda>kind.
       if kind = 0 \<and> length values = 5 then
         rbind (identity_item (values ! 1)) (\<lambda>r.
         rbind (decode_base_version (values ! 2)) (\<lambda>base.
         rbind (from_cbor (values ! 3)) (\<lambda>v.
         rbind (decode_optional_record_id (values ! 4)) (\<lambda>ref.
         Inr (Upsert (RecordId r) base v ref)))))
       else if kind = 1 \<and> length values = 3 then
         rbind (identity_item (values ! 1)) (\<lambda>r.
         rbind (unsigned_item (values ! 2)) (\<lambda>base.
         Inr (Delete (RecordId r) base)))
       else Inl InvalidEnvelope))"

definition dec_commit :: "cbor \<Rightarrow> codec_error + canonical_value client_commit" where
  "dec_commit value = rbind (array_n 3 value) (\<lambda>values.
     rbind (identity_item (values ! 0)) (\<lambda>cid.
     rbind (fingerprint_text_item (values ! 1)) (\<lambda>fp.
     rbind (vec_decode (values ! 2) dec_operation) (\<lambda>ops.
     Inr \<lparr>identity = \<lparr>client_commit_id = ClientCommitId cid, fingerprint = Fingerprint fp\<rparr>,
          operations = ops\<rparr>))))"

definition dec_push_request :: "cbor \<Rightarrow> codec_error + canonical_value push_request" where
  "dec_push_request value = rbind (array_n 3 value) (\<lambda>values.
     rbind (identity_item (values ! 0)) (\<lambda>p.
     rbind (identity_item (values ! 1)) (\<lambda>c.
     rbind (dec_commit (values ! 2)) (\<lambda>commit.
     Inr \<lparr>pq_schema_version = V1, pq_partition_id = PartitionId p, pq_client_id = ClientId c,
          pq_commit = commit\<rparr>))))"

definition dec_record_state :: "cbor \<Rightarrow> codec_error + canonical_value record_state" where
  "dec_record_state value = rbind (array_vec value) (\<lambda>values.
     if values = [] then Inl InvalidEnvelope
     else rbind (unsigned_item (values ! 0)) (\<lambda>kind.
       if kind = 0 \<and> length values = 1 then Inr Absent
       else if kind = 1 \<and> length values = 4 then
         rbind (from_cbor (values ! 1)) (\<lambda>v.
         rbind (unsigned_item (values ! 2)) (\<lambda>n.
         rbind (decode_optional_record_id (values ! 3)) (\<lambda>ref.
         Inr (Present v n ref))))
       else if kind = 2 \<and> length values = 2 then
         rbind (unsigned_item (values ! 1)) (\<lambda>n. Inr (Tombstone n))
       else Inl InvalidEnvelope))"

definition dec_id_mapping :: "cbor \<Rightarrow> codec_error + id_mapping" where
  "dec_id_mapping value = rbind (array_n 2 value) (\<lambda>values.
     rbind (identity_item (values ! 0)) (\<lambda>l.
     rbind (identity_item (values ! 1)) (\<lambda>c.
     Inr \<lparr>local_id = RecordId l, canonical_id = RecordId c\<rparr>)))"

definition dec_outcome :: "cbor \<Rightarrow> codec_error + canonical_value durable_outcome" where
  "dec_outcome value = rbind (array_vec value) (\<lambda>values.
     if values = [] then Inl InvalidEnvelope
     else rbind (unsigned_item (values ! 0)) (\<lambda>kind.
       if kind = 0 \<and> length values = 4 then
         rbind (decode_identity (values ! 1)) (\<lambda>i.
         rbind (unsigned_item (values ! 2)) (\<lambda>n.
         rbind (vec_decode (values ! 3) dec_id_mapping) (\<lambda>ms.
         Inr (Accepted i n ms))))
       else if kind = 1 \<and> length values = 4 then
         rbind (decode_identity (values ! 1)) (\<lambda>i.
         rbind (identity_item (values ! 2)) (\<lambda>r.
         rbind (dec_record_state (values ! 3)) (\<lambda>st.
         Inr (Conflict i (RecordId r) st))))
       else if kind = 2 \<and> length values = 3 then
         rbind (decode_identity (values ! 1)) (\<lambda>i.
         rbind (unsigned_item (values ! 2)) (\<lambda>n.
         rbind (decode_reject_reason n) (\<lambda>reason.
         Inr (Rejected i reason))))
       else Inl InvalidEnvelope))"

definition dec_push_response :: "cbor \<Rightarrow> codec_error + canonical_value push_response" where
  "dec_push_response value = rbind (array_n 3 value) (\<lambda>values.
     rbind (identity_item (values ! 0)) (\<lambda>p.
     rbind (identity_item (values ! 1)) (\<lambda>c.
     rbind (dec_outcome (values ! 2)) (\<lambda>outcome.
     Inr \<lparr>ps_schema_version = V1, ps_partition_id = PartitionId p, ps_client_id = ClientId c,
          ps_outcome = outcome\<rparr>))))"

definition dec_pull_request :: "cbor \<Rightarrow> codec_error + pull_request" where
  "dec_pull_request value = rbind (array_n 5 value) (\<lambda>values.
     rbind (identity_item (values ! 0)) (\<lambda>p.
     rbind (identity_item (values ! 1)) (\<lambda>c.
     rbind (decode_optional_checkpoint (values ! 2)) (\<lambda>t.
     rbind (identity_item (values ! 3)) (\<lambda>s.
     rbind (unsigned_item (values ! 4)) (\<lambda>n.
     Inr \<lparr>pl_schema_version = V1, pl_partition_id = PartitionId p, pl_client_id = ClientId c,
          pl_checkpoint = t, pl_requested_scope = ScopeIdentity s, pl_subscription_revision = n\<rparr>))))))"

definition dec_snapshot_record :: "cbor \<Rightarrow> codec_error + canonical_value snapshot_record" where
  "dec_snapshot_record value = rbind (array_n 2 value) (\<lambda>values.
     rbind (identity_item (values ! 0)) (\<lambda>r.
     rbind (dec_record_state (values ! 1)) (\<lambda>st.
     Inr \<lparr>sr_record_id = RecordId r, sr_state = st\<rparr>)))"

definition dec_applied_record :: "cbor \<Rightarrow> codec_error + canonical_value applied_record" where
  "dec_applied_record value = rbind (array_n 2 value) (\<lambda>values.
     rbind (identity_item (values ! 0)) (\<lambda>r.
     rbind (dec_record_state (values ! 1)) (\<lambda>st.
     Inr \<lparr>ar_record_id = RecordId r, ar_state = st\<rparr>)))"

definition dec_pull_commit :: "cbor \<Rightarrow> codec_error + canonical_value pull_commit" where
  "dec_pull_commit value = rbind (array_n 2 value) (\<lambda>values.
     rbind (unsigned_item (values ! 0)) (\<lambda>n.
     rbind (vec_decode (values ! 1) dec_applied_record) (\<lambda>rs.
     Inr \<lparr>pc_sequence = n, pc_source = None, pc_records = rs\<rparr>)))"

definition dec_pull_frame :: "cbor \<Rightarrow> codec_error + canonical_value pull_frame" where
  "dec_pull_frame value = rbind (array_vec value) (\<lambda>values.
     if values = [] then Inl InvalidEnvelope
     else rbind (unsigned_item (values ! 0)) (\<lambda>kind.
       if kind = 0 \<and> length values = 2 then
         rbind (decode_checkpoint (values ! 1)) (\<lambda>cp. Inr (Start cp))
       else if kind = 1 \<and> length values = 3 then
         rbind (checkpoint_text_item (values ! 1)) (\<lambda>t.
         rbind (dec_pull_commit (values ! 2)) (\<lambda>commit.
         Inr (Commit (OpaqueCheckpoint t) commit)))
       else if kind = 2 \<and> length values = 2 then
         rbind (decode_checkpoint (values ! 1)) (\<lambda>cp. Inr (End cp))
       else Inl InvalidEnvelope))"

definition dec_pull_response :: "cbor \<Rightarrow> codec_error + canonical_value pull_response" where
  "dec_pull_response value = rbind (array_vec value) (\<lambda>values.
     if values = [] then Inl InvalidEnvelope
     else rbind (unsigned_item (values ! 0)) (\<lambda>kind.
       if kind = 0 \<and> length values = 2 then
         rbind (vec_decode (values ! 1) dec_pull_frame) (\<lambda>fs. Inr (Batch \<lparr>frames = fs\<rparr>))
       else if kind = 1 \<and> length values = 4 then
         rbind (unsigned_item (values ! 1)) (\<lambda>n.
         rbind (decode_reset_reason n) (\<lambda>reason.
         rbind (decode_checkpoint (values ! 2)) (\<lambda>cp.
         rbind (vec_decode (values ! 3) dec_snapshot_record) (\<lambda>rs.
         Inr (Reset \<lparr>rs_reason = reason, rs_checkpoint = cp, rs_records = rs\<rparr>)))))
       else Inl InvalidEnvelope))"

section \<open>Messages\<close>

definition encoder_family :: "string \<Rightarrow> codec_error + budget" where
  "encoder_family family =
     rbind (take_items 4 (max_total_items, max_encoded_bytes)) (take_bytes (len family))"

definition encode_family_message :: "serializer \<Rightarrow> string \<Rightarrow> u64 \<Rightarrow> cbor encoder \<Rightarrow> codec_error + byte list" where
  "encode_family_message ser family kind payload =
     rbind (encoder_family family) (\<lambda>b.
     rbind (payload b) (\<lambda>(_, c).
     encode_cbor_value ser (CArray [CText family, integer schema_v1, integer kind, c])))"

definition decode_family_message :: "deserializer \<Rightarrow> byte list \<Rightarrow> string \<Rightarrow> u64 \<Rightarrow> codec_error + cbor" where
  "decode_family_message de bytes family expected_kind =
     (if len bytes > max_encoded_bytes then Inl EncodedLimit
      else rbind (preflight_canonical_cbor bytes) (\<lambda>_.
      rbind (ok_or Decode (de bytes)) (\<lambda>(decoded, position).
      if position \<noteq> length bytes then Inl TrailingBytes
      else rbind (array_n 4 decoded) (\<lambda>values.
      rbind (text_item (values ! 0)) (\<lambda>name.
      if name \<noteq> family then Inl InvalidEnvelope
      else rbind (unsigned_item (values ! 1)) (\<lambda>schema.
      if schema \<noteq> schema_v1 then Inl InvalidEnvelope
      else rbind (unsigned_item (values ! 2)) (\<lambda>kind.
      if kind \<noteq> expected_kind then Inl InvalidEnvelope else Inr (values ! 3))))))))"

definition encode_message :: "serializer \<Rightarrow> u64 \<Rightarrow> cbor encoder \<Rightarrow> codec_error + byte list" where
  "encode_message ser kind payload = encode_family_message ser v1_name kind payload"

definition decode_message :: "deserializer \<Rightarrow> byte list \<Rightarrow> u64 \<Rightarrow> codec_error + cbor" where
  "decode_message de bytes kind = decode_family_message de bytes v1_name kind"

definition require_typed_canonical :: "byte list \<Rightarrow> byte list \<Rightarrow> codec_error + unit" where
  "require_typed_canonical input encoded = (if input = encoded then Inr () else Inl NonCanonical)"

definition encode_push_request :: "serializer \<Rightarrow> canonical_value push_request \<Rightarrow> codec_error + byte list" where
  "encode_push_request ser m = encode_message ser push_request_kind (enc_push_request m)"

definition decode_push_request ::
  "serializer \<Rightarrow> deserializer \<Rightarrow> byte list \<Rightarrow> codec_error + canonical_value push_request" where
  "decode_push_request ser de bytes =
     rbind (decode_message de bytes push_request_kind) (\<lambda>payload.
     rbind (dec_push_request payload) (\<lambda>m.
     rbind (encode_push_request ser m) (\<lambda>encoded.
     rbind (require_typed_canonical bytes encoded) (\<lambda>_. Inr m))))"

definition encode_push_response :: "serializer \<Rightarrow> canonical_value push_response \<Rightarrow> codec_error + byte list" where
  "encode_push_response ser m = encode_message ser push_response_kind (enc_push_response m)"

definition decode_push_response ::
  "serializer \<Rightarrow> deserializer \<Rightarrow> byte list \<Rightarrow> codec_error + canonical_value push_response" where
  "decode_push_response ser de bytes =
     rbind (decode_message de bytes push_response_kind) (\<lambda>payload.
     rbind (dec_push_response payload) (\<lambda>m.
     rbind (encode_push_response ser m) (\<lambda>encoded.
     rbind (require_typed_canonical bytes encoded) (\<lambda>_. Inr m))))"

definition encode_pull_request :: "serializer \<Rightarrow> pull_request \<Rightarrow> codec_error + byte list" where
  "encode_pull_request ser m = encode_message ser pull_request_kind (enc_pull_request m)"

definition decode_pull_request :: "serializer \<Rightarrow> deserializer \<Rightarrow> byte list \<Rightarrow> codec_error + pull_request" where
  "decode_pull_request ser de bytes =
     rbind (decode_message de bytes pull_request_kind) (\<lambda>payload.
     rbind (dec_pull_request payload) (\<lambda>m.
     rbind (encode_pull_request ser m) (\<lambda>encoded.
     rbind (require_typed_canonical bytes encoded) (\<lambda>_. Inr m))))"

definition encode_pull_response :: "serializer \<Rightarrow> canonical_value pull_response \<Rightarrow> codec_error + byte list" where
  "encode_pull_response ser m = encode_message ser pull_response_kind (enc_pull_response m)"

definition decode_pull_response ::
  "serializer \<Rightarrow> deserializer \<Rightarrow> byte list \<Rightarrow> codec_error + canonical_value pull_response" where
  "decode_pull_response ser de bytes =
     rbind (decode_message de bytes pull_response_kind) (\<lambda>payload.
     rbind (dec_pull_response payload) (\<lambda>m.
     rbind (encode_pull_response ser m) (\<lambda>encoded.
     rbind (require_typed_canonical bytes encoded) (\<lambda>_. Inr m))))"

end
