(* ===== verification/Http_Roundtrip.thy ===== *)
theory Http_Roundtrip
  imports Http_Codec Reference_Cbor
begin

text \<open>
  The message codecs are inverse to each other.  Every part of a message (an operation, an
  outcome, a record state, a checkpoint, a frame) meets one contract, the locale
  \<open>wire_part\<close>: what its encoder writes, its decoder reads back, within the budgets and
  within a nesting depth.  Lists of parts and whole messages are handled once, inside it.
\<close>

section \<open>The encoder's combinators\<close>

declare take_items.simps [simp del] take_bytes.simps [simp del]

definition within :: "budget \<Rightarrow> bool" where
  "within b \<longleftrightarrow> within_budget b"

named_theorems enc_conv "what a successful encoder step did"

lemma emit_Inr [enc_conv]: "emit x b = Inr (b', y) \<longleftrightarrow> b' = b \<and> y = x"
  by (auto simp: emit_def)

lemma ebind_Inr [enc_conv]: "ebind m f b = Inr r \<longleftrightarrow> (\<exists>b1 x. m b = Inr (b1, x) \<and> f x b1 = Inr r)"
  by (auto simp: ebind_def rbind_Inr)

lemma each_Inr [enc_conv]:
  "each f [] b = Inr (b', ys) \<longleftrightarrow> b' = b \<and> ys = []"
  "each f (x # xs) b = Inr (b', ys) \<longleftrightarrow>
     (\<exists>b1 y zs. f x b = Inr (b1, y) \<and> each f xs b1 = Inr (b', zs) \<and> ys = y # zs)"
  by (auto simp: enc_conv)

lemma array_of_Inr [enc_conv]:
  "array_of ms b = Inr (b', c) \<longleftrightarrow> (\<exists>cs. each (\<lambda>m. m) ms b = Inr (b', cs) \<and> c = CArray cs)"
  by (auto simp: array_of_def enc_conv)

lemma item_within:
  assumes "item n m b = Inr r" and "within b" and "0 \<le> n"
  shows "\<exists>b1. within b1 \<and> m b1 = Inr r"
proof -
  obtain i x where b: "b = (i, x)" by force
  with assms have "m (i - n, x) = Inr r" "within (i - n, x)"
    by (auto simp: item_def rbind_Inr take_items_Inr within_def)
  then show ?thesis by blast
qed

lemma vec_within:
  "vec n m b = Inr r \<Longrightarrow> within b \<Longrightarrow> 0 \<le> n \<Longrightarrow> n \<le> max_container_items \<and> (\<exists>b1. within b1 \<and> m b1 = Inr r)"
  by (auto simp: vec_def split: if_splits dest!: item_within)

lemma bounded_text_within:
  "bounded_text bound s b = Inr (b', c) \<Longrightarrow> within b \<Longrightarrow>
     within b' \<and> c = CText s \<and> s \<noteq> [] \<and> len s \<le> bound"
  by (cases b) (auto simp: bounded_text_def item_def rbind_Inr take_items_Inr take_bytes_Inr within_def
      emit_def split: if_splits)

lemma identity_text_within:
  "enc_identity_text s b = Inr (b', c) \<Longrightarrow> within b \<Longrightarrow>
     within b' \<and> c = CText s \<and> s \<noteq> [] \<and> len s \<le> max_identity_bytes"
  unfolding enc_identity_text_def by (rule bounded_text_within)

lemma checkpoint_text_within:
  "enc_checkpoint_text s b = Inr (b', c) \<Longrightarrow> within b \<Longrightarrow>
     within b' \<and> c = CText s \<and> s \<noteq> [] \<and> len s \<le> max_checkpoint_bytes"
  unfolding enc_checkpoint_text_def by (rule bounded_text_within)

lemma validate_fingerprint_length: "validate_fingerprint s = Inr () \<Longrightarrow> length s = 71"
  by (auto simp: validate_fingerprint_def strip_prefix_def fingerprint_prefix_def split: if_splits)

lemma fingerprint_within:
  "enc_fingerprint fp b = Inr (b', c) \<Longrightarrow> within b \<Longrightarrow>
     within b' \<and> c = CText (fingerprint_str fp) \<and> validate_fingerprint (fingerprint_str fp) = Inr ()"
  by (cases b) (auto simp: enc_fingerprint_def item_def rbind_Inr take_items_Inr take_bytes_Inr within_def emit_def)

lemma value_within:
  assumes "enc_canonical_value v b = Inr (b', c)" and "within b" and "well_typed v"
  shows "within b' \<and> from_cbor c = Inr v \<and> representable c \<and> cbor_depth c \<le> 66"
proof -
  from assms(1) have v: "validate_with_budget v 0 b = Inr b'" "to_cbor v = Inr c"
    by (auto simp: enc_canonical_value_def rbind_Inr)
  have ok: "validated v 0" "within b'"
    using validate_budget [OF v(1)] assms(2) by (simp_all add: within_def)
  then show ?thesis
    using to_cbor_from_cbor [OF v(2) assms(3) ok(1)] to_cbor_representable [OF v(2) assms(3) ok(1)]
    by (simp add: max_depth_def)
qed

definition utf8_ref :: "record_id option \<Rightarrow> bool" where
  "utf8_ref ref = (case ref of None \<Rightarrow> True | Some r \<Rightarrow> utf8 (record_str r))"

section \<open>Reading items back\<close>

named_theorems item_read "readers applied to the items the encoder writes"

lemma integer_read [item_read]:
  "unsigned_item (integer n) = Inr n" "representable (integer n)" "cbor_depth (integer n) = 0"
  using uint_u64_range [of n] by (simp_all add: integer_def unsigned_item_def)

lemma text_read [item_read]:
  "text_item (CText s) = Inr s"
  "s \<noteq> [] \<Longrightarrow> len s \<le> max_identity_bytes \<Longrightarrow> identity_item (CText s) = Inr s"
  "s \<noteq> [] \<Longrightarrow> len s \<le> max_checkpoint_bytes \<Longrightarrow> checkpoint_text_item (CText s) = Inr s"
  "validate_fingerprint s = Inr () \<Longrightarrow> fingerprint_text_item (CText s) = Inr s"
  by (simp_all add: text_item_def identity_item_def checkpoint_text_item_def fingerprint_text_item_def)

lemma text_short [item_read]:
  "len s \<le> max_identity_bytes \<Longrightarrow> length s < 18446744073709551616"
  "len s \<le> max_checkpoint_bytes \<Longrightarrow> length s < 18446744073709551616"
  "validate_fingerprint s = Inr () \<Longrightarrow> length s < 18446744073709551616"
  by (auto simp: max_identity_bytes_def max_checkpoint_bytes_def dest: validate_fingerprint_length)

lemma array_read [item_read]:
  "array_n n (CArray cs) = (if length cs = n then Inr cs else Inl InvalidEnvelope)"
  "len cs \<le> max_container_items \<Longrightarrow> array_vec (CArray cs) = Inr cs"
  by (simp_all add: array_n_def array_vec_def)

section \<open>Parts of messages\<close>

locale wire_part =
  fixes enc :: "'a \<Rightarrow> cbor encoder" and dec :: "cbor \<Rightarrow> codec_error + 'a"
    and ok :: "'a \<Rightarrow> bool" and view :: "'a \<Rightarrow> 'a" and depth :: nat
  assumes part: "enc x b = Inr (b', c) \<Longrightarrow> within b \<Longrightarrow> ok x \<Longrightarrow>
      within b' \<and> dec c = Inr (view x) \<and> representable c \<and> cbor_depth c \<le> depth"
    and enc_view: "enc (view x) = enc x"
begin

lemma each_part:
  assumes "each enc xs b = Inr (b', cs)" and "within b" and "list_all ok xs"
  shows "within b' \<and> list_all2 (\<lambda>c y. dec c = Inr y) cs (map view xs)
    \<and> (\<forall>c \<in> set cs. representable c \<and> cbor_depth c \<le> depth)"
  using assms
proof (induction xs arbitrary: b cs)
  case Nil
  then show ?case by (simp add: enc_conv)
next
  case (Cons x xs)
  then obtain b1 c zs where s: "enc x b = Inr (b1, c)" "each enc xs b1 = Inr (b', zs)" "cs = c # zs"
    by (auto simp: enc_conv)
  show ?case
    using Cons.IH [OF s(2)] part [OF s(1)] Cons.prems(2,3) s(3) by simp
qed

text \<open>A vector of parts, as the encoder writes it before it goes on.\<close>

lemma vec_part:
  assumes "vec (len xs) (ebind (each enc xs) k) b = Inr r" and "within b" and "list_all ok xs"
  shows "\<exists>b1 cs. within b1 \<and> k cs b1 = Inr r \<and> vec_decode (CArray cs) dec = Inr (map view xs)
    \<and> representable (CArray cs) \<and> cbor_depth (CArray cs) \<le> Suc depth"
proof -
  from vec_within [OF assms(1,2)] obtain b0 b1 cs where n: "len xs \<le> max_container_items"
    and e: "within b0" "each enc xs b0 = Inr (b1, cs)" "k cs b1 = Inr r"
    by (auto simp: enc_conv)
  from each_part [OF e(2,1) assms(3)] have p: "within b1" "list_all2 (\<lambda>c y. dec c = Inr y) cs (map view xs)"
    "\<forall>c \<in> set cs. representable c \<and> cbor_depth c \<le> depth" by auto
  have l: "length cs = length xs" using list_all2_lengthD [OF p(2)] by simp
  have "vec_decode (CArray cs) dec = Inr (map view xs)"
    using p(2) n l by (simp add: vec_decode_def item_read try_map_Inr)
  moreover have "representable (CArray cs)" "cbor_depth (CArray cs) \<le> Suc depth"
    using p(3) n l max_usize_lt by (auto simp: max_container_items_def)
  ultimately show ?thesis using p(1) e(3) by blast
qed

end

section \<open>Record states, operations, outcomes\<close>

lemma optional_record_id_within:
  assumes "enc_optional_record_id ref b = Inr (b', c)" and "within b" and "utf8_ref ref"
  shows "within b' \<and> decode_optional_record_id c = Inr ref \<and> representable c \<and> cbor_depth c = 0"
proof (cases ref)
  case None
  then show ?thesis
    using assms by (auto simp: enc_optional_record_id_def enc_conv decode_optional_record_id_def dest!: item_within)
next
  case (Some r)
  then have "within b' \<and> c = CText (record_str r) \<and> record_str r \<noteq> [] \<and> len (record_str r) \<le> max_identity_bytes"
    using assms by (intro identity_text_within) (simp_all add: enc_optional_record_id_def)
  then show ?thesis
    using assms(3) Some by (auto simp: decode_optional_record_id_def item_read utf8_ref_def)
qed

lemma base_version_read:
  "decode_base_version (encode_base_version v) = Inr v" "representable (encode_base_version v)"
  "cbor_depth (encode_base_version v) \<le> 1"
  by (cases v; simp add: decode_base_version_def item_read max_container_items_def cbor_depth.simps)+

fun typed_state :: "canonical_value record_state \<Rightarrow> bool" where
  "typed_state Absent = True"
| "typed_state (Present v n ref) = (well_typed v \<and> utf8_ref ref)"
| "typed_state (Tombstone n) = True"

interpretation state_part: wire_part enc_record_state dec_record_state typed_state id 67
proof
  fix x b b' c
  assume e: "enc_record_state x b = Inr (b', c)" and w: "within b" and t: "typed_state x"
  show "within b' \<and> dec_record_state c = Inr (id x) \<and> representable c \<and> cbor_depth c \<le> 67"
  proof (cases x)
    case (Present v n ref)
    with e w obtain b0 b1 b2 cv cr where p: "within b0" "enc_canonical_value v b0 = Inr (b1, cv)"
      "enc_optional_record_id ref b1 = Inr (b', cr)" "c = CArray [integer 1, cv, integer n, cr]"
      by (auto simp: enc_conv dest!: item_within)
    have v: "within b1 \<and> from_cbor cv = Inr v \<and> representable cv \<and> cbor_depth cv \<le> 66"
      using value_within [OF p(2,1)] t Present by simp
    then have "within b' \<and> decode_optional_record_id cr = Inr ref \<and> representable cr \<and> cbor_depth cr = 0"
      using optional_record_id_within [OF p(3)] t Present by simp
    with v show ?thesis unfolding p(4) Present
      by (simp add: dec_record_state_def item_read max_container_items_def cbor_depth.simps)
  qed (use e w in \<open>auto simp: enc_conv dec_record_state_def item_read max_container_items_def
      cbor_depth.simps dest!: item_within\<close>)
qed simp

interpretation operation_part: wire_part enc_operation dec_operation typed_operation id 67
proof
  fix x b b' c
  assume e: "enc_operation x b = Inr (b', c)" and w: "within b" and t: "typed_operation x"
  show "within b' \<and> dec_operation c = Inr (id x) \<and> representable c \<and> cbor_depth c \<le> 67"
  proof (cases x)
    case (Upsert r base v ref)
    with e w obtain b0 b1 b2 ci cv cr where p: "within b0" "enc_identity_text (record_str r) b0 = Inr (b1, ci)"
      "enc_canonical_value v b1 = Inr (b2, cv)" "enc_optional_record_id ref b2 = Inr (b', cr)"
      "c = CArray [integer 0, ci, encode_base_version base, cv, cr]"
      by (auto simp: enc_conv dest!: item_within)
    from identity_text_within [OF p(2,1)] have i: "within b1" "ci = CText (record_str r)"
      "record_str r \<noteq> []" "len (record_str r) \<le> max_identity_bytes" by auto
    have v: "within b2 \<and> from_cbor cv = Inr v \<and> representable cv \<and> cbor_depth cv \<le> 66"
      using value_within [OF p(3) i(1)] t Upsert by simp
    then have "within b' \<and> decode_optional_record_id cr = Inr ref \<and> representable cr \<and> cbor_depth cr = 0"
      using optional_record_id_within [OF p(4)] t Upsert by (simp add: utf8_ref_def)
    with v i t show ?thesis unfolding p(5) Upsert i(2)
      using base_version_read [of base]
      by (simp add: dec_operation_def item_read max_container_items_def cbor_depth.simps)
  next
    case (Delete r base)
    then show ?thesis
      using e w t by (auto simp: enc_conv dec_operation_def item_read max_container_items_def
          cbor_depth.simps dest!: item_within identity_text_within)
  qed
qed simp

lemma identity_part:
  assumes "enc_identity i b = Inr (b', c)" and "within b"
    and "utf8 (commit_str (client_commit_id i))" and "utf8 (fingerprint_str (fingerprint i))"
  shows "within b' \<and> decode_identity c = Inr i \<and> representable c \<and> cbor_depth c \<le> 1"
proof -
  from assms(1,2) obtain b0 b1 x y where p: "within b0"
    "enc_identity_text (commit_str (client_commit_id i)) b0 = Inr (b1, x)"
    "enc_fingerprint (fingerprint i) b1 = Inr (b', y)" "c = CArray [x, y]"
    by (auto simp: enc_identity_def enc_conv dest!: item_within)
  from identity_text_within [OF p(2,1)] have x: "within b1" "x = CText (commit_str (client_commit_id i))"
    "commit_str (client_commit_id i) \<noteq> []" "len (commit_str (client_commit_id i)) \<le> max_identity_bytes" by auto
  with fingerprint_within [OF p(3) x(1)] assms(3,4) show ?thesis
    unfolding p(4) by (simp add: decode_identity_def item_read cbor_depth.simps)
qed

interpretation mapping_part: wire_part enc_id_mapping dec_id_mapping
  "\<lambda>m. utf8 (record_str (local_id m)) \<and> utf8 (record_str (canonical_id m))" id 1
proof
  fix m :: id_mapping and b b' c
  assume "enc_id_mapping m b = Inr (b', c)" "within b"
    "utf8 (record_str (local_id m)) \<and> utf8 (record_str (canonical_id m))"
  then show "within b' \<and> dec_id_mapping c = Inr (id m) \<and> representable c \<and> cbor_depth c \<le> 1"
    by (auto simp: enc_id_mapping_def enc_conv dec_id_mapping_def item_read cbor_depth.simps
        dest!: item_within identity_text_within)
qed simp

definition typed_identity :: "commit_identity \<Rightarrow> bool" where
  "typed_identity i \<longleftrightarrow> utf8 (commit_str (client_commit_id i)) \<and> utf8 (fingerprint_str (fingerprint i))"

fun typed_outcome :: "canonical_value durable_outcome \<Rightarrow> bool" where
  "typed_outcome (Accepted i n ms) = (typed_identity i \<and>
     list_all (\<lambda>m. utf8 (record_str (local_id m)) \<and> utf8 (record_str (canonical_id m))) ms)"
| "typed_outcome (Conflict i r st) = (typed_identity i \<and> utf8 (record_str r) \<and> typed_state st)"
| "typed_outcome (Rejected i reason) = typed_identity i"

lemma reject_reason_read: "decode_reject_reason (reject_reason_code r) = Inr r"
  by (cases r) (simp_all add: decode_reject_reason_def)

lemma reset_reason_read: "decode_reset_reason (reset_reason_code r) = Inr r"
  by (cases r) (simp_all add: decode_reset_reason_def)

lemma identity_part':
  "enc_identity i b = Inr (b', c) \<Longrightarrow> within b \<Longrightarrow> typed_identity i \<Longrightarrow>
     within b' \<and> decode_identity c = Inr i \<and> representable c \<and> cbor_depth c \<le> 1"
  unfolding typed_identity_def using identity_part by blast

interpretation outcome_part: wire_part enc_outcome dec_outcome typed_outcome id 70
proof
  fix x b b' c
  assume e: "enc_outcome x b = Inr (b', c)" and w: "within b" and t: "typed_outcome x"
  show "within b' \<and> dec_outcome c = Inr (id x) \<and> representable c \<and> cbor_depth c \<le> 70"
  proof (cases x)
    case (Accepted i n ms)
    with e w obtain b0 where "within b0" "vec (len ms) (ebind (each enc_id_mapping ms) (\<lambda>cs.
        array_of [emit (integer 0), enc_identity i, emit (integer n), emit (CArray cs)])) b0 = Inr (b', c)"
      by (auto dest!: item_within)
    from mapping_part.vec_part [OF this(2,1)] t Accepted obtain b1 cs where cs: "within b1"
      "array_of [emit (integer 0), enc_identity i, emit (integer n), emit (CArray cs)] b1 = Inr (b', c)"
      "vec_decode (CArray cs) dec_id_mapping = Inr (map id ms)" "representable (CArray cs)"
      "cbor_depth (CArray cs) \<le> Suc 1" by auto
    from cs(2) obtain ci where i: "enc_identity i b1 = Inr (b', ci)" "c = CArray [integer 0, ci, integer n, CArray cs]"
      by (auto simp: enc_conv)
    have d: "cbor_depth ci \<le> 69" using identity_part' [OF i(1) cs(1)] t Accepted by auto
    have "cbor_depth (CArray cs) \<le> 69" using cs(5) by (rule order.trans) simp
    note d = d this
    have "cbor_depth c \<le> Suc 69" unfolding i(2) cbor_depth_le(1) using d by (simp add: item_read)
    moreover have "within b' \<and> dec_outcome c = Inr (id x) \<and> representable c"
      using identity_part' [OF i(1) cs(1)] t Accepted cs(3,4) unfolding i(2)
      by (simp add: dec_outcome_def item_read max_container_items_def del: representable_containers)
        (simp add: item_read)
    ultimately show ?thesis by simp
  next
    case (Conflict i r st)
    with e w obtain b0 b1 b2 ci ct cs where p: "within b0" "enc_identity i b0 = Inr (b1, ci)"
      "enc_identity_text (record_str r) b1 = Inr (b2, ct)" "enc_record_state st b2 = Inr (b', cs)"
      "c = CArray [integer 1, ci, ct, cs]"
      by (auto simp: enc_conv dest!: item_within)
    have i: "within b1 \<and> decode_identity ci = Inr i \<and> representable ci \<and> cbor_depth ci \<le> 1"
      using identity_part' [OF p(2,1)] t Conflict by simp
    then have r: "within b2 \<and> ct = CText (record_str r) \<and> record_str r \<noteq> [] \<and> len (record_str r) \<le> max_identity_bytes"
      using identity_text_within [OF p(3)] by simp
    then have "within b' \<and> dec_record_state cs = Inr (id st) \<and> representable cs \<and> cbor_depth cs \<le> 67"
      using state_part.part [OF p(4)] t Conflict by simp
    with i r t show ?thesis unfolding p(5) Conflict
      by (simp add: dec_outcome_def item_read max_container_items_def cbor_depth.simps)
  next
    case (Rejected i reason)
    with e w obtain b0 ci where p: "within b0" "enc_identity i b0 = Inr (b', ci)"
      "c = CArray [integer 2, ci, integer (reject_reason_code reason)]"
      by (auto simp: enc_conv dest!: item_within)
    show ?thesis using identity_part' [OF p(2,1)] t unfolding p(3) Rejected
      by (simp add: dec_outcome_def item_read max_container_items_def cbor_depth.simps reject_reason_read)
  qed
qed simp

section \<open>Commits, checkpoints, frames\<close>

definition typed_client_commit :: "canonical_value client_commit \<Rightarrow> bool" where
  "typed_client_commit commit \<longleftrightarrow> typed_identity (identity commit) \<and> list_all typed_operation (operations commit)"

interpretation commit_part: wire_part enc_commit dec_commit typed_client_commit id 70
proof
  fix x b b' c
  assume e: "enc_commit x b = Inr (b', c)" and w: "within b" and t: "typed_client_commit x"
  let ?i = "identity x"
  from e w obtain b0 where "within b0" "vec (len (operations x)) (ebind (each enc_operation (operations x)) (\<lambda>cs.
      array_of [enc_identity_text (commit_str (client_commit_id ?i)), enc_fingerprint (fingerprint ?i),
        emit (CArray cs)])) b0 = Inr (b', c)"
    by (auto simp: enc_commit_def dest!: item_within)
  from operation_part.vec_part [OF this(2,1)] t obtain b1 cs where cs: "within b1"
    "array_of [enc_identity_text (commit_str (client_commit_id ?i)), enc_fingerprint (fingerprint ?i),
        emit (CArray cs)] b1 = Inr (b', c)"
    "vec_decode (CArray cs) dec_operation = Inr (map id (operations x))" "representable (CArray cs)"
    "cbor_depth (CArray cs) \<le> Suc 67" by (auto simp: typed_client_commit_def)
  from cs(2) obtain b2 ci cf where p: "enc_identity_text (commit_str (client_commit_id ?i)) b1 = Inr (b2, ci)"
    "enc_fingerprint (fingerprint ?i) b2 = Inr (b', cf)" "c = CArray [ci, cf, CArray cs]"
    by (auto simp: enc_conv)
  from identity_text_within [OF p(1) cs(1)] have i: "within b2" "ci = CText (commit_str (client_commit_id ?i))"
    "commit_str (client_commit_id ?i) \<noteq> []" "len (commit_str (client_commit_id ?i)) \<le> max_identity_bytes" by auto
  from fingerprint_within [OF p(2) i(1)] have f: "within b'" "cf = CText (fingerprint_str (fingerprint ?i))"
    "validate_fingerprint (fingerprint_str (fingerprint ?i)) = Inr ()" by auto
  have "cbor_depth c \<le> Suc 69"
    unfolding p(3) i(2) f(2) cbor_depth_le(1) using order.trans [OF cs(5), of 69] by simp
  moreover have "dec_commit c = Inr x"
    unfolding p(3) i(2) f(2) using i f cs(3) by (simp add: dec_commit_def item_read)
  moreover have "representable c"
    unfolding p(3) i(2) f(2) representable_containers(1) [of "[_, _, _]"] using i f cs(4) t
    by (simp add: item_read typed_client_commit_def typed_identity_def)
  ultimately show "within b' \<and> dec_commit c = Inr (id x) \<and> representable c \<and> cbor_depth c \<le> 70"
    using f(1) by simp
qed simp

definition typed_checkpoint :: "checkpoint \<Rightarrow> bool" where
  "typed_checkpoint cp \<longleftrightarrow> utf8 (token_str (token cp)) \<and> utf8 (scope_str (scope_id (scope cp)))"

interpretation checkpoint_part: wire_part enc_checkpoint decode_checkpoint typed_checkpoint id 2
proof
  fix x b b' c
  assume e: "enc_checkpoint x b = Inr (b', c)" and w: "within b" and t: "typed_checkpoint x"
  then show "within b' \<and> decode_checkpoint c = Inr (id x) \<and> representable c \<and> cbor_depth c \<le> 2"
    by (auto simp: enc_checkpoint_def enc_conv decode_checkpoint_def item_read cbor_depth.simps typed_checkpoint_def
        dest!: item_within identity_text_within checkpoint_text_within)
qed simp

interpretation snapshot_part: wire_part enc_snapshot_record dec_snapshot_record
  "\<lambda>r. utf8 (record_str (sr_record_id r)) \<and> typed_state (sr_state r)" id 68
proof
  fix x :: "canonical_value snapshot_record" and b b' c
  assume e: "enc_snapshot_record x b = Inr (b', c)" and w: "within b"
    and t: "utf8 (record_str (sr_record_id x)) \<and> typed_state (sr_state x)"
  then show "within b' \<and> dec_snapshot_record c = Inr (id x) \<and> representable c \<and> cbor_depth c \<le> 68"
    by (auto simp: enc_snapshot_record_def enc_conv dec_snapshot_record_def item_read cbor_depth.simps
        dest!: item_within identity_text_within state_part.part)
qed simp

interpretation applied_part: wire_part enc_applied_record dec_applied_record
  "\<lambda>r. utf8 (record_str (ar_record_id r)) \<and> typed_state (ar_state r)" id 68
proof
  fix x :: "canonical_value applied_record" and b b' c
  assume e: "enc_applied_record x b = Inr (b', c)" and w: "within b"
    and t: "utf8 (record_str (ar_record_id x)) \<and> typed_state (ar_state x)"
  then show "within b' \<and> dec_applied_record c = Inr (id x) \<and> representable c \<and> cbor_depth c \<le> 68"
    by (auto simp: enc_applied_record_def enc_conv dec_applied_record_def item_read cbor_depth.simps
        dest!: item_within identity_text_within state_part.part)
qed simp

text \<open>Pull bytes never carry the source identity of a commit: it reads back as \<open>None\<close>.\<close>

definition public_commit :: "'v pull_commit \<Rightarrow> 'v pull_commit" where
  "public_commit commit = commit\<lparr>pc_source := None\<rparr>"

definition typed_pull_commit :: "canonical_value pull_commit \<Rightarrow> bool" where
  "typed_pull_commit commit \<longleftrightarrow>
     list_all (\<lambda>r. utf8 (record_str (ar_record_id r)) \<and> typed_state (ar_state r)) (pc_records commit)"

interpretation pull_commit_part: wire_part enc_pull_commit dec_pull_commit typed_pull_commit public_commit 70
proof
  fix x b b' c
  assume e: "enc_pull_commit x b = Inr (b', c)" and w: "within b" and t: "typed_pull_commit x"
  from e w obtain b0 where "within b0" "vec (len (pc_records x)) (ebind (each enc_applied_record (pc_records x)) (\<lambda>rs.
      emit (CArray [integer (pc_sequence x), CArray rs]))) b0 = Inr (b', c)"
    by (auto simp: enc_pull_commit_def dest!: item_within)
  from applied_part.vec_part [OF this(2,1)] t obtain cs where cs: "within b'"
    "c = CArray [integer (pc_sequence x), CArray cs]"
    "vec_decode (CArray cs) dec_applied_record = Inr (map id (pc_records x))" "representable (CArray cs)"
    "cbor_depth (CArray cs) \<le> Suc 68" by (auto simp: typed_pull_commit_def enc_conv)
  have "cbor_depth c \<le> Suc 69"
    unfolding cs(2) cbor_depth_le(1) using order.trans [OF cs(5), of 69] by (simp add: item_read)
  moreover have "dec_pull_commit c = Inr (public_commit x)"
    unfolding cs(2) using cs(3) by (simp add: dec_pull_commit_def item_read public_commit_def)
  moreover have "representable c"
    unfolding cs(2) representable_containers(1) [of "[_, _]"] using cs(4) by (simp add: item_read)
  ultimately show "within b' \<and> dec_pull_commit c = Inr (public_commit x) \<and> representable c \<and> cbor_depth c \<le> 70"
    using cs(1) by simp
qed (simp add: enc_pull_commit_def public_commit_def)

fun public_frame :: "'v pull_frame \<Rightarrow> 'v pull_frame" where
  "public_frame (Commit t commit) = Commit t (public_commit commit)"
| "public_frame frame = frame"

fun typed_frame :: "canonical_value pull_frame \<Rightarrow> bool" where
  "typed_frame (Start cp) = typed_checkpoint cp"
| "typed_frame (Commit t commit) = (utf8 (token_str t) \<and> typed_pull_commit commit)"
| "typed_frame (End cp) = typed_checkpoint cp"

interpretation frame_part: wire_part enc_pull_frame dec_pull_frame typed_frame public_frame 71
proof
  fix x b b' c
  assume e: "enc_pull_frame x b = Inr (b', c)" and w: "within b" and t: "typed_frame x"
  show "within b' \<and> dec_pull_frame c = Inr (public_frame x) \<and> representable c \<and> cbor_depth c \<le> 71"
  proof (cases x)
    case (Commit tk commit)
    with e w obtain b0 b1 ct cc where p: "within b0" "enc_checkpoint_text (token_str tk) b0 = Inr (b1, ct)"
      "enc_pull_commit commit b1 = Inr (b', cc)" "c = CArray [integer 1, ct, cc]"
      by (auto simp: enc_conv dest!: item_within)
    from checkpoint_text_within [OF p(2,1)] have i: "within b1" "ct = CText (token_str tk)"
      "token_str tk \<noteq> []" "len (token_str tk) \<le> max_checkpoint_bytes" by auto
    show ?thesis using pull_commit_part.part [OF p(3) i(1)] t i unfolding p(4) Commit
      by (simp add: dec_pull_frame_def item_read max_container_items_def cbor_depth.simps)
  next
    case (Start cp)
    then show ?thesis using e w t
      by (auto simp: enc_conv dec_pull_frame_def item_read max_container_items_def cbor_depth.simps
          dest!: item_within checkpoint_part.part)
  next
    case (End cp)
    then show ?thesis using e w t
      by (auto simp: enc_conv dec_pull_frame_def item_read max_container_items_def cbor_depth.simps
          dest!: item_within checkpoint_part.part)
  qed
qed (metis enc_pull_frame.simps(2) public_frame.elims pull_commit_part.enc_view)

section \<open>Messages\<close>

definition typed_push_request :: "canonical_value push_request \<Rightarrow> bool" where
  "typed_push_request m \<longleftrightarrow> utf8 (partition_str (pq_partition_id m)) \<and> utf8 (client_str (pq_client_id m))
     \<and> typed_client_commit (pq_commit m)"

definition typed_push_response :: "canonical_value push_response \<Rightarrow> bool" where
  "typed_push_response m \<longleftrightarrow> utf8 (partition_str (ps_partition_id m)) \<and> utf8 (client_str (ps_client_id m))
     \<and> typed_outcome (ps_outcome m)"

definition typed_pull_request :: "pull_request \<Rightarrow> bool" where
  "typed_pull_request m \<longleftrightarrow> utf8 (partition_str (pl_partition_id m)) \<and> utf8 (client_str (pl_client_id m))
     \<and> utf8 (scope_str (pl_requested_scope m))
     \<and> (case pl_checkpoint m of None \<Rightarrow> True | Some t \<Rightarrow> utf8 (token_str t))"

fun typed_pull_response :: "canonical_value pull_response \<Rightarrow> bool" where
  "typed_pull_response (Batch batch) = list_all typed_frame (frames batch)"
| "typed_pull_response (Reset reset) = (typed_checkpoint (rs_checkpoint reset)
     \<and> list_all (\<lambda>r. utf8 (record_str (sr_record_id r)) \<and> typed_state (sr_state r)) (rs_records reset))"

fun public_response :: "'v pull_response \<Rightarrow> 'v pull_response" where
  "public_response (Batch batch) = Batch \<lparr>frames = map public_frame (frames batch)\<rparr>"
| "public_response (Reset reset) = Reset reset"

lemma schema_version_V1: "v = V1"
  by (cases v) simp

interpretation push_request_part: wire_part enc_push_request dec_push_request typed_push_request id 71
proof
  fix x b b' c
  assume e: "enc_push_request x b = Inr (b', c)" and w: "within b" and t: "typed_push_request x"
  then obtain b0 b1 b2 cp cc cm where p: "within b0"
    "enc_identity_text (partition_str (pq_partition_id x)) b0 = Inr (b1, cp)"
    "enc_identity_text (client_str (pq_client_id x)) b1 = Inr (b2, cc)"
    "enc_commit (pq_commit x) b2 = Inr (b', cm)" "c = CArray [cp, cc, cm]"
    by (auto simp: enc_push_request_def enc_conv rbind_Inr dest!: item_within)
  note i = identity_text_within [OF p(2,1)]
  note j = identity_text_within [OF p(3) conjunct1 [OF i]]
  note k = commit_part.part [OF p(4) conjunct1 [OF j]]
  show "within b' \<and> dec_push_request c = Inr (id x) \<and> representable c \<and> cbor_depth c \<le> 71"
    using i j k t schema_version_V1 [of "pq_schema_version x"] unfolding p(5)
    by (simp add: dec_push_request_def typed_push_request_def item_read cbor_depth.simps)
qed simp

interpretation push_response_part: wire_part enc_push_response dec_push_response typed_push_response id 71
proof
  fix x b b' c
  assume e: "enc_push_response x b = Inr (b', c)" and w: "within b" and t: "typed_push_response x"
  then obtain b0 b1 b2 cp cc cm where p: "within b0"
    "enc_identity_text (partition_str (ps_partition_id x)) b0 = Inr (b1, cp)"
    "enc_identity_text (client_str (ps_client_id x)) b1 = Inr (b2, cc)"
    "enc_outcome (ps_outcome x) b2 = Inr (b', cm)" "c = CArray [cp, cc, cm]"
    by (auto simp: enc_push_response_def enc_conv rbind_Inr dest!: item_within)
  note i = identity_text_within [OF p(2,1)]
  note j = identity_text_within [OF p(3) conjunct1 [OF i]]
  note k = outcome_part.part [OF p(4) conjunct1 [OF j]]
  show "within b' \<and> dec_push_response c = Inr (id x) \<and> representable c \<and> cbor_depth c \<le> 71"
    using i j k t schema_version_V1 [of "ps_schema_version x"] unfolding p(5)
    by (simp add: dec_push_response_def typed_push_response_def item_read cbor_depth.simps)
qed simp

lemma optional_checkpoint_within:
  assumes "(case t of Some t \<Rightarrow> enc_checkpoint_text (token_str t) | None \<Rightarrow> emit CNull) b = Inr (b', c)"
    and "within b" and "case t of None \<Rightarrow> True | Some t \<Rightarrow> utf8 (token_str t)"
  shows "within b' \<and> decode_optional_checkpoint c = Inr t \<and> representable c \<and> cbor_depth c = 0"
  using assms
  by (cases t) (auto simp: decode_optional_checkpoint_def item_read enc_conv dest!: checkpoint_text_within)

interpretation pull_request_part: wire_part enc_pull_request dec_pull_request typed_pull_request id 1
proof
  fix x b b' c
  assume e: "enc_pull_request x b = Inr (b', c)" and w: "within b" and t: "typed_pull_request x"
  then obtain b0 b1 b2 b3 ct cp cc cs where p: "within b0"
    "(case pl_checkpoint x of Some t \<Rightarrow> enc_checkpoint_text (token_str t) | None \<Rightarrow> emit CNull) b0 = Inr (b1, ct)"
    "enc_identity_text (partition_str (pl_partition_id x)) b1 = Inr (b2, cp)"
    "enc_identity_text (client_str (pl_client_id x)) b2 = Inr (b3, cc)"
    "enc_identity_text (scope_str (pl_requested_scope x)) b3 = Inr (b', cs)"
    "c = CArray [cp, cc, ct, cs, integer (pl_subscription_revision x)]"
    by (auto simp: enc_pull_request_def enc_conv rbind_Inr dest!: item_within)
  have o: "within b1 \<and> decode_optional_checkpoint ct = Inr (pl_checkpoint x) \<and> representable ct \<and> cbor_depth ct = 0"
    using optional_checkpoint_within [OF p(2,1)] t by (simp add: typed_pull_request_def)
  note i = identity_text_within [OF p(3) conjunct1 [OF o]]
  note j = identity_text_within [OF p(4) conjunct1 [OF i]]
  note k = identity_text_within [OF p(5) conjunct1 [OF j]]
  show "within b' \<and> dec_pull_request c = Inr (id x) \<and> representable c \<and> cbor_depth c \<le> 1"
    using o i j k t schema_version_V1 [of "pl_schema_version x"] unfolding p(6)
    by (simp add: dec_pull_request_def typed_pull_request_def item_read cbor_depth.simps)
qed simp

lemma enc_view_list: "wire_part enc dec ok view d \<Longrightarrow> each enc (map view xs) = each enc xs"
  by (induction xs) (simp_all add: wire_part.enc_view)

interpretation pull_response_part: wire_part enc_pull_response dec_pull_response typed_pull_response public_response 73
proof
  fix x b b' c
  assume e: "enc_pull_response x b = Inr (b', c)" and w: "within b" and t: "typed_pull_response x"
  show "within b' \<and> dec_pull_response c = Inr (public_response x) \<and> representable c \<and> cbor_depth c \<le> 73"
  proof (cases x)
    case (Batch batch)
    with e w obtain b0 where "within b0" "vec (len (frames batch)) (ebind (each enc_pull_frame (frames batch)) (\<lambda>fs.
        emit (CArray [integer 0, CArray fs]))) b0 = Inr (b', c)" by (auto dest!: item_within)
    from frame_part.vec_part [OF this(2,1)] t Batch obtain cs where cs: "within b'"
      "c = CArray [integer 0, CArray cs]" "vec_decode (CArray cs) dec_pull_frame = Inr (map public_frame (frames batch))"
      "representable (CArray cs)" "cbor_depth (CArray cs) \<le> Suc 71" by (auto simp: enc_conv)
    have "cbor_depth c \<le> Suc 72"
      unfolding cs(2) cbor_depth_le(1) using order.trans [OF cs(5), of 72] by (simp add: item_read)
    moreover have "dec_pull_response c = Inr (public_response x)"
      unfolding cs(2) Batch using cs(3) by (simp add: dec_pull_response_def item_read max_container_items_def)
    moreover have "representable c"
      unfolding cs(2) representable_containers(1) [of "[_, _]"] using cs(4) by (simp add: item_read)
    ultimately show ?thesis using cs(1) by simp
  next
    case (Reset reset)
    let ?k = "\<lambda>rs. array_of [emit (integer 1), emit (integer (reset_reason_code (rs_reason reset))),
         enc_checkpoint (rs_checkpoint reset), emit (CArray rs)]"
    from Reset e w obtain b0 where "within b0"
      "vec (len (rs_records reset)) (ebind (each enc_snapshot_record (rs_records reset)) ?k) b0 = Inr (b', c)"
      by (auto dest!: item_within)
    from snapshot_part.vec_part [OF this(2,1)] t Reset obtain b1 cs where cs: "within b1" "?k cs b1 = Inr (b', c)"
      "vec_decode (CArray cs) dec_snapshot_record = Inr (map id (rs_records reset))"
      "representable (CArray cs)" "cbor_depth (CArray cs) \<le> Suc 68" by auto
    from cs(2) obtain cc where p: "enc_checkpoint (rs_checkpoint reset) b1 = Inr (b', cc)"
      "c = CArray [integer 1, integer (reset_reason_code (rs_reason reset)), cc, CArray cs]"
      by (auto simp: enc_conv)
    have cp: "within b' \<and> decode_checkpoint cc = Inr (id (rs_checkpoint reset)) \<and> representable cc \<and> cbor_depth cc \<le> 2"
      using checkpoint_part.part [OF p(1) cs(1)] t Reset by simp
    have "cbor_depth c \<le> Suc 72"
      unfolding p(2) cbor_depth_le(1) using order.trans [OF cs(5), of 72] cp by (simp add: item_read)
    moreover have "dec_pull_response c = Inr (public_response x)"
      unfolding p(2) Reset using cs(3) cp
      by (simp add: dec_pull_response_def item_read max_container_items_def reset_reason_read)
    moreover have "representable c"
      unfolding p(2) representable_containers(1) [of "[_, _, _, _]"] using cs(4) cp by (simp add: item_read)
    ultimately show ?thesis using cp by simp
  qed
next
  fix x
  show "enc_pull_response (public_response x) = enc_pull_response x"
    by (cases x) (simp_all add: enc_view_list [OF frame_part.wire_part_axioms])
qed

section \<open>Envelopes\<close>

lemma encoder_family_within: "encoder_family family = Inr b \<Longrightarrow> within b"
  by (auto simp: encoder_family_def rbind_Inr take_items_Inr take_bytes_Inr within_def)

lemma encode_family_message_Inr:
  "encode_family_message ser family kind payload = Inr bytes \<longleftrightarrow>
     (\<exists>b b' c. encoder_family family = Inr b \<and> payload b = Inr (b', c)
        \<and> encode_cbor_value ser (CArray [CText family, integer schema_v1, integer kind, c]) = Inr bytes)"
  by (auto simp: encode_family_message_def rbind_Inr)

lemma decode_family_message_size:
  "decode_family_message de bytes family kind = Inr c \<Longrightarrow>
     len bytes \<le> max_encoded_bytes \<and> preflight_canonical_cbor bytes = Inr ()"
  by (auto simp: decode_family_message_def rbind_Inr split: if_splits)

text \<open>A reader of messages of one kind, as each \<open>decode_*\<close> function of the source is written.\<close>

definition read_message ::
  "serializer \<Rightarrow> deserializer \<Rightarrow> u64 \<Rightarrow> ('a \<Rightarrow> cbor encoder) \<Rightarrow> (cbor \<Rightarrow> codec_error + 'a) \<Rightarrow> byte list \<Rightarrow> codec_error + 'a" where
  "read_message ser de kind enc dec bytes =
     rbind (decode_message de bytes kind) (\<lambda>payload.
     rbind (dec payload) (\<lambda>m.
     rbind (encode_message ser kind (enc m)) (\<lambda>encoded.
     rbind (require_typed_canonical bytes encoded) (\<lambda>_. Inr m))))"

lemma read_messages:
  "decode_push_request ser de = read_message ser de push_request_kind enc_push_request dec_push_request"
  "decode_push_response ser de = read_message ser de push_response_kind enc_push_response dec_push_response"
  "decode_pull_request ser de = read_message ser de pull_request_kind enc_pull_request dec_pull_request"
  "decode_pull_response ser de = read_message ser de pull_response_kind enc_pull_response dec_pull_response"
  unfolding fun_eq_iff read_message_def decode_push_request_def decode_push_response_def
    decode_pull_request_def decode_pull_response_def encode_push_request_def encode_push_response_def
    encode_pull_request_def encode_pull_response_def
  by simp_all

lemma read_message_Inr:
  assumes "read_message ser de kind enc dec bytes = Inr m"
  shows "encode_message ser kind (enc m) = Inr bytes \<and> preflight_canonical_cbor bytes = Inr ()
    \<and> len bytes \<le> max_encoded_bytes"
  using assms decode_family_message_size [of de bytes v1_name kind]
  by (auto simp: read_message_def decode_message_def rbind_Inr require_typed_canonical_def split: if_splits)

context wire_part
begin

lemma envelope_read:
  assumes lib: "cbor_library ser de" and enc: "encode_family_message ser family kind (enc m) = Inr bytes"
    and m: "ok m" and pre: "preflight_canonical_cbor bytes = Inr ()" and d: "depth \<le> 127"
    and f: "utf8 family" "len family \<le> max_identity_bytes"
  shows "\<exists>c. dec c = Inr (view m)
    \<and> (\<forall>other. decode_family_message de bytes family other = (if kind = other then Inr c else Inl InvalidEnvelope))"
proof -
  from enc obtain b b' c where b: "encoder_family family = Inr b" "enc m b = Inr (b', c)"
    and bytes: "encode_cbor_value ser (CArray [CText family, integer schema_v1, integer kind, c]) = Inr bytes"
    by (auto simp: encode_family_message_Inr)
  have p: "dec c = Inr (view m) \<and> representable c \<and> cbor_depth c \<le> depth"
    using part [OF b(2) encoder_family_within [OF b(1)] m] by simp
  let ?e = "CArray [CText family, integer schema_v1, integer kind, c]"
  have "cbor_depth ?e \<le> Suc 127" unfolding cbor_depth_le(1) using p d by (auto simp: item_read)
  moreover have "representable ?e" using p f by (simp add: item_read)
  ultimately have de: "de bytes = Some (?e, length bytes)"
    using cbor_library.decode_written [OF lib bytes] by simp
  have "len bytes \<le> max_encoded_bytes" using encode_Inr [OF bytes] by auto
  then have "decode_family_message de bytes family other = (if kind = other then Inr c else Inl InvalidEnvelope)"
    for other using pre de by (auto simp: decode_family_message_def item_read)
  then show ?thesis using p by blast
qed

lemma message_read:
  assumes "cbor_library ser de" and "encode_message ser kind (enc m) = Inr bytes" and "ok m"
    and "preflight_canonical_cbor bytes = Inr ()" and "depth \<le> 127"
  shows "read_message ser de kind enc dec bytes = Inr (view m)
    \<and> (other \<noteq> kind \<longrightarrow> decode_message de bytes other = Inl InvalidEnvelope)"
proof -
  have "utf8 v1_name \<and> len v1_name \<le> max_identity_bytes" by code_simp
  with envelope_read [OF assms(1) assms(2) [unfolded encode_message_def] assms(3-5)] obtain c where
    "dec c = Inr (view m)"
    "\<And>other. decode_message de bytes other = (if kind = other then Inr c else Inl InvalidEnvelope)"
    unfolding decode_message_def by blast
  then show ?thesis
    using assms(2) by (simp add: read_message_def enc_view require_typed_canonical_def)
qed

text \<open>When nothing is left out of the bytes, reading and writing are inverse.\<close>

lemma message_iff:
  assumes "cbor_library ser de" and "ok m" and "view m = m" and "depth \<le> 127"
  shows "read_message ser de kind enc dec bytes = Inr m \<longleftrightarrow>
    encode_message ser kind (enc m) = Inr bytes \<and> preflight_canonical_cbor bytes = Inr ()"
  using message_read [OF assms(1) _ assms(2) _ assms(4)] read_message_Inr [of ser de kind enc dec bytes m] assms(3)
  by metis

end

end
