(* ===== verification/Http_Properties.thy ===== *)
theory Http_Properties
  imports Http_Roundtrip
begin

text \<open>
  The properties of the HTTP message codec, for every CBOR library that meets the law of
  \<open>cbor_library\<close>, with witnesses on the codec of \<open>Reference_Cbor\<close>.
\<close>

section \<open>Sample messages\<close>

definition demo_commit_id :: commit_identity where
  "demo_commit_id = \<lparr>client_commit_id = ClientCommitId ''c1'',
     fingerprint = Fingerprint (fingerprint_prefix @ concat (replicate 16 ''09af''))\<rparr>"

definition demo_push_request :: "canonical_value \<Rightarrow> canonical_value push_request" where
  "demo_push_request v = \<lparr>pq_schema_version = V1, pq_partition_id = PartitionId ''p'', pq_client_id = ClientId ''c'',
     pq_commit = \<lparr>identity = demo_commit_id,
       operations = [Upsert (RecordId ''r:1'') (BaseExact 4) v (Some (RecordId ''r:2'')), Delete (RecordId ''r:3'') 9]\<rparr>\<rparr>"

definition demo_push_response :: "canonical_value push_response" where
  "demo_push_response = \<lparr>ps_schema_version = V1, ps_partition_id = PartitionId ''p'', ps_client_id = ClientId ''c'',
     ps_outcome = Conflict demo_commit_id (RecordId ''r:1'') (Present (VBool True) 300 None)\<rparr>"

definition demo_checkpoint :: checkpoint where
  "demo_checkpoint = \<lparr>token = OpaqueCheckpoint ''t'', cursor = \<lparr>epoch = 1, sequence = 5\<rparr>,
     scope = \<lparr>scope_id = ScopeIdentity ''s'', authorization_revision = 2, scope_subscription_revision = 3\<rparr>\<rparr>"

definition demo_pull_response :: "canonical_value pull_response" where
  "demo_pull_response = Batch \<lparr>frames = [Start demo_checkpoint,
     Commit (OpaqueCheckpoint ''t'') \<lparr>pc_sequence = 5, pc_source = Some demo_commit_id,
       pc_records = [\<lparr>ar_record_id = RecordId ''r:1'', ar_state = Tombstone 7\<rparr>]\<rparr>,
     End demo_checkpoint]\<rparr>"

definition demo_request_bytes :: "byte list" where
  "demo_request_bytes = projr (encode_push_request rfc_ser (demo_push_request (VInt 7)))"

definition demo_response_bytes :: "byte list" where
  "demo_response_bytes = projr (encode_push_response rfc_ser demo_push_response)"

definition demo_pull_bytes :: "byte list" where
  "demo_pull_bytes = projr (encode_pull_response rfc_ser demo_pull_response)"

text \<open>A value of thirty nested arrays, below the depth limit of 32.\<close>

definition deep_value :: canonical_value where
  "deep_value = ((\<lambda>v. VArray [v]) ^^ 30) VNull"

lemma demo_request_ok:
  "encode_push_request rfc_ser (demo_push_request (VInt 7)) = Inr demo_request_bytes
   \<and> preflight_canonical_cbor demo_request_bytes = Inr () \<and> typed_push_request (demo_push_request (VInt 7))"
  by code_simp

lemma demo_response_ok:
  "encode_push_response rfc_ser demo_push_response = Inr demo_response_bytes
   \<and> preflight_canonical_cbor demo_response_bytes = Inr () \<and> typed_push_response demo_push_response"
  by code_simp

lemma demo_pull_ok:
  "encode_pull_response rfc_ser demo_pull_response = Inr demo_pull_bytes
   \<and> preflight_canonical_cbor demo_pull_bytes = Inr () \<and> typed_pull_response demo_pull_response"
  by code_simp

section \<open>Properties\<close>

text \<open>
  C32: push messages survive the wire exactly: bytes decode to a push request (or response)
  if and only if they are its encoding and pass the structural preflight, so every field,
  operation, value, outcome and mapping arrives unchanged and no second encoding exists.
\<close>

theorem push_messages_roundtrip:
  assumes "cbor_library ser de" and "typed_push_request request" and "typed_push_response response"
  shows "(decode_push_request ser de bytes = Inr request \<longleftrightarrow>
      encode_push_request ser request = Inr bytes \<and> preflight_canonical_cbor bytes = Inr ())
    \<and> (decode_push_response ser de bytes = Inr response \<longleftrightarrow>
      encode_push_response ser response = Inr bytes \<and> preflight_canonical_cbor bytes = Inr ())"
  unfolding read_messages encode_push_request_def encode_push_response_def
  using push_request_part.message_iff [OF assms(1,2)] push_response_part.message_iff [OF assms(1,3)] by simp

theorem push_messages_roundtrip_witness:
  "decode_push_request rfc_ser rfc_de demo_request_bytes = Inr (demo_push_request (VInt 7))
   \<and> decode_push_response rfc_ser rfc_de demo_response_bytes = Inr demo_push_response"
  using push_messages_roundtrip [OF rfc.cbor_library_axioms, of "demo_push_request (VInt 7)" demo_push_response]
    demo_request_ok demo_response_ok by simp

text \<open>
  C33: pull messages survive the wire.  If the encoding of a well-typed message (one whose texts are
  what a Rust string or value can hold) passes the structural preflight, a pull request is read back as
  it was sent, and a pull response as it was sent except that the source identity of every
  commit is withheld.
\<close>

theorem pull_messages_roundtrip:
  assumes "cbor_library ser de" and "preflight_canonical_cbor bytes = Inr ()"
    and "typed_pull_request request" and "typed_pull_response response"
  shows "(encode_pull_request ser request = Inr bytes \<longrightarrow> decode_pull_request ser de bytes = Inr request)
    \<and> (encode_pull_response ser response = Inr bytes \<longrightarrow>
         decode_pull_response ser de bytes = Inr (public_response response))"
  unfolding read_messages encode_pull_request_def encode_pull_response_def
  using pull_request_part.message_read [OF assms(1) _ assms(3,2)]
    pull_response_part.message_read [OF assms(1) _ assms(4,2)] by simp

theorem pull_messages_roundtrip_witness:
  "decode_pull_response rfc_ser rfc_de demo_pull_bytes = Inr (public_response demo_pull_response)
   \<and> public_response demo_pull_response \<noteq> demo_pull_response"
proof
  have "typed_pull_request \<lparr>pl_schema_version = V1, pl_partition_id = PartitionId ''p'', pl_client_id = ClientId ''c'',
      pl_checkpoint = None, pl_requested_scope = ScopeIdentity ''s'', pl_subscription_revision = 0\<rparr>" by code_simp
  from pull_messages_roundtrip [OF rfc.cbor_library_axioms _ this, of demo_pull_bytes demo_pull_response] demo_pull_ok
  show "decode_pull_response rfc_ser rfc_de demo_pull_bytes = Inr (public_response demo_pull_response)" by simp
  show "public_response demo_pull_response \<noteq> demo_pull_response" by code_simp
qed

text \<open>
  Messages of one kind are never read as another: the bytes of a push request are refused
  as an invalid envelope by the readers of push responses, pull requests and pull responses.
\<close>

theorem message_kinds_disjoint:
  assumes "cbor_library ser de" and "typed_push_request request"
    and "encode_push_request ser request = Inr bytes" and "preflight_canonical_cbor bytes = Inr ()"
  shows "decode_push_response ser de bytes = Inl InvalidEnvelope
    \<and> decode_pull_request ser de bytes = Inl InvalidEnvelope
    \<and> decode_pull_response ser de bytes = Inl InvalidEnvelope"
proof -
  have "decode_message de bytes other = Inl InvalidEnvelope" if "other \<noteq> push_request_kind" for other
    using push_request_part.message_read [OF assms(1) assms(3) [unfolded encode_push_request_def] assms(2,4)] that
    by simp
  then show ?thesis
    by (simp add: decode_push_response_def decode_pull_request_def decode_pull_response_def
        push_request_kind_def push_response_kind_def pull_request_kind_def pull_response_kind_def)
qed

theorem message_kinds_disjoint_witness:
  "decode_pull_response rfc_ser rfc_de demo_request_bytes = Inl InvalidEnvelope"
  using message_kinds_disjoint [OF rfc.cbor_library_axioms, of "demo_push_request (VInt 7)" demo_request_bytes]
    demo_request_ok by simp

text \<open>
  The encoder does not run the preflight its decoder runs.  An example on the reference codec:
  a value of thirty nested arrays, which the canonical codec itself round-trips, gives a push
  request that encodes without an error and is refused by the decoder, because the envelope
  adds five levels of nesting.
\<close>

lemma deep_push_request_unreadable:
  "\<exists>bytes. encode_push_request rfc_ser (demo_push_request deep_value) = Inr bytes
    \<and> decode_push_request rfc_ser rfc_de bytes = Inl DepthLimit
    \<and> (\<exists>alone. canonical_cbor rfc_ser deep_value = Inr alone
         \<and> decode_canonical_cbor rfc_ser rfc_de alone = Inr deep_value)"
proof -
  have "decode_push_request rfc_ser rfc_de (projr (encode_push_request rfc_ser (demo_push_request deep_value)))
      = Inl DepthLimit" by code_simp
  moreover have "encode_push_request rfc_ser (demo_push_request deep_value) =
      Inr (projr (encode_push_request rfc_ser (demo_push_request deep_value)))" by code_simp
  moreover have "canonical_cbor rfc_ser deep_value = Inr (projr (canonical_cbor rfc_ser deep_value))" by code_simp
  moreover have "decode_canonical_cbor rfc_ser rfc_de (projr (canonical_cbor rfc_ser deep_value)) = Inr deep_value"
    by code_simp
  ultimately show ?thesis by blast
qed

end
