(* ===== verification/Bootstrap_Codec.thy ===== *)
theory Bootstrap_Codec
  imports Http_Codec
begin

text \<open>
  The separately versioned bootstrap messages
  (\<open>crates/surrealdb-sync-protocol/src/bootstrap.rs\<close>) and their canonical arrays, digests and
  streaming verification (\<open>bootstrap_codec.rs\<close>).  SHA-256 is a parameter; its incremental
  state is the input so far, since a digest depends on nothing else.  A \<open>[u8; 32]\<close> is a
  byte list; that it has 32 elements is part of the type and stated where it is used.
\<close>

section \<open>Messages\<close>

definition bootstrap_name :: string where "bootstrap_name = ''surrealdb-sync-bootstrap/1''"
definition max_bootstrap_records :: u64 where "max_bootstrap_records = 16384"
definition max_bootstrap_pages :: u64 where "max_bootstrap_pages = 16384"
definition max_bootstrap_content_bytes :: u64 where "max_bootstrap_content_bytes = 64 * 1024 * 1024"

datatype bootstrap_digest = BootstrapDigest (digest_bytes: "byte list")

record bootstrap_start_request =
  bs_partition_id :: partition_id
  bs_client_id :: client_id
  bs_request_id :: string
  bs_requested_scope :: scope_identity
  bs_subscription_revision :: u64
  bs_journal_generation :: string

record bootstrap_context =
  bx_authority_id :: string
  bx_principal_id :: string
  bx_partition_id :: partition_id
  bx_client_id :: client_id
  bx_journal_generation :: string
  bx_scope :: scope_snapshot

record bootstrap_limits =
  max_records :: u64
  max_pages :: u64
  max_content_bytes :: u64

definition default_bootstrap_limits :: bootstrap_limits where
  "default_bootstrap_limits = \<lparr>max_records = max_bootstrap_records, max_pages = max_bootstrap_pages,
     max_content_bytes = max_bootstrap_content_bytes\<rparr>"

record bootstrap_manifest =
  bm_session_id :: string
  bm_start_request_id :: string
  bm_start_fingerprint :: bootstrap_digest
  bm_context :: bootstrap_context
  bm_cursor :: cursor
  bm_limits :: bootstrap_limits
  bm_page_count :: u64
  bm_record_count :: u64
  bm_content_bytes :: u64
  bm_root :: bootstrap_digest
  bm_expires_at :: u64

record bootstrap_page_request =
  bq_partition_id :: partition_id
  bq_client_id :: client_id
  bq_session_id :: string
  bq_index :: u64

record bootstrap_page =
  bp_session_id :: string
  bp_manifest_digest :: bootstrap_digest
  bp_index :: u64
  bp_records :: "canonical_value snapshot_record list"

record bootstrap_complete_request =
  bc_partition_id :: partition_id
  bc_client_id :: client_id
  bc_session_id :: string
  bc_manifest_digest :: bootstrap_digest

record bootstrap_receipt =
  br_session_id :: string
  br_manifest_digest :: bootstrap_digest
  br_checkpoint :: checkpoint
  br_expires_at :: u64

record bootstrap_content_summary =
  su_page_count :: u64
  su_record_count :: u64
  su_content_bytes :: u64
  su_root :: bootstrap_digest

section \<open>Digests\<close>

definition ascii :: "string \<Rightarrow> byte list" where
  "ascii s = map (\<lambda>ch. word_of_int (of_char ch)) s"

definition start_domain :: "byte list" where "start_domain = ascii ''surrealdb-sync-bootstrap/1/start/sha256''"
definition page_domain :: "byte list" where "page_domain = ascii ''surrealdb-sync-bootstrap/1/page-content/sha256''"
definition root_domain :: "byte list" where "root_domain = ascii ''surrealdb-sync-bootstrap/1/ordered-root/sha256''"
definition manifest_domain :: "byte list" where "manifest_domain = ascii ''surrealdb-sync-bootstrap/1/manifest/sha256''"

definition to_be_bytes :: "u64 \<Rightarrow> byte list" where
  "to_be_bytes n = map (\<lambda>k. ucast (drop_bit (8 * k) n)) [7, 6, 5, 4, 3, 2, 1, 0]"

definition frame :: "byte list \<Rightarrow> byte list \<Rightarrow> byte list" where
  "frame hasher bytes = hasher @ to_be_bytes (of_nat (length bytes)) @ bytes"

definition digest :: "(byte list \<Rightarrow> byte list) \<Rightarrow> byte list \<Rightarrow> byte list \<Rightarrow> bootstrap_digest" where
  "digest sha256 domain bytes = BootstrapDigest (sha256 (frame (frame [] domain) bytes))"

definition decoded_digest :: "cbor \<Rightarrow> codec_error + bootstrap_digest" where
  "decoded_digest value =
     (case value of
        CBytes bytes \<Rightarrow> if length bytes = 32 then Inr (BootstrapDigest bytes) else Inl InvalidEnvelope
      | _ \<Rightarrow> Inl InvalidEnvelope)"

section \<open>Bounds\<close>

definition bounded_index :: "u64 \<Rightarrow> codec_error + unit" where
  "bounded_index index = (if index < max_bootstrap_pages then Inr () else Inl ContainerLimit)"

definition valid_limits :: "bootstrap_limits \<Rightarrow> bool" where
  "valid_limits l \<longleftrightarrow> max_records l > 0 \<and> max_records l \<le> max_bootstrap_records
     \<and> max_pages l > 0 \<and> max_pages l \<le> max_bootstrap_pages
     \<and> max_content_bytes l > 0 \<and> max_content_bytes l \<le> max_bootstrap_content_bytes"

definition valid_manifest :: "bootstrap_manifest \<Rightarrow> codec_error + unit" where
  "valid_manifest m =
     (if \<not> valid_limits (bm_limits m) \<or> bm_page_count m > max_pages (bm_limits m)
         \<or> bm_record_count m > max_records (bm_limits m) \<or> bm_content_bytes m > max_content_bytes (bm_limits m)
      then Inl ContainerLimit
      else if (bm_page_count m = 0 \<and> (bm_record_count m \<noteq> 0 \<or> bm_content_bytes m \<noteq> 0))
         \<or> (bm_page_count m > 0 \<and> (bm_record_count m < bm_page_count m \<or> bm_content_bytes m = 0))
      then Inl InvalidEnvelope
      else Inr ())"

section \<open>Encoder passes without payload (http_codec.rs)\<close>

definition preflight_identity :: "string \<Rightarrow> budget \<Rightarrow> codec_error + budget" where
  "preflight_identity value b =
     (if value = [] \<or> len value > max_identity_bytes then Inl InvalidIdentifier
      else rbind (take_bytes (len value) b) (take_items 1))"

definition preflight_digest :: "budget \<Rightarrow> codec_error + budget" where
  "preflight_digest b = rbind (take_bytes 32 b) (take_items 1)"

definition enc_digest :: "bootstrap_digest \<Rightarrow> cbor encoder" where
  "enc_digest d b = rbind (preflight_digest b) (\<lambda>b. Inr (b, CBytes (digest_bytes d)))"

fun preflight_state :: "nat \<Rightarrow> canonical_value record_state \<Rightarrow> budget \<Rightarrow> codec_error + budget" where
  "preflight_state value_depth Absent b = take_items 2 b"
| "preflight_state value_depth (Tombstone version) b = take_items 3 b"
| "preflight_state value_depth (Present value version reference) b =
     rbind (take_items 5 b) (\<lambda>b.
     rbind (validate_with_budget value value_depth b) (\<lambda>b.
     case reference of
       Some r \<Rightarrow> preflight_identity (record_str r) b
     | None \<Rightarrow> take_items 1 b))"

definition preflight_snapshot_records ::
  "canonical_value snapshot_record list \<Rightarrow> nat \<Rightarrow> budget \<Rightarrow> codec_error + budget" where
  "preflight_snapshot_records records value_depth b =
     (if len records > max_container_items then Inl ContainerLimit
      else rbind (take_items (len records + 1) b) (\<lambda>b.
        try_fold (\<lambda>b r. rbind (take_items 3 b) (\<lambda>b.
          rbind (preflight_identity (record_str (sr_record_id r)) b) (\<lambda>b.
          preflight_state value_depth (sr_state r) b))) b records))"

section \<open>Payloads\<close>

definition enc_scope :: "scope_snapshot \<Rightarrow> cbor encoder" where
  "enc_scope s = item 3 (array_of [enc_identity_text (scope_str (scope_id s)),
     emit (integer (authorization_revision s)), emit (integer (scope_subscription_revision s))])"

definition decode_scope :: "cbor \<Rightarrow> codec_error + scope_snapshot" where
  "decode_scope v = rbind (array_n 3 v) (\<lambda>values.
     rbind (identity_item (values ! 0)) (\<lambda>i.
     rbind (unsigned_item (values ! 1)) (\<lambda>a.
     rbind (unsigned_item (values ! 2)) (\<lambda>s.
     Inr \<lparr>scope_id = ScopeIdentity i, authorization_revision = a, scope_subscription_revision = s\<rparr>))))"

definition enc_context :: "bootstrap_context \<Rightarrow> cbor encoder" where
  "enc_context c = item 7 (array_of [enc_identity_text (bx_authority_id c), enc_identity_text (bx_principal_id c),
     enc_identity_text (partition_str (bx_partition_id c)), enc_identity_text (client_str (bx_client_id c)),
     enc_identity_text (bx_journal_generation c), enc_scope (bx_scope c)])"

definition decode_context :: "cbor \<Rightarrow> codec_error + bootstrap_context" where
  "decode_context v = rbind (array_n 6 v) (\<lambda>values.
     rbind (identity_item (values ! 0)) (\<lambda>a.
     rbind (identity_item (values ! 1)) (\<lambda>p.
     rbind (identity_item (values ! 2)) (\<lambda>partition.
     rbind (identity_item (values ! 3)) (\<lambda>client.
     rbind (identity_item (values ! 4)) (\<lambda>g.
     rbind (decode_scope (values ! 5)) (\<lambda>s.
     Inr \<lparr>bx_authority_id = a, bx_principal_id = p, bx_partition_id = PartitionId partition,
          bx_client_id = ClientId client, bx_journal_generation = g, bx_scope = s\<rparr>)))))))"

definition enc_start :: "bootstrap_start_request \<Rightarrow> cbor encoder" where
  "enc_start r = item 7 (array_of [enc_identity_text (partition_str (bs_partition_id r)),
     enc_identity_text (client_str (bs_client_id r)), enc_identity_text (bs_request_id r),
     enc_identity_text (scope_str (bs_requested_scope r)), emit (integer (bs_subscription_revision r)),
     enc_identity_text (bs_journal_generation r)])"

definition dec_start :: "cbor \<Rightarrow> codec_error + bootstrap_start_request" where
  "dec_start v = rbind (array_n 6 v) (\<lambda>values.
     rbind (identity_item (values ! 0)) (\<lambda>p.
     rbind (identity_item (values ! 1)) (\<lambda>c.
     rbind (identity_item (values ! 2)) (\<lambda>i.
     rbind (identity_item (values ! 3)) (\<lambda>s.
     rbind (unsigned_item (values ! 4)) (\<lambda>rev.
     rbind (identity_item (values ! 5)) (\<lambda>g.
     Inr \<lparr>bs_partition_id = PartitionId p, bs_client_id = ClientId c, bs_request_id = i,
          bs_requested_scope = ScopeIdentity s, bs_subscription_revision = rev,
          bs_journal_generation = g\<rparr>)))))))"

definition enc_manifest :: "bootstrap_manifest \<Rightarrow> cbor encoder" where
  "enc_manifest m = item 12 (ebind (enc_context (bm_context m)) (\<lambda>c.
     array_of [enc_identity_text (bm_session_id m), enc_identity_text (bm_start_request_id m),
       enc_digest (bm_start_fingerprint m), emit c,
       emit (CArray [integer (epoch (bm_cursor m)), integer (sequence (bm_cursor m))]),
       emit (CArray [integer (max_records (bm_limits m)), integer (max_pages (bm_limits m)),
                     integer (max_content_bytes (bm_limits m))]),
       emit (integer (bm_page_count m)), emit (integer (bm_record_count m)), emit (integer (bm_content_bytes m)),
       enc_digest (bm_root m), emit (integer (bm_expires_at m))]))"

definition dec_manifest :: "cbor \<Rightarrow> codec_error + bootstrap_manifest" where
  "dec_manifest v = rbind (array_n 11 v) (\<lambda>values.
     rbind (array_n 2 (values ! 4)) (\<lambda>position.
     rbind (array_n 3 (values ! 5)) (\<lambda>limits.
     rbind (identity_item (values ! 0)) (\<lambda>i.
     rbind (identity_item (values ! 1)) (\<lambda>start.
     rbind (decoded_digest (values ! 2)) (\<lambda>fp.
     rbind (decode_context (values ! 3)) (\<lambda>ctx.
     rbind (unsigned_item (position ! 0)) (\<lambda>e.
     rbind (unsigned_item (position ! 1)) (\<lambda>s.
     rbind (unsigned_item (limits ! 0)) (\<lambda>lr.
     rbind (unsigned_item (limits ! 1)) (\<lambda>lp.
     rbind (unsigned_item (limits ! 2)) (\<lambda>lc.
     rbind (unsigned_item (values ! 6)) (\<lambda>pages.
     rbind (unsigned_item (values ! 7)) (\<lambda>records.
     rbind (unsigned_item (values ! 8)) (\<lambda>size.
     rbind (decoded_digest (values ! 9)) (\<lambda>root.
     rbind (unsigned_item (values ! 10)) (\<lambda>expiry.
     Inr \<lparr>bm_session_id = i, bm_start_request_id = start, bm_start_fingerprint = fp, bm_context = ctx,
          bm_cursor = \<lparr>epoch = e, sequence = s\<rparr>,
          bm_limits = \<lparr>max_records = lr, max_pages = lp, max_content_bytes = lc\<rparr>,
          bm_page_count = pages, bm_record_count = records, bm_content_bytes = size,
          bm_root = root, bm_expires_at = expiry\<rparr>)))))))))))))))))"

definition enc_page_request :: "bootstrap_page_request \<Rightarrow> cbor encoder" where
  "enc_page_request r = item 5 (array_of [enc_identity_text (partition_str (bq_partition_id r)),
     enc_identity_text (client_str (bq_client_id r)), enc_identity_text (bq_session_id r),
     emit (integer (bq_index r))])"

definition dec_page_request :: "cbor \<Rightarrow> codec_error + bootstrap_page_request" where
  "dec_page_request v = rbind (array_n 4 v) (\<lambda>values.
     rbind (identity_item (values ! 0)) (\<lambda>p.
     rbind (identity_item (values ! 1)) (\<lambda>c.
     rbind (identity_item (values ! 2)) (\<lambda>s.
     rbind (unsigned_item (values ! 3)) (\<lambda>i.
     Inr \<lparr>bq_partition_id = PartitionId p, bq_client_id = ClientId c, bq_session_id = s, bq_index = i\<rparr>)))))"

definition enc_page :: "bootstrap_page \<Rightarrow> cbor encoder" where
  "enc_page p = item 5 (ebind (enc_identity_text (bp_session_id p)) (\<lambda>i.
     ebind (enc_digest (bp_manifest_digest p)) (\<lambda>hash.
     vec (len (bp_records p)) (ebind (each enc_snapshot_record (bp_records p)) (\<lambda>records.
       emit (CArray [i, hash, integer (bp_index p), CArray records]))))))"

definition dec_page :: "cbor \<Rightarrow> codec_error + bootstrap_page" where
  "dec_page v = rbind (array_n 4 v) (\<lambda>values.
     rbind (vec_decode (values ! 3) dec_snapshot_record) (\<lambda>records.
     rbind (identity_item (values ! 0)) (\<lambda>i.
     rbind (decoded_digest (values ! 1)) (\<lambda>hash.
     rbind (unsigned_item (values ! 2)) (\<lambda>index.
     Inr \<lparr>bp_session_id = i, bp_manifest_digest = hash, bp_index = index, bp_records = records\<rparr>)))))"

definition enc_complete :: "bootstrap_complete_request \<Rightarrow> cbor encoder" where
  "enc_complete r = item 5 (array_of [enc_identity_text (partition_str (bc_partition_id r)),
     enc_identity_text (client_str (bc_client_id r)), enc_identity_text (bc_session_id r),
     enc_digest (bc_manifest_digest r)])"

definition dec_complete :: "cbor \<Rightarrow> codec_error + bootstrap_complete_request" where
  "dec_complete v = rbind (array_n 4 v) (\<lambda>values.
     rbind (identity_item (values ! 0)) (\<lambda>p.
     rbind (identity_item (values ! 1)) (\<lambda>c.
     rbind (identity_item (values ! 2)) (\<lambda>s.
     rbind (decoded_digest (values ! 3)) (\<lambda>h.
     Inr \<lparr>bc_partition_id = PartitionId p, bc_client_id = ClientId c, bc_session_id = s,
          bc_manifest_digest = h\<rparr>)))))"

definition enc_receipt :: "bootstrap_receipt \<Rightarrow> cbor encoder" where
  "enc_receipt r = item 5 (array_of [enc_identity_text (br_session_id r), enc_digest (br_manifest_digest r),
     enc_checkpoint (br_checkpoint r), emit (integer (br_expires_at r))])"

definition dec_receipt :: "cbor \<Rightarrow> codec_error + bootstrap_receipt" where
  "dec_receipt v = rbind (array_n 4 v) (\<lambda>values.
     rbind (identity_item (values ! 0)) (\<lambda>s.
     rbind (decoded_digest (values ! 1)) (\<lambda>h.
     rbind (decode_checkpoint (values ! 2)) (\<lambda>c.
     rbind (unsigned_item (values ! 3)) (\<lambda>t.
     Inr \<lparr>br_session_id = s, br_manifest_digest = h, br_checkpoint = c, br_expires_at = t\<rparr>)))))"

section \<open>Messages on the wire\<close>

definition encode_bootstrap_message :: "serializer \<Rightarrow> u64 \<Rightarrow> cbor encoder \<Rightarrow> codec_error + byte list" where
  "encode_bootstrap_message ser kind payload =
     rbind (encode_family_message ser bootstrap_name kind payload) (\<lambda>bytes.
     rbind (preflight_canonical_cbor bytes) (\<lambda>_. Inr bytes))"

definition canonical :: "byte list \<Rightarrow> byte list \<Rightarrow> codec_error + unit" where
  "canonical input encoded = (if input = encoded then Inr () else Inl NonCanonical)"

definition encode_bootstrap_start :: "serializer \<Rightarrow> bootstrap_start_request \<Rightarrow> codec_error + byte list" where
  "encode_bootstrap_start ser r = encode_bootstrap_message ser 0 (enc_start r)"

definition decode_bootstrap_start ::
  "serializer \<Rightarrow> deserializer \<Rightarrow> byte list \<Rightarrow> codec_error + bootstrap_start_request" where
  "decode_bootstrap_start ser de bytes =
     rbind (decode_family_message de bytes bootstrap_name 0) (\<lambda>payload.
     rbind (dec_start payload) (\<lambda>r.
     rbind (encode_bootstrap_start ser r) (\<lambda>encoded.
     rbind (canonical bytes encoded) (\<lambda>_. Inr r))))"

definition bootstrap_start_fingerprint ::
  "serializer \<Rightarrow> (byte list \<Rightarrow> byte list) \<Rightarrow> bootstrap_start_request \<Rightarrow> codec_error + bootstrap_digest" where
  "bootstrap_start_fingerprint ser sha256 r =
     rbind (encode_bootstrap_start ser r) (\<lambda>bytes. Inr (digest sha256 start_domain bytes))"

definition encode_bootstrap_manifest :: "serializer \<Rightarrow> bootstrap_manifest \<Rightarrow> codec_error + byte list" where
  "encode_bootstrap_manifest ser m =
     rbind (valid_manifest m) (\<lambda>_. encode_bootstrap_message ser 1 (enc_manifest m))"

definition decode_bootstrap_manifest ::
  "serializer \<Rightarrow> deserializer \<Rightarrow> byte list \<Rightarrow> codec_error + bootstrap_manifest" where
  "decode_bootstrap_manifest ser de bytes =
     rbind (decode_family_message de bytes bootstrap_name 1) (\<lambda>payload.
     rbind (dec_manifest payload) (\<lambda>m.
     rbind (encode_bootstrap_manifest ser m) (\<lambda>encoded.
     rbind (canonical bytes encoded) (\<lambda>_. Inr m))))"

definition bootstrap_manifest_digest ::
  "serializer \<Rightarrow> (byte list \<Rightarrow> byte list) \<Rightarrow> bootstrap_manifest \<Rightarrow> codec_error + bootstrap_digest" where
  "bootstrap_manifest_digest ser sha256 m =
     rbind (encode_bootstrap_manifest ser m) (\<lambda>bytes. Inr (digest sha256 manifest_domain bytes))"

text \<open>The disjuncts of the guard are evaluated in order; the fingerprint is computed on the way.\<close>

definition validate_bootstrap_manifest_context ::
  "serializer \<Rightarrow> (byte list \<Rightarrow> byte list) \<Rightarrow> bootstrap_manifest \<Rightarrow> bootstrap_start_request \<Rightarrow>
   bootstrap_context \<Rightarrow> codec_error + unit" where
  "validate_bootstrap_manifest_context ser sha256 m r expected =
     rbind (encode_bootstrap_manifest ser m) (\<lambda>_.
     rbind (encode_bootstrap_start ser r) (\<lambda>_.
     if bm_context m \<noteq> expected \<or> bm_start_request_id m \<noteq> bs_request_id r then Inl InvalidEnvelope
     else rbind (bootstrap_start_fingerprint ser sha256 r) (\<lambda>fp.
     if bm_start_fingerprint m \<noteq> fp \<or> bs_partition_id r \<noteq> bx_partition_id expected
        \<or> bs_client_id r \<noteq> bx_client_id expected
        \<or> bs_journal_generation r \<noteq> bx_journal_generation expected
        \<or> bs_requested_scope r \<noteq> scope_id (bx_scope expected)
        \<or> bs_subscription_revision r \<noteq> scope_subscription_revision (bx_scope expected)
     then Inl InvalidEnvelope else Inr ())))"

definition encode_bootstrap_page_request :: "serializer \<Rightarrow> bootstrap_page_request \<Rightarrow> codec_error + byte list" where
  "encode_bootstrap_page_request ser r =
     rbind (bounded_index (bq_index r)) (\<lambda>_. encode_bootstrap_message ser 2 (enc_page_request r))"

definition decode_bootstrap_page_request ::
  "serializer \<Rightarrow> deserializer \<Rightarrow> byte list \<Rightarrow> codec_error + bootstrap_page_request" where
  "decode_bootstrap_page_request ser de bytes =
     rbind (decode_family_message de bytes bootstrap_name 2) (\<lambda>payload.
     rbind (dec_page_request payload) (\<lambda>r.
     rbind (encode_bootstrap_page_request ser r) (\<lambda>encoded.
     rbind (canonical bytes encoded) (\<lambda>_. Inr r))))"

text \<open>One record after the previous ID.\<close>

fun validate_record_at ::
  "record_id option \<Rightarrow> canonical_value snapshot_record \<Rightarrow> codec_error + record_id option" where
  "validate_record_at previous r =
     (if is_some_and previous (\<lambda>i. i \<ge> sr_record_id r) then Inl InvalidEnvelope
      else case sr_state r of
        Absent \<Rightarrow> Inl InvalidEnvelope
      | Present v version reference \<Rightarrow>
          if version = 0 then Inl InvalidEnvelope else Inr (Some (sr_record_id r))
      | Tombstone version \<Rightarrow>
          if version = 0 then Inl InvalidEnvelope else Inr (Some (sr_record_id r)))"

definition validate_records :: "canonical_value snapshot_record list \<Rightarrow> codec_error + unit" where
  "validate_records records =
     (if records = [] \<or> len records > max_container_items then Inl ContainerLimit
      else rbind (try_fold validate_record_at None records) (\<lambda>_. Inr ()))"

definition preflight_page :: "bootstrap_page \<Rightarrow> codec_error + unit" where
  "preflight_page p =
     rbind (bounded_index (bp_index p)) (\<lambda>_.
     rbind (validate_records (bp_records p)) (\<lambda>_.
     rbind (encoder_family bootstrap_name) (\<lambda>b.
     rbind (take_items 5 b) (\<lambda>b.
     rbind (preflight_identity (bp_session_id p) b) (\<lambda>b.
     rbind (preflight_digest b) (\<lambda>b.
     rbind (preflight_snapshot_records (bp_records p) 5 b) (\<lambda>_. Inr ())))))))"

definition encode_bootstrap_page :: "serializer \<Rightarrow> bootstrap_page \<Rightarrow> codec_error + byte list" where
  "encode_bootstrap_page ser p =
     rbind (preflight_page p) (\<lambda>_. encode_bootstrap_message ser 3 (enc_page p))"

definition decode_bootstrap_page ::
  "serializer \<Rightarrow> deserializer \<Rightarrow> byte list \<Rightarrow> codec_error + bootstrap_page" where
  "decode_bootstrap_page ser de bytes =
     rbind (decode_family_message de bytes bootstrap_name 3) (\<lambda>payload.
     rbind (dec_page payload) (\<lambda>p.
     rbind (encode_bootstrap_page ser p) (\<lambda>encoded.
     rbind (canonical bytes encoded) (\<lambda>_. Inr p))))"

definition encode_content ::
  "serializer \<Rightarrow> u64 \<Rightarrow> canonical_value snapshot_record list \<Rightarrow> codec_error + byte list" where
  "encode_content ser index records =
     rbind (item 3 (vec (len records) (each enc_snapshot_record records)) (max_total_items, max_encoded_bytes))
       (\<lambda>(_, rows). encode_cbor_value ser (CArray [integer index, CArray rows]))"

definition bootstrap_page_content_digest ::
  "serializer \<Rightarrow> (byte list \<Rightarrow> byte list) \<Rightarrow> bootstrap_page \<Rightarrow> codec_error + bootstrap_digest" where
  "bootstrap_page_content_digest ser sha256 p =
     rbind (encode_bootstrap_page ser p) (\<lambda>_.
     rbind (encode_content ser (bp_index p) (bp_records p)) (\<lambda>bytes.
     Inr (digest sha256 page_domain bytes)))"

definition encode_bootstrap_complete :: "serializer \<Rightarrow> bootstrap_complete_request \<Rightarrow> codec_error + byte list" where
  "encode_bootstrap_complete ser r = encode_bootstrap_message ser 4 (enc_complete r)"

definition decode_bootstrap_complete ::
  "serializer \<Rightarrow> deserializer \<Rightarrow> byte list \<Rightarrow> codec_error + bootstrap_complete_request" where
  "decode_bootstrap_complete ser de bytes =
     rbind (decode_family_message de bytes bootstrap_name 4) (\<lambda>payload.
     rbind (dec_complete payload) (\<lambda>r.
     rbind (encode_bootstrap_complete ser r) (\<lambda>encoded.
     rbind (canonical bytes encoded) (\<lambda>_. Inr r))))"

definition encode_bootstrap_receipt :: "serializer \<Rightarrow> bootstrap_receipt \<Rightarrow> codec_error + byte list" where
  "encode_bootstrap_receipt ser r = encode_bootstrap_message ser 5 (enc_receipt r)"

definition decode_bootstrap_receipt ::
  "serializer \<Rightarrow> deserializer \<Rightarrow> byte list \<Rightarrow> codec_error + bootstrap_receipt" where
  "decode_bootstrap_receipt ser de bytes =
     rbind (decode_family_message de bytes bootstrap_name 5) (\<lambda>payload.
     rbind (dec_receipt payload) (\<lambda>r.
     rbind (encode_bootstrap_receipt ser r) (\<lambda>encoded.
     rbind (canonical bytes encoded) (\<lambda>_. Inr r))))"

definition validate_bootstrap_receipt ::
  "serializer \<Rightarrow> (byte list \<Rightarrow> byte list) \<Rightarrow> bootstrap_manifest \<Rightarrow> bootstrap_receipt \<Rightarrow> codec_error + unit" where
  "validate_bootstrap_receipt ser sha256 m r =
     rbind (encode_bootstrap_receipt ser r) (\<lambda>_.
     if br_session_id r \<noteq> bm_session_id m then Inl InvalidEnvelope
     else rbind (bootstrap_manifest_digest ser sha256 m) (\<lambda>d.
     if br_manifest_digest r \<noteq> d \<or> cursor (br_checkpoint r) \<noteq> bm_cursor m
        \<or> scope (br_checkpoint r) \<noteq> bx_scope (bm_context m) \<or> br_expires_at r \<noteq> bm_expires_at m
     then Inl InvalidEnvelope else Inr ()))"

section \<open>Streaming verification\<close>

record bootstrap_content_hasher =
  h_session_id :: string
  next_index :: u64
  h_records :: u64
  h_bytes :: u64
  last_id :: "record_id option"
  root_input :: "byte list"

definition hasher_new :: "string \<Rightarrow> codec_error + bootstrap_content_hasher" where
  "hasher_new session_id =
     (if session_id = [] \<or> len session_id > max_identity_bytes then Inl InvalidIdentifier
      else Inr \<lparr>h_session_id = session_id, next_index = 0, h_records = 0, h_bytes = 0, last_id = None,
                root_input = frame [] root_domain\<rparr>)"

text \<open>
  \<open>p.records[0]\<close> and \<open>last\<close> are reached only after the page was encoded, when it has records
  (see \<open>encode_page_nonempty\<close>).
\<close>

definition hasher_push ::
  "serializer \<Rightarrow> (byte list \<Rightarrow> byte list) \<Rightarrow> bootstrap_content_hasher \<Rightarrow> bootstrap_page \<Rightarrow>
   codec_error + bootstrap_content_hasher" where
  "hasher_push ser sha256 h p =
     (if bp_session_id p \<noteq> h_session_id h \<or> bp_index p \<noteq> next_index h then Inl InvalidEnvelope
      else rbind (encode_bootstrap_page ser p) (\<lambda>_.
      if is_some_and (last_id h) (\<lambda>i. i \<ge> sr_record_id (bp_records p ! 0)) then Inl InvalidEnvelope
      else rbind (encode_content ser (bp_index p) (bp_records p)) (\<lambda>content.
      rbind (ok_or ContainerLimit (checked_add (h_records h) (of_nat (length (bp_records p))))) (\<lambda>records.
      rbind (ok_or EncodedLimit (checked_add (h_bytes h) (of_nat (length content)))) (\<lambda>bytes.
      rbind (ok_or ContainerLimit (checked_add (next_index h) 1)) (\<lambda>next.
      if records > max_bootstrap_records \<or> next > max_bootstrap_pages \<or> bytes > max_bootstrap_content_bytes
      then Inl ContainerLimit
      else Inr (h\<lparr>root_input := frame (frame (root_input h) (to_be_bytes (bp_index p)))
                                  (digest_bytes (digest sha256 page_domain content)),
                  h_records := records, h_bytes := bytes, next_index := next,
                  last_id := Some (sr_record_id (last (bp_records p)))\<rparr>)))))))"

definition hasher_summary :: "(byte list \<Rightarrow> byte list) \<Rightarrow> bootstrap_content_hasher \<Rightarrow> bootstrap_content_summary" where
  "hasher_summary sha256 h = \<lparr>su_page_count = next_index h, su_record_count = h_records h,
     su_content_bytes = h_bytes h, su_root = BootstrapDigest (sha256 (root_input h))\<rparr>"

record bootstrap_verifier =
  bv_manifest :: bootstrap_manifest
  bv_manifest_digest :: bootstrap_digest
  bv_content :: bootstrap_content_hasher

definition verifier_new ::
  "serializer \<Rightarrow> (byte list \<Rightarrow> byte list) \<Rightarrow> bootstrap_manifest \<Rightarrow> codec_error + bootstrap_verifier" where
  "verifier_new ser sha256 manifest =
     rbind (bootstrap_manifest_digest ser sha256 manifest) (\<lambda>d.
     rbind (hasher_new (bm_session_id manifest)) (\<lambda>content.
     Inr \<lparr>bv_manifest = manifest, bv_manifest_digest = d, bv_content = content\<rparr>))"

definition verifier_push ::
  "serializer \<Rightarrow> (byte list \<Rightarrow> byte list) \<Rightarrow> bootstrap_verifier \<Rightarrow> bootstrap_page \<Rightarrow> codec_error + bootstrap_verifier" where
  "verifier_push ser sha256 v page =
     (if bp_manifest_digest page \<noteq> bv_manifest_digest v then Inl InvalidEnvelope
      else rbind (hasher_push ser sha256 (bv_content v) page) (\<lambda>candidate.
      let s = hasher_summary sha256 candidate in
      if su_page_count s > bm_page_count (bv_manifest v) \<or> su_record_count s > bm_record_count (bv_manifest v)
         \<or> su_content_bytes s > bm_content_bytes (bv_manifest v)
      then Inl InvalidEnvelope
      else Inr (v\<lparr>bv_content := candidate\<rparr>)))"

definition verifier_summary :: "(byte list \<Rightarrow> byte list) \<Rightarrow> bootstrap_verifier \<Rightarrow> bootstrap_content_summary" where
  "verifier_summary sha256 v = hasher_summary sha256 (bv_content v)"

definition verifier_finish ::
  "(byte list \<Rightarrow> byte list) \<Rightarrow> bootstrap_verifier \<Rightarrow> codec_error + bootstrap_content_summary" where
  "verifier_finish sha256 v =
     (let s = hasher_summary sha256 (bv_content v) in
      if su_page_count s \<noteq> bm_page_count (bv_manifest v) \<or> su_record_count s \<noteq> bm_record_count (bv_manifest v)
         \<or> su_content_bytes s \<noteq> bm_content_bytes (bv_manifest v) \<or> su_root s \<noteq> bm_root (bv_manifest v)
      then Inl InvalidEnvelope
      else Inr s)"

end
