(* ===== verification/Bootstrap_Verify.thy ===== *)
theory Bootstrap_Verify
  imports Bootstrap_Codec Http_Roundtrip
begin

text \<open>
  What the streaming verifier establishes.  The pages it accepts are in order, each record
  follows the one before it, and the root it compares with the manifest is the hash of one
  string that determines every page.
\<close>

declare take_items.simps [simp del] take_bytes.simps [simp del]

section \<open>Frames\<close>

lemma length_to_be_bytes [simp]: "length (to_be_bytes n) = 8"
  by (simp add: to_be_bytes_def)

lemma to_be_bytes_nonempty [simp]: "to_be_bytes n \<noteq> []"
  by (simp add: to_be_bytes_def)

lemma to_be_bytes_inject: "to_be_bytes m = to_be_bytes n \<longleftrightarrow> m = n"
proof
  assume eq: "to_be_bytes m = to_be_bytes n"
  show "m = n"
  proof (rule bit_word_eqI)
    fix i assume i: "i < LENGTH(64)"
    define k where "k = i div 8"
    have k: "k < 8" "i = 8 * k + i mod 8" using i by (auto simp: k_def)
    from eq have "(ucast (drop_bit (8 * k) m) :: byte) = ucast (drop_bit (8 * k) n)"
      using k(1) unfolding to_be_bytes_def by (simp add: less_Suc_eq numeral_eq_Suc) (elim disjE; simp)
    then have "bit (ucast (drop_bit (8 * k) m) :: byte) (i mod 8) = bit (ucast (drop_bit (8 * k) n) :: byte) (i mod 8)"
      by simp
    then show "bit m i = bit n i"
      using k(2) i by (simp add: bit_ucast_iff bit_drop_bit_eq)
  qed
qed simp

lemma unat_of_nat_small: "n < 2 ^ 64 \<Longrightarrow> unat (of_nat n :: u64) = n"
  by (simp add: unsigned_of_nat take_bit_nat_eq_self)

lemma frame_inject:
  assumes "frame h x @ u = frame h' y @ v" and "h = h'" and "len x < 2 ^ 64" and "len y < 2 ^ 64"
  shows "x = y \<and> u = v"
proof -
  from assms(1,2) have "to_be_bytes (of_nat (length x)) @ x @ u = to_be_bytes (of_nat (length y)) @ y @ v"
    by (simp add: frame_def)
  then have "to_be_bytes (of_nat (length x)) = to_be_bytes (of_nat (length y))" and r: "x @ u = y @ v"
    by (simp_all add: append_eq_append_conv)
  then have "(of_nat (length x) :: u64) = of_nat (length y)" by (simp add: to_be_bytes_inject)
  then have "unat (of_nat (length x) :: u64) = unat (of_nat (length y) :: u64)" by simp
  moreover have "length x < 2 ^ 64" "length y < 2 ^ 64" using assms(3,4) by simp_all
  ultimately have "length x = length y" by (simp only: unat_of_nat_small)
  then show ?thesis using r by simp
qed

section \<open>Runs of the verifier\<close>

definition content_of :: "serializer \<Rightarrow> bootstrap_page \<Rightarrow> byte list" where
  "content_of ser p = projr (encode_content ser (bp_index p) (bp_records p))"

text \<open>The strings a run hashes: one for every page, and one for the root.\<close>

definition page_preimage :: "serializer \<Rightarrow> bootstrap_page \<Rightarrow> byte list" where
  "page_preimage ser p = frame (frame [] page_domain) (content_of ser p)"

definition root_preimage :: "serializer \<Rightarrow> (byte list \<Rightarrow> byte list) \<Rightarrow> bootstrap_page list \<Rightarrow> byte list" where
  "root_preimage ser sha256 pages = foldl (\<lambda>r p. frame (frame r (to_be_bytes (bp_index p))) (sha256 (page_preimage ser p)))
     (frame [] root_domain) pages"

definition hashed :: "serializer \<Rightarrow> (byte list \<Rightarrow> byte list) \<Rightarrow> bootstrap_page list \<Rightarrow> byte list set" where
  "hashed ser sha256 pages = insert (root_preimage ser sha256 pages) (page_preimage ser ` set pages)"

abbreviation records_of :: "bootstrap_page list \<Rightarrow> canonical_value snapshot_record list" where
  "records_of pages \<equiv> concat (map bp_records pages)"

text \<open>A bootstrap as a receiver runs it: a verifier for the manifest, every page, then the end.\<close>

definition verify_pages ::
  "serializer \<Rightarrow> (byte list \<Rightarrow> byte list) \<Rightarrow> bootstrap_manifest \<Rightarrow> bootstrap_page list \<Rightarrow>
   codec_error + bootstrap_content_summary" where
  "verify_pages ser sha256 m pages =
     rbind (verifier_new ser sha256 m) (\<lambda>v.
     rbind (try_fold (verifier_push ser sha256) v pages) (verifier_finish sha256))"

fun installable :: "'v record_state \<Rightarrow> bool" where
  "installable Absent = False"
| "installable (Present v n ref) = (n \<noteq> 0)"
| "installable (Tombstone n) = (n \<noteq> 0)"

lemma validate_record_at_Inr:
  "validate_record_at prev r = Inr final \<longleftrightarrow>
     (\<forall>i. prev = Some i \<longrightarrow> i < sr_record_id r) \<and> installable (sr_state r) \<and> final = Some (sr_record_id r)"
  by (cases "sr_state r") (auto simp: is_some_and_iff not_le)

lemma validate_fold_Inr:
  assumes "try_fold validate_record_at prev records = Inr final"
  shows "sorted_wrt (<) (map sr_record_id records) \<and> (\<forall>r \<in> set records. installable (sr_state r))
    \<and> (\<forall>i. prev = Some i \<longrightarrow> (\<forall>r \<in> set records. i < sr_record_id r))"
  using assms
proof (induction records arbitrary: prev)
  case (Cons r records)
  then have "\<forall>i. prev = Some i \<longrightarrow> i < sr_record_id r" "installable (sr_state r)"
    "try_fold validate_record_at (Some (sr_record_id r)) records = Inr final"
    by (auto simp: rbind_Inr validate_record_at_Inr simp del: validate_record_at.simps)
  with Cons.IH [OF this(3)] show ?case by auto
qed simp

lemma validate_records_Inr:
  assumes "validate_records records = Inr ()"
  shows "records \<noteq> [] \<and> len records \<le> max_container_items \<and> sorted_wrt (<) (map sr_record_id records)
    \<and> (\<forall>r \<in> set records. installable (sr_state r))"
proof -
  from assms obtain final where "try_fold validate_record_at None records = Inr final"
    and "records \<noteq> []" "len records \<le> max_container_items"
    by (auto simp: validate_records_def rbind_Inr split: if_splits)
  with validate_fold_Inr [OF this(1)] show ?thesis by simp
qed

lemma encode_page_records:
  "encode_bootstrap_page ser p = Inr bytes \<Longrightarrow> validate_records (bp_records p) = Inr () \<and> bp_index p < max_bootstrap_pages"
  by (auto simp: encode_bootstrap_page_def preflight_page_def rbind_Inr bounded_index_def split: if_splits)

lemma encode_page_nonempty: "encode_bootstrap_page ser p = Inr bytes \<Longrightarrow> bp_records p \<noteq> []"
  using encode_page_records validate_records_Inr by blast

text \<open>What one accepted page adds to the hasher.\<close>

lemma hasher_push_Inr:
  assumes "hasher_push ser sha256 h p = Inr h'"
  shows "bp_session_id p = h_session_id h \<and> bp_index p = next_index h
    \<and> validate_records (bp_records p) = Inr () \<and> bp_index p < max_bootstrap_pages
    \<and> encode_content ser (bp_index p) (bp_records p) = Inr (content_of ser p)
    \<and> (\<forall>i. last_id h = Some i \<longrightarrow> i < sr_record_id (hd (bp_records p)))
    \<and> h_session_id h' = h_session_id h \<and> last_id h' = Some (sr_record_id (last (bp_records p)))
    \<and> unat (next_index h') = Suc (unat (next_index h))
    \<and> unat (h_records h') = unat (h_records h) + length (bp_records p)
    \<and> h_records h' \<le> max_bootstrap_records \<and> next_index h' \<le> max_bootstrap_pages
    \<and> h_bytes h' \<le> max_bootstrap_content_bytes
    \<and> root_input h' = frame (frame (root_input h) (to_be_bytes (bp_index p))) (sha256 (page_preimage ser p))"
proof -
  from assms obtain bytes content where page: "encode_bootstrap_page ser p = Inr bytes"
    and content: "encode_content ser (bp_index p) (bp_records p) = Inr content"
    by (auto simp: hasher_push_def rbind_Inr split: if_splits)
  note valid = encode_page_records [OF page] validate_records_Inr [of "bp_records p"]
  then have ne: "bp_records p ! 0 = hd (bp_records p)" by (simp add: hd_conv_nth)
  have "len (bp_records p) \<le> 1024" using valid by (simp add: max_container_items_def)
  then have count: "unat (of_nat (length (bp_records p)) :: u64) = length (bp_records p)"
    by (intro unat_of_nat_small) simp
  show ?thesis
    using assms page content valid ne count
    by (auto simp: hasher_push_def rbind_Inr result_conv is_some_and_iff not_le not_less content_of_def
        page_preimage_def digest_def split: if_splits)
qed

text \<open>Strictly ascending lists in a row.\<close>

lemma ascending_append:
  fixes xs ys :: "'a :: linorder list"
  assumes "sorted_wrt (<) xs" and "sorted_wrt (<) ys" and "xs \<noteq> [] \<Longrightarrow> ys \<noteq> [] \<Longrightarrow> last xs < hd ys"
  shows "sorted_wrt (<) (xs @ ys)"
proof -
  have "x < y" if "x \<in> set xs" "y \<in> set ys" for x y
  proof -
    have "x \<le> last xs"
      using assms(1) that(1) by (induction xs) (auto split: if_splits dest: order.strict_implies_order)
    moreover have "hd ys \<le> y"
      using assms(2) that(2) by (cases ys) auto
    moreover have "last xs < hd ys" using assms(3) that by force
    ultimately show ?thesis by simp
  qed
  then show ?thesis using assms(1,2) by (simp add: sorted_wrt_append)
qed

record run =
  run_manifest :: bootstrap_manifest
  run_pages :: "bootstrap_page list"

definition run_inv :: "serializer \<Rightarrow> (byte list \<Rightarrow> byte list) \<Rightarrow> run \<Rightarrow> bootstrap_verifier \<Rightarrow> bool" where
  "run_inv ser sha256 r v \<longleftrightarrow>
     (let pages = run_pages r; h = bv_content v in
      bv_manifest v = run_manifest r
      \<and> unat (next_index h) = length pages
      \<and> unat (h_records h) = length (records_of pages)
      \<and> root_input h = root_preimage ser sha256 pages
      \<and> last_id h = (if pages = [] then None else Some (sr_record_id (last (records_of pages))))
      \<and> map (unat \<circ> bp_index) pages = [0..<length pages]
      \<and> (pages \<noteq> [] \<longrightarrow> records_of pages \<noteq> [])
      \<and> sorted_wrt (<) (map sr_record_id (records_of pages))
      \<and> (\<forall>rec \<in> set (records_of pages). installable (sr_state rec))
      \<and> (\<forall>p \<in> set pages. encode_content ser (bp_index p) (bp_records p) = Inr (content_of ser p)))"

lemma verifier_new_inv:
  "verifier_new ser sha256 m = Inr v \<Longrightarrow> run_inv ser sha256 \<lparr>run_manifest = m, run_pages = []\<rparr> v"
  by (auto simp: verifier_new_def hasher_new_def rbind_Inr run_inv_def root_preimage_def split: if_splits)

lemma verifier_push_inv:
  assumes push: "verifier_push ser sha256 v p = Inr v'"
    and inv: "run_inv ser sha256 \<lparr>run_manifest = m, run_pages = pages\<rparr> v"
  shows "run_inv ser sha256 \<lparr>run_manifest = m, run_pages = pages @ [p]\<rparr> v'"
proof -
  from push obtain h where h: "hasher_push ser sha256 (bv_content v) p = Inr h" and v': "v' = v\<lparr>bv_content := h\<rparr>"
    by (auto simp: verifier_push_def rbind_Inr Let_def split: if_splits)
  note step = hasher_push_Inr [OF h]
  note page = validate_records_Inr [of "bp_records p"]
  have ne: "bp_records p \<noteq> []" and sorted: "sorted_wrt (<) (map sr_record_id (bp_records p))"
    using step page by auto
  have "last (map sr_record_id (records_of pages)) < hd (map sr_record_id (bp_records p))"
    if "map sr_record_id (records_of pages) \<noteq> []"
    using that step inv ne by (auto simp: run_inv_def Let_def last_map hd_map split: if_splits)
  then have "sorted_wrt (<) (map sr_record_id (records_of pages) @ map sr_record_id (bp_records p))"
    using inv sorted by (intro ascending_append) (auto simp: run_inv_def Let_def)
  then show ?thesis
    using step page inv ne unfolding v' run_inv_def Let_def by (auto simp: root_preimage_def)
qed

lemma verifier_run:
  assumes "try_fold (verifier_push ser sha256) v pages = Inr v'"
    and "run_inv ser sha256 \<lparr>run_manifest = m, run_pages = before\<rparr> v"
  shows "run_inv ser sha256 \<lparr>run_manifest = m, run_pages = before @ pages\<rparr> v'"
  using assms
proof (induction pages arbitrary: v before)
  case (Cons p pages)
  from Cons.prems(1) obtain w where w: "verifier_push ser sha256 v p = Inr w"
    and rest: "try_fold (verifier_push ser sha256) w pages = Inr v'" by (auto simp: rbind_Inr)
  from Cons.IH [OF rest verifier_push_inv [OF w Cons.prems(2)]] show ?case by simp
qed simp

lemma verify_pages_Inr:
  assumes "verify_pages ser sha256 m pages = Inr s"
  obtains v where "run_inv ser sha256 \<lparr>run_manifest = m, run_pages = pages\<rparr> v" and "verifier_finish sha256 v = Inr s"
  using assms verifier_run [of ser sha256 _ pages _ m "[]"] verifier_new_inv [of ser sha256 m]
  by (auto simp: verify_pages_def rbind_Inr)

lemma verifier_finish_Inr:
  "verifier_finish sha256 v = Inr s \<Longrightarrow> s = hasher_summary sha256 (bv_content v)
     \<and> next_index (bv_content v) = bm_page_count (bv_manifest v)
     \<and> h_records (bv_content v) = bm_record_count (bv_manifest v)
     \<and> BootstrapDigest (sha256 (root_input (bv_content v))) = bm_root (bv_manifest v)"
  by (auto simp: verifier_finish_def hasher_summary_def Let_def split: if_splits)

section \<open>The root determines the pages\<close>

definition chunk :: "u64 \<times> byte list \<Rightarrow> byte list" where
  "chunk = (\<lambda>(i, d). frame [] (to_be_bytes i) @ frame [] d)"

lemma chunks_inject:
  assumes "concat (map chunk xs) = concat (map chunk ys)"
    and "\<forall>(i, d) \<in> set xs. len d < 2 ^ 64" and "\<forall>(i, d) \<in> set ys. len d < 2 ^ 64"
  shows "xs = ys"
  using assms
proof (induction xs arbitrary: ys)
  case Nil
  then show ?case by (cases ys) (auto simp: chunk_def frame_def)
next
  case (Cons x xs)
  obtain i d where x: "x = (i, d)" by force
  from Cons.prems(1) obtain y zs where ys: "ys = y # zs" by (cases ys) (auto simp: chunk_def frame_def x)
  obtain j e where y: "y = (j, e)" by force
  have "frame [] (to_be_bytes i) @ (frame [] d @ concat (map chunk xs)) =
      frame [] (to_be_bytes j) @ (frame [] e @ concat (map chunk zs))"
    using Cons.prems(1) unfolding ys x y by (simp add: chunk_def)
  then have "to_be_bytes i = to_be_bytes j \<and> frame [] d @ concat (map chunk xs) = frame [] e @ concat (map chunk zs)"
    by (rule frame_inject) simp_all
  moreover from this have "d = e \<and> concat (map chunk xs) = concat (map chunk zs)"
    using Cons.prems(2,3) by (intro frame_inject [of "[]" _ _ "[]"]) (auto simp: x y ys)
  ultimately show ?case
    using Cons.IH [of zs] Cons.prems(2,3) by (auto simp: x y ys to_be_bytes_inject)
qed

lemma root_preimage_chunks:
  "root_preimage ser sha256 pages =
     frame [] root_domain @ concat (map chunk (map (\<lambda>p. (bp_index p, sha256 (page_preimage ser p))) pages))"
proof -
  have "foldl (\<lambda>r p. frame (frame r (to_be_bytes (bp_index p))) (sha256 (page_preimage ser p))) r pages =
      r @ concat (map chunk (map (\<lambda>p. (bp_index p, sha256 (page_preimage ser p))) pages))" for r
    by (induction pages arbitrary: r) (simp_all add: chunk_def frame_def)
  then show ?thesis by (simp add: root_preimage_def)
qed

lemma root_preimage_inject:
  assumes "root_preimage ser sha256 ps = root_preimage ser sha256 qs" and "\<And>x. length (sha256 x) = 32"
  shows "map (\<lambda>p. (bp_index p, sha256 (page_preimage ser p))) ps =
    map (\<lambda>p. (bp_index p, sha256 (page_preimage ser p))) qs"
  using assms(1) unfolding root_preimage_chunks
  by (intro chunks_inject) (auto simp: assms(2))

definition typed_records :: "canonical_value snapshot_record list \<Rightarrow> bool" where
  "typed_records = list_all (\<lambda>r. utf8 (record_str (sr_record_id r)) \<and> typed_state (sr_state r))"

lemma content_read:
  assumes "cbor_library ser de" and "encode_content ser i rs = Inr c" and "typed_records rs"
  shows "\<exists>rows. de c = Some (CArray [integer i, CArray rows], length c) \<and> try_map dec_snapshot_record rows = Inr rs"
proof -
  from assms(2) obtain b rows where item: "item 3 (vec (len rs) (each enc_snapshot_record rs))
      (max_total_items, max_encoded_bytes) = Inr (b, rows)"
    and enc: "encode_cbor_value ser (CArray [integer i, CArray rows]) = Inr c"
    by (auto simp: encode_content_def rbind_Inr)
  have "within (max_total_items, max_encoded_bytes)" by (simp add: within_def)
  with item obtain b0 where "within b0" "vec (len rs) (each enc_snapshot_record rs) b0 = Inr (b, rows)"
    by (auto dest!: item_within)
  with vec_within [OF this(2,1)] obtain b1 where n: "len rs \<le> max_container_items" and b1: "within b1"
    "each enc_snapshot_record rs b1 = Inr (b, rows)" by auto
  from snapshot_part.each_part [OF b1(2,1)] assms(3) have rows:
    "list_all2 (\<lambda>c y. dec_snapshot_record c = Inr y) rows rs"
    "\<forall>c \<in> set rows. representable c \<and> cbor_depth c \<le> 68" by (auto simp: typed_records_def)
  have l: "length rows = length rs" using list_all2_lengthD [OF rows(1)] .
  have "cbor_depth (CArray rows) \<le> Suc 68" using rows(2) unfolding cbor_depth_le(1) by blast
  then have "cbor_depth (CArray [integer i, CArray rows]) \<le> Suc 127"
    unfolding cbor_depth_le(1) [of "[_, _]"] using order.trans [of _ "Suc 68" 127] by (simp add: item_read)
  moreover have "representable (CArray [integer i, CArray rows])"
    using rows(2) n l by (simp add: item_read max_container_items_def)
  ultimately have "de c = Some (CArray [integer i, CArray rows], length c)"
    using cbor_library.decode_written [OF assms(1) enc] by simp
  then show ?thesis using rows(1) by (auto simp: try_map_Inr)
qed

lemma content_inject:
  assumes "cbor_library ser de" and "encode_content ser i rs = Inr c" and "typed_records rs"
    and "encode_content ser j rs' = Inr c" and "typed_records rs'"
  shows "i = j \<and> rs = rs'"
  using content_read [OF assms(1-3)] content_read [OF assms(1,4,5)] by (auto simp: integer_def uint_inject)

lemma content_short:
  "encode_content ser i rs = Inr c \<Longrightarrow> len c < 2 ^ 64"
  by (auto simp: encode_content_def rbind_Inr max_encoded_bytes_def dest!: encode_Inr)

lemma page_preimage_inject:
  assumes "page_preimage ser p = page_preimage ser q"
    and "encode_content ser (bp_index p) (bp_records p) = Inr (content_of ser p)"
    and "encode_content ser (bp_index q) (bp_records q) = Inr (content_of ser q)"
  shows "content_of ser p = content_of ser q"
  using frame_inject [of "frame [] page_domain" "content_of ser p" "[]" "frame [] page_domain" "content_of ser q" "[]"]
    assms(1) content_short [OF assms(2)] content_short [OF assms(3)]
  by (simp add: page_preimage_def)

end
