(* ===== verification/Bootstrap_Properties.thy ===== *)
theory Bootstrap_Properties
  imports Bootstrap_Verify
begin

text \<open>
  Bootstrap messages read back exactly, and what a finished bootstrap guarantees: ordered
  installable records, the manifest's counts, and content bound to the manifest's root.
\<close>

section \<open>Parts of bootstrap messages\<close>

abbreviation digest32 :: "bootstrap_digest \<Rightarrow> bool" where
  "digest32 d \<equiv> length (digest_bytes d) = 32"

lemma digest_within:
  "enc_digest d b = Inr (b', c) \<Longrightarrow> within b \<Longrightarrow> within b' \<and> c = CBytes (digest_bytes d)"
  by (cases b) (auto simp: enc_digest_def preflight_digest_def rbind_Inr take_items_Inr take_bytes_Inr within_def)

lemma digest_read [item_read]: "digest32 d \<Longrightarrow> decoded_digest (CBytes (digest_bytes d)) = Inr d"
  by (cases d) (simp add: decoded_digest_def)

definition typed_scope :: "scope_snapshot \<Rightarrow> bool" where
  "typed_scope s = utf8 (scope_str (scope_id s))"

definition typed_context :: "bootstrap_context \<Rightarrow> bool" where
  "typed_context c \<longleftrightarrow> utf8 (bx_authority_id c) \<and> utf8 (bx_principal_id c) \<and> utf8 (partition_str (bx_partition_id c))
     \<and> utf8 (client_str (bx_client_id c)) \<and> utf8 (bx_journal_generation c) \<and> typed_scope (bx_scope c)"

definition typed_start :: "bootstrap_start_request \<Rightarrow> bool" where
  "typed_start r \<longleftrightarrow> utf8 (partition_str (bs_partition_id r)) \<and> utf8 (client_str (bs_client_id r))
     \<and> utf8 (bs_request_id r) \<and> utf8 (scope_str (bs_requested_scope r)) \<and> utf8 (bs_journal_generation r)"

definition typed_manifest :: "bootstrap_manifest \<Rightarrow> bool" where
  "typed_manifest m \<longleftrightarrow> utf8 (bm_session_id m) \<and> utf8 (bm_start_request_id m) \<and> typed_context (bm_context m)
     \<and> digest32 (bm_start_fingerprint m) \<and> digest32 (bm_root m)"

definition typed_page_request :: "bootstrap_page_request \<Rightarrow> bool" where
  "typed_page_request r \<longleftrightarrow> utf8 (partition_str (bq_partition_id r)) \<and> utf8 (client_str (bq_client_id r))
     \<and> utf8 (bq_session_id r)"

definition typed_page :: "bootstrap_page \<Rightarrow> bool" where
  "typed_page p \<longleftrightarrow> utf8 (bp_session_id p) \<and> digest32 (bp_manifest_digest p) \<and> typed_records (bp_records p)"

definition typed_complete :: "bootstrap_complete_request \<Rightarrow> bool" where
  "typed_complete r \<longleftrightarrow> utf8 (partition_str (bc_partition_id r)) \<and> utf8 (client_str (bc_client_id r))
     \<and> utf8 (bc_session_id r) \<and> digest32 (bc_manifest_digest r)"

definition typed_receipt :: "bootstrap_receipt \<Rightarrow> bool" where
  "typed_receipt r \<longleftrightarrow> utf8 (br_session_id r) \<and> digest32 (br_manifest_digest r) \<and> typed_checkpoint (br_checkpoint r)"

interpretation scope_part: wire_part enc_scope decode_scope typed_scope id 1
proof
  fix x b b' c
  assume "enc_scope x b = Inr (b', c)" "within b" "typed_scope x"
  then show "within b' \<and> decode_scope c = Inr (id x) \<and> representable c \<and> cbor_depth c \<le> 1"
    by (auto simp: enc_scope_def enc_conv decode_scope_def item_read cbor_depth.simps typed_scope_def
        dest!: item_within identity_text_within)
qed simp

interpretation context_part: wire_part enc_context decode_context typed_context id 2
proof
  fix x b b' c
  assume "enc_context x b = Inr (b', c)" "within b" "typed_context x"
  then show "within b' \<and> decode_context c = Inr (id x) \<and> representable c \<and> cbor_depth c \<le> 2"
    by (auto simp: enc_context_def enc_conv decode_context_def item_read cbor_depth.simps typed_context_def
        dest!: item_within identity_text_within scope_part.part)
qed simp

interpretation start_part: wire_part enc_start dec_start typed_start id 1
proof
  fix x b b' c
  assume "enc_start x b = Inr (b', c)" "within b" "typed_start x"
  then show "within b' \<and> dec_start c = Inr (id x) \<and> representable c \<and> cbor_depth c \<le> 1"
    by (auto simp: enc_start_def enc_conv dec_start_def item_read cbor_depth.simps typed_start_def
        dest!: item_within identity_text_within)
qed simp

interpretation page_request_part: wire_part enc_page_request dec_page_request typed_page_request id 1
proof
  fix x b b' c
  assume "enc_page_request x b = Inr (b', c)" "within b" "typed_page_request x"
  then show "within b' \<and> dec_page_request c = Inr (id x) \<and> representable c \<and> cbor_depth c \<le> 1"
    by (auto simp: enc_page_request_def enc_conv dec_page_request_def item_read cbor_depth.simps
        typed_page_request_def dest!: item_within identity_text_within)
qed simp

interpretation complete_part: wire_part enc_complete dec_complete typed_complete id 1
proof
  fix x b b' c
  assume "enc_complete x b = Inr (b', c)" "within b" "typed_complete x"
  then show "within b' \<and> dec_complete c = Inr (id x) \<and> representable c \<and> cbor_depth c \<le> 1"
    by (auto simp: enc_complete_def enc_conv dec_complete_def item_read cbor_depth.simps typed_complete_def
        dest!: item_within identity_text_within digest_within)
qed simp

interpretation receipt_part: wire_part enc_receipt dec_receipt typed_receipt id 3
proof
  fix x b b' c
  assume "enc_receipt x b = Inr (b', c)" "within b" "typed_receipt x"
  then show "within b' \<and> dec_receipt c = Inr (id x) \<and> representable c \<and> cbor_depth c \<le> 3"
    by (auto simp: enc_receipt_def enc_conv dec_receipt_def item_read cbor_depth.simps typed_receipt_def
        dest!: item_within identity_text_within digest_within checkpoint_part.part)
qed simp

interpretation manifest_part: wire_part enc_manifest dec_manifest typed_manifest id 3
proof
  fix x b b' c
  assume e: "enc_manifest x b = Inr (b', c)" and w: "within b" and t: "typed_manifest x"
  then obtain b0 b1 b2 b3 b4 cc ci cr cf ch where p: "within b0" "enc_context (bm_context x) b0 = Inr (b1, cc)"
    "enc_identity_text (bm_session_id x) b1 = Inr (b2, ci)"
    "enc_identity_text (bm_start_request_id x) b2 = Inr (b3, cr)"
    "enc_digest (bm_start_fingerprint x) b3 = Inr (b4, cf)" "enc_digest (bm_root x) b4 = Inr (b', ch)"
    "c = CArray [ci, cr, cf, cc, CArray [integer (epoch (bm_cursor x)), integer (sequence (bm_cursor x))],
       CArray [integer (max_records (bm_limits x)), integer (max_pages (bm_limits x)),
               integer (max_content_bytes (bm_limits x))],
       integer (bm_page_count x), integer (bm_record_count x), integer (bm_content_bytes x), ch,
       integer (bm_expires_at x)]"
    by (auto simp: enc_manifest_def enc_conv dest!: item_within)
  have ctx: "within b1 \<and> decode_context cc = Inr (bm_context x) \<and> representable cc \<and> cbor_depth cc \<le> 2"
    using context_part.part [OF p(2,1)] t by (simp add: typed_manifest_def)
  note i = identity_text_within [OF p(3) conjunct1 [OF ctx]]
  note j = identity_text_within [OF p(4) conjunct1 [OF i]]
  note k = digest_within [OF p(5) conjunct1 [OF j]]
  note l = digest_within [OF p(6) conjunct1 [OF k]]
  show "within b' \<and> dec_manifest c = Inr (id x) \<and> representable c \<and> cbor_depth c \<le> 3"
    using ctx i j k l t unfolding p(7)
    by (simp add: dec_manifest_def item_read cbor_depth.simps typed_manifest_def)
qed simp

interpretation page_part: wire_part enc_page dec_page typed_page id 70
proof
  fix x b b' c
  assume e: "enc_page x b = Inr (b', c)" and w: "within b" and t: "typed_page x"
  then obtain b0 b1 b2 ci ch where p: "within b0" "enc_identity_text (bp_session_id x) b0 = Inr (b1, ci)"
    "enc_digest (bp_manifest_digest x) b1 = Inr (b2, ch)"
    "vec (len (bp_records x)) (ebind (each enc_snapshot_record (bp_records x)) (\<lambda>records.
       emit (CArray [ci, ch, integer (bp_index x), CArray records]))) b2 = Inr (b', c)"
    by (auto simp: enc_page_def enc_conv dest!: item_within)
  note i = identity_text_within [OF p(2,1)]
  note j = digest_within [OF p(3) conjunct1 [OF i]]
  from snapshot_part.vec_part [OF p(4) conjunct1 [OF j]] t obtain cs where cs: "within b'"
    "c = CArray [ci, ch, integer (bp_index x), CArray cs]"
    "vec_decode (CArray cs) dec_snapshot_record = Inr (map id (bp_records x))"
    "representable (CArray cs)" "cbor_depth (CArray cs) \<le> Suc 68"
    by (auto simp: typed_page_def typed_records_def enc_conv)
  have "cbor_depth c \<le> Suc 69"
    unfolding cs(2) cbor_depth_le(1) [of "[_, _, _, _]"] using order.trans [OF cs(5), of 69] i j by (simp add: item_read)
  moreover have "dec_page c = Inr x"
    unfolding cs(2) using cs(3) i j t by (simp add: dec_page_def item_read typed_page_def)
  moreover have "representable c"
    unfolding cs(2) representable_containers(1) [of "[_, _, _, _]"] using cs(4) i j t by (simp add: item_read typed_page_def)
  ultimately show "within b' \<and> dec_page c = Inr (id x) \<and> representable c \<and> cbor_depth c \<le> 70"
    using cs(1) by simp
qed simp

section \<open>Whole messages\<close>

text \<open>The shape of the six readers: a guard runs before the message is encoded.\<close>

definition write_bootstrap ::
  "serializer \<Rightarrow> u64 \<Rightarrow> ('a \<Rightarrow> codec_error + unit) \<Rightarrow> ('a \<Rightarrow> cbor encoder) \<Rightarrow> 'a \<Rightarrow> codec_error + byte list" where
  "write_bootstrap ser kind guard enc m = rbind (guard m) (\<lambda>_. encode_bootstrap_message ser kind (enc m))"

definition read_bootstrap ::
  "serializer \<Rightarrow> deserializer \<Rightarrow> u64 \<Rightarrow> ('a \<Rightarrow> codec_error + unit) \<Rightarrow> ('a \<Rightarrow> cbor encoder) \<Rightarrow>
   (cbor \<Rightarrow> codec_error + 'a) \<Rightarrow> byte list \<Rightarrow> codec_error + 'a" where
  "read_bootstrap ser de kind guard enc dec bytes =
     rbind (decode_family_message de bytes bootstrap_name kind) (\<lambda>payload.
     rbind (dec payload) (\<lambda>m.
     rbind (write_bootstrap ser kind guard enc m) (\<lambda>encoded.
     rbind (canonical bytes encoded) (\<lambda>_. Inr m))))"

lemma write_bootstraps:
  "encode_bootstrap_start ser = write_bootstrap ser 0 (\<lambda>_. Inr ()) enc_start"
  "encode_bootstrap_manifest ser = write_bootstrap ser 1 valid_manifest enc_manifest"
  "encode_bootstrap_page_request ser = write_bootstrap ser 2 (\<lambda>r. bounded_index (bq_index r)) enc_page_request"
  "encode_bootstrap_page ser = write_bootstrap ser 3 preflight_page enc_page"
  "encode_bootstrap_complete ser = write_bootstrap ser 4 (\<lambda>_. Inr ()) enc_complete"
  "encode_bootstrap_receipt ser = write_bootstrap ser 5 (\<lambda>_. Inr ()) enc_receipt"
  by (simp_all add: fun_eq_iff write_bootstrap_def encode_bootstrap_start_def encode_bootstrap_manifest_def
      encode_bootstrap_page_request_def encode_bootstrap_page_def encode_bootstrap_complete_def
      encode_bootstrap_receipt_def)

lemma read_bootstraps:
  "decode_bootstrap_start ser de = read_bootstrap ser de 0 (\<lambda>_. Inr ()) enc_start dec_start"
  "decode_bootstrap_manifest ser de = read_bootstrap ser de 1 valid_manifest enc_manifest dec_manifest"
  "decode_bootstrap_page_request ser de =
     read_bootstrap ser de 2 (\<lambda>r. bounded_index (bq_index r)) enc_page_request dec_page_request"
  "decode_bootstrap_page ser de = read_bootstrap ser de 3 preflight_page enc_page dec_page"
  "decode_bootstrap_complete ser de = read_bootstrap ser de 4 (\<lambda>_. Inr ()) enc_complete dec_complete"
  "decode_bootstrap_receipt ser de = read_bootstrap ser de 5 (\<lambda>_. Inr ()) enc_receipt dec_receipt"
  by (simp_all add: fun_eq_iff read_bootstrap_def write_bootstraps decode_bootstrap_start_def
      decode_bootstrap_manifest_def decode_bootstrap_page_request_def decode_bootstrap_page_def
      decode_bootstrap_complete_def decode_bootstrap_receipt_def)

context wire_part
begin

lemma bootstrap_iff:
  assumes lib: "cbor_library ser de" and m: "ok m" and view: "view m = m" and d: "depth \<le> 127"
  shows "read_bootstrap ser de kind guard enc dec bytes = Inr m \<longleftrightarrow> write_bootstrap ser kind guard enc m = Inr bytes"
proof
  assume "read_bootstrap ser de kind guard enc dec bytes = Inr m"
  then show "write_bootstrap ser kind guard enc m = Inr bytes"
    by (auto simp: read_bootstrap_def rbind_Inr canonical_def split: if_splits)
next
  assume w: "write_bootstrap ser kind guard enc m = Inr bytes"
  then have e: "encode_family_message ser bootstrap_name kind (enc m) = Inr bytes"
    and pre: "preflight_canonical_cbor bytes = Inr ()"
    by (auto simp: write_bootstrap_def encode_bootstrap_message_def rbind_Inr)
  have "utf8 bootstrap_name \<and> len bootstrap_name \<le> max_identity_bytes" by code_simp
  with envelope_read [OF lib e m pre d] obtain c where "dec c = Inr m"
    "decode_family_message de bytes bootstrap_name kind = Inr c" unfolding view by force
  then show "read_bootstrap ser de kind guard enc dec bytes = Inr m"
    using w by (simp add: read_bootstrap_def canonical_def)
qed

end

section \<open>Sample bootstrap\<close>

definition demo_sha :: "byte list \<Rightarrow> byte list" where
  "demo_sha bs = take 32 (rev bs @ replicate 32 0)"

definition demo_scope :: scope_snapshot where
  "demo_scope = \<lparr>scope_id = ScopeIdentity ''s'', authorization_revision = 1, scope_subscription_revision = 1\<rparr>"

definition demo_records :: "canonical_value snapshot_record list" where
  "demo_records = [\<lparr>sr_record_id = RecordId ''a'', sr_state = Present (VInt 1) 1 None\<rparr>,
     \<lparr>sr_record_id = RecordId ''b'', sr_state = Tombstone 2\<rparr>]"

definition demo_manifest :: "u64 \<Rightarrow> bootstrap_digest \<Rightarrow> bootstrap_manifest" where
  "demo_manifest n root = \<lparr>bm_session_id = ''x'', bm_start_request_id = ''q'',
     bm_start_fingerprint = BootstrapDigest (replicate 32 7),
     bm_context = \<lparr>bx_authority_id = ''au'', bx_principal_id = ''pr'', bx_partition_id = PartitionId ''p'',
       bx_client_id = ClientId ''c'', bx_journal_generation = ''g'', bx_scope = demo_scope\<rparr>,
     bm_cursor = \<lparr>epoch = 1, sequence = 9\<rparr>, bm_limits = default_bootstrap_limits,
     bm_page_count = 1, bm_record_count = 2, bm_content_bytes = n, bm_root = root, bm_expires_at = 100\<rparr>"

definition demo_page :: "bootstrap_digest \<Rightarrow> bootstrap_page" where
  "demo_page d = \<lparr>bp_session_id = ''x'', bp_manifest_digest = d, bp_index = 0, bp_records = demo_records\<rparr>"

definition demo_final :: bootstrap_manifest where
  "demo_final = (let p = demo_page (BootstrapDigest (replicate 32 0))
     in demo_manifest (of_nat (length (content_of rfc_ser p)))
          (BootstrapDigest (demo_sha (root_preimage rfc_ser demo_sha [p]))))"

definition demo_pages :: "bootstrap_page list" where
  "demo_pages = [demo_page (projr (bootstrap_manifest_digest rfc_ser demo_sha demo_final))]"

definition demo_summary :: bootstrap_content_summary where
  "demo_summary = projr (verify_pages rfc_ser demo_sha demo_final demo_pages)"

lemma verified_root:
  assumes "run_inv ser sha256 \<lparr>run_manifest = m, run_pages = pages\<rparr> v" and "verifier_finish sha256 v = Inr s"
  shows "sha256 (root_preimage ser sha256 pages) = digest_bytes (bm_root m)"
  using assms(1) verifier_finish_Inr [OF assms(2)]
  by (metis (no_types, lifting) bootstrap_digest.sel run.select_convs run_inv_def)

lemma demo_verify_isr: "\<not> isl (verify_pages rfc_ser demo_sha demo_final demo_pages)"
  by code_simp

lemma demo_verify_ok: "verify_pages rfc_ser demo_sha demo_final demo_pages = Inr demo_summary"
  unfolding demo_summary_def by (rule sum.collapse(2) [OF demo_verify_isr, symmetric])

lemma demo_hashes_differ:
  "demo_sha (root_preimage rfc_ser demo_sha demo_pages) \<noteq> demo_sha (page_preimage rfc_ser (hd demo_pages))"
  by code_simp

lemma demo_typed: "\<forall>p \<in> set demo_pages. typed_records (bp_records p)"
proof -
  have "typed_records demo_records" by code_simp
  then show ?thesis by (simp add: demo_pages_def demo_page_def)
qed

section \<open>Properties\<close>

text \<open>
  Every bootstrap message reads back exactly: for each of the six kinds, bytes decode to
  a message if and only if they are its encoding; in particular every message the encoder
  accepts can be decoded, and manifests and pages out of bounds have no bytes at all.
\<close>

theorem bootstrap_messages_roundtrip:
  assumes "cbor_library ser de"
    and "typed_start start" "typed_manifest manifest" "typed_page_request request" "typed_page page"
    and "typed_complete complete" "typed_receipt receipt"
  shows "(decode_bootstrap_start ser de bytes = Inr start \<longleftrightarrow> encode_bootstrap_start ser start = Inr bytes)
    \<and> (decode_bootstrap_manifest ser de bytes = Inr manifest \<longleftrightarrow> encode_bootstrap_manifest ser manifest = Inr bytes)
    \<and> (decode_bootstrap_page_request ser de bytes = Inr request \<longleftrightarrow>
         encode_bootstrap_page_request ser request = Inr bytes)
    \<and> (decode_bootstrap_page ser de bytes = Inr page \<longleftrightarrow> encode_bootstrap_page ser page = Inr bytes)
    \<and> (decode_bootstrap_complete ser de bytes = Inr complete \<longleftrightarrow> encode_bootstrap_complete ser complete = Inr bytes)
    \<and> (decode_bootstrap_receipt ser de bytes = Inr receipt \<longleftrightarrow> encode_bootstrap_receipt ser receipt = Inr bytes)"
  unfolding read_bootstraps write_bootstraps
  using start_part.bootstrap_iff [OF assms(1,2)] manifest_part.bootstrap_iff [OF assms(1,3)]
    page_request_part.bootstrap_iff [OF assms(1,4)] page_part.bootstrap_iff [OF assms(1,5)]
    complete_part.bootstrap_iff [OF assms(1,6)] receipt_part.bootstrap_iff [OF assms(1,7)] by simp

theorem bootstrap_messages_roundtrip_witness:
  "decode_bootstrap_page rfc_ser rfc_de (projr (encode_bootstrap_page rfc_ser (demo_page (BootstrapDigest (replicate 32 7)))))
     = Inr (demo_page (BootstrapDigest (replicate 32 7)))"
proof -
  let ?d = "BootstrapDigest (replicate 32 7)"
  let ?s = "\<lparr>bs_partition_id = PartitionId ''p'', bs_client_id = ClientId ''c'', bs_request_id = ''q'',
    bs_requested_scope = ScopeIdentity ''s'', bs_subscription_revision = 1, bs_journal_generation = ''g''\<rparr>"
  let ?q = "\<lparr>bq_partition_id = PartitionId ''p'', bq_client_id = ClientId ''c'', bq_session_id = ''x'', bq_index = 0\<rparr>"
  let ?c = "\<lparr>bc_partition_id = PartitionId ''p'', bc_client_id = ClientId ''c'', bc_session_id = ''x'',
    bc_manifest_digest = ?d\<rparr>"
  let ?r = "\<lparr>br_session_id = ''x'', br_manifest_digest = ?d, br_checkpoint = \<lparr>token = OpaqueCheckpoint ''t'',
    cursor = \<lparr>epoch = 1, sequence = 9\<rparr>, scope = demo_scope\<rparr>, br_expires_at = 100\<rparr>"
  have t: "typed_start ?s" "typed_manifest (demo_manifest 5 ?d)" "typed_page_request ?q" "typed_page (demo_page ?d)"
    "typed_complete ?c" "typed_receipt ?r" by code_simp+
  have "\<not> isl (encode_bootstrap_page rfc_ser (demo_page ?d))" by code_simp
  from sum.collapse(2) [OF this] bootstrap_messages_roundtrip [OF rfc.cbor_library_axioms t]
  show ?thesis by metis
qed

text \<open>
  A finished bootstrap delivers an installable snapshot: its pages are numbered from zero
  without a gap, the records of all pages together are strictly ascending by ID (so no record
  appears twice), each is a present row or tombstone with a version above zero, and their
  number is what the manifest says.
\<close>

theorem verified_bootstrap_ordered:
  assumes "verify_pages ser sha256 manifest pages = Inr summary"
  shows "map (unat \<circ> bp_index) pages = [0..<length pages]
    \<and> sorted_wrt (<) (map sr_record_id (records_of pages))
    \<and> (\<forall>r \<in> set (records_of pages). installable (sr_state r))
    \<and> length pages = unat (bm_page_count manifest)
    \<and> length (records_of pages) = unat (bm_record_count manifest)"
proof -
  from assms obtain v where "run_inv ser sha256 \<lparr>run_manifest = manifest, run_pages = pages\<rparr> v"
    and "verifier_finish sha256 v = Inr summary" by (rule verify_pages_Inr)
  then show ?thesis by (auto simp: run_inv_def Let_def dest!: verifier_finish_Inr)
qed

theorem verified_bootstrap_ordered_witness:
  "sorted_wrt (<) (map sr_record_id (records_of demo_pages)) \<and> length (records_of demo_pages) = 2"
  using verified_bootstrap_ordered [OF demo_verify_ok] by (simp add: demo_pages_def demo_page_def demo_records_def)

text \<open>
  C31: the root binds the content.  If two bootstraps finish under manifests with the same
  root, then unless SHA-256 collides on one of the strings hashed on the way, they delivered
  the same records in the same pages: pages from an untrusted cache cannot be replaced,
  reordered, dropped or split differently.
\<close>

theorem bootstrap_root_binds:
  assumes "cbor_library ser de" and "\<And>x. length (sha256 x) = 32"
    and "verify_pages ser sha256 manifest pages = Inr summary" and "\<forall>p \<in> set pages. typed_records (bp_records p)"
    and "verify_pages ser sha256 manifest' pages' = Inr summary'" and "\<forall>p \<in> set pages'. typed_records (bp_records p)"
    and "bm_root manifest = bm_root manifest'"
    and "inj_on sha256 (hashed ser sha256 pages \<union> hashed ser sha256 pages')"
  shows "map bp_records pages = map bp_records pages'"
proof -
  from assms(3) obtain v where v: "run_inv ser sha256 \<lparr>run_manifest = manifest, run_pages = pages\<rparr> v"
    "verifier_finish sha256 v = Inr summary" by (rule verify_pages_Inr)
  from assms(5) obtain w where w: "run_inv ser sha256 \<lparr>run_manifest = manifest', run_pages = pages'\<rparr> w"
    "verifier_finish sha256 w = Inr summary'" by (rule verify_pages_Inr)
  have "sha256 (root_preimage ser sha256 pages) = sha256 (root_preimage ser sha256 pages')"
    using verified_root [OF v] verified_root [OF w] assms(7) by simp
  then have "root_preimage ser sha256 pages = root_preimage ser sha256 pages'"
    by (rule inj_onD [OF assms(8)]) (simp_all add: hashed_def)
  note eq = root_preimage_inject [OF this assms(2)]
  have len: "length pages = length pages'" using map_eq_imp_length_eq [OF eq] .
  have "bp_records (pages ! i) = bp_records (pages' ! i)" if i: "i < length pages" for i
  proof -
    let ?p = "pages ! i" and ?q = "pages' ! i"
    have mem: "?p \<in> set pages" "?q \<in> set pages'" using i len by auto
    have c: "encode_content ser (bp_index ?p) (bp_records ?p) = Inr (content_of ser ?p)"
      "encode_content ser (bp_index ?q) (bp_records ?q) = Inr (content_of ser ?q)"
      using v(1) w(1) mem by (auto simp: run_inv_def Let_def)
    have "sha256 (page_preimage ser ?p) = sha256 (page_preimage ser ?q)"
      using arg_cong [OF eq, of "\<lambda>xs. snd (xs ! i)"] i len by simp
    then have "page_preimage ser ?p = page_preimage ser ?q"
      by (rule inj_onD [OF assms(8)]) (use mem in \<open>auto simp: hashed_def\<close>)
    then have same: "content_of ser ?p = content_of ser ?q" using c by (rule page_preimage_inject)
    have t: "typed_records (bp_records ?p)" "typed_records (bp_records ?q)" using assms(4,6) mem by blast+
    show ?thesis using content_inject [OF assms(1) c(1) t(1) c(2) [folded same] t(2)] by blast
  qed
  then show ?thesis using len by (intro nth_equalityI) simp_all
qed

theorem bootstrap_root_binds_witness:
  "map bp_records demo_pages = [demo_records]"
proof -
  have "length (demo_sha x) = 32" for x by (simp add: demo_sha_def)
  moreover have "inj_on demo_sha (hashed rfc_ser demo_sha demo_pages \<union> hashed rfc_ser demo_sha demo_pages)"
    using demo_hashes_differ by (auto simp: hashed_def demo_pages_def inj_on_def)
  ultimately have "map bp_records demo_pages = map bp_records demo_pages"
    using bootstrap_root_binds [OF rfc.cbor_library_axioms _ demo_verify_ok demo_typed demo_verify_ok demo_typed] by simp
  then show ?thesis by (simp add: demo_pages_def demo_page_def)
qed

end
