(* ===== verification/Native_Queue.thy ===== *)
theory Native_Queue
  imports Canonical_Codec
begin

text \<open>
  The bounded view of the pending queue (\<open>crates/surrealdb-rn-core/src/sync_queue.rs\<close>): the
  byte-limited JSON writer, the FIFO window handed to the host and the admission test of a
  bounded enqueue.  JSON text is written by \<open>serde_json\<close>, a parameter here: \<open>ser\<close> gives the
  chunks an item is written in and whether writing succeeds, \<open>quote\<close> the chunks of a JSON
  string literal.  What the window relies on is that a literal holds at least its content
  and two quotes.
\<close>

datatype native_sync_error =
    Closed
  | InvalidInput
  | Protocol
  | Persistence
  | RecoveryRequired
  | RequiresEmbeddedDatabase
  | ReadOutputTooLarge
  | NeedsNewScopeJournal
  | PendingQuarantineRequired
  | SubscriptionCancelledN
  | InvalidSubscriptionN
  | Internal
  | QueueCapacity

type_synonym u32 = "32 word"

type_synonym 'a json_writer = "'a \<Rightarrow> string list \<times> bool"
type_synonym json_quoter = "string \<Rightarrow> string list"

definition max_commits :: u32 where "max_commits = 64"
definition max_bytes_limit :: u32 where "max_bytes_limit = 4194304"

record native_pending_window =
  pw_revision :: u64
  pw_commits :: "string list"
  pw_bytes :: u32
  pw_remaining_count :: u32
  pw_first_commit_too_large :: bool

definition limits :: "u32 \<Rightarrow> u32 \<Rightarrow> native_sync_error + unit" where
  "limits cnt bytes =
     (if cnt = 0 \<or> cnt > max_commits \<or> \<not> (2 \<le> bytes \<and> bytes \<le> max_bytes_limit)
      then Inl InvalidInput else Inr ())"

section \<open>The byte-limited writer\<close>

record budget_writer =
  bw_bytes :: string
  bw_limit :: nat

definition bw_write :: "budget_writer \<Rightarrow> string \<Rightarrow> budget_writer option" where
  "bw_write w input =
     (if length input > bw_limit w - length (bw_bytes w) then None
      else Some (w\<lparr>bw_bytes := bw_bytes w @ input\<rparr>))"

fun write_pieces :: "budget_writer \<Rightarrow> string list \<Rightarrow> budget_writer option" where
  "write_pieces w [] = Some w"
| "write_pieces w (c # cs) =
     (case bw_write w c of None \<Rightarrow> None | Some w' \<Rightarrow> write_pieces w' cs)"

definition bounded_json :: "'a json_writer \<Rightarrow> 'a \<Rightarrow> nat \<Rightarrow> string option" where
  "bounded_json ser x limit =
     (case ser x of (chunks, finished) \<Rightarrow>
        (case write_pieces \<lparr>bw_bytes = [], bw_limit = limit\<rparr> chunks of
           None \<Rightarrow> None
         | Some w \<Rightarrow> if finished then Some (bw_bytes w) else None))"

definition from_utf8 :: "string \<Rightarrow> native_sync_error + string" where
  "from_utf8 raw = (if utf8 raw then Inr raw else Inl Internal)"

section \<open>The window and admission\<close>

definition comma :: "bool \<Rightarrow> nat" where
  "comma after = (if after then 1 else 0)"

fun window_loop ::
  "'a json_writer \<Rightarrow> json_quoter \<Rightarrow> u32 \<Rightarrow> native_pending_window \<Rightarrow> 'a list \<Rightarrow>
   native_sync_error + native_pending_window" where
  "window_loop ser quote budget result [] = Inr result"
| "window_loop ser quote budget result (x # xs) =
     (let available = unat budget - unat (pw_bytes result);
          c = comma (pw_commits result \<noteq> []);
          stopped = result\<lparr>pw_first_commit_too_large := pw_commits result = []\<rparr> in
      case bounded_json ser x available of
        None \<Rightarrow> Inr stopped
      | Some raw \<Rightarrow>
          rbind (from_utf8 raw) (\<lambda>raw.
          case bounded_json (\<lambda>s. (quote s, True)) raw (available - c) of
            None \<Rightarrow> Inr stopped
          | Some quoted \<Rightarrow>
              window_loop ser quote budget
                (result\<lparr>pw_bytes := pw_bytes result + of_nat (length quoted + c),
                        pw_commits := pw_commits result @ [raw]\<rparr>) xs))"

definition window ::
  "'a json_writer \<Rightarrow> json_quoter \<Rightarrow> u64 \<Rightarrow> 'a list \<Rightarrow> u32 \<Rightarrow> u32 \<Rightarrow>
   native_sync_error + native_pending_window" where
  "window ser quote revn items cnt budget =
     rbind (limits cnt budget) (\<lambda>_.
     rbind (window_loop ser quote budget
              \<lparr>pw_revision = revn, pw_commits = [], pw_bytes = 2, pw_remaining_count = 0,
               pw_first_commit_too_large = False\<rparr> (take (unat cnt) items)) (\<lambda>result.
     let rest = length items - length (pw_commits result) in
     if rest < 2 ^ 32 then Inr (result\<lparr>pw_remaining_count := of_nat rest\<rparr>) else Inl Internal))"

fun admits_loop ::
  "'a json_writer \<Rightarrow> json_quoter \<Rightarrow> u32 \<Rightarrow> nat \<Rightarrow> bool \<Rightarrow> 'a list \<Rightarrow> native_sync_error + unit" where
  "admits_loop ser quote budget charged seen [] = Inr ()"
| "admits_loop ser quote budget charged seen (x # xs) =
     (let available = unat budget - charged in
      rbind (ok_or QueueCapacity (bounded_json ser x available)) (\<lambda>raw.
      rbind (from_utf8 raw) (\<lambda>raw.
      rbind (ok_or QueueCapacity
               (bounded_json (\<lambda>s. (quote s, True)) raw (available - comma seen))) (\<lambda>quoted.
      admits_loop ser quote budget (charged + length quoted + comma seen) True xs))))"

definition admits ::
  "'a json_writer \<Rightarrow> json_quoter \<Rightarrow> 'a list \<Rightarrow> 'a \<Rightarrow> u32 \<Rightarrow> u32 \<Rightarrow> native_sync_error + unit" where
  "admits ser quote items candidate cnt bytes =
     rbind (limits cnt bytes) (\<lambda>_.
     if length items \<ge> unat cnt then Inl QueueCapacity
     else admits_loop ser quote bytes 2 False (items @ [candidate]))"

section \<open>What the writer accepts\<close>

lemma write_pieces_eq:
  "length (bw_bytes w) \<le> bw_limit w \<Longrightarrow>
   write_pieces w cs =
     (if length (bw_bytes w @ concat cs) \<le> bw_limit w
      then Some (w\<lparr>bw_bytes := bw_bytes w @ concat cs\<rparr>) else None)"
  by (induction cs arbitrary: w) (auto simp: bw_write_def)

lemma bounded_json_eq:
  "bounded_json ser x limit =
     (if snd (ser x) \<and> length (concat (fst (ser x))) \<le> limit
      then Some (concat (fst (ser x))) else None)"
  by (auto simp: bounded_json_def write_pieces_eq split: prod.splits)

section \<open>The host's view: a JSON array of strings\<close>

fun json_elements :: "json_quoter \<Rightarrow> string list \<Rightarrow> string" where
  "json_elements quote [] = []"
| "json_elements quote [s] = concat (quote s)"
| "json_elements quote (s # ss) = concat (quote s) @ '','' @ json_elements quote ss"

definition json_array :: "json_quoter \<Rightarrow> string list \<Rightarrow> string" where
  "json_array quote ss = ''['' @ json_elements quote ss @ '']''"

definition item_text :: "'a json_writer \<Rightarrow> 'a \<Rightarrow> string" where
  "item_text ser x = concat (fst (ser x))"

definition writes :: "'a json_writer \<Rightarrow> 'a \<Rightarrow> bool" where
  "writes ser x \<longleftrightarrow> snd (ser x) \<and> utf8 (item_text ser x)"

definition encloses :: "json_quoter \<Rightarrow> bool" where
  "encloses quote \<longleftrightarrow> (\<forall>s. length s + 2 \<le> length (concat (quote s)))"

lemma json_array_empty [simp]: "length (json_array quote []) = 2"
  by (simp add: json_array_def)

lemma json_elements_snoc:
  "json_elements quote (ss @ [s]) = (if ss = [] then concat (quote s)
     else json_elements quote ss @ '','' @ concat (quote s))"
  by (induction quote ss rule: json_elements.induct) auto

lemma json_array_snoc:
  "length (json_array quote (ss @ [s])) =
     length (json_array quote ss) + length (concat (quote s)) + comma (ss \<noteq> [])"
  by (simp add: json_array_def json_elements_snoc comma_def)

lemma json_array_grows: "length (json_array quote ss) \<le> length (json_array quote (ss @ ts))"
proof (induction ts rule: rev_induct)
  case (snoc t ts)
  then show ?case
    using json_array_snoc[of quote "ss @ ts" t] by simp
qed simp

text \<open>
  One step of either loop: with the budget counting the array so far, an item is taken
  exactly when the array including it still fits.
\<close>

lemma take_step:
  assumes "writes ser x" "encloses quote" "length (json_array quote ss) \<le> budget"
  defines "room \<equiv> budget - length (json_array quote ss)"
  shows "length (json_array quote (ss @ [item_text ser x])) \<le> budget \<longleftrightarrow>
    bounded_json ser x room = Some (item_text ser x) \<and>
    bounded_json (\<lambda>s. (quote s, True)) (item_text ser x) (room - comma (ss \<noteq> [])) =
      Some (concat (quote (item_text ser x)))"
proof -
  have "length (item_text ser x) + 2 \<le> length (concat (quote (item_text ser x)))"
    using assms(2) by (simp add: encloses_def)
  with assms(1,3) show ?thesis
    unfolding room_def bounded_json_eq json_array_snoc
    by (auto simp: writes_def item_text_def comma_def)
qed

definition fits :: "json_quoter \<Rightarrow> u32 \<Rightarrow> string list \<Rightarrow> bool" where
  "fits quote budget ss \<longleftrightarrow> length (json_array quote ss) \<le> unat budget"

lemma fits_mono: "fits quote budget (ss @ ts) \<Longrightarrow> fits quote budget ss"
  using json_array_grows[of quote ss ts] by (simp add: fits_def)

lemma fits_take: "fits quote budget ss \<Longrightarrow> fits quote budget (take k ss)"
  using fits_mono[of quote budget "take k ss" "drop k ss"] by simp

definition counted :: "json_quoter \<Rightarrow> native_pending_window \<Rightarrow> bool" where
  "counted quote r \<longleftrightarrow> unat (pw_bytes r) = length (json_array quote (pw_commits r))"

lemma unat_lt_32: "unat (w :: u32) < 2 ^ 32"
  using unsigned_less[where 'a = nat, of w] by simp

lemma unat_of_nat_32: "n < 2 ^ 32 \<Longrightarrow> unat (of_nat n :: u32) = n"
  by (simp add: unsigned_of_nat take_bit_nat_eq_self_iff)

lemma window_loop_take:
  assumes "writes ser x" "encloses quote" "counted quote r"
    and fit: "fits quote budget (pw_commits r @ [item_text ser x])"
  defines "r' \<equiv> r\<lparr>pw_bytes := of_nat (length (json_array quote (pw_commits r @ [item_text ser x]))),
                   pw_commits := pw_commits r @ [item_text ser x]\<rparr>"
  shows "window_loop ser quote budget r (x # xs) = window_loop ser quote budget r' xs" "counted quote r'"
proof -
  let ?a = "length (json_array quote (pw_commits r))" and ?t = "item_text ser x"
  have a: "?a \<le> unat budget"
    using fits_mono[OF fit] by (simp add: fits_def)
  have room: "unat budget - unat (pw_bytes r) = unat budget - ?a"
    using assms(3) by (simp add: counted_def)
  have "pw_bytes r = of_nat (unat (pw_bytes r))" by simp
  then have bytes: "pw_bytes r = of_nat ?a"
    using assms(3) by (simp only: counted_def)
  then have upd: "pw_bytes r + of_nat (length (concat (quote ?t)) + comma (pw_commits r \<noteq> [])) =
      of_nat (length (json_array quote (pw_commits r @ [?t])))"
    by (simp add: json_array_snoc add.assoc)
  note step = take_step[OF assms(1,2) a, THEN iffD1, OF fit[unfolded fits_def]]
  show "window_loop ser quote budget r (x # xs) = window_loop ser quote budget r' xs"
    using step assms(1)
    by (simp add: room Let_def from_utf8_def writes_def r'_def upd del: of_nat_add)
  have "length (json_array quote (pw_commits r @ [?t])) < 2 ^ 32"
    using fit unat_lt_32[of budget] by (simp add: fits_def)
  then show "counted quote r'"
    by (simp add: counted_def r'_def unat_of_nat_32)
qed

lemma window_loop_stop:
  assumes "writes ser x" "encloses quote" "counted quote r" "fits quote budget (pw_commits r)"
    and "\<not> fits quote budget (pw_commits r @ [item_text ser x])"
  shows "window_loop ser quote budget r (x # xs) =
    Inr (r\<lparr>pw_first_commit_too_large := pw_commits r = []\<rparr>)"
proof -
  have room: "unat budget - unat (pw_bytes r) = unat budget - length (json_array quote (pw_commits r))"
    using assms(3) by (simp add: counted_def)
  have "\<not> length (json_array quote (pw_commits r @ [item_text ser x])) \<le> unat budget"
    using assms(5) by (simp add: fits_def)
  with take_step[OF assms(1,2) assms(4)[unfolded fits_def]] show ?thesis
    using assms(1)
    by (auto simp: room Let_def from_utf8_def writes_def bounded_json_eq item_text_def)
qed

text \<open>The loop returns the longest prefix of the items that fits, with its exact size.\<close>

lemma window_loop_exact:
  assumes "\<forall>x \<in> set xs. writes ser x" "encloses quote" "counted quote r"
    "fits quote budget (pw_commits r)" "\<not> pw_first_commit_too_large r"
  shows "\<exists>k w. window_loop ser quote budget r xs = Inr w \<and> k \<le> length xs
    \<and> pw_commits w = pw_commits r @ map (item_text ser) (take k xs)
    \<and> counted quote w \<and> fits quote budget (pw_commits w)
    \<and> (k < length xs \<longrightarrow> \<not> fits quote budget (pw_commits w @ [item_text ser (xs ! k)]))
    \<and> pw_first_commit_too_large w = (pw_commits w = [] \<and> xs \<noteq> []) \<and> pw_revision w = pw_revision r"
  using assms
proof (induction xs arbitrary: r)
  case Nil
  then show ?case by auto
next
  case (Cons x xs)
  let ?t = "item_text ser x"
  show ?case
  proof (cases "fits quote budget (pw_commits r @ [?t])")
    case True
    define r' where "r' = r\<lparr>pw_bytes := of_nat (length (json_array quote (pw_commits r @ [?t]))),
      pw_commits := pw_commits r @ [?t]\<rparr>"
    have take: "window_loop ser quote budget r (x # xs) = window_loop ser quote budget r' xs" "counted quote r'"
      unfolding r'_def using window_loop_take[OF _ Cons.prems(2,3) True] Cons.prems(1) by auto
    note select_convs = native_pending_window.select_convs
  have pre: "\<forall>x \<in> set xs. writes ser x" "fits quote budget (pw_commits r')"
      "\<not> pw_first_commit_too_large r'"
      using Cons.prems True by (auto simp: r'_def)
    obtain k w where "window_loop ser quote budget r' xs = Inr w" "k \<le> length xs"
      "pw_commits w = pw_commits r' @ map (item_text ser) (take k xs)" "counted quote w"
      "fits quote budget (pw_commits w)"
      "k < length xs \<longrightarrow> \<not> fits quote budget (pw_commits w @ [item_text ser (xs ! k)])"
      "pw_first_commit_too_large w = (pw_commits w = [] \<and> xs \<noteq> [])" "pw_revision w = pw_revision r'"
      using Cons.IH[OF pre(1) Cons.prems(2) take(2) pre(2,3)] by blast
    then show ?thesis
      using take(1) by (intro exI[of _ "Suc k"] exI[of _ w]) (auto simp: r'_def)
  next
    case False
    have "writes ser x" using Cons.prems(1) by simp
    from window_loop_stop[OF this Cons.prems(2,3,4) False] show ?thesis
      using Cons.prems False by (intro exI[of _ 0]) (auto simp: counted_def)
  qed
qed

lemma admits_loop_iff:
  assumes "\<forall>x \<in> set xs. writes ser x" "encloses quote" "fits quote budget ss"
  shows "admits_loop ser quote budget (length (json_array quote ss)) (ss \<noteq> []) xs = Inr () \<longleftrightarrow>
    fits quote budget (ss @ map (item_text ser) xs)"
  using assms
proof (induction xs arbitrary: ss)
  case (Cons x xs)
  let ?t = "item_text ser x" and ?a = "length (json_array quote ss)"
  have w: "writes ser x" using Cons.prems(1) by simp
  note step = take_step[OF w Cons.prems(2,3)[unfolded fits_def]]
  show ?case
  proof (cases "fits quote budget (ss @ [?t])")
    case True
    then have "admits_loop ser quote budget ?a (ss \<noteq> []) (x # xs) =
        admits_loop ser quote budget (length (json_array quote (ss @ [?t]))) True xs"
      using step[THEN iffD1, OF True[unfolded fits_def]] w
      by (simp add: Let_def from_utf8_def writes_def json_array_snoc)
    with Cons.IH[of "ss @ [?t]"] Cons.prems True show ?thesis by simp
  next
    case False
    then have "\<not> fits quote budget (ss @ map (item_text ser) (x # xs))"
      using fits_mono[of quote budget "ss @ [?t]" "map (item_text ser) xs"] by auto
    moreover have "admits_loop ser quote budget ?a (ss \<noteq> []) (x # xs) \<noteq> Inr ()"
    proof
      assume "admits_loop ser quote budget ?a (ss \<noteq> []) (x # xs) = Inr ()"
      with w have "bounded_json ser x (unat budget - ?a) = Some ?t \<and>
          bounded_json (\<lambda>s. (quote s, True)) ?t (unat budget - ?a - comma (ss \<noteq> [])) = Some (concat (quote ?t))"
        by (auto simp: Let_def rbind_Inr ok_or_Inr from_utf8_def item_text_def bounded_json_eq
            split: if_splits)
      with step False show False by (simp add: fits_def)
    qed
    ultimately show ?thesis by simp
  qed
qed simp

section \<open>Properties\<close>

definition sample_ser :: "string json_writer" where
  "sample_ser s = ([s], True)"

definition sample_quote :: json_quoter where
  "sample_quote s =
     [[CHR 0x22], concat (map (\<lambda>c. if c = CHR 0x22 \<or> c = CHR 0x5C then [CHR 0x5C, c] else [c]) s),
      [CHR 0x22]]"

lemma sample_encloses: "encloses sample_quote"
proof -
  have "length s \<le> length (concat (map (\<lambda>c. if c = CHR 0x22 \<or> c = CHR 0x5C then [CHR 0x5C, c] else [c]) s))"
    for s :: string
    by (induction s) auto
  then show ?thesis by (simp add: encloses_def sample_quote_def)
qed


lemma window_prefix:
  assumes "limits cnt budget = Inr ()" "length items < 2 ^ 32"
    and "\<forall>x \<in> set items. writes ser x" "encloses quote"
  shows "\<exists>k w. window ser quote r items cnt budget = Inr w
    \<and> k \<le> unat cnt \<and> k \<le> length items \<and> pw_commits w = map (item_text ser) (take k items)
    \<and> counted quote w \<and> fits quote budget (pw_commits w)
    \<and> (k < unat cnt \<and> k < length items \<longrightarrow>
         \<not> fits quote budget (map (item_text ser) (take (Suc k) items)))
    \<and> unat (pw_remaining_count w) = length items - k
    \<and> pw_first_commit_too_large w = (k = 0 \<and> items \<noteq> []) \<and> pw_revision w = r"
proof -
  let ?r = "\<lparr>pw_revision = r, pw_commits = [], pw_bytes = 2, pw_remaining_count = 0,
             pw_first_commit_too_large = False\<rparr>" and ?xs = "take (unat cnt) items"
  have pos: "cnt \<noteq> 0" and two: "2 \<le> unat budget"
    using assms(1) by (auto simp: limits_def word_le_nat_alt split: if_splits)
  note select_convs = native_pending_window.select_convs
  have pre: "\<forall>x \<in> set ?xs. writes ser x" "counted quote ?r" "fits quote budget (pw_commits ?r)"
      "\<not> pw_first_commit_too_large ?r"
    using assms(3) two by (auto simp: counted_def fits_def dest: in_set_takeD)
  obtain k w where loop: "window_loop ser quote budget ?r ?xs = Inr w" "k \<le> length ?xs"
      "pw_commits w = map (item_text ser) (take k ?xs)" "counted quote w" "fits quote budget (pw_commits w)"
      "k < length ?xs \<longrightarrow> \<not> fits quote budget (pw_commits w @ [item_text ser (?xs ! k)])"
      "pw_first_commit_too_large w = (pw_commits w = [] \<and> ?xs \<noteq> [])" "pw_revision w = r"
    using window_loop_exact[OF pre(1) assms(4) pre(2-4)] unfolding select_convs append_Nil by blast
  have k: "length (pw_commits w) = k" "take k ?xs = take k items"
    using loop(2,3) by auto
  have "window ser quote r items cnt budget = Inr (w\<lparr>pw_remaining_count := of_nat (length items - k)\<rparr>)"
    using assms(1,2) loop(1) k(1) by (simp add: window_def Let_def)
  moreover have "unat (of_nat (length items - k) :: u32) = length items - k"
    using assms(2) by (intro unat_of_nat_32) auto
  moreover have "pw_first_commit_too_large w = (k = 0 \<and> items \<noteq> [])"
    using loop(7) k(1) pos by (auto simp: unat_eq_0)
  moreover have "k < unat cnt \<and> k < length items \<longrightarrow>
      \<not> fits quote budget (map (item_text ser) (take (Suc k) items))"
    using loop(3,6) k(2) by (auto simp: take_Suc_conv_app_nth)
  ultimately show ?thesis
    using loop(2-5,8) k
    by (intro exI[of _ k] exI[of _ "w\<lparr>pw_remaining_count := of_nat (length items - k)\<rparr>"])
      (simp add: counted_def)
qed

lemma limits_pos: "limits cnt budget = Inr () \<Longrightarrow> 0 < unat cnt \<and> fits quote budget []"
  by (auto simp: limits_def fits_def word_le_nat_alt unat_gt_0 split: if_splits)

text \<open>
  C22: The pending window returns the longest FIFO prefix of the queue that respects both
  limits, on the number of commits and on the bytes of a JSON array of their texts.  The
  reported byte count is exactly the size of that array, the remaining count the number of
  commits left out, and the too-large flag is raised exactly when not even the first fits.
\<close>
theorem pending_window_exact:
  assumes "limits cnt budget = Inr ()" "length items < 2 ^ 32"
    and "\<forall>x \<in> set items. writes ser x" "encloses quote"
  shows "\<exists>k w. window ser quote r items cnt budget = Inr w
    \<and> k \<le> unat cnt \<and> k \<le> length items \<and> pw_commits w = map (item_text ser) (take k items)
    \<and> unat (pw_bytes w) = length (json_array quote (pw_commits w)) \<and> pw_bytes w \<le> budget
    \<and> (k < unat cnt \<and> k < length items \<longrightarrow>
         unat budget < length (json_array quote (map (item_text ser) (take (Suc k) items))))
    \<and> unat (pw_remaining_count w) = length items - k
    \<and> pw_first_commit_too_large w = (k = 0 \<and> items \<noteq> []) \<and> pw_revision w = r"
proof -
  obtain k w where "window ser quote r items cnt budget = Inr w" "k \<le> unat cnt" "k \<le> length items"
      "pw_commits w = map (item_text ser) (take k items)" "counted quote w" "fits quote budget (pw_commits w)"
      "k < unat cnt \<and> k < length items \<longrightarrow>
         \<not> fits quote budget (map (item_text ser) (take (Suc k) items))"
      "unat (pw_remaining_count w) = length items - k"
      "pw_first_commit_too_large w = (k = 0 \<and> items \<noteq> [])" "pw_revision w = r"
    using window_prefix[OF assms] by blast
  then show ?thesis
    by (intro exI[of _ k] exI[of _ w]) (simp add: counted_def fits_def word_le_nat_alt not_le)
qed

theorem pending_window_exact_witness:
  "\<exists>k w. window sample_ser sample_quote 7 [''ab'', ''c''] 2 8 = Inr w \<and> k \<le> 2
     \<and> pw_commits w = map (item_text sample_ser) (take k [''ab'', ''c''])
     \<and> unat (pw_bytes w) = length (json_array sample_quote (pw_commits w)) \<and> pw_bytes w \<le> 8
     \<and> (k < 2 \<longrightarrow> 8 < length (json_array sample_quote
                     (map (item_text sample_ser) (take (Suc k) [''ab'', ''c'']))))
     \<and> unat (pw_remaining_count w) = 2 - k"
proof -
  have "limits 2 8 = Inr ()" by code_simp
  moreover have "\<forall>x \<in> set [''ab'', ''c'']. writes sample_ser x" by code_simp
  moreover have "unat (2 :: u32) = 2" "unat (8 :: u32) = 8" by code_simp+
  ultimately show ?thesis
    using pending_window_exact[OF _ _ _ sample_encloses, of 2 8 "[''ab'', ''c'']" sample_ser 7]
    by fastforce
qed

text \<open>
  A bounded enqueue is admitted exactly when the window over the queue with the new
  commit at its end, under the same two limits, returns the whole queue.
\<close>
theorem admission_matches_window:
  assumes "limits cnt budget = Inr ()" "Suc (length items) < 2 ^ 32"
    and "\<forall>x \<in> set (items @ [candidate]). writes ser x" "encloses quote"
  shows "admits ser quote items candidate cnt budget = Inr () \<longleftrightarrow>
    (\<exists>w. window ser quote r (items @ [candidate]) cnt budget = Inr w \<and> pw_remaining_count w = 0)"
proof -
  let ?q = "items @ [candidate]"
  have small: "length ?q < 2 ^ 32" using assms(2) by simp
  have "admits ser quote items candidate cnt budget = Inr () \<longleftrightarrow>
      length ?q \<le> unat cnt \<and> fits quote budget (map (item_text ser) ?q)"
    using admits_loop_iff[OF assms(3,4), of budget "[]"] limits_pos[OF assms(1)] assms(1)
    by (auto simp: admits_def)
  moreover obtain k w where w: "window ser quote r ?q cnt budget = Inr w" "k \<le> unat cnt" "k \<le> length ?q"
      "pw_commits w = map (item_text ser) (take k ?q)" "fits quote budget (pw_commits w)"
      "k < unat cnt \<and> k < length ?q \<longrightarrow> \<not> fits quote budget (map (item_text ser) (take (Suc k) ?q))"
      "unat (pw_remaining_count w) = length ?q - k"
    using window_prefix[OF assms(1) small assms(3,4)] by blast
  moreover have "pw_remaining_count w = 0 \<longleftrightarrow> k = length ?q"
    using w(3,7) by (metis diff_is_0_eq' diff_self_eq_0 le_antisym unat_eq_0 diff_is_0_eq)
  moreover have "fits quote budget (map (item_text ser) (take (Suc k) ?q))"
    if "fits quote budget (map (item_text ser) ?q)"
    using fits_take[OF that, of "Suc k"] by (simp only: take_map)
  ultimately show ?thesis
    by (metis Inr_inject le_neq_implies_less order_less_le_trans take_all_iff order_refl)
qed

theorem admission_matches_window_witness:
  "admits sample_ser sample_quote [''ab''] ''c'' 2 10 = Inr () \<and>
   admits sample_ser sample_quote [''ab''] ''c'' 2 9 = Inl QueueCapacity \<and>
   (\<exists>w. window sample_ser sample_quote 7 ([''ab''] @ [''c'']) 2 10 = Inr w \<and> pw_remaining_count w = 0)"
proof -
  have "limits 2 10 = Inr ()" by code_simp
  moreover have "\<forall>x \<in> set ([''ab''] @ [''c'']). writes sample_ser x" by code_simp
  moreover have "admits sample_ser sample_quote [''ab''] ''c'' 2 10 = Inr ()"
    "admits sample_ser sample_quote [''ab''] ''c'' 2 9 = Inl QueueCapacity" by code_simp+
  ultimately show ?thesis
    using admission_matches_window[OF _ _ _ sample_encloses, of 2 10 "[''ab'']" "''c''" sample_ser 7]
    by simp
qed

end
