(* ===== verification/Json_Value.thy ===== *)
theory Json_Value
  imports Canonical_Codec
begin

unbundle bit_operations_syntax

text \<open>
  The JSON trees the native layer works on (\<open>serde_json::Value\<close> as the crates use it,
  without insertion-ordered maps) and the decimal texts of Rust's integers.  An object is
  the key-ordered list of its members; \<open>json_ok\<close> states that order for every object of a tree
  and that a negative number carries a negative value, which every constructor of the
  library guarantees.
\<close>

section \<open>Trees\<close>

datatype json_number = PosInt u64 | NegInt i64 | FloatNum u64

datatype json =
    JNull
  | JBool bool
  | JNumber json_number
  | JString string
  | JArray "json list"
  | JObject "(string \<times> json) list"

type_synonym members = "(string \<times> json) list"

fun member_insert :: "string \<Rightarrow> 'a \<Rightarrow> (string \<times> 'a) list \<Rightarrow> (string \<times> 'a) list" where
  "member_insert k v [] = [(k, v)]"
| "member_insert k v ((l, w) # ms) =
     (if k < l then (k, v) # (l, w) # ms
      else if k = l then (k, v) # ms else (l, w) # member_insert k v ms)"

definition member_remove :: "string \<Rightarrow> (string \<times> 'a) list \<Rightarrow> (string \<times> 'a) list" where
  "member_remove k ms = filter (\<lambda>(l, _). l \<noteq> k) ms"

definition members_of :: "(string \<times> 'a) list \<Rightarrow> (string \<times> 'a) list" where
  "members_of kvs = fold (\<lambda>(k, v). member_insert k v) kvs []"

definition key_ordered :: "(string \<times> 'a) list \<Rightarrow> bool" where
  "key_ordered ms \<longleftrightarrow> sorted_wrt (<) (map fst ms)"

fun json_number_ok :: "json_number \<Rightarrow> bool" where
  "json_number_ok (PosInt n) = True"
| "json_number_ok (NegInt n) = (sint n < 0)"
| "json_number_ok (FloatNum w) = is_finite_bits w"

fun json_ok :: "json \<Rightarrow> bool" where
  "json_ok (JNumber n) = json_number_ok n"
| "json_ok (JArray xs) = list_all json_ok xs"
| "json_ok (JObject ms) = (key_ordered ms \<and> list_all (\<lambda>(k, v). json_ok v) ms)"
| "json_ok _ = True"

fun as_str :: "json \<Rightarrow> string option" where
  "as_str (JString s) = Some s"
| "as_str _ = None"

fun as_array :: "json \<Rightarrow> json list option" where
  "as_array (JArray xs) = Some xs"
| "as_array _ = None"

fun as_i64 :: "json_number \<Rightarrow> i64 option" where
  "as_i64 (PosInt n) = (if unat n < 2 ^ 63 then Some n else None)"
| "as_i64 (NegInt n) = Some n"
| "as_i64 (FloatNum w) = None"

fun as_u64 :: "json \<Rightarrow> u64 option" where
  "as_u64 (JNumber (PosInt n)) = Some n"
| "as_u64 _ = None"

definition number_from_i64 :: "i64 \<Rightarrow> json_number" where
  "number_from_i64 n = (if sint n < 0 then NegInt n else PosInt n)"

section \<open>Decimal texts\<close>

definition u64_text :: "u64 \<Rightarrow> string" where
  "u64_text n = decimal (unat n)"

definition i64_text :: "i64 \<Rightarrow> string" where
  "i64_text n = (if sint n < 0 then CHR ''-'' # decimal (nat (- sint n)) else decimal (nat (sint n)))"

definition digit_of :: "char \<Rightarrow> nat option" where
  "digit_of c = (let d = of_char c in if 48 \<le> d \<and> d \<le> 57 then Some (d - 48) else None)"

fun parse_digits :: "nat \<Rightarrow> string \<Rightarrow> nat option" where
  "parse_digits acc [] = Some acc"
| "parse_digits acc (c # cs) =
     (case digit_of c of None \<Rightarrow> None | Some d \<Rightarrow> parse_digits (10 * acc + d) cs)"

definition parse_nat :: "string \<Rightarrow> nat option" where
  "parse_nat s = (if s = [] then None else parse_digits 0 s)"

text \<open>\<open>str::parse\<close> of an unsigned and of a signed 64-bit integer: an optional sign, digits, no overflow.\<close>

definition strip_plus :: "string \<Rightarrow> string" where
  "strip_plus s = (if s \<noteq> [] \<and> hd s = CHR ''+'' then tl s else s)"

definition parse_u64 :: "string \<Rightarrow> u64 option" where
  "parse_u64 s =
     (case parse_nat (strip_plus s) of
        None \<Rightarrow> None
      | Some n \<Rightarrow> if n < 2 ^ 64 then Some (of_nat n) else None)"

definition parse_i64 :: "string \<Rightarrow> i64 option" where
  "parse_i64 s =
     (if s \<noteq> [] \<and> hd s = CHR ''-''
      then (case parse_nat (tl s) of
              None \<Rightarrow> None
            | Some n \<Rightarrow> if n \<le> 2 ^ 63 then Some (of_int (- int n)) else None)
      else (case parse_nat (strip_plus s) of
              None \<Rightarrow> None
            | Some n \<Rightarrow> if n < 2 ^ 63 then Some (of_nat n) else None))"

section \<open>Facts about members\<close>

lemma member_insert_keys: "set (map fst (member_insert k v ms)) = insert k (set (map fst ms))"
  by (induction k v ms rule: member_insert.induct) auto

lemma key_ordered_Cons:
  "key_ordered ((k, v) # ms) \<longleftrightarrow> (\<forall>l \<in> set (map fst ms). k < l) \<and> key_ordered ms"
  by (auto simp: key_ordered_def)

lemma key_ordered_Nil [simp]: "key_ordered []"
  by (simp add: key_ordered_def)

lemma key_ordered_insert: "key_ordered ms \<Longrightarrow> key_ordered (member_insert k v ms)"
proof (induction k v ms rule: member_insert.induct)
  case (2 k v l w ms)
  then show ?case
    using member_insert_keys[of k v ms] by (auto simp: key_ordered_Cons)
qed (simp add: key_ordered_def)

lemma member_insert_last:
  "(\<forall>l \<in> set (map fst ms). l < k) \<Longrightarrow> member_insert k v ms = ms @ [(k, v)]"
  by (induction k v ms rule: member_insert.induct) auto

lemma fold_insert_ordered:
  "key_ordered (acc @ kvs) \<Longrightarrow> fold (\<lambda>(k, v). member_insert k v) kvs acc = acc @ kvs"
proof (induction kvs arbitrary: acc)
  case (Cons kv kvs)
  obtain k v where kv: "kv = (k, v)" by fastforce
  from Cons.prems have "member_insert k v acc = acc @ [(k, v)]"
    by (intro member_insert_last) (auto simp: key_ordered_def kv sorted_wrt_append)
  with Cons.IH[of "acc @ [(k, v)]"] Cons.prems show ?case
    by (simp add: kv)
qed simp

lemma members_of_ordered [simp]: "key_ordered kvs \<Longrightarrow> members_of kvs = kvs"
  using fold_insert_ordered[of "[]" kvs] by (simp add: members_of_def)

lemma key_ordered_members_of: "key_ordered (members_of kvs)"
proof -
  have "key_ordered acc \<Longrightarrow> key_ordered (fold (\<lambda>(k, v). member_insert k v) kvs acc)" for acc
    by (induction kvs arbitrary: acc) (auto simp: key_ordered_insert)
  then show ?thesis by (simp add: members_of_def)
qed

lemma key_ordered_map [simp]: "key_ordered (map (\<lambda>(k, v). (k, f v)) ms) = key_ordered ms"
  by (simp add: key_ordered_def case_prod_unfold comp_def)

lemma key_ordered_remove: "key_ordered ms \<Longrightarrow> key_ordered (member_remove k ms)"
  by (induction ms) (auto simp: member_remove_def key_ordered_Cons)

lemma map_of_member_remove: "map_of (member_remove k ms) l = (if l = k then None else map_of ms l)"
  by (induction ms) (auto simp: member_remove_def)

lemma member_remove_absent: "map_of ms k = None \<Longrightarrow> member_remove k ms = ms"
  by (induction ms) (auto simp: member_remove_def split: if_splits)

section \<open>Facts about texts\<close>

lemma digit_of_digit_char: "d < 10 \<Longrightarrow> digit_of (digit_char d) = Some d"
  by (simp add: digit_of_def digit_char_def)

lemma parse_digits_append:
  "parse_digits acc (s @ t) = (case parse_digits acc s of None \<Rightarrow> None | Some n \<Rightarrow> parse_digits n t)"
  by (induction acc s rule: parse_digits.induct) (auto split: option.splits)

lemma parse_decimal: "\<exists>k. \<forall>acc. parse_digits acc (decimal n) = Some (10 ^ k * acc + n)"
proof (induction n rule: decimal.induct)
  case (1 n)
  show ?case
  proof (cases "n < 10")
    case True
    then show ?thesis
      by (intro exI[of _ 1]) (simp add: decimal.simps digit_of_digit_char)
  next
    case False
    with 1 obtain k where "\<forall>acc. parse_digits acc (decimal (n div 10)) = Some (10 ^ k * acc + n div 10)"
      by blast
    with False show ?thesis
      by (intro exI[of _ "Suc k"])
        (subst decimal.simps, simp add: parse_digits_append digit_of_digit_char algebra_simps)
  qed
qed

lemma parse_nat_decimal [simp]: "parse_nat (decimal n) = Some n"
proof -
  obtain k where "\<forall>acc. parse_digits acc (decimal n) = Some (10 ^ k * acc + n)"
    using parse_decimal by blast
  then show ?thesis by (simp add: parse_nat_def decimal_nonempty)
qed

lemma decimal_digits: "c \<in> set (decimal n) \<Longrightarrow> \<exists>d < 10. c = digit_char d"
proof (induction n rule: decimal.induct)
  case (1 n)
  show ?case
  proof (cases "n < 10")
    case True
    with "1.prems" show ?thesis by (auto simp: decimal.simps[of n])
  next
    case False
    with 1 have "c \<in> set (decimal (n div 10)) \<or> c = digit_char (n mod 10)"
      by (auto simp: decimal.simps[of n])
    with 1(1)[OF False] show ?thesis by (metis mod_less_divisor zero_less_numeral)
  qed
qed

lemma digit_not_sign: "d < 10 \<Longrightarrow> digit_char d \<noteq> CHR ''+'' \<and> digit_char d \<noteq> CHR ''-''"
proof -
  have "digit_of CHR ''+'' = None" "digit_of CHR ''-'' = None" by code_simp+
  then show "d < 10 \<Longrightarrow> ?thesis" using digit_of_digit_char[of d] by auto
qed

lemma hd_decimal: "hd (decimal n) \<noteq> CHR ''+'' \<and> hd (decimal n) \<noteq> CHR ''-''"
  using decimal_digits[of "hd (decimal n)" n] digit_not_sign by (metis decimal_nonempty hd_in_set)

lemma strip_plus_decimal [simp]: "strip_plus (decimal n) = decimal n"
  using hd_decimal by (simp add: strip_plus_def)

lemma parse_u64_text [simp]: "parse_u64 (u64_text n) = Some n"
  using unsigned_less[where 'a = nat, of n] by (simp add: parse_u64_def u64_text_def)

lemma parse_i64_text [simp]: "parse_i64 (i64_text n) = Some n"
proof (cases "sint n < 0")
  case True
  moreover have "nat (- sint n) \<le> 2 ^ 63"
    using sint_ge[of n] by simp
  ultimately show ?thesis
    by (simp add: parse_i64_def i64_text_def)
next
  case False
  moreover have "nat (sint n) < 2 ^ 63"
    using sint_lt[of n] False by simp
  ultimately show ?thesis
    using hd_decimal[of "nat (sint n)"] by (simp add: parse_i64_def i64_text_def)
qed

end
