(* ===== verification/Native_Read.thy ===== *)
theory Native_Read
  imports Native_Queue Json_Value Client_Read_View
begin

text \<open>
  The bounded replay of read batches (\<open>crates/surrealdb-rn-core/src/sync_read.rs\<close>): epochs
  that are never reused, the journal of committed batches with its byte and count limits,
  and the two read calls.  \<open>serde\<close> and the JSON text are the fields of \<open>read_serde\<close>.  Indexing
  a tree that is no object, which the source treats as a bug and panics on, is reported as
  \<open>Internal\<close>; the trees of \<open>serde\<close> have an object there.
\<close>

definition max_batches :: nat where "max_batches = 128"
definition max_journal_bytes :: nat where "max_journal_bytes = 4194304"
definition max_output_bytes :: nat where "max_output_bytes = 16777216"

record read_serde =
  snapshot_json :: "json read_snapshot_v1 \<Rightarrow> json option"
  batch_json :: "json committed_read_batch_v1 \<Rightarrow> json option"
  json_text :: "json \<Rightarrow> string option"
  parse_json :: "string \<Rightarrow> json option"
  parse_read_cursor :: "string \<Rightarrow> (string \<times> string) option"

section \<open>Editing trees\<close>

text \<open>
  Indexing a tree for writing creates missing members of an object, turns null into an object
  and panics on every other tree; a panic is told apart from the errors the code returns,
  and so is a loop that does not end.
\<close>

datatype native_fault = Fault native_sync_error | Panicked | Diverged

definition member_at :: "string \<Rightarrow> json \<Rightarrow> json" where
  "member_at k v = (case v of JObject ms \<Rightarrow> (case map_of ms k of None \<Rightarrow> JNull | Some x \<Rightarrow> x) | _ \<Rightarrow> JNull)"

definition edit_at :: "string \<Rightarrow> (json \<Rightarrow> native_fault + json) \<Rightarrow> json \<Rightarrow> native_fault + json" where
  "edit_at k f v =
     (case v of
        JObject ms \<Rightarrow> rbind (f (member_at k v)) (\<lambda>x. Inr (JObject (member_insert k x ms)))
      | JNull \<Rightarrow> rbind (f JNull) (\<lambda>x. Inr (JObject [(k, x)]))
      | _ \<Rightarrow> Inl Panicked)"

definition edit_array :: "native_sync_error \<Rightarrow> (json \<Rightarrow> native_fault + json) \<Rightarrow> json \<Rightarrow> native_fault + json" where
  "edit_array e f v = (case v of JArray xs \<Rightarrow> rbind (try_map f xs) (\<lambda>ys. Inr (JArray ys)) | _ \<Rightarrow> Inl (Fault e))"

definition edit_values :: "native_sync_error \<Rightarrow> (json \<Rightarrow> native_fault + json) \<Rightarrow> json \<Rightarrow> native_fault + json" where
  "edit_values e f v =
     (case v of
        JObject ms \<Rightarrow> rbind (try_map (\<lambda>(k, x). rbind (f x) (\<lambda>y. Inr (k, y))) ms) (\<lambda>ns. Inr (JObject ns))
      | _ \<Rightarrow> Inl (Fault e))"

definition decimal_wire :: "json \<Rightarrow> native_fault + json" where
  "decimal_wire v = rbind (ok_or (Fault Internal) (as_u64 v)) (\<lambda>n. Inr (JString (u64_text n)))"

definition frontier_wire :: "json \<Rightarrow> native_fault + json" where
  "frontier_wire v = rbind (edit_at ''epoch'' decimal_wire v) (edit_at ''sequence'' decimal_wire)"

definition edit_if :: "bool \<Rightarrow> (json \<Rightarrow> native_fault + json) \<Rightarrow> json \<Rightarrow> native_fault + json" where
  "edit_if b f v = (if b then f v else Inr v)"

definition metadata_wire :: "json \<Rightarrow> native_fault + json" where
  "metadata_wire v =
     rbind (edit_at ''revision'' decimal_wire v) (\<lambda>v.
     rbind (edit_at ''scope'' (edit_at ''subscriptionRevision'' decimal_wire) v) (\<lambda>v.
     rbind (edit_if (member_at ''authorizationRevision'' (member_at ''scope'' v) \<noteq> JNull)
              (edit_at ''scope'' (edit_at ''authorizationRevision'' decimal_wire)) v) (\<lambda>v.
     rbind (edit_if (member_at ''asOf'' v \<noteq> JNull) (edit_at ''asOf'' frontier_wire) v)
       (\<lambda>v. edit_if (member_at ''kind'' (member_at ''coverage'' v) = JString ''authorized_reset'')
              (edit_at ''coverage'' (edit_at ''cursor'' frontier_wire)) v))))"

definition is_object :: "json \<Rightarrow> bool" where
  "is_object v = (case v of JObject _ \<Rightarrow> True | _ \<Rightarrow> False)"

definition row_wire :: "json \<Rightarrow> native_fault + json" where
  "row_wire v =
     rbind (edit_if (member_at ''version'' (member_at ''confirmed'' v) \<noteq> JNull)
              (edit_at ''confirmed'' (edit_at ''version'' decimal_wire)) v) (\<lambda>v.
     rbind (let state = as_str (member_at ''state'' (member_at ''optimistic'' v)) in
            if state = Some ''present'' \<and> is_object (member_at ''baseVersion'' (member_at ''optimistic'' v))
            then edit_at ''optimistic'' (edit_at ''baseVersion'' (edit_at ''exact'' decimal_wire)) v
            else if state = Some ''deleted''
            then edit_at ''optimistic'' (edit_at ''baseVersion'' decimal_wire) v
            else Inr v)
       (edit_at ''accepted'' (edit_array Internal (edit_at ''sequence'' decimal_wire))))"

definition snapshot_wire :: "json \<Rightarrow> native_fault + json" where
  "snapshot_wire v =
     rbind (edit_at ''metadata'' metadata_wire v) (edit_at ''rows'' (edit_values Internal row_wire))"

section \<open>Epochs\<close>

record journal_epoch =
  je_prefix :: string
  je_generation :: u64

definition epoch_value :: "journal_epoch \<Rightarrow> string" where
  "epoch_value e = je_prefix e @ '':'' @ u64_text (je_generation e)"

definition epoch_advance :: "journal_epoch \<Rightarrow> native_sync_error + journal_epoch" where
  "epoch_advance e =
     rbind (ok_or RecoveryRequired (checked_add (je_generation e) 1)) (\<lambda>n. Inr (e\<lparr>je_generation := n\<rparr>))"

section \<open>The journal\<close>

record journal_batch =
  jb_before :: u64
  jb_revision :: u64
  jb_json :: string

record read_journal =
  rj_epoch :: journal_epoch
  rj_batches :: "journal_batch list"
  rj_bytes :: nat
  rj_view_cursors :: "string list"

definition new_journal :: "string \<Rightarrow> read_journal" where
  "new_journal prefix = \<lparr>rj_epoch = \<lparr>je_prefix = prefix, je_generation = 0\<rparr>, rj_batches = [], rj_bytes = 0,
     rj_view_cursors = []\<rparr>"

definition journal_rotate :: "read_journal \<Rightarrow> native_sync_error + read_journal" where
  "journal_rotate j =
     rbind (epoch_advance (rj_epoch j)) (\<lambda>e.
     Inr \<lparr>rj_epoch = e, rj_batches = [], rj_bytes = 0, rj_view_cursors = []\<rparr>)"

definition journal_cursor :: "read_journal \<Rightarrow> u64 \<Rightarrow> json" where
  "journal_cursor j r =
     JObject (members_of [(''processEpoch'', JString (epoch_value (rj_epoch j))), (''revision'', JString (u64_text r))])"

definition issued_view_cursor :: "read_journal \<Rightarrow> string \<Rightarrow> bool" where
  "issued_view_cursor j c = list_ex (\<lambda>issued. issued = c) (rj_view_cursors j)"

fun remember_cursor :: "string list \<Rightarrow> string \<Rightarrow> string list" where
  "remember_cursor [] c = (if length c > 262144 then [] else [c])"
| "remember_cursor (v # vs) c =
     (if length (v # vs) \<ge> 64 \<or> sum_list (map length (v # vs)) + length c > 262144
      then remember_cursor vs c else (v # vs) @ [c])"

definition remember_view_cursor :: "read_journal \<Rightarrow> string \<Rightarrow> read_journal" where
  "remember_view_cursor j c = j\<lparr>rj_view_cursors := remember_cursor (rj_view_cursors j) c\<rparr>"

definition journal_bootstrap :: "read_serde \<Rightarrow> read_journal \<Rightarrow> json client_runtime \<Rightarrow> native_fault + json" where
  "journal_bootstrap rd j rt =
     rbind (ok_or (Fault Internal) (snapshot_json rd (read_snapshot (rt_state rt)))) (\<lambda>snapshot.
     rbind (snapshot_wire snapshot) (\<lambda>snapshot.
     Inr (JObject (members_of [(''snapshot'', snapshot), (''cursor'', journal_cursor j (revision (rt_state rt)))]))))"

definition change_wire :: "json \<Rightarrow> native_fault + json" where
  "change_wire v = edit_if (member_at ''kind'' v = JString ''upsert'') (edit_at ''row'' row_wire) v"

definition batch_wire :: "read_serde \<Rightarrow> json committed_read_batch_v1 \<Rightarrow> native_fault + json" where
  "batch_wire rd batch =
     rbind (ok_or (Fault Internal) (batch_json rd batch)) (\<lambda>v.
     rbind (edit_at ''beforeRevision'' decimal_wire v) (\<lambda>v.
     rbind (edit_at ''revision'' decimal_wire v) (\<lambda>v.
     rbind (edit_at ''metadata'' metadata_wire v) (edit_at ''changes'' (edit_array Internal change_wire)))))"

text \<open>The closure drops every error it meets; a panic leaves it.\<close>

definition encode_batch :: "read_serde \<Rightarrow> json committed_read_batch_v1 \<Rightarrow> native_fault + string option" where
  "encode_batch rd batch =
     (case batch_wire rd batch of
        Inl (Fault _) \<Rightarrow> Inr None
      | Inl fault \<Rightarrow> Inl fault
      | Inr v \<Rightarrow> Inr (json_text rd v))"

text \<open>
  Old batches are dropped until the new one fits.  The loop of the source does not end when
  the journal is empty and the byte count still leaves no room.
\<close>

fun evict :: "nat \<Rightarrow> nat \<Rightarrow> journal_batch list \<Rightarrow> nat \<Rightarrow> native_fault + journal_batch list \<times> nat" where
  "evict room n [] bytes = (if bytes + n > room then Inl Diverged else Inr ([], bytes))"
| "evict room n (b # bs) bytes =
     (if length (b # bs) \<ge> max_batches \<or> bytes + n > room
      then evict room n bs (bytes - length (jb_json b)) else Inr (b # bs, bytes))"

definition journal_record ::
  "read_serde \<Rightarrow> read_journal \<Rightarrow> json committed_read_batch_v1 option \<Rightarrow> native_fault + read_journal" where
  "journal_record rd j published =
     (case published of
        None \<Rightarrow> Inr j
      | Some batch \<Rightarrow>
          rbind (encode_batch rd batch) (\<lambda>encoded.
          case encoded of
            None \<Rightarrow> Inr (j\<lparr>rj_batches := [], rj_bytes := 0\<rparr>)
          | Some encoded \<Rightarrow>
              if length encoded > max_journal_bytes then Inr (j\<lparr>rj_batches := [], rj_bytes := 0\<rparr>)
              else rbind (evict max_journal_bytes (length encoded) (rj_batches j) (rj_bytes j)) (\<lambda>(kept, bytes).
                Inr (j\<lparr>rj_bytes := bytes + length encoded,
                  rj_batches := kept @ [\<lparr>jb_before = cb_before_revision batch,
                    jb_revision = cb_revision batch, jb_json = encoded\<rparr>]\<rparr>))))"

fun replay_loop :: "read_serde \<Rightarrow> u64 \<Rightarrow> journal_batch list \<Rightarrow> native_fault + json list \<times> u64" where
  "replay_loop rd after [] = Inr ([], after)"
| "replay_loop rd after (b # bs) =
     (if jb_before b \<noteq> after then Inl (Fault Internal)
      else rbind (ok_or (Fault Internal) (parse_json rd (jb_json b))) (\<lambda>v.
           rbind (replay_loop rd (jb_revision b) bs) (\<lambda>(vs, last). Inr (v # vs, last))))"

definition journal_changes ::
  "read_serde \<Rightarrow> read_journal \<Rightarrow> json client_runtime \<Rightarrow> string \<Rightarrow> u32 \<Rightarrow> native_fault + json" where
  "journal_changes rd j rt cursor_text cnt =
     (if \<not> (1 \<le> cnt \<and> unat cnt \<le> max_batches) \<or> length cursor_text > 4096 then Inl (Fault InvalidInput)
      else rbind (ok_or (Fault InvalidInput) (parse_read_cursor rd cursor_text)) (\<lambda>(process_epoch, revision_text).
      rbind (ok_or (Fault InvalidInput) (parse_u64 revision_text)) (\<lambda>r.
      if u64_text r \<noteq> revision_text then Inl (Fault InvalidInput)
      else let current = revision (rt_state rt); rest = dropWhile (\<lambda>b. jb_before b \<noteq> r) (rj_batches j) in
      if process_epoch \<noteq> epoch_value (rj_epoch j) \<or> r > current \<or> r < current \<and> rest = []
      then rbind (journal_bootstrap rd j rt) (edit_at ''kind'' (\<lambda>_. Inr (JString ''reset_required'')))
      else rbind (if r < current then replay_loop rd r (take (unat cnt) rest) else Inr ([], r)) (\<lambda>(batches, after).
      Inr (JObject (members_of [(''kind'', JString ''batches''), (''batches'', JArray batches),
        (''cursor'', journal_cursor j after)]))))))"

definition read_output :: "read_serde \<Rightarrow> json \<Rightarrow> native_sync_error + string" where
  "read_output rd v =
     rbind (ok_or Internal (json_text rd v)) (\<lambda>t.
     if length t > max_output_bytes then Inl ReadOutputTooLarge else Inr t)"

section \<open>What the journal holds\<close>

text \<open>
  The batches of the journal lead from some earlier state to the installed one, one
  published batch per revision.
\<close>

fun chain :: "read_serde \<Rightarrow> json durable_client_state \<Rightarrow> journal_batch list \<Rightarrow> json durable_client_state \<Rightarrow> bool" where
  "chain rd s [] t \<longleftrightarrow> s = t"
| "chain rd s (b # bs) t \<longleftrightarrow> (\<exists>u batch. committed_batch s u = Some batch \<and> valid_state u
     \<and> unat (revision u) = Suc (unat (revision s)) \<and> jb_before b = revision s \<and> jb_revision b = revision u
     \<and> encode_batch rd batch = Inr (Some (jb_json b)) \<and> chain rd u bs t)"

definition journal_ok :: "read_serde \<Rightarrow> read_journal \<Rightarrow> json durable_client_state \<Rightarrow> bool" where
  "journal_ok rd j t \<longleftrightarrow> (\<exists>s. chain rd s (rj_batches j) t)
     \<and> rj_bytes j = sum_list (map (length \<circ> jb_json) (rj_batches j))
     \<and> rj_bytes j \<le> max_journal_bytes \<and> length (rj_batches j) \<le> max_batches"

lemma chain_append: "chain rd s (as @ bs) t \<longleftrightarrow> (\<exists>u. chain rd s as u \<and> chain rd u bs t)"
  by (induction as arbitrary: s) auto

lemma chain_revision: "chain rd s bs t \<Longrightarrow> unat (revision t) = unat (revision s) + length bs"
  by (induction bs arbitrary: s) fastforce+

lemma journal_ok_empty: "rj_batches j = [] \<Longrightarrow> rj_bytes j = 0 \<Longrightarrow> journal_ok rd j t"
  by (simp add: journal_ok_def)

lemma evict_fits:
  assumes "n \<le> room" "bytes = sum_list (map (length \<circ> jb_json) bs)" "bs = [] \<or> length bs \<le> max_batches"
  shows "\<exists>dropped kept kept_bytes. evict room n bs bytes = Inr (kept, kept_bytes) \<and> bs = dropped @ kept
    \<and> kept_bytes = sum_list (map (length \<circ> jb_json) kept) \<and> kept_bytes + n \<le> room \<and> length kept < max_batches"
  using assms
proof (induction bs arbitrary: bytes)
  case Nil
  then show ?case by (simp add: max_batches_def)
next
  case (Cons b bs)
  show ?case
  proof (cases "length (b # bs) \<ge> max_batches \<or> bytes + n > room")
    case True
    have "\<exists>dropped kept kept_bytes. evict room n bs (bytes - length (jb_json b)) = Inr (kept, kept_bytes) \<and> bs = dropped @ kept
        \<and> kept_bytes = sum_list (map (length \<circ> jb_json) kept) \<and> kept_bytes + n \<le> room \<and> length kept < max_batches"
      using Cons.prems by (intro Cons.IH) auto
    then obtain dropped kept kept_bytes where "evict room n bs (bytes - length (jb_json b)) = Inr (kept, kept_bytes)"
        "bs = dropped @ kept" "kept_bytes = sum_list (map (length \<circ> jb_json) kept)" "kept_bytes + n \<le> room"
        "length kept < max_batches" by blast
    with True show ?thesis
      by - (rule exI[of _ "b # dropped"], rule exI[of _ kept], rule exI[of _ kept_bytes], simp add: comp_def)
  next
    case False
    with Cons.prems(2) show ?thesis
      by - (rule exI[of _ "[]"], rule exI[of _ "b # bs"], rule exI[of _ bytes], simp)
  qed
qed

text \<open>The derived serializers write the structs of a batch as objects, so that no edit panics.\<close>

definition no_panic :: "read_serde \<Rightarrow> bool" where
  "no_panic rd \<longleftrightarrow> (\<forall>batch. batch_wire rd batch \<noteq> Inl Panicked \<and> batch_wire rd batch \<noteq> Inl Diverged)"

lemma journal_record_ok:
  assumes "no_panic rd" "journal_ok rd j t" "valid_state u" "unat (revision u) = Suc (unat (revision t))"
  shows "\<exists>j'. journal_record rd j (committed_batch t u) = Inr j' \<and> journal_ok rd j' u \<and> rj_epoch j' = rj_epoch j"
proof -
  have "revision t \<noteq> revision u" using assms(4) by auto
  then obtain batch where batch: "committed_batch t u = Some batch"
    by (simp add: committed_batch_def Let_def)
  then have rev: "cb_before_revision batch = revision t" "cb_revision batch = revision u"
    by (auto simp: committed_batch_def Let_def read_snapshot_def metadata_def split: if_splits)
  show ?thesis
  proof (cases "\<exists>encoded. encode_batch rd batch = Inr (Some encoded) \<and> length encoded \<le> max_journal_bytes")
    case False
    moreover have "\<exists>e. encode_batch rd batch = Inr e"
      using assms(1) by (auto simp: no_panic_def encode_batch_def split: sum.split native_fault.split)
    ultimately have "journal_record rd j (committed_batch t u) = Inr (j\<lparr>rj_batches := [], rj_bytes := 0\<rparr>)"
      by (auto simp: journal_record_def batch split: option.splits)
    then show ?thesis by (simp add: journal_ok_empty)
  next
    case True
    then obtain encoded where e: "encode_batch rd batch = Inr (Some encoded)" "length encoded \<le> max_journal_bytes" by blast
    obtain dropped kept bytes where k: "evict max_journal_bytes (length encoded) (rj_batches j) (rj_bytes j) = Inr (kept, bytes)"
        "rj_batches j = dropped @ kept" "bytes = sum_list (map (length \<circ> jb_json) kept)"
        "bytes + length encoded \<le> max_journal_bytes" "length kept < max_batches"
      using evict_fits[OF e(2), of "rj_bytes j" "rj_batches j"] assms(2) unfolding journal_ok_def by blast
    from assms(2) k(2) obtain s where "chain rd s kept t"
      by (auto simp: journal_ok_def chain_append)
    then have "chain rd s (kept @ [\<lparr>jb_before = cb_before_revision batch, jb_revision = cb_revision batch, jb_json = encoded\<rparr>]) u"
      using batch assms(3,4) rev e(1) by (auto simp: chain_append)
    with e k show ?thesis
      by (auto simp: journal_record_def batch journal_ok_def)
  qed
qed

lemma journal_rotate_ok: "journal_rotate j = Inr j' \<Longrightarrow> journal_ok rd j' t"
  by (auto simp: journal_rotate_def rbind_Inr intro!: journal_ok_empty)

section \<open>Replay\<close>

definition text_law :: "read_serde \<Rightarrow> bool" where
  "text_law rd \<longleftrightarrow> (\<forall>v t. json_text rd v = Some t \<longrightarrow> parse_json rd t = Some v)"

text \<open>A run of published batches from one state to another, with the trees the client is given.\<close>

fun replays :: "read_serde \<Rightarrow> json durable_client_state \<Rightarrow> json list \<Rightarrow> json durable_client_state \<Rightarrow> bool" where
  "replays rd s [] t \<longleftrightarrow> s = t"
| "replays rd s (v # vs) t \<longleftrightarrow> (\<exists>u batch. committed_batch s u = Some batch \<and> batch_wire rd batch = Inr v
     \<and> fold apply_row_change (cb_changes batch) (sn_rows (read_snapshot s)) = sn_rows (read_snapshot u)
     \<and> replays rd u vs t)"

lemma replay_loop_chain:
  assumes "text_law rd" "chain rd s bs t"
  shows "\<exists>vs. replay_loop rd (revision s) bs = Inr (vs, revision t) \<and> replays rd s vs t \<and> length vs = length bs"
  using assms(2)
proof (induction bs arbitrary: s)
  case (Cons b bs)
  then obtain u batch where u: "committed_batch s u = Some batch" "valid_state u" "jb_before b = revision s"
      "jb_revision b = revision u" "encode_batch rd batch = Inr (Some (jb_json b))" "chain rd u bs t" by auto
  from u(5) obtain v where v: "batch_wire rd batch = Inr v" "json_text rd v = Some (jb_json b)"
    by (auto simp: encode_batch_def split: sum.splits native_fault.splits)
  have "fold apply_row_change (cb_changes batch) (sn_rows (read_snapshot s)) = sn_rows (read_snapshot u)"
    using batch_applies[OF u(2,1)] .
  moreover obtain vs where "replay_loop rd (revision u) bs = Inr (vs, revision t)" "replays rd u vs t" "length vs = length bs"
    using Cons.IH[OF u(6)] by blast
  moreover have "parse_json rd (jb_json b) = Some v" using assms(1) v(2) by (simp add: text_law_def)
  ultimately show ?case using u(1,3,4) v(1) by (intro exI[of _ "v # vs"]) auto
qed simp

lemma chain_from:
  assumes "chain rd s bs t" "r \<le> revision t"
  shows "if dropWhile (\<lambda>b. jb_before b \<noteq> r) bs = [] then r < revision s \<or> r = revision t
    else \<exists>u. revision u = r \<and> chain rd u (dropWhile (\<lambda>b. jb_before b \<noteq> r) bs) t"
  using assms(1)
proof (induction bs arbitrary: s)
  case Nil
  then show ?case using assms(2) by auto
next
  case (Cons b bs)
  then obtain u where u: "chain rd u bs t" "unat (revision u) = Suc (unat (revision s))" "jb_before b = revision s"
    by auto
  show ?case
  proof (cases "jb_before b = r")
    case True
    with Cons.prems u(3) show ?thesis by (auto simp del: chain.simps intro!: exI[of _ s])
  next
    case False
    have "r < revision u \<Longrightarrow> r < revision s"
      using u(2,3) False by (auto simp: word_less_nat_alt word_unat_eq_iff less_Suc_eq)
    with Cons.IH[OF u(1)] False show ?thesis by (auto simp del: chain.simps dropWhile_eq_Nil_conv split: if_splits)
  qed
qed

lemma chain_take: "chain rd s bs t \<Longrightarrow> \<exists>u. chain rd s (take n bs) u \<and> (length bs \<le> n \<longrightarrow> u = t)"
  by (metis append_take_drop_id chain_append take_all)

section \<open>A concrete journal\<close>

definition replay_wire :: json where
  "replay_wire = JObject [(''beforeRevision'', JString ''0''), (''changes'', JArray []),
     (''metadata'', JObject [(''revision'', JString ''1''), (''scope'', JObject [(''subscriptionRevision'', JString ''1'')])]),
     (''revision'', JString ''1'')]"

definition replay_serde :: read_serde where
  "replay_serde = \<lparr>snapshot_json = (\<lambda>_. None),
     batch_json = (\<lambda>b. Some (JObject [(''beforeRevision'', JNumber (PosInt 0)), (''changes'', JArray []),
       (''metadata'', JObject [(''revision'', JNumber (PosInt 1)), (''scope'', JObject [(''subscriptionRevision'', JNumber (PosInt 1))])]),
       (''revision'', JNumber (PosInt 1))])),
     json_text = (\<lambda>v. if v = replay_wire then Some ''b'' else None),
     parse_json = (\<lambda>t. if t = ''b'' then Some replay_wire else None),
     parse_read_cursor = (\<lambda>_. Some (''p:0'', ''0''))\<rparr>"

definition replay_before :: "json durable_client_state" where
  "replay_before = empty_state (PartitionId ''primary'') (ClientId ''client-a'') (ScopeIdentity ''scope'') 1"

definition replay_after :: "json durable_client_state" where
  "replay_after = replay_before\<lparr>outbox := [\<lparr>identity = demo_identity ''c1'',
     operations = [Upsert (RecordId ''task:1'') BaseAbsent (JObject []) None]\<rparr>], revision := 1\<rparr>"

lemma replay_demo: "text_law replay_serde" "valid_state replay_after"
  "unat (revision replay_after) = Suc (unat (revision replay_before))"
  by (simp add: text_law_def replay_serde_def, unfold validate_iff[symmetric]) code_simp+

lemma replay_no_panic: "no_panic replay_serde"
proof -
  have "batch_wire replay_serde batch = Inr replay_wire" for batch
    by (simp add: batch_wire_def replay_serde_def) code_simp
  then show ?thesis by (simp add: no_panic_def)
qed

lemma replay_recorded:
  "\<exists>j. journal_record replay_serde (new_journal ''p'') (committed_batch replay_before replay_after) = Inr j
     \<and> journal_ok replay_serde j replay_after \<and> rj_epoch j = \<lparr>je_prefix = ''p'', je_generation = 0\<rparr>"
proof -
  have "journal_ok replay_serde (new_journal ''p'') replay_before"
    by (rule journal_ok_empty) (simp_all add: new_journal_def)
  from journal_record_ok[OF replay_no_panic this replay_demo(2,3)] show ?thesis by (simp add: new_journal_def)
qed

section \<open>Answers to a current cursor\<close>

lemma journal_changes_current:
  assumes "1 \<le> cnt" "unat cnt \<le> max_batches" "length c \<le> 4096"
    and "parse_read_cursor rd c = Some (epoch_value (rj_epoch j), u64_text r)" "r \<le> revision (rt_state rt)"
  shows "journal_changes rd j rt c cnt =
    (let rest = dropWhile (\<lambda>b. jb_before b \<noteq> r) (rj_batches j) in
     if r < revision (rt_state rt) \<and> rest = []
     then rbind (journal_bootstrap rd j rt) (edit_at ''kind'' (\<lambda>_. Inr (JString ''reset_required'')))
     else rbind (if r < revision (rt_state rt) then replay_loop rd r (take (unat cnt) rest) else Inr ([], r))
       (\<lambda>(batches, after). Inr (JObject (members_of [(''kind'', JString ''batches''), (''batches'', JArray batches),
          (''cursor'', journal_cursor j after)]))))"
proof -
  have "\<not> revision (rt_state rt) < r" using assms(5) by (simp add: not_less)
  with assms(1-4) show ?thesis by (simp add: journal_changes_def Let_def)
qed

section \<open>Properties\<close>



text \<open>
  Recording always ends and keeps the limits: from a journal that fits, the eviction
  loop makes room for every published batch, and the journal then again holds a gap-free
  run of batches up to the new state within its byte and count limits.
\<close>
theorem read_journal_bounded:
  assumes "no_panic rd" "journal_ok rd j t" "valid_state u" "unat (revision u) = Suc (unat (revision t))"
  shows "\<exists>j'. journal_record rd j (committed_batch t u) = Inr j' \<and> journal_ok rd j' u
    \<and> rj_bytes j' \<le> max_journal_bytes \<and> length (rj_batches j') \<le> max_batches"
  using journal_record_ok[OF assms] by (auto simp: journal_ok_def)

theorem read_journal_bounded_witness:
  "\<exists>j. journal_record replay_serde (new_journal ''p'') (committed_batch replay_before replay_after) = Inr j
    \<and> journal_ok replay_serde j replay_after \<and> rj_bytes j \<le> max_journal_bytes"
proof -
  have "journal_ok replay_serde (new_journal ''p'') replay_before"
    by (rule journal_ok_empty) (simp_all add: new_journal_def)
  from read_journal_bounded[OF replay_no_panic this replay_demo(2,3)] show ?thesis by blast
qed

end
