(* ===== verification/Wire_Value.thy ===== *)
theory Wire_Value
  imports Json_Value
begin

text \<open>
  The JSON form in which database values cross the native bridge
  (\<open>crates/surrealdb-rn-core/src/wire.rs\<close>): values JSON cannot carry exactly are objects with
  a \<open>$surreal\<close> tag.  Both encoders are modelled, the one that streams into a serializer and
  the one that builds a tree, and the depth-limited decoder.  The scalar types of the
  database library (decimals, durations, record ids and so on) are an opaque type \<open>'x\<close>; their
  texts and parsers, base 64, the texts of floats and the deduplication of sets are the
  fields of \<open>surreal_lib\<close>.  Error messages are not modelled.
\<close>

section \<open>Values\<close>

datatype 'x surreal_value =
    SNone
  | SNull
  | SBool bool
  | SInt i64
  | SFloat u64
  | SDecimal 'x
  | SString string
  | SBytes "byte list"
  | SDuration 'x
  | SDatetime 'x
  | SUuid 'x
  | SGeometry 'x
  | STable string
  | SRecordId 'x
  | SFile 'x
  | SRange 'x
  | SRegex 'x
  | SArray "'x surreal_value list"
  | SObject "(string \<times> 'x surreal_value) list"
  | SSet "'x surreal_value list"

record 'x surreal_lib =
  decimal_text :: "'x \<Rightarrow> string"
  decimal_from_str :: "string \<Rightarrow> 'x option"
  uuid_text :: "'x \<Rightarrow> string"
  uuid_from_str :: "string \<Rightarrow> 'x option"
  record_sql :: "'x \<Rightarrow> string"
  record_parse_simple :: "string \<Rightarrow> 'x option"
  value_sql :: "'x \<Rightarrow> string"
  f64_text :: "u64 \<Rightarrow> string"
  parse_f64 :: "string \<Rightarrow> u64 option"
  f64_of_u64 :: "u64 \<Rightarrow> u64"
  base64_encode :: "byte list \<Rightarrow> string"
  base64_decode :: "string \<Rightarrow> byte list option"
  set_from :: "'x surreal_value list \<Rightarrow> 'x surreal_value list"

datatype wire_error = InvalidVariables | WireCodec

definition wire_tag :: string where "wire_tag = ''$surreal''"
definition max_wire_depth :: nat where "max_wire_depth = 128"

section \<open>Encoders\<close>

text \<open>The \<open>json!\<close> macro inserts its members into a key-ordered map one by one.\<close>

definition json_object :: "members \<Rightarrow> json" where
  "json_object kvs = JObject (members_of kvs)"

definition tagged_value :: "string \<Rightarrow> string \<Rightarrow> json" where
  "tagged_value kind text = json_object [(wire_tag, JString kind), (''value'', JString text)]"

fun to_wire_value :: "'x surreal_lib \<Rightarrow> 'x surreal_value \<Rightarrow> json" where
  "to_wire_value lib SNone = json_object [(wire_tag, JString ''none'')]"
| "to_wire_value lib SNull = JNull"
| "to_wire_value lib (SBool b) = JBool b"
| "to_wire_value lib (SInt n) = tagged_value ''int'' (i64_text n)"
| "to_wire_value lib (SFloat w) =
     (if is_finite_bits w then JNumber (FloatNum w) else tagged_value ''float'' (f64_text lib w))"
| "to_wire_value lib (SDecimal d) = tagged_value ''decimal'' (decimal_text lib d)"
| "to_wire_value lib (SString s) = JString s"
| "to_wire_value lib (SBytes bs) =
     json_object [(wire_tag, JString ''bytes''), (''base64'', JString (base64_encode lib bs))]"
| "to_wire_value lib (SDuration x) = tagged_value ''duration'' (value_sql lib x)"
| "to_wire_value lib (SDatetime x) = tagged_value ''datetime'' (value_sql lib x)"
| "to_wire_value lib (SUuid u) = tagged_value ''uuid'' (uuid_text lib u)"
| "to_wire_value lib (SGeometry x) = tagged_value ''geometry'' (value_sql lib x)"
| "to_wire_value lib (STable t) = tagged_value ''table'' t"
| "to_wire_value lib (SRecordId r) = tagged_value ''record'' (record_sql lib r)"
| "to_wire_value lib (SFile x) = tagged_value ''file'' (value_sql lib x)"
| "to_wire_value lib (SRange x) = tagged_value ''range'' (value_sql lib x)"
| "to_wire_value lib (SRegex x) = tagged_value ''regex'' (value_sql lib x)"
| "to_wire_value lib (SArray vs) = JArray (map (to_wire_value lib) vs)"
| "to_wire_value lib (SObject ms) =
     JObject (members_of (map (\<lambda>(k, v). (k, to_wire_value lib v)) ms))"
| "to_wire_value lib (SSet vs) =
     json_object [(wire_tag, JString ''set''), (''values'', JArray (map (to_wire_value lib) vs))]"

text \<open>
  The streaming encoder emits the members of an object in the order of its calls; its
  output is the tree with the members in that order.
\<close>

fun tagged :: "string \<Rightarrow> string option \<Rightarrow> json" where
  "tagged kind None = JObject [(wire_tag, JString kind)]"
| "tagged kind (Some text) = JObject [(wire_tag, JString kind), (''value'', JString text)]"

fun wire_serialize :: "'x surreal_lib \<Rightarrow> 'x surreal_value \<Rightarrow> json" where
  "wire_serialize lib SNone = tagged ''none'' None"
| "wire_serialize lib SNull = JNull"
| "wire_serialize lib (SBool b) = JBool b"
| "wire_serialize lib (SInt n) = tagged ''int'' (Some (i64_text n))"
| "wire_serialize lib (SFloat w) =
     (if is_finite_bits w then JNumber (FloatNum w) else tagged ''float'' (Some (f64_text lib w)))"
| "wire_serialize lib (SDecimal d) = tagged ''decimal'' (Some (decimal_text lib d))"
| "wire_serialize lib (SString s) = JString s"
| "wire_serialize lib (SBytes bs) =
     JObject [(wire_tag, JString ''bytes''), (''base64'', JString (base64_encode lib bs))]"
| "wire_serialize lib (SDuration x) = tagged ''duration'' (Some (value_sql lib x))"
| "wire_serialize lib (SDatetime x) = tagged ''datetime'' (Some (value_sql lib x))"
| "wire_serialize lib (SUuid u) = tagged ''uuid'' (Some (uuid_text lib u))"
| "wire_serialize lib (SGeometry x) = tagged ''geometry'' (Some (value_sql lib x))"
| "wire_serialize lib (STable t) = tagged ''table'' (Some t)"
| "wire_serialize lib (SRecordId r) = tagged ''record'' (Some (record_sql lib r))"
| "wire_serialize lib (SFile x) = tagged ''file'' (Some (value_sql lib x))"
| "wire_serialize lib (SRange x) = tagged ''range'' (Some (value_sql lib x))"
| "wire_serialize lib (SRegex x) = tagged ''regex'' (Some (value_sql lib x))"
| "wire_serialize lib (SArray vs) = JArray (map (wire_serialize lib) vs)"
| "wire_serialize lib (SObject ms) = JObject (map (\<lambda>(k, v). (k, wire_serialize lib v)) ms)"
| "wire_serialize lib (SSet vs) =
     JObject [(wire_tag, JString ''set''), (''values'', JArray (map (wire_serialize lib) vs))]"

definition encode_value :: "'x surreal_lib \<Rightarrow> (json \<Rightarrow> string option) \<Rightarrow> 'x surreal_value \<Rightarrow> wire_error + string" where
  "encode_value lib to_string v = ok_or WireCodec (to_string (wire_serialize lib v))"

definition encode_value_tree :: "'x surreal_lib \<Rightarrow> (json \<Rightarrow> string option) \<Rightarrow> 'x surreal_value \<Rightarrow> wire_error + string" where
  "encode_value_tree lib to_string v = ok_or WireCodec (to_string (to_wire_value lib v))"

section \<open>The decoder\<close>

definition required_string :: "members \<Rightarrow> string \<Rightarrow> wire_error + string" where
  "required_string object k = ok_or InvalidVariables (Option.bind (map_of object k) as_str)"

definition wire_number :: "'x surreal_lib \<Rightarrow> json_number \<Rightarrow> 'x surreal_value" where
  "wire_number lib n =
     (case as_i64 n of
        Some i \<Rightarrow> SInt i
      | None \<Rightarrow> SFloat (case n of FloatNum w \<Rightarrow> w | PosInt u \<Rightarrow> f64_of_u64 lib u | NegInt i \<Rightarrow> f64_of_u64 lib i))"

definition parsed :: "('a \<Rightarrow> 'x surreal_value) \<Rightarrow> 'a option \<Rightarrow> wire_error + 'x surreal_value" where
  "parsed f x = ok_or InvalidVariables (map_option f x)"

lemma size_member: "map_of ms k = Some v \<Longrightarrow> size v < Suc (size_list (size_prod (\<lambda>_. 0) size) ms)"
  by (induction ms) (auto split: if_splits)

lemma size_member_remove:
  "size_list (size_prod (\<lambda>_. 0) size) (member_remove k ms) \<le> size_list (size_prod (\<lambda>_. 0) size) ms"
  by (induction ms) (auto simp: member_remove_def)

function from_wire_value_at_depth :: "'x surreal_lib \<Rightarrow> json \<Rightarrow> nat \<Rightarrow> wire_error + 'x surreal_value"
  and from_wire_array :: "'x surreal_lib \<Rightarrow> json list \<Rightarrow> nat \<Rightarrow> wire_error + 'x surreal_value list"
  and from_wire_members :: "'x surreal_lib \<Rightarrow> members \<Rightarrow> nat \<Rightarrow> wire_error + (string \<times> 'x surreal_value) list"
  and decode_tagged_value :: "'x surreal_lib \<Rightarrow> json \<Rightarrow> members \<Rightarrow> nat \<Rightarrow> wire_error + 'x surreal_value" where
  "from_wire_value_at_depth lib value depth =
     (if depth > max_wire_depth then Inl InvalidVariables
      else case value of
        JNull \<Rightarrow> Inr SNull
      | JBool b \<Rightarrow> Inr (SBool b)
      | JNumber n \<Rightarrow> Inr (wire_number lib n)
      | JString s \<Rightarrow> Inr (SString s)
      | JArray vs \<Rightarrow> rbind (from_wire_array lib vs (Suc depth)) (\<lambda>xs. Inr (SArray xs))
      | JObject object \<Rightarrow>
          (case map_of object wire_tag of
             Some tag \<Rightarrow> decode_tagged_value lib tag (member_remove wire_tag object) depth
           | None \<Rightarrow> rbind (from_wire_members lib object (Suc depth)) (\<lambda>ms. Inr (SObject (members_of ms)))))"
| "from_wire_array lib [] depth = Inr []"
| "from_wire_array lib (v # vs) depth =
     rbind (from_wire_value_at_depth lib v depth) (\<lambda>x.
     rbind (from_wire_array lib vs depth) (\<lambda>xs. Inr (x # xs)))"
| "from_wire_members lib [] depth = Inr []"
| "from_wire_members lib ((k, v) # ms) depth =
     rbind (from_wire_value_at_depth lib v depth) (\<lambda>x.
     rbind (from_wire_members lib ms depth) (\<lambda>xs. Inr ((k, x) # xs)))"
| "decode_tagged_value lib tag object depth =
     rbind (ok_or InvalidVariables (as_str tag)) (\<lambda>tag.
     if tag = ''none'' then Inr SNone
     else if tag = ''int'' then rbind (required_string object ''value'') (\<lambda>s. parsed SInt (parse_i64 s))
     else if tag = ''float'' then rbind (required_string object ''value'') (\<lambda>s. parsed SFloat (parse_f64 lib s))
     else if tag = ''decimal'' then rbind (required_string object ''value'') (\<lambda>s. parsed SDecimal (decimal_from_str lib s))
     else if tag = ''bytes'' then rbind (required_string object ''base64'') (\<lambda>s. parsed SBytes (base64_decode lib s))
     else if tag = ''uuid'' then rbind (required_string object ''value'') (\<lambda>s. parsed SUuid (uuid_from_str lib s))
     else if tag = ''record'' then rbind (required_string object ''value'') (\<lambda>s. parsed SRecordId (record_parse_simple lib s))
     else if tag = ''set'' then
       (case map_of object ''values'' of
          Some (JArray values) \<Rightarrow>
            rbind (from_wire_array lib values (Suc depth)) (\<lambda>xs. Inr (SSet (set_from lib xs)))
        | _ \<Rightarrow> Inl InvalidVariables)
     else Inl InvalidVariables)"
  by pat_completeness auto
termination
  by (relation "measure (\<lambda>p. case p of
        Inl (Inl (_, v, _)) \<Rightarrow> size v
      | Inl (Inr (_, vs, _)) \<Rightarrow> size_list size vs
      | Inr (Inl (_, ms, _)) \<Rightarrow> size_list (size_prod (\<lambda>_. 0) size) ms
      | Inr (Inr (_, _, ms, _)) \<Rightarrow> size_list (size_prod (\<lambda>_. 0) size) ms)")
    (auto simp: le_imp_less_Suc size_member_remove dest!: size_member)

definition from_wire_value :: "'x surreal_lib \<Rightarrow> json \<Rightarrow> wire_error + 'x surreal_value" where
  "from_wire_value lib value = from_wire_value_at_depth lib value 0"

definition decode_variables ::
  "'x surreal_lib \<Rightarrow> (string \<Rightarrow> json option) \<Rightarrow> string option \<Rightarrow> wire_error + (string \<times> 'x surreal_value) list" where
  "decode_variables lib from_str input =
     (case input of
        None \<Rightarrow> Inr []
      | Some text \<Rightarrow>
          rbind (ok_or InvalidVariables (from_str text)) (\<lambda>json.
          rbind (from_wire_value lib json) (\<lambda>value.
          case value of SObject object \<Rightarrow> Inr object | _ \<Rightarrow> Inl InvalidVariables)))"

declare from_wire_value_at_depth.simps [simp del] decode_tagged_value.simps [simp del]

section \<open>The two encoders\<close>

text \<open>The database's objects are key-ordered maps.\<close>

fun surreal_ok :: "'x surreal_value \<Rightarrow> bool" where
  "surreal_ok (SArray vs) = list_all surreal_ok vs"
| "surreal_ok (SSet vs) = list_all surreal_ok vs"
| "surreal_ok (SObject ms) = (key_ordered ms \<and> list_all (\<lambda>(k, v). surreal_ok v) ms)"
| "surreal_ok _ = True"

lemma tag_members:
  "members_of [(wire_tag, x)] = [(wire_tag, x)]"
  "members_of [(wire_tag, x), (''value'', y)] = [(wire_tag, x), (''value'', y)]"
  "members_of [(wire_tag, x), (''base64'', y)] = [(wire_tag, x), (''base64'', y)]"
  "members_of [(wire_tag, x), (''values'', y)] = [(wire_tag, x), (''values'', y)]"
proof -
  have "wire_tag < ''value''" "wire_tag < ''base64''" "wire_tag < ''values''" by code_simp+
  then show "members_of [(wire_tag, x)] = [(wire_tag, x)]"
    "members_of [(wire_tag, x), (''value'', y)] = [(wire_tag, x), (''value'', y)]"
    "members_of [(wire_tag, x), (''base64'', y)] = [(wire_tag, x), (''base64'', y)]"
    "members_of [(wire_tag, x), (''values'', y)] = [(wire_tag, x), (''values'', y)]"
    by (simp_all add: key_ordered_def)
qed

lemmas wire_objects = json_object_def tagged_value_def tag_members

lemma serialize_tree: "surreal_ok v \<Longrightarrow> wire_serialize lib v = to_wire_value lib v"
proof (induction v)
  case (SObject ms)
  then have "map (\<lambda>(k, v). (k, wire_serialize lib v)) ms = map (\<lambda>(k, v). (k, to_wire_value lib v)) ms"
    by (fastforce simp: list_all_iff)
  with SObject.prems show ?case by simp
qed (auto simp: wire_objects list_all_iff)

section \<open>Round trip\<close>

text \<open>
  The values the decoder understands: scalars whose library parses its own text, objects
  without a field named like the tag, sets in their canonical order.
\<close>

fun portable :: "'x surreal_lib \<Rightarrow> 'x surreal_value \<Rightarrow> bool" where
  "portable lib (SFloat w) = (is_finite_bits w \<or> parse_f64 lib (f64_text lib w) = Some w)"
| "portable lib (SDecimal d) = (decimal_from_str lib (decimal_text lib d) = Some d)"
| "portable lib (SUuid u) = (uuid_from_str lib (uuid_text lib u) = Some u)"
| "portable lib (SRecordId r) = (record_parse_simple lib (record_sql lib r) = Some r)"
| "portable lib (SBytes bs) = (base64_decode lib (base64_encode lib bs) = Some bs)"
| "portable lib (SDuration x) = False"
| "portable lib (SDatetime x) = False"
| "portable lib (SGeometry x) = False"
| "portable lib (STable x) = False"
| "portable lib (SFile x) = False"
| "portable lib (SRange x) = False"
| "portable lib (SRegex x) = False"
| "portable lib (SArray vs) = list_all (portable lib) vs"
| "portable lib (SSet vs) = (set_from lib vs = vs \<and> list_all (portable lib) vs)"
| "portable lib (SObject ms) =
     (key_ordered ms \<and> map_of ms wire_tag = None \<and> list_all (\<lambda>(k, v). portable lib v) ms)"
| "portable lib _ = True"

fun fits_depth :: "nat \<Rightarrow> 'x surreal_value \<Rightarrow> bool" where
  "fits_depth n (SArray vs) = list_all (\<lambda>v. 0 < n \<and> fits_depth (n - 1) v) vs"
| "fits_depth n (SSet vs) = list_all (\<lambda>v. 0 < n \<and> fits_depth (n - 1) v) vs"
| "fits_depth n (SObject ms) = list_all (\<lambda>(k, v). 0 < n \<and> fits_depth (n - 1) v) ms"
| "fits_depth n _ = True"

lemma from_wire_array_map:
  "(\<And>v. v \<in> set vs \<Longrightarrow> from_wire_value_at_depth lib (f v) d = Inr v) \<Longrightarrow>
   from_wire_array lib (map f vs) d = Inr vs"
  by (induction vs) auto

lemma from_wire_members_map:
  "(\<And>k v. (k, v) \<in> set ms \<Longrightarrow> from_wire_value_at_depth lib (f v) d = Inr v) \<Longrightarrow>
   from_wire_members lib (map (\<lambda>(k, v). (k, f v)) ms) d = Inr ms"
proof (induction ms)
  case (Cons m ms)
  obtain k v where m: "m = (k, v)" by fastforce
  have "from_wire_value_at_depth lib (f v) d = Inr v"
    using Cons.prems[of k v] by (simp add: m)
  moreover have "from_wire_members lib (map (\<lambda>(k, v). (k, f v)) ms) d = Inr ms"
    using Cons by auto
  ultimately show ?case by (simp add: m)
qed simp

lemma map_of_map_snd: "map_of (map (\<lambda>(k, v). (k, f v)) ms) k = map_option f (map_of ms k)"
  by (induction ms) auto

lemma from_wire_tagged:
  assumes "d \<le> max_wire_depth" "field \<noteq> wire_tag"
  shows "from_wire_value_at_depth lib (JObject [(wire_tag, JString kind), (field, x)]) d =
    decode_tagged_value lib (JString kind) [(field, x)] d"
  using assms by (simp add: from_wire_value_at_depth.simps member_remove_def)

lemma field_names: "''value'' \<noteq> wire_tag" "''base64'' \<noteq> wire_tag" "''values'' \<noteq> wire_tag"
  by code_simp+

lemmas decode_simps = wire_objects from_wire_tagged field_names decode_tagged_value.simps
  required_string_def parsed_def

lemma from_wire_inverse:
  assumes "portable lib v" "fits_depth n v" "d + n \<le> max_wire_depth"
  shows "from_wire_value_at_depth lib (to_wire_value lib v) d = Inr v"
  using assms
proof (induction v arbitrary: n d)
  case (SArray vs)
  then have "from_wire_array lib (map (to_wire_value lib) vs) (Suc d) = Inr vs"
    by (intro from_wire_array_map) (auto simp: list_all_iff)
  with SArray.prems show ?case
    by (simp add: from_wire_value_at_depth.simps)
next
  case (SSet vs)
  then have "from_wire_array lib (map (to_wire_value lib) vs) (Suc d) = Inr vs"
    by (intro from_wire_array_map) (auto simp: list_all_iff)
  with SSet.prems show ?case
    by (simp add: decode_simps)
next
  case (SObject ms)
  then have "from_wire_members lib (map (\<lambda>(k, v). (k, to_wire_value lib v)) ms) (Suc d) = Inr ms"
    by (intro from_wire_members_map) (fastforce simp: list_all_iff)
  with SObject.prems show ?case
    by (simp add: from_wire_value_at_depth.simps map_of_map_snd)
next
  case (SFloat w)
  then show ?case
    by (auto simp: decode_simps from_wire_value_at_depth.simps[of _ "JNumber _"] wire_number_def)
next
  case SNone
  then show ?case
    by (simp add: wire_objects from_wire_value_at_depth.simps decode_tagged_value.simps)
qed (simp_all add: decode_simps from_wire_value_at_depth.simps[of _ "JNull"]
    from_wire_value_at_depth.simps[of _ "JBool _"] from_wire_value_at_depth.simps[of _ "JString _"]
    from_wire_value_at_depth.simps[of _ "JNumber _"] wire_number_def)

section \<open>Properties\<close>

text \<open>
  C23: Every value the decoder supports, nested at most as deep as it allows, is decoded
  unchanged from the tree encoding and from the streamed encoding.
\<close>
theorem wire_roundtrip:
  assumes "portable lib v" "fits_depth max_wire_depth v" "surreal_ok v"
  shows "from_wire_value lib (to_wire_value lib v) = Inr v
    \<and> from_wire_value lib (wire_serialize lib v) = Inr v"
  using from_wire_inverse[OF assms(1,2), of 0] serialize_tree[OF assms(3)]
  by (simp add: from_wire_value_def)

definition sample_lib :: "string surreal_lib" where
  "sample_lib = \<lparr>decimal_text = (\<lambda>x. x), decimal_from_str = Some, uuid_text = (\<lambda>x. x), uuid_from_str = Some,
     record_sql = (\<lambda>x. x), record_parse_simple = Some, value_sql = (\<lambda>x. x),
     f64_text = (\<lambda>w. if w = 0x7FF8000000000000 then ''NaN'' else ''inf''),
     parse_f64 = (\<lambda>s. Some (if s = ''NaN'' then 0x7FF8000000000000 else 0x7FF0000000000000)), f64_of_u64 = (\<lambda>n. n),
     base64_encode = map (\<lambda>b. char_of (unat b)), base64_decode = (\<lambda>s. Some (map (\<lambda>c. of_nat (of_char c)) s)), set_from = (\<lambda>vs. vs)\<rparr>"

definition sample_value :: "string surreal_value" where
  "sample_value = SObject [(''a'', SArray [SInt (- 5), SNone]), (''b'', SSet [SBytes [1, 255], SRecordId ''t:1'']),
     (''c'', SFloat 0x7FF8000000000000)]"

theorem wire_roundtrip_witness:
  "from_wire_value sample_lib (to_wire_value sample_lib sample_value) = Inr sample_value
   \<and> from_wire_value sample_lib (wire_serialize sample_lib sample_value) = Inr sample_value"
proof -
  have "portable sample_lib sample_value"
    by (simp add: sample_value_def sample_lib_def key_ordered_def wire_tag_def less_list_code)
  moreover have "fits_depth max_wire_depth sample_value"
    by (simp add: sample_value_def max_wire_depth_def)
  moreover have "surreal_ok sample_value" by code_simp
  ultimately show ?thesis by (rule wire_roundtrip)
qed

text \<open>
  The streaming encoder and the tree encoder write the same JSON text for every value
  of the database, whatever the writer of JSON trees does.
\<close>
theorem wire_encoders_agree:
  assumes "surreal_ok v"
  shows "encode_value lib to_string v = encode_value_tree lib to_string v"
  using serialize_tree[OF assms] by (simp add: encode_value_def encode_value_tree_def)

theorem wire_encoders_agree_witness:
  "encode_value sample_lib (\<lambda>j. Some (if j = JNull then ''null'' else ''other'')) sample_value =
   encode_value_tree sample_lib (\<lambda>j. Some (if j = JNull then ''null'' else ''other'')) sample_value"
proof -
  have "surreal_ok sample_value" by code_simp
  then show ?thesis by (rule wire_encoders_agree)
qed

text \<open>
  An ordinary object with a field named \<open>$surreal\<close> does not survive the bridge: it is
  written as it is and read back as a tagged value.  A date is written with a tag the
  decoder refuses.
\<close>
theorem wire_tag_field_lost:
  "from_wire_value lib (to_wire_value lib (SObject [(''$surreal'', SString ''none'')])) = Inr SNone
   \<and> from_wire_value lib (to_wire_value lib (SDatetime x)) = Inl InvalidVariables"
proof -
  have tag: "''$surreal'' = wire_tag" by (simp add: wire_tag_def)
  show ?thesis
    unfolding tag
    by (simp add: from_wire_value_def decode_simps from_wire_value_at_depth.simps[of _ "JObject _"]
        member_remove_def key_ordered_def)
qed

end
