(* ===== verification/Native_View.thy ===== *)
theory Native_View
  imports Native_Read Native_Queue Wire_Value
begin

text \<open>
  Bounded reads of the local view (\<open>crates/surrealdb-rn-core/src/sync_view.rs\<close>): counts and
  pages over the optimistic rows, selected by equality of fields, with every record,
  operation, node and byte charged to a budget.  serde's conversions are the fields of
  \<open>view_serde\<close>; the random token of a cursor is an argument.
\<close>

section \<open>Requests and work\<close>

definition max_view_input :: nat where "max_view_input = 16 * 1024"
definition max_view_output :: nat where "max_view_output = 256 * 1024"
definition max_visits :: u32 where "max_visits = 16384"
definition max_nodes :: u32 where "max_nodes = 65536"
definition max_value_bytes :: nat where "max_value_bytes = 4 * 1024 * 1024"

datatype selector =
    SelAll
  | SelEq "string list" json
  | SelAnd "selector list"

datatype view_request =
    ViewCount u8 selector
  | ViewPage u8 selector "string list list" u32 "string option"

record view_cursor =
  vc_token :: string
  vc_process_epoch :: string
  vc_revision :: string
  vc_scope :: json
  vc_query :: string
  vc_last_record_id :: string

record view_work =
  vw_records :: u32
  vw_operations :: u32
  vw_nodes :: u32
  vw_bytes :: nat

record view_serde =
  vs_request :: "string \<Rightarrow> view_request option"
  vs_metadata :: "read_metadata_v1 \<Rightarrow> json option"
  vs_query :: "selector \<Rightarrow> string list list \<Rightarrow> u32 \<Rightarrow> string option"
  vs_cursor :: "string \<Rightarrow> view_cursor option"
  vs_cursor_text :: "view_cursor \<Rightarrow> string option"
  vs_identity :: "commit_identity \<Rightarrow> json option"
  vs_resolution :: "conflict_resolution option \<Rightarrow> json option"
  vs_writer :: "json json_writer"

definition no_work :: view_work where
  "no_work = \<lparr>vw_records = 0, vw_operations = 0, vw_nodes = 0, vw_bytes = 0\<rparr>"

definition visit :: "bool \<Rightarrow> view_work \<Rightarrow> native_sync_error + view_work" where
  "visit operation w =
     (let w = (if operation then w\<lparr>vw_operations := vw_operations w + 1\<rparr> else w\<lparr>vw_records := vw_records w + 1\<rparr>) in
      if vw_records w + vw_operations w > max_visits then Inl ReadOutputTooLarge else Inr w)"

definition charge :: "nat \<Rightarrow> view_work \<Rightarrow> native_sync_error + view_work" where
  "charge n w =
     (let w = w\<lparr>vw_bytes := vw_bytes w + n\<rparr> in
      if vw_bytes w > max_value_bytes then Inl ReadOutputTooLarge else Inr w)"

fun charge_value :: "json \<Rightarrow> nat \<Rightarrow> view_work \<Rightarrow> native_sync_error + view_work"
  and charge_values :: "json list \<Rightarrow> nat \<Rightarrow> view_work \<Rightarrow> native_sync_error + view_work"
  and charge_members :: "(string \<times> json) list \<Rightarrow> nat \<Rightarrow> view_work \<Rightarrow> native_sync_error + view_work" where
  "charge_value v depth w =
     (let w = w\<lparr>vw_nodes := vw_nodes w + 1\<rparr> in
      if vw_nodes w > max_nodes \<or> depth > 64 then Inl ReadOutputTooLarge
      else case v of
        JString s \<Rightarrow> charge (length s) w
      | JArray xs \<Rightarrow> charge_values xs (depth + 1) w
      | JObject ms \<Rightarrow> charge_members ms (depth + 1) w
      | _ \<Rightarrow> charge 24 w)"
| "charge_values [] depth w = Inr w"
| "charge_values (x # xs) depth w = rbind (charge_value x depth w) (charge_values xs depth)"
| "charge_members [] depth w = Inr w"
| "charge_members ((k, v) # ms) depth w =
     rbind (charge (length k) w) (\<lambda>w.
     rbind (charge_value v depth w) (charge_members ms depth))"

section \<open>Selectors\<close>

text \<open>Control characters of a UTF-8 text: U+0000 to U+001F and U+007F to U+009F.\<close>

fun has_control :: "string \<Rightarrow> bool" where
  "has_control [] = False"
| "has_control (c # cs) =
     ((of_char c :: nat) < 32 \<or> (of_char c :: nat) = 127
      \<or> (of_char c :: nat) = 194 \<and> (case cs of d # _ \<Rightarrow> 128 \<le> (of_char d :: nat) \<and> (of_char d :: nat) < 160 | [] \<Rightarrow> False)
      \<or> has_control cs)"

definition segment_valid :: "string \<Rightarrow> bool" where
  "segment_valid s \<longleftrightarrow> s \<noteq> [] \<and> length s \<le> 128
     \<and> s \<notin> {''__proto__'', ''constructor'', ''prototype'', wire_tag} \<and> \<not> has_control s"

definition path_valid :: "string list \<Rightarrow> bool" where
  "path_valid path \<longleftrightarrow> path \<noteq> [] \<and> length path \<le> 8 \<and> list_all segment_valid path"

fun scalar_operand :: "json \<Rightarrow> bool" where
  "scalar_operand JNull = True"
| "scalar_operand (JBool b) = True"
| "scalar_operand (JString s) = (length s \<le> 1024)"
| "scalar_operand _ = False"

fun is_eq_term :: "selector \<Rightarrow> bool" where
  "is_eq_term (SelEq path value) = True"
| "is_eq_term _ = False"

lemma for_each_cong [fundef_cong]:
  "xs = ys \<Longrightarrow> (\<And>x. x \<in> set ys \<Longrightarrow> f x = g x) \<Longrightarrow> for_each f xs = for_each g ys"
  by (induction ys arbitrary: xs) auto

fun validate_selector :: "selector \<Rightarrow> native_sync_error + unit" where
  "validate_selector SelAll = Inr ()"
| "validate_selector (SelEq path value) =
     (if path_valid path \<and> scalar_operand value then Inr () else Inl InvalidInput)"
| "validate_selector (SelAnd terms) =
     (if terms = [] \<or> length terms > 8 then Inl InvalidInput
      else for_each (\<lambda>t. if is_eq_term t then validate_selector t else Inl InvalidInput) terms)"

definition tagged_object :: "json \<Rightarrow> bool" where
  "tagged_object v = (case v of JObject ms \<Rightarrow> map_of ms wire_tag \<noteq> None | _ \<Rightarrow> False)"

definition get_member :: "string \<Rightarrow> json \<Rightarrow> json option" where
  "get_member k v = (case v of JObject ms \<Rightarrow> map_of ms k | _ \<Rightarrow> None)"

fun field :: "json \<Rightarrow> string list \<Rightarrow> view_work \<Rightarrow> native_sync_error + json option \<times> view_work" where
  "field v [] w = Inr (Some v, w)"
| "field v (key # path) w =
     (if tagged_object v then Inr (None, w)
      else let w = w\<lparr>vw_nodes := vw_nodes w + 1\<rparr> in
        if vw_nodes w > max_nodes then Inl ReadOutputTooLarge
        else case get_member key v of None \<Rightarrow> Inr (None, w) | Some x \<Rightarrow> field x path w)"

fun is_scalar :: "json \<Rightarrow> bool" where
  "is_scalar JNull = True"
| "is_scalar (JBool b) = True"
| "is_scalar (JString s) = True"
| "is_scalar _ = False"

fun sel_matches :: "selector \<Rightarrow> json \<Rightarrow> view_work \<Rightarrow> native_sync_error + bool \<times> view_work"
  and all_match :: "selector list \<Rightarrow> json \<Rightarrow> view_work \<Rightarrow> native_sync_error + bool \<times> view_work" where
  "sel_matches SelAll v w = Inr (True, w)"
| "sel_matches (SelEq path wanted) v w =
     rbind (field v path w) (\<lambda>(got, w). Inr (is_some_and got (\<lambda>x. is_scalar x \<and> x = wanted), w))"
| "sel_matches (SelAnd terms) v w = all_match terms v w"
| "all_match [] v w = Inr (True, w)"
| "all_match (t # ts) v w =
     rbind (sel_matches t v w) (\<lambda>(hit, w). if \<not> hit then Inr (False, w) else all_match ts v w)"

section \<open>The effective rows\<close>

fun view_confirmed ::
  "(record_id \<times> json record_state) list \<Rightarrow> (record_id, json) fmap \<Rightarrow> view_work \<Rightarrow>
   native_sync_error + (record_id, json) fmap \<times> view_work" where
  "view_confirmed [] rows w = Inr (rows, w)"
| "view_confirmed ((r, s) # rest) rows w =
     rbind (visit False w) (\<lambda>w.
     if length (record_str r) > 4096 then Inl ReadOutputTooLarge
     else rbind (charge (length (record_str r)) w) (\<lambda>w.
     case s of
       Present v n ref \<Rightarrow> rbind (charge_value v 0 w) (view_confirmed rest (fmupd r v rows))
     | _ \<Rightarrow> view_confirmed rest rows w))"

definition charge_operation :: "view_work \<Rightarrow> json operation \<Rightarrow> native_sync_error + view_work" where
  "charge_operation w op =
     rbind (visit True w) (\<lambda>w.
     rbind (charge (length (record_str (operation_record_id op))) w) (\<lambda>w.
     case op of Upsert r b v ref \<Rightarrow> charge_value v 0 w | Delete r b \<Rightarrow> Inr w))"

definition charge_commit :: "view_work \<Rightarrow> json client_commit \<Rightarrow> native_sync_error + view_work" where
  "charge_commit w commit =
     rbind (visit True w) (\<lambda>w.
     rbind (charge (length (commit_str (commit_id_of commit))) w) (\<lambda>w.
     rbind (charge (length (fingerprint_str (fingerprint (identity commit)))) w) (\<lambda>w.
     try_fold charge_operation w (operations commit))))"

fun overlay ::
  "json operation list \<Rightarrow> (record_id, json) fmap \<Rightarrow> view_work \<Rightarrow>
   native_sync_error + (record_id, json) fmap \<times> view_work" where
  "overlay [] rows w = Inr (rows, w)"
| "overlay (op # ops) rows w =
     rbind (visit True w) (\<lambda>w.
     overlay ops (case op of Upsert r b v ref \<Rightarrow> fmupd r v rows | Delete r b \<Rightarrow> fmdrop r rows) w)"

definition effective :: "json client_runtime \<Rightarrow> view_work \<Rightarrow> native_sync_error + (record_id, json) fmap \<times> view_work" where
  "effective rt w =
     (let state = rt_state rt; history = map local_commit (outcomes state) @ outbox state in
      rbind (view_confirmed (entries (confirmed state)) fmempty w) (\<lambda>(rows, w).
      rbind (try_fold charge_commit w history) (\<lambda>w.
      rbind (try_fold (\<lambda>w _. visit True w) w history) (\<lambda>w.
      overlay (optimistic_operations state) rows w))))"

section \<open>Summaries of local intent\<close>

record view_summary =
  vm_pending :: "json list"
  vm_conflicts :: "json list"
  vm_accepted :: "json list"

type_synonym view_summaries = "(string, view_summary) fmap"

definition identity_bytes :: "commit_identity \<Rightarrow> nat" where
  "identity_bytes i = length (commit_str (client_commit_id i)) + length (fingerprint_str (fingerprint i))"

definition panicking :: "'a option \<Rightarrow> native_fault + 'a" where
  "panicking x = ok_or Panicked x"

definition lifted :: "native_sync_error + 'a \<Rightarrow> native_fault + 'a" where
  "lifted r = map_sum Fault (\<lambda>x. x) r"

definition summarize_pending ::
  "view_serde \<Rightarrow> record_id set \<Rightarrow> json client_commit \<Rightarrow> view_summaries \<times> view_work \<Rightarrow> json operation \<Rightarrow>
   native_fault + view_summaries \<times> view_work" where
  "summarize_pending vs ids commit st op =
     (case st of (rows, w) \<Rightarrow>
        rbind (lifted (visit True w)) (\<lambda>w.
        let r = operation_record_id op in
        if r \<notin> ids then Inr (rows, w)
        else rbind (lifted (charge (identity_bytes (identity commit)) w)) (\<lambda>w.
             rbind (panicking (fmlookup rows (record_str r))) (\<lambda>row.
             rbind (ok_or (Fault Internal) (vs_identity vs (identity commit))) (\<lambda>v.
             Inr (fmupd (record_str r) (row\<lparr>vm_pending := vm_pending row @ [v]\<rparr>) rows, w))))))"

definition summarize_commit ::
  "view_serde \<Rightarrow> record_id set \<Rightarrow> view_summaries \<times> view_work \<Rightarrow> json client_commit \<Rightarrow>
   native_fault + view_summaries \<times> view_work" where
  "summarize_commit vs ids st commit =
     (case st of (rows, w) \<Rightarrow>
        rbind (lifted (visit True w)) (\<lambda>w.
        try_fold (summarize_pending vs ids commit) (rows, w) (operations commit)))"

fun replacement_bytes :: "conflict_resolution option \<Rightarrow> nat option" where
  "replacement_bytes (Some (ResKeepLocal i)) = Some (identity_bytes i)"
| "replacement_bytes (Some (ResMerge i)) = Some (identity_bytes i)"
| "replacement_bytes _ = None"

definition summarize_outcome ::
  "view_serde \<Rightarrow> json resolved_commit \<Rightarrow> view_summary \<Rightarrow> native_fault + view_summary" where
  "summarize_outcome vs resolved row =
     (case outcome resolved of
        Accepted i n ms \<Rightarrow>
          rbind (panicking (vs_identity vs (identity (local_commit resolved)))) (\<lambda>v.
          Inr (row\<lparr>vm_accepted := vm_accepted row @ [JObject (members_of [(''identity'', v),
            (''sequence'', JString (u64_text n)),
            (''status'', JString (if covered_by_reset resolved then ''covered_by_authorized_reset''
               else ''awaiting_pull_epoch_unknown''))])]\<rparr>))
      | Conflict i r authoritative \<Rightarrow>
          rbind (panicking (vs_identity vs (identity (local_commit resolved)))) (\<lambda>v.
          rbind (panicking (vs_resolution vs (resolution resolved))) (\<lambda>d.
          Inr (row\<lparr>vm_conflicts := vm_conflicts row @ [JObject (members_of [(''identity'', v), (''resolution'', d)])]\<rparr>)))
      | Rejected i reason \<Rightarrow> Inr row)"

definition summarize_resolved ::
  "view_serde \<Rightarrow> record_id set \<Rightarrow> json resolved_commit \<Rightarrow> view_summaries \<times> view_work \<Rightarrow> json operation \<Rightarrow>
   native_fault + view_summaries \<times> view_work" where
  "summarize_resolved vs ids resolved st op =
     (case st of (rows, w) \<Rightarrow>
        rbind (lifted (visit True w)) (\<lambda>w.
        let r = operation_record_id op in
        if r \<notin> ids then Inr (rows, w)
        else rbind (lifted (charge (identity_bytes (identity (local_commit resolved))) w)) (\<lambda>w.
             rbind (case replacement_bytes (resolution resolved) of None \<Rightarrow> Inr w | Some n \<Rightarrow> lifted (charge n w)) (\<lambda>w.
             rbind (ok_or (Fault Internal) (fmlookup rows (record_str r))) (\<lambda>row.
             rbind (summarize_outcome vs resolved row) (\<lambda>row.
             Inr (fmupd (record_str r) row rows, w)))))))"

definition summarize_history ::
  "view_serde \<Rightarrow> record_id set \<Rightarrow> view_summaries \<times> view_work \<Rightarrow> json resolved_commit \<Rightarrow>
   native_fault + view_summaries \<times> view_work" where
  "summarize_history vs ids st resolved =
     (case st of (rows, w) \<Rightarrow>
        rbind (lifted (visit True w)) (\<lambda>w.
        try_fold (summarize_resolved vs ids resolved) (rows, w) (operations (local_commit resolved))))"

definition no_summary :: view_summary where
  "no_summary = \<lparr>vm_pending = [], vm_conflicts = [], vm_accepted = []\<rparr>"

definition summaries ::
  "view_serde \<Rightarrow> json client_runtime \<Rightarrow> record_id list \<Rightarrow> view_work \<Rightarrow> native_fault + view_summaries \<times> view_work" where
  "summaries vs rt ids w =
     (let rows = fold (\<lambda>r. fmupd (record_str r) no_summary) ids fmempty in
      rbind (try_fold (summarize_commit vs (set ids)) (rows, w) (outbox (rt_state rt))) (\<lambda>st.
      try_fold (summarize_history vs (set ids)) st (outcomes (rt_state rt))))"

section \<open>Counts and pages\<close>

fun count_loop :: "selector \<Rightarrow> json list \<Rightarrow> u64 \<Rightarrow> view_work \<Rightarrow> native_sync_error + u64 \<times> view_work" where
  "count_loop sel [] n w = Inr (n, w)"
| "count_loop sel (v # vs) n w =
     rbind (visit False w) (\<lambda>w.
     rbind (sel_matches sel v w) (\<lambda>(hit, w).
     count_loop sel vs (if hit then n + 1 else n) w))"

fun page_loop ::
  "string option \<Rightarrow> selector \<Rightarrow> nat \<Rightarrow> (record_id \<times> json) list \<Rightarrow> (record_id \<times> json) list \<Rightarrow> view_work \<Rightarrow>
   native_sync_error + (record_id \<times> json) list \<times> bool \<times> view_work" where
  "page_loop after sel cap [] selected w = Inr (selected, False, w)"
| "page_loop after sel cap ((r, v) # rest) selected w =
     rbind (visit False w) (\<lambda>w.
     if is_some_and after (\<lambda>last. record_str r \<le> last) then page_loop after sel cap rest selected w
     else rbind (sel_matches sel v w) (\<lambda>(hit, w).
       if \<not> hit then page_loop after sel cap rest selected w
       else if length selected = cap then Inr (selected, True, w)
       else page_loop after sel cap rest (selected @ [(r, v)]) w))"

fun project_fields :: "json \<Rightarrow> string list list \<Rightarrow> view_work \<Rightarrow> native_sync_error + json list \<times> view_work" where
  "project_fields v [] w = Inr ([], w)"
| "project_fields v (path # paths) w =
     rbind (field v path w) (\<lambda>(item, w).
     rbind (case item of None \<Rightarrow> Inr w | Some x \<Rightarrow> charge_value x 0 w) (\<lambda>w.
     rbind (project_fields v paths w) (\<lambda>(rest, w).
     Inr (JObject (members_of [(''path'', JArray (map JString path)), (''present'', JBool (item \<noteq> None)),
            (''value'', case item of None \<Rightarrow> JNull | Some x \<Rightarrow> x)]) # rest, w))))"

definition row_summary :: "view_summaries \<Rightarrow> record_id \<Rightarrow> (view_summary \<Rightarrow> json list) \<Rightarrow> json" where
  "row_summary summary r part = (case fmlookup summary (record_str r) of None \<Rightarrow> JNull | Some row \<Rightarrow> JArray (part row))"

fun page_rows ::
  "string list list \<Rightarrow> view_summaries \<Rightarrow> (record_id \<times> json) list \<Rightarrow> view_work \<Rightarrow> native_sync_error + json list \<times> view_work" where
  "page_rows projection summary [] w = Inr ([], w)"
| "page_rows projection summary ((r, v) # rest) w =
     rbind (project_fields v projection w) (\<lambda>(fields, w).
     rbind (page_rows projection summary rest w) (\<lambda>(rows, w).
     Inr (JObject (members_of [(''recordId'', JString (record_str r)), (''fields'', JArray fields),
            (''pending'', row_summary summary r vm_pending), (''conflicts'', row_summary summary r vm_conflicts),
            (''accepted'', row_summary summary r vm_accepted)]) # rows, w)))"

definition work_json :: "view_work \<Rightarrow> json" where
  "work_json w = JObject (members_of [(''recordsVisited'', JNumber (PosInt (ucast (vw_records w)))),
     (''operationsVisited'', JNumber (PosInt (ucast (vw_operations w)))),
     (''valueNodesVisited'', JNumber (PosInt (ucast (vw_nodes w)))),
     (''valueBytesVisited'', JNumber (PosInt (of_nat (vw_bytes w))))])"

fun request_version :: "view_request \<Rightarrow> u8" where
  "request_version (ViewCount version sel) = version"
| "request_version (ViewPage version sel projection cap raw) = version"

fun request_selector :: "view_request \<Rightarrow> selector" where
  "request_selector (ViewCount version sel) = sel"
| "request_selector (ViewPage version sel projection cap raw) = sel"

definition page_query :: "view_serde \<Rightarrow> view_request \<Rightarrow> native_fault + string" where
  "page_query vs request =
     (case request of
        ViewCount version sel \<Rightarrow> Inr []
      | ViewPage version sel projection cap raw \<Rightarrow>
          if cap < 1 \<or> cap > 64 \<or> projection = [] \<or> length projection > 16 \<or> \<not> list_all path_valid projection
          then Inl (Fault InvalidInput)
          else if \<not> distinct projection then Inl (Fault InvalidInput)
          else ok_or (Fault Internal) (vs_query vs sel projection cap))"

text \<open>The position of a page: stale, or the record after which it starts.\<close>

datatype page_start = StaleCursor | StartAfter "string option"

definition cursor_start ::
  "view_serde \<Rightarrow> json client_runtime \<Rightarrow> read_journal \<Rightarrow> json \<Rightarrow> string \<Rightarrow> string option \<Rightarrow> native_fault + page_start" where
  "cursor_start vs rt j meta query raw =
     (case raw of
        None \<Rightarrow> Inr (StartAfter None)
      | Some raw \<Rightarrow>
          if length raw > 8192 then Inl (Fault InvalidInput)
          else rbind (ok_or (Fault InvalidInput) (vs_cursor vs raw)) (\<lambda>c.
          rbind (ok_or (Fault Internal) (vs_cursor_text vs c)) (\<lambda>text.
          if text \<noteq> raw then Inl (Fault InvalidInput)
          else if vc_process_epoch c \<noteq> epoch_value (rj_epoch j) \<or> vc_revision c \<noteq> u64_text (revision (rt_state rt))
             \<or> vc_scope c \<noteq> member_at ''scope'' meta \<or> \<not> issued_view_cursor j raw
          then Inr StaleCursor
          else if vc_query c \<noteq> query then Inl (Fault InvalidInput)
          else Inr (StartAfter (Some (vc_last_record_id c))))))"

definition next_cursor ::
  "view_serde \<Rightarrow> json client_runtime \<Rightarrow> read_journal \<Rightarrow> json \<Rightarrow> string \<Rightarrow> string \<Rightarrow> (record_id \<times> json) list \<Rightarrow> bool \<Rightarrow>
   native_fault + string option" where
  "next_cursor vs rt j meta query tok selected has_more =
     (if \<not> has_more then Inr None
      else if selected = [] then Inl (Fault Internal)
      else rbind (ok_or (Fault Internal) (vs_cursor_text vs \<lparr>vc_token = tok, vc_process_epoch = epoch_value (rj_epoch j),
             vc_revision = u64_text (revision (rt_state rt)), vc_scope = member_at ''scope'' meta, vc_query = query,
             vc_last_record_id = record_str (fst (last selected))\<rparr>)) (\<lambda>text.
           if length text > 8192 then Inl (Fault ReadOutputTooLarge) else Inr (Some text)))"

definition read_count ::
  "json client_runtime \<Rightarrow> selector \<Rightarrow> json \<Rightarrow> native_fault + json" where
  "read_count rt sel meta =
     rbind (lifted (effective rt no_work)) (\<lambda>(rows, w).
     rbind (lifted (count_loop sel (map snd (entries rows)) 0 w)) (\<lambda>(n, w).
     Inr (JObject (members_of [(''protocolVersion'', JNumber (PosInt 1)), (''kind'', JString ''count''),
       (''observedCount'', JString (u64_text n)), (''metadata'', meta), (''work'', work_json w)]))))"

definition read_page ::
  "view_serde \<Rightarrow> json client_runtime \<Rightarrow> read_journal \<Rightarrow> string \<Rightarrow> selector \<Rightarrow> string list list \<Rightarrow> u32 \<Rightarrow> json \<Rightarrow> string \<Rightarrow>
   string option \<Rightarrow> native_fault + json" where
  "read_page vs rt j tok sel projection cap meta query after =
     rbind (lifted (effective rt no_work)) (\<lambda>(rows, w).
     rbind (lifted (page_loop after sel (unat cap) (entries rows) [] w)) (\<lambda>(selected, has_more, w).
     rbind (summaries vs rt (map fst selected) w) (\<lambda>(summary, w).
     rbind (lifted (page_rows projection summary selected w)) (\<lambda>(out, w).
     rbind (next_cursor vs rt j meta query tok selected has_more) (\<lambda>cursor.
     Inr (JObject (members_of [(''protocolVersion'', JNumber (PosInt 1)), (''kind'', JString ''page''),
       (''rows'', JArray out), (''nextCursor'', case cursor of None \<Rightarrow> JNull | Some t \<Rightarrow> JString t),
       (''metadata'', meta), (''work'', work_json w)])))))))"

definition view_read ::
  "view_serde \<Rightarrow> json client_runtime \<Rightarrow> read_journal \<Rightarrow> string \<Rightarrow> string \<Rightarrow> native_fault + json" where
  "view_read vs rt j tok input =
     (if length input > max_view_input then Inl (Fault InvalidInput)
      else rbind (ok_or (Fault InvalidInput) (vs_request vs input)) (\<lambda>request.
      if request_version request \<noteq> 1 then Inl (Fault InvalidInput)
      else rbind (lifted (validate_selector (request_selector request))) (\<lambda>_.
      if length (partition_str (partition_id (rt_state rt))) > 4096 \<or> length (scope_str (requested_scope (rt_state rt))) > 4096
      then Inl (Fault ReadOutputTooLarge)
      else rbind (ok_or (Fault Internal) (vs_metadata vs (metadata (rt_state rt)))) (\<lambda>meta.
      rbind (metadata_wire meta) (\<lambda>meta.
      rbind (page_query vs request) (\<lambda>query.
      if length query > 4096 then Inl (Fault InvalidInput)
      else case request of
        ViewCount version sel \<Rightarrow> read_count rt sel meta
      | ViewPage version sel projection cap raw \<Rightarrow>
          rbind (cursor_start vs rt j meta query raw) (\<lambda>start.
          case start of
            StaleCursor \<Rightarrow> Inr (JObject (members_of [(''protocolVersion'', JNumber (PosInt 1)),
              (''kind'', JString ''stale_cursor''), (''metadata'', meta)]))
          | StartAfter after \<Rightarrow> read_page vs rt j tok sel projection cap meta query after)))))))"

definition view_output :: "view_serde \<Rightarrow> json \<Rightarrow> native_fault + string" where
  "view_output vs v =
     rbind (ok_or (Fault ReadOutputTooLarge) (bounded_json (vs_writer vs) v max_view_output)) (\<lambda>raw. lifted (from_utf8 raw))"

end
