(* ===== verification/Store_Codec.thy ===== *)
theory Store_Codec
  imports Client_Runtime Wire_Value "HOL-Library.Product_Lexorder"
begin

text \<open>
  How the native store lays out one client's durable state
  (\<open>crates/surrealdb-rn-core/src/sync_state.rs\<close>): tagged JSON payloads, the validators of keys
  and revisions, and the normalization of a state into one metadata row and one row per
  component.  Values are JSON trees.  \<open>serde\<close> and the JSON text are the fields of
  \<open>store_codec\<close>: for each stored type its conversion to and from a tree, the text of a tagged
  tree, and the text of a floating-point number.  Lengths are those of lists in memory, so
  the checked additions of \<open>usize\<close> never overflow and are plain sums.
\<close>

type_synonym stored_sync_state = "json durable_client_state"

datatype sync_state_error =
    IdentityTooLarge
  | StateTooLarge
  | RevisionMismatch
  | RevisionConflict
  | CorruptState
  | UnsupportedRecordId
  | RecordValueMustBeObject
  | ValueCodec wire_error
  | InvalidState client_error
  | EncodeFailed
  | DecodeFailed
  | Database
  | Core
  | CommitUnknown
  | RollbackFailed sync_state_error

definition legacy_format_version :: int where "legacy_format_version = 1"
definition format_version :: int where "format_version = 2"
definition subscription_format_version :: int where "subscription_format_version = 3"
definition state_table :: string where "state_table = ''_sync_client_state''"
definition meta_table :: string where "meta_table = ''_sync_client_meta''"
definition confirmed_table :: string where "confirmed_table = ''_sync_client_confirmed''"
definition outbox_table :: string where "outbox_table = ''_sync_client_outbox''"
definition outcome_table :: string where "outcome_table = ''_sync_client_outcome''"
definition subscription_record_table :: string where
  "subscription_record_table = ''_sync_client_subscription_record''"
definition id_map_table :: string where "id_map_table = ''_sync_client_id_map''"
definition scope_barrier_table :: string where "scope_barrier_table = ''_sync_client_scope_barrier''"
definition max_state_identity_bytes :: nat where "max_state_identity_bytes = 512"
definition max_record_id_bytes :: nat where "max_record_id_bytes = 1024"
definition max_component_key_bytes :: nat where "max_component_key_bytes = 1024"
definition max_sync_state_bytes :: nat where "max_sync_state_bytes = 4194304"
definition max_component_items :: nat where "max_component_items = 16384"
definition max_aggregate_state_bytes :: nat where "max_aggregate_state_bytes = 67108864"

section \<open>Tagged JSON\<close>

datatype tagged_json =
    TNull
  | TBool bool
  | TString string
  | TI64 string
  | TU64 string
  | TFloat string
  | TArray "tagged_json list"
  | TObject "(string \<times> tagged_json) list"

record state_meta =
  sm_partition_id :: string
  sm_client_id :: string
  sm_requested_scope :: string
  sm_subscription_revision :: string
  sm_revision :: string
  sm_checkpoint :: "checkpoint option"
  sm_reset_coverage :: "reset_coverage option"
  sm_subscriptions :: "json durable_subscriptions option"
  sm_subscription_record_keys :: "string list"
  sm_confirmed_keys :: "record_id list"
  sm_outbox_keys :: "string list"
  sm_outcome_keys :: "string list"
  sm_id_map_keys :: "record_id list"

record store_codec =
  number_text :: "u64 \<Rightarrow> string"
  parse_number :: "string \<Rightarrow> json_number option"
  to_vec :: "tagged_json \<Rightarrow> byte list option"
  from_slice :: "byte list \<Rightarrow> tagged_json option"
  meta_value :: "state_meta \<Rightarrow> json option"
  value_meta :: "json \<Rightarrow> state_meta option"
  record_value :: "json record_state \<Rightarrow> json option"
  value_record :: "json \<Rightarrow> json record_state option"
  commit_value :: "json client_commit \<Rightarrow> json option"
  value_commit :: "json \<Rightarrow> json client_commit option"
  outcome_value :: "json resolved_commit \<Rightarrow> json option"
  value_outcome :: "json \<Rightarrow> json resolved_commit option"
  mapping_value :: "record_id \<Rightarrow> json option"
  value_mapping :: "json \<Rightarrow> record_id option"
  row_json :: "json subscription_row \<Rightarrow> json option"
  json_row :: "json \<Rightarrow> json subscription_row option"
  legacy_state :: "byte list \<Rightarrow> stored_sync_state option"

definition is_i64 :: "json_number \<Rightarrow> bool" where
  "is_i64 n = (as_i64 n \<noteq> None)"

fun json_number_text :: "store_codec \<Rightarrow> json_number \<Rightarrow> string" where
  "json_number_text cd (PosInt n) = u64_text n"
| "json_number_text cd (NegInt n) = i64_text n"
| "json_number_text cd (FloatNum w) = number_text cd w"

fun tag_json :: "store_codec \<Rightarrow> json \<Rightarrow> tagged_json" where
  "tag_json cd JNull = TNull"
| "tag_json cd (JBool b) = TBool b"
| "tag_json cd (JString s) = TString s"
| "tag_json cd (JNumber n) =
     (if is_i64 n then TI64 (json_number_text cd n)
      else case n of PosInt _ \<Rightarrow> TU64 (json_number_text cd n) | _ \<Rightarrow> TFloat (json_number_text cd n))"
| "tag_json cd (JArray vs) = TArray (map (tag_json cd) vs)"
| "tag_json cd (JObject ms) = TObject (members_of (map (\<lambda>(k, v). (k, tag_json cd v)) ms))"

fun untag_json :: "store_codec \<Rightarrow> tagged_json \<Rightarrow> sync_state_error + json"
  and untag_array :: "store_codec \<Rightarrow> tagged_json list \<Rightarrow> sync_state_error + json list"
  and untag_members :: "store_codec \<Rightarrow> (string \<times> tagged_json) list \<Rightarrow> sync_state_error + members" where
  "untag_json cd TNull = Inr JNull"
| "untag_json cd (TBool b) = Inr (JBool b)"
| "untag_json cd (TString s) = Inr (JString s)"
| "untag_json cd (TI64 s) = ok_or CorruptState (map_option (JNumber \<circ> number_from_i64) (parse_i64 s))"
| "untag_json cd (TU64 s) = ok_or CorruptState (map_option (JNumber \<circ> PosInt) (parse_u64 s))"
| "untag_json cd (TFloat s) = ok_or CorruptState (map_option JNumber (parse_number cd s))"
| "untag_json cd (TArray ts) = rbind (untag_array cd ts) (\<lambda>vs. Inr (JArray vs))"
| "untag_json cd (TObject ms) = rbind (untag_members cd ms) (\<lambda>vs. Inr (JObject (members_of vs)))"
| "untag_array cd [] = Inr []"
| "untag_array cd (t # ts) =
     rbind (untag_json cd t) (\<lambda>v. rbind (untag_array cd ts) (\<lambda>vs. Inr (v # vs)))"
| "untag_members cd [] = Inr []"
| "untag_members cd ((k, t) # ts) =
     rbind (untag_json cd t) (\<lambda>v. rbind (untag_members cd ts) (\<lambda>vs. Inr ((k, v) # vs)))"

definition encode_tagged :: "store_codec \<Rightarrow> json option \<Rightarrow> sync_state_error + byte list" where
  "encode_tagged cd value =
     rbind (ok_or EncodeFailed value) (\<lambda>v.
     rbind (ok_or EncodeFailed (to_vec cd (tag_json cd v))) (\<lambda>bytes.
     if length bytes > max_sync_state_bytes then Inl StateTooLarge else Inr bytes))"

definition decode_tagged :: "store_codec \<Rightarrow> (json \<Rightarrow> 'a option) \<Rightarrow> byte list \<Rightarrow> sync_state_error + 'a" where
  "decode_tagged cd from_value bytes =
     (if length bytes > max_sync_state_bytes then Inl StateTooLarge
      else rbind (ok_or DecodeFailed (from_slice cd bytes)) (\<lambda>t.
      rbind (ok_or EncodeFailed (to_vec cd t)) (\<lambda>canonical.
      if canonical \<noteq> bytes then Inl CorruptState
      else rbind (untag_json cd t) (\<lambda>v. ok_or DecodeFailed (from_value v)))))"

section \<open>Validators\<close>

type_synonym sync_state_key = "partition_id \<times> client_id"

definition validate_key :: "sync_state_key \<Rightarrow> sync_state_error + unit" where
  "validate_key key =
     (if length (partition_str (fst key)) > max_state_identity_bytes
         \<or> length (client_str (snd key)) > max_state_identity_bytes
      then Inl IdentityTooLarge else Inr ())"

definition validate_component_key :: "string \<Rightarrow> sync_state_error + unit" where
  "validate_component_key value =
     (if value = [] \<or> length value > max_component_key_bytes then Inl IdentityTooLarge else Inr ())"

definition validate_next_revision :: "u64 option \<Rightarrow> u64 \<Rightarrow> sync_state_error + unit" where
  "validate_next_revision expected r =
     rbind (case expected of
              None \<Rightarrow> Inr 0
            | Some e \<Rightarrow> ok_or RevisionMismatch (checked_add e 1)) (\<lambda>expected_next.
     if r \<noteq> expected_next then Inl RevisionMismatch else Inr ())"

definition parse_revision :: "string \<Rightarrow> sync_state_error + u64" where
  "parse_revision s =
     rbind (ok_or CorruptState (parse_u64 s)) (\<lambda>parsed.
     if u64_text parsed \<noteq> s then Inl CorruptState else Inr parsed)"

definition strictly_sorted :: "'a::linorder list \<Rightarrow> bool" where
  "strictly_sorted values = list_all (\<lambda>(a, b). a < b) (windows2 values)"

section \<open>Normalization\<close>

type_synonym component_address = "string \<times> string"

record normalized_rows =
  nr_format_version :: int
  nr_meta :: "byte list"
  nr_components :: "(component_address, byte list) fmap"

definition commit_key :: "'v client_commit \<Rightarrow> string" where
  "commit_key c = commit_str (commit_id_of c)"

definition take_records :: "json durable_subscriptions option \<Rightarrow> json durable_subscriptions option" where
  "take_records subs = map_option (\<lambda>s. s\<lparr>records := fmempty\<rparr>) subs"

definition subscription_records :: "stored_sync_state \<Rightarrow> (string, json subscription_row) fmap" where
  "subscription_records state = (case subscriptions state of None \<Rightarrow> fmempty | Some subs \<Rightarrow> records subs)"

definition state_meta_of :: "stored_sync_state \<Rightarrow> state_meta" where
  "state_meta_of state =
     \<lparr>sm_partition_id = partition_str (partition_id state), sm_client_id = client_str (client_id state),
      sm_requested_scope = scope_str (requested_scope state),
      sm_subscription_revision = u64_text (subscription_revision state),
      sm_revision = u64_text (revision state), sm_checkpoint = checkpoint state,
      sm_reset_coverage = reset_coverage state, sm_subscriptions = take_records (subscriptions state),
      sm_subscription_record_keys = map fst (entries (subscription_records state)),
      sm_confirmed_keys = map fst (entries (confirmed state)),
      sm_outbox_keys = map commit_key (outbox state),
      sm_outcome_keys = map (commit_key \<circ> local_commit) (outcomes state),
      sm_id_map_keys = map fst (entries (id_map state))\<rparr>"

definition component_items ::
  "store_codec \<Rightarrow> stored_sync_state \<Rightarrow> (component_address \<times> (sync_state_error + byte list)) list" where
  "component_items cd state =
     map (\<lambda>(k, v). ((subscription_record_table, k), encode_tagged cd (row_json cd v)))
       (entries (subscription_records state))
     @ map (\<lambda>(k, v). ((confirmed_table, record_str k), encode_tagged cd (record_value cd v)))
         (entries (confirmed state))
     @ map (\<lambda>c. ((outbox_table, commit_key c), encode_tagged cd (commit_value cd c))) (outbox state)
     @ map (\<lambda>r. ((outcome_table, commit_key (local_commit r)), encode_tagged cd (outcome_value cd r)))
         (outcomes state)
     @ map (\<lambda>(k, v). ((id_map_table, record_str k), encode_tagged cd (mapping_value cd v)))
         (entries (id_map state))"

definition insert_component ::
  "(component_address, byte list) fmap \<Rightarrow> component_address \<times> (sync_state_error + byte list) \<Rightarrow>
   sync_state_error + (component_address, byte list) fmap" where
  "insert_component components item = rbind (snd item) (\<lambda>bytes. Inr (fmupd (fst item) bytes components))"

definition payload_bytes :: "byte list \<Rightarrow> (component_address, byte list) fmap \<Rightarrow> nat" where
  "payload_bytes meta components = length meta + sum_list (map (length \<circ> snd) (entries components))"

definition validate_state_keys :: "stored_sync_state \<Rightarrow> sync_state_error + unit" where
  "validate_state_keys state =
     rbind (for_each (\<lambda>(k, v). validate_component_key (record_str k)) (entries (confirmed state))) (\<lambda>_.
     rbind (for_each (\<lambda>c. validate_component_key (commit_key c)) (outbox state)) (\<lambda>_.
     rbind (for_each (\<lambda>r. validate_component_key (commit_key (local_commit r))) (outcomes state)) (\<lambda>_.
     rbind (for_each (\<lambda>(k, v). rbind (validate_component_key (record_str k))
              (\<lambda>_. validate_component_key (record_str v))) (entries (id_map state))) (\<lambda>_.
     for_each (\<lambda>(k, v). validate_component_key k) (entries (subscription_records state))))))"

definition component_count :: "stored_sync_state \<Rightarrow> nat" where
  "component_count state =
     map_len (confirmed state) + map_len (subscription_records state) + length (outbox state)
     + length (outcomes state) + map_len (id_map state)"

definition normalize_state :: "store_codec \<Rightarrow> stored_sync_state \<Rightarrow> sync_state_error + normalized_rows" where
  "normalize_state cd state =
     (if component_count state > max_component_items then Inl StateTooLarge
      else rbind (validate_state_keys state) (\<lambda>_.
      rbind (encode_tagged cd (meta_value cd (state_meta_of state))) (\<lambda>meta.
      rbind (try_fold insert_component fmempty (component_items cd state)) (\<lambda>components.
      if payload_bytes meta components > max_aggregate_state_bytes then Inl StateTooLarge
      else Inr \<lparr>nr_format_version =
                  (if subscriptions state \<noteq> None then subscription_format_version else format_version),
                nr_meta = meta, nr_components = components\<rparr>))))"

definition normalized_budget :: "normalized_rows \<Rightarrow> nat \<times> nat" where
  "normalized_budget rows = (payload_bytes (nr_meta rows) (nr_components rows), map_len (nr_components rows) + 1)"

definition state_budget :: "store_codec \<Rightarrow> stored_sync_state \<Rightarrow> sync_state_error + nat \<times> nat" where
  "state_budget cd state = rbind (normalize_state cd state) (\<lambda>rows. Inr (normalized_budget rows))"

definition prepare_state_write ::
  "store_codec \<Rightarrow> u64 option \<Rightarrow> stored_sync_state \<Rightarrow> sync_state_error + sync_state_key \<times> normalized_rows" where
  "prepare_state_write cd expected state =
     (let key = (partition_id state, client_id state) in
      rbind (validate_key key) (\<lambda>_.
      rbind (validate_next_revision expected (revision state)) (\<lambda>_.
      rbind (case validate state of Inl e \<Rightarrow> Inl (InvalidState e) | Inr _ \<Rightarrow> Inr ()) (\<lambda>_.
      rbind (normalize_state cd state) (\<lambda>rows. Inr (key, rows))))))"

section \<open>Tagged JSON round trip\<close>

definition number_law :: "store_codec \<Rightarrow> bool" where
  "number_law cd \<longleftrightarrow> (\<forall>w. is_finite_bits w \<longrightarrow> parse_number cd (number_text cd w) = Some (FloatNum w))"

lemma posint_text: "unat n < 2 ^ 63 \<Longrightarrow> u64_text n = i64_text n \<and> 0 \<le> sint n" for n :: u64
proof -
  assume n: "unat n < 2 ^ 63"
  then have "int (unat n) < int (2 ^ 63)" by (simp only: of_nat_less_iff)
  then have "uint n < 2 ^ 63" by simp
  moreover have "- (2 ^ 63) \<le> uint n"
    by (rule order_trans[OF _ uint_ge_0]) simp
  ultimately have "sint n = uint n"
    by (simp add: sint_uint signed_take_bit_int_eq_self_iff)
  then show ?thesis
    by (simp add: u64_text_def i64_text_def)
qed

lemma untag_tag_number:
  assumes "number_law cd" "json_number_ok n"
  shows "untag_json cd (tag_json cd (JNumber n)) = Inr (JNumber n)"
proof (cases n)
  case (PosInt u)
  show ?thesis
  proof (cases "unat u < 2 ^ 63")
    case True
    then show ?thesis
      using posint_text[OF True] PosInt by (simp add: is_i64_def number_from_i64_def)
  qed (simp add: PosInt is_i64_def)
next
  case (NegInt i)
  with assms(2) show ?thesis by (simp add: is_i64_def number_from_i64_def)
next
  case (FloatNum w)
  with assms show ?thesis by (simp add: is_i64_def number_law_def)
qed

lemma untag_array_map:
  "(\<And>v. v \<in> set vs \<Longrightarrow> untag_json cd (f v) = Inr v) \<Longrightarrow> untag_array cd (map f vs) = Inr vs"
  by (induction vs) auto

lemma untag_members_map:
  "(\<And>k v. (k, v) \<in> set ms \<Longrightarrow> untag_json cd (f v) = Inr v) \<Longrightarrow>
   untag_members cd (map (\<lambda>(k, v). (k, f v)) ms) = Inr ms"
proof (induction ms)
  case (Cons m ms)
  obtain k v where m: "m = (k, v)" by fastforce
  have "untag_json cd (f v) = Inr v" using Cons.prems[of k v] by (simp add: m)
  moreover have "untag_members cd (map (\<lambda>(k, v). (k, f v)) ms) = Inr ms" using Cons by auto
  ultimately show ?case by (simp add: m)
qed simp

lemma untag_tag: "number_law cd \<Longrightarrow> json_ok v \<Longrightarrow> untag_json cd (tag_json cd v) = Inr v"
proof (induction v)
  case (JNumber n)
  then show ?case using untag_tag_number by simp
next
  case (JArray vs)
  then show ?case by (simp add: untag_array_map list_all_iff)
next
  case (JObject ms)
  then have "untag_members cd (map (\<lambda>(k, v). (k, tag_json cd v)) ms) = Inr ms"
    by (intro untag_members_map) (fastforce simp: list_all_iff)
  with JObject.prems show ?case by simp
qed auto

text \<open>
  What the store relies on for one stored value: its tree is well formed, the text of the
  tagged tree reads back, and the tree reads back as the value.
\<close>

definition serde_ok :: "store_codec \<Rightarrow> ('a \<Rightarrow> json option) \<Rightarrow> (json \<Rightarrow> 'a option) \<Rightarrow> 'a \<Rightarrow> bool" where
  "serde_ok cd to_value from_value x \<longleftrightarrow>
     (\<forall>v. to_value x = Some v \<longrightarrow> json_ok v \<and> from_value v = Some x
        \<and> (\<forall>bytes. to_vec cd (tag_json cd v) = Some bytes \<longrightarrow> from_slice cd bytes = Some (tag_json cd v)))"

lemma decode_encode_tagged:
  assumes "number_law cd" "serde_ok cd to_value from_value x" "encode_tagged cd (to_value x) = Inr bytes"
  shows "decode_tagged cd from_value bytes = Inr x" "length bytes \<le> max_sync_state_bytes"
  using assms untag_tag[OF assms(1)]
  by (auto simp: encode_tagged_def decode_tagged_def serde_ok_def rbind_Inr ok_or_Inr split: if_splits)

end
