(* ===== verification/Native_Codec.thy ===== *)
theory Native_Codec
  imports Native_Queue Store_Codec Http_Codec
begin

text \<open>
  The bridge between JSON values and the canonical value profile
  (\<open>crates/surrealdb-rn-core/src/sync_codec.rs\<close> and \<open>sync_http_codec.rs\<close>): the
  fingerprint and the validation of everything the client stores, and the conversion of
  decoded server messages to JSON.  A record ID of the database is a table and a key whose
  parts are values again; every other scalar type of the database library is the type
  variable \<open>'y\<close>.  The CBOR library, SHA-256 and the texts of the database library are
  parameters.
\<close>

section \<open>Record identifiers of the database\<close>

datatype 'x record_id_key =
    KeyNumber i64
  | KeyString string
  | KeyUuid 'x
  | KeyArray "'x surreal_value list"
  | KeyObject "(string \<times> 'x surreal_value) list"
  | KeyRange 'x

datatype 'y native_scalar = NativeRecord string "'y native_scalar record_id_key" | NativeScalar 'y

type_synonym 'y native_value = "'y native_scalar surreal_value"
type_synonym 'y native_lib = "'y native_scalar surreal_lib"

definition collect_map :: "('k \<times> 'v) list \<Rightarrow> ('k, 'v) fmap" where
  "collect_map kvs = fold (\<lambda>(k, v). fmupd k v) kvs fmempty"

section \<open>From the database to the canonical profile\<close>

function from_surreal :: "'y native_value \<Rightarrow> unit + canonical_value"
  and from_surreal_list :: "'y native_value list \<Rightarrow> unit + canonical_value list"
  and from_surreal_members :: "(string \<times> 'y native_value) list \<Rightarrow> unit + (string \<times> canonical_value) list"
  and record_key :: "'y native_scalar record_id_key \<Rightarrow> unit + canonical_value" where
  "from_surreal SNone = Inr VNone"
| "from_surreal SNull = Inr VNull"
| "from_surreal (SBool b) = Inr (VBool b)"
| "from_surreal (SInt n) = Inr (VInt n)"
| "from_surreal (SFloat w) = (case canonical_float_new w of Inl _ \<Rightarrow> Inl () | Inr f \<Rightarrow> Inr (VFloat f))"
| "from_surreal (SDecimal x) = Inl ()"
| "from_surreal (SString s) = Inr (VString s)"
| "from_surreal (SBytes bs) = Inr (VBytes bs)"
| "from_surreal (SArray vs) = rbind (from_surreal_list vs) (\<lambda>xs. Inr (VArray xs))"
| "from_surreal (SObject ms) = rbind (from_surreal_members ms) (\<lambda>xs. Inr (VObject (collect_map xs)))"
| "from_surreal (SRecordId (NativeRecord table key)) = rbind (record_key key) (\<lambda>k. Inr (VRecordId table k))"
| "from_surreal (SRecordId (NativeScalar x)) = Inl ()"
| "from_surreal (SDuration x) = Inl ()"
| "from_surreal (SDatetime x) = Inl ()"
| "from_surreal (SUuid x) = Inl ()"
| "from_surreal (SGeometry x) = Inl ()"
| "from_surreal (STable t) = Inl ()"
| "from_surreal (SFile x) = Inl ()"
| "from_surreal (SRange x) = Inl ()"
| "from_surreal (SRegex x) = Inl ()"
| "from_surreal (SSet vs) = Inl ()"
| "from_surreal_list [] = Inr []"
| "from_surreal_list (v # vs) =
     rbind (from_surreal v) (\<lambda>x. rbind (from_surreal_list vs) (\<lambda>xs. Inr (x # xs)))"
| "from_surreal_members [] = Inr []"
| "from_surreal_members ((k, v) # ms) =
     rbind (from_surreal v) (\<lambda>x. rbind (from_surreal_members ms) (\<lambda>xs. Inr ((k, x) # xs)))"
| "record_key (KeyNumber n) = Inr (VInt n)"
| "record_key (KeyString s) = Inr (VString s)"
| "record_key (KeyArray vs) = rbind (from_surreal_list vs) (\<lambda>xs. Inr (VArray xs))"
| "record_key (KeyObject ms) = rbind (from_surreal_members ms) (\<lambda>xs. Inr (VObject (collect_map xs)))"
| "record_key (KeyUuid x) = Inl ()"
| "record_key (KeyRange x) = Inl ()"
  by pat_completeness auto
termination
  by (relation "measure (\<lambda>p. case p of
        Inl (Inl v) \<Rightarrow> size_surreal_value size v
      | Inl (Inr vs) \<Rightarrow> size_list (size_surreal_value size) vs
      | Inr (Inl ms) \<Rightarrow> size_list (size_prod (\<lambda>_. 0) (size_surreal_value size)) ms
      | Inr (Inr k) \<Rightarrow> size_record_id_key size k)") auto

definition canonical_json :: "'y native_lib \<Rightarrow> json \<Rightarrow> native_sync_error + canonical_value" where
  "canonical_json lib value =
     (case from_wire_value lib value of
        Inl _ \<Rightarrow> Inl InvalidInput
      | Inr v \<Rightarrow> (case from_surreal v of Inl _ \<Rightarrow> Inl InvalidInput | Inr c \<Rightarrow> Inr c))"

fun canonical_operation :: "'y native_lib \<Rightarrow> json operation \<Rightarrow> native_sync_error + canonical_value operation" where
  "canonical_operation lib (Upsert r b v ref) = rbind (canonical_json lib v) (\<lambda>c. Inr (Upsert r b c ref))"
| "canonical_operation lib (Delete r b) = Inr (Delete r b)"

section \<open>Fingerprints and validation\<close>

text \<open>The libraries: the database's texts, the CBOR writer and the hash.\<close>

record 'y bridge =
  br_lib :: "'y native_lib"
  br_ser :: serializer
  br_sha256 :: "byte list \<Rightarrow> byte list"

definition canonical_fingerprint ::
  "'y bridge \<Rightarrow> stored_sync_state \<Rightarrow> json client_commit \<Rightarrow> native_sync_error + fingerprint" where
  "canonical_fingerprint br state commit =
     rbind (try_map (canonical_operation (br_lib br)) (operations commit)) (\<lambda>ops.
     case fingerprint_commit (br_ser br) (br_sha256 br) (partition_id state) (client_id state)
            (commit_id_of commit) ops of
       Inl _ \<Rightarrow> Inl InvalidInput
     | Inr f \<Rightarrow> Inr f)"

fun validate_record_state :: "'y bridge \<Rightarrow> json record_state \<Rightarrow> native_sync_error + unit" where
  "validate_record_state br (Present v n ref) =
     rbind (canonical_json (br_lib br) v) (\<lambda>c.
     case canonical_cbor (br_ser br) c of Inl _ \<Rightarrow> Inl InvalidInput | Inr _ \<Rightarrow> Inr ())"
| "validate_record_state br Absent = Inr ()"
| "validate_record_state br (Tombstone n) = Inr ()"

definition validate_commit_identity ::
  "'y bridge \<Rightarrow> stored_sync_state \<Rightarrow> json client_commit \<Rightarrow> native_sync_error + unit" where
  "validate_commit_identity br state commit =
     rbind (canonical_fingerprint br state commit) (\<lambda>f.
     if f \<noteq> fingerprint (identity commit) then Inl Protocol else Inr ())"

fun validate_push_response_values :: "'y bridge \<Rightarrow> json durable_outcome \<Rightarrow> native_sync_error + unit" where
  "validate_push_response_values br (Conflict i r authoritative) = validate_record_state br authoritative"
| "validate_push_response_values br (Accepted i n ms) = Inr ()"
| "validate_push_response_values br (Rejected i reason) = Inr ()"

definition validate_state_codec :: "'y bridge \<Rightarrow> stored_sync_state \<Rightarrow> native_sync_error + unit" where
  "validate_state_codec br state =
     rbind (for_each (\<lambda>(k, row). rbind (canonical_json (br_lib br) (row_value row)) (\<lambda>_. Inr ()))
              (entries (subscription_records state))) (\<lambda>_.
     rbind (for_each (\<lambda>(k, r). validate_record_state br r) (entries (confirmed state))) (\<lambda>_.
     rbind (for_each (validate_commit_identity br state) (outbox state)) (\<lambda>_.
     for_each (\<lambda>resolved.
       rbind (canonical_fingerprint br state (local_commit resolved)) (\<lambda>_.
       validate_push_response_values br (outcome resolved))) (outcomes state))))"

fun validate_pull_frame :: "'y bridge \<Rightarrow> json pull_frame \<Rightarrow> native_sync_error + unit" where
  "validate_pull_frame br (Commit cp c) = for_each (\<lambda>r. validate_record_state br (ar_state r)) (pc_records c)"
| "validate_pull_frame br (Start cp) = Inr ()"
| "validate_pull_frame br (End cp) = Inr ()"

fun validate_pull_response_values :: "'y bridge \<Rightarrow> json pull_response \<Rightarrow> native_sync_error + unit" where
  "validate_pull_response_values br (Batch b) = for_each (validate_pull_frame br) (frames b)"
| "validate_pull_response_values br (Reset s) =
     for_each (\<lambda>r. validate_record_state br (sr_state r)) (rs_records s)"

section \<open>From the canonical profile to JSON\<close>

definition try_members :: "(string \<times> ('e + 'a)) list \<Rightarrow> 'e + (string \<times> 'a) list" where
  "try_members kvs = try_map (\<lambda>(k, r). rbind r (\<lambda>x. Inr (k, x))) kvs"

text \<open>A key of a record ID, given the key as a canonical value and as a database value.\<close>

fun canonical_record_key ::
  "canonical_value \<Rightarrow> native_sync_error + 'y native_value \<Rightarrow> native_sync_error + 'y native_scalar record_id_key" where
  "canonical_record_key (VInt n) r = Inr (KeyNumber n)"
| "canonical_record_key (VString s) r = Inr (KeyString s)"
| "canonical_record_key (VArray _) r =
     rbind r (\<lambda>v. case v of SArray xs \<Rightarrow> Inr (KeyArray xs) | _ \<Rightarrow> Inl Protocol)"
| "canonical_record_key (VObject _) r =
     rbind r (\<lambda>v. case v of SObject ms \<Rightarrow> Inr (KeyObject ms) | _ \<Rightarrow> Inl Protocol)"
| "canonical_record_key _ r = Inl Protocol"

primrec canonical_to_surreal :: "canonical_value \<Rightarrow> native_sync_error + 'y native_value" where
  "canonical_to_surreal VNone = Inr SNone"
| "canonical_to_surreal VNull = Inr SNull"
| "canonical_to_surreal (VBool b) = Inr (SBool b)"
| "canonical_to_surreal (VInt n) = Inr (SInt n)"
| "canonical_to_surreal (VFloat f) = Inr (SFloat (canonical_float_get f))"
| "canonical_to_surreal (VString s) = Inr (SString s)"
| "canonical_to_surreal (VBytes bs) = Inr (SBytes bs)"
| "canonical_to_surreal (VArray vs) =
     rbind (try_map (\<lambda>r. r) (map canonical_to_surreal vs)) (\<lambda>xs. Inr (SArray xs))"
| "canonical_to_surreal (VObject m) =
     rbind (try_members (entries (fmmap canonical_to_surreal m))) (\<lambda>ms. Inr (SObject ms))"
| "canonical_to_surreal (VRecordId table key) =
     rbind (canonical_record_key key (canonical_to_surreal key)) (\<lambda>k. Inr (SRecordId (NativeRecord table k)))"

definition record_to_json :: "'y native_lib \<Rightarrow> string \<Rightarrow> canonical_value \<Rightarrow> native_sync_error + json" where
  "record_to_json lib table key =
     rbind (canonical_record_key key (canonical_to_surreal key)) (\<lambda>k.
     let tagged = tagged_value ''record'' (record_sql lib (NativeRecord table k)) in
     case canonical_json lib tagged of
       Inl _ \<Rightarrow> Inl Protocol
     | Inr c \<Rightarrow> if c \<noteq> VRecordId table key then Inl Protocol else Inr tagged)"

primrec canonical_to_json :: "canonical_value \<Rightarrow> 'y native_lib \<Rightarrow> native_sync_error + json" where
  "canonical_to_json VNone = (\<lambda>lib. Inr (json_object [(wire_tag, JString ''none'')]))"
| "canonical_to_json VNull = (\<lambda>lib. Inr JNull)"
| "canonical_to_json (VBool b) = (\<lambda>lib. Inr (JBool b))"
| "canonical_to_json (VInt n) = (\<lambda>lib. Inr (tagged_value ''int'' (i64_text n)))"
| "canonical_to_json (VFloat f) = (\<lambda>lib.
     if is_finite_bits (canonical_float_get f) then Inr (JNumber (FloatNum (canonical_float_get f)))
     else Inl Protocol)"
| "canonical_to_json (VString s) = (\<lambda>lib. Inr (JString s))"
| "canonical_to_json (VBytes bs) = (\<lambda>lib.
     Inr (json_object [(wire_tag, JString ''bytes''), (''base64'', JString (base64_encode lib bs))]))"
| "canonical_to_json (VArray vs) = (\<lambda>lib.
     rbind (try_map (\<lambda>f. f lib) (map canonical_to_json vs)) (\<lambda>js. Inr (JArray js)))"
| "canonical_to_json (VObject m) = (\<lambda>lib.
     if contains_key m wire_tag then Inl Protocol
     else rbind (try_members (map (\<lambda>(k, f). (k, f lib)) (entries (fmmap canonical_to_json m))))
            (\<lambda>ms. Inr (JObject (members_of ms))))"
| "canonical_to_json (VRecordId table key) = (\<lambda>lib. record_to_json lib table key)"

fun record_state_to_json :: "'y native_lib \<Rightarrow> canonical_value record_state \<Rightarrow> native_sync_error + json record_state" where
  "record_state_to_json lib Absent = Inr Absent"
| "record_state_to_json lib (Present v n ref) = rbind (canonical_to_json v lib) (\<lambda>j. Inr (Present j n ref))"
| "record_state_to_json lib (Tombstone n) = Inr (Tombstone n)"

fun outcome_to_json :: "'y native_lib \<Rightarrow> canonical_value durable_outcome \<Rightarrow> native_sync_error + json durable_outcome" where
  "outcome_to_json lib (Accepted i n ms) = Inr (Accepted i n ms)"
| "outcome_to_json lib (Conflict i r a) = rbind (record_state_to_json lib a) (\<lambda>s. Inr (Conflict i r s))"
| "outcome_to_json lib (Rejected i reason) = Inr (Rejected i reason)"

definition push_response_to_json ::
  "'y native_lib \<Rightarrow> canonical_value push_response \<Rightarrow> native_sync_error + json push_response" where
  "push_response_to_json lib response =
     rbind (outcome_to_json lib (ps_outcome response)) (\<lambda>oc.
     Inr \<lparr>ps_schema_version = ps_schema_version response, ps_partition_id = ps_partition_id response,
          ps_client_id = ps_client_id response, ps_outcome = oc\<rparr>)"

definition applied_to_json ::
  "'y native_lib \<Rightarrow> canonical_value applied_record \<Rightarrow> native_sync_error + json applied_record" where
  "applied_to_json lib r =
     rbind (record_state_to_json lib (ar_state r)) (\<lambda>s. Inr \<lparr>ar_record_id = ar_record_id r, ar_state = s\<rparr>)"

definition snapshot_record_to_json ::
  "'y native_lib \<Rightarrow> canonical_value snapshot_record \<Rightarrow> native_sync_error + json snapshot_record" where
  "snapshot_record_to_json lib r =
     rbind (record_state_to_json lib (sr_state r)) (\<lambda>s. Inr \<lparr>sr_record_id = sr_record_id r, sr_state = s\<rparr>)"

fun pull_frame_to_json :: "'y native_lib \<Rightarrow> canonical_value pull_frame \<Rightarrow> native_sync_error + json pull_frame" where
  "pull_frame_to_json lib (Start cp) = Inr (Start cp)"
| "pull_frame_to_json lib (Commit cp c) =
     rbind (try_map (applied_to_json lib) (pc_records c)) (\<lambda>rs.
     Inr (Commit cp \<lparr>pc_sequence = pc_sequence c, pc_source = pc_source c, pc_records = rs\<rparr>))"
| "pull_frame_to_json lib (End cp) = Inr (End cp)"

fun pull_response_to_json ::
  "'y native_lib \<Rightarrow> canonical_value pull_response \<Rightarrow> native_sync_error + json pull_response" where
  "pull_response_to_json lib (Batch b) =
     rbind (try_map (pull_frame_to_json lib) (frames b)) (\<lambda>fs. Inr (Batch \<lparr>frames = fs\<rparr>))"
| "pull_response_to_json lib (Reset s) =
     rbind (try_map (snapshot_record_to_json lib) (rs_records s)) (\<lambda>rs.
     Inr (Reset \<lparr>rs_reason = rs_reason s, rs_checkpoint = rs_checkpoint s, rs_records = rs\<rparr>))"

section \<open>The exported message codecs\<close>

definition encode_sync_push_request ::
  "'y bridge \<Rightarrow> (string \<Rightarrow> json client_commit option) \<Rightarrow> string \<Rightarrow> string \<Rightarrow> string \<Rightarrow>
   native_sync_error + byte list" where
  "encode_sync_push_request br from_str part_id cl_id commit_json =
     rbind (ok_or InvalidInput (from_str commit_json)) (\<lambda>commit.
     rbind (try_map (canonical_operation (br_lib br)) (operations commit)) (\<lambda>ops.
     case encode_push_request (br_ser br)
            \<lparr>pq_schema_version = V1, pq_partition_id = PartitionId part_id, pq_client_id = ClientId cl_id,
             pq_commit = \<lparr>identity = identity commit, operations = ops\<rparr>\<rparr> of
       Inl _ \<Rightarrow> Inl InvalidInput
     | Inr bytes \<Rightarrow> Inr bytes))"

definition decode_sync_push_response ::
  "'y bridge \<Rightarrow> deserializer \<Rightarrow> (json push_response \<Rightarrow> string option) \<Rightarrow> byte list \<Rightarrow> native_sync_error + string" where
  "decode_sync_push_response br de to_string bytes =
     (case decode_push_response (br_ser br) de bytes of
        Inl _ \<Rightarrow> Inl Protocol
      | Inr response \<Rightarrow>
          rbind (push_response_to_json (br_lib br) response) (\<lambda>r. ok_or Internal (to_string r)))"

definition encode_sync_pull_request ::
  "'y bridge \<Rightarrow> string \<Rightarrow> string \<Rightarrow> string option \<Rightarrow> string \<Rightarrow> u64 \<Rightarrow> native_sync_error + byte list" where
  "encode_sync_pull_request br part_id cl_id cp requested subscription =
     (case encode_pull_request (br_ser br)
             \<lparr>pl_schema_version = V1, pl_partition_id = PartitionId part_id, pl_client_id = ClientId cl_id,
              pl_checkpoint = map_option OpaqueCheckpoint cp, pl_requested_scope = ScopeIdentity requested,
              pl_subscription_revision = subscription\<rparr> of
        Inl _ \<Rightarrow> Inl InvalidInput
      | Inr bytes \<Rightarrow> Inr bytes)"

definition decode_sync_pull_response ::
  "'y bridge \<Rightarrow> deserializer \<Rightarrow> (json pull_response \<Rightarrow> string option) \<Rightarrow> byte list \<Rightarrow> native_sync_error + string" where
  "decode_sync_pull_response br de to_string bytes =
     (case decode_pull_response (br_ser br) de bytes of
        Inl _ \<Rightarrow> Inl Protocol
      | Inr response \<Rightarrow>
          rbind (pull_response_to_json (br_lib br) response) (\<lambda>r. ok_or Internal (to_string r)))"

end
