(* ===== verification/Subscription_Codec.thy ===== *)
theory Subscription_Codec
  imports Reference_Cbor Subscription_Types
begin

text \<open>
  The CBOR envelopes of the subscription protocol
  (\<open>crates/surrealdb-sync-protocol/src/subscription_codec.rs\<close>).  The item a message type
  serializes to and is read back from is derived by \<open>serde\<close>: for each message the fields of
  \<open>subscription_serde\<close>.  The CBOR library and SHA-256 are parameters as in \<open>Canonical_Codec\<close>.
\<close>

definition subscription_protocol :: string where "subscription_protocol = ''surrealdb-subscription/1''"
definition max_subscription_bytes :: usize where "max_subscription_bytes = 262144"

record equality_predicate =
  ep_field :: string
  ep_parameter :: string
  ep_kind :: scalar_kind

record trusted_query_definition =
  tq_definition_id :: string
  tq_predicates :: "equality_predicate list"
  tq_order_field :: string
  tq_order_kind :: scalar_kind
  tq_direction :: sort_direction
  tq_max_limit :: u16

section \<open>Deterministic items\<close>

definition encoded_le :: "byte list \<times> 'a \<Rightarrow> byte list \<times> 'a \<Rightarrow> bool" where
  "encoded_le a b = (length (fst a) < length (fst b)
     \<or> length (fst a) = length (fst b) \<and> map unat (fst a) \<le> map unat (fst b))"

fun sorted_item :: "serializer \<Rightarrow> cbor \<Rightarrow> codec_error + cbor"
  and sorted_items :: "serializer \<Rightarrow> cbor list \<Rightarrow> codec_error + cbor list"
  and sorted_pairs :: "serializer \<Rightarrow> (cbor \<times> cbor) list \<Rightarrow> codec_error + (byte list \<times> cbor \<times> cbor) list" where
  "sorted_item ser (CArray vs) = rbind (sorted_items ser vs) (\<lambda>ws. Inr (CArray ws))"
| "sorted_item ser (CMap kvs) =
     rbind (sorted_pairs ser kvs) (\<lambda>es. Inr (CMap (map snd (sort_by encoded_le es))))"
| "sorted_item ser v = Inr v"
| "sorted_items ser [] = Inr []"
| "sorted_items ser (v # vs) = rbind (sorted_item ser v) (\<lambda>w. rbind (sorted_items ser vs) (\<lambda>ws. Inr (w # ws)))"
| "sorted_pairs ser [] = Inr []"
| "sorted_pairs ser ((k, v) # kvs) =
     rbind (encode_cbor_value ser k) (\<lambda>bytes.
     rbind (sorted_item ser v) (\<lambda>w.
     rbind (sorted_pairs ser kvs) (\<lambda>es. Inr ((bytes, k, w) # es))))"

section \<open>Messages\<close>

record subscription_serde =
  request_item :: "subscription_request \<Rightarrow> cbor option"
  item_request :: "cbor \<Rightarrow> subscription_request option"
  response_item :: "cbor subscription_response \<Rightarrow> cbor option"
  item_response :: "cbor \<Rightarrow> cbor subscription_response option"
  plan_item :: "subscription_request \<Rightarrow> trusted_query_definition \<Rightarrow> cbor option"

definition encode_subscription :: "serializer \<Rightarrow> string \<Rightarrow> cbor option \<Rightarrow> codec_error + byte list" where
  "encode_subscription ser kind item =
     rbind (ok_or Encode item) (\<lambda>value.
     rbind (sorted_item ser (CArray [CText subscription_protocol, CText kind, value])) (\<lambda>envelope.
     rbind (encode_cbor_value ser envelope) (\<lambda>bytes.
     if len bytes > max_subscription_bytes then Inl EncodedLimit
     else rbind (preflight_canonical_cbor bytes) (\<lambda>_. Inr bytes))))"

definition decode_subscription ::
  "deserializer \<Rightarrow> (cbor \<Rightarrow> 'm option) \<Rightarrow> string \<Rightarrow> byte list \<Rightarrow> codec_error + 'm" where
  "decode_subscription de from_item kind bytes =
     (if len bytes > max_subscription_bytes then Inl EncodedLimit
      else rbind (preflight_canonical_cbor bytes) (\<lambda>_.
      rbind (ok_or Decode (de bytes)) (\<lambda>(value, position).
      if position \<noteq> length bytes then Inl TrailingBytes
      else case value of
        CArray [protocol, k, payload] \<Rightarrow>
          if protocol \<noteq> CText subscription_protocol \<or> k \<noteq> CText kind then Inl InvalidEnvelope
          else ok_or InvalidEnvelope (from_item payload)
      | _ \<Rightarrow> Inl InvalidEnvelope)))"

definition encode_subscription_request ::
  "serializer \<Rightarrow> subscription_serde \<Rightarrow> subscription_request \<Rightarrow> codec_error + byte list" where
  "encode_subscription_request ser sd request =
     (if \<not> validate_subscription_request request then Inl InvalidEnvelope
      else encode_subscription ser ''request'' (request_item sd request))"

definition decode_subscription_request ::
  "serializer \<Rightarrow> deserializer \<Rightarrow> subscription_serde \<Rightarrow> byte list \<Rightarrow> codec_error + subscription_request" where
  "decode_subscription_request ser de sd bytes =
     rbind (decode_subscription de (item_request sd) ''request'' bytes) (\<lambda>request.
     rbind (encode_subscription_request ser sd request) (\<lambda>encoded.
     if encoded \<noteq> bytes then Inl NonCanonical else Inr request))"

fun map_change :: "('a \<Rightarrow> 'e + 'b) \<Rightarrow> 'a membership_change \<Rightarrow> 'e + 'b membership_change" where
  "map_change f (MUpsert row) =
     rbind (f (row_value row)) (\<lambda>v. Inr (MUpsert \<lparr>row_record_id = row_record_id row, row_value = v,
       row_version = row_version row, sort_key = sort_key row\<rparr>))"
| "map_change f (MLeave r) = Inr (MLeave r)"
| "map_change f (MDelete r n) = Inr (MDelete r n)"

definition map_response :: "('a \<Rightarrow> 'e + 'b) \<Rightarrow> 'a subscription_response \<Rightarrow> 'e + 'b subscription_response" where
  "map_response f response =
     rbind (try_map (map_change f) (sp_changes response)) (\<lambda>changes.
     Inr \<lparr>sp_partition_id = sp_partition_id response, sp_client_id = sp_client_id response,
          sp_subscription_id = sp_subscription_id response, sp_generation = sp_generation response,
          sp_plan_fingerprint = sp_plan_fingerprint response, sp_scope = sp_scope response,
          sp_frontier = sp_frontier response, sp_view_revision = sp_view_revision response,
          sp_coverage = sp_coverage response, sp_response = sp_response response, sp_token = sp_token response,
          sp_ordered_ids = sp_ordered_ids response, sp_changes = changes\<rparr>)"

definition encode_subscription_response ::
  "serializer \<Rightarrow> subscription_serde \<Rightarrow> canonical_value subscription_response \<Rightarrow> codec_error + byte list" where
  "encode_subscription_response ser sd response =
     (if \<not> validate_subscription_response response then Inl ContainerLimit
      else rbind (map_response to_cbor response) (\<lambda>r. encode_subscription ser ''response'' (response_item sd r)))"

definition decode_subscription_response ::
  "serializer \<Rightarrow> deserializer \<Rightarrow> subscription_serde \<Rightarrow> byte list \<Rightarrow>
   codec_error + canonical_value subscription_response" where
  "decode_subscription_response ser de sd bytes =
     rbind (decode_subscription de (item_response sd) ''response'' bytes) (\<lambda>raw.
     rbind (map_response from_cbor raw) (\<lambda>response.
     rbind (encode_subscription_response ser sd response) (\<lambda>encoded.
     if encoded \<noteq> bytes then Inl NonCanonical else Inr response)))"

definition subscription_plan_fingerprint ::
  "serializer \<Rightarrow> (byte list \<Rightarrow> byte list) \<Rightarrow> subscription_serde \<Rightarrow> subscription_request \<Rightarrow>
   trusted_query_definition \<Rightarrow> codec_error + string" where
  "subscription_plan_fingerprint ser sha256 sd request query =
     rbind (encode_subscription ser ''plan'' (plan_item sd request query)) (\<lambda>bytes.
     Inr (''sha256:'' @ concat (map hex_byte
       (sha256 (map (\<lambda>c. of_nat (of_char c)) ''surrealdb-subscription-plan/1'' @ [0] @ bytes)))))"

section \<open>Round trips\<close>

definition shallow :: "nat \<Rightarrow> cbor \<Rightarrow> bool" where
  "shallow n c \<longleftrightarrow> representable c \<and> cbor_depth c \<le> n"

lemma shallow_array: "shallow (Suc n) (CArray cs) \<longleftrightarrow> (\<forall>c \<in> set cs. shallow n c) \<and> len cs < 2 ^ 64"
  by (auto simp: shallow_def)

lemma shallow_map:
  "shallow (Suc n) (CMap es) \<longleftrightarrow> (\<forall>(k, v) \<in> set es. shallow n k \<and> shallow n v) \<and> len es < 2 ^ 64"
  by (auto simp: shallow_def)

lemma shallow_0: "\<not> shallow 0 (CArray cs)" "\<not> shallow 0 (CMap es)"
  by (simp_all add: shallow_def cbor_depth.simps)

lemma sorted_item_shallow:
  "sorted_item ser c = Inr w \<Longrightarrow> shallow n c \<Longrightarrow> shallow n w"
  "sorted_items ser cs = Inr ws \<Longrightarrow> \<forall>c \<in> set cs. shallow n c \<Longrightarrow> length ws = length cs \<and> (\<forall>w \<in> set ws. shallow n w)"
  "sorted_pairs ser kvs = Inr es \<Longrightarrow> \<forall>(k, v) \<in> set kvs. shallow n k \<and> shallow n v \<Longrightarrow>
     length es = length kvs \<and> (\<forall>(b, k, v) \<in> set es. shallow n k \<and> shallow n v)"
proof (induction ser c and ser cs and ser kvs arbitrary: w n and ws n and es n
    rule: sorted_item_sorted_items_sorted_pairs.induct)
  case (1 ser vs)
  then obtain ws where "sorted_items ser vs = Inr ws" "w = CArray ws" by (auto simp: rbind_Inr)
  with 1 show ?case by (cases n) (auto simp: shallow_0 shallow_array)
next
  case (2 ser kvs)
  then obtain es where es: "sorted_pairs ser kvs = Inr es" "w = CMap (map snd (sort_by encoded_le es))"
    by (auto simp: rbind_Inr)
  obtain k where n: "n = Suc k" using 2(3) by (cases n) (auto simp: shallow_0)
  have "length es = length kvs \<and> (\<forall>(b, a, v) \<in> set es. shallow k a \<and> shallow k v)"
    using 2(1)[OF es(1), of k] 2(3) by (simp add: n shallow_map)
  moreover have "length (sort_by encoded_le es) = length es" by (metis mset_sort_by size_mset)
  ultimately show ?case using 2(3) by (auto simp: es(2) n shallow_map)
next
  case (5 ser v vs)
  then obtain w ws' where w: "sorted_item ser v = Inr w" "sorted_items ser vs = Inr ws'" "ws = w # ws'"
    by (auto simp: rbind_Inr)
  with 5(1)[OF w(1)] 5(2)[OF w(2)] 5(4) show ?case by fastforce
next
  case (7 ser k v kvs)
  then obtain b w es' where w: "encode_cbor_value ser k = Inr b" "sorted_item ser v = Inr w"
    "sorted_pairs ser kvs = Inr es'" "es = (b, k, w) # es'"
    by (auto simp: rbind_Inr)
  with 7(1)[OF w(2)] 7(2)[OF w(3)] 7(4) show ?case by fastforce
qed simp_all

lemma encoded_envelope:
  assumes "encode_subscription ser kind (Some c) = Inr bytes"
  obtains w where "sorted_item ser c = Inr w"
    "encode_cbor_value ser (CArray [CText subscription_protocol, CText kind, w]) = Inr bytes"
    "len bytes \<le> max_subscription_bytes" "preflight_canonical_cbor bytes = Inr ()"
  using assms by (auto simp: encode_subscription_def rbind_Inr split: if_splits)

lemma decode_encoded:
  assumes "cbor_library ser de" "encode_subscription ser kind (Some c) = Inr bytes"
    and "shallow 127 c" "shallow 0 (CText kind)"
  shows "\<exists>w. sorted_item ser c = Inr w \<and> decode_subscription de from_item kind bytes = ok_or InvalidEnvelope (from_item w)"
proof -
  from encoded_envelope[OF assms(2)] obtain w where w: "sorted_item ser c = Inr w"
    "encode_cbor_value ser (CArray [CText subscription_protocol, CText kind, w]) = Inr bytes"
    "len bytes \<le> max_subscription_bytes" "preflight_canonical_cbor bytes = Inr ()" by blast
  have "shallow 127 w" by (rule sorted_item_shallow(1)[OF w(1) assms(3)])
  moreover have "shallow 0 (CText subscription_protocol)" by code_simp
  ultimately have "shallow (Suc 127) (CArray [CText subscription_protocol, CText kind, w])"
    using assms(4) unfolding shallow_array by (auto simp: shallow_def)
  then have "de bytes = Some (CArray [CText subscription_protocol, CText kind, w], length bytes)"
    using cbor_library.decode_written[OF assms(1) w(2)] by (simp add: shallow_def)
  then show ?thesis using w by (auto simp: decode_subscription_def)
qed

lemma map_change_inverse:
  assumes "map_change to_cbor ch = Inr ch'"
    and "\<And>row. ch = MUpsert row \<Longrightarrow> well_typed (row_value row) \<and> validate_value (row_value row) = Inr ()"
  shows "map_change from_cbor ch' = Inr ch"
proof (cases ch)
  case (MUpsert row)
  with assms(1) obtain x where x: "to_cbor (row_value row) = Inr x"
    "ch' = MUpsert \<lparr>row_record_id = row_record_id row, row_value = x, row_version = row_version row,
       sort_key = sort_key row\<rparr>"
    by (auto simp: rbind_Inr)
  have "from_cbor x = Inr (row_value row)"
    using to_cbor_from_cbor[OF x(1)] validate_value_validated assms(2)[OF MUpsert] by blast
  then show ?thesis by (simp add: x(2) MUpsert)
qed (use assms(1) in auto)

definition values_ok :: "canonical_value subscription_response \<Rightarrow> bool" where
  "values_ok r \<longleftrightarrow> (\<forall>row. MUpsert row \<in> set (sp_changes r) \<longrightarrow>
     well_typed (row_value row) \<and> validate_value (row_value row) = Inr ())"

lemma map_response_inverse:
  assumes "map_response to_cbor r = Inr r'" "values_ok r"
  shows "map_response from_cbor r' = Inr r"
proof -
  from assms(1) obtain cs where cs: "list_all2 (\<lambda>x y. map_change to_cbor x = Inr y) (sp_changes r) cs"
    and r': "r' = \<lparr>sp_partition_id = sp_partition_id r, sp_client_id = sp_client_id r,
          sp_subscription_id = sp_subscription_id r, sp_generation = sp_generation r,
          sp_plan_fingerprint = sp_plan_fingerprint r, sp_scope = sp_scope r,
          sp_frontier = sp_frontier r, sp_view_revision = sp_view_revision r,
          sp_coverage = sp_coverage r, sp_response = sp_response r, sp_token = sp_token r,
          sp_ordered_ids = sp_ordered_ids r, sp_changes = cs\<rparr>"
    by (auto simp: map_response_def rbind_Inr try_map_Inr)
  have "list_all2 (\<lambda>y x. map_change from_cbor y = Inr x) cs (sp_changes r)"
    unfolding list_all2_conv_all_nth
    using cs assms(2) map_change_inverse unfolding list_all2_conv_all_nth values_ok_def by (metis nth_mem)
  then show ?thesis by (simp add: map_response_def r' try_map_Inr[THEN iffD2])
qed

end
