(* ===== verification/Native_Subscription.thy ===== *)
theory Native_Subscription
  imports Native_Read Native_Codec Subscription_Codec Client_Subscriptions
begin

text \<open>
  Query subscriptions at the native boundary
  (\<open>crates/surrealdb-rn-core/src/sync_subscription.rs\<close>): the JSON form of requests and
  responses, in which 64-bit counters are decimal texts, and the bounded journal of frames
  per subscription.  The derived \<open>serde\<close> conversions and the JSON text are the fields of
  \<open>query_serde\<close>; the CBOR side is \<open>Subscription_Codec\<close>.
\<close>

definition max_query_bytes :: nat where "max_query_bytes = 1048576"
definition max_total_bytes :: nat where "max_total_bytes = 16777216"
definition max_query_output :: nat where "max_query_output = 16777216"

record query_serde =
  qs_text :: "json \<Rightarrow> string option"
  qs_parse :: "string \<Rightarrow> json option"
  qs_request_json :: "subscription_request \<Rightarrow> json option"
  qs_json_request :: "json \<Rightarrow> subscription_request option"
  qs_response_json :: "json subscription_response \<Rightarrow> json option"
  qs_json_response :: "json \<Rightarrow> json subscription_response option"
  qs_snapshot_json :: "json installed_subscription \<Rightarrow> json option"
  qs_cursor :: "string \<Rightarrow> (string \<times> string \<times> string) option"

definition faulting :: "native_sync_error + 'a \<Rightarrow> native_fault + 'a" where
  "faulting r = map_sum Fault (\<lambda>x. x) r"

section \<open>The wire form\<close>

definition unsigned_wire :: "bool \<Rightarrow> json \<Rightarrow> native_fault + json" where
  "unsigned_wire inp v =
     (if inp then
        rbind (ok_or (Fault InvalidInput) (as_str v)) (\<lambda>t.
        rbind (ok_or (Fault InvalidInput) (parse_u64 t)) (\<lambda>n.
        if u64_text n \<noteq> t then Inl (Fault InvalidInput) else Inr (JNumber (PosInt n))))
      else rbind (ok_or (Fault Internal) (as_u64 v)) (\<lambda>n. Inr (JString (u64_text n))))"

definition json_i64 :: "json \<Rightarrow> i64 option" where
  "json_i64 v = (case v of JNumber n \<Rightarrow> as_i64 n | _ \<Rightarrow> None)"

definition scalar_wire :: "bool \<Rightarrow> json \<Rightarrow> native_fault + json" where
  "scalar_wire inp v =
     (if member_at ''kind'' v = JString ''int'' then
        if inp then
          rbind (ok_or (Fault InvalidInput) (as_str (member_at ''value'' v))) (\<lambda>t.
          rbind (ok_or (Fault InvalidInput) (parse_i64 t)) (\<lambda>n.
          if i64_text n \<noteq> t then Inl (Fault InvalidInput)
          else edit_at ''value'' (\<lambda>_. Inr (JNumber (number_from_i64 n))) v))
        else
          rbind (ok_or (Fault Internal) (json_i64 (member_at ''value'' v))) (\<lambda>n.
          edit_at ''value'' (\<lambda>_. Inr (JString (i64_text n))) v)
      else Inr v)"

definition scope_wire :: "bool \<Rightarrow> json \<Rightarrow> native_fault + json" where
  "scope_wire inp v =
     rbind (edit_at ''authorizationRevision'' (unsigned_wire inp) v)
       (edit_at ''subscriptionRevision'' (unsigned_wire inp))"

definition query_frontier_wire :: "bool \<Rightarrow> json \<Rightarrow> native_fault + json" where
  "query_frontier_wire inp v =
     rbind (edit_at ''epoch'' (unsigned_wire inp) v) (edit_at ''sequence'' (unsigned_wire inp))"

definition request_wire :: "bool \<Rightarrow> json \<Rightarrow> native_fault + json" where
  "request_wire inp v =
     rbind (edit_at ''subscriptionRevision'' (unsigned_wire inp) v) (\<lambda>v.
     rbind (edit_at ''command'' (edit_at ''generation'' (unsigned_wire inp)) v) (\<lambda>v.
     edit_if (member_at ''kind'' (member_at ''command'' v) = JString ''start'')
       (edit_at ''command'' (edit_at ''parameters'' (edit_values InvalidInput (scalar_wire inp)))) v))"

definition query_row_wire :: "bool \<Rightarrow> json \<Rightarrow> native_fault + json" where
  "query_row_wire inp v =
     rbind (edit_at ''version'' (unsigned_wire inp) v) (edit_at ''sortKey'' (scalar_wire inp))"

definition query_change_wire :: "bool \<Rightarrow> json \<Rightarrow> native_fault + json" where
  "query_change_wire inp v =
     (if member_at ''kind'' v = JString ''upsert'' then edit_at ''row'' (query_row_wire inp) v
      else if member_at ''kind'' v = JString ''delete'' then edit_at ''version'' (unsigned_wire inp) v
      else Inr v)"

definition response_wire :: "bool \<Rightarrow> json \<Rightarrow> native_fault + json" where
  "response_wire inp v =
     rbind (edit_at ''generation'' (unsigned_wire inp) v) (\<lambda>v.
     rbind (edit_at ''viewRevision'' (unsigned_wire inp) v) (\<lambda>v.
     rbind (edit_at ''scope'' (scope_wire inp) v) (\<lambda>v.
     rbind (edit_at ''frontier'' (query_frontier_wire inp) v) (\<lambda>v.
     rbind (edit_if (member_at ''kind'' (member_at ''response'' v) = JString ''delta'')
              (edit_at ''response'' (edit_at ''beforeRevision'' (unsigned_wire inp))) v)
       (edit_at ''changes'' (edit_array InvalidInput (query_change_wire inp)))))))"

definition query_input :: "query_serde \<Rightarrow> string \<Rightarrow> native_sync_error + json" where
  "query_input qs t =
     (if length t > max_sync_state_bytes then Inl InvalidInput else ok_or InvalidInput (qs_parse qs t))"

definition query_output :: "query_serde \<Rightarrow> json \<Rightarrow> native_sync_error + string" where
  "query_output qs v =
     rbind (ok_or Internal (qs_text qs v)) (\<lambda>t.
     if length t > max_query_output then Inl ReadOutputTooLarge else Inr t)"

definition parse_request :: "query_serde \<Rightarrow> string \<Rightarrow> native_fault + subscription_request" where
  "parse_request qs t =
     rbind (faulting (query_input qs t)) (\<lambda>v.
     rbind (request_wire True v) (\<lambda>v.
     ok_or (Fault InvalidInput) (qs_json_request qs v)))"

definition convert_response ::
  "('a \<Rightarrow> native_sync_error + 'b) \<Rightarrow> 'a subscription_response \<Rightarrow> native_sync_error + 'b subscription_response" where
  "convert_response f response = map_response f response"

definition parse_response ::
  "query_serde \<Rightarrow> 'y bridge \<Rightarrow> subscription_serde \<Rightarrow> string \<Rightarrow> native_fault + json subscription_response" where
  "parse_response qs br sd t =
     rbind (faulting (query_input qs t)) (\<lambda>v.
     rbind (response_wire True v) (\<lambda>v.
     rbind (ok_or (Fault InvalidInput) (qs_json_response qs v)) (\<lambda>response.
     rbind (faulting (convert_response (canonical_json (br_lib br)) response)) (\<lambda>canonical.
     rbind (map_sum (\<lambda>_. Fault InvalidInput) (\<lambda>x. x) (encode_subscription_response (br_ser br) sd canonical)) (\<lambda>_.
     Inr response)))))"

definition encode_subscription_request_json ::
  "query_serde \<Rightarrow> 'y bridge \<Rightarrow> subscription_serde \<Rightarrow> string \<Rightarrow> native_fault + byte list" where
  "encode_subscription_request_json qs br sd t =
     rbind (parse_request qs t) (\<lambda>request.
     map_sum (\<lambda>_. Fault InvalidInput) (\<lambda>x. x) (encode_subscription_request (br_ser br) sd request))"

definition decode_subscription_response_json ::
  "query_serde \<Rightarrow> 'y bridge \<Rightarrow> deserializer \<Rightarrow> subscription_serde \<Rightarrow> byte list \<Rightarrow> native_fault + string" where
  "decode_subscription_response_json qs br de sd bytes =
     rbind (map_sum (\<lambda>_. Fault Protocol) (\<lambda>x. x) (decode_subscription_response (br_ser br) de sd bytes)) (\<lambda>response.
     rbind (faulting (convert_response (\<lambda>v. canonical_to_json v (br_lib br)) response)) (\<lambda>response.
     rbind (ok_or (Fault Internal) (qs_response_json qs response)) (\<lambda>v.
     rbind (response_wire False v) (\<lambda>v.
     faulting (query_output qs v)))))"

section \<open>Frames\<close>

definition request_json :: "query_serde \<Rightarrow> json client_runtime \<Rightarrow> string \<Rightarrow> native_fault + json" where
  "request_json qs rt i =
     (if \<not> valid_subscription_text i then Inl (Fault InvalidInput)
      else case subscription_request_for rt i of
        None \<Rightarrow> Inr JNull
      | Some request \<Rightarrow>
          rbind (ok_or (Fault Internal) (qs_request_json qs request)) (request_wire False))"

definition snapshot_frame :: "query_serde \<Rightarrow> json installed_subscription \<Rightarrow> native_fault + json" where
  "snapshot_frame qs snapshot =
     rbind (ok_or (Fault Internal) (qs_snapshot_json qs snapshot)) (\<lambda>v.
     rbind (edit_at ''metadata'' (edit_at ''revision'' (unsigned_wire False)) v) (\<lambda>v.
     rbind (edit_at ''metadata'' (edit_at ''generation'' (unsigned_wire False)) v) (\<lambda>v.
     rbind (edit_at ''metadata'' (edit_at ''viewRevision'' (unsigned_wire False)) v) (\<lambda>v.
     rbind (edit_at ''metadata'' (edit_at ''scope'' (scope_wire False)) v) (\<lambda>v.
     rbind (edit_at ''metadata'' (edit_at ''frontier'' (query_frontier_wire False)) v)
       (edit_at ''rows'' (edit_array Internal (query_row_wire False))))))))"

definition frame :: "query_serde \<Rightarrow> json client_runtime \<Rightarrow> string \<Rightarrow> native_fault + json" where
  "frame qs rt i =
     rbind (case subscription_snapshot rt i of None \<Rightarrow> Inr JNull | Some snapshot \<Rightarrow> snapshot_frame qs snapshot) (\<lambda>snapshot.
     let cancelled_text = Option.bind (subscriptions (rt_state rt)) (\<lambda>subs. map_option u64_text (fmlookup (cancelled subs) i)) in
     rbind (request_json qs rt i) (\<lambda>request.
     Inr (JObject (members_of [(''snapshot'', snapshot), (''request'', request),
       (''cancelledThrough'', case cancelled_text of None \<Rightarrow> JNull | Some t \<Rightarrow> JString t)]))))"

section \<open>The journal\<close>

record history =
  hi_batches :: "journal_batch list"
  hi_bytes :: nat

record subscription_journal =
  sj_epoch :: journal_epoch
  sj_histories :: "(string, history) fmap"

definition empty_history :: history where
  "empty_history = \<lparr>hi_batches = [], hi_bytes = 0\<rparr>"

definition new_subscription_journal :: "string \<Rightarrow> subscription_journal" where
  "new_subscription_journal prefix =
     \<lparr>sj_epoch = \<lparr>je_prefix = prefix, je_generation = 0\<rparr>, sj_histories = fmempty\<rparr>"

definition subscription_rotate :: "subscription_journal \<Rightarrow> native_sync_error + subscription_journal" where
  "subscription_rotate j =
     rbind (epoch_advance (sj_epoch j)) (\<lambda>e. Inr \<lparr>sj_epoch = e, sj_histories = fmempty\<rparr>)"

definition subscription_cursor :: "subscription_journal \<Rightarrow> string \<Rightarrow> u64 \<Rightarrow> json" where
  "subscription_cursor j i r =
     JObject (members_of [(''processEpoch'', JString (epoch_value (sj_epoch j))), (''subscriptionId'', JString i),
       (''revision'', JString (u64_text r))])"

definition subscription_bootstrap ::
  "query_serde \<Rightarrow> subscription_journal \<Rightarrow> json client_runtime \<Rightarrow> string \<Rightarrow> native_fault + json" where
  "subscription_bootstrap qs j rt i =
     (if \<not> valid_subscription_text i then Inl (Fault InvalidInput)
      else rbind (frame qs rt i)
        (edit_at ''cursor'' (\<lambda>_. Inr (subscription_cursor j i (revision (rt_state rt))))))"

definition encode_frame :: "query_serde \<Rightarrow> json client_runtime \<Rightarrow> u64 \<Rightarrow> string \<Rightarrow> native_fault + string" where
  "encode_frame qs rt before i =
     rbind (frame qs rt i) (\<lambda>v.
     rbind (edit_at ''beforeRevision'' (\<lambda>_. Inr (JString (u64_text before))) v) (\<lambda>v.
     rbind (edit_at ''revision'' (\<lambda>_. Inr (JString (u64_text (revision (rt_state rt))))) v) (\<lambda>v.
     faulting (query_output qs v))))"

definition history_record ::
  "query_serde \<Rightarrow> json client_runtime \<Rightarrow> u64 \<Rightarrow> string \<Rightarrow> history \<Rightarrow> native_fault + history" where
  "history_record qs rt before i h =
     (case encode_frame qs rt before i of
        Inl (Fault _) \<Rightarrow> Inr empty_history
      | Inl fault \<Rightarrow> Inl fault
      | Inr encoded \<Rightarrow>
          if length encoded > max_query_bytes then Inr empty_history
          else rbind (evict max_query_bytes (length encoded) (hi_batches h) (hi_bytes h)) (\<lambda>(kept, bytes).
            Inr \<lparr>hi_batches = kept @ [\<lparr>jb_before = before, jb_revision = revision (rt_state rt), jb_json = encoded\<rparr>],
                 hi_bytes = bytes + length encoded\<rparr>))"

fun record_ids ::
  "query_serde \<Rightarrow> json client_runtime \<Rightarrow> u64 \<Rightarrow> string list \<Rightarrow> (string, history) fmap \<Rightarrow>
   native_fault + (string, history) fmap" where
  "record_ids qs rt before [] hs = Inr hs"
| "record_ids qs rt before (i # is) hs =
     rbind (history_record qs rt before i (case fmlookup hs i of None \<Rightarrow> empty_history | Some h \<Rightarrow> h)) (\<lambda>h.
     record_ids qs rt before is (fmupd i h hs))"

definition total_bytes :: "(string, history) fmap \<Rightarrow> nat" where
  "total_bytes hs = sum_list (map (\<lambda>(i, h). hi_bytes h) (entries hs))"

definition front_revisions :: "(string, history) fmap \<Rightarrow> (string \<times> u64) list" where
  "front_revisions hs =
     List.map_filter (\<lambda>(i, h). case hi_batches h of [] \<Rightarrow> None | b # _ \<Rightarrow> Some (i, jb_revision b)) (entries hs)"

fun min_by_key :: "('a \<times> 'b::linorder) list \<Rightarrow> ('a \<times> 'b) option" where
  "min_by_key [] = None"
| "min_by_key (p # ps) = Some (foldl (\<lambda>best q. if snd q < snd best then q else best) p ps)"

definition pop_front :: "string \<Rightarrow> (string, history) fmap \<Rightarrow> (string, history) fmap" where
  "pop_front i hs =
     (case fmlookup hs i of
        None \<Rightarrow> hs
      | Some h \<Rightarrow>
          (case hi_batches h of
             [] \<Rightarrow> hs
           | old # rest \<Rightarrow> fmupd i \<lparr>hi_batches = rest, hi_bytes = hi_bytes h - length (jb_json old)\<rparr> hs))"

text \<open>A sum over the histories changes by one term when one history is replaced.\<close>

definition history_sum :: "(history \<Rightarrow> nat) \<Rightarrow> (string, history) fmap \<Rightarrow> nat" where
  "history_sum f hs = sum_list (map (\<lambda>(i, h). f h) (entries hs))"

lemma history_sum_set: "history_sum f hs = (\<Sum>i \<in> fset (fmdom hs). f (the (fmlookup hs i)))"
proof -
  have eq: "map (\<lambda>(i, h). f h) (entries hs) = map (\<lambda>i. f (the (fmlookup hs i))) (map fst (entries hs))"
    by (auto simp: in_entries)
  show ?thesis
    unfolding history_sum_def eq
    by (metis distinct_entries entries_keys_set sum_list_distinct_conv_sum_set)
qed

lemma history_sum_upd:
  assumes "fmlookup hs i = Some h"
  shows "history_sum f (fmupd i h' hs) + f h = history_sum f hs + f h'"
proof -
  have i: "i \<in> fset (fmdom hs)" using assms by (simp add: fmdomI)
  have "history_sum f (fmupd i h' hs) = f h' + (\<Sum>j \<in> fset (fmdom hs) - {i}. f (the (fmlookup hs j)))"
    unfolding history_sum_set using i
    by (simp add: sum.remove[of _ i] insert_absorb, intro sum.cong) auto
  moreover have "history_sum f hs = f h + (\<Sum>j \<in> fset (fmdom hs) - {i}. f (the (fmlookup hs j)))"
    unfolding history_sum_set using i assms by (simp add: sum.remove[of _ i])
  ultimately show ?thesis by simp
qed

lemma foldl_min_in: "foldl (\<lambda>best q. if snd q < snd best then q else best) p ps \<in> insert p (set ps)"
proof (induction ps arbitrary: p)
  case (Cons q ps)
  show ?case using Cons[of "if snd q < snd p then q else p"] by (auto split: if_splits)
qed simp

lemma min_by_key_in: "min_by_key ps = Some p \<Longrightarrow> p \<in> set ps"
  using foldl_min_in by (cases ps) fastforce+

lemma map_filter_set: "set (List.map_filter f xs) = {y. \<exists>x \<in> set xs. f x = Some y}"
  by (induction xs) (auto simp: List.map_filter_def split: option.splits)

lemma front_revisions_in:
  "(i, r) \<in> set (front_revisions hs) \<longleftrightarrow> (\<exists>h b rest. fmlookup hs i = Some h \<and> hi_batches h = b # rest \<and> r = jb_revision b)"
proof
  assume "(i, r) \<in> set (front_revisions hs)"
  then obtain k h where "fmlookup hs k = Some h"
    "(case hi_batches h of [] \<Rightarrow> None | b # _ \<Rightarrow> Some (k, jb_revision b)) = Some (i, r)"
    by (clarsimp simp: front_revisions_def map_filter_set set_entries)
  then show "\<exists>h b rest. fmlookup hs i = Some h \<and> hi_batches h = b # rest \<and> r = jb_revision b"
    by (cases "hi_batches h") auto
next
  assume "\<exists>h b rest. fmlookup hs i = Some h \<and> hi_batches h = b # rest \<and> r = jb_revision b"
  then obtain h b rest where "(i, h) \<in> set (entries hs)" "hi_batches h = b # rest" "r = jb_revision b"
    by (auto simp: in_entries)
  then show "(i, r) \<in> set (front_revisions hs)"
    unfolding front_revisions_def map_filter_set by (intro CollectI bexI[of _ "(i, h)"]) auto
qed

lemma pop_front_shrinks:
  assumes "min_by_key (front_revisions hs) = Some (i, r)"
  shows "history_sum (length \<circ> hi_batches) (pop_front i hs) < history_sum (length \<circ> hi_batches) hs"
proof -
  from min_by_key_in[OF assms] obtain h b rest where "fmlookup hs i = Some h" "hi_batches h = b # rest"
    by (auto simp: front_revisions_in)
  then show ?thesis
    using history_sum_upd[of hs i h "length \<circ> hi_batches" "\<lparr>hi_batches = rest, hi_bytes = hi_bytes h - length (jb_json b)\<rparr>"]
    by (simp add: pop_front_def)
qed

function trim_total :: "(string, history) fmap \<Rightarrow> (string, history) fmap" where
  "trim_total hs =
     (if total_bytes hs > max_total_bytes then
        case min_by_key (front_revisions hs) of
          None \<Rightarrow> hs
        | Some (i, _) \<Rightarrow> trim_total (pop_front i hs)
      else hs)"
  by pat_completeness auto
termination
  by (relation "measure (history_sum (length \<circ> hi_batches))") (auto simp: pop_front_shrinks)

declare trim_total.simps [simp del]

definition frame_ids :: "json durable_subscriptions \<Rightarrow> string list" where
  "frame_ids subs = sorted_list_of_set (set (map fst (entries (requests subs)))
     \<union> set (map fst (entries (cancelled subs))) \<union> set (map fst (entries (slots subs))))"

definition subscription_record ::
  "query_serde \<Rightarrow> subscription_journal \<Rightarrow> json client_runtime \<Rightarrow> u64 \<Rightarrow> native_fault + subscription_journal" where
  "subscription_record qs j rt before =
     (if before = revision (rt_state rt) then Inr j
      else case subscriptions (rt_state rt) of
        None \<Rightarrow> Inr j
      | Some subs \<Rightarrow>
          rbind (record_ids qs rt before (frame_ids subs) (sj_histories j)) (\<lambda>hs.
          Inr (j\<lparr>sj_histories := trim_total hs\<rparr>)))"

definition history_covers :: "history option \<Rightarrow> u64 \<Rightarrow> bool" where
  "history_covers h r = (case h of None \<Rightarrow> False | Some h \<Rightarrow> (case hi_batches h of [] \<Rightarrow> False | b # _ \<Rightarrow> jb_before b \<le> r))"

definition subscription_changes ::
  "query_serde \<Rightarrow> subscription_journal \<Rightarrow> json client_runtime \<Rightarrow> string \<Rightarrow> string \<Rightarrow> u32 \<Rightarrow> native_fault + json" where
  "subscription_changes qs j rt i cursor_text cnt =
     (if \<not> valid_subscription_text i \<or> \<not> (1 \<le> cnt \<and> unat cnt \<le> max_batches) \<or> length cursor_text > 4096
      then Inl (Fault InvalidInput)
      else rbind (ok_or (Fault InvalidInput) (qs_cursor qs cursor_text)) (\<lambda>(process_epoch, subscription, revision_text).
      rbind (ok_or (Fault InvalidInput) (parse_u64 revision_text)) (\<lambda>r.
      if u64_text r \<noteq> revision_text \<or> subscription \<noteq> i then Inl (Fault InvalidInput)
      else let current = revision (rt_state rt); h = fmlookup (sj_histories j) i in
      if process_epoch \<noteq> epoch_value (sj_epoch j) \<or> r > current \<or> r < current \<and> \<not> history_covers h r
      then rbind (subscription_bootstrap qs j rt i) (edit_at ''kind'' (\<lambda>_. Inr (JString ''reset_required'')))
      else rbind (try_map (\<lambda>b. ok_or (Fault Internal) (qs_parse qs (jb_json b)))
                   (take (unat cnt) (filter (\<lambda>b. jb_revision b > r) (case h of None \<Rightarrow> [] | Some h \<Rightarrow> hi_batches h)))) (\<lambda>batches.
      let after = (case batches of [] \<Rightarrow> current
                   | _ \<Rightarrow> (case Option.bind (as_str (member_at ''revision'' (last batches))) parse_u64 of
                             None \<Rightarrow> current | Some n \<Rightarrow> n)) in
      Inr (JObject (members_of [(''kind'', JString ''batches''), (''batches'', JArray batches),
        (''cursor'', subscription_cursor j i after)]))))))"

section \<open>What the journal holds\<close>

definition history_ok :: "u64 \<Rightarrow> history \<Rightarrow> bool" where
  "history_ok current h \<longleftrightarrow> hi_bytes h = sum_list (map (length \<circ> jb_json) (hi_batches h))
     \<and> hi_bytes h \<le> max_query_bytes \<and> length (hi_batches h) \<le> max_batches
     \<and> list_all (\<lambda>b. jb_before b < jb_revision b \<and> jb_revision b \<le> current) (hi_batches h)"

definition histories_ok :: "u64 \<Rightarrow> (string, history) fmap \<Rightarrow> bool" where
  "histories_ok current hs \<longleftrightarrow> (\<forall>i h. fmlookup hs i = Some h \<longrightarrow> history_ok current h)"

definition subscription_journal_ok :: "subscription_journal \<Rightarrow> u64 \<Rightarrow> bool" where
  "subscription_journal_ok j current \<longleftrightarrow> histories_ok current (sj_histories j) \<and> total_bytes (sj_histories j) \<le> max_total_bytes"

lemma history_ok_empty [simp]: "history_ok n empty_history"
  by (simp add: history_ok_def empty_history_def)

lemma history_ok_mono: "history_ok m h \<Longrightarrow> m \<le> n \<Longrightarrow> history_ok n h"
  by (auto simp: history_ok_def list_all_iff)

text \<open>
  The derived serializers write structs as objects, so that no edit of a frame panics.
\<close>

definition frame_returns :: "query_serde \<Rightarrow> json client_runtime \<Rightarrow> u64 \<Rightarrow> string \<Rightarrow> bool" where
  "frame_returns qs rt before i \<longleftrightarrow> encode_frame qs rt before i \<notin> {Inl Panicked, Inl Diverged}"

lemma history_record_ok:
  assumes "history_ok before h" "before < revision (rt_state rt)" "frame_returns qs rt before i"
  shows "\<exists>h'. history_record qs rt before i h = Inr h' \<and> history_ok (revision (rt_state rt)) h'"
proof (cases "encode_frame qs rt before i")
  case (Inl e)
  with assms(3) show ?thesis by (cases e) (auto simp: history_record_def frame_returns_def)
next
  case (Inr encoded)
  show ?thesis
  proof (cases "length encoded \<le> max_query_bytes")
    case True
    from evict_fits[OF this, of "hi_bytes h" "hi_batches h"] assms(1) obtain dropped kept bytes where
      k: "evict max_query_bytes (length encoded) (hi_batches h) (hi_bytes h) = Inr (kept, bytes)"
        "hi_batches h = dropped @ kept" "bytes = sum_list (map (length \<circ> jb_json) kept)"
        "bytes + length encoded \<le> max_query_bytes" "length kept < max_batches"
      unfolding history_ok_def by blast
    from history_ok_mono[OF assms(1), of "revision (rt_state rt)"] assms(2) k(2) have
      "list_all (\<lambda>b. jb_before b < jb_revision b \<and> jb_revision b \<le> revision (rt_state rt)) kept"
      by (auto simp: history_ok_def)
    with True Inr k assms(2) show ?thesis by (auto simp: history_record_def history_ok_def)
  qed (use Inr in \<open>auto simp: history_record_def\<close>)
qed

lemma record_ids_ok:
  assumes "\<And>i h. fmlookup hs i = Some h \<Longrightarrow> history_ok (if i \<in> set is then before else revision (rt_state rt)) h"
    and "before < revision (rt_state rt)" "\<And>i. i \<in> set is \<Longrightarrow> frame_returns qs rt before i" "distinct is"
  shows "\<exists>hs'. record_ids qs rt before is hs = Inr hs' \<and> histories_ok (revision (rt_state rt)) hs'"
  using assms
proof (induction "is" arbitrary: hs)
  case (Cons i "is")
  let ?h = "case fmlookup hs i of None \<Rightarrow> empty_history | Some h \<Rightarrow> h"
  have "history_ok before ?h" using Cons.prems(1)[of i] by (auto split: option.split)
  moreover have "frame_returns qs rt before i" by (simp add: Cons.prems(3))
  ultimately obtain h' where
    h': "history_record qs rt before i ?h = Inr h'" "history_ok (revision (rt_state rt)) h'"
    using history_record_ok[OF _ Cons.prems(2)] by blast
  have "history_ok (if k \<in> set is then before else revision (rt_state rt)) h"
    if "fmlookup (fmupd i h' hs) k = Some h" for k h
    using that Cons.prems(1)[of k h] Cons.prems(4) h'(2) by (cases "k = i") auto
  then have "\<exists>hs'. record_ids qs rt before is (fmupd i h' hs) = Inr hs' \<and> histories_ok (revision (rt_state rt)) hs'"
    using Cons.prems(2-4) by (intro Cons.IH) simp_all
  with h'(1) show ?case by simp
qed (simp add: histories_ok_def)

lemma total_bytes_sum: "total_bytes hs = history_sum hi_bytes hs"
  by (simp add: total_bytes_def history_sum_def)

lemma pop_front_ok: "histories_ok n hs \<Longrightarrow> histories_ok n (pop_front i hs)"
  by (fastforce simp: histories_ok_def pop_front_def history_ok_def split: option.split list.split)

lemma no_front_no_bytes:
  assumes "histories_ok n hs" "min_by_key (front_revisions hs) = None"
  shows "total_bytes hs = 0"
proof -
  have none: "front_revisions hs = []" using assms(2) by (cases "front_revisions hs") auto
  have "hi_bytes h = 0" if "fmlookup hs i = Some h" for i h
  proof (cases "hi_batches h")
    case (Cons b bs)
    with that have "(i, jb_revision b) \<in> set (front_revisions hs)" by (auto simp: front_revisions_in)
    then show ?thesis by (simp add: none)
  qed (use that assms(1) in \<open>auto simp: histories_ok_def history_ok_def\<close>)
  then show ?thesis by (auto simp: total_bytes_def sum_list_eq_0_iff in_entries)
qed

lemma trim_total_ok: "histories_ok n hs \<Longrightarrow> histories_ok n (trim_total hs) \<and> total_bytes (trim_total hs) \<le> max_total_bytes"
proof (induction hs rule: trim_total.induct)
  case (1 hs)
  show ?case
  proof (cases "total_bytes hs > max_total_bytes")
    case True
    with no_front_no_bytes[OF 1(2)] obtain i r where "min_by_key (front_revisions hs) = Some (i, r)"
      by (cases "min_by_key (front_revisions hs)") auto
    with True 1(1)[OF True this refl] pop_front_ok[OF 1(2)] show ?thesis by (simp add: trim_total.simps[of hs])
  qed (use 1(2) in \<open>simp add: trim_total.simps[of hs]\<close>)
qed

lemma subscription_record_ok:
  assumes "subscription_journal_ok j before" "before < revision (rt_state rt)"
    and "\<And>i. frame_returns qs rt before i"
  shows "\<exists>j'. subscription_record qs j rt before = Inr j' \<and> subscription_journal_ok j' (revision (rt_state rt))"
proof (cases "subscriptions (rt_state rt)")
  case None
  have "histories_ok (revision (rt_state rt)) (sj_histories j)"
    using assms(1,2) history_ok_mono[of before] by (auto simp: subscription_journal_ok_def histories_ok_def)
  with None assms(1) show ?thesis by (auto simp: subscription_record_def subscription_journal_ok_def)
next
  case (Some subs)
  have "\<exists>hs'. record_ids qs rt before (frame_ids subs) (sj_histories j) = Inr hs' \<and> histories_ok (revision (rt_state rt)) hs'"
    using assms history_ok_mono[of before _ "revision (rt_state rt)"]
    by (intro record_ids_ok) (auto simp: subscription_journal_ok_def histories_ok_def frame_ids_def)
  with Some assms(2) trim_total_ok show ?thesis
    by (auto simp: subscription_record_def subscription_journal_ok_def)
qed

section \<open>A concrete journal\<close>

definition window_tree :: json where
  "window_tree = JObject [(''command'', JObject [(''generation'', JNumber (PosInt 3)), (''kind'', JString ''cancel'')]),
     (''subscriptionRevision'', JNumber (PosInt 1))]"

definition window_query_serde :: query_serde where
  "window_query_serde = \<lparr>qs_text = (\<lambda>_. Some ''frame''),
     qs_parse = (\<lambda>t. if t = ''[]'' then Some (JArray []) else None),
     qs_request_json = (\<lambda>_. Some window_tree), qs_json_request = (\<lambda>_. None),
     qs_response_json = (\<lambda>_. None), qs_json_response = (\<lambda>_. None), qs_snapshot_json = (\<lambda>_. None),
     qs_cursor = (\<lambda>_. None)\<rparr>"

definition window_runtime :: "json client_runtime" where
  "window_runtime = \<lparr>rt_state = replay_after\<lparr>subscriptions :=
     Some (default_subscriptions\<lparr>cancelled := fmupd ''w'' 3 fmempty\<rparr>)\<rparr>\<rparr>"

lemma window_frames: "frame_returns window_query_serde window_runtime 0 i"
proof -
  have snapshot: "subscription_snapshot window_runtime i = None"
    by (simp add: subscription_snapshot_def window_runtime_def default_subscriptions_def Let_def)
  have "\<not> isl (request_wire False window_tree)" by code_simp
  then have wire: "request_wire False window_tree = Inr (projr (request_wire False window_tree))" by simp
  then have "request_json window_query_serde window_runtime i \<notin> {Inl Panicked, Inl Diverged}"
    by (auto simp: request_json_def window_query_serde_def split: option.split)
  then show ?thesis
    by (cases "request_json window_query_serde window_runtime i")
      (auto simp: frame_returns_def encode_frame_def frame_def snapshot edit_at_def query_output_def window_query_serde_def
        max_query_output_def faulting_def)
qed

section \<open>Properties\<close>

text \<open>
  C28: Recording a commit in the subscription journal always ends: the eviction loop of each
  history and the loop that trims the journal as a whole terminate, and afterwards every
  history is within its byte and batch limits, its byte count is exact, and the histories
  together are within the aggregate limit.
\<close>
theorem subscription_journal_bounded:
  assumes "subscription_journal_ok j before" "before < revision (rt_state rt)"
    and "\<And>i. frame_returns qs rt before i"
  shows "\<exists>j'. subscription_record qs j rt before = Inr j' \<and> subscription_journal_ok j' (revision (rt_state rt))
    \<and> total_bytes (sj_histories j') \<le> max_total_bytes
    \<and> (\<forall>i h. fmlookup (sj_histories j') i = Some h \<longrightarrow> length (hi_batches h) \<le> max_batches
         \<and> hi_bytes h \<le> max_query_bytes \<and> hi_bytes h = sum_list (map (length \<circ> jb_json) (hi_batches h)))"
  using subscription_record_ok[OF assms] by (auto simp: subscription_journal_ok_def histories_ok_def history_ok_def)

theorem subscription_journal_bounded_witness:
  "\<exists>j'. subscription_record window_query_serde (new_subscription_journal ''p'') window_runtime 0 = Inr j'
    \<and> total_bytes (sj_histories j') \<le> max_total_bytes"
proof -
  have "subscription_journal_ok (new_subscription_journal ''p'') 0"
    by (simp add: subscription_journal_ok_def new_subscription_journal_def histories_ok_def total_bytes_def)
  moreover have "0 < revision (rt_state window_runtime)" by code_simp
  ultimately show ?thesis using subscription_journal_bounded[OF _ _ window_frames] by blast
qed

text \<open>
  C40: A JSON text that is neither an object nor null does not get the error the parsers
  return for malformed input: the first write into the tree panics.
\<close>
theorem subscription_input_panics:
  assumes "length t \<le> max_sync_state_bytes" "qs_parse qs t = Some v" "\<not> is_object v" "v \<noteq> JNull"
  shows "parse_request qs t = Inl Panicked \<and> parse_response qs br sd t = Inl Panicked
    \<and> encode_subscription_request_json qs br sd t = Inl Panicked"
proof -
  have "edit_at k f v = Inl Panicked" for k f
    using assms(3,4) by (cases v) (auto simp: edit_at_def is_object_def)
  with assms(1,2) show ?thesis
    by (simp add: parse_request_def parse_response_def encode_subscription_request_json_def query_input_def
        request_wire_def response_wire_def faulting_def)
qed

theorem subscription_input_panics_witness:
  "parse_request window_query_serde ''[]'' = Inl Panicked
    \<and> (\<forall>(br :: unit bridge) sd. parse_response window_query_serde br sd ''[]'' = Inl Panicked)"
proof -
  have h: "length ''[]'' \<le> max_sync_state_bytes" "qs_parse window_query_serde ''[]'' = Some (JArray [])"
    "\<not> is_object (JArray [])" "JArray [] \<noteq> JNull"
    by (simp_all add: window_query_serde_def is_object_def max_sync_state_bytes_def)
  show ?thesis
    by (intro conjI allI subscription_input_panics[OF h, THEN conjunct1]
        subscription_input_panics[OF h, THEN conjunct2, THEN conjunct1])
qed

end
