(* ===== verification/Store_Database.thy ===== *)
theory Store_Database
  imports Store_Codec
begin

text \<open>
  The transactional store of one embedded database
  (\<open>crates/surrealdb-rn-core/src/sync_state.rs\<close>): loading a journal from its rows, replacing
  it row by row, projecting it onto the application's tables, migrating the legacy format,
  the scope barrier, and the outcome of a transaction.

  The database engine is a parameter.  A transaction works on a copy of the tables and
  every engine call may fail: \<open>tx_calls\<close> is the number of calls that still succeed
  (\<open>None\<close>: all of them).  An \<open>engine\<close> says whether a handle and a transaction are available,
  how commit and cancel end, and whether the session is still current at the end; a failed
  commit may or may not have been applied.

  Records projected for the application are in the same database.  \<open>db_app\<close> holds the
  content of every one of them.  \<open>native_record_id\<close> keeps them out of six of the store's
  tables; a record in the table of subscription rows is also a row that \<open>load_inventory\<close>
  finds there, if the schema of that table accepts its content (\<open>sx_component\<close>).  Its record
  ID is a single key, where the store's own rows have a list of three, so the two never
  share an ID.  Barriers are selected by an ID with a list of two, so a record projected
  into their table is found by no query of the store.
\<close>

section \<open>Tables\<close>

record stored_meta_row =
  mr_format_version :: int
  mr_partition_id :: string
  mr_client_id :: string
  mr_payload :: "byte list"
  mr_bootstrap_fence :: "string option"

record stored_component_row =
  cr_format_version :: int
  cr_partition_id :: string
  cr_client_id :: string
  cr_component_key :: string
  cr_payload :: "byte list"

record stored_record =
  lr_format_version :: int
  lr_partition_id :: string
  lr_client_id :: string
  lr_revision :: string
  lr_payload :: "byte list"

record scope_barrier =
  sb_reason :: string
  sb_required_scope :: string
  sb_required_subscription_revision :: string
  sb_required_authorization_revision :: string

type_synonym row_id = "string list"

record 'x store_db =
  db_meta :: "(row_id, stored_meta_row) fmap"
  db_components :: "(string \<times> row_id, stored_component_row) fmap"
  db_legacy :: "(row_id, stored_record) fmap"
  db_barriers :: "(row_id, scope_barrier) fmap"
  db_app :: "('x, (string \<times> 'x surreal_value) list) fmap"

definition key_row :: "sync_state_key \<Rightarrow> row_id" where
  "key_row key = [partition_str (fst key), client_str (snd key)]"

definition component_record_id :: "sync_state_key \<Rightarrow> component_address \<Rightarrow> string \<times> row_id" where
  "component_record_id key item = (fst item, key_row key @ [snd item])"

section \<open>Transactions\<close>

record 'x tx_state =
  tx_db :: "'x store_db"
  tx_calls :: "nat option"

type_synonym ('x, 'a) tx = "'x tx_state \<Rightarrow> sync_state_error + 'a \<times> 'x tx_state"

definition tx_bind :: "('x, 'a) tx \<Rightarrow> ('a \<Rightarrow> ('x, 'b) tx) \<Rightarrow> ('x, 'b) tx" where
  "tx_bind m f s = rbind (m s) (\<lambda>(a, s'). f a s')"

definition tx_lift :: "sync_state_error + 'a \<Rightarrow> ('x, 'a) tx" where
  "tx_lift r s = rbind r (\<lambda>a. Inr (a, s))"

definition tx_call :: "('x, unit) tx" where
  "tx_call s =
     (case tx_calls s of
        None \<Rightarrow> Inr ((), s)
      | Some n \<Rightarrow> if n = 0 then Inl Database else Inr ((), s\<lparr>tx_calls := Some (n - 1)\<rparr>))"

definition tx_select :: "('x store_db \<Rightarrow> 'a) \<Rightarrow> ('x, 'a) tx" where
  "tx_select q = tx_bind tx_call (\<lambda>_ s. Inr (q (tx_db s), s))"

definition tx_update :: "('x store_db \<Rightarrow> 'x store_db) \<Rightarrow> ('x, unit) tx" where
  "tx_update f = tx_bind tx_call (\<lambda>_ s. Inr ((), s\<lparr>tx_db := f (tx_db s)\<rparr>))"

fun tx_for_each :: "('a \<Rightarrow> ('x, unit) tx) \<Rightarrow> 'a list \<Rightarrow> ('x, unit) tx" where
  "tx_for_each f [] = tx_lift (Inr ())"
| "tx_for_each f (x # xs) = tx_bind (f x) (\<lambda>_. tx_for_each f xs)"

datatype commit_end = Committed | CommitError bool

record engine =
  en_core :: bool
  en_begin :: bool
  en_calls :: "nat option"
  en_commit :: commit_end
  en_cancel :: bool
  en_session :: bool

definition finish_transaction ::
  "engine \<Rightarrow> 'x store_db \<Rightarrow> sync_state_error + 'a \<times> 'x tx_state \<Rightarrow> (sync_state_error + 'a) \<times> 'x store_db" where
  "finish_transaction en before operation =
     (case operation of
        Inr (disposition, s) \<Rightarrow>
          (case en_commit en of
             Committed \<Rightarrow> (Inr disposition, tx_db s)
           | CommitError applied \<Rightarrow> (Inl CommitUnknown, if applied then tx_db s else before))
      | Inl e \<Rightarrow> (if en_cancel en then Inl e else Inl (RollbackFailed e), before))"

text \<open>The session is checked again before the commit.\<close>

definition finish ::
  "engine \<Rightarrow> 'x store_db \<Rightarrow> sync_state_error + 'a \<times> 'x tx_state \<Rightarrow> (sync_state_error + 'a) \<times> 'x store_db" where
  "finish en before operation =
     finish_transaction en before
       (rbind operation (\<lambda>r. if en_session en then Inr r else Inl RevisionConflict))"

definition run_transaction ::
  "engine \<Rightarrow> 'x store_db \<Rightarrow> ('x, 'a) tx \<Rightarrow> (sync_state_error + 'a) \<times> 'x store_db" where
  "run_transaction en db body =
     (if \<not> en_core en then (Inl Core, db)
      else if \<not> en_begin en then (Inl Database, db)
      else finish en db (body \<lparr>tx_db = db, tx_calls = en_calls en\<rparr>))"

section \<open>Loading\<close>

definition select_components :: "string \<Rightarrow> sync_state_key \<Rightarrow> 'x store_db \<Rightarrow> stored_component_row list" where
  "select_components table key db =
     take (max_component_items + 1)
       (filter (\<lambda>row. cr_partition_id row = partition_str (fst key) \<and> cr_client_id row = client_str (snd key))
         (map snd (filter (\<lambda>((t, _), _). t = table) (entries (db_components db)))))"

type_synonym inventory = "(component_address, byte list) fmap"

definition inventory_insert ::
  "sync_state_key \<Rightarrow> string \<Rightarrow> inventory \<Rightarrow> stored_component_row \<Rightarrow> sync_state_error + inventory" where
  "inventory_insert key table inventory row =
     (if \<not> (cr_format_version row = format_version \<or> cr_format_version row = subscription_format_version)
         \<or> cr_partition_id row \<noteq> partition_str (fst key) \<or> cr_client_id row \<noteq> client_str (snd key)
         \<or> length (cr_payload row) > max_sync_state_bytes
      then Inl CorruptState
      else rbind (validate_component_key (cr_component_key row)) (\<lambda>_.
      let item = (table, cr_component_key row); next_inventory = fmupd item (cr_payload row) inventory in
      if contains_key inventory item then Inl CorruptState
      else if map_len next_inventory > max_component_items then Inl StateTooLarge
      else Inr next_inventory))"

definition load_table :: "sync_state_key \<Rightarrow> inventory \<Rightarrow> string \<Rightarrow> ('x, inventory) tx" where
  "load_table key inventory table =
     tx_bind (tx_select (select_components table key)) (\<lambda>rows. tx_lift
       (if length rows > max_component_items then Inl StateTooLarge
        else try_fold (inventory_insert key table) inventory rows))"

definition load_inventory :: "sync_state_key \<Rightarrow> ('x, inventory) tx" where
  "load_inventory key =
     tx_bind (load_table key fmempty confirmed_table) (\<lambda>inv.
     tx_bind (load_table key inv outbox_table) (\<lambda>inv.
     tx_bind (load_table key inv outcome_table) (\<lambda>inv.
     tx_bind (load_table key inv id_map_table) (\<lambda>inv.
     load_table key inv subscription_record_table))))"

definition take_component :: "inventory \<Rightarrow> component_address \<Rightarrow> sync_state_error + byte list \<times> inventory" where
  "take_component inventory item =
     (case fmlookup inventory item of
        None \<Rightarrow> Inl CorruptState
      | Some bytes \<Rightarrow> Inr (bytes, fmdrop item inventory))"

definition take_decoded ::
  "store_codec \<Rightarrow> (json \<Rightarrow> 'a option) \<Rightarrow> (string \<Rightarrow> 'a \<Rightarrow> bool) \<Rightarrow> string \<Rightarrow> inventory \<Rightarrow> string \<Rightarrow>
   sync_state_error + 'a \<times> inventory" where
  "take_decoded cd from_value belongs table inventory k =
     rbind (take_component inventory (table, k)) (\<lambda>(bytes, inventory).
     rbind (decode_tagged cd from_value bytes) (\<lambda>v.
     if belongs k v then Inr (v, inventory) else Inl CorruptState))"

fun take_all :: "(inventory \<Rightarrow> string \<Rightarrow> sync_state_error + 'a \<times> inventory) \<Rightarrow> inventory \<Rightarrow> string list \<Rightarrow>
   sync_state_error + 'a list \<times> inventory" where
  "take_all f inventory [] = Inr ([], inventory)"
| "take_all f inventory (k # ks) =
     rbind (f inventory k) (\<lambda>(v, inventory).
     rbind (take_all f inventory ks) (\<lambda>(vs, inventory). Inr (v # vs, inventory)))"

definition take_row ::
  "store_codec \<Rightarrow> json durable_subscriptions option \<Rightarrow> inventory \<Rightarrow> string \<Rightarrow>
   sync_state_error + json subscription_row \<times> inventory" where
  "take_row cd subs inventory k =
     rbind (take_component inventory (subscription_record_table, k)) (\<lambda>(bytes, inventory).
     rbind (ok_or CorruptState subs) (\<lambda>_.
     rbind (decode_tagged cd (json_row cd) bytes) (\<lambda>v. Inr (v, inventory))))"

definition map_from :: "'k list \<Rightarrow> 'v list \<Rightarrow> ('k, 'v) fmap" where
  "map_from ks vs = fold (\<lambda>(k, v). fmupd k v) (zip ks vs) fmempty"

definition validate_meta_row :: "sync_state_key \<Rightarrow> stored_meta_row \<Rightarrow> sync_state_error + unit" where
  "validate_meta_row key row =
     (if length (mr_payload row) > max_sync_state_bytes then Inl StateTooLarge
      else if \<not> (format_version \<le> mr_format_version row \<and> mr_format_version row \<le> subscription_format_version)
         \<or> mr_partition_id row \<noteq> partition_str (fst key) \<or> mr_client_id row \<noteq> client_str (snd key)
      then Inl CorruptState else Inr ())"

definition validate_meta ::
  "sync_state_key \<Rightarrow> stored_meta_row \<Rightarrow> inventory \<Rightarrow> state_meta \<Rightarrow> sync_state_error + unit" where
  "validate_meta key row inventory meta =
     (if (mr_format_version row = subscription_format_version) \<noteq> (sm_subscriptions meta \<noteq> None)
      then Inl CorruptState
      else if sm_partition_id meta \<noteq> partition_str (fst key) \<or> sm_client_id meta \<noteq> client_str (snd key)
         \<or> \<not> strictly_sorted (sm_confirmed_keys meta)
         \<or> \<not> strictly_sorted (sm_subscription_record_keys meta)
         \<or> \<not> strictly_sorted (sm_id_map_keys meta)
      then Inl CorruptState
      else if length (sm_confirmed_keys meta) + length (sm_subscription_record_keys meta)
              + length (sm_outbox_keys meta) + length (sm_outcome_keys meta)
              + length (sm_id_map_keys meta) > max_component_items
      then Inl StateTooLarge
      else if payload_bytes (mr_payload row) inventory > max_aggregate_state_bytes
      then Inl StateTooLarge else Inr ())"

definition decode_state ::
  "store_codec \<Rightarrow> sync_state_key \<Rightarrow> stored_meta_row \<Rightarrow> inventory \<Rightarrow> sync_state_error + stored_sync_state" where
  "decode_state cd key row inventory =
     rbind (validate_meta_row key row) (\<lambda>_.
     rbind (decode_tagged cd (value_meta cd) (mr_payload row)) (\<lambda>meta.
     rbind (validate_meta key row inventory meta) (\<lambda>_.
     rbind (take_all (take_decoded cd (value_record cd) (\<lambda>_ _. True) confirmed_table) inventory
              (map record_str (sm_confirmed_keys meta))) (\<lambda>(rows, inventory).
     rbind (take_all (take_decoded cd (value_commit cd) (\<lambda>k c. commit_key c = k) outbox_table) inventory
              (sm_outbox_keys meta)) (\<lambda>(commits, inventory).
     rbind (take_all (take_decoded cd (value_outcome cd) (\<lambda>k r. commit_key (local_commit r) = k) outcome_table)
              inventory (sm_outcome_keys meta)) (\<lambda>(resolved, inventory).
     rbind (take_all (take_decoded cd (value_mapping cd) (\<lambda>_ _. True) id_map_table) inventory
              (map record_str (sm_id_map_keys meta))) (\<lambda>(mapped, inventory).
     if is_some_and (sm_subscriptions meta) (\<lambda>subs. map_len (records subs) \<noteq> 0) then Inl CorruptState
     else rbind (take_all (take_row cd (sm_subscriptions meta)) inventory (sm_subscription_record_keys meta))
       (\<lambda>(srows, inventory).
     if map_len inventory \<noteq> 0 then Inl CorruptState
     else rbind (parse_revision (sm_subscription_revision meta)) (\<lambda>sub_revision.
     rbind (parse_revision (sm_revision meta)) (\<lambda>rev_number.
     let state = \<lparr>partition_id = PartitionId (sm_partition_id meta), client_id = ClientId (sm_client_id meta),
            requested_scope = ScopeIdentity (sm_requested_scope meta),
            subscription_revision = sub_revision, revision = rev_number,
            confirmed = map_from (sm_confirmed_keys meta) rows, outbox = commits, outcomes = resolved,
            checkpoint = sm_checkpoint meta, reset_coverage = sm_reset_coverage meta,
            id_map = map_from (sm_id_map_keys meta) mapped,
            subscriptions = map_option
              (\<lambda>subs. subs\<lparr>records := map_from (sm_subscription_record_keys meta) srows\<rparr>)
              (sm_subscriptions meta)\<rparr> in
     case validate state of Inl e \<Rightarrow> Inl (InvalidState e) | Inr _ \<Rightarrow> Inr state))))))))))"

definition load_v2 :: "store_codec \<Rightarrow> sync_state_key \<Rightarrow> ('x, stored_sync_state option) tx" where
  "load_v2 cd key =
     tx_bind (load_inventory key) (\<lambda>inventory.
     tx_bind (tx_select (\<lambda>db. fmlookup (db_meta db) (key_row key))) (\<lambda>row. tx_lift
       (case row of
          None \<Rightarrow> if map_len inventory = 0 then Inr None else Inl CorruptState
        | Some row \<Rightarrow> rbind (decode_state cd key row inventory) (\<lambda>state. Inr (Some state)))))"

section \<open>Writing rows\<close>

text \<open>
  A journal under bootstrap carries a fence in its metadata row: a counter and whether the
  stage is active.  The budget check against the staged bootstrap
  (\<open>sync_bootstrap_store.rs\<close>) is the argument \<open>stage\<close> of both guards.
\<close>

fun split_once :: "char \<Rightarrow> string \<Rightarrow> (string \<times> string) option" where
  "split_once c [] = None"
| "split_once c (d # ds) =
     (if d = c then Some ([], ds) else map_option (\<lambda>(a, b). (d # a, b)) (split_once c ds))"

definition parse_metadata_fence :: "string \<Rightarrow> sync_state_error + u64 \<times> bool" where
  "parse_metadata_fence raw =
     rbind (ok_or CorruptState (split_once CHR '':'' raw)) (\<lambda>(counter, active).
     rbind (if active = ''a'' then Inr True else if active = ''i'' then Inr False else Inl CorruptState) (\<lambda>active.
     rbind (parse_revision counter) (\<lambda>n. Inr (n, active))))"

definition next_fence :: "string option \<Rightarrow> sync_state_error + string" where
  "next_fence raw =
     rbind (case raw of None \<Rightarrow> Inr (0, True) | Some v \<Rightarrow> parse_metadata_fence v) (\<lambda>(counter, active).
     rbind (ok_or StateTooLarge (checked_add counter 1)) (\<lambda>n.
     Inr (u64_text n @ '':'' @ (if active then ''a'' else ''i''))))"

definition read_fence :: "sync_state_key \<Rightarrow> ('x, string option) tx" where
  "read_fence key =
     tx_bind (tx_select (\<lambda>db. Option.bind (fmlookup (db_meta db) (key_row key))
                (\<lambda>row. map_option (take 24) (mr_bootstrap_fence row)))) (\<lambda>fence. tx_lift
     (case fence of
        None \<Rightarrow> Inr None
      | Some v \<Rightarrow> rbind (parse_metadata_fence v) (\<lambda>_. Inr (Some v))))"

definition write_fence :: "sync_state_key \<Rightarrow> string \<Rightarrow> ('x, unit) tx" where
  "write_fence key fence = tx_update (\<lambda>db.
     (case fmlookup (db_meta db) (key_row key) of
        None \<Rightarrow> db
      | Some row \<Rightarrow> db\<lparr>db_meta := fmupd (key_row key) (row\<lparr>mr_bootstrap_fence := Some fence\<rparr>) (db_meta db)\<rparr>))"

type_synonym 'x stage_guard = "sync_state_key \<Rightarrow> bool \<Rightarrow> nat \<times> nat \<Rightarrow> ('x, unit) tx"

definition guard_state_write :: "'x stage_guard \<Rightarrow> sync_state_key \<Rightarrow> nat \<times> nat \<Rightarrow> ('x, string option) tx" where
  "guard_state_write stage key budget =
     tx_bind (read_fence key) (\<lambda>fence.
     case fence of
       None \<Rightarrow> tx_lift (Inr None)
     | Some raw \<Rightarrow>
         tx_bind (tx_lift (parse_metadata_fence raw)) (\<lambda>(_, active).
         tx_bind (stage key active budget) (\<lambda>_.
         tx_lift (rbind (next_fence (Some raw)) (\<lambda>f. Inr (Some f))))))"

definition guard_barrier_write :: "(sync_state_key \<Rightarrow> bool \<Rightarrow> ('x, unit) tx) \<Rightarrow> sync_state_key \<Rightarrow> ('x, unit) tx" where
  "guard_barrier_write stage key =
     tx_bind (read_fence key) (\<lambda>fence.
     case fence of
       None \<Rightarrow> tx_lift (Inr ())
     | Some raw \<Rightarrow>
         tx_bind (tx_lift (parse_metadata_fence raw)) (\<lambda>(_, active).
         tx_bind (stage key active) (\<lambda>_.
         tx_bind (tx_lift (next_fence (Some raw))) (write_fence key))))"

definition delete_component :: "sync_state_key \<Rightarrow> component_address \<Rightarrow> ('x, unit) tx" where
  "delete_component key item = tx_update (\<lambda>db.
     db\<lparr>db_components := fmdrop (component_record_id key item) (db_components db)\<rparr>)"

definition upsert_component ::
  "sync_state_key \<Rightarrow> int \<Rightarrow> component_address \<Rightarrow> byte list \<Rightarrow> ('x, unit) tx" where
  "upsert_component key version item payload = tx_update (\<lambda>db.
     db\<lparr>db_components := fmupd (component_record_id key item)
          \<lparr>cr_format_version = version, cr_partition_id = partition_str (fst key),
           cr_client_id = client_str (snd key), cr_component_key = snd item, cr_payload = payload\<rparr>
          (db_components db)\<rparr>)"

definition upsert_meta :: "sync_state_key \<Rightarrow> int \<Rightarrow> byte list \<Rightarrow> ('x, unit) tx" where
  "upsert_meta key version payload = tx_update (\<lambda>db.
     db\<lparr>db_meta := fmupd (key_row key)
          \<lparr>mr_format_version = version, mr_partition_id = partition_str (fst key),
           mr_client_id = client_str (snd key), mr_payload = payload, mr_bootstrap_fence = None\<rparr>
          (db_meta db)\<rparr>)"

definition write_row_diff ::
  "'x stage_guard \<Rightarrow> sync_state_key \<Rightarrow> normalized_rows option \<Rightarrow> normalized_rows \<Rightarrow> ('x, unit) tx" where
  "write_row_diff stage key current next_rows =
     (let old = (case current of None \<Rightarrow> fmempty | Some rows \<Rightarrow> nr_components rows) in
      tx_bind (guard_state_write stage key (normalized_budget next_rows)) (\<lambda>bootstrap_fence.
      tx_bind (tx_for_each (delete_component key)
                 (filter (\<lambda>item. \<not> contains_key (nr_components next_rows) item) (map fst (entries old)))) (\<lambda>_.
      tx_bind (tx_for_each (\<lambda>(item, payload). upsert_component key (nr_format_version next_rows) item payload)
                 (filter (\<lambda>(item, payload). fmlookup old item \<noteq> Some payload)
                    (entries (nr_components next_rows)))) (\<lambda>_.
      tx_bind (upsert_meta key (nr_format_version next_rows) (nr_meta next_rows)) (\<lambda>_.
      case bootstrap_fence of None \<Rightarrow> tx_lift (Inr ()) | Some fence \<Rightarrow> write_fence key fence)))))"

datatype sync_state_write = Applied | AlreadyCurrent

definition replace_v2_in_transaction ::
  "store_codec \<Rightarrow> 'x stage_guard \<Rightarrow> sync_state_key \<Rightarrow> u64 option \<Rightarrow> stored_sync_state option \<Rightarrow>
   stored_sync_state \<Rightarrow> normalized_rows \<Rightarrow> ('x, sync_state_write) tx" where
  "replace_v2_in_transaction cd stage key expected_revision expected_state state rows =
     tx_bind (load_v2 cd key) (\<lambda>current.
     if expected_state \<noteq> None \<and> current \<noteq> expected_state then tx_lift (Inl RevisionConflict)
     else if is_some_and current (\<lambda>c. revision c = revision state)
     then tx_lift (if current = Some state then Inr AlreadyCurrent else Inl RevisionConflict)
     else if is_some_and current (\<lambda>c. Some (revision c) \<noteq> expected_revision)
     then tx_lift (Inl RevisionConflict)
     else if current = None \<and> expected_revision \<noteq> None then tx_lift (Inl RevisionConflict)
     else if is_some_and current (\<lambda>c. subscriptions c \<noteq> None) \<and> subscriptions state = None
     then tx_lift (Inl CorruptState)
     else tx_bind (tx_lift (case current of
                      None \<Rightarrow> Inr None
                    | Some c \<Rightarrow> rbind (normalize_state cd c) (\<lambda>r. Inr (Some r)))) (\<lambda>current_rows.
     tx_bind (write_row_diff stage key current_rows rows) (\<lambda>_. tx_lift (Inr Applied))))"

section \<open>The application's tables\<close>

text \<open>What the database knows of a record: table and key of its ID, and its schema.\<close>

record 'x record_schema =
  sx_table :: "'x \<Rightarrow> string"
  sx_key :: "'x \<Rightarrow> string"
  sx_component :: "(string \<times> 'x surreal_value) list \<Rightarrow> stored_component_row option"

definition journal_tables :: "string list" where
  "journal_tables = [state_table, meta_table, confirmed_table, outbox_table, outcome_table, id_map_table,
     subscription_record_table, scope_barrier_table]"

definition reserved_tables :: "string list" where
  "reserved_tables = [state_table, meta_table, confirmed_table, outbox_table, outcome_table, id_map_table]"

definition native_record_id ::
  "'x surreal_lib \<Rightarrow> 'x record_schema \<Rightarrow> record_id \<Rightarrow> sync_state_error + 'x" where
  "native_record_id lib sx r =
     (if length (record_str r) > max_record_id_bytes then Inl UnsupportedRecordId
      else rbind (ok_or UnsupportedRecordId (record_parse_simple lib (record_str r))) (\<lambda>native.
      if sx_table sx native \<in> set reserved_tables then Inl UnsupportedRecordId else Inr native))"

definition schema_refuses :: "'x record_schema \<Rightarrow> 'x \<Rightarrow> (string \<times> 'x surreal_value) list option \<Rightarrow> bool" where
  "schema_refuses sx native content \<longleftrightarrow> sx_table sx native = subscription_record_table
     \<and> (case content of None \<Rightarrow> False | Some c \<Rightarrow> sx_component sx c = None)"

definition put_record ::
  "'x record_schema \<Rightarrow> 'x \<Rightarrow> (string \<times> 'x surreal_value) list option \<Rightarrow> 'x store_db \<Rightarrow> 'x store_db" where
  "put_record sx native content db =
     (let row = (subscription_record_table, [sx_key sx native]) in
      db\<lparr>db_app := (case content of None \<Rightarrow> fmdrop native (db_app db) | Some c \<Rightarrow> fmupd native c (db_app db)),
         db_components :=
           (if sx_table sx native \<noteq> subscription_record_table then db_components db
            else case Option.bind content (sx_component sx) of
              None \<Rightarrow> fmdrop row (db_components db)
            | Some r \<Rightarrow> fmupd row r (db_components db))\<rparr>)"

definition project_record ::
  "'x surreal_lib \<Rightarrow> 'x record_schema \<Rightarrow> (record_id, json optimistic_record) fmap \<Rightarrow> record_id \<Rightarrow> ('x, unit) tx" where
  "project_record lib sx next_rows r =
     tx_bind (tx_lift (native_record_id lib sx r)) (\<lambda>native.
     tx_bind (tx_lift (case fmlookup next_rows r of
         Some (OptPresent v b ref) \<Rightarrow>
           (case from_wire_value lib v of
              Inl e \<Rightarrow> Inl (ValueCodec e)
            | Inr (SObject content) \<Rightarrow> Inr (Some content)
            | Inr _ \<Rightarrow> Inl RecordValueMustBeObject)
       | _ \<Rightarrow> Inr None)) (\<lambda>content.
     if schema_refuses sx native content then tx_bind tx_call (\<lambda>_. tx_lift (Inl Database))
     else tx_update (put_record sx native content)))"

definition apply_projection_diff ::
  "'x surreal_lib \<Rightarrow> 'x record_schema \<Rightarrow> (record_id, json optimistic_record) fmap \<Rightarrow>
   (record_id, json optimistic_record) fmap \<Rightarrow> ('x, unit) tx" where
  "apply_projection_diff lib sx current next_rows =
     tx_for_each (project_record lib sx next_rows)
       (filter (\<lambda>r. fmlookup current r \<noteq> fmlookup next_rows r)
          (sorted_list_of_fset (fmdom current |\<union>| fmdom next_rows)))"

section \<open>Operations of the store\<close>

definition validate_stored_envelope :: "sync_state_key \<Rightarrow> stored_record \<Rightarrow> sync_state_error + unit" where
  "validate_stored_envelope key stored =
     (if lr_format_version stored \<noteq> legacy_format_version
         \<or> lr_partition_id stored \<noteq> partition_str (fst key) \<or> lr_client_id stored \<noteq> client_str (snd key)
      then Inl CorruptState else Inr ())"

definition decode_record ::
  "store_codec \<Rightarrow> sync_state_key \<Rightarrow> stored_record \<Rightarrow> sync_state_error + stored_sync_state" where
  "decode_record cd key stored =
     rbind (validate_stored_envelope key stored) (\<lambda>_.
     if length (lr_payload stored) > max_sync_state_bytes then Inl StateTooLarge
     else rbind (parse_revision (lr_revision stored)) (\<lambda>r.
     rbind (ok_or DecodeFailed (legacy_state cd (lr_payload stored))) (\<lambda>state.
     if partition_id state \<noteq> fst key \<or> client_id state \<noteq> snd key \<or> revision state \<noteq> r
     then Inl CorruptState
     else case validate state of Inl e \<Rightarrow> Inl (InvalidState e) | Inr _ \<Rightarrow> Inr state)))"

definition migrated_sentinel :: "byte list" where
  "migrated_sentinel = map (\<lambda>c. of_nat (of_char c)) ''migrated-to-v2''"

definition migrate_v1 ::
  "store_codec \<Rightarrow> 'x stage_guard \<Rightarrow> 'x surreal_lib \<Rightarrow> 'x record_schema \<Rightarrow> engine \<Rightarrow> 'x store_db \<Rightarrow>
   sync_state_key \<Rightarrow> stored_sync_state \<Rightarrow> (sync_state_error + unit) \<times> 'x store_db" where
  "migrate_v1 cd stage lib sx en db key state =
     (case normalize_state cd state of
        Inl e \<Rightarrow> (Inl e, db)
      | Inr rows \<Rightarrow> run_transaction en db
          (tx_bind (load_v2 cd key) (\<lambda>existing.
           if existing \<noteq> None then tx_lift (if existing = Some state then Inr () else Inl RevisionConflict)
           else tx_bind (tx_select (\<lambda>db. fmlookup (db_legacy db) (key_row key))) (\<lambda>legacy.
           case legacy of
             None \<Rightarrow> tx_lift (Inl RevisionConflict)
           | Some stored \<Rightarrow>
               tx_bind (tx_lift (rbind (decode_record cd key stored) (\<lambda>decoded.
                          if decoded \<noteq> state then Inl RevisionConflict else Inr ()))) (\<lambda>_.
               tx_bind (write_row_diff stage key None rows) (\<lambda>_.
               tx_bind (apply_projection_diff lib sx fmempty (optimistic_projection state)) (\<lambda>_.
               tx_update (\<lambda>db. db\<lparr>db_legacy := fmupd (key_row key)
                 \<lparr>lr_format_version = format_version, lr_partition_id = partition_str (fst key),
                  lr_client_id = client_str (snd key), lr_revision = u64_text (revision state),
                  lr_payload = migrated_sentinel\<rparr> (db_legacy db)\<rparr>))))))))"

text \<open>Reads outside a transaction: the engine's calls fail in the same way.\<close>

definition run_reads :: "engine \<Rightarrow> 'x store_db \<Rightarrow> ('x, 'a) tx \<Rightarrow> sync_state_error + 'a" where
  "run_reads en db body =
     (if \<not> en_core en then Inl Core
      else rbind (body \<lparr>tx_db = db, tx_calls = en_calls en\<rparr>) (\<lambda>(a, _). Inr a))"

definition load ::
  "store_codec \<Rightarrow> 'x stage_guard \<Rightarrow> 'x surreal_lib \<Rightarrow> 'x record_schema \<Rightarrow> engine \<Rightarrow> 'x store_db \<Rightarrow>
   sync_state_key \<Rightarrow> (sync_state_error + stored_sync_state option) \<times> 'x store_db" where
  "load cd stage lib sx en db key =
     (case validate_key key of
        Inl e \<Rightarrow> (Inl e, db)
      | Inr _ \<Rightarrow>
          (case run_reads en db (tx_bind (load_v2 cd key) (\<lambda>state.
              case state of
                Some s \<Rightarrow> tx_lift (Inr (Inr s))
              | None \<Rightarrow> tx_bind (tx_select (\<lambda>db. fmlookup (db_legacy db) (key_row key)))
                           (\<lambda>stored. tx_lift (Inr (Inl stored))))) of
             Inl e \<Rightarrow> (Inl e, db)
           | Inr (Inr s) \<Rightarrow> (Inr (Some s), db)
           | Inr (Inl None) \<Rightarrow> (Inr None, db)
           | Inr (Inl (Some stored)) \<Rightarrow>
               if lr_format_version stored = format_version then (Inl CorruptState, db)
               else (case decode_record cd key stored of
                       Inl e \<Rightarrow> (Inl e, db)
                     | Inr state \<Rightarrow>
                         (case migrate_v1 cd stage lib sx en db key state of
                            (Inl e, db') \<Rightarrow> (Inl e, db')
                          | (Inr _, db') \<Rightarrow> (Inr (Some state), db')))))"

definition save_atomic ::
  "store_codec \<Rightarrow> 'x stage_guard \<Rightarrow> 'x surreal_lib \<Rightarrow> 'x record_schema \<Rightarrow> engine \<Rightarrow> engine \<Rightarrow> 'x store_db \<Rightarrow>
   u64 option \<Rightarrow> stored_sync_state \<Rightarrow> (sync_state_error + sync_state_write) \<times> 'x store_db" where
  "save_atomic cd stage lib sx en_load en db expected state =
     (case prepare_state_write cd expected state of
        Inl e \<Rightarrow> (Inl e, db)
      | Inr (key, rows) \<Rightarrow>
          (case load cd stage lib sx en_load db key of
             (Inl e, db') \<Rightarrow> (Inl e, db')
           | (Inr _, db') \<Rightarrow>
               run_transaction en db' (replace_v2_in_transaction cd stage key expected None state rows)))"

definition transition_body ::
  "store_codec \<Rightarrow> 'x stage_guard \<Rightarrow> 'x surreal_lib \<Rightarrow> 'x record_schema \<Rightarrow> sync_state_key \<Rightarrow>
   stored_sync_state \<Rightarrow> stored_sync_state \<Rightarrow> normalized_rows \<Rightarrow> ('x, sync_state_write) tx" where
  "transition_body cd stage lib sx key current next_state rows =
     tx_bind (replace_v2_in_transaction cd stage key (Some (revision current)) (Some current) next_state rows)
       (\<lambda>disposition.
     if disposition = Applied
     then tx_bind (apply_projection_diff lib sx (optimistic_projection current)
                     (optimistic_projection next_state)) (\<lambda>_. tx_lift (Inr disposition))
     else tx_lift (Inr disposition))"

definition apply_transition_atomic ::
  "store_codec \<Rightarrow> 'x stage_guard \<Rightarrow> 'x surreal_lib \<Rightarrow> 'x record_schema \<Rightarrow> engine \<Rightarrow> 'x store_db \<Rightarrow>
   stored_sync_state \<Rightarrow> stored_sync_state \<Rightarrow> (sync_state_error + sync_state_write) \<times> 'x store_db" where
  "apply_transition_atomic cd stage lib sx en db current next_state =
     (if partition_id current \<noteq> partition_id next_state \<or> client_id current \<noteq> client_id next_state
      then (Inl CorruptState, db)
      else case validate current of
        Inl e \<Rightarrow> (Inl (InvalidState e), db)
      | Inr _ \<Rightarrow>
          if current = next_state
          then (case load cd stage lib sx en db (partition_id current, client_id current) of
                  (Inl e, db') \<Rightarrow> (Inl e, db')
                | (Inr stored, db') \<Rightarrow>
                    (if stored = Some current then Inr AlreadyCurrent else Inl RevisionConflict, db'))
          else (case prepare_state_write cd (Some (revision current)) next_state of
                  Inl e \<Rightarrow> (Inl e, db)
                | Inr (key, rows) \<Rightarrow>
                    run_transaction en db (transition_body cd stage lib sx key current next_state rows)))"

section \<open>The scope barrier\<close>

definition validate_scope_barrier :: "scope_barrier option \<Rightarrow> sync_state_error + unit" where
  "validate_scope_barrier barrier =
     (case barrier of
        None \<Rightarrow> Inr ()
      | Some value \<Rightarrow>
          if \<not> (sb_reason value = ''pending_quarantine_required'' \<or> sb_reason value = ''needs_new_scope_journal'')
             \<or> length (sb_required_scope value) > max_state_identity_bytes
             \<or> \<not> (\<forall>s \<in> set [sb_required_subscription_revision value, sb_required_authorization_revision value].
                    is_some_and (parse_u64 s) (\<lambda>n. u64_text n = s))
          then Inl CorruptState else Inr ())"

definition load_scope_barrier ::
  "engine \<Rightarrow> 'x store_db \<Rightarrow> sync_state_key \<Rightarrow> sync_state_error + scope_barrier option" where
  "load_scope_barrier en db key =
     rbind (validate_key key) (\<lambda>_.
     run_reads en db (tx_bind (tx_select (\<lambda>db. fmlookup (db_barriers db) (key_row key))) (\<lambda>barrier.
       tx_lift (rbind (validate_scope_barrier barrier) (\<lambda>_. Inr barrier)))))"

definition merge_barrier :: "scope_barrier option \<Rightarrow> scope_barrier \<Rightarrow> scope_barrier" where
  "merge_barrier existing barrier =
     barrier\<lparr>sb_reason :=
       if is_some_and existing (\<lambda>b. sb_reason b = ''pending_quarantine_required'')
          \<or> sb_reason barrier = ''pending_quarantine_required''
       then ''pending_quarantine_required'' else ''needs_new_scope_journal''\<rparr>"

definition save_scope_barrier ::
  "(sync_state_key \<Rightarrow> bool \<Rightarrow> ('x, unit) tx) \<Rightarrow> engine \<Rightarrow> 'x store_db \<Rightarrow> sync_state_key \<Rightarrow>
   scope_barrier \<Rightarrow> (sync_state_error + unit) \<times> 'x store_db" where
  "save_scope_barrier stage en db key barrier =
     (case rbind (validate_key key) (\<lambda>_. validate_scope_barrier (Some barrier)) of
        Inl e \<Rightarrow> (Inl e, db)
      | Inr _ \<Rightarrow> run_transaction en db
          (tx_bind (guard_barrier_write stage key) (\<lambda>_.
           tx_update (\<lambda>db. db\<lparr>db_barriers := fmupd (key_row key)
             (merge_barrier (fmlookup (db_barriers db) (key_row key)) barrier) (db_barriers db)\<rparr>))))"

end
