(* ===== verification/Store_Load.thy ===== *)
theory Store_Load
  imports Store_Database
begin

text \<open>
  What loading a journal means: runs with and without engine faults agree when they
  succeed, the inventory is exactly the client's component rows, and decoding accepts
  exactly the row sets that represent a valid state.
\<close>

section \<open>Runs without faults\<close>

definition unlimited :: "'x tx_state \<Rightarrow> 'x tx_state" where
  "unlimited s = s\<lparr>tx_calls := None\<rparr>"

lemma unlimited_simps [simp]:
  "tx_db (unlimited s) = tx_db s" "tx_calls (unlimited s) = None" "unlimited (unlimited s) = unlimited s"
  "unlimited (s\<lparr>tx_db := db\<rparr>) = (unlimited s)\<lparr>tx_db := db\<rparr>"
  "unlimited (s\<lparr>tx_calls := n\<rparr>) = unlimited s"
  by (simp_all add: unlimited_def)

text \<open>A transaction is fault-monotone if a successful run succeeds in the same way without faults.\<close>

definition fault_monotone :: "('x, 'a) tx \<Rightarrow> bool" where
  "fault_monotone m \<longleftrightarrow> (\<forall>s a s'. m s = Inr (a, s') \<longrightarrow> m (unlimited s) = Inr (a, unlimited s'))"

definition reads_only :: "('x, 'a) tx \<Rightarrow> bool" where
  "reads_only m \<longleftrightarrow> (\<forall>s a s'. m s = Inr (a, s') \<longrightarrow> tx_db s' = tx_db s)"

named_theorems tx_intros \<open>composition of fault-monotone and read-only transactions\<close>

lemma tx_bind_Inr [result_conv]:
  "tx_bind m f s = Inr r \<longleftrightarrow> (\<exists>a s'. m s = Inr (a, s') \<and> f a s' = Inr r)"
  by (auto simp: tx_bind_def rbind_Inr)

lemma tx_lift_Inr [result_conv]: "tx_lift r s = Inr (a, s') \<longleftrightarrow> r = Inr a \<and> s' = s"
  by (auto simp: tx_lift_def rbind_Inr)

lemma tx_call_Inr: "tx_call s = Inr (u, s') \<Longrightarrow> tx_db s' = tx_db s \<and> unlimited s' = unlimited s"
  by (auto simp: tx_call_def split: option.splits if_splits)

lemma tx_call_unlimited [simp]: "tx_calls s = None \<Longrightarrow> tx_call s = Inr ((), s)"
  by (simp add: tx_call_def)

lemma tx_bind_unlimited [simp]:
  "tx_calls s = None \<Longrightarrow> tx_select q s = Inr (q (tx_db s), s)"
  "tx_calls s = None \<Longrightarrow> tx_update f s = Inr ((), s\<lparr>tx_db := f (tx_db s)\<rparr>)"
  by (simp_all add: tx_select_def tx_update_def tx_bind_def)

lemma fault_monotone_bind [tx_intros]:
  "fault_monotone m \<Longrightarrow> (\<And>a. fault_monotone (f a)) \<Longrightarrow> fault_monotone (tx_bind m f)"
  unfolding fault_monotone_def tx_bind_Inr by blast

lemma fault_monotone_lift [tx_intros]: "fault_monotone (tx_lift r)"
  by (auto simp: fault_monotone_def tx_lift_Inr)

lemma fault_monotone_select [tx_intros]: "fault_monotone (tx_select q)"
  by (auto simp: fault_monotone_def tx_select_def tx_bind_Inr dest!: tx_call_Inr)

lemma fault_monotone_update [tx_intros]: "fault_monotone (tx_update f)"
  unfolding fault_monotone_def tx_update_def tx_bind_Inr
  by (auto simp: tx_bind_def dest!: tx_call_Inr)

lemma fault_monotone_for_each [tx_intros]:
  "(\<And>x. fault_monotone (f x)) \<Longrightarrow> fault_monotone (tx_for_each f xs)"
  by (induction xs) (auto intro: tx_intros)

lemma reads_only_bind [tx_intros]:
  "reads_only m \<Longrightarrow> (\<And>a. reads_only (f a)) \<Longrightarrow> reads_only (tx_bind m f)"
  unfolding reads_only_def tx_bind_Inr by (metis prod.collapse)

lemma reads_only_lift [tx_intros]: "reads_only (tx_lift r)"
  by (auto simp: reads_only_def tx_lift_Inr)

lemma reads_only_select [tx_intros]: "reads_only (tx_select q)"
  by (auto simp: reads_only_def tx_select_def tx_bind_Inr dest!: tx_call_Inr)

lemma fault_monotoneD: "fault_monotone m \<Longrightarrow> m s = Inr (a, s') \<Longrightarrow> m (unlimited s) = Inr (a, unlimited s')"
  by (auto simp: fault_monotone_def)

lemma reads_onlyD: "reads_only m \<Longrightarrow> m s = Inr (a, s') \<Longrightarrow> tx_db s' = tx_db s"
  by (auto simp: reads_only_def)

lemma load_inventory_tx [tx_intros]: "fault_monotone (load_inventory key)" "reads_only (load_inventory key)"
  unfolding load_inventory_def load_table_def by (intro tx_intros)+

lemma load_v2_tx [tx_intros]: "fault_monotone (load_v2 cd key)" "reads_only (load_v2 cd key)"
  unfolding load_v2_def by (intro tx_intros)+

text \<open>The state a load without engine faults finds in the tables.\<close>

definition loaded :: "store_codec \<Rightarrow> 'x store_db \<Rightarrow> sync_state_key \<Rightarrow> sync_state_error + stored_sync_state option" where
  "loaded cd db key = rbind (load_v2 cd key \<lparr>tx_db = db, tx_calls = None\<rparr>) (\<lambda>(r, _). Inr r)"

lemma load_v2_loaded:
  assumes "load_v2 cd key s = Inr (r, s')"
  shows "loaded cd (tx_db s) key = Inr r" "tx_db s' = tx_db s"
proof -
  have "unlimited s = \<lparr>tx_db = tx_db s, tx_calls = None\<rparr>" by (simp add: unlimited_def)
  with fault_monotoneD[OF load_v2_tx(1) assms] show "loaded cd (tx_db s) key = Inr r"
    by (simp add: loaded_def)
  show "tx_db s' = tx_db s" by (rule reads_onlyD[OF load_v2_tx(2) assms])
qed

section \<open>The inventory\<close>

definition component_tables :: "string list" where
  "component_tables = [confirmed_table, outbox_table, outcome_table, id_map_table, subscription_record_table]"

text \<open>Every component row carries the client and the key its record ID is made of.\<close>

definition rows_owned :: "'x store_db \<Rightarrow> bool" where
  "rows_owned db \<longleftrightarrow> (\<forall>t i row. fmlookup (db_components db) (t, i) = Some row \<longrightarrow>
     i = [cr_partition_id row, cr_client_id row, cr_component_key row])"

definition row_ok :: "stored_component_row \<Rightarrow> bool" where
  "row_ok row \<longleftrightarrow>
     (cr_format_version row = format_version \<or> cr_format_version row = subscription_format_version)
     \<and> length (cr_payload row) \<le> max_sync_state_bytes
     \<and> validate_component_key (cr_component_key row) = Inr ()"

definition client_rows :: "string \<Rightarrow> sync_state_key \<Rightarrow> 'x store_db \<Rightarrow> stored_component_row list" where
  "client_rows table key db =
     filter (\<lambda>row. cr_partition_id row = partition_str (fst key) \<and> cr_client_id row = client_str (snd key))
       (map snd (filter (\<lambda>((t, _), _). t = table) (entries (db_components db))))"

lemma in_client_rows:
  assumes "rows_owned db"
  shows "row \<in> set (client_rows table key db) \<longleftrightarrow>
    fmlookup (db_components db) (component_record_id key (table, cr_component_key row)) = Some row
    \<and> cr_partition_id row = partition_str (fst key) \<and> cr_client_id row = client_str (snd key)"
proof -
  have "(\<exists>i. ((table, i), row) \<in> set (entries (db_components db))) \<longleftrightarrow>
      fmlookup (db_components db)
        (table, [cr_partition_id row, cr_client_id row, cr_component_key row]) = Some row"
    using assms by (auto simp: in_entries rows_owned_def)
  then show ?thesis
    by (force simp: client_rows_def component_record_id_def key_row_def)
qed

lemma distinct_client_rows:
  assumes "rows_owned db"
  shows "distinct (map cr_component_key (client_rows table key db))"
proof -
  let ?es = "filter (\<lambda>((t, _), _). t = table) (entries (db_components db))"
  let ?id = "\<lambda>row. (table, [cr_partition_id row, cr_client_id row, cr_component_key row])"
  have "distinct (map fst ?es)"
    using distinct_entries distinct_map_filter by blast
  moreover have "map fst ?es = map (?id \<circ> snd) ?es"
    using assms by (intro map_cong) (auto simp: in_entries rows_owned_def)
  ultimately have "distinct (map ?id (map snd ?es))"
    by simp
  then have "distinct (map ?id (client_rows table key db))"
    unfolding client_rows_def by (rule distinct_map_filter)
  moreover have "\<forall>row \<in> set (client_rows table key db).
      cr_partition_id row = partition_str (fst key) \<and> cr_client_id row = client_str (snd key)"
    by (simp add: client_rows_def)
  ultimately show ?thesis
    by (auto simp: distinct_map inj_on_def)
qed

definition add_rows :: "string \<Rightarrow> inventory \<Rightarrow> stored_component_row list \<Rightarrow> inventory" where
  "add_rows table inventory rows =
     fold (\<lambda>row. fmupd (table, cr_component_key row) (cr_payload row)) rows inventory"

definition fresh :: "string \<Rightarrow> inventory \<Rightarrow> bool" where
  "fresh table inventory \<longleftrightarrow> (\<forall>k. fmlookup inventory (table, k) = None)"

lemma map_len_fmempty [simp]: "map_len fmempty = 0"
  by (simp add: map_len_def fcard.rep_eq)

lemma map_len_0 [simp]: "map_len m = 0 \<longleftrightarrow> m = fmempty"
proof
  assume "map_len m = 0"
  then have "fmdom m = {||}" by (simp add: map_len_def fcard.rep_eq bot_fset.rep_eq fset_inject[symmetric])
  then show "m = fmempty" by (metis fmrestrict_fset_dom fmrestrict_fset_null)
qed simp

lemma map_len_fmupd: "fmlookup m k = None \<Longrightarrow> map_len (fmupd k v m) = Suc (map_len m)"
  by (simp add: map_len_def fmlookup_dom_iff fcard_finsert_disjoint)

lemma add_rows_Cons:
  "add_rows table inventory (row # rows) =
     add_rows table (fmupd (table, cr_component_key row) (cr_payload row) inventory) rows"
  by (simp add: add_rows_def)

lemma add_rows_other:
  "t \<noteq> table \<or> k \<notin> cr_component_key ` set rows \<Longrightarrow>
   fmlookup (add_rows table inventory rows) (t, k) = fmlookup inventory (t, k)"
  by (induction rows arbitrary: inventory) (auto simp: add_rows_Cons add_rows_def)

lemma add_rows_same:
  "row \<in> set rows \<Longrightarrow> distinct (map cr_component_key rows) \<Longrightarrow>
   fmlookup (add_rows table inventory rows) (table, cr_component_key row) = Some (cr_payload row)"
  by (induction rows arbitrary: inventory) (auto simp: add_rows_Cons add_rows_other)

lemma map_len_add_rows:
  "distinct (map cr_component_key rows) \<Longrightarrow>
   \<forall>row \<in> set rows. fmlookup inventory (table, cr_component_key row) = None \<Longrightarrow>
   map_len (add_rows table inventory rows) = map_len inventory + length rows"
proof (induction rows arbitrary: inventory)
  case (Cons row rows)
  let ?inv = "fmupd (table, cr_component_key row) (cr_payload row) inventory"
  have "map_len (add_rows table ?inv rows) = map_len ?inv + length rows"
    using Cons.prems by (intro Cons.IH) auto
  with Cons.prems show ?case by (simp add: add_rows_Cons map_len_fmupd)
qed (simp add: add_rows_def)

definition owned_by :: "sync_state_key \<Rightarrow> stored_component_row \<Rightarrow> bool" where
  "owned_by key row \<longleftrightarrow>
     cr_partition_id row = partition_str (fst key) \<and> cr_client_id row = client_str (snd key)"

lemma inventory_insert_Inr:
  "owned_by key row \<Longrightarrow> fmlookup inventory (table, cr_component_key row) = None \<Longrightarrow>
   inventory_insert key table inventory row = Inr inv' \<longleftrightarrow>
     row_ok row \<and> Suc (map_len inventory) \<le> max_component_items
     \<and> inv' = fmupd (table, cr_component_key row) (cr_payload row) inventory"
  by (auto simp: inventory_insert_def row_ok_def owned_by_def Let_def rbind_Inr contains_key_dom
      fmlookup_dom_iff map_len_fmupd)

lemma try_fold_inventory:
  assumes "\<forall>row \<in> set rows. owned_by key row" "distinct (map cr_component_key rows)"
    and "\<forall>row \<in> set rows. fmlookup inventory (table, cr_component_key row) = None"
    and "map_len inventory \<le> max_component_items"
  shows "try_fold (inventory_insert key table) inventory rows = Inr inv' \<longleftrightarrow>
    list_all row_ok rows \<and> map_len inventory + length rows \<le> max_component_items
    \<and> inv' = add_rows table inventory rows"
  using assms
proof (induction rows arbitrary: inventory)
  case (Cons row rows)
  let ?inv = "fmupd (table, cr_component_key row) (cr_payload row) inventory"
  have len: "map_len ?inv = Suc (map_len inventory)"
    using Cons.prems by (simp add: map_len_fmupd)
  have "try_fold (inventory_insert key table) ?inv rows = Inr inv' \<longleftrightarrow>
      list_all row_ok rows \<and> map_len ?inv + length rows \<le> max_component_items
      \<and> inv' = add_rows table ?inv rows" if "map_len ?inv \<le> max_component_items"
    using Cons.prems that by (intro Cons.IH) auto
  then show ?case
    using Cons.prems len by (auto simp: rbind_Inr inventory_insert_Inr add_rows_Cons)
qed (auto simp: add_rows_def)

lemma load_table_Inr:
  assumes "rows_owned (tx_db s)" "tx_calls s = None" "fresh table inventory"
    and "map_len inventory \<le> max_component_items" and rows_def: "rows = client_rows table key (tx_db s)"
  shows "load_table key inventory table s = Inr (inv', s') \<longleftrightarrow>
    list_all row_ok rows \<and> map_len inventory + length rows \<le> max_component_items
    \<and> inv' = add_rows table inventory rows \<and> s' = s"
proof -
  have sel: "select_components table key (tx_db s) = take (max_component_items + 1) rows"
    by (simp add: select_components_def rows_def client_rows_def)
  have "try_fold (inventory_insert key table) inventory rows = Inr inv' \<longleftrightarrow>
      list_all row_ok rows \<and> map_len inventory + length rows \<le> max_component_items
      \<and> inv' = add_rows table inventory rows"
    using assms(3,4) distinct_client_rows[OF assms(1)]
    by (intro try_fold_inventory) (auto simp: rows_def client_rows_def owned_by_def fresh_def)
  then show ?thesis
    using assms(2) by (auto simp: load_table_def tx_bind_def tx_lift_def sel rbind_Inr)
qed

definition inventory_of :: "sync_state_key \<Rightarrow> 'x store_db \<Rightarrow> inventory" where
  "inventory_of key db = fold (\<lambda>t inv. add_rows t inv (client_rows t key db)) component_tables fmempty"

definition rows_of :: "sync_state_key \<Rightarrow> 'x store_db \<Rightarrow> stored_component_row list" where
  "rows_of key db = concat (map (\<lambda>t. client_rows t key db) component_tables)"

lemma tables_distinct [simp]: "distinct component_tables"
  by code_simp

fun load_tables :: "sync_state_key \<Rightarrow> inventory \<Rightarrow> string list \<Rightarrow> ('x, inventory) tx" where
  "load_tables key inventory [] = tx_lift (Inr inventory)"
| "load_tables key inventory (t # ts) = tx_bind (load_table key inventory t) (\<lambda>inv. load_tables key inv ts)"

lemma tx_bind_lift [simp]: "tx_bind m (\<lambda>a. tx_lift (Inr a)) = m"
  by (auto simp: fun_eq_iff tx_bind_def tx_lift_def rbind_def split: sum.splits)

lemma load_inventory_tables: "load_inventory key = load_tables key fmempty component_tables"
  by (simp add: load_inventory_def component_tables_def)

lemma add_rows_fresh: "fresh t inventory \<Longrightarrow> t \<noteq> table \<Longrightarrow> fresh t (add_rows table inventory rows)"
  by (simp add: fresh_def add_rows_other)

lemma map_len_add_client_rows:
  "rows_owned db \<Longrightarrow> fresh t inventory \<Longrightarrow>
   map_len (add_rows t inventory (client_rows t key db)) = map_len inventory + length (client_rows t key db)"
  by (intro map_len_add_rows) (auto simp: distinct_client_rows fresh_def)

lemma load_tables_Inr:
  assumes "rows_owned (tx_db s)" "tx_calls s = None"
    and "distinct ts" "\<forall>t \<in> set ts. fresh t inventory" "map_len inventory \<le> max_component_items"
  shows "load_tables key inventory ts s = Inr (inv', s') \<longleftrightarrow>
    list_all row_ok (concat (map (\<lambda>t. client_rows t key (tx_db s)) ts))
    \<and> map_len inventory + length (concat (map (\<lambda>t. client_rows t key (tx_db s)) ts)) \<le> max_component_items
    \<and> inv' = fold (\<lambda>t inv. add_rows t inv (client_rows t key (tx_db s))) ts inventory \<and> s' = s"
  using assms(3-5)
proof (induction ts arbitrary: inventory)
  case Nil
  then show ?case by (auto simp: tx_lift_Inr)
next
  case (Cons t ts)
  let ?inv = "add_rows t inventory (client_rows t key (tx_db s))"
  have len: "map_len ?inv = map_len inventory + length (client_rows t key (tx_db s))"
    using Cons.prems assms(1) by (intro map_len_add_client_rows) auto
  have IH: "map_len ?inv \<le> max_component_items \<Longrightarrow> load_tables key ?inv ts s = Inr (inv', s') \<longleftrightarrow>
      list_all row_ok (concat (map (\<lambda>t. client_rows t key (tx_db s)) ts))
      \<and> map_len ?inv + length (concat (map (\<lambda>t. client_rows t key (tx_db s)) ts)) \<le> max_component_items
      \<and> inv' = fold (\<lambda>t inv. add_rows t inv (client_rows t key (tx_db s))) ts ?inv \<and> s' = s"
    using Cons.prems by (intro Cons.IH) (auto intro: add_rows_fresh)
  have fresh: "fresh t inventory" using Cons.prems by simp
  show ?case
    using IH len unfolding load_tables.simps tx_bind_Inr
      load_table_Inr[OF assms(1,2) fresh Cons.prems(3) refl]
    by auto
qed

lemma owned_row:
  assumes "rows_owned db" "fmlookup (db_components db) (component_record_id key (t, k)) = Some row"
  shows "cr_partition_id row = partition_str (fst key)" "cr_client_id row = client_str (snd key)"
    "cr_component_key row = k"
proof -
  from assms have "[partition_str (fst key), client_str (snd key), k] =
      [cr_partition_id row, cr_client_id row, cr_component_key row]"
    unfolding rows_owned_def component_record_id_def key_row_def by fastforce
  then show "cr_partition_id row = partition_str (fst key)" "cr_client_id row = client_str (snd key)"
    "cr_component_key row = k" by simp_all
qed

lemma lookup_client_row:
  assumes "rows_owned db"
  shows "fmlookup (add_rows t inventory (client_rows t key db)) (t, k) =
    (case fmlookup (db_components db) (component_record_id key (t, k)) of
       None \<Rightarrow> fmlookup inventory (t, k) | Some row \<Rightarrow> Some (cr_payload row))"
proof (cases "fmlookup (db_components db) (component_record_id key (t, k))")
  case None
  then have "k \<notin> cr_component_key ` set (client_rows t key db)"
    by (auto simp: in_client_rows[OF assms])
  with None show ?thesis by (simp add: add_rows_other)
next
  case (Some row)
  then have "row \<in> set (client_rows t key db)" "cr_component_key row = k"
    using owned_row[OF assms Some] by (auto simp: in_client_rows[OF assms])
  with Some show ?thesis
    using add_rows_same[OF _ distinct_client_rows[OF assms], of row t key t inventory] by simp
qed

lemma fold_add_rows_lookup:
  assumes "rows_owned db" "distinct ts"
  shows "fmlookup (fold (\<lambda>t inv. add_rows t inv (client_rows t key db)) ts inventory) (t, k) =
    (if t \<in> set ts
     then (case fmlookup (db_components db) (component_record_id key (t, k)) of
             None \<Rightarrow> fmlookup inventory (t, k) | Some row \<Rightarrow> Some (cr_payload row))
     else fmlookup inventory (t, k))"
  using assms(2)
proof (induction ts arbitrary: inventory)
  case (Cons a ts)
  show ?case
  proof (cases "t = a")
    case True
    with Cons show ?thesis by (simp add: lookup_client_row[OF assms(1)] split: option.splits)
  next
    case False
    with Cons show ?thesis by (simp add: add_rows_other split: option.splits)
  qed
qed simp

lemma inventory_of_lookup:
  assumes "rows_owned db"
  shows "fmlookup (inventory_of key db) (t, k) =
    (if t \<in> set component_tables
     then map_option cr_payload (fmlookup (db_components db) (component_record_id key (t, k))) else None)"
  unfolding inventory_of_def fold_add_rows_lookup[OF assms tables_distinct]
  by (auto split: option.splits)

lemma load_inventory_Inr:
  assumes "rows_owned (tx_db s)" "tx_calls s = None"
  shows "load_inventory key s = Inr (found, s') \<longleftrightarrow>
    list_all row_ok (rows_of key (tx_db s)) \<and> length (rows_of key (tx_db s)) \<le> max_component_items
    \<and> found = inventory_of key (tx_db s) \<and> s' = s"
proof -
  have "\<forall>t \<in> set component_tables. fresh t fmempty" "map_len fmempty \<le> max_component_items"
    by (simp_all add: fresh_def)
  from load_tables_Inr[OF assms tables_distinct this] show ?thesis
    by (simp add: load_inventory_tables rows_of_def inventory_of_def)
qed

lemma length_rows_of:
  assumes "rows_owned db"
  shows "length (rows_of key db) = map_len (inventory_of key db)"
proof -
  have "distinct ts \<Longrightarrow> \<forall>t \<in> set ts. fresh t found \<Longrightarrow>
      map_len (fold (\<lambda>t inv. add_rows t inv (client_rows t key db)) ts found) =
      map_len found + length (concat (map (\<lambda>t. client_rows t key db) ts))" for ts found
  proof (induction ts arbitrary: found)
    case (Cons a ts)
    then have "\<forall>t \<in> set ts. fresh t (add_rows a found (client_rows a key db))"
      by (auto intro: add_rows_fresh)
    with Cons show ?case by (simp add: map_len_add_client_rows[OF assms])
  qed simp
  from this[OF tables_distinct, of fmempty] show ?thesis
    by (simp add: rows_of_def inventory_of_def fresh_def)
qed

lemma in_rows_of:
  assumes "rows_owned db"
  shows "row \<in> set (rows_of key db) \<longleftrightarrow> (\<exists>t \<in> set component_tables. \<exists>k.
    fmlookup (db_components db) (component_record_id key (t, k)) = Some row)"
proof -
  have "row \<in> set (client_rows t key db) \<longleftrightarrow>
      (\<exists>k. fmlookup (db_components db) (component_record_id key (t, k)) = Some row)" for t
    using owned_row[OF assms] unfolding in_client_rows[OF assms] by blast
  then show ?thesis by (simp add: rows_of_def)
qed

end
