(* ===== verification/Store_Decode.thy ===== *)
theory Store_Decode
  imports Store_Load
begin

text \<open>
  Decoding an inventory: the loop that takes the components of one table out of the
  inventory, and the exact set of metadata rows and inventories that decode to a state.
\<close>

section \<open>Taking components\<close>

definition without :: "string \<Rightarrow> string list \<Rightarrow> inventory \<Rightarrow> inventory" where
  "without t ks m = fmfilter (\<lambda>a. fst a \<noteq> t \<or> snd a \<notin> set ks) m"

lemma lookup_without [simp]:
  "fmlookup (without t ks m) a = (if fst a = t \<and> snd a \<in> set ks then None else fmlookup m a)"
  by (simp add: without_def)

definition part ::
  "string \<Rightarrow> (string \<Rightarrow> byte list \<Rightarrow> sync_state_error + 'a) \<Rightarrow> inventory \<Rightarrow> string list \<Rightarrow> 'a list \<Rightarrow> bool" where
  "part t g m ks vs \<longleftrightarrow> distinct ks \<and>
     list_all2 (\<lambda>k v. \<exists>b. fmlookup m (t, k) = Some b \<and> g k b = Inr v) ks vs"

lemma part_cong: "(\<And>k. k \<in> set ks \<Longrightarrow> fmlookup m (t, k) = fmlookup m' (t, k)) \<Longrightarrow> part t g m ks vs = part t g m' ks vs"
  by (auto simp: part_def list_all2_conv_all_nth)

lemma part_without [simp]: "t \<noteq> t' \<Longrightarrow> part t g (without t' ks' m) ks vs = part t g m ks vs"
  by (intro part_cong) auto

lemma take_component_Inr:
  "take_component m a = Inr (b, m') \<longleftrightarrow> fmlookup m a = Some b \<and> m' = fmdrop a m"
  by (auto simp: take_component_def split: option.splits)

lemma take_all_Inr:
  assumes f: "\<And>m k. f m k = rbind (take_component m (t, k)) (\<lambda>(b, m'). rbind (g k b) (\<lambda>v. Inr (v, m')))"
  shows "take_all f m ks = Inr (vs, m') \<longleftrightarrow> part t g m ks vs \<and> m' = without t ks m"
proof (induction ks arbitrary: m vs)
  case Nil
  then show ?case by (auto simp: part_def without_def)
next
  case (Cons k ks)
  have step: "f m k = Inr (v, m2) \<longleftrightarrow> (\<exists>b. fmlookup m (t, k) = Some b \<and> g k b = Inr v) \<and> m2 = fmdrop (t, k) m" for v m2
    by (auto simp: f rbind_Inr take_component_Inr)
  have drop: "without t ks (fmdrop (t, k) m) = without t (k # ks) m"
    by (rule fmap_ext) auto
  have split: "part t g m (k # ks) (v # ws) \<longleftrightarrow>
      (\<exists>b. fmlookup m (t, k) = Some b \<and> g k b = Inr v) \<and> part t g (fmdrop (t, k) m) ks ws" for v ws
  proof -
    have "part t g (fmdrop (t, k) m) ks ws \<longleftrightarrow> k \<notin> set ks \<and> part t g m ks ws"
      by (auto simp: part_def list_all2_conv_all_nth in_set_conv_nth)
    then show ?thesis by (auto simp: part_def)
  qed
  have "\<not> part t g m (k # ks) []" by (simp add: part_def)
  then show ?case
    by (cases vs) (auto simp: rbind_Inr step Cons.IH split drop)
qed

definition decode_as :: "store_codec \<Rightarrow> (json \<Rightarrow> 'a option) \<Rightarrow> (string \<Rightarrow> 'a \<Rightarrow> bool) \<Rightarrow> string \<Rightarrow> byte list \<Rightarrow> sync_state_error + 'a" where
  "decode_as cd from_value belongs k b =
     rbind (decode_tagged cd from_value b) (\<lambda>v. if belongs k v then Inr v else Inl CorruptState)"

lemma decode_as_Inr: "decode_as cd from_value belongs k b = Inr v \<longleftrightarrow> decode_tagged cd from_value b = Inr v \<and> belongs k v"
  by (auto simp: decode_as_def rbind_Inr)

definition decode_row :: "store_codec \<Rightarrow> json durable_subscriptions option \<Rightarrow> string \<Rightarrow> byte list \<Rightarrow> sync_state_error + json subscription_row" where
  "decode_row cd subs k b = rbind (ok_or CorruptState subs) (\<lambda>_. decode_tagged cd (json_row cd) b)"

lemma decode_row_Inr: "decode_row cd subs k b = Inr v \<longleftrightarrow> subs \<noteq> None \<and> decode_tagged cd (json_row cd) b = Inr v"
  by (auto simp: decode_row_def rbind_Inr ok_or_Inr)

lemma take_all_decoded:
  "take_all (take_decoded cd from_value belongs t) m ks = Inr (vs, m') \<longleftrightarrow>
     part t (decode_as cd from_value belongs) m ks vs \<and> m' = without t ks m"
proof (rule take_all_Inr)
  show "take_decoded cd from_value belongs t m k =
      rbind (take_component m (t, k)) (\<lambda>(b, m'). rbind (decode_as cd from_value belongs k b) (\<lambda>v. Inr (v, m')))" for m k
    by (auto simp: take_decoded_def decode_as_def rbind_def split: sum.splits)
qed

lemma take_all_rows:
  "take_all (take_row cd subs) m ks = Inr (vs, m') \<longleftrightarrow>
     part subscription_record_table (decode_row cd subs) m ks vs \<and> m' = without subscription_record_table ks m"
proof (rule take_all_Inr)
  show "take_row cd subs m k =
      rbind (take_component m (subscription_record_table, k))
        (\<lambda>(b, m'). rbind (decode_row cd subs k b) (\<lambda>v. Inr (v, m')))" for m k
    by (auto simp: take_row_def decode_row_def rbind_def split: sum.splits)
qed

lemma table_names [simp]:
  "confirmed_table \<noteq> outbox_table" "confirmed_table \<noteq> outcome_table" "confirmed_table \<noteq> id_map_table"
  "confirmed_table \<noteq> subscription_record_table" "outbox_table \<noteq> outcome_table" "outbox_table \<noteq> id_map_table"
  "outbox_table \<noteq> subscription_record_table" "outcome_table \<noteq> id_map_table"
  "outcome_table \<noteq> subscription_record_table" "id_map_table \<noteq> subscription_record_table"
  by code_simp+

declare table_names [symmetric, simp]

section \<open>Decoding a state\<close>

definition decoded_state ::
  "state_meta \<Rightarrow> u64 \<Rightarrow> u64 \<Rightarrow> json record_state list \<Rightarrow> json client_commit list \<Rightarrow> json resolved_commit list \<Rightarrow>
   record_id list \<Rightarrow> json subscription_row list \<Rightarrow> stored_sync_state" where
  "decoded_state meta sub_revision rev_number rows commits resolved mapped srows =
     \<lparr>partition_id = PartitionId (sm_partition_id meta), client_id = ClientId (sm_client_id meta),
      requested_scope = ScopeIdentity (sm_requested_scope meta),
      subscription_revision = sub_revision, revision = rev_number,
      confirmed = map_from (sm_confirmed_keys meta) rows, outbox = commits, outcomes = resolved,
      checkpoint = sm_checkpoint meta, reset_coverage = sm_reset_coverage meta,
      id_map = map_from (sm_id_map_keys meta) mapped,
      subscriptions = map_option
        (\<lambda>subs. subs\<lparr>records := map_from (sm_subscription_record_keys meta) srows\<rparr>)
        (sm_subscriptions meta)\<rparr>"

lemma invalid_case:
  "(case validate s of Inl e \<Rightarrow> Inl (InvalidState e) | Inr _ \<Rightarrow> Inr x) = Inr y \<longleftrightarrow> valid_state s \<and> y = x"
  using validate_iff[of s] by (cases "validate s") auto

lemma error_if_Inr: "(if b then Inl e else r) = Inr x \<longleftrightarrow> \<not> b \<and> r = Inr x"
  by auto

lemma decode_state_iff:
  "decode_state cd key row m = Inr s \<longleftrightarrow>
    (\<exists>meta rows commits resolved mapped srows sub_revision rev_number.
       validate_meta_row key row = Inr () \<and> decode_tagged cd (value_meta cd) (mr_payload row) = Inr meta
       \<and> validate_meta key row m meta = Inr ()
       \<and> part confirmed_table (decode_as cd (value_record cd) (\<lambda>_ _. True)) m
           (map record_str (sm_confirmed_keys meta)) rows
       \<and> part outbox_table (decode_as cd (value_commit cd) (\<lambda>k c. commit_key c = k)) m
           (sm_outbox_keys meta) commits
       \<and> part outcome_table (decode_as cd (value_outcome cd) (\<lambda>k r. commit_key (local_commit r) = k)) m
           (sm_outcome_keys meta) resolved
       \<and> part id_map_table (decode_as cd (value_mapping cd) (\<lambda>_ _. True)) m
           (map record_str (sm_id_map_keys meta)) mapped
       \<and> (\<forall>subs. sm_subscriptions meta = Some subs \<longrightarrow> records subs = fmempty)
       \<and> part subscription_record_table (decode_row cd (sm_subscriptions meta)) m
           (sm_subscription_record_keys meta) srows
       \<and> (\<forall>t k. fmlookup m (t, k) = None
            \<or> t = confirmed_table \<and> k \<in> record_str ` set (sm_confirmed_keys meta)
            \<or> t = outbox_table \<and> k \<in> set (sm_outbox_keys meta)
            \<or> t = outcome_table \<and> k \<in> set (sm_outcome_keys meta)
            \<or> t = id_map_table \<and> k \<in> record_str ` set (sm_id_map_keys meta)
            \<or> t = subscription_record_table \<and> k \<in> set (sm_subscription_record_keys meta))
       \<and> parse_revision (sm_subscription_revision meta) = Inr sub_revision
       \<and> parse_revision (sm_revision meta) = Inr rev_number
       \<and> s = decoded_state meta sub_revision rev_number rows commits resolved mapped srows
       \<and> valid_state s)"
proof -
  have empty: "without t5 ks5 (without t4 ks4 (without t3 ks3 (without t2 ks2 (without t1 ks1 m)))) = fmempty \<longleftrightarrow>
      (\<forall>t k. fmlookup m (t, k) = None \<or> t = t1 \<and> k \<in> set ks1 \<or> t = t2 \<and> k \<in> set ks2
         \<or> t = t3 \<and> k \<in> set ks3 \<or> t = t4 \<and> k \<in> set ks4 \<or> t = t5 \<and> k \<in> set ks5)" for t1 ks1 t2 ks2 t3 ks3 t4 ks4 t5 ks5
  proof -
    have E: "M = fmempty \<longleftrightarrow> (\<forall>t k. fmlookup M (t, k) = None)" for M :: inventory
      by (metis fmap_ext fmempty_lookup surj_pair)
    have L: "fmlookup (without t ks M) (t', k) = None \<longleftrightarrow> fmlookup M (t', k) = None \<or> t' = t \<and> k \<in> set ks"
      for t ks M t' k by auto
    show ?thesis unfolding E L by (simp only: disj_assoc)
  qed
  have subs: "is_some_and x (\<lambda>subs. records subs \<noteq> fmempty) \<longleftrightarrow>
      \<not> (\<forall>subs. x = Some subs \<longrightarrow> records subs = fmempty)" for x :: "json durable_subscriptions option"
    by (auto simp: is_some_and_iff)
  show ?thesis
    unfolding decode_state_def
    by (simp add: rbind_Inr take_all_decoded take_all_rows empty subs decoded_state_def[symmetric]
        invalid_case error_if_Inr Let_def split_paired_Ex cong: conj_cong) blast
qed

section \<open>Maps and their key lists\<close>

lemma strictly_sorted_iff [simp]: "strictly_sorted xs \<longleftrightarrow> sorted_wrt (<) xs"
  unfolding strictly_sorted_def list_all_iff sorted_wrt_iff_nth_Suc_transp[OF transp_on_less]
  using windows2_set[of _ _ xs] by fastforce

lemma assoc_by_keys:
  assumes "distinct (map fst xs)"
  shows "xs = map (\<lambda>k. (k, the (map_of xs k))) (map fst xs)"
proof (rule nth_equalityI)
  fix i assume "i < length xs"
  then have "map_of xs (fst (xs ! i)) = Some (snd (xs ! i))"
    using assms by (simp add: map_of_eq_Some_iff)
  with \<open>i < length xs\<close> show "xs ! i = map (\<lambda>k. (k, the (map_of xs k))) (map fst xs) ! i"
    by (simp add: prod_eq_iff)
qed simp

lemma entries_unique:
  assumes "sorted_wrt (<) (map fst xs)" "map_of xs = fmlookup m"
  shows "entries m = xs"
proof -
  have d: "distinct (map fst xs)"
    using assms(1) strict_sorted_iff by blast
  have "set (map fst xs) = set (map fst (entries m))"
    using assms(2) by (metis dom_map_of_conv_image_fst list.set_map map_of_entries)
  then have "map fst xs = map fst (entries m)"
    using assms(1) sorted_entries[of m] by (metis strict_sorted_equal)
  then show ?thesis
    using assoc_by_keys[OF d] assoc_by_keys[OF distinct_entries[of m]] assms(2)
    by (metis map_of_entries)
qed

lemma map_from_lookup:
  assumes "distinct ks" "length vs = length ks"
  shows "fmlookup (map_from ks vs) = map_of (zip ks vs)"
proof -
  have "distinct (map fst kvs) \<Longrightarrow> fmlookup (fold (\<lambda>(k, v). fmupd k v) kvs m) = fmlookup m ++ map_of kvs"
    for kvs :: "('a \<times> 'b) list" and m
  proof (induction kvs arbitrary: m)
    case (Cons kv kvs)
    obtain k v where kv: "kv = (k, v)" by fastforce
    have "map_of kvs k = None" using Cons.prems by (simp add: kv map_of_eq_None_iff)
    with Cons show ?case by (auto simp: kv fun_eq_iff map_add_def split: option.splits)
  qed simp
  moreover have "fmlookup (fmempty :: ('a, 'b) fmap) = Map.empty" by (simp add: fun_eq_iff)
  ultimately show ?thesis
    using assms by (simp add: map_from_def)
qed

lemma entries_map_from:
  "sorted_wrt (<) ks \<Longrightarrow> length vs = length ks \<Longrightarrow> entries (map_from ks vs) = zip ks vs"
  by (intro entries_unique) (auto simp: map_from_lookup strict_sorted_iff)

lemma map_from_entries: "map_from (map fst (entries m)) (map snd (entries m)) = m"
proof -
  have "fmlookup (map_from (map fst (entries m)) (map snd (entries m))) = fmlookup m"
    using distinct_entries[of m]
    by (simp add: map_from_lookup zip_map_fst_snd map_of_entries)
  then show ?thesis by (simp add: fmap_ext)
qed

section \<open>What a row set represents\<close>

definition address_in :: "stored_sync_state \<Rightarrow> component_address \<Rightarrow> bool" where
  "address_in s a \<longleftrightarrow>
     fst a = confirmed_table \<and> RecordId (snd a) |\<in>| fmdom (confirmed s)
     \<or> fst a = outbox_table \<and> snd a \<in> commit_key ` set (outbox s)
     \<or> fst a = outcome_table \<and> snd a \<in> (commit_key \<circ> local_commit) ` set (outcomes s)
     \<or> fst a = id_map_table \<and> RecordId (snd a) |\<in>| fmdom (id_map s)
     \<or> fst a = subscription_record_table \<and> snd a |\<in>| fmdom (subscription_records s)"

definition decodes :: "store_codec \<Rightarrow> stored_sync_state \<Rightarrow> component_address \<Rightarrow> byte list \<Rightarrow> bool" where
  "decodes cd s a b \<longleftrightarrow>
     fst a = confirmed_table \<and> (\<exists>v. fmlookup (confirmed s) (RecordId (snd a)) = Some v
        \<and> decode_tagged cd (value_record cd) b = Inr v)
     \<or> fst a = outbox_table \<and> (\<exists>c \<in> set (outbox s). commit_key c = snd a
        \<and> decode_tagged cd (value_commit cd) b = Inr c)
     \<or> fst a = outcome_table \<and> (\<exists>r \<in> set (outcomes s). commit_key (local_commit r) = snd a
        \<and> decode_tagged cd (value_outcome cd) b = Inr r)
     \<or> fst a = id_map_table \<and> (\<exists>v. fmlookup (id_map s) (RecordId (snd a)) = Some v
        \<and> decode_tagged cd (value_mapping cd) b = Inr v)
     \<or> fst a = subscription_record_table \<and> (\<exists>v. fmlookup (subscription_records s) (snd a) = Some v
        \<and> decode_tagged cd (json_row cd) b = Inr v)"

definition represents ::
  "store_codec \<Rightarrow> sync_state_key \<Rightarrow> stored_meta_row \<Rightarrow> inventory \<Rightarrow> stored_sync_state \<Rightarrow> bool" where
  "represents cd key row m s \<longleftrightarrow>
     key = (partition_id s, client_id s) \<and> validate_meta_row key row = Inr ()
     \<and> decode_tagged cd (value_meta cd) (mr_payload row) = Inr (state_meta_of s)
     \<and> (mr_format_version row = subscription_format_version \<longleftrightarrow> subscriptions s \<noteq> None)
     \<and> component_count s \<le> max_component_items
     \<and> payload_bytes (mr_payload row) m \<le> max_aggregate_state_bytes \<and> valid_state s
     \<and> (\<forall>a. fmlookup m a \<noteq> None \<longleftrightarrow> address_in s a)
     \<and> (\<forall>a b. fmlookup m a = Some b \<longrightarrow> decodes cd s a b)"

lemma commit_key_inject [simp]: "commit_key c = commit_key d \<longleftrightarrow> commit_id_of c = commit_id_of d"
  by (auto simp: commit_key_def intro: client_commit_id.expand)

lemma distinct_commit_keys:
  assumes "valid_state s"
  shows "distinct (map commit_key (outbox s))" "distinct (map (commit_key \<circ> local_commit) (outcomes s))"
  using assms
  by (auto simp: valid_state_def all_commits_def distinct_map inj_on_def comp_def)

lemma parse_revision_text [simp]: "parse_revision (u64_text n) = Inr n"
  by (simp add: parse_revision_def)

lemma parse_revision_Inr: "parse_revision t = Inr n \<Longrightarrow> t = u64_text n"
  by (auto simp: parse_revision_def rbind_Inr ok_or_Inr error_if_Inr split: if_splits)

section \<open>Decoding accepts exactly the representations\<close>

lemma part_map:
  assumes "distinct (map f xs)" "\<And>x. x \<in> set xs \<Longrightarrow> \<exists>b. fmlookup m (t, f x) = Some b \<and> g (f x) b = Inr (h x)"
  shows "part t g m (map f xs) (map h xs)"
  using assms by (auto simp: part_def list_all2_conv_all_nth)

lemma part_keys:
  assumes "part t g m ks vs"
  shows "distinct ks" "length vs = length ks"
    and "\<And>k v. (k, v) \<in> set (zip ks vs) \<Longrightarrow> \<exists>b. fmlookup m (t, k) = Some b \<and> g k b = Inr v"
proof -
  have "list_all2 (\<lambda>k v. \<exists>b. fmlookup m (t, k) = Some b \<and> g k b = Inr v) ks vs"
    and d: "distinct ks" using assms by (simp_all add: part_def)
  then show "distinct ks" "length vs = length ks"
    "\<And>k v. (k, v) \<in> set (zip ks vs) \<Longrightarrow> \<exists>b. fmlookup m (t, k) = Some b \<and> g k b = Inr v"
    by (auto simp: list_all2_iff)
qed

lemma record_keys: "k \<in> record_str ` fset (fmdom m) \<longleftrightarrow> RecordId k |\<in>| fmdom m"
  by (metis image_iff record_id.collapse record_id.sel)

lemma address_in_meta:
  "address_in s (t, k) \<longleftrightarrow>
     t = confirmed_table \<and> k \<in> record_str ` set (sm_confirmed_keys (state_meta_of s))
     \<or> t = outbox_table \<and> k \<in> set (sm_outbox_keys (state_meta_of s))
     \<or> t = outcome_table \<and> k \<in> set (sm_outcome_keys (state_meta_of s))
     \<or> t = id_map_table \<and> k \<in> record_str ` set (sm_id_map_keys (state_meta_of s))
     \<or> t = subscription_record_table \<and> k \<in> set (sm_subscription_record_keys (state_meta_of s))"
  unfolding address_in_def state_meta_of_def state_meta.select_convs entries_keys_set record_keys
  by simp

lemma represents_row:
  assumes "represents cd key row m s" "address_in s a"
  shows "\<exists>b. fmlookup m a = Some b \<and> decodes cd s a b"
  using assms unfolding represents_def by blast

lemma record_part:
  assumes "\<And>r v. fmlookup conf r = Some v \<Longrightarrow>
    \<exists>b. fmlookup m (t, record_str r) = Some b \<and> decode_tagged cd from_value b = Inr v"
  shows "part t (decode_as cd from_value (\<lambda>_ _. True)) m
    (map (record_str \<circ> fst) (entries conf)) (map snd (entries conf))"
proof (rule part_map)
  show "distinct (map (record_str \<circ> fst) (entries conf))"
    using distinct_entries[of conf] by (auto simp: distinct_map inj_on_def record_id.expand)
  fix x assume "x \<in> set (entries conf)"
  then have "fmlookup conf (fst x) = Some (snd x)" by (metis in_entries prod.collapse)
  then show "\<exists>b. fmlookup m (t, (record_str \<circ> fst) x) = Some b
      \<and> decode_as cd from_value (\<lambda>_ _. True) ((record_str \<circ> fst) x) b = Inr (snd x)"
    using assms by (auto simp: decode_as_Inr)
qed

lemma keyed_part:
  assumes "distinct (map key_of xs)"
    and "\<And>x. x \<in> set xs \<Longrightarrow> \<exists>b y. fmlookup m (t, key_of x) = Some b \<and> y \<in> set xs \<and> key_of y = key_of x
           \<and> decode_tagged cd from_value b = Inr y"
  shows "part t (decode_as cd from_value (\<lambda>k x. key_of x = k)) m (map key_of xs) (map (\<lambda>x. x) xs)"
proof (rule part_map[OF assms(1)])
  fix x assume x: "x \<in> set xs"
  then obtain b y where "fmlookup m (t, key_of x) = Some b" "y \<in> set xs" "key_of y = key_of x"
      "decode_tagged cd from_value b = Inr y" using assms(2) by blast
  moreover have "y = x" using calculation x assms(1) by (auto simp: distinct_map inj_on_def)
  ultimately show "\<exists>b. fmlookup m (t, key_of x) = Some b
      \<and> decode_as cd from_value (\<lambda>k x. key_of x = k) (key_of x) b = Inr x"
    by (auto simp: decode_as_Inr)
qed

lemma row_part:
  assumes rep: "represents cd key row m s"
  shows "part subscription_record_table (decode_row cd (take_records (subscriptions s))) m
    (map fst (entries (subscription_records s))) (map snd (entries (subscription_records s)))"
proof (rule part_map[OF distinct_entries])
  fix x assume "x \<in> set (entries (subscription_records s))"
  then have "fmlookup (subscription_records s) (fst x) = Some (snd x)" by (metis in_entries prod.collapse)
  then show "\<exists>b. fmlookup m (subscription_record_table, fst x) = Some b
      \<and> decode_row cd (take_records (subscriptions s)) (fst x) b = Inr (snd x)"
    using represents_row[OF rep, of "(subscription_record_table, fst x)"]
    by (auto simp: address_in_def decodes_def decode_row_Inr fmlookup_dom_iff
        take_records_def subscription_records_def split: option.splits)
qed

lemma represents_parts:
  assumes rep: "represents cd key row m s"
  shows "part confirmed_table (decode_as cd (value_record cd) (\<lambda>_ _. True)) m
      (map (record_str \<circ> fst) (entries (confirmed s))) (map snd (entries (confirmed s)))"
    and "part id_map_table (decode_as cd (value_mapping cd) (\<lambda>_ _. True)) m
      (map (record_str \<circ> fst) (entries (id_map s))) (map snd (entries (id_map s)))"
    and "part outbox_table (decode_as cd (value_commit cd) (\<lambda>k c. commit_key c = k)) m
      (map commit_key (outbox s)) (map (\<lambda>c. c) (outbox s))"
    and "part outcome_table (decode_as cd (value_outcome cd) (\<lambda>k r. commit_key (local_commit r) = k)) m
      (map (\<lambda>r. commit_key (local_commit r)) (outcomes s)) (map (\<lambda>r. r) (outcomes s))"
proof -
  have valid: "valid_state s" using rep by (simp add: represents_def)
  show "part confirmed_table (decode_as cd (value_record cd) (\<lambda>_ _. True)) m
      (map (record_str \<circ> fst) (entries (confirmed s))) (map snd (entries (confirmed s)))"
    using represents_row[OF rep, of "(confirmed_table, record_str _)"]
    by (intro record_part) (fastforce simp: address_in_def decodes_def fmlookup_dom_iff)
  show "part id_map_table (decode_as cd (value_mapping cd) (\<lambda>_ _. True)) m
      (map (record_str \<circ> fst) (entries (id_map s))) (map snd (entries (id_map s)))"
    using represents_row[OF rep, of "(id_map_table, record_str _)"]
    by (intro record_part) (fastforce simp: address_in_def decodes_def fmlookup_dom_iff)
  show "part outbox_table (decode_as cd (value_commit cd) (\<lambda>k c. commit_key c = k)) m
      (map commit_key (outbox s)) (map (\<lambda>c. c) (outbox s))"
    using represents_row[OF rep, of "(outbox_table, commit_key _)"]
    by (intro keyed_part distinct_commit_keys[OF valid]) (fastforce simp: address_in_def decodes_def)
  show "part outcome_table (decode_as cd (value_outcome cd) (\<lambda>k r. commit_key (local_commit r) = k)) m
      (map (\<lambda>r. commit_key (local_commit r)) (outcomes s)) (map (\<lambda>r. r) (outcomes s))"
    using represents_row[OF rep, of "(outcome_table, commit_key (local_commit _))"]
      distinct_commit_keys(2)[OF valid]
    by (intro keyed_part) (fastforce simp: address_in_def decodes_def comp_def)+
qed

lemma decode_state_complete:
  assumes rep: "represents cd key row m s"
  shows "decode_state cd key row m = Inr s"
proof -
  let ?meta = "state_meta_of s" and ?subs = "subscription_records s"
  have valid: "valid_state s" and key: "key = (partition_id s, client_id s)"
    using rep by (auto simp: represents_def)
  have meta: "validate_meta key row m ?meta = Inr ()"
    using rep sorted_entries[of "confirmed s"] sorted_entries[of "id_map s"] sorted_entries[of ?subs]
    by (auto simp: validate_meta_def represents_def state_meta_of_def take_records_def component_count_def
        length_entries)
  have only: "fmlookup m (t, k) = None
      \<or> t = confirmed_table \<and> k \<in> record_str ` set (sm_confirmed_keys ?meta)
      \<or> t = outbox_table \<and> k \<in> set (sm_outbox_keys ?meta)
      \<or> t = outcome_table \<and> k \<in> set (sm_outcome_keys ?meta)
      \<or> t = id_map_table \<and> k \<in> record_str ` set (sm_id_map_keys ?meta)
      \<or> t = subscription_record_table \<and> k \<in> set (sm_subscription_record_keys ?meta)" for t k
  proof -
    have "address_in s (t, k) \<or> fmlookup m (t, k) = None"
      using rep unfolding represents_def by blast
    then show ?thesis unfolding address_in_meta by blast
  qed
  have state: "decoded_state ?meta (subscription_revision s) (revision s) (map snd (entries (confirmed s)))
      (outbox s) (outcomes s) (map snd (entries (id_map s))) (map snd (entries ?subs)) = s"
    by (cases "subscriptions s")
      (simp_all add: decoded_state_def state_meta_of_def map_from_entries take_records_def subscription_records_def)
  show ?thesis
    unfolding decode_state_iff
    using rep represents_parts[OF rep] row_part[OF rep] meta only state valid key
    by (intro exI[of _ ?meta] exI[of _ "map snd (entries (confirmed s))"] exI[of _ "outbox s"]
        exI[of _ "outcomes s"] exI[of _ "map snd (entries (id_map s))"] exI[of _ "map snd (entries ?subs)"]
        exI[of _ "subscription_revision s"] exI[of _ "revision s"])
      (auto simp: represents_def state_meta_of_def take_records_def comp_def)
qed

lemma record_map_part:
  assumes "part t (decode_as cd from_value (\<lambda>_ _. True)) m (map record_str ks) vs" "sorted_wrt (<) ks"
  shows "entries (map_from ks vs) = zip ks vs" "map fst (entries (map_from ks vs)) = ks"
    and "\<And>k. RecordId k |\<in>| fmdom (map_from ks vs) \<Longrightarrow> fmlookup m (t, k) \<noteq> None"
    and "\<And>k b. RecordId k |\<in>| fmdom (map_from ks vs) \<Longrightarrow> fmlookup m (t, k) = Some b \<Longrightarrow>
      \<exists>v. fmlookup (map_from ks vs) (RecordId k) = Some v \<and> decode_tagged cd from_value b = Inr v"
proof -
  have len: "length vs = length ks" using part_keys(2)[OF assms(1)] by simp
  show e: "entries (map_from ks vs) = zip ks vs" "map fst (entries (map_from ks vs)) = ks"
    using entries_map_from[OF assms(2) len] len by simp_all
  have row: "\<exists>b. fmlookup m (t, k) = Some b \<and> decode_tagged cd from_value b = Inr v"
    if "fmlookup (map_from ks vs) (RecordId k) = Some v" for k v
  proof -
    have "(RecordId k, v) \<in> set (zip ks vs)" using that e(1) by (metis in_entries)
    then have "(k, v) \<in> set (zip (map record_str ks) vs)"
      by (force simp: zip_map1)
    from part_keys(3)[OF assms(1) this] show ?thesis by (auto simp: decode_as_Inr)
  qed
  then show "RecordId k |\<in>| fmdom (map_from ks vs) \<Longrightarrow> fmlookup m (t, k) \<noteq> None"
    "RecordId k |\<in>| fmdom (map_from ks vs) \<Longrightarrow> fmlookup m (t, k) = Some b \<Longrightarrow>
      \<exists>v. fmlookup (map_from ks vs) (RecordId k) = Some v \<and> decode_tagged cd from_value b = Inr v" for k b
    by (fastforce simp: fmlookup_dom_iff)+
qed

lemma keyed_list_part:
  assumes "part t (decode_as cd from_value (\<lambda>k x. key_of x = k)) m ks xs"
  shows "map key_of xs = ks"
    and "\<And>k. k \<in> key_of ` set xs \<Longrightarrow> fmlookup m (t, k) \<noteq> None"
    and "\<And>k b. k \<in> key_of ` set xs \<Longrightarrow> fmlookup m (t, k) = Some b \<Longrightarrow>
      \<exists>x \<in> set xs. key_of x = k \<and> decode_tagged cd from_value b = Inr x"
proof -
  have l: "list_all2 (\<lambda>k v. \<exists>b. fmlookup m (t, k) = Some b \<and> decode_tagged cd from_value b = Inr v \<and> key_of v = k) ks xs"
    using assms by (simp add: part_def decode_as_Inr)
  show "map key_of xs = ks"
    using l by (intro nth_equalityI) (auto simp: list_all2_conv_all_nth)
  have row: "\<exists>b. fmlookup m (t, key_of x) = Some b \<and> decode_tagged cd from_value b = Inr x" if "x \<in> set xs" for x
    using l that by (auto simp: list_all2_conv_all_nth in_set_conv_nth)
  show "k \<in> key_of ` set xs \<Longrightarrow> fmlookup m (t, k) \<noteq> None"
    "k \<in> key_of ` set xs \<Longrightarrow> fmlookup m (t, k) = Some b \<Longrightarrow>
      \<exists>x \<in> set xs. key_of x = k \<and> decode_tagged cd from_value b = Inr x" for k b
    using row by fastforce+
qed

lemma subscription_rows_part:
  assumes "part subscription_record_table (decode_row cd subs) m ks vs" "sorted_wrt (<) ks"
    and "\<forall>s. subs = Some s \<longrightarrow> records s = fmempty"
  defines "subs' \<equiv> map_option (\<lambda>s. s\<lparr>records := map_from ks vs\<rparr>) subs"
  shows "take_records subs' = subs"
    and "map fst (entries (case subs' of None \<Rightarrow> fmempty | Some s \<Rightarrow> records s)) = ks"
    and "\<And>k. k |\<in>| fmdom (case subs' of None \<Rightarrow> fmempty | Some s \<Rightarrow> records s) \<Longrightarrow>
      fmlookup m (subscription_record_table, k) \<noteq> None"
    and "\<And>k b. k |\<in>| fmdom (case subs' of None \<Rightarrow> fmempty | Some s \<Rightarrow> records s) \<Longrightarrow>
      fmlookup m (subscription_record_table, k) = Some b \<Longrightarrow>
      \<exists>v. fmlookup (case subs' of None \<Rightarrow> fmempty | Some s \<Rightarrow> records s) k = Some v
        \<and> decode_tagged cd (json_row cd) b = Inr v"
proof -
  let ?recs = "case subs' of None \<Rightarrow> fmempty | Some s \<Rightarrow> records s"
  have len: "length vs = length ks" using part_keys(2)[OF assms(1)] by simp
  show "take_records subs' = subs"
    using assms(3) by (cases subs) (auto simp: take_records_def subs'_def)
  have none: "subs = None \<Longrightarrow> ks = []"
    using assms(1) by (cases ks; cases vs) (auto simp: part_def decode_row_Inr)
  have e: "entries ?recs = zip ks vs"
    using none entries_map_from[OF assms(2) len] by (cases subs) (auto simp: subs'_def)
  show "map fst (entries ?recs) = ks" using e len by simp
  have row: "\<exists>b. fmlookup m (subscription_record_table, k) = Some b \<and> decode_tagged cd (json_row cd) b = Inr v"
    if "fmlookup ?recs k = Some v" for k v
  proof -
    have "(k, v) \<in> set (zip ks vs)" using that e by (metis in_entries)
    from part_keys(3)[OF assms(1) this] show ?thesis by (auto simp: decode_row_Inr)
  qed
  show "k |\<in>| fmdom ?recs \<Longrightarrow> fmlookup m (subscription_record_table, k) \<noteq> None"
    "k |\<in>| fmdom ?recs \<Longrightarrow> fmlookup m (subscription_record_table, k) = Some b \<Longrightarrow>
      \<exists>v. fmlookup ?recs k = Some v \<and> decode_tagged cd (json_row cd) b = Inr v" for k b
    using row by (fastforce simp: fmlookup_dom_iff)+
qed

lemma decode_state_sound:
  assumes "decode_state cd key row m = Inr s"
  shows "represents cd key row m s"
proof -
  obtain meta rows commits resolved mapped srows sub_revision rev_number where
    v: "validate_meta_row key row = Inr ()"
    and dec: "decode_tagged cd (value_meta cd) (mr_payload row) = Inr meta"
    and vm: "validate_meta key row m meta = Inr ()"
    and conf: "part confirmed_table (decode_as cd (value_record cd) (\<lambda>_ _. True)) m
           (map record_str (sm_confirmed_keys meta)) rows"
    and out: "part outbox_table (decode_as cd (value_commit cd) (\<lambda>k c. commit_key c = k)) m
           (sm_outbox_keys meta) commits"
    and res: "part outcome_table (decode_as cd (value_outcome cd) (\<lambda>k r. commit_key (local_commit r) = k)) m
           (sm_outcome_keys meta) resolved"
    and ids: "part id_map_table (decode_as cd (value_mapping cd) (\<lambda>_ _. True)) m
           (map record_str (sm_id_map_keys meta)) mapped"
    and empty: "\<forall>subs. sm_subscriptions meta = Some subs \<longrightarrow> records subs = fmempty"
    and sub: "part subscription_record_table (decode_row cd (sm_subscriptions meta)) m
           (sm_subscription_record_keys meta) srows"
    and only: "\<forall>t k. fmlookup m (t, k) = None
            \<or> t = confirmed_table \<and> k \<in> record_str ` set (sm_confirmed_keys meta)
            \<or> t = outbox_table \<and> k \<in> set (sm_outbox_keys meta)
            \<or> t = outcome_table \<and> k \<in> set (sm_outcome_keys meta)
            \<or> t = id_map_table \<and> k \<in> record_str ` set (sm_id_map_keys meta)
            \<or> t = subscription_record_table \<and> k \<in> set (sm_subscription_record_keys meta)"
    and revs: "parse_revision (sm_subscription_revision meta) = Inr sub_revision"
      "parse_revision (sm_revision meta) = Inr rev_number"
    and s: "s = decoded_state meta sub_revision rev_number rows commits resolved mapped srows"
    and valid: "valid_state s"
    using assms unfolding decode_state_iff by blast
  have sorted: "sorted_wrt (<) (sm_confirmed_keys meta)" "sorted_wrt (<) (sm_id_map_keys meta)"
      "sorted_wrt (<) (sm_subscription_record_keys meta)"
    and ids_eq: "sm_partition_id meta = partition_str (fst key)" "sm_client_id meta = client_str (snd key)"
    using vm by (auto simp: validate_meta_def split: if_splits)
  note c = record_map_part[OF conf sorted(1)] and i = record_map_part[OF ids sorted(2)]
    and o = keyed_list_part[OF out] and r = keyed_list_part[OF res]
    and b = subscription_rows_part[OF sub sorted(3) empty]
  have fields: "confirmed s = map_from (sm_confirmed_keys meta) rows" "outbox s = commits" "outcomes s = resolved"
      "id_map s = map_from (sm_id_map_keys meta) mapped"
      "subscriptions s = map_option (\<lambda>subs. subs\<lparr>records := map_from (sm_subscription_record_keys meta) srows\<rparr>)
        (sm_subscriptions meta)"
      "partition_id s = fst key" "client_id s = snd key"
    by (simp_all add: s decoded_state_def ids_eq)
  have meta: "state_meta_of s = meta"
    using c(2) i(2) o(1) r(1) b(1,2) parse_revision_Inr[OF revs(1)] parse_revision_Inr[OF revs(2)] ids_eq
    unfolding state_meta_of_def fields subscription_records_def
    by (simp add: s decoded_state_def comp_def)
  have addresses: "fmlookup m a \<noteq> None \<longleftrightarrow> address_in s a" for a
  proof
    assume "fmlookup m a \<noteq> None"
    then show "address_in s a"
      using only address_in_meta[of s "fst a" "snd a"] by (metis meta prod.collapse)
  next
    assume "address_in s a"
    then show "fmlookup m a \<noteq> None"
      using c(3) i(3) o(2) r(2) b(3)
      unfolding address_in_def fields subscription_records_def by (cases a) (auto simp: comp_def)
  qed
  moreover have "decodes cd s a bytes" if row: "fmlookup m a = Some bytes" for a bytes
  proof -
    obtain t k where a: "a = (t, k)" by (cases a)
    have "address_in s (t, k)" using addresses row a by blast
    then consider (conf) "t = confirmed_table" "RecordId k |\<in>| fmdom (confirmed s)"
      | (out) "t = outbox_table" "k \<in> commit_key ` set (outbox s)"
      | (res) "t = outcome_table" "k \<in> (\<lambda>r. commit_key (local_commit r)) ` set (outcomes s)"
      | (ids) "t = id_map_table" "RecordId k |\<in>| fmdom (id_map s)"
      | (sub) "t = subscription_record_table" "k |\<in>| fmdom (subscription_records s)"
      unfolding address_in_def fst_conv snd_conv comp_def by blast
    then show ?thesis
    proof cases
      case conf
      with c(4)[of k bytes] row show ?thesis by (simp add: decodes_def a fields)
    next
      case out
      with o(3)[of k bytes] row show ?thesis by (simp add: decodes_def a fields)
    next
      case res
      with r(3)[of k bytes] row show ?thesis by (simp add: decodes_def a fields)
    next
      case ids
      with i(4)[of k bytes] row show ?thesis by (simp add: decodes_def a fields)
    next
      case sub
      with b(4)[of k bytes] row show ?thesis by (simp add: decodes_def a fields subscription_records_def)
    qed
  qed
  moreover have "component_count s \<le> max_component_items"
      "mr_format_version row = subscription_format_version \<longleftrightarrow> subscriptions s \<noteq> None"
      "payload_bytes (mr_payload row) m \<le> max_aggregate_state_bytes"
    using vm unfolding meta[symmetric]
    by (auto simp: validate_meta_def state_meta_of_def component_count_def length_entries take_records_def
        split: if_splits)
  ultimately show ?thesis
    using v dec valid fields(6,7) by (simp add: represents_def meta)
qed

lemma decode_state_represents: "decode_state cd key row m = Inr s \<longleftrightarrow> represents cd key row m s"
  using decode_state_sound decode_state_complete by blast

end
