(* ===== verification/Store_Write.thy ===== *)
theory Store_Write
  imports Store_Decode
begin

text \<open>
  What replacing a journal does to the tables: the normalized rows of a state decode to
  its components, the row difference leaves exactly the rows of the new state, and rows of
  other clients are untouched.
\<close>

section \<open>Loading as representation\<close>

lemma loaded_Some:
  assumes "rows_owned db"
  shows "loaded cd db key = Inr (Some s) \<longleftrightarrow>
    (\<exists>row. fmlookup (db_meta db) (key_row key) = Some row \<and> list_all row_ok (rows_of key db)
       \<and> length (rows_of key db) \<le> max_component_items \<and> represents cd key row (inventory_of key db) s)"
proof -
  let ?s = "\<lparr>tx_db = db, tx_calls = None\<rparr>"
  have "load_inventory key ?s = Inr (m, s') \<longleftrightarrow>
      list_all row_ok (rows_of key db) \<and> length (rows_of key db) \<le> max_component_items
      \<and> m = inventory_of key db \<and> s' = ?s" for m s'
    using load_inventory_Inr[of ?s] assms by simp
  then show ?thesis
    by (auto simp: loaded_def load_v2_def rbind_Inr tx_bind_Inr tx_lift_Inr decode_state_represents
        error_if_Inr split: option.splits)
qed

section \<open>Normalized rows\<close>

definition faithful_codec :: "store_codec \<Rightarrow> stored_sync_state \<Rightarrow> bool" where
  "faithful_codec cd s \<longleftrightarrow> number_law cd
     \<and> serde_ok cd (meta_value cd) (value_meta cd) (state_meta_of s)
     \<and> (\<forall>r v. fmlookup (confirmed s) r = Some v \<longrightarrow> serde_ok cd (record_value cd) (value_record cd) v)
     \<and> (\<forall>c \<in> set (outbox s). serde_ok cd (commit_value cd) (value_commit cd) c)
     \<and> (\<forall>r \<in> set (outcomes s). serde_ok cd (outcome_value cd) (value_outcome cd) r)
     \<and> (\<forall>r v. fmlookup (id_map s) r = Some v \<longrightarrow> serde_ok cd (mapping_value cd) (value_mapping cd) v)
     \<and> (\<forall>k v. fmlookup (subscription_records s) k = Some v \<longrightarrow> serde_ok cd (row_json cd) (json_row cd) v)"

lemma item_cases:
  assumes "(a, r) \<in> set (component_items cd s)"
  obtains (sub) k v where "a = (subscription_record_table, k)" "fmlookup (subscription_records s) k = Some v"
      "r = encode_tagged cd (row_json cd v)"
    | (conf) k v where "a = (confirmed_table, record_str k)" "fmlookup (confirmed s) k = Some v"
      "r = encode_tagged cd (record_value cd v)"
    | (out) c where "a = (outbox_table, commit_key c)" "c \<in> set (outbox s)"
      "r = encode_tagged cd (commit_value cd c)"
    | (res) d where "a = (outcome_table, commit_key (local_commit d))" "d \<in> set (outcomes s)"
      "r = encode_tagged cd (outcome_value cd d)"
    | (ids) k v where "a = (id_map_table, record_str k)" "fmlookup (id_map s) k = Some v"
      "r = encode_tagged cd (mapping_value cd v)"
  using assms unfolding component_items_def set_append set_map Un_iff
  by (elim disjE imageE) (auto simp: in_entries)

lemma item_address: "(a, r) \<in> set (component_items cd s) \<Longrightarrow> address_in s a"
  by (erule item_cases) (auto simp: address_in_def fmlookup_dom_iff)

lemma address_item: "address_in s a \<Longrightarrow> \<exists>r. (a, r) \<in> set (component_items cd s)"
  by (cases a) (auto 0 4 simp: address_in_def component_items_def in_entries fmlookup_dom_iff image_iff Bex_def)

lemma item_decodes:
  assumes "faithful_codec cd s" "(a, Inr b) \<in> set (component_items cd s)"
  shows "decodes cd s a b" "length b \<le> max_sync_state_bytes"
proof -
  have n: "number_law cd" using assms(1) by (simp add: faithful_codec_def)
  have "decodes cd s a b \<and> length b \<le> max_sync_state_bytes"
    using assms(2)
  proof (cases rule: item_cases)
    case (sub k v)
    then show ?thesis
      using decode_encode_tagged[OF n, of "row_json cd" "json_row cd" v b] assms(1)
      by (auto simp: decodes_def faithful_codec_def)
  next
    case (conf k v)
    then show ?thesis
      using decode_encode_tagged[OF n, of "record_value cd" "value_record cd" v b] assms(1)
      by (auto simp: decodes_def faithful_codec_def)
  next
    case (out c)
    then show ?thesis
      using decode_encode_tagged[OF n, of "commit_value cd" "value_commit cd" c b] assms(1)
      by (auto simp: decodes_def faithful_codec_def)
  next
    case (res d)
    then show ?thesis
      using decode_encode_tagged[OF n, of "outcome_value cd" "value_outcome cd" d b] assms(1)
      by (auto simp: decodes_def faithful_codec_def)
  next
    case (ids k v)
    then show ?thesis
      using decode_encode_tagged[OF n, of "mapping_value cd" "value_mapping cd" v b] assms(1)
      by (auto simp: decodes_def faithful_codec_def)
  qed
  then show "decodes cd s a b" "length b \<le> max_sync_state_bytes" by simp_all
qed

lemma insert_component_Inr:
  "insert_component m item = Inr m' \<longleftrightarrow> (\<exists>b. snd item = Inr b \<and> m' = fmupd (fst item) b m)"
  by (auto simp: insert_component_def rbind_Inr)

lemma insert_components:
  assumes "try_fold insert_component fmempty items = Inr comps"
  shows "fmlookup comps a = Some b \<Longrightarrow> (a, Inr b) \<in> set items"
    and "(a, r) \<in> set items \<Longrightarrow> fmlookup comps a \<noteq> None"
proof -
  have "try_fold insert_component m items = Inr comps \<Longrightarrow>
      (\<forall>a b. fmlookup comps a = Some b \<longrightarrow> (a, Inr b) \<in> set items \<or> fmlookup m a = Some b)
      \<and> (\<forall>a. fmlookup m a \<noteq> None \<or> a \<in> fst ` set items \<longrightarrow> fmlookup comps a \<noteq> None)" for m
  proof (induction items arbitrary: m)
    case (Cons item items)
    from Cons.prems obtain b where b: "snd item = Inr b"
        "try_fold insert_component (fmupd (fst item) b m) items = Inr comps"
      by (auto simp: rbind_Inr insert_component_Inr)
    note IH = Cons.IH[OF b(2)]
    have "(x, Inr y) \<in> set (item # items) \<or> fmlookup m x = Some y" if "fmlookup comps x = Some y" for x y
    proof -
      have "(x, Inr y) \<in> set items \<or> fmlookup (fmupd (fst item) b m) x = Some y" using IH that by blast
      then show ?thesis
        using b(1) by (cases "x = fst item") (auto simp: prod.expand)
    qed
    moreover have "fmlookup comps x \<noteq> None" if "fmlookup m x \<noteq> None \<or> x \<in> fst ` set (item # items)" for x
    proof -
      have "fmlookup (fmupd (fst item) b m) x \<noteq> None \<or> x \<in> fst ` set items" using that by auto
      with IH show ?thesis by blast
    qed
    ultimately show ?case by blast
  qed auto
  note all = this[OF assms]
  show "fmlookup comps a = Some b \<Longrightarrow> (a, Inr b) \<in> set items"
    using all by (metis fmempty_lookup option.distinct(1))
  show "(a, r) \<in> set items \<Longrightarrow> fmlookup comps a \<noteq> None"
    using all by (metis fst_conv image_eqI)
qed

lemma normalize_state_Inr:
  assumes "normalize_state cd s = Inr rows"
  shows "component_count s \<le> max_component_items" "validate_state_keys s = Inr ()"
    and "encode_tagged cd (meta_value cd (state_meta_of s)) = Inr (nr_meta rows)"
    and "payload_bytes (nr_meta rows) (nr_components rows) \<le> max_aggregate_state_bytes"
    and "nr_format_version rows = (if subscriptions s \<noteq> None then subscription_format_version else format_version)"
    and "\<And>a b. fmlookup (nr_components rows) a = Some b \<Longrightarrow> (a, Inr b) \<in> set (component_items cd s)"
    and "\<And>a. fmlookup (nr_components rows) a \<noteq> None \<longleftrightarrow> address_in s a"
proof -
  have ins: "try_fold insert_component fmempty (component_items cd s) = Inr (nr_components rows)"
    and facts: "component_count s \<le> max_component_items" "validate_state_keys s = Inr ()"
      "encode_tagged cd (meta_value cd (state_meta_of s)) = Inr (nr_meta rows)"
      "payload_bytes (nr_meta rows) (nr_components rows) \<le> max_aggregate_state_bytes"
      "nr_format_version rows = (if subscriptions s \<noteq> None then subscription_format_version else format_version)"
    using assms by (auto simp: normalize_state_def error_if_Inr rbind_Inr)
  show "component_count s \<le> max_component_items" "validate_state_keys s = Inr ()"
    "encode_tagged cd (meta_value cd (state_meta_of s)) = Inr (nr_meta rows)"
    "payload_bytes (nr_meta rows) (nr_components rows) \<le> max_aggregate_state_bytes"
    "nr_format_version rows = (if subscriptions s \<noteq> None then subscription_format_version else format_version)"
    by (fact facts)+
  note i = insert_components[OF ins]
  show "fmlookup (nr_components rows) a = Some b \<Longrightarrow> (a, Inr b) \<in> set (component_items cd s)" for a b
    by (rule i(1))
  then show "fmlookup (nr_components rows) a \<noteq> None \<longleftrightarrow> address_in s a" for a
    using i(2) item_address address_item[of s a cd] by (metis option.exhaust)
qed

section \<open>The effect of a row difference\<close>

lemma component_record_id_inject [simp]:
  "component_record_id key a = component_record_id key' a' \<longleftrightarrow> key = key' \<and> a = a'"
  by (auto simp: component_record_id_def key_row_def prod_eq_iff partition_id.expand client_id.expand)

lemma key_row_inject [simp]: "key_row key = key_row key' \<longleftrightarrow> key = key'"
  by (auto simp: key_row_def prod_eq_iff partition_id.expand client_id.expand)

lemma tx_for_each_update:
  "tx_calls s = None \<Longrightarrow>
   tx_for_each (\<lambda>x. tx_update (f x)) xs s = Inr ((), s\<lparr>tx_db := fold f xs (tx_db s)\<rparr>)"
  by (induction xs arbitrary: s) (auto simp: tx_lift_def tx_bind_def)

definition component_row :: "sync_state_key \<Rightarrow> int \<Rightarrow> component_address \<Rightarrow> byte list \<Rightarrow> stored_component_row" where
  "component_row key version item payload =
     \<lparr>cr_format_version = version, cr_partition_id = partition_str (fst key),
      cr_client_id = client_str (snd key), cr_component_key = snd item, cr_payload = payload\<rparr>"

definition drop_row :: "sync_state_key \<Rightarrow> component_address \<Rightarrow> 'x store_db \<Rightarrow> 'x store_db" where
  "drop_row key item db = db\<lparr>db_components := fmdrop (component_record_id key item) (db_components db)\<rparr>"

definition put_row :: "sync_state_key \<Rightarrow> int \<Rightarrow> component_address \<times> byte list \<Rightarrow> 'x store_db \<Rightarrow> 'x store_db" where
  "put_row key version ip db = db\<lparr>db_components :=
     fmupd (component_record_id key (fst ip)) (component_row key version (fst ip) (snd ip)) (db_components db)\<rparr>"

definition rows_written ::
  "sync_state_key \<Rightarrow> inventory \<Rightarrow> normalized_rows \<Rightarrow> 'x store_db \<Rightarrow> 'x store_db" where
  "rows_written key old next_rows db =
     fold (put_row key (nr_format_version next_rows))
       (filter (\<lambda>(item, payload). fmlookup old item \<noteq> Some payload) (entries (nr_components next_rows)))
       (fold (drop_row key)
          (filter (\<lambda>item. \<not> contains_key (nr_components next_rows) item) (map fst (entries old))) db)"

lemma drop_rows_lookup:
  "fmlookup (db_components (fold (drop_row key) items db)) i =
     (if i \<in> component_record_id key ` set items then None else fmlookup (db_components db) i)"
  by (induction items arbitrary: db) (auto simp: drop_row_def)

lemma put_rows_lookup:
  "distinct (map fst ips) \<Longrightarrow>
   fmlookup (db_components (fold (put_row key version) ips db)) (component_record_id key a) =
     (case map_of ips a of
        None \<Rightarrow> fmlookup (db_components db) (component_record_id key a)
      | Some p \<Rightarrow> Some (component_row key version a p))"
proof (induction ips arbitrary: db)
  case (Cons ip ips)
  have "map_of ips (fst ip) = None" using Cons.prems by (simp add: map_of_eq_None_iff)
  with Cons show ?case by (cases ip) (auto simp: put_row_def split: option.splits)
qed simp

lemma put_rows_other:
  "(\<forall>a. i \<noteq> component_record_id key a) \<Longrightarrow>
   fmlookup (db_components (fold (put_row key version) ips db)) i = fmlookup (db_components db) i"
  by (induction ips arbitrary: db) (auto simp: put_row_def)

lemma map_of_filter_distinct:
  "distinct (map fst xs) \<Longrightarrow> map_of (filter (\<lambda>(k, v). P k v) xs) a =
     (case map_of xs a of None \<Rightarrow> None | Some v \<Rightarrow> if P a v then Some v else None)"
proof (induction xs)
  case (Cons x xs)
  have "map_of xs (fst x) = None" using Cons.prems by (simp add: map_of_eq_None_iff)
  with Cons show ?case by (cases x) (auto split: option.splits)
qed simp

lemma rows_written_lookup:
  "fmlookup (db_components (rows_written key old next_rows db)) (component_record_id key a) =
     (case fmlookup (nr_components next_rows) a of
        None \<Rightarrow> if fmlookup old a = None then fmlookup (db_components db) (component_record_id key a) else None
      | Some p \<Rightarrow> if fmlookup old a = Some p then fmlookup (db_components db) (component_record_id key a)
          else Some (component_row key (nr_format_version next_rows) a p))"
proof -
  let ?next = "nr_components next_rows"
  let ?ips = "filter (\<lambda>(item, payload). fmlookup old item \<noteq> Some payload) (entries ?next)"
  let ?dropped = "filter (\<lambda>item. \<not> contains_key ?next item) (map fst (entries old))"
  have "map_of ?ips a = (case fmlookup ?next a of None \<Rightarrow> None
      | Some p \<Rightarrow> if fmlookup old a \<noteq> Some p then Some p else None)"
    using map_of_filter_distinct[OF distinct_entries[of ?next]] by (simp add: map_of_entries)
  moreover have "distinct (map fst ?ips)"
    by (intro distinct_map_filter distinct_entries)
  moreover have "a \<in> set ?dropped \<longleftrightarrow> fmlookup ?next a = None \<and> fmlookup old a \<noteq> None"
    using entries_keys_set[of old] by (auto simp: contains_key_def fmlookup_dom_iff)
  moreover have "component_record_id key a \<in> component_record_id key ` set ?dropped \<longleftrightarrow> a \<in> set ?dropped"
    by (simp add: image_iff)
  ultimately show ?thesis
    unfolding rows_written_def by (simp add: put_rows_lookup drop_rows_lookup split: option.splits)
qed

lemma rows_written_other:
  assumes "\<forall>a. i \<noteq> component_record_id key a"
  shows "fmlookup (db_components (rows_written key old next_rows db)) i = fmlookup (db_components db) i"
proof -
  have "i \<notin> component_record_id key ` X" for X using assms by blast
  with assms show ?thesis
    unfolding rows_written_def by (simp add: put_rows_other drop_rows_lookup)
qed

lemma rows_written_tables [simp]:
  "db_meta (rows_written key old next_rows db) = db_meta db"
  "db_legacy (rows_written key old next_rows db) = db_legacy db"
  "db_barriers (rows_written key old next_rows db) = db_barriers db"
  "db_app (rows_written key old next_rows db) = db_app db"
proof -
  have put: "db_meta (fold (put_row key v) ips d) = db_meta d \<and> db_legacy (fold (put_row key v) ips d) = db_legacy d
      \<and> db_barriers (fold (put_row key v) ips d) = db_barriers d \<and> db_app (fold (put_row key v) ips d) = db_app d"
    for ips v and d :: "'a store_db"
    by (induction ips arbitrary: d) (auto simp: put_row_def)
  have drop: "db_meta (fold (drop_row key) items d) = db_meta d \<and> db_legacy (fold (drop_row key) items d) = db_legacy d
      \<and> db_barriers (fold (drop_row key) items d) = db_barriers d \<and> db_app (fold (drop_row key) items d) = db_app d"
    for items and d :: "'a store_db"
    by (induction items arbitrary: d) (auto simp: drop_row_def)
  show "db_meta (rows_written key old next_rows db) = db_meta db"
    "db_legacy (rows_written key old next_rows db) = db_legacy db"
    "db_barriers (rows_written key old next_rows db) = db_barriers db"
    "db_app (rows_written key old next_rows db) = db_app db"
    unfolding rows_written_def using put drop by metis+
qed

text \<open>The guard of the staged bootstrap only reads.\<close>

definition stage_reads :: "'x stage_guard \<Rightarrow> bool" where
  "stage_reads stage \<longleftrightarrow> (\<forall>key active budget.
     fault_monotone (stage key active budget) \<and> reads_only (stage key active budget))"

lemma guard_state_write_tx:
  assumes "stage_reads stage"
  shows "fault_monotone (guard_state_write stage key budget)" "reads_only (guard_state_write stage key budget)"
proof -
  have "fault_monotone (stage key active budget)" "reads_only (stage key active budget)" for active
    using assms unfolding stage_reads_def by blast+
  then show "fault_monotone (guard_state_write stage key budget)" "reads_only (guard_state_write stage key budget)"
    unfolding guard_state_write_def read_fence_def by (auto intro!: tx_intros split: option.splits)
qed

definition meta_row :: "sync_state_key \<Rightarrow> normalized_rows \<Rightarrow> string option \<Rightarrow> stored_meta_row" where
  "meta_row key rows fence =
     \<lparr>mr_format_version = nr_format_version rows, mr_partition_id = partition_str (fst key),
      mr_client_id = client_str (snd key), mr_payload = nr_meta rows, mr_bootstrap_fence = fence\<rparr>"

definition written ::
  "sync_state_key \<Rightarrow> inventory \<Rightarrow> normalized_rows \<Rightarrow> string option \<Rightarrow> 'x store_db \<Rightarrow> 'x store_db" where
  "written key old rows fence db =
     (rows_written key old rows db)\<lparr>db_meta := fmupd (key_row key) (meta_row key rows fence) (db_meta db)\<rparr>"

lemma row_updates:
  "delete_component key = (\<lambda>item. tx_update (drop_row key item))"
  "(\<lambda>(item, payload). upsert_component key version item payload) = (\<lambda>ip. tx_update (put_row key version ip))"
  by (auto simp: fun_eq_iff delete_component_def drop_row_def[abs_def] upsert_component_def
      put_row_def[abs_def] component_row_def)

lemma unlimited_same: "tx_calls s = None \<Longrightarrow> unlimited s = s"
  by (simp add: unlimited_def)

lemma write_row_diff_written:
  assumes "stage_reads stage" "write_row_diff stage key current rows s = Inr ((), s')" "tx_calls s = None"
  shows "tx_calls s' = None"
    and "\<exists>fence. tx_db s' = written key (case current of None \<Rightarrow> fmempty | Some r \<Rightarrow> nr_components r) rows fence (tx_db s)"
proof -
  let ?old = "case current of None \<Rightarrow> fmempty | Some r \<Rightarrow> nr_components r"
  from assms(2) obtain fence s1 where g: "guard_state_write stage key (normalized_budget rows) s = Inr (fence, s1)"
    by (auto simp: write_row_diff_def tx_bind_Inr Let_def)
  have db: "tx_db s1 = tx_db s" by (rule reads_onlyD[OF guard_state_write_tx(2)[OF assms(1)] g])
  have calls: "tx_calls s1 = None"
    using fault_monotoneD[OF guard_state_write_tx(1)[OF assms(1)] g] g unlimited_same[OF assms(3)]
    by (metis Inr_inject prod.inject unlimited_simps(2))
  let ?body = "\<lambda>fence. tx_bind (tx_for_each (\<lambda>item. tx_update (drop_row key item))
        (filter (\<lambda>item. \<not> contains_key (nr_components rows) item) (map fst (entries ?old)))) (\<lambda>_.
      tx_bind (tx_for_each (\<lambda>ip. tx_update (put_row key (nr_format_version rows) ip))
        (filter (\<lambda>(item, payload). fmlookup ?old item \<noteq> Some payload) (entries (nr_components rows)))) (\<lambda>_.
      tx_bind (upsert_meta key (nr_format_version rows) (nr_meta rows)) (\<lambda>_.
      case fence of None \<Rightarrow> tx_lift (Inr ()) | Some f \<Rightarrow> write_fence key f)))"
  have "?body fence s1 = Inr ((), s')"
    using assms(2) g by (simp add: write_row_diff_def Let_def tx_bind_def row_updates)
  then have s': "s' = s1\<lparr>tx_db := written key ?old rows fence (tx_db s1)\<rparr>"
    using calls
    by (cases fence) (auto simp: tx_bind_Inr tx_for_each_update tx_lift_Inr upsert_meta_def write_fence_def
        written_def rows_written_def[symmetric] meta_row_def)
  show "tx_calls s' = None" "\<exists>fence. tx_db s' = written key ?old rows fence (tx_db s)"
    using s' calls db by auto
qed

section \<open>Stored journals\<close>

text \<open>
  A client's journal is stored when a load returns it and the component rows are exactly
  the normalized rows of the state.
\<close>

definition journal_stored :: "store_codec \<Rightarrow> 'x store_db \<Rightarrow> sync_state_key \<Rightarrow> stored_sync_state \<Rightarrow> bool" where
  "journal_stored cd db key s \<longleftrightarrow> rows_owned db \<and> loaded cd db key = Inr (Some s)
     \<and> (\<exists>rows. normalize_state cd s = Inr rows \<and> inventory_of key db = nr_components rows)"

lemma address_key:
  assumes "validate_state_keys s = Inr ()" "address_in s a"
  shows "validate_component_key (snd a) = Inr ()"
proof -
  let ?ok = "\<lambda>k. validate_component_key k = Inr ()"
  have conf: "for_each (\<lambda>(k, v). validate_component_key (record_str k)) (entries (confirmed s)) = Inr ()"
    and out: "for_each (\<lambda>c. validate_component_key (commit_key c)) (outbox s) = Inr ()"
    and res: "for_each (\<lambda>r. validate_component_key (commit_key (local_commit r))) (outcomes s) = Inr ()"
    and ids: "for_each (\<lambda>(k, v). rbind (validate_component_key (record_str k))
              (\<lambda>_. validate_component_key (record_str v))) (entries (id_map s)) = Inr ()"
    and sub: "for_each (\<lambda>(k, v). validate_component_key k) (entries (subscription_records s)) = Inr ()"
    using assms(1) by (simp_all add: validate_state_keys_def rbind_Inr)
  have "\<forall>k v. fmlookup (confirmed s) k = Some v \<longrightarrow> ?ok (record_str k)"
    using conf by (force simp: for_each_Inr simp flip: in_entries)
  moreover have "\<forall>k v. fmlookup (id_map s) k = Some v \<longrightarrow> ?ok (record_str k)"
    using ids by (force simp: for_each_Inr rbind_Inr simp flip: in_entries)
  moreover have "\<forall>k v. fmlookup (subscription_records s) k = Some v \<longrightarrow> ?ok k"
    using sub by (force simp: for_each_Inr simp flip: in_entries)
  ultimately show ?thesis
    using assms(2) out res
    by (auto simp: address_in_def for_each_Inr fmlookup_dom_iff)
qed

lemma address_table: "address_in s a \<Longrightarrow> fst a \<in> set component_tables"
  by (auto simp: address_in_def component_tables_def)

lemma map_len_components:
  assumes "normalize_state cd s = Inr rows"
  shows "map_len (nr_components rows) \<le> component_count s"
proof -
  have "fset (fmdom (nr_components rows)) \<subseteq> fst ` set (component_items cd s)"
    using normalize_state_Inr(6)[OF assms] by (force simp: fmlookup_dom_iff)
  then have "card (fset (fmdom (nr_components rows))) \<le> length (component_items cd s)"
    by (meson List.finite_set card_image_le card_length card_mono finite_imageI le_trans)
  then show ?thesis
    by (simp add: map_len_def fcard.rep_eq component_items_def component_count_def length_entries)
qed

lemma written_owned: "rows_owned db \<Longrightarrow> rows_owned (written key old rows fence db)"
  unfolding rows_owned_def
proof (intro allI impI)
  fix t i row
  assume owned: "\<forall>t i row. fmlookup (db_components db) (t, i) = Some row \<longrightarrow>
      i = [cr_partition_id row, cr_client_id row, cr_component_key row]"
    and row: "fmlookup (db_components (written key old rows fence db)) (t, i) = Some row"
  show "i = [cr_partition_id row, cr_client_id row, cr_component_key row]"
  proof (cases "\<exists>a. (t, i) = component_record_id key a")
    case True
    then obtain a where a: "(t, i) = component_record_id key a" by blast
    have "fmlookup (db_components db) (t, i) = Some row
        \<or> (\<exists>p. row = component_row key (nr_format_version rows) a p)"
      using row unfolding written_def a
      by (auto simp: rows_written_lookup split: option.splits if_splits)
    then show ?thesis
      using owned a by (auto simp: component_row_def component_record_id_def key_row_def)
  next
    case False
    with row owned show ?thesis by (simp add: written_def rows_written_other)
  qed
qed

lemma written_inventory:
  assumes "rows_owned db" "inventory_of key db = old" "normalize_state cd s = Inr rows"
  shows "inventory_of key (written key old rows fence db) = nr_components rows"
proof (rule fmap_ext)
  fix a :: component_address
  obtain t k where a: "a = (t, k)" by (cases a)
  have old: "fmlookup old (t, k) = (if t \<in> set component_tables
      then map_option cr_payload (fmlookup (db_components db) (component_record_id key (t, k))) else None)"
    using inventory_of_lookup[OF assms(1)] assms(2) by metis
  have "fmlookup (nr_components rows) a \<noteq> None \<Longrightarrow> t \<in> set component_tables"
    using normalize_state_Inr(7)[OF assms(3)] address_table a by fastforce
  then show "fmlookup (inventory_of key (written key old rows fence db)) a = fmlookup (nr_components rows) a"
    unfolding a inventory_of_lookup[OF written_owned[OF assms(1)]]
    using old by (auto simp: written_def rows_written_lookup component_row_def split: option.splits)
qed

lemma written_rows_ok:
  assumes "rows_owned db" "inventory_of key db = old" "list_all row_ok (rows_of key db)"
    and "normalize_state cd s = Inr rows" "faithful_codec cd s"
  shows "list_all row_ok (rows_of key (written key old rows fence db))"
  unfolding list_all_iff
proof
  fix row assume "row \<in> set (rows_of key (written key old rows fence db))"
  then obtain t k where t: "t \<in> set component_tables"
    and row: "fmlookup (db_components (written key old rows fence db)) (component_record_id key (t, k)) = Some row"
    by (auto simp: in_rows_of[OF written_owned[OF assms(1)]])
  from row have "fmlookup (db_components db) (component_record_id key (t, k)) = Some row
      \<or> (\<exists>p. fmlookup (nr_components rows) (t, k) = Some p
           \<and> row = component_row key (nr_format_version rows) (t, k) p)"
    by (auto simp: written_def rows_written_lookup split: option.splits if_splits)
  then consider "fmlookup (db_components db) (component_record_id key (t, k)) = Some row"
    | (new) p where "fmlookup (nr_components rows) (t, k) = Some p"
        "row = component_row key (nr_format_version rows) (t, k) p"
    by blast
  then show "row_ok row"
  proof cases
    case 1
    then have "row \<in> set (rows_of key db)" using t in_rows_of[OF assms(1)] by blast
    with assms(3) show ?thesis by (simp add: list_all_iff)
  next
    case new
    have "validate_component_key (snd (t, k)) = Inr ()"
      using normalize_state_Inr(2,7)[OF assms(4)] new(1) by (intro address_key) auto
    moreover have "length p \<le> max_sync_state_bytes"
      using normalize_state_Inr(6)[OF assms(4) new(1)] item_decodes(2)[OF assms(5)] by blast
    ultimately show ?thesis
      using normalize_state_Inr(5)[OF assms(4)] new(2) by (simp add: row_ok_def component_row_def)
  qed
qed

lemma written_stored:
  assumes "rows_owned db" "inventory_of key db = old" "list_all row_ok (rows_of key db)"
    and "normalize_state cd s = Inr rows" "faithful_codec cd s" "valid_state s"
    and key: "key = (partition_id s, client_id s)"
  shows "journal_stored cd (written key old rows fence db) key s"
proof -
  let ?db = "written key old rows fence db"
  note n = normalize_state_Inr[OF assms(4)]
  have owned: "rows_owned ?db" by (rule written_owned[OF assms(1)])
  have inv: "inventory_of key ?db = nr_components rows" by (rule written_inventory[OF assms(1,2,4)])
  have len: "length (rows_of key ?db) \<le> max_component_items"
    using length_rows_of[OF owned, of key] inv map_len_components[OF assms(4)] n(1) by simp
  have meta: "decode_tagged cd (value_meta cd) (nr_meta rows) = Inr (state_meta_of s)"
      "length (nr_meta rows) \<le> max_sync_state_bytes"
    using decode_encode_tagged[of cd "meta_value cd" "value_meta cd" "state_meta_of s" "nr_meta rows"] n(3) assms(5)
    by (auto simp: faithful_codec_def)
  have "represents cd key (meta_row key rows fence) (nr_components rows) s"
    using n meta assms(6) key item_decodes(1)[OF assms(5)] unfolding represents_def
    by (auto simp: meta_row_def validate_meta_row_def format_version_def subscription_format_version_def)
  then have "loaded cd ?db key = Inr (Some s)"
    unfolding loaded_Some[OF owned] inv
    using written_rows_ok[OF assms(1-5)] len by (intro exI[of _ "meta_row key rows fence"]) (simp add: written_def)
  then show ?thesis
    using owned inv assms(4) by (simp add: journal_stored_def)
qed

end
