(* ===== verification/Store_Transitions.thy ===== *)
theory Store_Transitions
  imports Store_Write
begin

text \<open>
  What one transition does to the tables: the journals of other clients, the projection
  onto the application's tables, the effect of a replacement of a stored journal, and when
  a transition succeeds.
\<close>

section \<open>Journals of other clients\<close>

lemma rbind_assoc: "rbind (rbind r f) g = rbind r (\<lambda>x. rbind (f x) g)"
  by (cases r) simp_all

definition table_result ::
  "sync_state_key \<Rightarrow> inventory \<Rightarrow> string \<Rightarrow> stored_component_row list \<Rightarrow> sync_state_error + inventory" where
  "table_result key inventory table rows =
     (if length rows > max_component_items then Inl StateTooLarge
      else try_fold (inventory_insert key table) inventory rows)"

lemma load_table_pure:
  "tx_calls s = None \<Longrightarrow> load_table key inventory table s =
     rbind (table_result key inventory table (select_components table key (tx_db s))) (\<lambda>m. Inr (m, s))"
  by (simp add: load_table_def table_result_def tx_bind_def tx_lift_def)

lemma loaded_pure:
  "loaded cd db key =
     rbind (table_result key fmempty confirmed_table (select_components confirmed_table key db)) (\<lambda>m.
     rbind (table_result key m outbox_table (select_components outbox_table key db)) (\<lambda>m.
     rbind (table_result key m outcome_table (select_components outcome_table key db)) (\<lambda>m.
     rbind (table_result key m id_map_table (select_components id_map_table key db)) (\<lambda>m.
     rbind (table_result key m subscription_record_table (select_components subscription_record_table key db)) (\<lambda>m.
     case fmlookup (db_meta db) (key_row key) of
       None \<Rightarrow> if map_len m = 0 then Inr None else Inl CorruptState
     | Some row \<Rightarrow> rbind (decode_state cd key row m) (\<lambda>state. Inr (Some state)))))))"
  unfolding loaded_def load_v2_def load_inventory_def
  by (simp add: tx_bind_def load_table_pure rbind_assoc tx_lift_def)

lemma entries_filter_key: "filter (\<lambda>(k, v). P k) (entries m) = entries (fmfilter P m)"
proof (rule entries_unique[symmetric])
  show "sorted_wrt (<) (map fst (filter (\<lambda>(k, v). P k) (entries m)))"
    using sorted_entries[of m] by (induction "entries m") (auto simp: sorted_wrt_map sorted_wrt_filter)
  show "map_of (filter (\<lambda>(k, v). P k) (entries m)) = fmlookup (fmfilter P m)"
    using map_of_filter_distinct[OF distinct_entries[of m], of "\<lambda>k _. P k"]
    by (auto simp: fun_eq_iff map_of_entries split: option.splits)
qed

definition owned_id :: "string \<Rightarrow> sync_state_key \<Rightarrow> string \<times> row_id \<Rightarrow> bool" where
  "owned_id table key i \<longleftrightarrow> (\<exists>k. i = component_record_id key (table, k))"

lemma client_rows_by_id:
  assumes "rows_owned db"
  shows "client_rows table key db = map snd (entries (fmfilter (owned_id table key) (db_components db)))"
proof -
  have "client_rows table key db =
      map snd (filter (\<lambda>(i, row). fst i = table \<and> owned_by key row) (entries (db_components db)))"
    by (simp add: client_rows_def filter_map comp_def case_prod_unfold owned_by_def)
  also have "\<dots> = map snd (filter (\<lambda>(i, row). owned_id table key i) (entries (db_components db)))"
  proof (intro arg_cong[of _ _ "map snd"] filter_cong refl)
    fix x assume "x \<in> set (entries (db_components db))"
    then obtain t i row where x: "x = ((t, i), row)" "fmlookup (db_components db) (t, i) = Some row"
      by (metis in_entries surj_pair)
    then have i: "i = [cr_partition_id row, cr_client_id row, cr_component_key row]"
      using assms unfolding rows_owned_def by blast
    show "(case x of (i, row) \<Rightarrow> fst i = table \<and> owned_by key row) = (case x of (i, row) \<Rightarrow> owned_id table key i)"
      by (auto simp: x i owned_id_def owned_by_def component_record_id_def key_row_def)
  qed
  also have "\<dots> = map snd (entries (fmfilter (owned_id table key) (db_components db)))"
    by (simp add: entries_filter_key)
  finally show ?thesis .
qed

lemma loaded_cong:
  assumes "rows_owned db" "rows_owned db'"
    and "\<And>a. fmlookup (db_components db') (component_record_id key a) =
           fmlookup (db_components db) (component_record_id key a)"
    and "fmlookup (db_meta db') (key_row key) = fmlookup (db_meta db) (key_row key)"
  shows "loaded cd db' key = loaded cd db key"
proof -
  have "fmfilter (owned_id table key) (db_components db') = fmfilter (owned_id table key) (db_components db)" for table
    using assms(3) by (intro fmap_ext) (auto simp: owned_id_def)
  then have "client_rows table key db' = client_rows table key db" for table
    by (simp add: client_rows_by_id[OF assms(1)] client_rows_by_id[OF assms(2)])
  then have "select_components table key db' = select_components table key db" for table
    by (simp add: select_components_def client_rows_def)
  then show ?thesis by (simp add: loaded_pure assms(4))
qed

section \<open>The projection onto the application's tables\<close>

definition app_content :: "'x surreal_lib \<Rightarrow> json optimistic_record option \<Rightarrow> (string \<times> 'x surreal_value) list option" where
  "app_content lib row =
     (case row of
        Some (OptPresent v b ref) \<Rightarrow> (case from_wire_value lib v of Inr (SObject content) \<Rightarrow> Some content | _ \<Rightarrow> None)
      | _ \<Rightarrow> None)"

lemma object_content:
  "(case row of Some (OptPresent v b ref) \<Rightarrow>
        (case from_wire_value lib v of Inl e \<Rightarrow> Inl (ValueCodec e) | Inr (SObject content) \<Rightarrow> Inr (Some content)
          | Inr _ \<Rightarrow> Inl RecordValueMustBeObject)
      | _ \<Rightarrow> Inr None) = Inr c \<Longrightarrow> c = app_content lib row"
  by (auto simp: app_content_def split: option.splits optimistic_record.splits sum.splits surreal_value.splits)

lemma project_record_effect:
  assumes "tx_calls s = None" "project_record lib sx rows r s = Inr ((), s')"
  shows "\<exists>native. native_record_id lib sx r = Inr native
    \<and> s' = s\<lparr>tx_db := put_record sx native (app_content lib (fmlookup rows r)) (tx_db s)\<rparr>"
  using assms by (auto simp: project_record_def tx_bind_Inr tx_lift_Inr dest!: object_content split: if_splits)

lemma put_record_lookup:
  "fmlookup (db_app (put_record sx native content db)) n = (if n = native then content else fmlookup (db_app db) n)"
  by (auto simp: put_record_def Let_def split: option.splits)

text \<open>A record that is no row of the store: one outside the store's tables, or one that goes.\<close>

definition outside_store :: "'x surreal_lib \<Rightarrow> 'x record_schema \<Rightarrow> record_id \<Rightarrow> bool" where
  "outside_store lib sx r \<longleftrightarrow>
     (case native_record_id lib sx r of Inl _ \<Rightarrow> True | Inr n \<Rightarrow> sx_table sx n \<notin> set journal_tables)"

lemma put_record_outside:
  assumes "rows_owned db" "sx_table sx native \<notin> set journal_tables \<or> content = None"
  shows "\<exists>app. put_record sx native content db = db\<lparr>db_app := app\<rparr>"
proof (cases "sx_table sx native = subscription_record_table")
  case True
  have "fmlookup (db_components db) (subscription_record_table, [sx_key sx native]) = None"
    using assms(1) by (cases "fmlookup (db_components db) (subscription_record_table, [sx_key sx native])")
      (auto simp: rows_owned_def)
  then have "fmdrop (subscription_record_table, [sx_key sx native]) (db_components db) = db_components db"
    by (intro fmap_ext) auto
  with True assms(2) show ?thesis by (auto simp: put_record_def journal_tables_def)
qed (auto simp: put_record_def)

definition project_one ::
  "'x surreal_lib \<Rightarrow> 'x record_schema \<Rightarrow> (record_id, json optimistic_record) fmap \<Rightarrow> record_id \<Rightarrow>
   'x store_db \<Rightarrow> 'x store_db" where
  "project_one lib sx rows r =
     put_record sx (projr (native_record_id lib sx r)) (app_content lib (fmlookup rows r))"

lemma projection_loop:
  "tx_calls s = None \<Longrightarrow> tx_for_each (project_record lib sx rows) rs s = Inr ((), s') \<Longrightarrow>
   (\<forall>r \<in> set rs. \<exists>n. native_record_id lib sx r = Inr n)
   \<and> s' = s\<lparr>tx_db := fold (project_one lib sx rows) rs (tx_db s)\<rparr>"
proof (induction rs arbitrary: s)
  case Nil
  then show ?case by (simp add: tx_lift_Inr)
next
  case (Cons r rs)
  then obtain s1 where s1: "project_record lib sx rows r s = Inr ((), s1)"
      "tx_for_each (project_record lib sx rows) rs s1 = Inr ((), s')"
    by (auto simp: tx_bind_Inr)
  from project_record_effect[OF Cons.prems(1) s1(1)] obtain n where
    n: "native_record_id lib sx r = Inr n" "s1 = s\<lparr>tx_db := project_one lib sx rows r (tx_db s)\<rparr>"
    by (auto simp: project_one_def)
  with Cons.IH[OF _ s1(2)] Cons.prems(1) show ?case by auto
qed

lemma project_fold_tables:
  assumes "rows_owned db" "\<forall>r \<in> set rs. \<exists>n. native_record_id lib sx r = Inr n"
    and "\<forall>r \<in> set rs. outside_store lib sx r \<or> app_content lib (fmlookup rows r) = None"
  shows "\<exists>app. fold (project_one lib sx rows) rs db = db\<lparr>db_app := app\<rparr>"
  using assms
proof (induction rs arbitrary: db)
  case Nil
  show ?case by (intro exI[of _ "db_app db"]) simp
next
  case (Cons r rs)
  from Cons.prems(2) obtain n where n: "native_record_id lib sx r = Inr n" by auto
  then have "sx_table sx n \<notin> set journal_tables \<or> app_content lib (fmlookup rows r) = None"
    using Cons.prems(3) by (auto simp: outside_store_def)
  from put_record_outside[OF Cons.prems(1) this] n obtain app where
    app: "project_one lib sx rows r db = db\<lparr>db_app := app\<rparr>" by (auto simp: project_one_def)
  have "rows_owned (db\<lparr>db_app := app\<rparr>)" using Cons.prems(1) by (simp add: rows_owned_def)
  from Cons.IH[OF this] Cons.prems(2,3) show ?case by (auto simp: app)
qed

lemma project_fold_lookup:
  assumes "\<forall>r \<in> set rs. \<exists>n. native_record_id lib sx r = Inr n" "distinct rs"
    and "inj_on (native_record_id lib sx) (set rs)"
  shows "fmlookup (db_app (fold (project_one lib sx rows) rs db)) n =
    (case List.find (\<lambda>r. native_record_id lib sx r = Inr n) rs of
       Some r \<Rightarrow> app_content lib (fmlookup rows r) | None \<Rightarrow> fmlookup (db_app db) n)"
  using assms
proof (induction rs arbitrary: db)
  case (Cons r rs)
  obtain m where m: "native_record_id lib sx r = Inr m" using Cons.prems(1) by auto
  have IH: "fmlookup (db_app (fold (project_one lib sx rows) rs (project_one lib sx rows r db))) n =
    (case List.find (\<lambda>r. native_record_id lib sx r = Inr n) rs of
       Some r \<Rightarrow> app_content lib (fmlookup rows r)
     | None \<Rightarrow> fmlookup (db_app (project_one lib sx rows r db)) n)"
    using Cons.prems by (intro Cons.IH) (auto simp: inj_on_def)
  have "m = n \<Longrightarrow> List.find (\<lambda>r. native_record_id lib sx r = Inr n) rs = None"
    using Cons.prems(2,3) m by (auto simp: find_None_iff inj_on_def)
  moreover have "fmlookup (db_app (project_one lib sx rows r db)) n =
      (if n = m then app_content lib (fmlookup rows r) else fmlookup (db_app db) n)"
    by (simp add: project_one_def m put_record_lookup)
  ultimately show ?case
    using IH m by (auto split: option.splits)
qed simp

section \<open>Transitions\<close>

lemma write_row_diff_monotone:
  assumes "stage_reads stage"
  shows "fault_monotone (write_row_diff stage key current rows)"
  unfolding write_row_diff_def Let_def delete_component_def upsert_meta_def write_fence_def
  by (auto intro!: tx_intros guard_state_write_tx(1)[OF assms] simp: upsert_component_def split: option.splits)

lemma fault_monotone_call [tx_intros]: "fault_monotone tx_call"
  by (auto simp: fault_monotone_def dest!: tx_call_Inr)

lemma project_record_monotone [tx_intros]: "fault_monotone (project_record lib sx rows r)"
  unfolding project_record_def by (auto intro!: tx_intros)

lemma replace_monotone:
  assumes "stage_reads stage"
  shows "fault_monotone (replace_v2_in_transaction cd stage key expected expected_state state rows)"
  unfolding replace_v2_in_transaction_def
  by (auto intro!: tx_intros write_row_diff_monotone[OF assms])

lemma transition_monotone:
  assumes "stage_reads stage"
  shows "fault_monotone (transition_body cd stage lib sx key current next_state rows)"
  unfolding transition_body_def apply_projection_diff_def
  by (auto intro!: tx_intros replace_monotone[OF assms])

text \<open>How a transaction ends: nothing happened, or the whole body did.\<close>

lemma run_transaction_cases:
  assumes "run_transaction en db body = (r, db')" "fault_monotone body"
  shows "db' = db \<and> (\<forall>a. r \<noteq> Inr a)
    \<or> (\<exists>a s'. body \<lparr>tx_db = db, tx_calls = None\<rparr> = Inr (a, s') \<and> db' = tx_db s' \<and> (r = Inr a \<or> r = Inl CommitUnknown))"
proof -
  let ?s = "\<lparr>tx_db = db, tx_calls = en_calls en\<rparr>"
  have s: "unlimited ?s = \<lparr>tx_db = db, tx_calls = None\<rparr>" by (simp add: unlimited_def)
  show ?thesis
  proof (cases "body ?s")
    case (Inl e)
    with assms(1) show ?thesis
      by (auto simp: run_transaction_def finish_def finish_transaction_def split: if_splits)
  next
    case (Inr as)
    obtain a s' where as: "as = (a, s')" by fastforce
    from Inr as have "body \<lparr>tx_db = db, tx_calls = None\<rparr> = Inr (a, unlimited s')"
      using fault_monotoneD[OF assms(2), of ?s a s'] s by simp
    with assms(1) Inr as show ?thesis
      by (auto simp: run_transaction_def finish_def finish_transaction_def
          split: if_splits commit_end.splits)
  qed
qed

lemma replace_effect:
  assumes "stage_reads stage" "tx_calls s = None"
    and "replace_v2_in_transaction cd stage key (Some r) (Some current) state rows s = Inr (d, s')"
    and "revision state \<noteq> revision current"
  shows "loaded cd (tx_db s) key = Inr (Some current)" "d = Applied" "tx_calls s' = None"
    and "\<exists>old fence. normalize_state cd current = Inr old \<and> tx_db s' = written key (nr_components old) rows fence (tx_db s)"
proof -
  from assms(3) obtain found s1 where l: "load_v2 cd key s = Inr (found, s1)"
    by (auto simp: replace_v2_in_transaction_def tx_bind_Inr)
  have s1: "tx_db s1 = tx_db s" "tx_calls s1 = None"
    using load_v2_loaded(2)[OF l] fault_monotoneD[OF load_v2_tx(1) l] l unlimited_same[OF assms(2)]
    by (metis Inr_inject prod.inject unlimited_simps(2))+
  from assms(3) l have found: "found = Some current"
    by (auto simp: replace_v2_in_transaction_def tx_bind_Inr tx_lift_Inr split: if_splits)
  show "loaded cd (tx_db s) key = Inr (Some current)"
    using load_v2_loaded(1)[OF l] found by simp
  from assms(3,4) l found obtain old where old: "normalize_state cd current = Inr old"
      "write_row_diff stage key (Some old) rows s1 = Inr ((), s')" "d = Applied"
    by (auto simp: replace_v2_in_transaction_def tx_bind_Inr tx_lift_Inr rbind_Inr split: if_splits)
  then show "d = Applied" by simp
  from write_row_diff_written[OF assms(1) old(2) s1(2)] show "tx_calls s' = None"
    "\<exists>old fence. normalize_state cd current = Inr old \<and> tx_db s' = written key (nr_components old) rows fence (tx_db s)"
    using old(1) s1(1) by auto
qed

lemma prepare_state_write_Inr:
  assumes "prepare_state_write cd expected state = Inr (key, rows)"
  shows "key = (partition_id state, client_id state)" "normalize_state cd state = Inr rows" "valid_state state"
    and "expected = Some r \<Longrightarrow> r < revision state"
    and "expected = None \<Longrightarrow> revision state = 0"
proof -
  have "(case validate state of Inl e \<Rightarrow> Inl (InvalidState e) | Inr _ \<Rightarrow> Inr ()) = Inr () \<longleftrightarrow> valid_state state"
    using invalid_case[where s = state and x = "()" and y = "()"] by simp
  then show "key = (partition_id state, client_id state)" "normalize_state cd state = Inr rows" "valid_state state"
    using assms by (auto simp: prepare_state_write_def Let_def rbind_Inr)
  show "expected = Some r \<Longrightarrow> r < revision state" "expected = None \<Longrightarrow> revision state = 0"
    using assms checked_add_1_gt
    by (auto simp: prepare_state_write_def Let_def rbind_Inr validate_next_revision_def ok_or_Inr error_if_Inr
        split: if_splits)
qed

lemma transition_effect:
  assumes "stage_reads stage" "prepare_state_write cd (Some (revision current)) next_state = Inr (key, rows)"
    and "transition_body cd stage lib sx key current next_state rows \<lparr>tx_db = db, tx_calls = None\<rparr> = Inr (d, s')"
  defines "changed \<equiv> filter (\<lambda>r. fmlookup (optimistic_projection current) r \<noteq> fmlookup (optimistic_projection next_state) r)
      (sorted_list_of_fset (fmdom (optimistic_projection current) |\<union>| fmdom (optimistic_projection next_state)))"
  shows "loaded cd db key = Inr (Some current)" "d = Applied"
    and "\<forall>r \<in> set changed. \<exists>n. native_record_id lib sx r = Inr n"
    and "\<exists>old fence. normalize_state cd current = Inr old \<and>
      tx_db s' = fold (project_one lib sx (optimistic_projection next_state)) changed
        (written key (nr_components old) rows fence db)"
proof -
  let ?s = "\<lparr>tx_db = db, tx_calls = None\<rparr>"
  have rev: "revision next_state \<noteq> revision current"
    using prepare_state_write_Inr(4)[OF assms(2)] by fastforce
  from assms(3) obtain d1 s1 where rep: "replace_v2_in_transaction cd stage key (Some (revision current))
      (Some current) next_state rows ?s = Inr (d1, s1)"
    and rest: "(if d1 = Applied then tx_bind (apply_projection_diff lib sx (optimistic_projection current)
        (optimistic_projection next_state)) (\<lambda>_. tx_lift (Inr d1)) else tx_lift (Inr d1)) s1 = Inr (d, s')"
    by (auto simp: transition_body_def tx_bind_Inr)
  note e = replace_effect[OF assms(1) _ rep rev, simplified]
  show "loaded cd db key = Inr (Some current)" by (rule e(1))
  from rest e(2) have loop: "tx_for_each (project_record lib sx (optimistic_projection next_state)) changed s1
      = Inr ((), s')" and d: "d = Applied"
    by (auto simp: tx_bind_Inr tx_lift_Inr apply_projection_diff_def changed_def)
  show "d = Applied" by (rule d)
  from projection_loop[OF e(3) loop] e(4)
  show "\<forall>r \<in> set changed. \<exists>n. native_record_id lib sx r = Inr n"
    "\<exists>old fence. normalize_state cd current = Inr old \<and>
      tx_db s' = fold (project_one lib sx (optimistic_projection next_state)) changed
        (written key (nr_components old) rows fence db)"
    by auto
qed

lemma stored_app [simp]: "journal_stored cd (db\<lparr>db_app := app\<rparr>) key s = journal_stored cd db key s"
proof -
  have "client_rows t key (db\<lparr>db_app := app\<rparr>) = client_rows t key db" for t
    by (simp add: client_rows_def)
  moreover have "select_components t key (db\<lparr>db_app := app\<rparr>) = select_components t key db" for t
    by (simp add: select_components_def)
  ultimately show ?thesis
    by (simp add: journal_stored_def rows_owned_def loaded_pure inventory_of_def)
qed

lemma written_other:
  assumes "rows_owned db" "other \<noteq> key"
  shows "loaded cd ((written key old rows fence db)\<lparr>db_app := app\<rparr>) other = loaded cd db other"
proof (rule loaded_cong[OF assms(1)])
  show "rows_owned ((written key old rows fence db)\<lparr>db_app := app\<rparr>)"
    using written_owned[OF assms(1)] by (simp add: rows_owned_def)
  show "fmlookup (db_components ((written key old rows fence db)\<lparr>db_app := app\<rparr>)) (component_record_id other a) =
      fmlookup (db_components db) (component_record_id other a)" for a
    using assms(2) by (simp add: written_def rows_written_other)
  show "fmlookup (db_meta ((written key old rows fence db)\<lparr>db_app := app\<rparr>)) (key_row other) =
      fmlookup (db_meta db) (key_row other)"
    using assms(2) by (simp add: written_def)
qed

lemma apply_transition_run:
  assumes "current \<noteq> next_state"
    and "apply_transition_atomic cd stage lib sx en db current next_state = (r, db')"
  shows "db' = db \<and> (\<forall>w. r \<noteq> Inr w) \<or> (\<exists>rows.
    prepare_state_write cd (Some (revision current)) next_state = Inr ((partition_id current, client_id current), rows)
    \<and> run_transaction en db (transition_body cd stage lib sx (partition_id current, client_id current)
        current next_state rows) = (r, db'))"
  using assms prepare_state_write_Inr(1)[of cd "Some (revision current)" next_state]
  by (auto simp: apply_transition_atomic_def split: if_splits sum.splits prod.splits)

lemma stored_rows_ok:
  assumes "journal_stored cd db key s"
  shows "rows_owned db" "list_all row_ok (rows_of key db)" "key = (partition_id s, client_id s)" "valid_state s"
  using assms loaded_Some[of db cd key s] by (auto simp: journal_stored_def represents_def)

lemma applied_transition:
  assumes "stage_reads stage" "faithful_codec cd next_state" "journal_stored cd db key current"
    and prep: "prepare_state_write cd (Some (revision current)) next_state = Inr (key, rows)"
    and body: "transition_body cd stage lib sx key current next_state rows \<lparr>tx_db = db, tx_calls = None\<rparr> = Inr (d, s')"
    and out: "\<forall>r \<in> fset (fmdom (optimistic_projection next_state)). outside_store lib sx r"
  shows "journal_stored cd (tx_db s') key next_state" "d = Applied"
    and "\<forall>other. other \<noteq> key \<longrightarrow> loaded cd (tx_db s') other = loaded cd db other"
    and "db_barriers (tx_db s') = db_barriers db"
proof -
  note e = transition_effect[OF assms(1) prep body] and k = prepare_state_write_Inr[OF prep]
  let ?next = "optimistic_projection next_state"
  from e(4) obtain old fence where old: "normalize_state cd current = Inr old" "tx_db s' = fold (project_one lib sx ?next)
      (filter (\<lambda>r. fmlookup (optimistic_projection current) r \<noteq> fmlookup ?next r)
        (sorted_list_of_fset (fmdom (optimistic_projection current) |\<union>| fmdom ?next)))
      (written key (nr_components old) rows fence db)" by blast
  have "outside_store lib sx r \<or> app_content lib (fmlookup ?next r) = None" for r
  proof (cases "fmlookup ?next r")
    case (Some v)
    then have "r \<in> fset (fmdom ?next)" by (simp add: fmdomI)
    with out show ?thesis by blast
  qed (simp add: app_content_def)
  then have "\<exists>app. tx_db s' = (written key (nr_components old) rows fence db)\<lparr>db_app := app\<rparr>"
    unfolding old(2) by (intro project_fold_tables written_owned[OF stored_rows_ok(1)[OF assms(3)]] e(3)) simp
  then obtain app where s': "tx_db s' = (written key (nr_components old) rows fence db)\<lparr>db_app := app\<rparr>" by blast
  have inv: "inventory_of key db = nr_components old"
    using assms(3) old(1) by (auto simp: journal_stored_def)
  note ok = stored_rows_ok[OF assms(3)]
  show "journal_stored cd (tx_db s') key next_state"
    unfolding s' stored_app by (rule written_stored[OF ok(1) inv ok(2) k(2) assms(2) k(3,1)])
  show "d = Applied" by (rule e(2))
  show "\<forall>other. other \<noteq> key \<longrightarrow> loaded cd (tx_db s') other = loaded cd db other"
    unfolding s' using written_other[OF ok(1)] by blast
  show "db_barriers (tx_db s') = db_barriers db"
    unfolding s' by (simp add: written_def)
qed

definition projected ::
  "'x surreal_lib \<Rightarrow> 'x record_schema \<Rightarrow> 'x store_db \<Rightarrow> (record_id, json optimistic_record) fmap \<Rightarrow> record_id set \<Rightarrow> bool" where
  "projected lib sx db proj ids \<longleftrightarrow> (\<forall>r \<in> ids. \<forall>n. native_record_id lib sx r = Inr n \<longrightarrow>
     fmlookup (db_app db) n = app_content lib (fmlookup proj r))"

lemma projected_transition:
  assumes "stage_reads stage" "prepare_state_write cd (Some (revision current)) next_state = Inr (key, rows)"
    and "transition_body cd stage lib sx key current next_state rows \<lparr>tx_db = db, tx_calls = None\<rparr> = Inr (d, s')"
  defines "ids \<equiv> fset (fmdom (optimistic_projection current) |\<union>| fmdom (optimistic_projection next_state))"
  assumes "inj_on (native_record_id lib sx) ids"
    and "projected lib sx db (optimistic_projection current) (fset (fmdom (optimistic_projection current)))"
  shows "projected lib sx (tx_db s') (optimistic_projection next_state) ids"
  unfolding projected_def
proof (intro ballI allI impI)
  fix r n assume r: "r \<in> ids" "native_record_id lib sx r = Inr n"
  let ?cur = "optimistic_projection current" and ?next = "optimistic_projection next_state"
  let ?changed = "filter (\<lambda>r. fmlookup ?cur r \<noteq> fmlookup ?next r) (sorted_list_of_fset (fmdom ?cur |\<union>| fmdom ?next))"
  note e = transition_effect[OF assms(1-3)]
  from e(4) obtain old :: normalized_rows and fence where s': "tx_db s' = fold (project_one lib sx ?next) ?changed
      (written key (nr_components old) rows fence db)" by blast
  have inj: "inj_on (native_record_id lib sx) (set ?changed)"
    using assms(5) by (rule inj_on_subset) (auto simp: ids_def)
  have dist: "distinct ?changed" by (simp add: sorted_list_of_fset.rep_eq)
  have look: "fmlookup (db_app (tx_db s')) n =
      (case List.find (\<lambda>r. native_record_id lib sx r = Inr n) ?changed of
         Some r' \<Rightarrow> app_content lib (fmlookup ?next r') | None \<Rightarrow> fmlookup (db_app db) n)"
    unfolding s' project_fold_lookup[OF e(3) dist inj] by (simp add: written_def split: option.split)
  have only: "r' = r" if "r' \<in> set ?changed" "native_record_id lib sx r' = Inr n" for r'
    using that r assms(5) by (auto simp: ids_def inj_on_def)
  show "fmlookup (db_app (tx_db s')) n = app_content lib (fmlookup ?next r)"
  proof (cases "fmlookup ?cur r = fmlookup ?next r")
    case True
    then have "List.find (\<lambda>r. native_record_id lib sx r = Inr n) ?changed = None"
      using only by (auto simp: find_None_iff)
    moreover have "r \<in> fset (fmdom ?cur)"
      using r(1) True by (auto simp: ids_def fmlookup_dom_iff)
    ultimately show ?thesis
      using look assms(6) r(2) True by (simp add: projected_def)
  next
    case False
    then have "r \<in> set ?changed" using r(1) by (auto simp: ids_def)
    then obtain r' where r': "List.find (\<lambda>r. native_record_id lib sx r = Inr n) ?changed = Some r'"
      using r(2) by (cases "List.find (\<lambda>r. native_record_id lib sx r = Inr n) ?changed")
        (auto simp: find_None_iff)
    then have "r' \<in> set ?changed \<and> native_record_id lib sx r' = Inr n"
      unfolding find_Some_iff using nth_mem by blast
    with only have "r' = r" by blast
    with r' have "List.find (\<lambda>r. native_record_id lib sx r = Inr n) ?changed = Some r" by simp
    with look show ?thesis by simp
  qed
qed

section \<open>Transitions that succeed\<close>

definition healthy :: "engine \<Rightarrow> bool" where
  "healthy en \<longleftrightarrow> en_core en \<and> en_begin en \<and> en_calls en = None \<and> en_commit en = Committed \<and> en_session en"

definition projectable ::
  "'x surreal_lib \<Rightarrow> 'x record_schema \<Rightarrow> (record_id, json optimistic_record) fmap \<Rightarrow> record_id \<Rightarrow> bool" where
  "projectable lib sx rows r \<longleftrightarrow>
     (\<exists>n. native_record_id lib sx r = Inr n)
     \<and> (case fmlookup rows r of
          Some (OptPresent v b ref) \<Rightarrow> (case from_wire_value lib v of Inr (SObject _) \<Rightarrow> True | _ \<Rightarrow> False)
        | _ \<Rightarrow> True)
     \<and> \<not> schema_refuses sx (projr (native_record_id lib sx r)) (app_content lib (fmlookup rows r))"

lemma projectable_runs:
  assumes "projectable lib sx rows r" "tx_calls s = None"
  shows "\<exists>s'. project_record lib sx rows r s = Inr ((), s') \<and> tx_calls s' = None"
proof -
  obtain n where n: "native_record_id lib sx r = Inr n"
    using assms(1) by (auto simp: projectable_def)
  show ?thesis
    using assms n unfolding project_record_def projectable_def
    by (cases "fmlookup rows r") (auto simp: tx_bind_def tx_lift_def app_content_def
        split: optimistic_record.splits sum.splits surreal_value.splits)
qed

lemma for_each_runs:
  "(\<And>x s. x \<in> set xs \<Longrightarrow> tx_calls s = None \<Longrightarrow> \<exists>s'. f x s = Inr ((), s') \<and> tx_calls s' = None) \<Longrightarrow>
   tx_calls s = None \<Longrightarrow> \<exists>s'. tx_for_each f xs s = Inr ((), s') \<and> tx_calls s' = None"
proof (induction xs arbitrary: s)
  case (Cons x xs)
  from Cons.prems(1)[of x s] Cons.prems(2) obtain s1 where s1: "f x s = Inr ((), s1)" "tx_calls s1 = None" by auto
  from Cons.IH[OF _ s1(2)] Cons.prems(1) obtain s2 where "tx_for_each f xs s1 = Inr ((), s2)" "tx_calls s2 = None"
    by (meson list.set_intros(2))
  with s1 show ?case by (simp add: tx_bind_def)
qed (simp add: tx_lift_def)

lemma write_row_diff_runs:
  assumes "tx_calls s = None" "is_some_and (fmlookup (db_meta (tx_db s)) (key_row key)) (\<lambda>row. mr_bootstrap_fence row = None)"
  shows "\<exists>s'. write_row_diff stage key current rows s = Inr ((), s') \<and> tx_calls s' = None"
proof -
  let ?old = "case current of None \<Rightarrow> fmempty | Some r \<Rightarrow> nr_components r"
  have fence: "guard_state_write stage key budget s = Inr (None, s)" for budget
    using assms by (auto simp: guard_state_write_def read_fence_def tx_bind_def tx_lift_def is_some_and_def
        split: option.splits)
  let ?s = "\<lambda>db. s\<lparr>tx_db := db\<rparr>"
  have del: "tx_for_each (delete_component key) is (?s db) = Inr ((), ?s (fold (drop_row key) is db))" for "is" db
    using assms(1) by (simp add: row_updates tx_for_each_update)
  have put: "tx_for_each (\<lambda>(item, payload). upsert_component key v item payload) is (?s db)
      = Inr ((), ?s (fold (put_row key v) is db))" for "is" v db
    using assms(1) by (simp add: row_updates tx_for_each_update)
  show ?thesis
    using fence del[of _ "tx_db s"] put assms(1)
    by (simp add: write_row_diff_def Let_def tx_bind_def upsert_meta_def tx_lift_def)
qed

lemma transition_runs:
  assumes "journal_stored cd db key current" "normalize_state cd next_state = Inr rows"
    and "is_some_and (fmlookup (db_meta db) (key_row key)) (\<lambda>row. mr_bootstrap_fence row = None)"
    and "revision next_state \<noteq> revision current" "subscriptions current \<noteq> None \<longrightarrow> subscriptions next_state \<noteq> None"
    and "\<forall>r \<in> fset (fmdom (optimistic_projection current) |\<union>| fmdom (optimistic_projection next_state)).
      projectable lib sx (optimistic_projection next_state) r"
  shows "\<exists>s'. transition_body cd stage lib sx key current next_state rows \<lparr>tx_db = db, tx_calls = None\<rparr>
    = Inr (Applied, s')"
proof -
  let ?s = "\<lparr>tx_db = db, tx_calls = None\<rparr>"
  from assms(1) obtain old where old: "loaded cd db key = Inr (Some current)" "normalize_state cd current = Inr old"
    by (auto simp: journal_stored_def)
  then obtain s1 where l: "load_v2 cd key ?s = Inr (Some current, s1)"
    by (auto simp: loaded_def rbind_Inr)
  have s1: "s1 = ?s"
  proof -
    have "tx_db s1 = db" using load_v2_loaded(2)[OF l] by simp
    moreover have "tx_calls s1 = None"
      using fault_monotoneD[OF load_v2_tx(1) l] l unlimited_same[of ?s]
      by (metis Inr_inject prod.inject unlimited_simps(2) tx_state.select_convs(2))
    ultimately show ?thesis by simp
  qed
  obtain s2 where s2: "write_row_diff stage key (Some old) rows ?s = Inr ((), s2)" "tx_calls s2 = None"
    using write_row_diff_runs[of ?s key stage "Some old" rows] assms(3) by auto
  have rep: "replace_v2_in_transaction cd stage key (Some (revision current)) (Some current) next_state rows ?s
      = Inr (Applied, s2)"
    using l s1 s2 old(2) assms(4,5) by (auto simp: replace_v2_in_transaction_def tx_bind_def tx_lift_def is_some_and_def)
  have "\<exists>s3. apply_projection_diff lib sx (optimistic_projection current)
      (optimistic_projection next_state) s2 = Inr ((), s3) \<and> tx_calls s3 = None"
    unfolding apply_projection_diff_def using assms(6)
    by (intro for_each_runs[OF _ s2(2)] projectable_runs) (auto simp: Ball_def)
  then obtain s3 where "apply_projection_diff lib sx (optimistic_projection current)
      (optimistic_projection next_state) s2 = Inr ((), s3)" by blast
  with rep show ?thesis by (auto simp: transition_body_def tx_bind_def tx_lift_def)
qed

lemma transition_applies:
  assumes "journal_stored cd db key current" "prepare_state_write cd (Some (revision current)) next_state = Inr (key, rows)"
    and "is_some_and (fmlookup (db_meta db) (key_row key)) (\<lambda>row. mr_bootstrap_fence row = None)"
    and "subscriptions current \<noteq> None \<longrightarrow> subscriptions next_state \<noteq> None"
    and "\<forall>r \<in> fset (fmdom (optimistic_projection current) |\<union>| fmdom (optimistic_projection next_state)).
      projectable lib sx (optimistic_projection next_state) r"
    and "healthy en"
  shows "\<exists>db'. apply_transition_atomic cd stage lib sx en db current next_state = (Inr Applied, db')"
proof -
  note k = prepare_state_write_Inr[OF assms(2)] and ok = stored_rows_ok[OF assms(1)]
  have rev: "revision next_state \<noteq> revision current" using k(4) by fastforce
  from transition_runs[OF assms(1) k(2) assms(3) rev assms(4,5)] obtain s' where
    "transition_body cd stage lib sx key current next_state rows \<lparr>tx_db = db, tx_calls = None\<rparr> = Inr (Applied, s')"
    by blast
  then have "run_transaction en db (transition_body cd stage lib sx key current next_state rows)
      = (Inr Applied, tx_db s')"
    using assms(6) by (simp add: run_transaction_def finish_def finish_transaction_def healthy_def)
  moreover have "validate current = Inr ()" using ok(4) by (simp add: validate_iff)
  moreover have "current \<noteq> next_state" using rev by blast
  ultimately show ?thesis
    using ok(3) k(1) assms(2) by (auto simp: apply_transition_atomic_def)
qed

end
