(* ===== verification/Store_Inspect.thy ===== *)
theory Store_Inspect
  imports Store_Transitions
begin

text \<open>
  The read-only inspection of a journal (\<open>crates/surrealdb-rn-core/src/sync_state.rs\<close>): size
  limits checked on lengths alone before any payload is fetched, then the normal decoder
  over the tables the schema lists, the legacy record or its sentinel, and the scope
  barrier.  The transaction is always cancelled.  The engine's JSON encoder, whose lengths
  are compared, and the list of defined tables are parameters; \<open>None\<close> for the tables means
  that the namespace or the database does not exist.
\<close>

definition max_encoded_identity :: nat where
  "max_encoded_identity = 6 * max_state_identity_bytes + 2"

record inspection_lengths =
  il_payload_bytes :: nat
  il_partition_bytes :: nat
  il_client_bytes :: nat
  il_key_bytes :: nat

definition inspection_length_budget ::
  "inspection_lengths \<Rightarrow> bool \<Rightarrow> nat \<times> nat \<Rightarrow> sync_state_error + nat \<times> nat" where
  "inspection_length_budget row component sizes =
     (if il_payload_bytes row > max_sync_state_bytes
         \<or> il_partition_bytes row > max_encoded_identity
         \<or> il_client_bytes row > max_encoded_identity
         \<or> il_key_bytes row > 6 * max_component_key_bytes + 2
      then Inl StateTooLarge
      else let aggregate = fst sizes + il_payload_bytes row; items = snd sizes + (if component then 1 else 0) in
      if aggregate \<ge> 2 ^ 64 \<or> items \<ge> 2 ^ 64 then Inl StateTooLarge
      else if aggregate > max_aggregate_state_bytes \<or> items > max_component_items then Inl StateTooLarge
      else Inr (aggregate, items))"

text \<open>The lengths one table contributes, in the order the statements are joined.\<close>

definition component_lengths ::
  "(string \<Rightarrow> nat) \<Rightarrow> sync_state_key \<Rightarrow> 'x store_db \<Rightarrow> string \<Rightarrow> inspection_lengths list" where
  "component_lengths encoded key db table =
     map (\<lambda>row. \<lparr>il_payload_bytes = length (cr_payload row), il_partition_bytes = encoded (cr_partition_id row),
                  il_client_bytes = encoded (cr_client_id row), il_key_bytes = encoded (cr_component_key row)\<rparr>)
       (select_components table key db)"

definition meta_lengths :: "(string \<Rightarrow> nat) \<Rightarrow> sync_state_key \<Rightarrow> 'x store_db \<Rightarrow> inspection_lengths list" where
  "meta_lengths encoded key db =
     (case fmlookup (db_meta db) (key_row key) of
        None \<Rightarrow> []
      | Some row \<Rightarrow> [\<lparr>il_payload_bytes = length (mr_payload row), il_partition_bytes = encoded (mr_partition_id row),
                      il_client_bytes = encoded (mr_client_id row), il_key_bytes = 0\<rparr>])"

definition legacy_lengths :: "(string \<Rightarrow> nat) \<Rightarrow> sync_state_key \<Rightarrow> 'x store_db \<Rightarrow> inspection_lengths list" where
  "legacy_lengths encoded key db =
     (case fmlookup (db_legacy db) (key_row key) of
        None \<Rightarrow> []
      | Some row \<Rightarrow> [\<lparr>il_payload_bytes = length (lr_payload row), il_partition_bytes = encoded (lr_partition_id row),
                      il_client_bytes = encoded (lr_client_id row), il_key_bytes = encoded (lr_revision row)\<rparr>])"

definition legacy_budget :: "inspection_lengths \<Rightarrow> sync_state_error + unit" where
  "legacy_budget row =
     (if il_key_bytes row > 6 * 20 + 2 then Inl StateTooLarge
      else rbind (inspection_length_budget row False (0, 0)) (\<lambda>_. Inr ()))"

definition barrier_lengths_ok :: "(string \<Rightarrow> nat) \<Rightarrow> scope_barrier \<Rightarrow> bool" where
  "barrier_lengths_ok encoded b \<longleftrightarrow> encoded (sb_reason b) \<le> 6 * 32 + 2
     \<and> encoded (sb_required_scope b) \<le> max_encoded_identity
     \<and> encoded (sb_required_subscription_revision b) \<le> 6 * 20 + 2
     \<and> encoded (sb_required_authorization_revision b) \<le> 6 * 20 + 2"

definition inspected_components :: "string list" where
  "inspected_components = [confirmed_table, outbox_table, outcome_table, id_map_table, subscription_record_table]"

definition inspection_sizes ::
  "(string \<Rightarrow> nat) \<Rightarrow> string set \<Rightarrow> sync_state_key \<Rightarrow> 'x store_db \<Rightarrow> sync_state_error + nat \<times> nat" where
  "inspection_sizes encoded tables key db =
     rbind (try_fold (\<lambda>sizes row. inspection_length_budget row False sizes) (0, 0)
              (if meta_table \<in> tables then meta_lengths encoded key db else [])) (\<lambda>sizes.
     rbind (for_each legacy_budget (if state_table \<in> tables then legacy_lengths encoded key db else [])) (\<lambda>_.
     rbind (try_fold (\<lambda>sizes row. inspection_length_budget row True sizes) sizes
              (concat (map (component_lengths encoded key db) (filter (\<lambda>t. t \<in> tables) inspected_components)))) (\<lambda>sizes.
     if scope_barrier_table \<in> tables
        \<and> is_some_and (fmlookup (db_barriers db) (key_row key)) (\<lambda>b. \<not> barrier_lengths_ok encoded b)
     then Inl StateTooLarge else Inr (fst sizes, snd sizes + 1))))"

definition preflight_inspection ::
  "(string \<Rightarrow> nat) \<Rightarrow> string set \<Rightarrow> sync_state_key \<Rightarrow> ('x, nat \<times> nat) tx" where
  "preflight_inspection encoded tables key =
     (if tables \<inter> set ([meta_table, state_table, scope_barrier_table] @ inspected_components) = {} then tx_lift (Inr (0, 1))
      else tx_bind (tx_select (inspection_sizes encoded tables key)) tx_lift)"

definition inspect_table :: "string set \<Rightarrow> sync_state_key \<Rightarrow> inventory \<Rightarrow> string \<Rightarrow> ('x, inventory) tx" where
  "inspect_table tables key inventory table =
     (if table \<in> tables then load_table key inventory table else tx_lift (Inr inventory))"

definition inspect_inventory :: "string set \<Rightarrow> sync_state_key \<Rightarrow> ('x, inventory) tx" where
  "inspect_inventory tables key =
     tx_bind (inspect_table tables key fmempty confirmed_table) (\<lambda>inv.
     tx_bind (inspect_table tables key inv outbox_table) (\<lambda>inv.
     tx_bind (inspect_table tables key inv outcome_table) (\<lambda>inv.
     tx_bind (inspect_table tables key inv id_map_table) (\<lambda>inv.
     inspect_table tables key inv subscription_record_table))))"

definition inspect_v2 :: "store_codec \<Rightarrow> string set \<Rightarrow> sync_state_key \<Rightarrow> ('x, stored_sync_state option) tx" where
  "inspect_v2 cd tables key =
     tx_bind (inspect_inventory tables key) (\<lambda>inventory.
     tx_bind (if meta_table \<in> tables then tx_select (\<lambda>db. fmlookup (db_meta db) (key_row key)) else tx_lift (Inr None)) (\<lambda>row.
     tx_lift
       (case row of
          None \<Rightarrow> if map_len inventory = 0 then Inr None else Inl CorruptState
        | Some row \<Rightarrow> rbind (decode_state cd key row inventory) (\<lambda>state. Inr (Some state)))))"

definition reconcile_legacy ::
  "store_codec \<Rightarrow> sync_state_key \<Rightarrow> stored_sync_state option \<Rightarrow> stored_record option \<Rightarrow>
   sync_state_error + stored_sync_state option" where
  "reconcile_legacy cd key state legacy =
     (case (state, legacy) of
        (Some s, Some sentinel) \<Rightarrow>
          if lr_format_version sentinel \<noteq> format_version
             \<or> lr_partition_id sentinel \<noteq> partition_str (fst key) \<or> lr_client_id sentinel \<noteq> client_str (snd key)
             \<or> lr_payload sentinel \<noteq> migrated_sentinel
          then Inl CorruptState
          else rbind (parse_revision (lr_revision sentinel)) (\<lambda>r. if r > revision s then Inl CorruptState else Inr (Some s))
      | (Some s, None) \<Rightarrow> Inr (Some s)
      | (None, Some stored) \<Rightarrow> rbind (decode_record cd key stored) (\<lambda>s. Inr (Some s))
      | (None, None) \<Rightarrow> Inr None)"

definition inspect_known_tables ::
  "store_codec \<Rightarrow> (string \<Rightarrow> nat) \<Rightarrow> string set \<Rightarrow> sync_state_key \<Rightarrow>
   ('x, stored_sync_state option \<times> scope_barrier option) tx" where
  "inspect_known_tables cd encoded tables key =
     tx_bind (tx_lift (validate_key key)) (\<lambda>_.
     tx_bind (preflight_inspection encoded tables key) (\<lambda>_.
     tx_bind (inspect_v2 cd tables key) (\<lambda>state.
     tx_bind (if state_table \<in> tables then tx_select (\<lambda>db. fmlookup (db_legacy db) (key_row key)) else tx_lift (Inr None)) (\<lambda>legacy.
     tx_bind (tx_lift (reconcile_legacy cd key state legacy)) (\<lambda>state.
     tx_bind (if scope_barrier_table \<in> tables then tx_select (\<lambda>db. fmlookup (db_barriers db) (key_row key)) else tx_lift (Inr None)) (\<lambda>barrier.
     tx_lift (rbind (validate_scope_barrier barrier) (\<lambda>_.
       if state = None \<and> barrier \<noteq> None then Inl CorruptState else Inr (state, barrier)))))))))"

definition inspect_transaction ::
  "store_codec \<Rightarrow> (string \<Rightarrow> nat) \<Rightarrow> string set option \<Rightarrow> sync_state_key \<Rightarrow>
   ('x, stored_sync_state option \<times> scope_barrier option) tx" where
  "inspect_transaction cd encoded schema key =
     tx_bind (tx_lift (validate_key key)) (\<lambda>_.
     tx_bind tx_call (\<lambda>_.
     case schema of
       None \<Rightarrow> tx_lift (Inr (None, None))
     | Some tables \<Rightarrow> inspect_known_tables cd encoded tables key))"

definition inspect ::
  "store_codec \<Rightarrow> (string \<Rightarrow> nat) \<Rightarrow> string set option \<Rightarrow> engine \<Rightarrow> 'x store_db \<Rightarrow> sync_state_key \<Rightarrow>
   sync_state_error + stored_sync_state option \<times> scope_barrier option" where
  "inspect cd encoded schema en db key =
     rbind (validate_key key) (\<lambda>_.
     if \<not> en_core en then Inl Core
     else if \<not> en_begin en then Inl Database
     else let result = inspect_transaction cd encoded schema key \<lparr>tx_db = db, tx_calls = en_calls en\<rparr> in
     if \<not> en_cancel en then Inl Database
     else rbind result (\<lambda>(r, _). Inr r))"

section \<open>Inspection agrees with loading\<close>

definition all_tables :: "string list" where
  "all_tables = [meta_table, state_table, scope_barrier_table] @ inspected_components"

lemma inspect_v2_full:
  assumes "set all_tables \<subseteq> tables"
  shows "inspect_v2 cd tables key = load_v2 cd key"
proof -
  have "meta_table \<in> tables" "set inspected_components \<subseteq> tables" using assms by (auto simp: all_tables_def)
  then show ?thesis
    by (simp add: inspect_v2_def load_v2_def inspect_inventory_def load_inventory_def inspected_components_def
        inspect_table_def)
qed

lemma preflight_reads: "reads_only (preflight_inspection encoded tables key)" "fault_monotone (preflight_inspection encoded tables key)"
  unfolding preflight_inspection_def by (auto intro!: tx_intros)


lemma inspected:
  assumes "set all_tables \<subseteq> tables" "inspect cd encoded (Some tables) en db key = Inr (state, barrier)"
  shows "\<exists>v2. loaded cd db key = Inr v2
    \<and> reconcile_legacy cd key v2 (fmlookup (db_legacy db) (key_row key)) = Inr state
    \<and> barrier = fmlookup (db_barriers db) (key_row key) \<and> validate_scope_barrier barrier = Inr ()"
proof -
  have t: "state_table \<in> tables" "scope_barrier_table \<in> tables" using assms(1) by (auto simp: all_tables_def)
  from assms(2) obtain s0 where s0: "inspect_transaction cd encoded (Some tables) key \<lparr>tx_db = db, tx_calls = en_calls en\<rparr>
      = Inr ((state, barrier), s0)"
    by (auto simp: inspect_def rbind_Inr Let_def split: if_splits)
  then obtain s1 s2 sizes v2 s3 where
    s1: "tx_call \<lparr>tx_db = db, tx_calls = en_calls en\<rparr> = Inr ((), s1)"
    and s2: "preflight_inspection encoded tables key s1 = Inr (sizes, s2)"
    and s3: "load_v2 cd key s2 = Inr (v2, s3)"
    and rest: "tx_bind (tx_select (\<lambda>db. fmlookup (db_legacy db) (key_row key))) (\<lambda>legacy.
       tx_bind (tx_lift (reconcile_legacy cd key v2 legacy)) (\<lambda>state.
       tx_bind (tx_select (\<lambda>db. fmlookup (db_barriers db) (key_row key))) (\<lambda>barrier.
       tx_lift (rbind (validate_scope_barrier barrier) (\<lambda>_.
         if state = None \<and> barrier \<noteq> None then Inl CorruptState else Inr (state, barrier)))))) s3 = Inr ((state, barrier), s0)"
    by (auto simp: inspect_transaction_def inspect_known_tables_def tx_bind_Inr tx_lift_Inr t inspect_v2_full[OF assms(1)])
  have "tx_db s1 = db" using tx_call_Inr[OF s1] by simp
  moreover have "tx_db s2 = tx_db s1" using preflight_reads(1) s2 by (rule reads_onlyD)
  moreover note load_v2_loaded[OF s3]
  ultimately have db: "tx_db s3 = db" and v2: "loaded cd db key = Inr v2" by auto
  from rest v2 show ?thesis
    by (auto simp: tx_bind_Inr tx_lift_Inr tx_select_def rbind_Inr db dest!: tx_call_Inr split: if_splits)
qed

end
