(* ===== verification/Native_State.thy ===== *)
theory Native_State
  imports Native_View Native_Subscription Store_Inspect Bootstrap_Codec
begin

text \<open>
  The state a native sync client works on (\<open>crates/surrealdb-rn-core/src/sync_client.rs\<close>) and the
  steps its operations are built from.  A world holds the embedded database, the runtime
  cell that all handles of one journal share, the phase of the guard that holds the cell and
  the poison flag of the database owner.  An operation takes the lock, so that operations
  on one cell run one after the other; what other threads can change in between is the
  environment: at every tick it says whether the handle is closed, whether the session is
  still the current one, how the engine behaves and which tables the schema lists.  Every
  observation and every call of the engine is a tick.
\<close>

section \<open>Errors and blocks\<close>

definition map_protocol_error :: "client_error \<Rightarrow> native_sync_error" where
  "map_protocol_error e =
     (case e of
        SubscriptionCancelled \<Rightarrow> SubscriptionCancelledN
      | InvalidSubscription \<Rightarrow> InvalidSubscriptionN
      | client_error.NeedsNewScopeJournal \<Rightarrow> native_sync_error.NeedsNewScopeJournal
      | client_error.PendingQuarantineRequired \<Rightarrow> native_sync_error.PendingQuarantineRequired
      | _ \<Rightarrow> Protocol)"

fun map_persistence_error :: "sync_state_error \<Rightarrow> native_sync_error" where
  "map_persistence_error IdentityTooLarge = InvalidInput"
| "map_persistence_error StateTooLarge = InvalidInput"
| "map_persistence_error UnsupportedRecordId = InvalidInput"
| "map_persistence_error RecordValueMustBeObject = InvalidInput"
| "map_persistence_error (ValueCodec e) = InvalidInput"
| "map_persistence_error (InvalidState e) = Protocol"
| "map_persistence_error RevisionMismatch = Persistence"
| "map_persistence_error RevisionConflict = Persistence"
| "map_persistence_error CorruptState = Persistence"
| "map_persistence_error EncodeFailed = Persistence"
| "map_persistence_error DecodeFailed = Persistence"
| "map_persistence_error Database = Persistence"
| "map_persistence_error Core = Persistence"
| "map_persistence_error (RollbackFailed e) = Persistence"
| "map_persistence_error CommitUnknown = RecoveryRequired"

datatype scope_block = PendingQuarantine | NewJournal

fun block_reason :: "scope_block \<Rightarrow> string" where
  "block_reason PendingQuarantine = ''pending_quarantine_required''"
| "block_reason NewJournal = ''needs_new_scope_journal''"

definition block_from_reason :: "string \<Rightarrow> scope_block" where
  "block_from_reason reason = (if reason = ''pending_quarantine_required'' then PendingQuarantine else NewJournal)"

fun block_error :: "scope_block \<Rightarrow> native_sync_error" where
  "block_error PendingQuarantine = native_sync_error.PendingQuarantineRequired"
| "block_error NewJournal = native_sync_error.NeedsNewScopeJournal"

section \<open>The shared cell\<close>

record native_slot =
  ns_runtime :: "json client_runtime option"
  ns_journal :: read_journal
  ns_subscriptions :: subscription_journal
  ns_recovery :: bool
  ns_blocked :: "scope_block option"
  ns_binding :: "bootstrap_context option"
  ns_ticket :: u64

definition new_slot :: "string \<Rightarrow> string \<Rightarrow> native_slot" where
  "new_slot read_prefix query_prefix =
     \<lparr>ns_runtime = None, ns_journal = new_journal read_prefix,
      ns_subscriptions = new_subscription_journal query_prefix, ns_recovery = False, ns_blocked = None,
      ns_binding = None, ns_ticket = 0\<rparr>"

definition slot_client :: "native_slot \<Rightarrow> native_sync_error + json client_runtime" where
  "slot_client slot = ok_or (if ns_recovery slot then RecoveryRequired else Closed) (ns_runtime slot)"

definition slot_read_client :: "native_slot \<Rightarrow> native_sync_error + json client_runtime" where
  "slot_read_client slot =
     rbind (slot_client slot) (\<lambda>client.
     case ns_blocked slot of None \<Rightarrow> Inr client | Some block \<Rightarrow> Inl (block_error block))"

definition rotated :: "('e + 'a) \<Rightarrow> 'a \<Rightarrow> 'a" where
  "rotated r old = (case r of Inl _ \<Rightarrow> old | Inr new \<Rightarrow> new)"

definition invalidate_runtime :: "native_slot \<Rightarrow> native_slot" where
  "invalidate_runtime slot =
     slot\<lparr>ns_runtime := None, ns_recovery := True,
          ns_journal := rotated (journal_rotate (ns_journal slot)) (ns_journal slot),
          ns_subscriptions := rotated (subscription_rotate (ns_subscriptions slot)) (ns_subscriptions slot)\<rparr>"

datatype mutation_phase = Clean | InFlight | Settled

record 'y native_world =
  w_db :: "'y native_scalar store_db"
  w_slot :: native_slot
  w_phase :: mutation_phase
  w_poisoned :: bool
  w_tick :: nat

record 'y native_env =
  ev_bridge :: "'y bridge"
  ev_codec :: store_codec
  ev_stage :: "'y native_scalar stage_guard"
  ev_barrier_stage :: "sync_state_key \<Rightarrow> bool \<Rightarrow> ('y native_scalar, unit) tx"
  ev_encoded :: "string \<Rightarrow> nat"
  ev_read :: read_serde
  ev_query :: query_serde
  ev_sub :: subscription_serde
  ev_view :: view_serde
  ev_token :: "nat \<Rightarrow> string"
  ev_commit :: "string \<Rightarrow> json client_commit option"
  ev_push :: "string \<Rightarrow> json push_response option"
  ev_pull :: "string \<Rightarrow> json pull_response option"
  ev_commit_text :: "json client_commit \<Rightarrow> string option"
  ev_outcome_text :: "json resolved_commit \<Rightarrow> string option"
  ev_writer :: "json client_commit json_writer"
  ev_quote :: json_quoter
  ev_embedded :: bool
  ev_closed :: "nat \<Rightarrow> bool"
  ev_session :: "nat \<Rightarrow> bool"
  ev_engine :: "nat \<Rightarrow> engine"
  ev_schema :: "nat \<Rightarrow> sync_state_error + unit"
  ev_tables :: "nat \<Rightarrow> string set option"
  ev_record_key :: "'y native_scalar \<Rightarrow> string"
  ev_component :: "(string \<times> 'y native_value) list \<Rightarrow> stored_component_row option"

definition native_table :: "'y native_scalar \<Rightarrow> string" where
  "native_table native = (case native of NativeRecord table _ \<Rightarrow> table | NativeScalar _ \<Rightarrow> '''')"

definition native_schema :: "'y native_env \<Rightarrow> 'y native_scalar record_schema" where
  "native_schema env = \<lparr>sx_table = native_table, sx_key = ev_record_key env, sx_component = ev_component env\<rparr>"

section \<open>Operations\<close>

type_synonym ('y, 'a) native_op = "'y native_world \<Rightarrow> (native_fault + 'a) \<times> 'y native_world"

definition nbind :: "('y, 'a) native_op \<Rightarrow> ('a \<Rightarrow> ('y, 'b) native_op) \<Rightarrow> ('y, 'b) native_op" where
  "nbind m f w = (case m w of (Inl e, w') \<Rightarrow> (Inl e, w') | (Inr a, w') \<Rightarrow> f a w')"

definition nreturn :: "'a \<Rightarrow> ('y, 'a) native_op" where
  "nreturn a w = (Inr a, w)"

definition nfail :: "native_sync_error \<Rightarrow> ('y, 'a) native_op" where
  "nfail e w = (Inl (Fault e), w)"

definition nlift :: "native_fault + 'a \<Rightarrow> ('y, 'a) native_op" where
  "nlift r w = (r, w)"

definition nget :: "('y native_world \<Rightarrow> 'a) \<Rightarrow> ('y, 'a) native_op" where
  "nget f w = (Inr (f w), w)"

definition nslot :: "(native_slot \<Rightarrow> native_slot) \<Rightarrow> ('y, unit) native_op" where
  "nslot f w = (Inr (), w\<lparr>w_slot := f (w_slot w)\<rparr>)"

definition observe :: "(nat \<Rightarrow> 'a) \<Rightarrow> ('y, 'a) native_op" where
  "observe f w = (Inr (f (w_tick w)), w\<lparr>w_tick := Suc (w_tick w)\<rparr>)"

definition ensure_session :: "'y native_env \<Rightarrow> ('y, unit) native_op" where
  "ensure_session env w =
     (if w_poisoned w then Inl (Fault RecoveryRequired)
      else if ev_closed env (w_tick w) then Inl (Fault Closed)
      else if \<not> ev_session env (w_tick w) then Inl (Fault RecoveryRequired) else Inr (),
      w\<lparr>w_tick := Suc (w_tick w)\<rparr>)"

definition session_current :: "'y native_env \<Rightarrow> ('y, bool) native_op" where
  "session_current env w = (case ensure_session env w of (r, w') \<Rightarrow> (Inr (\<not> isl r), w'))"

definition guard_client :: "'y native_env \<Rightarrow> ('y, json client_runtime) native_op" where
  "guard_client env = nbind (ensure_session env) (\<lambda>_ w. (faulting (slot_client (w_slot w)), w))"

definition guard_read_client :: "'y native_env \<Rightarrow> ('y, json client_runtime) native_op" where
  "guard_read_client env = nbind (ensure_session env) (\<lambda>_ w. (faulting (slot_read_client (w_slot w)), w))"

definition set_phase :: "mutation_phase \<Rightarrow> ('y, unit) native_op" where
  "set_phase p w = (Inr (), w\<lparr>w_phase := p\<rparr>)"

definition unknown_outcome :: "sync_state_error + 'a \<Rightarrow> bool" where
  "unknown_outcome r = (case r of Inl CommitUnknown \<Rightarrow> True | Inl (RollbackFailed _) \<Rightarrow> True | _ \<Rightarrow> False)"

definition settled_mutation :: "sync_state_error + 'a \<Rightarrow> ('y, unit) native_op" where
  "settled_mutation r w = (Inr (), w\<lparr>w_poisoned := w_poisoned w \<or> unknown_outcome r, w_phase := Settled\<rparr>)"

definition poison :: "('y, unit) native_op" where
  "poison w = (Inr (), w\<lparr>w_poisoned := True\<rparr>)"

definition arm_with_state :: "'y native_env \<Rightarrow> ('y, stored_sync_state) native_op" where
  "arm_with_state env =
     nbind (guard_client env) (\<lambda>_.
     nbind (set_phase InFlight) (\<lambda>_ w. (map_sum Fault rt_state (slot_client (w_slot w)), w)))"

text \<open>A call of the store: the engine of the current tick, the tables it leaves behind.\<close>

definition store_write ::
  "'y native_env \<Rightarrow> (engine \<Rightarrow> 'y native_scalar store_db \<Rightarrow> (sync_state_error + 'a) \<times> 'y native_scalar store_db) \<Rightarrow>
   ('y, sync_state_error + 'a) native_op" where
  "store_write env f w =
     (case f (ev_engine env (w_tick w)) (w_db w) of
        (r, db) \<Rightarrow> (Inr r, w\<lparr>w_db := db, w_tick := Suc (w_tick w)\<rparr>))"

definition store_read ::
  "'y native_env \<Rightarrow> (engine \<Rightarrow> 'y native_scalar store_db \<Rightarrow> sync_state_error + 'a) \<Rightarrow>
   ('y, sync_state_error + 'a) native_op" where
  "store_read env f w = (Inr (f (ev_engine env (w_tick w)) (w_db w)), w\<lparr>w_tick := Suc (w_tick w)\<rparr>)"

definition drop_guard :: "'y native_world \<Rightarrow> 'y native_world" where
  "drop_guard w =
     (if w_phase w = Clean then w
      else w\<lparr>w_poisoned := w_poisoned w \<or> w_phase w = InFlight, w_slot := invalidate_runtime (w_slot w),
             w_phase := Clean\<rparr>)"

text \<open>
  The guard is released when the operation returns or unwinds; a loop that does not end
  keeps it.  The phase belongs to the guard and is clean while the lock is free.
\<close>

definition locked :: "('y, 'a) native_op \<Rightarrow> ('y, 'a) native_op" where
  "locked body w =
     (case body (w\<lparr>w_phase := Clean\<rparr>) of
        (Inl Diverged, w') \<Rightarrow> (Inl Diverged, w')
      | (r, w') \<Rightarrow> (r, drop_guard w'))"

text \<open>A mutation runs as a task of its own; when the task panics its waiter is told to recover.\<close>

definition run_mutation :: "'y native_env \<Rightarrow> ('y, 'a) native_op \<Rightarrow> ('y, 'a) native_op" where
  "run_mutation env work =
     nbind (ensure_session env) (\<lambda>_ w.
       case work w of
         (Inl Panicked, w') \<Rightarrow> (Inl (Fault RecoveryRequired), w')
       | (r, w') \<Rightarrow> (r, w'))"

section \<open>Status\<close>

record native_sync_status =
  nst_revision :: u64
  nst_pending_count :: u32
  nst_outcome_count :: u32
  nst_conflict_count :: u32
  nst_cursor_epoch :: "u64 option"
  nst_cursor_sequence :: "u64 option"

definition u32_try_from :: "nat \<Rightarrow> native_sync_error + u32" where
  "u32_try_from n = (if n < 2 ^ 32 then Inr (of_nat n) else Inl Internal)"

definition open_conflict :: "json resolved_commit \<Rightarrow> bool" where
  "open_conflict resolved \<longleftrightarrow> resolution resolved = None \<and> is_conflict (outcome resolved)"

definition status :: "json client_runtime \<Rightarrow> native_sync_error + native_sync_status" where
  "status rt =
     (let state = rt_state rt in
      rbind (u32_try_from (length (outbox state))) (\<lambda>pending.
      rbind (u32_try_from (length (outcomes state))) (\<lambda>resolved.
      rbind (u32_try_from (length (filter open_conflict (outcomes state)))) (\<lambda>conflicts.
      let c = map_option cursor (checkpoint state) in
      Inr \<lparr>nst_revision = revision state, nst_pending_count = pending, nst_outcome_count = resolved,
           nst_conflict_count = conflicts, nst_cursor_epoch = map_option epoch c,
           nst_cursor_sequence = map_option sequence c\<rparr>))))"

section \<open>Conflicts\<close>

definition conflict_context ::
  "json client_runtime \<Rightarrow> client_commit_id \<Rightarrow> native_sync_error + json client_commit \<times> record_id \<times> json record_state" where
  "conflict_context rt i =
     ok_or Protocol (case List.map_filter (\<lambda>resolved.
         if commit_id_of (local_commit resolved) \<noteq> i then None
         else case outcome resolved of
           Conflict _ r authoritative \<Rightarrow> Some (local_commit resolved, r, authoritative)
         | _ \<Rightarrow> None) (outcomes (rt_state rt)) of
       [] \<Rightarrow> None | found # _ \<Rightarrow> Some found)"

fun rebase_operation :: "json operation \<Rightarrow> json record_state \<Rightarrow> native_sync_error + json operation" where
  "rebase_operation (Upsert r b v ref) Absent = Inr (Upsert r BaseAbsent v ref)"
| "rebase_operation (Upsert r b v ref) (Present x n y) = Inr (Upsert r (BaseExact n) v ref)"
| "rebase_operation (Upsert r b v ref) (Tombstone n) = Inr (Upsert r (BaseExact n) v ref)"
| "rebase_operation (Delete r b) (Present x n y) = Inr (Delete r n)"
| "rebase_operation (Delete r b) Absent = Inl Protocol"
| "rebase_operation (Delete r b) (Tombstone n) = Inl Protocol"

fun rebase_first ::
  "json operation list \<Rightarrow> record_id \<Rightarrow> json record_state \<Rightarrow> native_sync_error + json operation list" where
  "rebase_first [] r authoritative = Inl Protocol"
| "rebase_first (op # ops) r authoritative =
     (if operation_record_id op = r then rbind (rebase_operation op authoritative) (\<lambda>op. Inr (op # ops))
      else rbind (rebase_first ops r authoritative) (\<lambda>ops. Inr (op # ops)))"

definition rebase_conflict_operation ::
  "json client_commit \<Rightarrow> record_id \<Rightarrow> json record_state \<Rightarrow> native_sync_error + json client_commit" where
  "rebase_conflict_operation commit r authoritative =
     rbind (rebase_first (operations commit) r authoritative) (\<lambda>ops. Inr (commit\<lparr>operations := ops\<rparr>))"

definition decode_input :: "(string \<Rightarrow> 'a option) \<Rightarrow> string \<Rightarrow> native_sync_error + 'a" where
  "decode_input parse t = (if length t > max_sync_state_bytes then Inl InvalidInput else ok_or InvalidInput (parse t))"

definition encode_output :: "('a \<Rightarrow> string option) \<Rightarrow> 'a \<Rightarrow> native_sync_error + string" where
  "encode_output write x = ok_or Internal (write x)"

end
