(* ===== verification/Native_Client.thy ===== *)
theory Native_Client
  imports Native_State
begin

text \<open>
  The operations of a native sync client (\<open>crates/surrealdb-rn-core/src/sync_client.rs\<close>):
  opening a journal, the mutations, which prepare a transition, persist it in one
  transaction and only then install and publish it, and the reads, which first refresh the
  persisted scope barrier.
\<close>

section \<open>Persist and install\<close>

definition refresh_scope_barrier :: "'y native_env \<Rightarrow> ('y, unit) native_op" where
  "refresh_scope_barrier env =
     nbind (ensure_session env) (\<lambda>_.
     nbind (\<lambda>w. (faulting (slot_client (w_slot w)), w)) (\<lambda>rt.
     nbind (store_read env (\<lambda>en db. load_scope_barrier en db (partition_id (rt_state rt), client_id (rt_state rt)))) (\<lambda>loaded.
     case loaded of
       Inr (Some barrier) \<Rightarrow> nslot (\<lambda>slot. slot\<lparr>ns_blocked := Some (block_from_reason (sb_reason barrier))\<rparr>)
     | Inr None \<Rightarrow> nreturn ()
     | Inl _ \<Rightarrow>
         nbind (nslot (\<lambda>slot. slot\<lparr>ns_runtime := None, ns_recovery := True\<rparr>)) (\<lambda>_. nfail RecoveryRequired))))"

definition recovery_required :: "('y, 'a) native_op" where
  "recovery_required = nbind (nslot invalidate_runtime) (\<lambda>_. nfail RecoveryRequired)"

definition apply_prepared ::
  "'y native_env \<Rightarrow> stored_sync_state \<Rightarrow> stored_sync_state \<Rightarrow> ('y, sync_state_error + sync_state_write) native_op" where
  "apply_prepared env current next_state =
     store_write env (\<lambda>en db. apply_transition_atomic (ev_codec env) (ev_stage env) (br_lib (ev_bridge env)) (native_schema env)
       en db current next_state)"

text \<open>What follows a transaction that committed: install, publish to both journals, disarm.\<close>

definition publish ::
  "'y native_env \<Rightarrow> json client_runtime \<Rightarrow> json committed_read_batch_v1 option \<Rightarrow> u64 \<Rightarrow> ('y, native_sync_status) native_op" where
  "publish env rt batch before =
     (case status rt of
        Inl _ \<Rightarrow> recovery_required
      | Inr st \<Rightarrow>
          nbind (nget (\<lambda>w. ns_journal (w_slot w))) (\<lambda>j.
          nbind (nlift (journal_record (ev_read env) j batch)) (\<lambda>j.
          nbind (nslot (\<lambda>slot. slot\<lparr>ns_journal := j\<rparr>)) (\<lambda>_.
          nbind (nget (\<lambda>w. ns_subscriptions (w_slot w))) (\<lambda>sj.
          nbind (nlift (subscription_record (ev_query env) sj rt before)) (\<lambda>sj.
          nbind (nslot (\<lambda>slot. slot\<lparr>ns_subscriptions := sj\<rparr>)) (\<lambda>_.
          nbind (set_phase Clean) (\<lambda>_. nreturn st))))))))"

definition install_published ::
  "'y native_env \<Rightarrow> json prepared_transition \<Rightarrow> u64 \<Rightarrow> json client_runtime option \<Rightarrow> ('y, native_sync_status) native_op" where
  "install_published env p before runtime =
     (case runtime of
        None \<Rightarrow> recovery_required
      | Some rt \<Rightarrow>
          (case install_with_read_batch rt p of
             Inl _ \<Rightarrow> recovery_required
           | Inr (rt', batch) \<Rightarrow>
               nbind (nslot (\<lambda>slot. slot\<lparr>ns_runtime := Some rt'\<rparr>)) (\<lambda>_. publish env rt' batch before)))"

definition finish_persist ::
  "'y native_env \<Rightarrow> json prepared_transition \<Rightarrow> u64 \<Rightarrow> sync_state_error + sync_state_write \<Rightarrow>
   ('y, native_sync_status) native_op" where
  "finish_persist env p before persisted =
     nbind (settled_mutation persisted) (\<lambda>_.
     if unknown_outcome persisted then recovery_required
     else nbind (session_current env) (\<lambda>session.
     if \<not> session then recovery_required
     else case persisted of
       Inl e \<Rightarrow> nbind (set_phase Clean) (\<lambda>_. nfail (map_persistence_error e))
     | Inr _ \<Rightarrow> nbind (nget (\<lambda>w. ns_runtime (w_slot w))) (install_published env p before)))"

definition persist_and_install ::
  "'y native_env \<Rightarrow> json prepared_transition \<Rightarrow> ('y, native_sync_status) native_op" where
  "persist_and_install env p =
     nbind (ensure_session env) (\<lambda>_.
     nbind (guard_client env) (\<lambda>rt.
     nbind (nlift (faulting (validate_state_codec (ev_bridge env) (prepared_state p)))) (\<lambda>_.
     nbind (arm_with_state env) (\<lambda>current.
     nbind (apply_prepared env current (prepared_state p)) (\<lambda>persisted.
     finish_persist env p (revision (rt_state rt)) persisted)))))"

text \<open>Every mutation prepares its transition from the runtime in the cell.\<close>

definition prepared_op ::
  "client_error + json prepared_transition \<Rightarrow> ('y, json prepared_transition) native_op" where
  "prepared_op r = nlift (map_sum (Fault \<circ> map_protocol_error) (\<lambda>p. p) r)"

section \<open>Mutations\<close>

definition with_fingerprint :: "json client_commit \<Rightarrow> fingerprint \<Rightarrow> json client_commit" where
  "with_fingerprint commit f = commit\<lparr>identity := (identity commit)\<lparr>fingerprint := f\<rparr>\<rparr>"

definition enqueue_owned :: "'y native_env \<Rightarrow> string \<Rightarrow> ('y, native_sync_status) native_op" where
  "enqueue_owned env commit_json =
     nbind (nlift (faulting (decode_input (ev_commit env) commit_json))) (\<lambda>commit.
     locked (
       nbind (guard_client env) (\<lambda>rt.
       nbind (nlift (faulting (canonical_fingerprint (ev_bridge env) (rt_state rt) commit))) (\<lambda>f.
       nbind (guard_client env) (\<lambda>rt.
       nbind (prepared_op (prepare_enqueue rt (with_fingerprint commit f))) (\<lambda>p.
       persist_and_install env p))))))"

definition prior_commit :: "stored_sync_state \<Rightarrow> client_commit_id \<Rightarrow> json client_commit option" where
  "prior_commit state i = find (\<lambda>c. commit_id_of c = i) (outbox state @ map local_commit (outcomes state))"

definition enqueue_bounded_owned ::
  "'y native_env \<Rightarrow> string \<Rightarrow> u32 \<Rightarrow> u32 \<Rightarrow> ('y, native_sync_status) native_op" where
  "enqueue_bounded_owned env commit_json cnt bytes =
     nbind (nlift (faulting (limits cnt bytes))) (\<lambda>_.
     nbind (nlift (faulting (decode_input (ev_commit env) commit_json))) (\<lambda>commit.
     locked (
       nbind (guard_client env) (\<lambda>rt.
       nbind (nlift (faulting (canonical_fingerprint (ev_bridge env) (rt_state rt) commit))) (\<lambda>f.
       let commit = with_fingerprint commit f in
       case prior_commit (rt_state rt) (commit_id_of commit) of
         Some prior \<Rightarrow> if prior \<noteq> commit then nfail Protocol else nlift (faulting (status rt))
       | None \<Rightarrow>
           nbind (nlift (faulting (admits (ev_writer env) (ev_quote env) (outbox (rt_state rt)) commit cnt bytes))) (\<lambda>_.
           nbind (guard_client env) (\<lambda>rt.
           nbind (prepared_op (prepare_enqueue rt commit)) (\<lambda>p.
           persist_and_install env p))))))))"

definition record_push_response_with_policy_owned ::
  "'y native_env \<Rightarrow> string \<Rightarrow> automatic_conflict_policy \<Rightarrow> ('y, native_sync_status) native_op" where
  "record_push_response_with_policy_owned env response_json policy =
     nbind (nlift (faulting (decode_input (ev_push env) response_json))) (\<lambda>response.
     nbind (nlift (faulting (validate_push_response_values (ev_bridge env) (ps_outcome response)))) (\<lambda>_.
     locked (
       nbind (guard_client env) (\<lambda>rt.
       nbind (prepared_op (prepare_push_response_with_policy rt response policy)) (\<lambda>p.
       persist_and_install env p)))))"

fun required_scope :: "json pull_response \<Rightarrow> scope_snapshot option" where
  "required_scope (Reset snapshot) = Some (scope (rs_checkpoint snapshot))"
| "required_scope (Batch batch) =
     (case List.map_filter (\<lambda>frame. case frame of End cp \<Rightarrow> Some (scope cp) | _ \<Rightarrow> None) (frames batch) of
        [] \<Rightarrow> None | found # _ \<Rightarrow> Some found)"

definition barrier_for :: "scope_block \<Rightarrow> scope_snapshot \<Rightarrow> scope_barrier" where
  "barrier_for block required =
     \<lparr>sb_reason = block_reason block, sb_required_scope = scope_str (scope_id required),
      sb_required_subscription_revision = u64_text (scope_subscription_revision required),
      sb_required_authorization_revision = u64_text (authorization_revision required)\<rparr>"

definition save_barrier ::
  "'y native_env \<Rightarrow> scope_block \<Rightarrow> scope_snapshot \<Rightarrow> ('y, unit) native_op" where
  "save_barrier env block required =
     nbind (guard_client env) (\<lambda>rt.
     nbind (set_phase InFlight) (\<lambda>_.
     nbind (store_write env (\<lambda>en db. save_scope_barrier (ev_barrier_stage env) en db
              (partition_id (rt_state rt), client_id (rt_state rt)) (barrier_for block required))) (\<lambda>result.
     nbind (settled_mutation result) (\<lambda>_.
     case result of
       Inl _ \<Rightarrow> nbind (nslot (\<lambda>slot. slot\<lparr>ns_runtime := None, ns_recovery := True\<rparr>)) (\<lambda>_. nfail RecoveryRequired)
     | Inr _ \<Rightarrow> nreturn ()))))"

definition block_of :: "client_error \<Rightarrow> scope_block option" where
  "block_of e =
     (case e of
        client_error.PendingQuarantineRequired \<Rightarrow> Some PendingQuarantine
      | client_error.NeedsNewScopeJournal \<Rightarrow> Some NewJournal
      | _ \<Rightarrow> None)"

definition block_scope :: "client_error \<Rightarrow> ('y, unit) native_op" where
  "block_scope e =
     nslot (\<lambda>slot. case block_of e of None \<Rightarrow> slot | Some block \<Rightarrow> slot\<lparr>ns_blocked := Some block\<rparr>)"

definition apply_pull_response_owned ::
  "'y native_env \<Rightarrow> string \<Rightarrow> ('y, native_sync_status) native_op" where
  "apply_pull_response_owned env response_json =
     nbind (nlift (faulting (decode_input (ev_pull env) response_json))) (\<lambda>response.
     nbind (nlift (faulting (validate_pull_response_values (ev_bridge env) response))) (\<lambda>_.
     locked (
       nbind (guard_client env) (\<lambda>rt.
       case prepare_pull_response rt response of
         Inr p \<Rightarrow> persist_and_install env p
       | Inl e \<Rightarrow>
           nbind (block_scope e) (\<lambda>_.
           nbind (nget (\<lambda>w. ns_blocked (w_slot w))) (\<lambda>blocked.
           nbind (case (blocked, required_scope response) of
                    (Some block, Some required) \<Rightarrow> nbind (save_barrier env block required) (\<lambda>_. set_phase Clean)
                  | _ \<Rightarrow> nreturn ()) (\<lambda>_.
           nfail (map_protocol_error e))))))))"

definition resolve_conflict_keep_server_owned ::
  "'y native_env \<Rightarrow> string \<Rightarrow> ('y, native_sync_status) native_op" where
  "resolve_conflict_keep_server_owned env conflicted =
     locked (
       nbind (guard_client env) (\<lambda>rt.
       nbind (prepared_op (prepare_resolve_conflict rt (ClientCommitId conflicted) ReqKeepServer)) (\<lambda>p.
       persist_and_install env p)))"

definition keep_local_replacement ::
  "'y native_env \<Rightarrow> json client_runtime \<Rightarrow> client_commit_id \<Rightarrow> string \<Rightarrow> native_sync_error + json client_commit" where
  "keep_local_replacement env rt conflict_id replacement_id =
     rbind (conflict_context rt conflict_id) (\<lambda>(local, r, authoritative).
     let replacement = local\<lparr>identity := \<lparr>client_commit_id = ClientCommitId replacement_id, fingerprint = Fingerprint ''''\<rparr>\<rparr> in
     rbind (rebase_conflict_operation replacement r authoritative) (\<lambda>replacement.
     rbind (canonical_fingerprint (ev_bridge env) (rt_state rt) replacement) (\<lambda>f.
     Inr (with_fingerprint replacement f))))"

definition resolve_conflict_keep_local_owned ::
  "'y native_env \<Rightarrow> string \<Rightarrow> string \<Rightarrow> ('y, native_sync_status) native_op" where
  "resolve_conflict_keep_local_owned env conflicted replacement_id =
     locked (
       nbind (guard_client env) (\<lambda>rt.
       nbind (nlift (faulting (keep_local_replacement env rt (ClientCommitId conflicted) replacement_id))) (\<lambda>replacement.
       nbind (prepared_op (prepare_resolve_conflict rt (ClientCommitId conflicted) (ReqKeepLocal replacement))) (\<lambda>p.
       persist_and_install env p))))"

definition resolve_conflict_merge_owned ::
  "'y native_env \<Rightarrow> string \<Rightarrow> string \<Rightarrow> ('y, native_sync_status) native_op" where
  "resolve_conflict_merge_owned env conflicted replacement_json =
     nbind (nlift (faulting (decode_input (ev_commit env) replacement_json))) (\<lambda>replacement.
     locked (
       nbind (guard_client env) (\<lambda>rt.
       nbind (nlift (faulting (canonical_fingerprint (ev_bridge env) (rt_state rt) replacement))) (\<lambda>f.
       nbind (prepared_op (prepare_resolve_conflict rt (ClientCommitId conflicted)
                (ReqMerge (with_fingerprint replacement f)))) (\<lambda>p.
       persist_and_install env p)))))"

definition start_subscription_json_owned ::
  "'y native_env \<Rightarrow> string \<Rightarrow> ('y, native_sync_status) native_op" where
  "start_subscription_json_owned env request_text =
     nbind (nlift (parse_request (ev_query env) request_text)) (\<lambda>request.
     locked (
       nbind (refresh_scope_barrier env) (\<lambda>_.
       nbind (guard_read_client env) (\<lambda>rt.
       nbind (prepared_op (prepare_start_subscription rt request)) (\<lambda>p.
       persist_and_install env p)))))"

definition cancel_subscription_owned ::
  "'y native_env \<Rightarrow> string \<Rightarrow> u64 \<Rightarrow> ('y, native_sync_status) native_op" where
  "cancel_subscription_owned env subscription generation =
     locked (
       nbind (refresh_scope_barrier env) (\<lambda>_.
       nbind (guard_client env) (\<lambda>rt.
       nbind (prepared_op (prepare_cancel_subscription rt subscription generation)) (\<lambda>p.
       persist_and_install env p))))"

definition apply_subscription_response_json_owned ::
  "'y native_env \<Rightarrow> string \<Rightarrow> ('y, native_sync_status) native_op" where
  "apply_subscription_response_json_owned env response_json =
     nbind (nlift (parse_response (ev_query env) (ev_bridge env) (ev_sub env) response_json)) (\<lambda>response.
     locked (
       nbind (refresh_scope_barrier env) (\<lambda>_.
       nbind (guard_read_client env) (\<lambda>rt.
       case prepare_subscription_response rt response of
         Inr p \<Rightarrow> persist_and_install env p
       | Inl e \<Rightarrow>
           (case block_of e of
              None \<Rightarrow> nfail (map_protocol_error e)
            | Some block \<Rightarrow>
                nbind (nslot (\<lambda>slot. slot\<lparr>ns_blocked := Some block\<rparr>)) (\<lambda>_.
                nbind (save_barrier env block (sp_scope response)) (\<lambda>_.
                nbind (guard_client env) (\<lambda>rt.
                nbind (prepared_op (prepare_cancel_subscription rt (sp_subscription_id response) (sp_generation response))) (\<lambda>p.
                nbind (persist_and_install env p) (\<lambda>_.
                nfail (map_protocol_error e)))))))))))"

section \<open>Public mutations\<close>

definition enqueue :: "'y native_env \<Rightarrow> string \<Rightarrow> ('y, native_sync_status) native_op" where
  "enqueue env commit_json = run_mutation env (enqueue_owned env commit_json)"

definition enqueue_bounded :: "'y native_env \<Rightarrow> string \<Rightarrow> u32 \<Rightarrow> u32 \<Rightarrow> ('y, native_sync_status) native_op" where
  "enqueue_bounded env commit_json cnt bytes = run_mutation env (enqueue_bounded_owned env commit_json cnt bytes)"

definition record_push_response_with_policy ::
  "'y native_env \<Rightarrow> string \<Rightarrow> automatic_conflict_policy \<Rightarrow> ('y, native_sync_status) native_op" where
  "record_push_response_with_policy env response_json policy =
     run_mutation env (record_push_response_with_policy_owned env response_json policy)"

definition record_push_response :: "'y native_env \<Rightarrow> string \<Rightarrow> ('y, native_sync_status) native_op" where
  "record_push_response env response_json = record_push_response_with_policy env response_json Manual"

definition apply_pull_response :: "'y native_env \<Rightarrow> string \<Rightarrow> ('y, native_sync_status) native_op" where
  "apply_pull_response env response_json = run_mutation env (apply_pull_response_owned env response_json)"

definition resolve_conflict_keep_server :: "'y native_env \<Rightarrow> string \<Rightarrow> ('y, native_sync_status) native_op" where
  "resolve_conflict_keep_server env conflicted = run_mutation env (resolve_conflict_keep_server_owned env conflicted)"

definition resolve_conflict_keep_local ::
  "'y native_env \<Rightarrow> string \<Rightarrow> string \<Rightarrow> ('y, native_sync_status) native_op" where
  "resolve_conflict_keep_local env conflicted replacement_id =
     run_mutation env (resolve_conflict_keep_local_owned env conflicted replacement_id)"

definition resolve_conflict_merge ::
  "'y native_env \<Rightarrow> string \<Rightarrow> string \<Rightarrow> ('y, native_sync_status) native_op" where
  "resolve_conflict_merge env conflicted replacement_json =
     run_mutation env (resolve_conflict_merge_owned env conflicted replacement_json)"

definition start_subscription_json :: "'y native_env \<Rightarrow> string \<Rightarrow> ('y, native_sync_status) native_op" where
  "start_subscription_json env request_text = run_mutation env (start_subscription_json_owned env request_text)"

definition cancel_subscription :: "'y native_env \<Rightarrow> string \<Rightarrow> u64 \<Rightarrow> ('y, native_sync_status) native_op" where
  "cancel_subscription env subscription generation =
     run_mutation env (cancel_subscription_owned env subscription generation)"

definition apply_subscription_response_json :: "'y native_env \<Rightarrow> string \<Rightarrow> ('y, native_sync_status) native_op" where
  "apply_subscription_response_json env response_json =
     run_mutation env (apply_subscription_response_json_owned env response_json)"

section \<open>Reads\<close>

definition pending_window :: "'y native_env \<Rightarrow> u32 \<Rightarrow> u32 \<Rightarrow> ('y, native_pending_window) native_op" where
  "pending_window env cnt bytes =
     nbind (nlift (faulting (limits cnt bytes))) (\<lambda>_.
     locked (nbind (guard_client env) (\<lambda>rt.
       nlift (faulting (window (ev_writer env) (ev_quote env) (revision (rt_state rt)) (outbox (rt_state rt)) cnt bytes)))))"

definition pending_json :: "'y native_env \<Rightarrow> ('y, string list) native_op" where
  "pending_json env =
     locked (nbind (guard_client env) (\<lambda>rt.
       nlift (faulting (try_map (encode_output (ev_commit_text env)) (outbox (rt_state rt))))))"

definition conflicts_json :: "'y native_env \<Rightarrow> ('y, string list) native_op" where
  "conflicts_json env =
     locked (nbind (guard_client env) (\<lambda>rt.
       nlift (faulting (try_map (encode_output (ev_outcome_text env)) (filter open_conflict (outcomes (rt_state rt)))))))"

definition checkpoint_token :: "'y native_env \<Rightarrow> ('y, string option) native_op" where
  "checkpoint_token env =
     locked (nbind (guard_client env) (\<lambda>rt. nreturn (map_option (token_str \<circ> token) (checkpoint (rt_state rt)))))"

definition native_status :: "'y native_env \<Rightarrow> ('y, native_sync_status) native_op" where
  "native_status env = locked (nbind (guard_client env) (\<lambda>rt. nlift (faulting (status rt))))"

text \<open>Reads of the view refuse while a scope barrier stands.\<close>

definition scoped_read ::
  "'y native_env \<Rightarrow> (native_slot \<Rightarrow> json client_runtime \<Rightarrow> native_fault + 'a) \<Rightarrow> ('y, 'a) native_op" where
  "scoped_read env f =
     locked (
       nbind (refresh_scope_barrier env) (\<lambda>_.
       nbind (guard_read_client env) (\<lambda>rt w. (f (w_slot w) rt, w))))"

definition subscription_request_json :: "'y native_env \<Rightarrow> string \<Rightarrow> ('y, string) native_op" where
  "subscription_request_json env subscription =
     scoped_read env (\<lambda>slot rt. rbind (request_json (ev_query env) rt subscription) (\<lambda>v. faulting (query_output (ev_query env) v)))"

definition subscription_snapshot_json :: "'y native_env \<Rightarrow> string \<Rightarrow> ('y, string) native_op" where
  "subscription_snapshot_json env subscription =
     scoped_read env (\<lambda>slot rt.
       rbind (subscription_bootstrap (ev_query env) (ns_subscriptions slot) rt subscription) (\<lambda>v.
       faulting (query_output (ev_query env) v)))"

definition subscription_changes_json ::
  "'y native_env \<Rightarrow> string \<Rightarrow> string \<Rightarrow> u32 \<Rightarrow> ('y, string) native_op" where
  "subscription_changes_json env subscription cursor_json cnt =
     scoped_read env (\<lambda>slot rt.
       rbind (subscription_changes (ev_query env) (ns_subscriptions slot) rt subscription cursor_json cnt) (\<lambda>v.
       faulting (query_output (ev_query env) v)))"

definition read_snapshot_json :: "'y native_env \<Rightarrow> ('y, string) native_op" where
  "read_snapshot_json env =
     scoped_read env (\<lambda>slot rt.
       rbind (journal_bootstrap (ev_read env) (ns_journal slot) rt) (\<lambda>v. faulting (read_output (ev_read env) v)))"

definition read_changes_json :: "'y native_env \<Rightarrow> string \<Rightarrow> u32 \<Rightarrow> ('y, string) native_op" where
  "read_changes_json env cursor_json cnt =
     scoped_read env (\<lambda>slot rt.
       rbind (journal_changes (ev_read env) (ns_journal slot) rt cursor_json cnt) (\<lambda>v.
       faulting (read_output (ev_read env) v)))"

definition read_view_json :: "'y native_env \<Rightarrow> string \<Rightarrow> ('y, string) native_op" where
  "read_view_json env request_text =
     locked (
       nbind (refresh_scope_barrier env) (\<lambda>_.
       nbind (guard_read_client env) (\<lambda>rt.
       nbind (nget (\<lambda>w. ns_journal (w_slot w))) (\<lambda>j.
       nbind (observe (ev_token env)) (\<lambda>tok.
       nbind (nlift (view_read (ev_view env) rt j tok request_text)) (\<lambda>response.
       nbind (nlift (view_output (ev_view env) response)) (\<lambda>encoded.
       nbind (case as_str (member_at ''nextCursor'' response) of
                None \<Rightarrow> nreturn ()
              | Some c \<Rightarrow> nslot (\<lambda>slot. slot\<lparr>ns_journal := remember_view_cursor (ns_journal slot) c\<rparr>)) (\<lambda>_.
       nreturn encoded))))))))"

definition requires_authorized_reset :: "'y native_env \<Rightarrow> ('y, bool) native_op" where
  "requires_authorized_reset env = scoped_read env (\<lambda>slot rt. Inr (reset_coverage (rt_state rt) = None))"

fun decision_text :: "scope_transition_decision_v1 \<Rightarrow> string" where
  "decision_text Unchanged = ''unchanged''"
| "decision_text DecideNeedsNewScopeJournal = ''needs_new_scope_journal''"
| "decision_text DecidePendingQuarantineRequired = ''pending_quarantine_required''"

definition native_scope_transition_decision :: "'y native_env \<Rightarrow> string \<Rightarrow> u64 \<Rightarrow> ('y, string) native_op" where
  "native_scope_transition_decision env requested sub_revision =
     locked (nbind (guard_client env) (\<lambda>rt.
       nreturn (decision_text (scope_transition_decision rt (ScopeIdentity requested) sub_revision))))"

section \<open>Opening\<close>

record native_sync_open_options =
  no_partition_id :: string
  no_client_id :: string
  no_requested_scope :: string
  no_subscription_revision :: u64

datatype open_mode = CreateIfMissing | ExistingOnly

definition options_key :: "native_sync_open_options \<Rightarrow> sync_state_key" where
  "options_key opts = (PartitionId (no_partition_id opts), ClientId (no_client_id opts))"

definition options_match :: "native_sync_open_options \<Rightarrow> stored_sync_state \<Rightarrow> bool" where
  "options_match opts state \<longleftrightarrow> (partition_id state, client_id state) = options_key opts
     \<and> requested_scope state = ScopeIdentity (no_requested_scope opts)
     \<and> subscription_revision state = no_subscription_revision opts"

definition persisted_op :: "sync_state_error + 'a \<Rightarrow> ('y, 'a) native_op" where
  "persisted_op r = nlift (map_sum (Fault \<circ> map_persistence_error) (\<lambda>a. a) r)"

definition store_load :: "'y native_env \<Rightarrow> sync_state_key \<Rightarrow> ('y, sync_state_error + stored_sync_state option) native_op" where
  "store_load env key =
     store_write env (\<lambda>en db. load (ev_codec env) (ev_stage env) (br_lib (ev_bridge env)) (native_schema env) en db key)"

definition store_inspect ::
  "'y native_env \<Rightarrow> sync_state_key \<Rightarrow> ('y, sync_state_error + stored_sync_state option \<times> scope_barrier option) native_op" where
  "store_inspect env key w =
     store_read env (\<lambda>en db. inspect (ev_codec env) (ev_encoded env) (ev_tables env (w_tick w)) en db key) w"

definition barrier_block :: "scope_barrier option \<Rightarrow> scope_block option" where
  "barrier_block barrier = map_option (\<lambda>b. block_from_reason (sb_reason b)) barrier"

definition inspect_existing ::
  "'y native_env \<Rightarrow> native_sync_open_options \<Rightarrow> ('y, stored_sync_state \<times> scope_block option) native_op" where
  "inspect_existing env opts =
     nbind (store_inspect env (options_key opts)) (\<lambda>result.
     nbind (persisted_op result) (\<lambda>(state, barrier).
     nbind (nlift (ok_or (Fault RecoveryRequired) state)) (\<lambda>state.
     if \<not> options_match opts state then nfail Protocol
     else nbind (nlift (faulting (validate_state_codec (ev_bridge env) state))) (\<lambda>_.
     nbind (nget w_slot) (\<lambda>slot.
     if is_some_and (ns_runtime slot) (\<lambda>rt. rt_state rt \<noteq> state \<or> ns_blocked slot \<noteq> barrier_block barrier)
     then nfail RecoveryRequired else nreturn (state, barrier_block barrier))))))"

definition create_initial ::
  "'y native_env \<Rightarrow> native_sync_open_options \<Rightarrow> stored_sync_state \<Rightarrow> ('y, stored_sync_state) native_op" where
  "create_initial env opts initial =
     nbind (set_phase InFlight) (\<lambda>_.
     nbind (observe (ev_engine env)) (\<lambda>reading.
     nbind (store_write env (\<lambda>en db. save_atomic (ev_codec env) (ev_stage env) (br_lib (ev_bridge env)) (native_schema env)
              reading en db None initial)) (\<lambda>saved.
     nbind (settled_mutation saved) (\<lambda>_.
     nbind (nget w_poisoned) (\<lambda>poisoned.
     if poisoned then nfail RecoveryRequired
     else case saved of
       Inr _ \<Rightarrow> nreturn initial
     | Inl RevisionConflict \<Rightarrow>
         nbind (store_load env (options_key opts)) (\<lambda>again.
         nbind (persisted_op again) (\<lambda>state. nlift (ok_or (Fault Persistence) state)))
     | Inl e \<Rightarrow> nfail (map_persistence_error e))))))"

definition load_or_create ::
  "'y native_env \<Rightarrow> native_sync_open_options \<Rightarrow> ('y, stored_sync_state) native_op" where
  "load_or_create env opts =
     nbind (store_load env (options_key opts)) (\<lambda>result.
     nbind (persisted_op result) (\<lambda>found.
     case found of
       Some state \<Rightarrow> nreturn state
     | None \<Rightarrow>
         (let initial = empty_state (PartitionId (no_partition_id opts)) (ClientId (no_client_id opts))
                (ScopeIdentity (no_requested_scope opts)) (no_subscription_revision opts) in
          create_initial env opts initial)))"

definition open_created ::
  "'y native_env \<Rightarrow> native_sync_open_options \<Rightarrow> ('y, stored_sync_state \<times> scope_block option) native_op" where
  "open_created env opts =
     nbind (set_phase InFlight) (\<lambda>_.
     nbind (observe (ev_schema env)) (\<lambda>defined.
     nbind (if defined = Inl Database then poison else nreturn ()) (\<lambda>_.
     nbind (settled_mutation defined) (\<lambda>_.
     if defined = Inl Database then nfail RecoveryRequired
     else nbind (persisted_op defined) (\<lambda>_.
     nbind (load_or_create env opts) (\<lambda>state.
     if \<not> options_match opts state then nfail Protocol
     else nbind (nlift (faulting (validate_state_codec (ev_bridge env) state))) (\<lambda>_.
     nbind (store_read env (\<lambda>en db. load_scope_barrier en db (options_key opts))) (\<lambda>barrier.
     case barrier of
       Inl _ \<Rightarrow> nfail RecoveryRequired
     | Inr barrier \<Rightarrow> nreturn (state, barrier_block barrier)))))))))"

text \<open>A cell that needs recovery moves both journals to a fresh epoch first.\<close>

definition rotate_for_recovery :: "('y, unit) native_op" where
  "rotate_for_recovery =
     nbind (nget w_slot) (\<lambda>slot.
     if \<not> ns_recovery slot then nreturn ()
     else case journal_rotate (ns_journal slot) of
       Inl _ \<Rightarrow> recovery_required
     | Inr j \<Rightarrow>
         nbind (nslot (\<lambda>slot. slot\<lparr>ns_journal := j\<rparr>)) (\<lambda>_.
         case subscription_rotate (ns_subscriptions slot) of
           Inl _ \<Rightarrow> recovery_required
         | Inr sj \<Rightarrow> nslot (\<lambda>slot. slot\<lparr>ns_subscriptions := sj\<rparr>)))"

definition install_opened ::
  "stored_sync_state \<Rightarrow> scope_block option \<Rightarrow> ('y, unit) native_op" where
  "install_opened state blocked =
     nbind (nlift (map_sum (Fault \<circ> map_protocol_error) (\<lambda>rt. rt) (open_runtime state))) (\<lambda>rt.
     nbind rotate_for_recovery (\<lambda>_.
     nslot (\<lambda>slot. slot\<lparr>ns_runtime := Some rt, ns_recovery := False, ns_blocked := blocked\<rparr>)))"

definition initialize_runtime ::
  "'y native_env \<Rightarrow> native_sync_open_options \<Rightarrow> open_mode \<Rightarrow> ('y, unit) native_op" where
  "initialize_runtime env opts mode =
     locked (
       nbind (ensure_session env) (\<lambda>_.
       nbind (if mode = ExistingOnly then nbind (inspect_existing env opts) (\<lambda>e. nreturn (Some e)) else nreturn None) (\<lambda>existing.
       nbind (nget (\<lambda>w. ns_runtime (w_slot w))) (\<lambda>runtime.
       nbind (if runtime = None
              then nbind (case existing of Some e \<Rightarrow> nreturn e | None \<Rightarrow> open_created env opts) (\<lambda>(state, blocked).
                     install_opened state blocked)
              else nreturn ()) (\<lambda>_.
       nbind (guard_client env) (\<lambda>rt.
       if requested_scope (rt_state rt) \<noteq> ScopeIdentity (no_requested_scope opts)
          \<or> subscription_revision (rt_state rt) \<noteq> no_subscription_revision opts
       then nfail Protocol
       else nbind (observe (ev_session env)) (\<lambda>session.
       if \<not> session
       then nbind (nslot (\<lambda>slot. slot\<lparr>ns_runtime := None, ns_recovery := True\<rparr>)) (\<lambda>_. nfail RecoveryRequired)
       else set_phase Clean)))))))"

definition open_sync_client_with_mode ::
  "'y native_env \<Rightarrow> native_sync_open_options \<Rightarrow> open_mode \<Rightarrow> ('y, unit) native_op" where
  "open_sync_client_with_mode env opts mode =
     (if \<not> ev_embedded env then nfail RequiresEmbeddedDatabase
      else nbind (persisted_op (validate_key (options_key opts))) (\<lambda>_.
      nbind (nget w_poisoned) (\<lambda>poisoned.
      if poisoned then nfail RecoveryRequired
      else run_mutation env (initialize_runtime env opts mode))))"

end
