(* ===== verification/Store_Outcomes.thy ===== *)
theory Store_Outcomes
  imports Store_Transitions
begin

text \<open>
  How the operations of the store end, whatever the engine does: a transition, a transition
  from a state that is no longer stored, the write of a scope barrier and a load.
\<close>

section \<open>Transitions\<close>

lemma transition_outcome:
  assumes "journal_stored cd db (partition_id current, client_id current) current"
    and "faithful_codec cd next_state" "stage_reads stage" "current \<noteq> next_state"
    and "apply_transition_atomic cd stage lib sx en db current next_state = (r, db')"
    and "\<forall>r \<in> fset (fmdom (optimistic_projection next_state)). outside_store lib sx r"
  shows "db' = db \<and> (\<exists>e. r = Inl e)
    \<or> journal_stored cd db' (partition_id next_state, client_id next_state) next_state
      \<and> (\<forall>other. other \<noteq> (partition_id current, client_id current) \<longrightarrow> loaded cd db' other = loaded cd db other)
      \<and> db_barriers db' = db_barriers db \<and> (r = Inr Applied \<or> r = Inl CommitUnknown)"
proof -
  let ?key = "(partition_id current, client_id current)"
  have r: "(\<exists>e. r = Inl e) \<longleftrightarrow> (\<forall>w. r \<noteq> Inr w)" by (cases r) auto
  consider (same) "db' = db" "\<forall>w. r \<noteq> Inr w"
    | (run) rows where "prepare_state_write cd (Some (revision current)) next_state = Inr (?key, rows)"
        "run_transaction en db (transition_body cd stage lib sx ?key current next_state rows) = (r, db')"
    using apply_transition_run[OF assms(4,5)] by blast
  then show ?thesis
  proof cases
    case same
    with r show ?thesis by blast
  next
    case (run rows)
    have key: "?key = (partition_id next_state, client_id next_state)"
      by (rule prepare_state_write_Inr(1)[OF run(1)])
    consider (undone) "db' = db" "\<forall>w. r \<noteq> Inr w"
      | (applied) d s' where "transition_body cd stage lib sx ?key current next_state rows
            \<lparr>tx_db = db, tx_calls = None\<rparr> = Inr (d, s')" "db' = tx_db s'" "r = Inr d \<or> r = Inl CommitUnknown"
      using run_transaction_cases[OF run(2) transition_monotone[OF assms(3)]] by blast
    then show ?thesis
    proof cases
      case undone
      with r show ?thesis by blast
    next
      case (applied d s')
      with applied_transition[OF assms(3,2,1) run(1) applied(1) assms(6)] key show ?thesis by auto
    qed
  qed
qed

lemma stale_unchanged:
  assumes "loaded cd db (partition_id current, client_id current) \<noteq> Inr (Some current)"
    and "stage_reads stage" "current \<noteq> next_state"
  shows "\<exists>e. apply_transition_atomic cd stage lib sx en db current next_state = (Inl e, db)"
proof -
  obtain r db' where run: "apply_transition_atomic cd stage lib sx en db current next_state = (r, db')"
    by (cases "apply_transition_atomic cd stage lib sx en db current next_state")
  have "db' = db \<and> (\<forall>w. r \<noteq> Inr w)"
    using apply_transition_run[OF assms(3) run] run_transaction_cases[OF _ transition_monotone[OF assms(2)]]
      transition_effect(1)[OF assms(2)] assms(1) by metis
  with run show ?thesis by (cases r) auto
qed

section \<open>Scope barriers\<close>

definition fenced :: "sync_state_key \<Rightarrow> string \<Rightarrow> 'x store_db \<Rightarrow> 'x store_db" where
  "fenced key fence db =
     (case fmlookup (db_meta db) (key_row key) of
        None \<Rightarrow> db
      | Some row \<Rightarrow> db\<lparr>db_meta := fmupd (key_row key) (row\<lparr>mr_bootstrap_fence := Some fence\<rparr>) (db_meta db)\<rparr>)"

lemma fenced_tables [simp]:
  "db_components (fenced key fence db) = db_components db" "db_barriers (fenced key fence db) = db_barriers db"
  "db_app (fenced key fence db) = db_app db" "db_legacy (fenced key fence db) = db_legacy db"
  by (auto simp: fenced_def split: option.splits)

lemma decode_ignores_fence [simp]:
  "decode_state cd key (row\<lparr>mr_bootstrap_fence := f\<rparr>) inventory = decode_state cd key row inventory"
  by (simp add: decode_state_def validate_meta_row_def validate_meta_def)

lemma loaded_barriers [simp]: "loaded cd (db\<lparr>db_barriers := b\<rparr>) key = loaded cd db key"
  by (simp add: loaded_pure select_components_def)

lemma loaded_fenced [simp]: "loaded cd (fenced key fence db) k = loaded cd db k"
  by (simp add: loaded_pure select_components_def) (auto simp: fenced_def split: option.splits)

lemma tx_update_effect: "tx_update f s = Inr (u, s') \<Longrightarrow> tx_db s' = f (tx_db s)"
  by (auto simp: tx_update_def tx_bind_Inr dest!: tx_call_Inr)

lemma guard_barrier_effect:
  assumes "\<And>active. reads_only (stage key active)" "guard_barrier_write stage key s = Inr (u, s1)"
  shows "tx_db s1 = tx_db s \<or> (\<exists>fence. tx_db s1 = fenced key fence (tx_db s))"
proof -
  have fence: "reads_only (read_fence key)" unfolding read_fence_def by (intro tx_intros)
  from assms(2) obtain raw s2 where r: "read_fence key s = Inr (raw, s2)"
    and rest: "(case raw of None \<Rightarrow> tx_lift (Inr ()) | Some raw \<Rightarrow>
         tx_bind (tx_lift (parse_metadata_fence raw)) (\<lambda>(_, active).
         tx_bind (stage key active) (\<lambda>_.
         tx_bind (tx_lift (next_fence (Some raw))) (write_fence key)))) s2 = Inr (u, s1)"
    by (auto simp: guard_barrier_write_def tx_bind_Inr)
  have db: "tx_db s2 = tx_db s" by (rule reads_onlyD[OF fence r])
  show ?thesis
  proof (cases raw)
    case None
    with rest db show ?thesis by (simp add: tx_lift_Inr)
  next
    case (Some f)
    with rest obtain active s3 g where st: "stage key active s2 = Inr ((), s3)" "write_fence key g s3 = Inr (u, s1)"
      by (auto simp: tx_bind_Inr tx_lift_Inr)
    have "tx_db s3 = tx_db s" using reads_onlyD[OF assms(1) st(1)] db by simp
    with tx_update_effect[OF st(2)[unfolded write_fence_def]] have "tx_db s1 = fenced key g (tx_db s)"
      by (simp add: fenced_def split: option.splits)
    then show ?thesis by blast
  qed
qed

lemma save_barrier_effect:
  assumes "\<And>active. fault_monotone (stage key active)" "\<And>active. reads_only (stage key active)"
    and "save_scope_barrier stage en db key barrier = (r, db')"
  shows "db' = db \<and> (\<exists>e. r = Inl e)
    \<or> (\<exists>db1. (db1 = db \<or> (\<exists>fence. db1 = fenced key fence db))
        \<and> db' = db1\<lparr>db_barriers := fmupd (key_row key) (merge_barrier (fmlookup (db_barriers db1) (key_row key)) barrier) (db_barriers db1)\<rparr>
        \<and> (r = Inr () \<or> r = Inl CommitUnknown))"
proof -
  let ?set = "\<lambda>db. db\<lparr>db_barriers := fmupd (key_row key)
             (merge_barrier (fmlookup (db_barriers db) (key_row key)) barrier) (db_barriers db)\<rparr>"
  let ?body = "tx_bind (guard_barrier_write stage key) (\<lambda>_. tx_update ?set)"
  have mono: "fault_monotone ?body"
    unfolding guard_barrier_write_def read_fence_def write_fence_def
    by (auto intro!: tx_intros assms(1) split: option.splits)
  have r: "(\<exists>e. r = Inl e) \<longleftrightarrow> (\<forall>w. r \<noteq> Inr w)" by (cases r) auto
  have "db' = db \<and> (\<forall>w. r \<noteq> Inr w) \<or> run_transaction en db ?body = (r, db')"
    using assms(3) by (auto simp: save_scope_barrier_def split: sum.splits)
  then consider "db' = db" "\<forall>w. r \<noteq> Inr w"
    | s' where "?body \<lparr>tx_db = db, tx_calls = None\<rparr> = Inr ((), s')" "db' = tx_db s'" "r = Inr () \<or> r = Inl CommitUnknown"
    using run_transaction_cases[OF _ mono, of en db r db'] by auto
  then show ?thesis
  proof cases
    case (2 s')
    then obtain s1 where g: "guard_barrier_write stage key \<lparr>tx_db = db, tx_calls = None\<rparr> = Inr ((), s1)"
        "tx_update ?set s1 = Inr ((), s')"
      by (auto simp: tx_bind_Inr)
    have db': "db' = ?set (tx_db s1)"
      using tx_update_effect[OF g(2)] 2(2) by simp
    from guard_barrier_effect[OF assms(2) g(1)] 2(3) db' show ?thesis by auto
  qed (use r in blast)
qed

section \<open>A stored journal is not disturbed\<close>

lemma inventory_cong: "db_components db' = db_components db \<Longrightarrow> inventory_of key db' = inventory_of key db"
  by (simp add: inventory_of_def client_rows_def)

lemma stored_cong:
  assumes "db_components db' = db_components db" "loaded cd db' key = loaded cd db key"
  shows "journal_stored cd db' key s = journal_stored cd db key s"
  using assms inventory_cong[OF assms(1), of key] by (simp add: journal_stored_def rows_owned_def)

lemma stored_after_barrier:
  assumes "\<And>active. fault_monotone (stage key active)" "\<And>active. reads_only (stage key active)"
    and "save_scope_barrier stage en db key barrier = (r, db')"
  shows "journal_stored cd db' k s = journal_stored cd db k s"
  using save_barrier_effect[OF assms] by (auto intro!: stored_cong)

lemma load_stored:
  assumes "journal_stored cd db key s" "load cd stage lib sx en db key = (r, db')"
  shows "db' = db \<and> (r = Inr (Some s) \<or> (\<exists>e. r = Inl e))"
proof -
  have l: "loaded cd db key = Inr (Some s)" using assms(1) by (simp add: journal_stored_def)
  have "found = Some s" if "load_v2 cd key \<lparr>tx_db = db, tx_calls = c\<rparr> = Inr (found, s')" for found s' c
    using load_v2_loaded(1)[OF that] l by simp
  with assms(2) show ?thesis
    by (auto simp: load_def run_reads_def rbind_Inr tx_bind_def tx_lift_def rbind_def
        split: sum.splits if_splits option.splits prod.splits)
qed

lemma stored_unique: "journal_stored cd db key s \<Longrightarrow> journal_stored cd db key t \<Longrightarrow> s = t"
  by (simp add: journal_stored_def)

end
