(* ===== verification/Client_Names.thy ===== *)
theory Client_Names
  imports Client_Conflict
begin

text \<open>
  Which records a journal names.  A transition only brings in the record IDs of its own
  input (the operations of a commit, the canonical IDs of accepted mappings, the records of
  a pull or a snapshot), and the optimistic projection shows no record the journal does not
  name.  The native store relies on this: what it writes to the database is the projection.
\<close>

definition commit_names :: "(record_id \<Rightarrow> bool) \<Rightarrow> 'v client_commit \<Rightarrow> bool" where
  "commit_names ok c \<longleftrightarrow> (\<forall>op \<in> set (operations c). ok (operation_record_id op))"

definition names_only :: "(record_id \<Rightarrow> bool) \<Rightarrow> 'v durable_client_state \<Rightarrow> bool" where
  "names_only ok s \<longleftrightarrow>
     (\<forall>r \<in> fset (fmdom (confirmed s)). ok r) \<and> (\<forall>c \<in> set (all_commits s). commit_names ok c)"

fun event_names :: "(record_id \<Rightarrow> bool) \<Rightarrow> 'v client_event \<Rightarrow> bool" where
  "event_names ok (EvEnqueue c) = commit_names ok c"
| "event_names ok (EvPush response policy) =
     (\<forall>m \<in> set (accepted_mappings (ps_outcome response)). ok (canonical_id m))"
| "event_names ok (EvResolve cid request) =
     (case request of ReqKeepServer \<Rightarrow> True | ReqKeepLocal c \<Rightarrow> True | ReqMerge c \<Rightarrow> commit_names ok c)"
| "event_names ok (EvPull response) =
     (case response of
        Batch batch \<Rightarrow> \<forall>c \<in> set (batch_commits batch). \<forall>rec \<in> set (pc_records c). ok (ar_record_id rec)
      | Reset snapshot \<Rightarrow> \<forall>rec \<in> set (rs_records snapshot). ok (sr_record_id rec))"
| "event_names ok (EvBootstrap cp recs) = (\<forall>rec \<in> set recs. ok (sr_record_id rec))"
| "event_names ok _ = True"

lemma names_prepare: "prepare rt next = Inr p \<Longrightarrow> names_only ok (prepared_state p) = names_only ok next"
  using prepare_fields[of rt "next" p] by (simp add: names_only_def all_commits_def)

lemma names_projection:
  assumes "names_only ok s" "r \<in> fset (fmdom (optimistic_projection s))"
  shows "ok r"
proof -
  from assms(2) obtain x where "last_writer s r = Some x"
    by (auto simp: fmlookup_dom_iff optimistic_projection_lookup)
  then consider (op) op where "op \<in> set (optimistic_operations s)" "operation_record_id op = r"
    | (row) y where "fmlookup (confirmed s) r = Some y"
    by (auto simp: last_writer_def find_Some_iff bind_eq_Some_conv split: option.splits)
      (metis length_rev nth_mem set_rev)
  then show ?thesis
  proof cases
    case op
    then obtain c where "c \<in> set (all_commits s)" "op \<in> set (operations c)"
      by (fastforce simp: optimistic_operations_def all_commits_def in_map_filter
          simp del: accepted_not_pulled.simps dest!: accepted_not_pulled_commit)
    with assms(1) op(2) show ?thesis by (auto simp: names_only_def commit_names_def)
  next
    case row
    with assms(1) show ?thesis by (auto simp: names_only_def intro: fmdomI)
  qed
qed

section \<open>Push outcomes\<close>

lemma commit_names_remap:
  "commit_names ok c \<Longrightarrow> ok (canonical_id m) \<Longrightarrow> commit_names ok (remap_commit m c)"
  by (auto simp: commit_names_def remap_commit_def remap_record_id_def)

lemma names_mapping:
  assumes "apply_id_mapping s m = Inr t" "names_only ok s" "ok (canonical_id m)"
  shows "names_only ok t"
  using assms(1)
proof (cases rule: apply_id_mapping_cases)
  case (fresh conf)
  note lookup = move_confirmed_lookup[OF fresh(4,1)]
  have "ok r" if "r \<in> fset (fmdom (confirmed t))" for r
  proof -
    from that have "fmlookup conf r \<noteq> None" by (auto simp: fresh(5) fmlookup_dom_iff)
    then have "r = canonical_id m \<or> r \<in> fset (fmdom (confirmed s))"
      unfolding lookup by (auto split: if_splits simp: fmlookup_dom_iff)
    with assms(2,3) show ?thesis by (auto simp: names_only_def)
  qed
  moreover have "all_commits t = map (remap_commit m) (all_commits s)"
    by (simp add: fresh(5) all_commits_def remap_resolved_def comp_def)
  ultimately show ?thesis
    using assms(2,3) by (auto simp: names_only_def intro: commit_names_remap)
qed (use assms(2) in simp)

lemma names_mappings:
  "try_fold apply_id_mapping s ms = Inr t \<Longrightarrow> names_only ok s \<Longrightarrow> \<forall>m \<in> set ms. ok (canonical_id m) \<Longrightarrow>
   names_only ok t"
  by (induction ms arbitrary: s) (auto simp: rbind_Inr intro: names_mapping)

lemma names_remaps:
  "commit_names ok c \<Longrightarrow> \<forall>m \<in> set ms. ok (canonical_id m) \<Longrightarrow> commit_names ok (fold remap_commit ms c)"
  by (induction ms arbitrary: c) (auto intro: commit_names_remap)

lemma names_push:
  assumes "prepare_push_response_with_policy rt response policy = Inr p" "names_only ok (rt_state rt)"
    and "\<forall>m \<in> set (accepted_mappings (ps_outcome response)). ok (canonical_id m)"
  shows "names_only ok (prepared_state p)"
  using assms(1)
proof (cases rule: push_cases)
  case (retry resolved)
  with assms(2) show ?thesis by (simp add: names_prepare)
next
  case (first index nxt)
  let ?s = "rt_state rt" and ?oc = "ps_outcome response"
  have index: "index < length (outbox ?s)" using position_Some[OF first(2)] by blast
  then have "set (remove_at index (outbox ?s)) \<subseteq> set (outbox ?s)"
    using remove_at_split[of index "outbox ?s"] by (metis set_mset_add_mset_insert set_mset_mset subset_insertI)
  with assms(2) have "names_only ok (?s\<lparr>outbox := remove_at index (outbox ?s)\<rparr>)"
    by (auto simp: names_only_def all_commits_def)
  from names_mappings[OF first(3) this assms(3)] have "names_only ok nxt" .
  moreover have "commit_names ok (outbox ?s ! index)"
    using assms(2) index by (auto simp: names_only_def all_commits_def)
  then have "commit_names ok (local_commit (resolve_pushed policy ?oc (outbox ?s ! index)))"
    using names_remaps assms(3) by (simp add: resolve_pushed_def Let_def)
  ultimately show ?thesis
    unfolding names_prepare[OF first(4)] by (auto simp: names_only_def all_commits_def)
qed

section \<open>Conflicts, pulls and snapshots\<close>

lemma intent_names:
  "map intent_of (operations d) = map intent_of (operations c) \<Longrightarrow> commit_names ok c \<Longrightarrow> commit_names ok d"
proof -
  assume same: "map intent_of (operations d) = map intent_of (operations c)" and c: "commit_names ok c"
  have id: "operation_record_id = fst \<circ> (intent_of :: 'a operation \<Rightarrow> _)"
  proof
    show "operation_record_id op = (fst \<circ> intent_of) op" for op :: "'a operation" by (cases op) auto
  qed
  have "map operation_record_id (operations d) = map operation_record_id (operations c)"
    unfolding id by (metis same map_map)
  then have "operation_record_id ` set (operations d) = operation_record_id ` set (operations c)"
    by (metis list.set_map)
  with c show "commit_names ok d" by (auto simp: commit_names_def image_iff set_eq_iff) metis
qed

lemma resolve_confirmed:
  assumes "prepare_resolve_conflict rt cid request = Inr p"
  shows "confirmed (prepared_state p) = confirmed (rt_state rt)"
  using assms unfolding prepare_resolve_conflict_def resolve_at_def
  by (auto simp: Let_def rbind_Inr ok_or_Inr
      split: option.splits if_splits durable_outcome.splits conflict_resolution_request.splits
      dest: prepare_fields)

lemma names_resolve:
  assumes "prepare_resolve_conflict rt cid request = Inr p" "names_only ok (rt_state rt)"
    and "event_names ok (EvResolve cid request)"
  shows "names_only ok (prepared_state p)"
proof -
  let ?s = "rt_state rt"
  obtain index i r a where pos: "position (conflict_of cid) (outcomes ?s) = Some index"
    and oc: "outcome (outcomes ?s ! index) = Conflict i r a"
    using assms(1) by (rule resolve_conflict_found)
  have len: "index < length (outcomes ?s)" using position_Some[OF pos] by blast
  show ?thesis
  proof (cases "resolution (outcomes ?s ! index)")
    case (Some res)
    then have "prepared_state p = ?s"
      using assms(1) resolve_conflict_cases[OF pos oc, of request] by (auto simp: prepare_Inr split: if_splits)
    with assms(2) show ?thesis by simp
  next
    case None
    then have at: "resolve_at rt index r a request = Inr p"
      using assms(1) resolve_conflict_cases[OF pos oc] by simp
    note e = resolve_at_effect[OF at]
    have "map local_commit (outcomes (prepared_state p)) = map local_commit (outcomes ?s)"
      using len unfolding e(1) by (simp add: map_update list_update_same_conv)
    then have all: "set (all_commits (prepared_state p)) = set (all_commits ?s) \<union> set (replacement_of request)"
      unfolding all_commits_def set_append e(2) by auto
    have "commit_names ok (local_commit (outcomes ?s ! index))"
      using len assms(2) by (auto simp: names_only_def all_commits_def)
    then have "\<forall>c \<in> set (replacement_of request). commit_names ok c"
      using e(4) assms(3) intent_names by (cases request) auto
    with all assms(2) resolve_confirmed[OF assms(1)] show ?thesis by (auto simp: names_only_def)
  qed
qed

lemma names_apply_record:
  "\<forall>r \<in> fset (fmdom conf). ok r \<Longrightarrow> ok (ar_record_id rec) \<Longrightarrow> \<forall>r \<in> fset (fmdom (apply_record rec conf)). ok r"
  by (auto simp: apply_record_def split: record_state.splits)

lemma names_apply_records:
  "\<forall>r \<in> fset (fmdom conf). ok r \<Longrightarrow> \<forall>rec \<in> set recs. ok (ar_record_id rec) \<Longrightarrow>
   \<forall>r \<in> fset (fmdom (fold apply_record recs conf)). ok r"
proof (induction recs arbitrary: conf)
  case (Cons rec recs)
  then have "ok (ar_record_id rec)" by simp
  from Cons.IH[OF names_apply_record[OF Cons.prems(1) this]] Cons.prems(2) show ?case by simp
qed simp

lemma names_apply_commits:
  "\<forall>r \<in> fset (fmdom conf). ok r \<Longrightarrow> \<forall>c \<in> set cs. \<forall>rec \<in> set (pc_records c). ok (ar_record_id rec) \<Longrightarrow>
   \<forall>r \<in> fset (fmdom (apply_commits cs conf)). ok r"
proof (induction cs arbitrary: conf)
  case (Cons c cs)
  then have "\<forall>rec \<in> set (pc_records c). ok (ar_record_id rec)" by simp
  from Cons.IH[OF names_apply_records[OF Cons.prems(1) this]] Cons.prems(2) show ?case by (simp add: apply_commits_def)
qed (simp add: apply_commits_def)

lemma names_snapshot:
  assumes "prepare_snapshot rt cp recs = Inr p" "names_only ok (rt_state rt)" "\<forall>rec \<in> set recs. ok (sr_record_id rec)"
  shows "names_only ok (prepared_state p)"
proof -
  note s = snapshot_cases[OF assms(1)]
  have "ok r" if "r \<in> fset (fmdom (confirmed (prepared_state p)))" for r
    using that s(2)[of r] assms(3)
    by (auto simp: fmlookup_dom_iff snapshot_lookup_def find_Some_iff split: option.splits if_splits)
  moreover have "all_commits (prepared_state p) = all_commits (rt_state rt)"
    by (simp add: all_commits_def s(6,7) comp_def)
  ultimately show ?thesis using assms(2) by (simp add: names_only_def)
qed

lemma names_pull:
  assumes "prepare_pull_response rt response = Inr p" "names_only ok (rt_state rt)" "event_names ok (EvPull response)"
  shows "names_only ok (prepared_state p)"
proof (cases response)
  case (Batch batch)
  with assms(1) have "prepare_pull_batch rt batch = Inr p" by simp
  then show ?thesis
  proof (cases rule: pull_batch_cases)
    case (1 cp cs)
    have "\<forall>r \<in> fset (fmdom (confirmed (prepared_state p))). ok r"
      using names_apply_commits[of "confirmed (rt_state rt)" ok cs] assms(2,3) Batch batch_commits_framed[OF 1(1)]
      by (simp add: 1(5) names_only_def)
    with assms(2) 1(6,7) show ?thesis by (simp add: names_only_def all_commits_def)
  qed
next
  case (Reset snapshot)
  with assms show ?thesis by (auto simp: prepare_reset_def intro: names_snapshot)
qed

section \<open>Every event\<close>


definition same_rows :: "'v client_runtime \<Rightarrow> 'v prepared_transition \<Rightarrow> bool" where
  "same_rows rt p \<longleftrightarrow> confirmed (prepared_state p) = confirmed (rt_state rt)
     \<and> outbox (prepared_state p) = outbox (rt_state rt) \<and> outcomes (prepared_state p) = outcomes (rt_state rt)"

lemma start_rows: "prepare_start_subscription rt request = Inr p \<Longrightarrow> same_rows rt p"
  unfolding prepare_start_subscription_def same_rows_def
  by (auto simp: Let_def split: prod.splits if_splits option.splits dest: prepare_fields)

lemma cancel_rows: "prepare_cancel_subscription rt i g = Inr p \<Longrightarrow> same_rows rt p"
  unfolding prepare_cancel_subscription_def same_rows_def
  by (auto simp: Let_def split: if_splits dest: prepare_fields)

lemma advance_window_rows: "advance_window rt current response tok = Inr p \<Longrightarrow> same_rows rt p"
  unfolding advance_window_def install_window_def same_rows_def
  by (auto simp: Let_def rbind_Inr split: if_splits dest: prepare_fields)

lemma window_rows: "prepare_subscription_response rt response = Inr p \<Longrightarrow> same_rows rt p"
  by (erule window_cases) (auto dest: cancel_rows advance_window_rows)

lemma names_same_rows: "same_rows rt p \<Longrightarrow> names_only ok (prepared_state p) = names_only ok (rt_state rt)"
  by (simp add: same_rows_def names_only_def all_commits_def)

lemma names_enqueue:
  "prepare_enqueue rt c = Inr p \<Longrightarrow> names_only ok (rt_state rt) \<Longrightarrow> commit_names ok c \<Longrightarrow> names_only ok (prepared_state p)"
  unfolding prepare_enqueue_def
  by (auto simp: rbind_Inr split: if_splits dest!: names_prepare[where ok = ok])
    (auto simp: names_only_def all_commits_def)

lemma names_event:
  assumes "prepare_event rt ev = Inr p" "names_only ok (rt_state rt)" "event_names ok ev"
  shows "names_only ok (prepared_state p)"
proof (cases ev)
  case (EvBootstrap cp recs)
  with assms show ?thesis by (auto dest: bootstrap_snapshot intro: names_snapshot)
next
  case (EvResolve cid request)
  with assms show ?thesis by (intro names_resolve[of rt cid request]) auto
next
  case (EvPull response)
  with assms show ?thesis by (intro names_pull[of rt response]) auto
qed (use assms in \<open>auto dest!: start_rows cancel_rows window_rows simp: names_same_rows intro: names_enqueue names_push\<close>)

end
