(* ===== verification/Native_Simulation.thy ===== *)
theory Native_Simulation
  imports Native_Client Store_Outcomes Client_Names
begin

text \<open>
  The native client implements the journal protocol of \<open>Client_Journal\<close>.  A world is backed by
  an abstract journal when the store holds the journal's durable state and the runtime in
  the cell, if there is one, is the journal's memory.  Every step of an operation is shown
  to be a run of the abstract journal, for every behaviour of the engine and the session;
  the operations follow by composing the steps.
\<close>

section \<open>Steps that leave the journal alone\<close>

named_theorems steady_intros \<open>operations that keep tables, phase and, when they succeed, the runtime\<close>

definition steady :: "('y, 'a) native_op \<Rightarrow> bool" where
  "steady m \<longleftrightarrow> (\<forall>w r w'. m w = (r, w') \<longrightarrow> w_db w' = w_db w \<and> w_phase w' = w_phase w
     \<and> (ns_runtime (w_slot w') = ns_runtime (w_slot w) \<or> isl r \<and> ns_runtime (w_slot w') = None))"

lemma steady_bind [steady_intros]: "steady m \<Longrightarrow> (\<And>a. steady (f a)) \<Longrightarrow> steady (nbind m f)"
  unfolding steady_def nbind_def by (fastforce split: prod.splits sum.splits)

lemma steady_lift [steady_intros]: "steady (nlift r)"
  by (simp add: steady_def nlift_def)

lemma steady_return [steady_intros]: "steady (nreturn a)"
  by (simp add: steady_def nreturn_def)

lemma steady_fail [steady_intros]: "steady (nfail e)"
  by (simp add: steady_def nfail_def)

lemma steady_get [steady_intros]: "steady (nget f)"
  by (simp add: steady_def nget_def)

lemma steady_slot: "(\<And>slot. ns_runtime (f slot) = ns_runtime slot) \<Longrightarrow> steady (nslot f)"
  by (simp add: steady_def nslot_def)

lemma steady_observe [steady_intros]: "steady (observe f)"
  by (simp add: steady_def observe_def)

lemma steady_session [steady_intros]: "steady (ensure_session env)"
  by (simp add: steady_def ensure_session_def)

lemma steady_session_current [steady_intros]: "steady (session_current env)"
  by (simp add: steady_def session_current_def ensure_session_def)

lemma steady_pure: "steady (\<lambda>w. (f w, w))"
  by (simp add: steady_def)

lemma steady_client [steady_intros]: "steady (guard_client env)" "steady (guard_read_client env)"
  unfolding guard_client_def guard_read_client_def by (intro steady_intros steady_pure)+

lemma steady_read [steady_intros]: "steady (store_read env f)"
  by (simp add: steady_def store_read_def)

lemma steady_drop_runtime: "steady (nbind (nslot (\<lambda>slot. slot\<lparr>ns_runtime := None, ns_recovery := b\<rparr>)) (\<lambda>_. nfail e))"
  by (simp add: steady_def nbind_def nslot_def nfail_def)

lemma steady_refresh [steady_intros]: "steady (refresh_scope_barrier env)"
  unfolding refresh_scope_barrier_def
  by (auto intro!: steady_intros steady_slot steady_pure steady_drop_runtime split: sum.split option.split)

lemma steady_inspect [steady_intros]: "steady (store_inspect env k)"
  by (simp add: steady_def store_inspect_def store_read_def)

section \<open>Backed worlds\<close>

definition stored_in :: "'y native_env \<Rightarrow> sync_state_key \<Rightarrow> 'y native_world \<Rightarrow> stored_sync_state \<Rightarrow> bool" where
  "stored_in env key w s \<longleftrightarrow> journal_stored (ev_codec env) (w_db w) key s"

text \<open>Records outside the store's own tables, which \<open>native_record_id\<close> does not enforce.\<close>

definition app_only :: "'y native_env \<Rightarrow> record_id \<Rightarrow> bool" where
  "app_only env = outside_store (br_lib (ev_bridge env)) (native_schema env)"

definition backed :: "'y native_env \<Rightarrow> sync_state_key \<Rightarrow> 'y native_world \<Rightarrow> json journal \<Rightarrow> bool" where
  "backed env key w j \<longleftrightarrow> stored_in env key w (durable j) \<and> names_only (app_only env) (durable j) \<and> phase j = Idle
     \<and> (\<forall>rt. ns_runtime (w_slot w) = Some rt \<longrightarrow> memory j = rt)"

text \<open>The runtime in the cell is the stored state: always, when no transition is under way.\<close>

definition synced :: "'y native_env \<Rightarrow> sync_state_key \<Rightarrow> 'y native_world \<Rightarrow> bool" where
  "synced env key w \<longleftrightarrow> (\<forall>rt. ns_runtime (w_slot w) = Some rt \<longrightarrow> stored_in env key w (rt_state rt))"

definition settled_ok :: "'y native_env \<Rightarrow> sync_state_key \<Rightarrow> 'y native_world \<Rightarrow> bool" where
  "settled_ok env key w \<longleftrightarrow> (w_phase w = Clean \<longrightarrow> synced env key w)"

definition free :: "'y native_env \<Rightarrow> sync_state_key \<Rightarrow> 'y native_world \<Rightarrow> bool" where
  "free env key w \<longleftrightarrow> w_phase w = Clean \<and> synced env key w"

definition sim ::
  "'y native_env \<Rightarrow> sync_state_key \<Rightarrow> ('y native_world \<Rightarrow> bool) \<Rightarrow> ('y, 'a) native_op \<Rightarrow>
   ('a \<Rightarrow> 'y native_world \<Rightarrow> bool) \<Rightarrow> bool" where
  "sim env key P m Q \<longleftrightarrow> (\<forall>w j r w'. P w \<longrightarrow> backed env key w j \<longrightarrow> journal_inv j \<longrightarrow> m w = (r, w') \<longrightarrow>
     (\<exists>j'. journal_step\<^sup>*\<^sup>* j j' \<and> backed env key w' j')
     \<and> (case r of Inl _ \<Rightarrow> settled_ok env key w' | Inr a \<Rightarrow> Q a w'))"

lemma simI:
  assumes "\<And>w j r w'. P w \<Longrightarrow> backed env key w j \<Longrightarrow> journal_inv j \<Longrightarrow> m w = (r, w') \<Longrightarrow>
     (\<exists>j'. journal_step\<^sup>*\<^sup>* j j' \<and> backed env key w' j')
     \<and> (case r of Inl _ \<Rightarrow> settled_ok env key w' | Inr a \<Rightarrow> Q a w')"
  shows "sim env key P m Q"
  using assms unfolding sim_def by blast

lemma simD:
  assumes "sim env key P m Q" "P w" "backed env key w j" "journal_inv j" "m w = (r, w')"
  obtains j' where "journal_step\<^sup>*\<^sup>* j j'" "backed env key w' j'" "journal_inv j'"
    "case r of Inl _ \<Rightarrow> settled_ok env key w' | Inr a \<Rightarrow> Q a w'"
  using assms journal.inv_reach unfolding sim_def by blast

lemma sim_bind:
  assumes m: "sim env key P m Q" and f: "\<And>a. sim env key (Q a) (f a) S"
  shows "sim env key P (nbind m f) S"
proof (rule simI)
  fix w j r w'
  assume P: "P w" and b: "backed env key w j" and i: "journal_inv j" and run: "nbind m f w = (r, w')"
  obtain r1 w1 where m1: "m w = (r1, w1)" by fastforce
  from simD[OF m P b i m1] obtain j1 where j1: "journal_step\<^sup>*\<^sup>* j j1" "backed env key w1 j1" "journal_inv j1"
    "case r1 of Inl _ \<Rightarrow> settled_ok env key w1 | Inr a \<Rightarrow> Q a w1" .
  show "(\<exists>j'. journal_step\<^sup>*\<^sup>* j j' \<and> backed env key w' j')
     \<and> (case r of Inl _ \<Rightarrow> settled_ok env key w' | Inr a \<Rightarrow> S a w')"
  proof (cases r1)
    case (Inl e)
    with run m1 j1 show ?thesis by (auto simp: nbind_def)
  next
    case (Inr a)
    with run m1 have f1: "f a w1 = (r, w')" by (simp add: nbind_def)
    from Inr j1(4) have "Q a w1" by simp
    from simD[OF f this j1(2,3) f1] show ?thesis using j1(1) by (metis (no_types) rtranclp_trans)
  qed
qed

lemma sim_pre: "sim env key P m Q \<Longrightarrow> (\<And>w. P' w \<Longrightarrow> P w) \<Longrightarrow> sim env key P' m Q"
  unfolding sim_def by blast

lemma sim_post:
  assumes "sim env key P m Q" "\<And>a w. Q a w \<Longrightarrow> Q' a w"
  shows "sim env key P m Q'"
  using assms unfolding sim_def by (fastforce split: sum.splits)

text \<open>Assertions that only read tables, runtime and phase, and allow an operation to fail.\<close>

definition stable :: "'y native_env \<Rightarrow> sync_state_key \<Rightarrow> ('y native_world \<Rightarrow> bool) \<Rightarrow> bool" where
  "stable env key P \<longleftrightarrow> (\<forall>w. P w \<longrightarrow> settled_ok env key w)
     \<and> (\<forall>w w'. P w \<longrightarrow> w_db w' = w_db w \<longrightarrow> w_phase w' = w_phase w \<longrightarrow>
          ns_runtime (w_slot w') = ns_runtime (w_slot w) \<longrightarrow> P w')"

lemma stable_runtime: "stable env key P \<Longrightarrow> stable env key (\<lambda>w. P w \<and> ns_runtime (w_slot w) = Some rt)"
  unfolding stable_def by auto

lemma stable_synced: "stable env key (synced env key)" "stable env key (free env key)"
  by (auto simp: stable_def settled_ok_def synced_def free_def stored_in_def)

lemma backed_same:
  "backed env key w j \<Longrightarrow> w_db w' = w_db w \<Longrightarrow>
   ns_runtime (w_slot w') = ns_runtime (w_slot w) \<or> ns_runtime (w_slot w') = None \<Longrightarrow> backed env key w' j"
  by (auto simp: backed_def stored_in_def)

lemma sim_steady:
  assumes "steady m" "stable env key P"
  shows "sim env key P m (\<lambda>_. P)"
proof (rule simI)
  fix w j r w'
  assume P: "P w" and b: "backed env key w j" and run: "m w = (r, w')"
  from assms(1) run have s: "w_db w' = w_db w" "w_phase w' = w_phase w"
    "ns_runtime (w_slot w') = ns_runtime (w_slot w) \<or> isl r \<and> ns_runtime (w_slot w') = None"
    unfolding steady_def by blast+
  have "backed env key w' j" using b s by (auto intro: backed_same)
  moreover have "case r of Inl _ \<Rightarrow> settled_ok env key w' | Inr a \<Rightarrow> P w'"
    using assms(2) P s by (cases r) (auto simp: stable_def settled_ok_def synced_def)
  ultimately show "(\<exists>j'. journal_step\<^sup>*\<^sup>* j j' \<and> backed env key w' j')
      \<and> (case r of Inl _ \<Rightarrow> settled_ok env key w' | Inr a \<Rightarrow> P w')" by blast
qed

lemma sim_steady_bind:
  assumes "steady m" "stable env key P" "\<And>a. sim env key P (f a) Q"
  shows "sim env key P (nbind m f) Q"
  by (rule sim_bind[OF sim_steady[OF assms(1,2)]]) (rule assms(3))

lemma sim_lift_bind:
  assumes "stable env key P" "\<And>a. r = Inr a \<Longrightarrow> sim env key P (f a) Q"
  shows "sim env key P (nbind (nlift r) f) Q"
proof (cases r)
  case (Inl e)
  then show ?thesis using assms(1) by (auto simp: sim_def nbind_def nlift_def stable_def)
next
  case (Inr a)
  then have "nbind (nlift r) f = f a" by (auto simp: nbind_def nlift_def fun_eq_iff)
  then show ?thesis using assms(2)[OF Inr] by simp
qed

lemma sim_get_bind:
  assumes "\<And>a. sim env key (\<lambda>w. P w \<and> f w = a) (g a) Q"
  shows "sim env key P (nbind (nget f) g) Q"
  using assms unfolding sim_def nbind_def nget_def by auto

lemma guard_client_Inr: "guard_client env w = (Inr rt, w') \<Longrightarrow> ns_runtime (w_slot w') = Some rt"
  by (cases "ns_runtime (w_slot w)")
    (auto simp: guard_client_def nbind_def ensure_session_def faulting_def slot_client_def split: if_splits)

lemma guard_read_client_Inr: "guard_read_client env w = (Inr rt, w') \<Longrightarrow> ns_runtime (w_slot w') = Some rt"
  by (cases "ns_runtime (w_slot w)"; cases "ns_blocked (w_slot w)")
    (auto simp: guard_read_client_def nbind_def ensure_session_def faulting_def slot_read_client_def slot_client_def
      split: if_splits)

text \<open>A fact about every result of an operation joins its postcondition.\<close>

lemma sim_result:
  assumes "sim env key P m Q" "\<And>w a w'. P w \<Longrightarrow> m w = (Inr a, w') \<Longrightarrow> R a w'"
  shows "sim env key P m (\<lambda>a w. Q a w \<and> R a w)"
proof (rule simI)
  fix w j r w'
  assume P: "P w" and "backed env key w j" "journal_inv j" and run: "m w = (r, w')"
  from simD[OF assms(1) this] obtain j' where j': "journal_step\<^sup>*\<^sup>* j j'" "backed env key w' j'"
    "case r of Inl _ \<Rightarrow> settled_ok env key w' | Inr a \<Rightarrow> Q a w'" .
  with assms(2)[OF P] run show "(\<exists>j'. journal_step\<^sup>*\<^sup>* j j' \<and> backed env key w' j')
      \<and> (case r of Inl _ \<Rightarrow> settled_ok env key w' | Inr a \<Rightarrow> Q a w' \<and> R a w')"
    by (cases r) auto
qed

lemma sim_client_bind:
  assumes "stable env key P" "\<And>rt. sim env key (\<lambda>w. P w \<and> ns_runtime (w_slot w) = Some rt) (f rt) Q"
  shows "sim env key P (nbind (guard_client env) f) Q" "sim env key P (nbind (guard_read_client env) f) Q"
proof -
  have "sim env key P (guard_client env) (\<lambda>rt w. P w \<and> ns_runtime (w_slot w) = Some rt)"
    by (rule sim_result[OF sim_steady[OF steady_client(1) assms(1)]]) (rule guard_client_Inr)
  then show "sim env key P (nbind (guard_client env) f) Q" by (rule sim_bind) (rule assms(2))
  have "sim env key P (guard_read_client env) (\<lambda>rt w. P w \<and> ns_runtime (w_slot w) = Some rt)"
    by (rule sim_result[OF sim_steady[OF steady_client(2) assms(1)]]) (rule guard_read_client_Inr)
  then show "sim env key P (nbind (guard_read_client env) f) Q" by (rule sim_bind) (rule assms(2))
qed

lemma sim_fail: "(\<And>w. P w \<Longrightarrow> settled_ok env key w) \<Longrightarrow> sim env key P (nfail e) Q"
  by (auto simp: sim_def nfail_def)

lemma sim_return: "(\<And>w. P w \<Longrightarrow> Q a w) \<Longrightarrow> sim env key P (nreturn a) Q"
  by (auto simp: sim_def nreturn_def)

lemma sim_recover:
  fixes Q :: "'a \<Rightarrow> 'y native_world \<Rightarrow> bool"
  shows "sim env key P recovery_required Q"
proof (rule simI)
  fix w j w' and r :: "native_fault + 'a"
  assume "backed env key w j" and "recovery_required w = (r, w')"
  then have "backed env key w' j \<and> (\<exists>e. r = Inl e) \<and> settled_ok env key w'"
    by (auto simp: recovery_required_def nbind_def nslot_def nfail_def backed_def stored_in_def settled_ok_def
        synced_def invalidate_runtime_def)
  then show "(\<exists>j'. journal_step\<^sup>*\<^sup>* j j' \<and> backed env key w' j')
      \<and> (case r of Inl _ \<Rightarrow> settled_ok env key w' | Inr a \<Rightarrow> Q a w')" by auto
qed

lemma sim_phase:
  assumes "\<And>w. P w \<Longrightarrow> Q () (w\<lparr>w_phase := p\<rparr>)"
  shows "sim env key P (set_phase p) Q"
  using assms by (auto simp: sim_def set_phase_def backed_def stored_in_def)

lemma sim_settle:
  assumes "\<And>w. P w \<Longrightarrow> Q () (w\<lparr>w_poisoned := w_poisoned w \<or> unknown_outcome r, w_phase := Settled\<rparr>)"
  shows "sim env key P (settled_mutation r) Q"
  using assms by (auto simp: sim_def settled_mutation_def backed_def stored_in_def)

text \<open>Putting the stored state into the cell is what reopening the journal does.\<close>

lemma sim_install:
  assumes "\<And>w. P w \<Longrightarrow> stored_in env key w (rt_state rt)"
    and "\<And>w. P w \<Longrightarrow> Q () (w\<lparr>w_slot := f (w_slot w)\<rparr>)" "\<And>slot. ns_runtime (f slot) = Some rt"
  shows "sim env key P (nslot f) Q"
proof (rule simI)
  fix w j r w'
  assume P: "P w" and b: "backed env key w j" and i: "journal_inv j" and "nslot f w = (r, w')"
  then have w': "r = Inr ()" "w' = w\<lparr>w_slot := f (w_slot w)\<rparr>" by (auto simp: nslot_def)
  have d: "durable j = rt_state rt" using b assms(1)[OF P] by (auto simp: backed_def stored_in_def intro: stored_unique)
  have rt: "rt = \<lparr>rt_state = durable j\<rparr>" by (simp add: d)
  have "open_runtime (durable j) = Inr rt" using i rt by (simp add: journal_inv_def result_conv)
  then have "journal_step j (j\<lparr>memory := rt, phase := Idle\<rparr>)" by (rule journal_step.j_crash)
  moreover have "backed env key w' (j\<lparr>memory := rt, phase := Idle\<rparr>)"
    using b assms(3) by (simp add: backed_def stored_in_def w')
  ultimately show "(\<exists>j'. journal_step\<^sup>*\<^sup>* j j' \<and> backed env key w' j')
      \<and> (case r of Inl _ \<Rightarrow> settled_ok env key w' | Inr a \<Rightarrow> Q a w')"
    using assms(2)[OF P] by (auto simp: w')
qed

lemma sim_locked:
  assumes "sim env key (free env key) body Q" "\<And>a w. Q a w \<Longrightarrow> free env key w"
  shows "sim env key (free env key) (locked body) Q"
proof (rule simI)
  fix w j r w'
  assume P: "free env key w" and b: "backed env key w j" and i: "journal_inv j" and run: "locked body w = (r, w')"
  have w: "w\<lparr>w_phase := Clean\<rparr> = w" using P by (simp add: free_def)
  obtain r1 w1 where m: "body w = (r1, w1)" by fastforce
  from simD[OF assms(1) P b i m] obtain j1 where j1: "journal_step\<^sup>*\<^sup>* j j1" "backed env key w1 j1"
    "case r1 of Inl _ \<Rightarrow> settled_ok env key w1 | Inr a \<Rightarrow> Q a w1" .
  have drop: "backed env key (drop_guard w1) j1"
    using j1(2) by (auto simp: drop_guard_def backed_def stored_in_def invalidate_runtime_def)
  consider (stuck) "r = Inl Diverged" "r1 = Inl Diverged" "w' = w1"
    | (failed) e where "r = Inl e" "r1 = Inl e" "w' = drop_guard w1" | (ok) a where "r = Inr a" "r1 = Inr a" "w' = drop_guard w1"
    using run m by (auto simp: locked_def w split: sum.splits native_fault.splits)
  then show "(\<exists>j'. journal_step\<^sup>*\<^sup>* j j' \<and> backed env key w' j')
      \<and> (case r of Inl _ \<Rightarrow> settled_ok env key w' | Inr a \<Rightarrow> Q a w')"
  proof cases
    case (ok a)
    then have "drop_guard w1 = w1" using j1(3) assms(2) by (auto simp: drop_guard_def free_def)
    with ok j1 show ?thesis by auto
  next
    case (failed e)
    have "settled_ok env key (drop_guard w1)"
      using failed(2) j1(3) by (auto simp: drop_guard_def settled_ok_def synced_def invalidate_runtime_def)
    with failed drop j1(1) show ?thesis by auto
  qed (use j1 in auto)
qed

lemma sim_mutation:
  assumes "sim env key (free env key) work Q"
  shows "sim env key (free env key) (run_mutation env work) Q"
  unfolding run_mutation_def
proof (rule sim_steady_bind[OF steady_session stable_synced(2)], rule simI)
  fix w j r w'
  assume P: "free env key w" and b: "backed env key w j" and i: "journal_inv j"
    and run: "(case work w of (Inl Panicked, w') \<Rightarrow> (Inl (Fault RecoveryRequired), w') | (r, w') \<Rightarrow> (r, w')) = (r, w')"
  obtain r1 w1 where m: "work w = (r1, w1)" by fastforce
  from simD[OF assms P b i m] obtain j1 where j1: "journal_step\<^sup>*\<^sup>* j j1" "backed env key w1 j1"
    "case r1 of Inl _ \<Rightarrow> settled_ok env key w1 | Inr a \<Rightarrow> Q a w1" .
  with run m show "(\<exists>j'. journal_step\<^sup>*\<^sup>* j j' \<and> backed env key w' j')
      \<and> (case r of Inl _ \<Rightarrow> settled_ok env key w' | Inr a \<Rightarrow> Q a w')"
    by (auto split: sum.splits native_fault.splits)
qed

section \<open>Persist and install\<close>

definition acked :: "'y native_env \<Rightarrow> sync_state_key \<Rightarrow> native_sync_status \<Rightarrow> 'y native_world \<Rightarrow> bool" where
  "acked env key st w \<longleftrightarrow> w_phase w = Clean \<and> (\<exists>rt. ns_runtime (w_slot w) = Some rt
     \<and> stored_in env key w (rt_state rt) \<and> status rt = Inr st)"

definition installed ::
  "'y native_env \<Rightarrow> sync_state_key \<Rightarrow> json client_runtime \<Rightarrow> native_sync_status \<Rightarrow> 'y native_world \<Rightarrow> bool" where
  "installed env key rt st w \<longleftrightarrow> w_phase w = Clean \<and> ns_runtime (w_slot w) = Some rt
     \<and> stored_in env key w (rt_state rt) \<and> status rt = Inr st"

lemma installed_acked: "installed env key rt st w \<Longrightarrow> acked env key st w"
  by (auto simp: installed_def acked_def)

lemma acked_free: "acked env key st w \<Longrightarrow> free env key w"
  by (auto simp: acked_def free_def synced_def)

text \<open>
  After the transaction: the runtime is still the one prepared from; on success the store
  holds the prepared state, on an error that is certain it holds the old one.
\<close>

definition attempted ::
  "'y native_env \<Rightarrow> sync_state_key \<Rightarrow> json client_runtime \<Rightarrow> stored_sync_state \<Rightarrow>
   sync_state_error + sync_state_write \<Rightarrow> 'y native_world \<Rightarrow> bool" where
  "attempted env key rt next_state r w \<longleftrightarrow> ns_runtime (w_slot w) = Some rt
     \<and> (case r of Inr _ \<Rightarrow> stored_in env key w next_state | Inl e \<Rightarrow> e = CommitUnknown \<or> synced env key w)"

text \<open>
  What the client relies on: values survive the stored form, the check of the staged
  bootstrap only reads, and the schema lists the tables of the store.
\<close>

locale native_laws =
  fixes env :: "'y native_env"
  assumes codec: "faithful_codec (ev_codec env) s"
    and stage: "stage_reads (ev_stage env)"
    and barrier_stage: "fault_monotone (ev_barrier_stage env k a)" "reads_only (ev_barrier_stage env k a)"
    and tables: "\<exists>listed. ev_tables env t = Some listed \<and> set all_tables \<subseteq> listed"
begin

lemma transition_stored:
  assumes "journal_stored (ev_codec env) db key (rt_state rt)" "prepare_event rt ev = Inr p"
    and "apply_transition_atomic (ev_codec env) (ev_stage env) lib sx en db (rt_state rt) (prepared_state p) = (r, db')"
    and "names_only (outside_store lib sx) (prepared_state p)"
  shows "db' = db \<and> (case r of Inl e \<Rightarrow> True | Inr _ \<Rightarrow> prepared_state p = rt_state rt)
    \<or> journal_stored (ev_codec env) db' key (prepared_state p) \<and> (r = Inr Applied \<or> r = Inl CommitUnknown)"
proof (cases "rt_state rt = prepared_state p")
  case False
  have key: "key = (partition_id (rt_state rt), client_id (rt_state rt))" by (rule stored_rows_ok(3)[OF assms(1)])
  have own: "key = (partition_id (prepared_state p), client_id (prepared_state p))"
    using event.owner[OF assms(2)] key by (simp add: same_owner_def)
  have "\<forall>r \<in> fset (fmdom (optimistic_projection (prepared_state p))). outside_store lib sx r"
    using names_projection[OF assms(4)] by blast
  from transition_outcome[OF assms(1)[unfolded key] codec stage False assms(3) this] own show ?thesis by auto
next
  case True
  have key: "key = (partition_id (rt_state rt), client_id (rt_state rt))" by (rule stored_rows_ok(3)[OF assms(1)])
  from assms(3) True have "db' = db"
    by (auto simp: apply_transition_atomic_def split: sum.splits prod.splits
        dest!: load_stored[OF assms(1)[unfolded key True]])
  with True show ?thesis by (auto split: sum.split)
qed

lemma sim_apply:
  assumes "prepare_event rt ev = Inr p" "event_names (app_only env) ev"
  shows "sim env key (\<lambda>w. synced env key w \<and> ns_runtime (w_slot w) = Some rt)
    (apply_prepared env (rt_state rt) (prepared_state p))
    (\<lambda>r w. ns_runtime (w_slot w) = Some rt \<and> (case r of Inr _ \<Rightarrow> stored_in env key w (prepared_state p)
       | Inl e \<Rightarrow> e = CommitUnknown \<or> synced env key w))"
proof (rule simI)
  fix w j r w'
  assume P: "synced env key w \<and> ns_runtime (w_slot w) = Some rt" and b: "backed env key w j" and i: "journal_inv j"
    and run: "apply_prepared env (rt_state rt) (prepared_state p) w = (r, w')"
  obtain x db' where x: "apply_transition_atomic (ev_codec env) (ev_stage env) (br_lib (ev_bridge env)) (native_schema env)
      (ev_engine env (w_tick w)) (w_db w) (rt_state rt) (prepared_state p) = (x, db')" by fastforce
  have w': "r = Inr x" "w_db w' = db'" "w_slot w' = w_slot w"
    using run x by (auto simp: apply_prepared_def store_write_def)
  have st: "journal_stored (ev_codec env) (w_db w) key (rt_state rt)" using P by (simp add: synced_def stored_in_def)
  have j: "memory j = rt" "phase j = Idle" "durable j = rt_state rt"
    using b P st by (auto simp: backed_def stored_in_def intro: stored_unique)
  have base: "base_revision p = revision (durable j)" using event.prepared_base[OF assms(1)] j(3) by simp
  have "names_only (app_only env) (rt_state rt)" using b j(3) by (simp add: backed_def)
  from names_event[OF assms(1) this assms(2)] have names: "names_only (app_only env) (prepared_state p)" .
  from transition_stored[OF st assms(1) x names[unfolded app_only_def]] consider
      (same) "db' = w_db w" "\<forall>d. x = Inr d \<longrightarrow> prepared_state p = rt_state rt"
    | (moved) "journal_stored (ev_codec env) db' key (prepared_state p)" "x = Inr Applied \<or> x = Inl CommitUnknown"
    by (cases x) auto
  then show "(\<exists>j'. journal_step\<^sup>*\<^sup>* j j' \<and> backed env key w' j')
     \<and> (case r of Inl _ \<Rightarrow> settled_ok env key w' | Inr r \<Rightarrow> ns_runtime (w_slot w') = Some rt
        \<and> (case r of Inr _ \<Rightarrow> stored_in env key w' (prepared_state p) | Inl e \<Rightarrow> e = CommitUnknown \<or> synced env key w'))"
  proof cases
    case same
    have "backed env key w' j" using b same(1) w' by (auto simp: backed_def stored_in_def)
    moreover have "synced env key w'" using P same(1) w' by (auto simp: synced_def stored_in_def)
    ultimately show ?thesis using same(2) P st w' same(1) by (cases x) (auto simp: stored_in_def)
  next
    case moved
    let ?j1 = "j\<lparr>phase := Prepared p\<rparr>" and ?j2 = "j\<lparr>durable := prepared_state p, phase := Persisted p\<rparr>"
      and ?j3 = "j\<lparr>durable := prepared_state p, phase := Idle\<rparr>"
    have "journal_step j ?j1" using j assms(1) by (intro journal_step.j_prepare) auto
    moreover have "journal_step ?j1 ?j2" using journal_step.j_persist[of ?j1 p] base by simp
    moreover have "journal_step ?j2 ?j3" using journal_step.j_ack_lost[of ?j2 p] by simp
    ultimately have "journal_step\<^sup>*\<^sup>* j ?j3" by (meson converse_rtranclp_into_rtranclp rtranclp.rtrancl_refl)
    moreover have "backed env key w' ?j3" using moved(1) j P w' names by (auto simp: backed_def stored_in_def)
    ultimately show ?thesis using moved P w' by (auto simp: stored_in_def)
  qed
qed

lemma sim_publish:
  "sim env key (\<lambda>w. synced env key w \<and> ns_runtime (w_slot w) = Some rt) (publish env rt batch before) (installed env key rt)"
proof -
  let ?B = "\<lambda>w. synced env key w \<and> ns_runtime (w_slot w) = Some rt"
  have B: "stable env key ?B" by (rule stable_runtime[OF stable_synced(1)])
  have clean: "sim env key ?B (nbind (set_phase Clean) (\<lambda>_. nreturn st)) (installed env key rt)" if "status rt = Inr st" for st
    by (rule sim_bind[where Q = "\<lambda>_. installed env key rt st"])
      (use that in \<open>auto intro!: sim_phase sim_return simp: installed_def synced_def stored_in_def\<close>)
  show ?thesis
    unfolding publish_def
    by (auto split: sum.split intro!: sim_recover sim_steady_bind[OF _ B] steady_intros steady_slot clean)
qed

lemma sim_published:
  assumes "base_revision p = revision (rt_state rt)"
  shows "sim env key (\<lambda>w. ns_runtime (w_slot w) = Some rt \<and> stored_in env key w (prepared_state p))
    (nbind (nget (\<lambda>w. ns_runtime (w_slot w))) (install_published env p before)) (installed env key \<lparr>rt_state = prepared_state p\<rparr>)"
proof (rule sim_get_bind)
  fix runtime
  let ?rt = "\<lparr>rt_state = prepared_state p\<rparr>"
  have inst: "install_with_read_batch rt p = Inr (?rt, committed_batch (rt_state rt) (prepared_state p))"
    using assms by (simp add: install_with_read_batch_def)
  show "sim env key (\<lambda>w. (ns_runtime (w_slot w) = Some rt \<and> stored_in env key w (prepared_state p))
      \<and> ns_runtime (w_slot w) = runtime) (install_published env p before runtime) (installed env key \<lparr>rt_state = prepared_state p\<rparr>)"
  proof (cases "runtime = Some rt")
    case True
    show ?thesis
      unfolding install_published_def True option.case inst sum.case prod.case
      by (rule sim_bind[OF _ sim_publish], rule sim_install[where rt = ?rt]) (auto simp: synced_def stored_in_def)
  qed (auto simp: sim_def)
qed

lemma sim_arm:
  "sim env key (\<lambda>w. synced env key w \<and> ns_runtime (w_slot w) = Some rt) (arm_with_state env)
    (\<lambda>current w. (synced env key w \<and> ns_runtime (w_slot w) = Some rt) \<and> current = rt_state rt)"
  unfolding arm_with_state_def
proof (rule sim_steady_bind[OF steady_client(1) stable_runtime[OF stable_synced(1)]], rule sim_bind)
  show "sim env key (\<lambda>w. synced env key w \<and> ns_runtime (w_slot w) = Some rt) (set_phase InFlight)
     (\<lambda>_ w. synced env key w \<and> ns_runtime (w_slot w) = Some rt)"
    by (rule sim_phase) (auto simp: synced_def stored_in_def)
qed (auto simp: sim_def slot_client_def)

lemma sim_finish:
  assumes "base_revision p = revision (rt_state rt)"
  shows "sim env key (attempted env key rt (prepared_state p) r) (finish_persist env p before r) (installed env key \<lparr>rt_state = prepared_state p\<rparr>)"
proof -
  let ?S = "\<lambda>w. attempted env key rt (prepared_state p) r w \<and> w_phase w = Settled"
  have S: "stable env key ?S"
    by (auto simp: stable_def attempted_def settled_ok_def synced_def stored_in_def split: sum.split)
  have last: "sim env key ?S (case r of Inl e \<Rightarrow> nbind (set_phase Clean) (\<lambda>_. nfail (map_persistence_error e))
      | Inr _ \<Rightarrow> nbind (nget (\<lambda>w. ns_runtime (w_slot w))) (install_published env p before)) (installed env key \<lparr>rt_state = prepared_state p\<rparr>)"
    if "\<not> unknown_outcome r"
  proof (cases r)
    case (Inl e)
    then have "e \<noteq> CommitUnknown" using that by (auto simp: unknown_outcome_def)
    then have "sim env key ?S (set_phase Clean) (\<lambda>_. free env key)"
      by (intro sim_phase) (auto simp: Inl attempted_def free_def synced_def stored_in_def)
    then have "sim env key ?S (nbind (set_phase Clean) (\<lambda>_. nfail (map_persistence_error e))) (installed env key \<lparr>rt_state = prepared_state p\<rparr>)"
      by (rule sim_bind) (auto intro!: sim_fail simp: free_def settled_ok_def)
    then show ?thesis by (simp add: Inl)
  next
    case (Inr d)
    have "sim env key ?S (nbind (nget (\<lambda>w. ns_runtime (w_slot w))) (install_published env p before)) (installed env key \<lparr>rt_state = prepared_state p\<rparr>)"
      by (rule sim_pre[OF sim_published[OF assms]]) (simp add: Inr attempted_def)
    then show ?thesis by (simp add: Inr)
  qed
  have "sim env key (attempted env key rt (prepared_state p) r) (settled_mutation r) (\<lambda>_. ?S)"
    by (rule sim_settle) (auto simp: attempted_def synced_def stored_in_def split: sum.split)
  then show ?thesis
    unfolding finish_persist_def
    by (rule sim_bind) (auto intro!: sim_recover sim_steady_bind[OF steady_session_current S] last
        simp: if_split[where P = "\<lambda>m. sim env key ?S m (installed env key \<lparr>rt_state = prepared_state p\<rparr>)"])
qed

lemma sim_persist:
  assumes "prepare_event rt ev = Inr p" "event_names (app_only env) ev"
  shows "sim env key (\<lambda>w. synced env key w \<and> ns_runtime (w_slot w) = Some rt) (persist_and_install env p) (installed env key \<lparr>rt_state = prepared_state p\<rparr>)"
proof -
  let ?P = "\<lambda>w. synced env key w \<and> ns_runtime (w_slot w) = Some rt"
  have P: "stable env key ?P" by (rule stable_runtime[OF stable_synced(1)])
  have "sim env key ?P (nbind (apply_prepared env (rt_state rt) (prepared_state p))
      (finish_persist env p before)) (installed env key \<lparr>rt_state = prepared_state p\<rparr>)" for before
    by (rule sim_bind[OF sim_apply[OF assms]], rule sim_pre[OF sim_finish[OF event.prepared_base[OF assms(1)]]])
      (simp add: attempted_def)
  then have armed: "sim env key ?P (nbind (arm_with_state env) (\<lambda>current.
      nbind (apply_prepared env current (prepared_state p)) (finish_persist env p before))) (installed env key \<lparr>rt_state = prepared_state p\<rparr>)" for before
    by (intro sim_bind[OF sim_arm]) (auto simp: sim_def)
  show ?thesis
    unfolding persist_and_install_def
    by (rule sim_steady_bind[OF steady_session P], rule sim_steady_bind[OF steady_client(1) P],
        rule sim_steady_bind[OF steady_lift P], rule armed)
qed

end

end
