(* ===== verification/Native_Runs.thy ===== *)
theory Native_Runs
  imports Native_Simulation
begin

text \<open>
  Every call of the native client, and opening it, is a run of the abstract journal:
  the steps of \<open>Native_Simulation\<close> composed the way the operations compose them.
\<close>

lemma enqueue_pending: "prepare_enqueue rt c = Inr p \<Longrightarrow> commit_id_of c \<in> commit_id_of ` set (all_commits (prepared_state p))"
  by (auto simp: prepare_enqueue_def rbind_Inr prepare_def all_commits_def Let_def split: if_splits
      dest: arg_cong[where f = outbox])

lemma map_sum_InrE: "map_sum f g r = Inr y \<Longrightarrow> (\<And>x. r = Inr x \<Longrightarrow> y = g x \<Longrightarrow> P) \<Longrightarrow> P"
  by (cases r) auto

context native_laws
begin

section \<open>Mutations\<close>

lemma free_ok: "free env key w \<Longrightarrow> settled_ok env key w"
  by (simp add: free_def settled_ok_def)

lemma sim_prepared:
  "event_names (app_only env) ev \<Longrightarrow> sim env key (\<lambda>w. synced env key w \<and> ns_runtime (w_slot w) = Some rt)
    (nbind (prepared_op (prepare_event rt ev)) (persist_and_install env)) (acked env key)"
  unfolding prepared_op_def
  by (rule sim_lift_bind[OF stable_runtime[OF stable_synced(1)]])
    (cases "prepare_event rt ev"; simp add: sim_post[OF sim_persist installed_acked])

lemma sim_persist_free:
  assumes "prepare_event rt ev = Inr p" "event_names (app_only env) ev"
  shows "sim env key (\<lambda>w. free env key w \<and> ns_runtime (w_slot w) = Some rt) (persist_and_install env p) (acked env key)"
proof -
  have "sim env key (\<lambda>w. synced env key w \<and> ns_runtime (w_slot w) = Some rt) (persist_and_install env p) (acked env key)"
    by (rule sim_post[OF sim_persist[OF assms]]) (rule installed_acked)
  then show ?thesis by (rule sim_pre) (simp add: free_def)
qed

lemma sim_prepared_free:
  "event_names (app_only env) ev \<Longrightarrow> sim env key (\<lambda>w. free env key w \<and> ns_runtime (w_slot w) = Some rt)
    (nbind (prepared_op (prepare_event rt ev)) (persist_and_install env)) (acked env key)"
  by (rule sim_pre[OF sim_prepared]) (simp_all add: free_def)

text \<open>Input that is decoded first: the rest may rely on what it decodes to.\<close>

lemma sim_decode_bind:
  assumes "\<And>x. f t = Some x \<Longrightarrow> sim env key (free env key) (g x) Q"
  shows "sim env key (free env key) (nbind (nlift (faulting (decode_input f t))) g) Q"
  by (rule sim_lift_bind[OF stable_synced(2)], rule assms)
    (auto simp: faulting_def decode_input_def ok_or_Inr elim!: map_sum_InrE split: if_splits)

lemma commit_names_fingerprint [simp]: "commit_names ok (with_fingerprint c f) = commit_names ok c"
  by (simp add: commit_names_def with_fingerprint_def)

lemmas free_intros = sim_locked[OF _ acked_free] sim_steady_bind[OF steady_lift stable_synced(2)]
  sim_client_bind[OF stable_synced(2)] sim_steady_bind[OF steady_refresh stable_synced(2)]

text \<open>An acknowledged enqueue has put its commit into the stored journal.\<close>

definition acked_commit :: "sync_state_key \<Rightarrow> string \<Rightarrow> native_sync_status \<Rightarrow> 'y native_world \<Rightarrow> bool" where
  "acked_commit key t st w \<longleftrightarrow> acked env key st w
     \<and> (\<forall>c. ev_commit env t = Some c \<longrightarrow> (\<exists>s. stored_in env key w s \<and> commit_id_of c \<in> commit_id_of ` set (all_commits s)))"

lemma sim_enqueue_commit:
  assumes names: "\<And>c. ev_commit env t = Some c \<Longrightarrow> commit_names (app_only env) c"
  shows "sim env key (free env key) (enqueue_owned env t) (acked_commit key t)"
proof -
  have last: "sim env key (\<lambda>w. free env key w \<and> ns_runtime (w_slot w) = Some rt)
      (nbind (prepared_op (prepare_event rt (EvEnqueue (with_fingerprint c f)))) (persist_and_install env)) (acked_commit key t)"
    if c: "ev_commit env t = Some c" for rt c f
  proof -
    show ?thesis
      unfolding prepared_op_def
    proof (rule sim_lift_bind[OF stable_runtime[OF stable_synced(2)]])
      fix p
      assume "map_sum (Fault \<circ> map_protocol_error) (\<lambda>p. p) (prepare_event rt (EvEnqueue (with_fingerprint c f))) = Inr p"
      then have p: "prepare_event rt (EvEnqueue (with_fingerprint c f)) = Inr p"
        by (cases "prepare_event rt (EvEnqueue (with_fingerprint c f))") auto
      have "commit_id_of c \<in> commit_id_of ` set (all_commits (prepared_state p))"
        using enqueue_pending[OF p[unfolded prepare_event.simps]] by (simp add: with_fingerprint_def)
      then have "sim env key (\<lambda>w. synced env key w \<and> ns_runtime (w_slot w) = Some rt) (persist_and_install env p) (acked_commit key t)"
        by (intro sim_post[OF sim_persist[OF p]]) (auto simp: names[OF c] acked_commit_def installed_def acked_def c)
      then show "sim env key (\<lambda>w. free env key w \<and> ns_runtime (w_slot w) = Some rt) (persist_and_install env p) (acked_commit key t)"
        by (rule sim_pre) (simp add: free_def)
    qed
  qed
  have body: "sim env key (free env key) (locked (nbind (guard_client env) (\<lambda>rt.
       nbind (nlift (faulting (canonical_fingerprint (ev_bridge env) (rt_state rt) c))) (\<lambda>f.
       nbind (guard_client env) (\<lambda>rt.
       nbind (prepared_op (prepare_event rt (EvEnqueue (with_fingerprint c f)))) (persist_and_install env)))))) (acked_commit key t)"
    if "ev_commit env t = Some c" for c
    by (rule sim_locked, rule sim_steady_bind[OF steady_client(1) stable_synced(2)],
        rule sim_steady_bind[OF steady_lift stable_synced(2)], rule sim_client_bind(1)[OF stable_synced(2)], rule last[OF that])
      (auto simp: acked_commit_def intro: acked_free)
  show ?thesis
    unfolding enqueue_owned_def prepare_event.simps(1)[symmetric]
    by (rule sim_decode_bind, rule body)
qed

lemma sim_enqueue:
  "(\<And>c. ev_commit env t = Some c \<Longrightarrow> commit_names (app_only env) c) \<Longrightarrow>
   sim env key (free env key) (enqueue_owned env t) (acked env key)"
  by (rule sim_post[OF sim_enqueue_commit]) (simp_all add: acked_commit_def)

lemma sim_status:
  "sim env key (\<lambda>w. free env key w \<and> ns_runtime (w_slot w) = Some rt) (nlift (faulting (status rt))) (acked env key)"
  by (cases "status rt") (auto simp: sim_def nlift_def faulting_def acked_def free_def synced_def settled_ok_def)

lemma sim_enqueue_bounded:
  assumes names: "\<And>c. ev_commit env t = Some c \<Longrightarrow> commit_names (app_only env) c"
  shows "sim env key (free env key) (enqueue_bounded_owned env t cnt bytes) (acked env key)"
proof -
  have st: "stable env key (\<lambda>w. free env key w \<and> ns_runtime (w_slot w) = Some rt)" for rt
    by (rule stable_runtime[OF stable_synced(2)])
  have rest: "sim env key (\<lambda>w. free env key w \<and> ns_runtime (w_slot w) = Some rt)
     (nbind (nlift r) (\<lambda>_. nbind (guard_client env) (\<lambda>rt. nbind (prepared_op (prepare_event rt (EvEnqueue c))) (persist_and_install env))))
     (acked env key)" if "commit_names (app_only env) c" for rt r c
    using that by (intro sim_steady_bind[OF steady_lift st] sim_client_bind[OF st] sim_pre[OF sim_prepared_free]) auto
  show ?thesis
    unfolding enqueue_bounded_owned_def prepare_event.simps(1)[symmetric] Let_def
    by (rule sim_steady_bind[OF steady_lift stable_synced(2)], rule sim_decode_bind,
        intro free_intros sim_steady_bind[OF steady_lift st])
      (auto split: option.split intro!: sim_fail sim_status rest free_ok simp: names simp del: prepare_event.simps)
qed

lemma sim_push:
  assumes "\<And>r. ev_push env t = Some r \<Longrightarrow> event_names (app_only env) (EvPush r policy)"
  shows "sim env key (free env key) (record_push_response_with_policy_owned env t policy) (acked env key)"
  unfolding record_push_response_with_policy_owned_def prepare_event.simps(2)[symmetric]
  by (rule sim_decode_bind, intro free_intros sim_prepared_free assms)

lemma sim_keep_server: "sim env key (free env key) (resolve_conflict_keep_server_owned env c) (acked env key)"
  unfolding resolve_conflict_keep_server_owned_def prepare_event.simps(3)[symmetric]
  by (intro free_intros sim_prepared_free) simp

lemma sim_keep_local: "sim env key (free env key) (resolve_conflict_keep_local_owned env c d) (acked env key)"
  unfolding resolve_conflict_keep_local_owned_def prepare_event.simps(3)[symmetric]
  by (intro free_intros sim_steady_bind[OF steady_lift stable_runtime[OF stable_synced(2)]] sim_prepared_free) simp

lemma sim_merge:
  assumes "\<And>c. ev_commit env t = Some c \<Longrightarrow> commit_names (app_only env) c"
  shows "sim env key (free env key) (resolve_conflict_merge_owned env c t) (acked env key)"
  unfolding resolve_conflict_merge_owned_def prepare_event.simps(3)[symmetric]
  by (rule sim_decode_bind, intro free_intros sim_steady_bind[OF steady_lift stable_runtime[OF stable_synced(2)]]
      sim_prepared_free) (simp add: assms)

lemma sim_start: "sim env key (free env key) (start_subscription_json_owned env t) (acked env key)"
  unfolding start_subscription_json_owned_def prepare_event.simps(6)[symmetric]
  by (intro free_intros sim_prepared_free) simp

lemma sim_cancel: "sim env key (free env key) (cancel_subscription_owned env i g) (acked env key)"
  unfolding cancel_subscription_owned_def prepare_event.simps(7)[symmetric]
  by (intro free_intros sim_prepared_free) simp

section \<open>Scope barriers\<close>

lemma sim_barrier_write:
  "sim env key (synced env key) (store_write env (\<lambda>en db. save_scope_barrier (ev_barrier_stage env) en db k barrier))
    (\<lambda>_. synced env key)"
proof (rule simI)
  fix w j r w'
  assume "synced env key w" and b: "backed env key w j"
    and run: "store_write env (\<lambda>en db. save_scope_barrier (ev_barrier_stage env) en db k barrier) w = (r, w')"
  obtain x db' where x: "save_scope_barrier (ev_barrier_stage env) (ev_engine env (w_tick w)) (w_db w) k barrier = (x, db')"
    by fastforce
  have w': "r = Inr x" "w_db w' = db'" "w_slot w' = w_slot w"
    using run x by (auto simp: store_write_def)
  have "stored_in env key w' s = stored_in env key w s" for s
    using stored_after_barrier[OF barrier_stage x] by (simp add: stored_in_def w')
  then show "(\<exists>j'. journal_step\<^sup>*\<^sup>* j j' \<and> backed env key w' j')
     \<and> (case r of Inl _ \<Rightarrow> settled_ok env key w' | Inr a \<Rightarrow> synced env key w')"
    using \<open>synced env key w\<close> b w' by (auto simp: backed_def synced_def)
qed

lemma sim_save_barrier:
  "sim env key (synced env key) (save_barrier env block required) (\<lambda>_. synced env key)"
proof -
  have phase: "sim env key (synced env key) (set_phase p) (\<lambda>_. synced env key)" for p
    by (rule sim_phase) (simp add: synced_def stored_in_def)
  have settle: "sim env key (synced env key) (settled_mutation r) (\<lambda>_. synced env key)" for r :: "sync_state_error + unit"
    by (rule sim_settle) (simp add: synced_def stored_in_def)
  have last: "sim env key (synced env key) (case r of
       Inl _ \<Rightarrow> nbind (nslot (\<lambda>slot. slot\<lparr>ns_runtime := None, ns_recovery := True\<rparr>)) (\<lambda>_. nfail RecoveryRequired)
     | Inr _ \<Rightarrow> nreturn ()) (\<lambda>_. synced env key)" for r :: "sync_state_error + unit"
    by (cases r) (auto intro: sim_return sim_steady[OF steady_drop_runtime stable_synced(1)])
  show ?thesis
    unfolding save_barrier_def
    by (rule sim_steady_bind[OF steady_client(1) stable_synced(1)], rule sim_bind[OF phase],
        rule sim_bind[OF sim_barrier_write], rule sim_bind[OF settle], rule last)
qed

lemma steady_block: "steady (block_scope e)"
  unfolding block_scope_def by (rule steady_slot) (simp split: option.split)

lemma sim_pull:
  assumes names: "\<And>r. ev_pull env t = Some r \<Longrightarrow> event_names (app_only env) (EvPull r)"
  shows "sim env key (free env key) (apply_pull_response_owned env t) (acked env key)"
proof -
  let ?B = "\<lambda>blocked response. (case (blocked, required_scope response) of
      (Some block, Some required) \<Rightarrow> nbind (save_barrier env block required) (\<lambda>_. set_phase Clean)
    | _ \<Rightarrow> nreturn ())"
  have "sim env key (free env key) (nbind (save_barrier env block required) (\<lambda>_. set_phase Clean)) (\<lambda>_. free env key)"
    for block required
    by (rule sim_bind[OF sim_pre[OF sim_save_barrier]]) (auto intro!: sim_phase simp: free_def synced_def stored_in_def)
  then have barrier: "sim env key (free env key) (?B blocked response) (\<lambda>_. free env key)" for blocked response
    by (auto split: option.split intro!: sim_return)
  have rt: "stable env key (\<lambda>w. free env key w \<and> ns_runtime (w_slot w) = Some rt)" for rt
    by (rule stable_runtime[OF stable_synced(2)])
  have refused: "sim env key (free env key) (nbind (block_scope e) (\<lambda>_.
      nbind (nget (\<lambda>w. ns_blocked (w_slot w))) (\<lambda>blocked.
      nbind (?B blocked response) (\<lambda>_. nfail (map_protocol_error e))))) (acked env key)" for e response
    by (intro sim_steady_bind[OF steady_block stable_synced(2)] sim_steady_bind[OF steady_get stable_synced(2)]
        sim_bind[OF barrier] sim_fail free_ok)
  have "sim env key (\<lambda>w. free env key w \<and> ns_runtime (w_slot w) = Some rt) (case prepare_event rt (EvPull response) of
       Inr p \<Rightarrow> persist_and_install env p
     | Inl e \<Rightarrow> nbind (block_scope e) (\<lambda>_.
         nbind (nget (\<lambda>w. ns_blocked (w_slot w))) (\<lambda>blocked.
         nbind (?B blocked response) (\<lambda>_. nfail (map_protocol_error e))))) (acked env key)"
    if "event_names (app_only env) (EvPull response)" for rt response
    by (cases "prepare_event rt (EvPull response)"; simp only: sum.case)
      (rule sim_pre[OF refused], simp, rule sim_persist_free[OF _ that])
  with names show ?thesis
    unfolding apply_pull_response_owned_def prepare_event.simps(4)[symmetric]
    by (intro sim_decode_bind free_intros) blast
qed

lemma sim_window: "sim env key (free env key) (apply_subscription_response_json_owned env t) (acked env key)"
proof -
  have cancel: "sim env key (synced env key) (nbind (guard_client env) (\<lambda>rt.
      nbind (prepared_op (prepare_event rt (EvCancel i g))) (\<lambda>p.
      nbind (persist_and_install env p) (\<lambda>_. nfail e)))) (acked env key)" for i g e
  proof (rule sim_client_bind(1)[OF stable_synced(1)])
    fix rt
    have assoc: "nbind (prepared_op r) (\<lambda>p. nbind (persist_and_install env p) (\<lambda>_. nfail e))
        = nbind (nbind (prepared_op r) (persist_and_install env)) (\<lambda>_. nfail e)" for r
      by (auto simp: nbind_def fun_eq_iff split: prod.split sum.split)
    show "sim env key (\<lambda>w. synced env key w \<and> ns_runtime (w_slot w) = Some rt)
        (nbind (prepared_op (prepare_event rt (EvCancel i g))) (\<lambda>p. nbind (persist_and_install env p) (\<lambda>_. nfail e))) (acked env key)"
      unfolding assoc by (rule sim_bind[OF sim_prepared], simp) (rule sim_fail[OF free_ok[OF acked_free]])
  qed
  have blocked: "sim env key (free env key) (nbind (nslot (\<lambda>slot. slot\<lparr>ns_blocked := Some block\<rparr>)) (\<lambda>_.
      nbind (save_barrier env block required) (\<lambda>_.
      nbind (guard_client env) (\<lambda>rt.
      nbind (prepared_op (prepare_event rt (EvCancel i g))) (\<lambda>p.
      nbind (persist_and_install env p) (\<lambda>_. nfail e)))))) (acked env key)" for block required i g e
    by (rule sim_steady_bind[OF steady_slot stable_synced(2)], simp,
        rule sim_bind[OF sim_pre[OF sim_save_barrier] cancel]) (simp add: free_def)
  have "sim env key (\<lambda>w. free env key w \<and> ns_runtime (w_slot w) = Some rt) (case prepare_event rt (EvWindow response) of
       Inr p \<Rightarrow> persist_and_install env p
     | Inl e \<Rightarrow> (case block_of e of
         None \<Rightarrow> nfail (map_protocol_error e)
       | Some block \<Rightarrow> nbind (nslot (\<lambda>slot. slot\<lparr>ns_blocked := Some block\<rparr>)) (\<lambda>_.
           nbind (save_barrier env block (sp_scope response)) (\<lambda>_.
           nbind (guard_client env) (\<lambda>rt.
           nbind (prepared_op (prepare_event rt (EvCancel (sp_subscription_id response) (sp_generation response)))) (\<lambda>p.
           nbind (persist_and_install env p) (\<lambda>_. nfail (map_protocol_error e)))))))) (acked env key)" for rt response
  proof (cases "prepare_event rt (EvWindow response)")
    case (Inl e)
    show ?thesis
      unfolding Inl sum.case
      by (cases "block_of e"; simp only: option.case)
        (rule sim_fail, simp add: free_ok, rule sim_pre[OF blocked], simp)
  next
    case (Inr p)
    show ?thesis
      unfolding Inr sum.case by (rule sim_persist_free[OF Inr]) simp
  qed
  then show ?thesis
    unfolding apply_subscription_response_json_owned_def prepare_event.simps(7,8)[symmetric]
    by (intro free_intros)
qed

section \<open>Opening\<close>

lemma map_sum_Inr: "map_sum f (\<lambda>a. a) r = Inr x \<longleftrightarrow> r = Inr x"
  by (cases r) auto

lemma sim_backed:
  assumes "sim env key (\<lambda>w. P w \<and> (\<exists>s. stored_in env key w s)) m Q"
  shows "sim env key P m Q"
  using assms unfolding sim_def backed_def by blast

lemma steady_recover: "steady recovery_required"
  by (simp add: steady_def recovery_required_def nbind_def nslot_def nfail_def invalidate_runtime_def)

lemma steady_rotate: "steady rotate_for_recovery"
  unfolding rotate_for_recovery_def
  by (auto intro!: steady_intros steady_recover steady_slot split: sum.split)

lemma steady_existing: "steady (inspect_existing env opts)"
  unfolding inspect_existing_def persisted_op_def
  by (auto intro!: steady_intros split: prod.split)

lemma stable_stored: "stable env key (\<lambda>w. synced env key w \<and> stored_in env key w s)"
  "stable env key (\<lambda>w. free env key w \<and> stored_in env key w s)"
  by (auto simp: stable_def settled_ok_def synced_def stored_in_def free_def)

lemma inspected_stored:
  assumes "inspect_existing env opts w = (Inr (state, blocked), w')" "stored_in env (options_key opts) w s"
  shows "stored_in env (options_key opts) w' state"
proof -
  obtain listed where t: "ev_tables env (w_tick w) = Some listed" "set all_tables \<subseteq> listed" using tables by blast
  from assms(1) obtain barrier where i: "inspect (ev_codec env) (ev_encoded env) (Some listed) (ev_engine env (w_tick w))
      (w_db w) (options_key opts) = Inr (Some state, barrier)"
    by (auto simp: inspect_existing_def store_inspect_def store_read_def persisted_op_def nbind_def nlift_def nget_def
        nfail_def nreturn_def t(1) map_sum_Inr ok_or_def split: sum.splits prod.splits if_splits option.splits)
  have "loaded (ev_codec env) (w_db w) (options_key opts) = Inr (Some s)"
    using assms(2) by (simp add: stored_in_def journal_stored_def)
  with inspected[OF t(2) i] have "state = s"
    by (auto simp: reconcile_legacy_def rbind_Inr split: option.splits if_splits)
  moreover have "w_db w' = w_db w" using steady_existing assms(1) unfolding steady_def by blast
  ultimately show ?thesis using assms(2) by (simp add: stored_in_def)
qed

lemma sim_existing:
  assumes "options_key opts = key"
  shows "sim env key (free env key) (inspect_existing env opts) (\<lambda>(state, _) w. free env key w \<and> stored_in env key w state)"
proof -
  have st: "stable env key (\<lambda>w. free env key w \<and> (\<exists>s. stored_in env key w s))"
    by (auto simp: stable_def settled_ok_def synced_def stored_in_def free_def)
  have "sim env key (\<lambda>w. free env key w \<and> (\<exists>s. stored_in env key w s)) (inspect_existing env opts)
      (\<lambda>a w. (free env key w \<and> (\<exists>s. stored_in env key w s)) \<and> stored_in env key w (fst a))"
  proof (rule sim_result[OF sim_steady[OF steady_existing st]])
    fix w a w'
    assume "free env key w \<and> (\<exists>s. stored_in env key w s)" "inspect_existing env opts w = (Inr a, w')"
    then show "stored_in env key w' (fst a)"
      using inspected_stored[of opts w "fst a" "snd a" w'] assms by auto
  qed
  then have "sim env key (\<lambda>w. free env key w \<and> (\<exists>s. stored_in env key w s)) (inspect_existing env opts)
      (\<lambda>(state, _) w. free env key w \<and> stored_in env key w state)"
    by (rule sim_post) auto
  then show ?thesis by (rule sim_backed)
qed

lemma sim_load:
  "sim env key (synced env key) (store_load env key)
    (\<lambda>r w. synced env key w \<and> (\<forall>x. r = Inr x \<longrightarrow> (\<exists>s. x = Some s \<and> stored_in env key w s)))"
proof (rule simI)
  fix w j r w'
  assume P: "synced env key w" and b: "backed env key w j" and run: "store_load env key w = (r, w')"
  obtain x db' where x: "load (ev_codec env) (ev_stage env) (br_lib (ev_bridge env)) (native_schema env)
      (ev_engine env (w_tick w)) (w_db w) key = (x, db')" by fastforce
  have w': "r = Inr x" "w_db w' = db'" "w_slot w' = w_slot w" using run x by (auto simp: store_load_def store_write_def)
  have st: "journal_stored (ev_codec env) (w_db w) key (durable j)" using b by (simp add: backed_def stored_in_def)
  from load_stored[OF st x] have "db' = w_db w" "x = Inr (Some (durable j)) \<or> (\<exists>e. x = Inl e)" by auto
  with w' st P b show "(\<exists>j'. journal_step\<^sup>*\<^sup>* j j' \<and> backed env key w' j') \<and> (case r of Inl _ \<Rightarrow> settled_ok env key w'
      | Inr r \<Rightarrow> synced env key w' \<and> (\<forall>x. r = Inr x \<longrightarrow> (\<exists>s. x = Some s \<and> stored_in env key w' s)))"
    by (auto simp: backed_def synced_def stored_in_def)
qed

lemma sim_load_or_create:
  assumes "options_key opts = key"
  shows "sim env key (synced env key) (load_or_create env opts) (\<lambda>state w. synced env key w \<and> stored_in env key w state)"
  unfolding load_or_create_def assms
proof (rule sim_bind[OF sim_load], unfold persisted_op_def, rule sim_lift_bind)
  fix r :: "sync_state_error + stored_sync_state option"
  let ?P = "\<lambda>w. synced env key w \<and> (\<forall>x. r = Inr x \<longrightarrow> (\<exists>s. x = Some s \<and> stored_in env key w s))"
  show "stable env key ?P" by (auto simp: stable_def settled_ok_def synced_def stored_in_def)
  fix found
  assume "map_sum (Fault \<circ> map_persistence_error) (\<lambda>a. a) r = Inr found"
  then have "?P = (\<lambda>w. synced env key w \<and> (\<exists>s. found = Some s \<and> stored_in env key w s))"
    by (auto simp: map_sum_Inr)
  then show "sim env key ?P (case found of
       Some state \<Rightarrow> nreturn state
     | None \<Rightarrow> (let initial = empty_state (PartitionId (no_partition_id opts)) (ClientId (no_client_id opts))
                (ScopeIdentity (no_requested_scope opts)) (no_subscription_revision opts) in create_initial env opts initial))
      (\<lambda>state w. synced env key w \<and> stored_in env key w state)"
    by (cases found) (auto simp: sim_def nreturn_def)
qed

lemma sim_poison: "(\<And>w. P w \<Longrightarrow> P (w\<lparr>w_poisoned := True\<rparr>)) \<Longrightarrow> sim env key P poison (\<lambda>_. P)"
  by (auto simp: sim_def poison_def backed_def stored_in_def)

lemma sim_open_created:
  assumes "options_key opts = key"
  shows "sim env key (synced env key) (open_created env opts) (\<lambda>(state, _) w. synced env key w \<and> stored_in env key w state)"
proof -
  have phase: "sim env key (synced env key) (set_phase InFlight) (\<lambda>_. synced env key)"
    by (rule sim_phase) (simp add: synced_def stored_in_def)
  have settle: "sim env key (synced env key) (settled_mutation r) (\<lambda>_. synced env key)" for r :: "sync_state_error + unit"
    by (rule sim_settle) (simp add: synced_def stored_in_def)
  have pois: "sim env key (synced env key) (if b then poison else nreturn ()) (\<lambda>_. synced env key)" for b
    by (auto intro!: sim_poison sim_return simp: synced_def stored_in_def)
  have ok: "synced env key w \<Longrightarrow> settled_ok env key w" for w by (simp add: settled_ok_def)
  have rest: "sim env key (\<lambda>w. synced env key w \<and> stored_in env key w state)
      (if \<not> options_match opts state then nfail Protocol
       else nbind (nlift (faulting (validate_state_codec (ev_bridge env) state))) (\<lambda>_.
       nbind (store_read env (\<lambda>en db. load_scope_barrier en db (options_key opts))) (\<lambda>barrier.
       case barrier of Inl _ \<Rightarrow> nfail RecoveryRequired | Inr barrier \<Rightarrow> nreturn (state, barrier_block barrier))))
      (\<lambda>(state, _) w. synced env key w \<and> stored_in env key w state)" for state
    by (auto intro!: sim_fail sim_steady_bind[OF steady_lift stable_stored(1)] sim_steady_bind[OF steady_read stable_stored(1)]
        sim_return ok split: sum.split)
  show ?thesis
    unfolding open_created_def
    by (rule sim_bind[OF phase], rule sim_steady_bind[OF steady_observe stable_synced(1)], rule sim_bind[OF pois],
        rule sim_bind[OF settle])
      (auto intro!: sim_fail ok sim_steady_bind[OF steady_lift stable_synced(1)] sim_bind[OF sim_load_or_create[OF assms]] rest
        simp: persisted_op_def)
qed

lemma sim_opened:
  "sim env key (\<lambda>w. synced env key w \<and> stored_in env key w state) (install_opened state blocked) (\<lambda>_. synced env key)"
  unfolding install_opened_def
proof (rule sim_lift_bind[OF stable_stored(1)], rule sim_steady_bind[OF steady_rotate stable_stored(1)])
  fix rt
  assume "map_sum (Fault \<circ> map_protocol_error) (\<lambda>rt. rt) (open_runtime state) = Inr rt"
  then have rt: "rt_state rt = state" by (cases "open_runtime state") (auto simp: result_conv)
  show "sim env key (\<lambda>w. synced env key w \<and> stored_in env key w state)
      (nslot (\<lambda>slot. slot\<lparr>ns_runtime := Some rt, ns_recovery := False, ns_blocked := blocked\<rparr>)) (\<lambda>_. synced env key)"
    by (rule sim_install[where rt = rt]) (auto simp: rt synced_def stored_in_def)
qed

lemma sim_drop_runtime:
  fixes Q :: "'a \<Rightarrow> 'y native_world \<Rightarrow> bool"
  shows "sim env key P (nbind (nslot (\<lambda>slot. slot\<lparr>ns_runtime := None, ns_recovery := b\<rparr>)) (\<lambda>_. nfail e)) Q"
  by (auto simp: sim_def nbind_def nslot_def nfail_def backed_def stored_in_def settled_ok_def synced_def)

lemma sim_initialize:
  assumes "options_key opts = key"
  shows "sim env key (free env key) (initialize_runtime env opts mode) (\<lambda>_. free env key)"
proof -
  have ok: "synced env key w \<Longrightarrow> settled_ok env key w" for w by (simp add: settled_ok_def)
  have choose: "sim env key (\<lambda>w. free env key w \<and> (\<forall>e. existing = Some e \<longrightarrow> stored_in env key w (fst e)))
      (case existing of Some e \<Rightarrow> nreturn e | None \<Rightarrow> open_created env opts)
      (\<lambda>(state, _) w. synced env key w \<and> stored_in env key w state)" for existing
  proof (cases existing)
    case None
    show ?thesis unfolding None option.case by (rule sim_pre[OF sim_open_created[OF assms]]) (simp add: free_def)
  qed (auto intro!: sim_return simp: free_def)
  have last: "sim env key (synced env key) (nbind (guard_client env) (\<lambda>rt.
      if requested_scope (rt_state rt) \<noteq> ScopeIdentity (no_requested_scope opts)
         \<or> subscription_revision (rt_state rt) \<noteq> no_subscription_revision opts
      then nfail Protocol
      else nbind (observe (ev_session env)) (\<lambda>session.
      if \<not> session
      then nbind (nslot (\<lambda>slot. slot\<lparr>ns_runtime := None, ns_recovery := True\<rparr>)) (\<lambda>_. nfail RecoveryRequired)
      else set_phase Clean))) (\<lambda>_. free env key)"
    by (auto intro!: sim_steady_bind[OF steady_client(1) stable_synced(1)] sim_fail ok
        sim_steady_bind[OF steady_observe stable_synced(1)] sim_phase sim_drop_runtime
        simp: free_def synced_def stored_in_def)
  have open_cell: "sim env key (\<lambda>w. free env key w \<and> (\<forall>e. existing = Some e \<longrightarrow> stored_in env key w (fst e)))
      (if runtime = None
       then nbind (case existing of Some e \<Rightarrow> nreturn e | None \<Rightarrow> open_created env opts) (\<lambda>(state, blocked).
              install_opened state blocked)
       else nreturn ()) (\<lambda>_. synced env key)" for existing and runtime :: "json client_runtime option"
  proof (cases "runtime = None")
    case True
    have opened: "sim env key (case a of (state, _) \<Rightarrow> \<lambda>w. synced env key w \<and> stored_in env key w state)
        (case a of (state, blocked) \<Rightarrow> install_opened state blocked) (\<lambda>_. synced env key)" for a
      by (cases a) (simp add: sim_opened)
    show ?thesis unfolding True if_P[OF refl] by (rule sim_bind[OF choose opened])
  next
    case False
    then show ?thesis by (auto intro: sim_return simp: free_def)
  qed
  have first: "sim env key (free env key)
      (if mode = ExistingOnly then nbind (inspect_existing env opts) (\<lambda>e. nreturn (Some e)) else nreturn None)
      (\<lambda>existing w. free env key w \<and> (\<forall>e. existing = Some e \<longrightarrow> stored_in env key w (fst e)))"
    by (auto intro!: sim_bind[OF sim_existing[OF assms]] sim_return)
  have st: "stable env key (\<lambda>w. free env key w \<and> (\<forall>e. existing = Some e \<longrightarrow> stored_in env key w (fst e)))"
    for existing :: "(stored_sync_state \<times> scope_block option) option"
    by (auto simp: stable_def settled_ok_def synced_def stored_in_def free_def)
  show ?thesis
    unfolding initialize_runtime_def
    by (rule sim_locked, rule sim_steady_bind[OF steady_session stable_synced(2)], rule sim_bind[OF first],
        rule sim_steady_bind[OF steady_get st], rule sim_bind[OF open_cell], rule last)
qed

section \<open>Reads\<close>

lemma sim_read_only:
  assumes "steady m"
  shows "sim env key (free env key) (locked m) (\<lambda>_. free env key)"
  by (rule sim_locked[OF sim_steady[OF assms stable_synced(2)]])

lemma sim_scoped: "sim env key (free env key) (scoped_read env f) (\<lambda>_. free env key)"
  unfolding scoped_read_def by (intro sim_read_only steady_intros steady_pure)

lemma sim_pending_window: "sim env key (free env key) (pending_window env cnt bytes) (\<lambda>_. free env key)"
  unfolding pending_window_def
  by (intro sim_steady_bind[OF steady_lift stable_synced(2)] sim_read_only steady_intros)

lemma sim_other_reads:
  "sim env key (free env key) (pending_json env) (\<lambda>_. free env key)"
  "sim env key (free env key) (conflicts_json env) (\<lambda>_. free env key)"
  "sim env key (free env key) (checkpoint_token env) (\<lambda>_. free env key)"
  "sim env key (free env key) (native_scope_transition_decision env requested n) (\<lambda>_. free env key)"
  unfolding pending_json_def conflicts_json_def checkpoint_token_def native_scope_transition_decision_def
  by (intro sim_read_only steady_intros)+

lemma sim_view: "sim env key (free env key) (read_view_json env t) (\<lambda>_. free env key)"
  unfolding read_view_json_def
  by (intro sim_read_only steady_intros) (auto split: option.split intro: steady_intros steady_slot)

lemma sim_native_status: "sim env key (free env key) (native_status env) (acked env key)"
  unfolding native_status_def
  by (intro sim_locked[OF _ acked_free] sim_client_bind[OF stable_synced(2)] sim_status)

lemma sim_open:
  assumes "options_key opts = key"
  shows "sim env key (free env key) (open_sync_client_with_mode env opts mode) (\<lambda>_. free env key)"
  unfolding open_sync_client_with_mode_def persisted_op_def
  by (auto intro!: sim_fail free_ok sim_steady_bind[OF steady_lift stable_synced(2)]
      sim_steady_bind[OF steady_get stable_synced(2)] sim_mutation sim_initialize[OF assms])

end

section \<open>Calls and runs\<close>

datatype native_call =
    CallOpen native_sync_open_options open_mode
  | CallEnqueue string
  | CallEnqueueBounded string u32 u32
  | CallPush string automatic_conflict_policy
  | CallPull string
  | CallKeepServer string
  | CallKeepLocal string string
  | CallMerge string string
  | CallStart string
  | CallCancel string u64
  | CallWindow string
  | CallStatus
  | CallPendingWindow u32 u32
  | CallSnapshot
  | CallChanges string u32
  | CallQuerySnapshot string
  | CallQueryChanges string string u32
  | CallQueryRequest string
  | CallReset
  | CallView string
  | CallPending
  | CallConflicts
  | CallToken
  | CallDecision string u64

definition returning :: "('a \<Rightarrow> 'b) \<Rightarrow> ('y, 'a) native_op \<Rightarrow> ('y, 'b) native_op" where
  "returning f m = nbind m (\<lambda>a. nreturn (f a))"

fun exec_call :: "'y native_env \<Rightarrow> native_call \<Rightarrow> ('y, native_sync_status option) native_op" where
  "exec_call env (CallOpen opts mode) = returning (\<lambda>_. None) (open_sync_client_with_mode env opts mode)"
| "exec_call env (CallEnqueue t) = returning Some (enqueue env t)"
| "exec_call env (CallEnqueueBounded t cnt bytes) = returning Some (enqueue_bounded env t cnt bytes)"
| "exec_call env (CallPush t policy) = returning Some (record_push_response_with_policy env t policy)"
| "exec_call env (CallPull t) = returning Some (apply_pull_response env t)"
| "exec_call env (CallKeepServer c) = returning Some (resolve_conflict_keep_server env c)"
| "exec_call env (CallKeepLocal c d) = returning Some (resolve_conflict_keep_local env c d)"
| "exec_call env (CallMerge c t) = returning Some (resolve_conflict_merge env c t)"
| "exec_call env (CallStart t) = returning Some (start_subscription_json env t)"
| "exec_call env (CallCancel i g) = returning Some (cancel_subscription env i g)"
| "exec_call env (CallWindow t) = returning Some (apply_subscription_response_json env t)"
| "exec_call env CallStatus = returning Some (native_status env)"
| "exec_call env (CallPendingWindow cnt bytes) = returning (\<lambda>_. None) (pending_window env cnt bytes)"
| "exec_call env CallSnapshot = returning (\<lambda>_. None) (read_snapshot_json env)"
| "exec_call env (CallChanges c cnt) = returning (\<lambda>_. None) (read_changes_json env c cnt)"
| "exec_call env (CallQuerySnapshot i) = returning (\<lambda>_. None) (subscription_snapshot_json env i)"
| "exec_call env (CallQueryChanges i c cnt) = returning (\<lambda>_. None) (subscription_changes_json env i c cnt)"
| "exec_call env (CallQueryRequest i) = returning (\<lambda>_. None) (subscription_request_json env i)"
| "exec_call env CallReset = returning (\<lambda>_. None) (requires_authorized_reset env)"
| "exec_call env (CallView t) = returning (\<lambda>_. None) (read_view_json env t)"
| "exec_call env CallPending = returning (\<lambda>_. None) (pending_json env)"
| "exec_call env CallConflicts = returning (\<lambda>_. None) (conflicts_json env)"
| "exec_call env CallToken = returning (\<lambda>_. None) (checkpoint_token env)"
| "exec_call env (CallDecision requested n) = returning (\<lambda>_. None) (native_scope_transition_decision env requested n)"

text \<open>
  The calls of a run: opening is for the journal of the cell, and what a commit, a push
  response or a pull response names lies outside the store's own tables.
\<close>

fun call_on :: "'y native_env \<Rightarrow> sync_state_key \<Rightarrow> native_call \<Rightarrow> bool" where
  "call_on env key (CallOpen opts mode) = (options_key opts = key)"
| "call_on env key (CallEnqueue t) = pred_option (commit_names (app_only env)) (ev_commit env t)"
| "call_on env key (CallEnqueueBounded t cnt bytes) = pred_option (commit_names (app_only env)) (ev_commit env t)"
| "call_on env key (CallMerge c t) = pred_option (commit_names (app_only env)) (ev_commit env t)"
| "call_on env key (CallPush t policy) = pred_option (\<lambda>r. event_names (app_only env) (EvPush r policy)) (ev_push env t)"
| "call_on env key (CallPull t) = pred_option (\<lambda>r. event_names (app_only env) (EvPull r)) (ev_pull env t)"
| "call_on env key _ = True"

text \<open>
  A run of one cell: calls one after the other while the lock is free, with every result,
  and restarts of the process, which keep the database and nothing else.
\<close>

inductive native_step :: "'y native_env \<Rightarrow> sync_state_key \<Rightarrow> 'y native_world \<Rightarrow> 'y native_world \<Rightarrow> bool" for env key where
  n_call: "w_phase w = Clean \<Longrightarrow> call_on env key c \<Longrightarrow> exec_call env c w = (r, w') \<Longrightarrow> native_step env key w w'"
| n_restart: "native_step env key w (w\<lparr>w_slot := new_slot p q, w_phase := Clean, w_poisoned := False\<rparr>)"

inductive_cases native_stepE: "native_step env key w w'"

text \<open>How the stored state may change along a run.\<close>

definition grows :: "'v durable_client_state \<Rightarrow> 'v durable_client_state \<Rightarrow> bool" where
  "grows s t \<longleftrightarrow> keeps_intent s t \<and> same_owner s t \<and> revision s \<le> revision t"

lemma grows_refl: "grows s s"
  by (simp add: grows_def keeps_intent_def same_owner_def)

lemma grows_trans: "grows s t \<Longrightarrow> grows t u \<Longrightarrow> grows s u"
  unfolding grows_def same_owner_def by (auto elim: keeps_intent_trans)

lemma durable_grows:
  assumes "journal_inv j" "journal_step j j'"
  shows "grows (durable j) (durable j')"
  using durable_step[OF assms]
proof
  assume "\<exists>ev p. prepare_event \<lparr>rt_state = durable j\<rparr> ev = Inr p \<and> durable j' = prepared_state p"
  then obtain ev p where p: "prepare_event \<lparr>rt_state = durable j\<rparr> ev = Inr p" "durable j' = prepared_state p" by blast
  show ?thesis
    using event.owner[OF p(1)] event.intent[OF p(1)] unchanged_or_bumped_le[OF event.prepared_revision[OF p(1)]] p(2)
    by (simp add: grows_def)
qed (simp add: grows_refl)

context native_laws
begin

lemma sim_returning:
  assumes "sim env key P m Q" "\<And>a w. Q a w \<Longrightarrow> S (f a) w"
  shows "sim env key P (returning f m) S"
  unfolding returning_def by (rule sim_bind[OF assms(1)]) (auto intro: sim_return assms(2))

lemma sim_call:
  assumes "call_on env key c"
  shows "sim env key (free env key) (exec_call env c) (\<lambda>st w. free env key w \<and> (\<forall>x. st = Some x \<longrightarrow> acked env key x w))"
proof (cases c)
  case (CallOpen opts mode)
  then show ?thesis using assms by (auto intro: sim_returning[OF sim_open])
next
  case (CallEnqueue t)
  then show ?thesis
    using assms by (auto simp: enqueue_def intro!: sim_returning[OF sim_mutation[OF sim_enqueue]] intro: acked_free)
next
  case (CallEnqueueBounded t cnt bytes)
  then show ?thesis
    using assms by (auto simp: enqueue_bounded_def intro!: sim_returning[OF sim_mutation[OF sim_enqueue_bounded]] intro: acked_free)
next
  case (CallMerge c t)
  then show ?thesis
    using assms by (auto simp: resolve_conflict_merge_def intro!: sim_returning[OF sim_mutation[OF sim_merge]] intro: acked_free)
next
  case (CallPush t policy)
  then show ?thesis
    using assms by (auto simp: record_push_response_with_policy_def intro!: sim_returning[OF sim_mutation[OF sim_push]]
        intro: acked_free)
next
  case (CallPull t)
  then show ?thesis
    using assms by (auto simp: apply_pull_response_def simp del: event_names.simps
        intro!: sim_returning[OF sim_mutation[OF sim_pull]] intro: acked_free)
qed (auto simp: resolve_conflict_keep_server_def resolve_conflict_keep_local_def
      start_subscription_json_def cancel_subscription_def apply_subscription_response_json_def
      read_snapshot_json_def read_changes_json_def subscription_snapshot_json_def subscription_changes_json_def
      subscription_request_json_def requires_authorized_reset_def
      intro: sim_returning[OF sim_mutation[OF sim_keep_server]] sim_returning[OF sim_mutation[OF sim_keep_local]]
        sim_returning[OF sim_mutation[OF sim_start]]
        sim_returning[OF sim_mutation[OF sim_cancel]] sim_returning[OF sim_mutation[OF sim_window]]
        sim_returning[OF sim_native_status] sim_returning[OF sim_pending_window] sim_returning[OF sim_scoped]
        sim_returning[OF sim_view] sim_returning[OF sim_other_reads(1)] sim_returning[OF sim_other_reads(2)] sim_returning[OF sim_other_reads(3)]
        sim_returning[OF sim_other_reads(4)] acked_free)

text \<open>What holds between calls: an abstract journal that backs the world.\<close>

definition carried :: "sync_state_key \<Rightarrow> 'y native_world \<Rightarrow> json journal \<Rightarrow> bool" where
  "carried key w j \<longleftrightarrow> backed env key w j \<and> journal_inv j \<and> settled_ok env key w"

lemma step_carried:
  assumes "native_step env key w w'" "carried key w j"
  shows "\<exists>j'. journal_step\<^sup>*\<^sup>* j j' \<and> carried key w' j'"
  using assms(1)
proof cases
  case (n_call c r)
  then have "free env key w" using assms(2) by (simp add: carried_def settled_ok_def free_def)
  with simD[OF sim_call[OF n_call(2)] _ _ _ n_call(3)] assms(2) obtain j' where "journal_step\<^sup>*\<^sup>* j j'" "backed env key w' j'"
    "journal_inv j'" "case r of Inl _ \<Rightarrow> settled_ok env key w'
       | Inr st \<Rightarrow> free env key w' \<and> (\<forall>x. st = Some x \<longrightarrow> acked env key x w')"
    unfolding carried_def by blast
  then show ?thesis unfolding carried_def by (auto split: sum.splits intro: free_ok)
next
  case (n_restart p q)
  then have "carried key w' j"
    using assms(2) by (auto simp: carried_def backed_def stored_in_def settled_ok_def synced_def new_slot_def)
  then show ?thesis by blast
qed

lemma run_carried:
  assumes "(native_step env key)\<^sup>*\<^sup>* w w'" "carried key w j"
  shows "\<exists>j'. journal_step\<^sup>*\<^sup>* j j' \<and> carried key w' j'"
  using assms by (induction rule: rtranclp_induct) (blast, meson rtranclp_trans step_carried)

lemma carried_opened:
  assumes "free env key w" "stored_in env key w s" "names_only (app_only env) s"
  shows "carried key w (opened_journal s)"
proof -
  have "rt = \<lparr>rt_state = s\<rparr>" if "ns_runtime (w_slot w) = Some rt" for rt
    using assms that by (cases rt) (auto simp: free_def synced_def stored_in_def intro: stored_unique)
  moreover have "valid_state s" by (rule stored_rows_ok(4)[OF assms(2)[unfolded stored_in_def]])
  ultimately show ?thesis
    using assms by (auto simp: carried_def backed_def opened_journal_def journal_inv_def free_ok)
qed

lemma run_journal:
  assumes "free env key w" "stored_in env key w s" "names_only (app_only env) s" "(native_step env key)\<^sup>*\<^sup>* w w'"
  shows "\<exists>j. journal_step\<^sup>*\<^sup>* (opened_journal s) j \<and> carried key w' j"
  by (rule run_carried[OF assms(4) carried_opened[OF assms(1-3)]])

lemma run_grows:
  assumes "free env key w" "stored_in env key w s" "names_only (app_only env) s" "(native_step env key)\<^sup>*\<^sup>* w w'"
  shows "\<exists>s'. stored_in env key w' s' \<and> grows s s'"
proof -
  from run_journal[OF assms] obtain j where j: "journal_step\<^sup>*\<^sup>* (opened_journal s) j" "carried key w' j" by blast
  from carried_opened[OF assms(1-3)] have "journal_inv (opened_journal s)" by (simp add: carried_def)
  with j(1) have "grows (durable (opened_journal s)) (durable j)"
    by (rule journal.reach_preorder) (simp add: grows_refl, erule (1) grows_trans, erule (1) durable_grows)
  with j(2) show ?thesis by (auto simp: carried_def backed_def opened_journal_def)
qed

lemma run_free:
  assumes "free env key w" "stored_in env key w s" "names_only (app_only env) s" "(native_step env key)\<^sup>*\<^sup>* w w'"
    and "w_phase w' = Clean"
  shows "free env key w' \<and> (\<exists>s'. stored_in env key w' s' \<and> names_only (app_only env) s')"
  using run_journal[OF assms(1-4)] assms(5) by (auto simp: carried_def settled_ok_def free_def backed_def)

lemma call_acked:
  assumes "free env key w" "stored_in env key w s" "names_only (app_only env) s" "call_on env key c"
    and "exec_call env c w = (Inr (Some st), w')"
  shows "acked env key st w'"
proof -
  from carried_opened[OF assms(1-3)] have "backed env key w (opened_journal s)" "journal_inv (opened_journal s)"
    by (simp_all add: carried_def)
  from simD[OF sim_call[OF assms(4)] assms(1) this assms(5)] show ?thesis by auto
qed

lemma enqueue_acked:
  assumes "free env key w" "stored_in env key w s" "names_only (app_only env) s" "call_on env key (CallEnqueue t)"
    and "enqueue env t w = (Inr st, w')"
  shows "acked_commit key t st w'" "\<exists>j. carried key w' j"
proof -
  have c: "carried key w (opened_journal s)" by (rule carried_opened[OF assms(1-3)])
  then have b: "backed env key w (opened_journal s)" "journal_inv (opened_journal s)" by (simp_all add: carried_def)
  have m: "sim env key (free env key) (enqueue env t) (acked_commit key t)"
    unfolding enqueue_def using assms(4) by (intro sim_mutation sim_enqueue_commit) auto
  from simD[OF m assms(1) b assms(5)] obtain j where "backed env key w' j" "journal_inv j" "acked_commit key t st w'"
    by auto
  then show "acked_commit key t st w'" "\<exists>j. carried key w' j"
    by (auto simp: carried_def acked_commit_def intro: free_ok acked_free)
qed

lemma enqueued_kept:
  assumes "free env key w" "stored_in env key w s" "names_only (app_only env) s" "call_on env key (CallEnqueue t)"
    and "enqueue env t w = (Inr st, w1)" "ev_commit env t = Some c" "(native_step env key)\<^sup>*\<^sup>* w1 w2"
  shows "\<exists>s2. stored_in env key w2 s2 \<and> commit_id_of c \<in> commit_id_of ` set (all_commits s2)"
proof -
  note a = enqueue_acked[OF assms(1-5)]
  from a(1) assms(6) obtain s1 where s1: "stored_in env key w1 s1"
    "commit_id_of c \<in> commit_id_of ` set (all_commits s1)" and "free env key w1"
    by (auto simp: acked_commit_def dest: acked_free)
  moreover have "names_only (app_only env) s1"
    using a(2) s1(1) stored_unique by (fastforce simp: carried_def backed_def stored_in_def)
  ultimately obtain s2 where s2: "stored_in env key w2 s2" "grows s1 s2" using run_grows[OF _ _ _ assms(7)] by blast
  from s1(2) obtain d where d: "d \<in> set (all_commits s1)" "commit_id_of c = commit_id_of d" by blast
  then have "identity d \<in># mset (map identity (all_commits s1))" by simp
  with s2(2) have "identity d \<in># mset (map identity (all_commits s2))"
    unfolding grows_def keeps_intent_def by (blast dest: mset_subset_eqD)
  then obtain d2 where "d2 \<in> set (all_commits s2)" "identity d2 = identity d" by auto
  with s2(1) d(2) show ?thesis by (metis image_eqI)
qed

end

section \<open>A poisoned cell\<close>

text \<open>Operations that, called on a poisoned cell, fail and leave the tables alone.\<close>

definition refuses :: "('y, 'a) native_op \<Rightarrow> bool" where
  "refuses m \<longleftrightarrow> (\<forall>w. w_poisoned w \<longrightarrow> (\<exists>f w'. m w = (Inl f, w') \<and> w_db w' = w_db w \<and> w_poisoned w'))"

lemma refuses_bind: "refuses m \<Longrightarrow> refuses (nbind m f)"
  unfolding refuses_def nbind_def by fastforce

lemma refuses_lift: "(\<And>a. refuses (f a)) \<Longrightarrow> refuses (nbind (nlift r) f)"
  by (cases r) (auto simp: refuses_def nbind_def nlift_def)

lemma refuses_session: "refuses (ensure_session env)"
  by (simp add: refuses_def ensure_session_def)

lemma refuses_client: "refuses (guard_client env)"
  unfolding guard_client_def by (rule refuses_bind[OF refuses_session])

lemma refuses_refresh: "refuses (refresh_scope_barrier env)"
  unfolding refresh_scope_barrier_def by (rule refuses_bind[OF refuses_session])

lemma refuses_locked:
  assumes "refuses m"
  shows "refuses (locked m)"
  unfolding refuses_def
proof (intro allI impI)
  fix w :: "'a native_world"
  assume "w_poisoned w"
  then have "w_poisoned (w\<lparr>w_phase := Clean\<rparr>)" by simp
  with assms obtain f w' where "m (w\<lparr>w_phase := Clean\<rparr>) = (Inl f, w')" "w_db w' = w_db w" "w_poisoned w'"
    unfolding refuses_def by fastforce
  then show "\<exists>f w'. locked m w = (Inl f, w') \<and> w_db w' = w_db w \<and> w_poisoned w'"
    by (cases f) (auto simp: locked_def drop_guard_def)
qed

lemma refuses_mutation: "refuses (run_mutation env work)"
  unfolding run_mutation_def by (rule refuses_bind[OF refuses_session])

lemma refuses_open: "refuses (open_sync_client_with_mode env opts mode)"
  by (auto simp: open_sync_client_with_mode_def persisted_op_def refuses_def nfail_def nbind_def nlift_def nget_def
      split: sum.splits)

lemma refuses_returning: "refuses m \<Longrightarrow> refuses (returning f m)"
  unfolding returning_def by (rule refuses_bind)

lemma call_refused: "refuses (exec_call env c)"
  by (cases c)
    (simp_all add: enqueue_def enqueue_bounded_def record_push_response_with_policy_def apply_pull_response_def
      resolve_conflict_keep_server_def resolve_conflict_keep_local_def resolve_conflict_merge_def
      start_subscription_json_def cancel_subscription_def apply_subscription_response_json_def
      read_snapshot_json_def read_changes_json_def subscription_snapshot_json_def subscription_changes_json_def
      subscription_request_json_def requires_authorized_reset_def scoped_read_def read_view_json_def pending_window_def pending_json_def
      conflicts_json_def checkpoint_token_def native_scope_transition_decision_def native_status_def
      refuses_returning refuses_open refuses_mutation refuses_lift refuses_locked refuses_bind refuses_client refuses_refresh)

end
