(* ===== verification/Store_Properties.thy ===== *)
theory Store_Properties
  imports Store_Outcomes
begin

text \<open>
  The contract of the durable store: a transition is applied whole or not at all, a
  successful one is what the next load returns, other clients' journals are untouched, the
  application's tables follow the optimistic projection, and a scope barrier is never
  weakened.
\<close>

section \<open>A concrete store\<close>

text \<open>
  A journal of one client before and after its first commit, a codec that is faithful on
  both, and a library that knows one record.
\<close>

definition stored_commit :: "json client_commit" where
  "stored_commit = \<lparr>identity = \<lparr>client_commit_id = ClientCommitId ''c1'', fingerprint = Fingerprint ''sha256:''\<rparr>,
     operations = [Upsert (RecordId ''task:1'') BaseAbsent (JObject []) None]\<rparr>"

definition stored_before :: stored_sync_state where
  "stored_before = empty_state (PartitionId ''primary'') (ClientId ''client-a'') (ScopeIdentity ''scope'') 1"

definition stored_after :: stored_sync_state where
  "stored_after = stored_before\<lparr>outbox := [stored_commit], revision := 1\<rparr>"

definition demo_codec :: store_codec where
  "demo_codec =
     \<lparr>number_text = u64_text, parse_number = (\<lambda>s. map_option FloatNum (parse_u64 s)),
      to_vec = (\<lambda>t. if t = TString ''0'' then Some [48] else if t = TString ''1'' then Some [49]
                     else if t = TString ''c'' then Some [99] else None),
      from_slice = (\<lambda>b. if b = [48] then Some (TString ''0'') else if b = [49] then Some (TString ''1'')
                     else if b = [99] then Some (TString ''c'') else None),
      meta_value = (\<lambda>m. if m = state_meta_of stored_before then Some (JString ''0'')
                     else if m = state_meta_of stored_after then Some (JString ''1'') else None),
      value_meta = (\<lambda>v. if v = JString ''0'' then Some (state_meta_of stored_before)
                     else if v = JString ''1'' then Some (state_meta_of stored_after) else None),
      record_value = (\<lambda>_. None), value_record = (\<lambda>_. None),
      commit_value = (\<lambda>c. if c = stored_commit then Some (JString ''c'') else None),
      value_commit = (\<lambda>v. if v = JString ''c'' then Some stored_commit else None),
      outcome_value = (\<lambda>_. None), value_outcome = (\<lambda>_. None),
      mapping_value = (\<lambda>_. None), value_mapping = (\<lambda>_. None),
      row_json = (\<lambda>_. None), json_row = (\<lambda>_. None), legacy_state = (\<lambda>_. None)\<rparr>"

definition demo_lib :: "string surreal_lib" where
  "demo_lib = sample_lib\<lparr>record_parse_simple := Some\<rparr>"

definition demo_component :: "(string \<times> string surreal_value) list \<Rightarrow> stored_component_row option" where
  "demo_component c =
     (case (map_of c ''format_version'', map_of c ''partition_id'', map_of c ''client_id'',
            map_of c ''component_key'', map_of c ''payload'') of
        (Some (SInt v), Some (SString p), Some (SString cl), Some (SString k), Some (SBytes b)) \<Rightarrow>
          Some \<lparr>cr_format_version = sint v, cr_partition_id = p, cr_client_id = cl, cr_component_key = k, cr_payload = b\<rparr>
      | _ \<Rightarrow> None)"

definition demo_schema :: "string record_schema" where
  "demo_schema = \<lparr>sx_table = takeWhile (\<lambda>c. c \<noteq> CHR '':''), sx_key = tl \<circ> dropWhile (\<lambda>c. c \<noteq> CHR '':''),
     sx_component = demo_component\<rparr>"

definition empty_db :: "'x store_db" where
  "empty_db = \<lparr>db_meta = fmempty, db_components = fmempty, db_legacy = fmempty, db_barriers = fmempty, db_app = fmempty\<rparr>"

definition demo_rows :: normalized_rows where
  "demo_rows = \<lparr>nr_format_version = 2, nr_meta = [48], nr_components = fmempty\<rparr>"

definition demo_key :: sync_state_key where
  "demo_key = (PartitionId ''primary'', ClientId ''client-a'')"

definition demo_db :: "'x store_db" where
  "demo_db = written demo_key fmempty demo_rows None empty_db"

definition demo_engine :: engine where
  "demo_engine = \<lparr>en_core = True, en_begin = True, en_calls = None, en_commit = Committed, en_cancel = True, en_session = True\<rparr>"

definition no_stage :: "'x stage_guard" where
  "no_stage = (\<lambda>_ _ _. tx_lift (Inr ()))"

lemma no_stage_reads: "stage_reads no_stage"
  unfolding stage_reads_def no_stage_def by (intro allI conjI tx_intros)

lemma stored_neq: "stored_before \<noteq> stored_after" "state_meta_of stored_after \<noteq> state_meta_of stored_before"
  by (auto simp: stored_before_def stored_after_def empty_state_def state_meta_of_def)

lemma demo_keys:
  "(partition_id stored_before, client_id stored_before) = demo_key"
  "(partition_id stored_after, client_id stored_after) = demo_key"
  by (simp_all add: stored_before_def stored_after_def empty_state_def demo_key_def)

lemma demo_number_law: "number_law demo_codec"
  by (simp add: number_law_def demo_codec_def)

lemma demo_faithful: "faithful_codec demo_codec stored_before" "faithful_codec demo_codec stored_after"
  by (auto simp: faithful_codec_def demo_number_law serde_ok_def)
    (auto simp: demo_codec_def stored_neq stored_before_def stored_after_def empty_state_def subscription_records_def
      split: if_splits)

lemmas demo_states = stored_before_def stored_after_def stored_commit_def demo_identity_def empty_state_def

lemma demo_encoded:
  "encode_tagged demo_codec (meta_value demo_codec (state_meta_of stored_before)) = Inr [48]"
  "encode_tagged demo_codec (meta_value demo_codec (state_meta_of stored_after)) = Inr [49]"
  "encode_tagged demo_codec (commit_value demo_codec stored_commit) = Inr [99]"
  by (simp_all add: encode_tagged_def demo_codec_def stored_neq max_sync_state_bytes_def)

lemma demo_items:
  "component_items demo_codec stored_before = []"
  "component_items demo_codec stored_after = [((outbox_table, ''c1''), Inr [99])]"
  using demo_encoded(3)
  by (simp_all add: component_items_def subscription_records_def stored_before_def stored_after_def empty_state_def
      commit_key_def) (simp add: stored_commit_def demo_identity_def)

lemma entries_single [simp]: "entries (fmupd k v fmempty) = [(k, v)]"
  by (rule entries_unique) (auto simp: fun_eq_iff)

lemma demo_normalized:
  "normalize_state demo_codec stored_before = Inr demo_rows"
  "\<exists>rows. normalize_state demo_codec stored_after = Inr rows"
  using demo_encoded(1,2)
  by (simp_all add: normalize_state_def demo_items component_count_def validate_state_keys_def payload_bytes_def
      insert_component_def max_component_items_def max_aggregate_state_bytes_def demo_rows_def)
    (simp_all add: demo_states subscription_records_def validate_component_key_def max_component_key_bytes_def commit_key_def
      format_version_def)

lemma demo_valid: "valid_state stored_before" "valid_state stored_after"
  unfolding validate_iff[symmetric] by code_simp+

lemma demo_stored: "journal_stored demo_codec demo_db demo_key stored_before"
  unfolding demo_db_def
  by (rule written_stored[OF _ _ _ demo_normalized(1) demo_faithful(1) demo_valid(1) demo_keys(1)[symmetric]])
    (simp_all add: rows_owned_def inventory_of_def client_rows_def empty_db_def rows_of_def component_tables_def
      add_rows_def)

lemma demo_loaded: "loaded demo_codec demo_db demo_key = Inr (Some stored_before)"
  by (rule demo_stored[unfolded journal_stored_def, THEN conjunct2, THEN conjunct1])

lemma demo_write_prepared:
  "\<exists>rows. prepare_state_write demo_codec (Some (revision stored_before)) stored_after = Inr (demo_key, rows)"
proof -
  have "validate_key demo_key = Inr ()" by (simp add: validate_key_def demo_key_def max_state_identity_bytes_def)
  moreover have "validate_next_revision (Some (revision stored_before)) (revision stored_after) = Inr ()"
    by code_simp
  moreover have "validate stored_after = Inr ()" using demo_valid(2) by (simp add: validate_iff)
  ultimately show ?thesis
    using demo_normalized(2) by (auto simp: prepare_state_write_def Let_def demo_keys)
qed

lemma demo_projections:
  "optimistic_projection stored_before = fmempty"
  "optimistic_projection stored_after = fmupd (RecordId ''task:1'') (OptPresent (JObject []) BaseAbsent None) fmempty"
  by code_simp+

lemma demo_content:
  "native_record_id demo_lib demo_schema (RecordId ''task:1'') = Inr ''task:1''"
  "from_wire_value demo_lib (JObject []) = Inr (SObject [])"
  "outside_store demo_lib demo_schema (RecordId ''task:1'')"
  "\<not> schema_refuses demo_schema ''task:1'' c"
  by code_simp+

lemma demo_outside: "\<forall>r \<in> fset (fmdom (optimistic_projection stored_after)). outside_store demo_lib demo_schema r"
  by (simp add: demo_projections demo_content(3))

section \<open>Properties\<close>



text \<open>
  A transition computed from a state that is no longer the stored one changes nothing:
  the store refuses it.
\<close>
theorem stale_transition_refused:
  assumes "loaded cd db (partition_id current, client_id current) \<noteq> Inr (Some current)"
    and "stage_reads stage" "current \<noteq> next_state"
  shows "\<exists>e. apply_transition_atomic cd stage lib sx en db current next_state = (Inl e, db)"
  using assms by (rule stale_unchanged)

theorem stale_transition_refused_witness:
  "\<exists>e. apply_transition_atomic demo_codec no_stage demo_lib demo_schema demo_engine demo_db stored_after stored_before
     = (Inl e, demo_db)"
proof (rule stale_transition_refused[OF _ no_stage_reads])
  show "loaded demo_codec demo_db (partition_id stored_after, client_id stored_after) \<noteq> Inr (Some stored_after)"
    by (simp add: demo_keys demo_loaded stored_neq(1))
qed (rule stored_neq(1)[symmetric])

text \<open>
  C21: A transition of a stored journal succeeds: if the next state can be prepared for the
  store, keeps the subscriptions, projects onto records the database can hold, and no
  bootstrap is under way, a working engine applies it.
\<close>
theorem healthy_transition_applies:
  assumes "journal_stored cd db (partition_id current, client_id current) current"
    and "prepare_state_write cd (Some (revision current)) next_state = Inr ((partition_id current, client_id current), rows)"
    and "is_some_and (fmlookup (db_meta db) (key_row (partition_id current, client_id current))) (\<lambda>row. mr_bootstrap_fence row = None)"
    and "subscriptions current \<noteq> None \<longrightarrow> subscriptions next_state \<noteq> None"
    and "\<forall>r \<in> fset (fmdom (optimistic_projection current) |\<union>| fmdom (optimistic_projection next_state)).
      projectable lib sx (optimistic_projection next_state) r"
    and "healthy en"
  shows "\<exists>db'. apply_transition_atomic cd stage lib sx en db current next_state = (Inr Applied, db')"
  by (rule transition_applies[OF assms])

lemma demo_applicable:
  "is_some_and (fmlookup (db_meta demo_db) (key_row demo_key)) (\<lambda>row. mr_bootstrap_fence row = None)"
  "subscriptions stored_before \<noteq> None \<longrightarrow> subscriptions stored_after \<noteq> None"
  "healthy demo_engine"
  by (simp_all add: demo_db_def written_def meta_row_def stored_before_def empty_state_def healthy_def demo_engine_def)

lemma demo_projectable:
  "\<forall>r \<in> fset (fmdom (optimistic_projection stored_before) |\<union>| fmdom (optimistic_projection stored_after)).
      projectable demo_lib demo_schema (optimistic_projection stored_after) r"
proof -
  have "projectable demo_lib demo_schema (optimistic_projection stored_after) (RecordId ''task:1'')"
    by (simp add: demo_projections projectable_def demo_content)
  then show ?thesis by (simp add: demo_projections)
qed

theorem healthy_transition_applies_witness:
  "\<exists>db'. apply_transition_atomic demo_codec no_stage demo_lib demo_schema demo_engine demo_db stored_before stored_after
     = (Inr Applied, db')"
proof -
  obtain rows where rows: "prepare_state_write demo_codec (Some (revision stored_before)) stored_after = Inr (demo_key, rows)"
    using demo_write_prepared by blast
  show ?thesis
    by (rule healthy_transition_applies[of demo_codec demo_db stored_before stored_after rows, unfolded demo_keys,
          OF demo_stored rows demo_applicable(1,2) demo_projectable demo_applicable(3)])
qed

text \<open>
  C6: The application's tables follow the journal: if the rows of the current optimistic
  projection are in place and different record IDs denote different rows, then after a
  successful transition every projected record holds the content of the new projection,
  and the records it deletes or drops are gone.
\<close>
theorem application_rows_follow:
  assumes "apply_transition_atomic cd stage lib sx en db current next_state = (Inr w, db')"
    and "stage_reads stage" "current \<noteq> next_state"
    and "inj_on (native_record_id lib sx)
      (fset (fmdom (optimistic_projection current) |\<union>| fmdom (optimistic_projection next_state)))"
    and "projected lib sx db (optimistic_projection current) (fset (fmdom (optimistic_projection current)))"
  shows "projected lib sx db' (optimistic_projection next_state)
    (fset (fmdom (optimistic_projection current) |\<union>| fmdom (optimistic_projection next_state)))"
proof -
  let ?key = "(partition_id current, client_id current)"
  from apply_transition_run[OF assms(3,1)] obtain rows where
    rows: "prepare_state_write cd (Some (revision current)) next_state = Inr (?key, rows)"
      "run_transaction en db (transition_body cd stage lib sx ?key current next_state rows) = (Inr w, db')"
    by blast
  then obtain d s' where "transition_body cd stage lib sx ?key current next_state rows
      \<lparr>tx_db = db, tx_calls = None\<rparr> = Inr (d, s')" "db' = tx_db s'"
    using run_transaction_cases[OF rows(2) transition_monotone[OF assms(2)]] by blast
  with projected_transition[OF assms(2) rows(1)] assms(4,5) show ?thesis by simp
qed

theorem application_rows_follow_witness:
  "\<exists>db'. apply_transition_atomic demo_codec no_stage demo_lib demo_schema demo_engine demo_db stored_before stored_after
     = (Inr Applied, db') \<and> fmlookup (db_app db') ''task:1'' = Some []"
proof -
  obtain rows where rows: "prepare_state_write demo_codec (Some (revision stored_before)) stored_after = Inr (demo_key, rows)"
    using demo_write_prepared by blast
  from transition_applies[OF demo_stored rows demo_applicable(1,2) demo_projectable demo_applicable(3)]
  obtain db' where run: "apply_transition_atomic demo_codec no_stage demo_lib demo_schema demo_engine demo_db stored_before
      stored_after = (Inr Applied, db')" by blast
  have "projected demo_lib demo_schema db' (optimistic_projection stored_after)
      (fset (fmdom (optimistic_projection stored_before) |\<union>| fmdom (optimistic_projection stored_after)))"
    by (rule application_rows_follow[OF run no_stage_reads stored_neq(1)]) (simp_all add: demo_projections projected_def)
  then show ?thesis using run by (simp add: projected_def demo_projections demo_content app_content_def)
qed

text \<open>
  C39: Saving a scope barrier never weakens it: a quarantine of pending intent stays a
  quarantine, other clients' barriers, every journal and the application's rows are as
  before, and a failed save changes nothing unless the commit's acknowledgement was lost.
\<close>
theorem barrier_never_weakened:
  assumes "\<And>active. fault_monotone (stage key active)" "\<And>active. reads_only (stage key active)"
    and "save_scope_barrier stage en db key barrier = (r, db')"
  shows "db' = db \<and> (\<exists>e. r = Inl e)
    \<or> db_barriers db' = fmupd (key_row key) (merge_barrier (fmlookup (db_barriers db) (key_row key)) barrier) (db_barriers db)
      \<and> (is_some_and (fmlookup (db_barriers db) (key_row key)) (\<lambda>b. sb_reason b = ''pending_quarantine_required'') \<longrightarrow>
           is_some_and (fmlookup (db_barriers db') (key_row key)) (\<lambda>b. sb_reason b = ''pending_quarantine_required''))
      \<and> (\<forall>k. loaded cd db' k = loaded cd db k) \<and> db_app db' = db_app db \<and> (r = Inr () \<or> r = Inl CommitUnknown)"
  using save_barrier_effect[OF assms] by (auto simp: merge_barrier_def)

theorem barrier_never_weakened_witness:
  "\<exists>r db'. save_scope_barrier (\<lambda>_ _. tx_lift (Inr ())) demo_engine
       ((empty_db :: string store_db)\<lparr>db_barriers := fmupd (key_row demo_key) \<lparr>sb_reason = ''pending_quarantine_required'',
          sb_required_scope = ''s'', sb_required_subscription_revision = ''1'', sb_required_authorization_revision = ''1''\<rparr> fmempty\<rparr>)
       demo_key \<lparr>sb_reason = ''needs_new_scope_journal'', sb_required_scope = ''s'',
          sb_required_subscription_revision = ''2'', sb_required_authorization_revision = ''2''\<rparr> = (r, db')
     \<and> is_some_and (fmlookup (db_barriers db') (key_row demo_key)) (\<lambda>b. sb_reason b = ''pending_quarantine_required'')"
proof -
  let ?db = "(empty_db :: string store_db)\<lparr>db_barriers := fmupd (key_row demo_key) \<lparr>sb_reason = ''pending_quarantine_required'',
          sb_required_scope = ''s'', sb_required_subscription_revision = ''1'', sb_required_authorization_revision = ''1''\<rparr> fmempty\<rparr>"
    and ?b = "\<lparr>sb_reason = ''needs_new_scope_journal'', sb_required_scope = ''s'',
          sb_required_subscription_revision = ''2'', sb_required_authorization_revision = ''2''\<rparr>"
  obtain r db' where run: "save_scope_barrier (\<lambda>_ _. tx_lift (Inr ())) demo_engine ?db demo_key ?b = (r, db')"
    by fastforce
  have "fault_monotone (tx_lift (Inr ()))" "reads_only (tx_lift (Inr ()))" by (intro tx_intros)+
  from barrier_never_weakened[OF this run, of demo_codec] run show ?thesis by auto
qed

end
