(* ===== verification/Native_Bridge.thy ===== *)
theory Native_Bridge
  imports Native_Codec Store_Decode Reference_Cbor
begin

text \<open>
  What the bridge keeps: a canonical value that is converted to JSON is read back as the
  same canonical value, so a server message decoded by the protocol codec and stored by the
  client still has the fingerprints and encodings the server computed.
\<close>

section \<open>JSON and canonical values\<close>

definition bridged :: "'y native_lib \<Rightarrow> nat \<Rightarrow> json \<Rightarrow> canonical_value \<Rightarrow> bool" where
  "bridged lib d j v \<longleftrightarrow> (\<exists>x. from_wire_value_at_depth lib j d = Inr x \<and> from_surreal x = Inr v)"

lemma canonical_json_bridged: "canonical_json lib j = Inr v \<longleftrightarrow> bridged lib 0 j v"
  by (auto simp: canonical_json_def bridged_def from_wire_value_def split: sum.splits)

lemma bridged_array:
  "list_all2 (bridged lib d) js vs \<Longrightarrow>
   \<exists>xs. from_wire_array lib js d = Inr xs \<and> from_surreal_list xs = Inr vs"
  by (induction rule: list_all2_induct) (auto simp: bridged_def)

lemma bridged_members:
  "list_all2 (\<lambda>(k, j) (l, v). k = l \<and> bridged lib d j v) js vs \<Longrightarrow>
   \<exists>xs. from_wire_members lib js d = Inr xs \<and> from_surreal_members xs = Inr vs \<and> map fst xs = map fst js"
  by (induction rule: list_all2_induct) (auto simp: bridged_def)

lemma collect_map_entries: "collect_map (entries m) = m"
  using map_from_entries[of m] by (simp add: collect_map_def map_from_def zip_map_fst_snd)

lemma validated_wire: "validated v d \<Longrightarrow> d \<le> max_wire_depth"
  using validated_depth[of v d] by (simp add: max_depth_def max_wire_depth_def)

lemma from_wire_record:
  "d \<le> max_wire_depth \<Longrightarrow> from_wire_value_at_depth lib (tagged_value ''record'' t) d =
     parsed SRecordId (record_parse_simple lib t)"
  by (simp add: decode_simps)

lemma try_members_Inr:
  "try_members (map (\<lambda>(k, v). (k, f v)) kvs) = Inr ms \<longleftrightarrow>
   list_all2 (\<lambda>(k, v) (l, x). l = k \<and> f v = Inr x) kvs ms"
  by (induction kvs arbitrary: ms) (auto simp: try_members_def rbind_Inr list_all2_Cons1)

lemma record_to_json_Inr:
  assumes "record_to_json lib table key = Inr j"
  shows "\<exists>t. j = tagged_value ''record'' t \<and> canonical_json lib j = Inr (VRecordId table key)"
proof -
  from assms obtain k where k: "(case canonical_json lib (tagged_value ''record'' (record_sql lib (NativeRecord table k))) of
       Inl _ \<Rightarrow> Inl Protocol
     | Inr c \<Rightarrow> if c \<noteq> VRecordId table key then Inl Protocol
               else Inr (tagged_value ''record'' (record_sql lib (NativeRecord table k)))) = Inr j"
    by (auto simp: record_to_json_def rbind_Inr Let_def)
  then show ?thesis
    by (cases "canonical_json lib (tagged_value ''record'' (record_sql lib (NativeRecord table k)))")
      (auto split: if_splits)
qed

lemma bridge_inverse:
  assumes "\<And>bs. base64_decode lib (base64_encode lib bs) = Some bs"
  shows "well_typed v \<Longrightarrow> validated v d \<Longrightarrow> canonical_to_json v lib = Inr j \<Longrightarrow> bridged lib d j v"
proof (induction v arbitrary: d j)
  case (VArray vs)
  from VArray.prems(3) obtain js where j: "j = JArray js"
    and js: "list_all2 (\<lambda>v j. canonical_to_json v lib = Inr j) vs js"
    by (auto simp: rbind_Inr try_map_Inr list_all2_map1)
  have "list_all2 (bridged lib (Suc d)) js vs"
    using js VArray.IH VArray.prems(1) validated_array(2)[OF VArray.prems(2)]
    unfolding list_all2_conv_all_nth well_typed_array by (metis nth_mem)
  then show ?case
    using validated_wire[OF VArray.prems(2)] bridged_array[of lib "Suc d" js vs]
    by (auto simp: j bridged_def from_wire_value_at_depth.simps)
next
  case (VObject m)
  from VObject.prems(3) have tag: "\<not> contains_key m wire_tag" by (auto split: if_splits)
  from VObject.prems(3) tag obtain ms where j: "j = JObject (members_of ms)"
    and ms: "list_all2 (\<lambda>(k, v) (l, x). l = k \<and> canonical_to_json v lib = Inr x) (entries m) ms"
    by (auto simp: rbind_Inr entries_fmmap comp_def case_prod_unfold
        try_members_Inr[where f = "\<lambda>v. canonical_to_json v lib", unfolded case_prod_unfold])
  have keys: "map fst ms = map fst (entries m)"
    using ms by (induction rule: list_all2_induct) auto
  then have ord: "key_ordered ms" using sorted_entries[of m] by (simp add: key_ordered_def)
  have "list_all2 (\<lambda>(k, x) (l, v). k = l \<and> bridged lib (Suc d) x v) ms (entries m)"
    unfolding list_all2_conv_all_nth
  proof (intro conjI allI impI)
    show "length ms = length (entries m)" using ms by (simp add: list_all2_lengthD)
    fix i assume i: "i < length ms"
    then obtain k v x where kv: "entries m ! i = (k, v)" "ms ! i = (k, x)" "canonical_to_json v lib = Inr x"
      using ms unfolding list_all2_conv_all_nth by (cases "entries m ! i"; cases "ms ! i") fastforce
    then have lk: "fmlookup m k = Some v"
      using i ms by (metis in_entries list_all2_lengthD nth_mem)
    have "well_typed v" "validated v (Suc d)" "v \<in> fmran' m"
      using VObject.prems(1,2) lk validated_object(2)[OF VObject.prems(2) lk]
      by (auto simp: well_typed_object fmran'I)
    then show "(case ms ! i of (k, x) \<Rightarrow> \<lambda>(l, v). k = l \<and> bridged lib (Suc d) x v) (entries m ! i)"
      using VObject.IH kv by auto
  qed
  from bridged_members[OF this] obtain xs where xs: "from_wire_members lib ms (Suc d) = Inr xs"
      "from_surreal_members xs = Inr (entries m)" "map fst xs = map fst ms" by blast
  have "map_of ms wire_tag = None"
    using tag keys unfolding map_of_eq_None_iff by (metis contains_key_dom entries_keys_set set_map)
  moreover have "key_ordered xs" using ord xs(3) by (simp add: key_ordered_def)
  ultimately show ?case
    using validated_wire[OF VObject.prems(2)] ord xs
    by (simp add: j bridged_def from_wire_value_at_depth.simps[of _ "JObject _"] collect_map_entries)
next
  case (VRecordId table key)
  then obtain t where j: "j = tagged_value ''record'' t" "canonical_json lib j = Inr (VRecordId table key)"
    using record_to_json_Inr by fastforce
  have "from_wire_value_at_depth lib j d = from_wire_value_at_depth lib j 0"
    using validated_wire[OF VRecordId.prems(2)] by (simp add: j(1) from_wire_record)
  with j(2) show ?case by (simp add: canonical_json_bridged bridged_def)
next
  case VNone
  then show ?case
    using validated_wire[OF VNone(2)]
    by (auto simp: bridged_def wire_objects from_wire_value_at_depth.simps decode_tagged_value.simps)
next
  case (VFloat f)
  then show ?case
    using validated_wire[OF VFloat(2)] canonical_float_new_get[of f]
    by (auto simp: bridged_def from_wire_value_at_depth.simps[of _ "JNumber _"] wire_number_def split: if_splits)
qed (use assms in \<open>auto dest!: validated_wire simp: bridged_def decode_simps from_wire_value_at_depth.simps[of _ "JNull"]
    from_wire_value_at_depth.simps[of _ "JBool _"] from_wire_value_at_depth.simps[of _ "JString _"]\<close>)

lemma tagged_ok: "json_ok (tagged_value kind text)"
  by (simp add: wire_objects key_ordered_def) code_simp

lemma canonical_to_json_ok: "canonical_to_json v lib = Inr j \<Longrightarrow> json_ok j"
proof (induction v arbitrary: j)
  case (VArray vs)
  then obtain js where "j = JArray js" "list_all2 (\<lambda>v j. canonical_to_json v lib = Inr j) vs js"
    by (auto simp: rbind_Inr try_map_Inr list_all2_map1)
  with VArray.IH show ?case
    by (auto simp: list_all_length list_all2_conv_all_nth) (metis nth_mem)
next
  case (VObject m)
  from VObject.prems obtain ms where j: "j = JObject (members_of ms)"
    and ms: "list_all2 (\<lambda>(k, v) (l, x). l = k \<and> canonical_to_json v lib = Inr x) (entries m) ms"
    by (auto simp: rbind_Inr entries_fmmap comp_def case_prod_unfold
        try_members_Inr[where f = "\<lambda>v. canonical_to_json v lib", unfolded case_prod_unfold] split: if_splits)
  have keys: "map fst ms = map fst (entries m)"
    using ms by (induction rule: list_all2_induct) auto
  then have ord: "key_ordered ms" using sorted_entries[of m] by (simp add: key_ordered_def)
  have "json_ok x" if "(k, x) \<in> set ms" for k x
  proof -
    from that ms obtain v where "(k, v) \<in> set (entries m)" "canonical_to_json v lib = Inr x"
      by (force simp: list_all2_conv_all_nth in_set_conv_nth)
    with VObject.IH show ?thesis by (metis fmran'I in_entries)
  qed
  with ord show ?case by (auto simp: j list_all_iff)
next
  case (VRecordId table key)
  then show ?case using record_to_json_Inr[of lib table key j] by (auto simp: tagged_ok)
qed (auto simp: tagged_ok wire_objects key_ordered_def less_list_code wire_tag_def split: if_splits)

section \<open>Properties\<close>

text \<open>
  C24: A canonical value within the profile that the bridge converts to JSON is a
  well-formed JSON tree and reads back as the same canonical value, record identifiers and
  nested values included.
\<close>
theorem server_value_survives_bridge:
  assumes "\<And>bs. base64_decode lib (base64_encode lib bs) = Some bs"
    and "well_typed v" "validate_value v = Inr ()" "canonical_to_json v lib = Inr j"
  shows "json_ok j \<and> canonical_json lib j = Inr v"
  using bridge_inverse[OF assms(1,2) validate_value_validated[OF assms(3)] assms(4)]
    canonical_to_json_ok[OF assms(4)] by (simp add: canonical_json_bridged)

definition bridge_lib :: "string native_lib" where
  "bridge_lib = \<lparr>decimal_text = (\<lambda>_. ''''), decimal_from_str = (\<lambda>_. None), uuid_text = (\<lambda>_. ''''),
     uuid_from_str = (\<lambda>_. None),
     record_sql = (\<lambda>r. case r of NativeRecord t (KeyString k) \<Rightarrow> t @ '':'' @ k | _ \<Rightarrow> ''''),
     record_parse_simple = (\<lambda>s. map_option (\<lambda>(t, k). NativeRecord t (KeyString k)) (split_once CHR '':'' s)),
     value_sql = (\<lambda>_. ''''), f64_text = (\<lambda>_. ''''), parse_f64 = (\<lambda>_. None), f64_of_u64 = (\<lambda>n. n),
     base64_encode = map (\<lambda>b. char_of (unat b)), base64_decode = (\<lambda>s. Some (map (\<lambda>c. of_nat (of_char c)) s)),
     set_from = (\<lambda>vs. vs)\<rparr>"

definition bridge_value :: canonical_value where
  "bridge_value = VArray [VNone, VInt (- 5), VRecordId ''task'' (VString ''1''), VBytes [1, 255],
     VFloat (CanonicalFloat 0x3FF8000000000000), VObject (fmupd ''k'' (VString ''v'') fmempty)]"

theorem server_value_survives_bridge_witness:
  "\<exists>j. canonical_to_json bridge_value bridge_lib = Inr j \<and> json_ok j \<and> canonical_json bridge_lib j = Inr bridge_value"
proof -
  have base64: "base64_decode bridge_lib (base64_encode bridge_lib bs) = Some bs" for bs
    by (simp add: bridge_lib_def comp_def byte_lt map_idI)
  have v: "well_typed bridge_value" "validate_value bridge_value = Inr ()" by code_simp+
  have "\<not> isl (canonical_to_json bridge_value bridge_lib)" by code_simp
  then obtain j where j: "canonical_to_json bridge_value bridge_lib = Inr j"
    by (cases "canonical_to_json bridge_value bridge_lib") auto
  show ?thesis using server_value_survives_bridge[OF base64 v j] j by blast
qed

end
