(* ===== verification/Native_Paging.thy ===== *)
theory Native_Paging
  imports Native_View Store_Decode
begin

text \<open>
  What a bounded read of the view shows: the rows of the optimistic projection that the
  selector picks, page after page without gaps or repetitions, within the work budget.
\<close>

section \<open>What the loops compute\<close>

fun lookup_path :: "json \<Rightarrow> string list \<Rightarrow> json option" where
  "lookup_path v [] = Some v"
| "lookup_path v (key # path) =
     (if tagged_object v then None else case get_member key v of None \<Rightarrow> None | Some x \<Rightarrow> lookup_path x path)"

fun selects :: "selector \<Rightarrow> json \<Rightarrow> bool" where
  "selects SelAll v = True"
| "selects (SelEq path wanted) v = (lookup_path v path = Some wanted \<and> is_scalar wanted)"
| "selects (SelAnd terms) v = (\<forall>t \<in> set terms. selects t v)"

fun opt_value :: "'v optimistic_record \<Rightarrow> 'v option" where
  "opt_value (OptPresent v b ref) = Some v"
| "opt_value (OptDeleted n) = None"

definition visible_rows :: "json durable_client_state \<Rightarrow> (record_id \<times> json) list" where
  "visible_rows s = List.map_filter (\<lambda>(r, x). map_option (Pair r) (opt_value x)) (entries (optimistic_projection s))"

lemma field_Inr: "field v path w = Inr (x, w') \<Longrightarrow> x = lookup_path v path"
  by (induction v path w rule: field.induct) (auto simp: Let_def split: if_splits option.splits)

lemma matches_Inr:
  "sel_matches sel v w = Inr (b, w') \<Longrightarrow> b = selects sel v"
  "all_match ts v w = Inr (b, w') \<Longrightarrow> b = (\<forall>t \<in> set ts. selects t v)"
proof (induction sel v w and ts v w arbitrary: b w' and b w' rule: sel_matches_all_match.induct)
  case (2 path wanted v w)
  then obtain got w1 where "field v path w = Inr (got, w1)" and b: "b = is_some_and got (\<lambda>x. is_scalar x \<and> x = wanted)"
    by (auto simp: result_conv)
  then have "got = lookup_path v path" by (simp add: field_Inr)
  with b show ?case by (cases "lookup_path v path") auto
next
  case (5 t ts v w)
  then show ?case by (fastforce simp: result_conv split: if_splits)
qed auto

lemma view_confirmed_Inr:
  assumes "view_confirmed xs rows w = Inr (rows', w')" "distinct (map fst xs)"
  shows "fmlookup rows' r = (case map_of xs r of Some (Present v n ref) \<Rightarrow> Some v | _ \<Rightarrow> fmlookup rows r)"
  using assms
proof (induction xs arbitrary: rows w)
  case (Cons x xs)
  obtain q s where x: "x = (q, s)" by fastforce
  have fresh: "map_of xs q = None" using Cons.prems(2) by (auto simp: x map_of_eq_None_iff)
  show ?case
  proof (cases s)
    case (Present v n ref)
    from Cons.prems(1) obtain w1 where "view_confirmed xs (fmupd q v rows) w1 = Inr (rows', w')"
      by (auto simp: x Present result_conv split: if_splits)
    from Cons.IH[OF this] Cons.prems(2) fresh show ?thesis
      by (cases "r = q") (auto simp: x Present split: option.split record_state.split)
  qed (use Cons fresh in \<open>auto simp: x result_conv split: if_splits\<close>)
qed simp

lemma map_of_map_filter:
  assumes "distinct (map fst xs)"
  shows "map_of (List.map_filter (\<lambda>(r, x). map_option (Pair r) (f x)) xs) r = Option.bind (map_of xs r) f"
  using assms
proof (induction xs)
  case (Cons x xs)
  obtain q y where x: "x = (q, y)" by fastforce
  have "map_of xs q = None" using Cons.prems by (auto simp: x map_of_eq_None_iff)
  with Cons show ?case by (cases "f y") (auto simp: x List.map_filter_simps)
qed (simp add: List.map_filter_simps)

text \<open>One operation of the overlay acts on the visible values as it acts on the projection.\<close>

definition values_of :: "(record_id, 'v optimistic_record) fmap \<Rightarrow> record_id \<Rightarrow> 'v option" where
  "values_of m r = Option.bind (fmlookup m r) opt_value"

lemma overlay_Inr:
  assumes "overlay ops rows w = Inr (rows', w')" "fmlookup rows = values_of m"
  shows "fmlookup rows' = values_of (fold (\<lambda>op. fmupd (operation_record_id op) (optimistic_of_operation op)) ops m)"
  using assms
proof (induction ops arbitrary: rows w m)
  case (Cons op ops)
  let ?rows = "case op of Upsert r b v ref \<Rightarrow> fmupd r v rows | Delete r b \<Rightarrow> fmdrop r rows"
  from Cons.prems(1) obtain w1 where "overlay ops ?rows w1 = Inr (rows', w')" by (auto simp: result_conv)
  moreover have "fmlookup ?rows = values_of (fmupd (operation_record_id op) (optimistic_of_operation op) m)"
    using Cons.prems(2) by (cases op) (auto simp: values_of_def fun_eq_iff)
  ultimately show ?case using Cons.IH by simp
qed simp

lemma projected_base:
  "fmlookup (fmap_of_list (List.map_filter (\<lambda>(r, s). map_option (Pair r) (optimistic_of_record s)) (entries m))) r
     = Option.bind (fmlookup m r) optimistic_of_record"
  by (simp add: fmlookup_of_list map_of_map_filter distinct_entries map_of_entries)

lemma effective_values:
  assumes "effective rt w = Inr (rows, w')"
  shows "fmlookup rows = values_of (optimistic_projection (rt_state rt))"
proof -
  from assms obtain base w1 w2 where base: "view_confirmed (entries (confirmed (rt_state rt))) fmempty w = Inr (base, w1)"
    and over: "overlay (optimistic_operations (rt_state rt)) base w2 = Inr (rows, w')"
    by (auto simp: effective_def Let_def result_conv)
  let ?m = "fmap_of_list (List.map_filter (\<lambda>(r, s). map_option (Pair r) (optimistic_of_record s)) (entries (confirmed (rt_state rt))))"
  have "fmlookup base r = values_of ?m r" for r
    using view_confirmed_Inr[OF base distinct_entries, of r]
    by (auto simp: values_of_def projected_base map_of_entries split: option.split record_state.split)
  then have "fmlookup base = values_of ?m" by (rule ext)
  from overlay_Inr[OF over this] show ?thesis by (simp add: optimistic_projection_def)
qed

lemma effective_rows:
  assumes "effective rt w = Inr (rows, w')"
  shows "entries rows = visible_rows (rt_state rt)"
proof (rule entries_unique)
  let ?xs = "entries (optimistic_projection (rt_state rt))"
  have "set (map fst (List.map_filter (\<lambda>(r, x). map_option (Pair r) (opt_value x)) xs)) \<subseteq> set (map fst xs)"
    for xs :: "(record_id \<times> json optimistic_record) list"
    by (induction xs) (auto simp: List.map_filter_simps split: option.split)
  then have sub: "sorted_wrt (<) (map fst (List.map_filter (\<lambda>(r, x). map_option (Pair r) (opt_value x)) xs))"
    if "sorted_wrt (<) (map fst xs)" for xs :: "(record_id \<times> json optimistic_record) list"
    using that by (induction xs) (fastforce simp: List.map_filter_simps split: option.split)+
  show "sorted_wrt (<) (map fst (visible_rows (rt_state rt)))"
    unfolding visible_rows_def by (rule sub[OF sorted_entries])
  show "map_of (visible_rows (rt_state rt)) = fmlookup rows"
    by (simp add: effective_values[OF assms] visible_rows_def values_of_def fun_eq_iff map_of_map_filter distinct_entries
        map_of_entries)
qed

section \<open>Pages\<close>

definition after_start :: "string option \<Rightarrow> record_id \<Rightarrow> bool" where
  "after_start after r \<longleftrightarrow> (\<forall>last. after = Some last \<longrightarrow> last < record_str r)"

definition page_hits :: "selector \<Rightarrow> string option \<Rightarrow> (record_id \<times> json) list \<Rightarrow> (record_id \<times> json) list" where
  "page_hits sel after rows = filter (\<lambda>(r, v). after_start after r \<and> selects sel v) rows"

lemma count_loop_Inr:
  "count_loop sel vs n w = Inr (n', w') \<Longrightarrow> n' = n + of_nat (length (filter (selects sel) vs))"
proof (induction vs arbitrary: n w)
  case (Cons v vs)
  then obtain w1 b w2 where "sel_matches sel v w1 = Inr (b, w2)" "count_loop sel vs (if b then n + 1 else n) w2 = Inr (n', w')"
    by (auto simp: rbind_Inr)
  with Cons.IH[of "if b then n + 1 else n" w2] matches_Inr(1)[of sel v w1 b w2] show ?case by (simp add: ac_simps)
qed simp

lemma page_loop_Inr:
  assumes "page_loop after sel cap rows selected w = Inr (out, b, w')" "length selected \<le> cap"
  shows "out = take cap (selected @ page_hits sel after rows) \<and> b = (length (selected @ page_hits sel after rows) > cap)"
  using assms
proof (induction rows arbitrary: selected w)
  case (Cons x rows)
  obtain r v where x: "x = (r, v)" by fastforce
  from Cons.prems(1) obtain w1 where w1: "(if is_some_and after (\<lambda>last. record_str r \<le> last) then page_loop after sel cap rows selected w1
     else rbind (sel_matches sel v w1) (\<lambda>(hit, w).
       if \<not> hit then page_loop after sel cap rows selected w
       else if length selected = cap then Inr (selected, True, w)
       else page_loop after sel cap rows (selected @ [(r, v)]) w)) = Inr (out, b, w')"
    unfolding x page_loop.simps rbind_Inr[of "visit False w"] by blast
  have start: "after_start after r \<longleftrightarrow> \<not> is_some_and after (\<lambda>last. record_str r \<le> last)"
    by (cases after) (auto simp: after_start_def)
  show ?case
  proof (cases "after_start after r \<and> selects sel v")
    case True
    with w1 start have "rbind (sel_matches sel v w1) (\<lambda>(hit, w).
       if \<not> hit then page_loop after sel cap rows selected w
       else if length selected = cap then Inr (selected, True, w)
       else page_loop after sel cap rows (selected @ [(r, v)]) w) = Inr (out, b, w')" by simp
    then obtain hit w2 where "sel_matches sel v w1 = Inr (hit, w2)" and
      w2: "(if \<not> hit then page_loop after sel cap rows selected w2 else if length selected = cap then Inr (selected, True, w2)
       else page_loop after sel cap rows (selected @ [(r, v)]) w2) = Inr (out, b, w')" by (auto simp: rbind_Inr[of "sel_matches sel v w1"])
    moreover from this(1) True have hit by (auto dest: matches_Inr(1))
    ultimately have "if length selected = cap then (out, b) = (selected, True)
        else page_loop after sel cap rows (selected @ [(r, v)]) w2 = Inr (out, b, w')"
      by (auto split: if_splits)
    with True Cons.prems(2) Cons.IH[of "selected @ [(r, v)]" w2] show ?thesis
      by (auto simp: x page_hits_def split: if_splits)
  next
    case False
    with w1 start obtain w2 where "page_loop after sel cap rows selected w2 = Inr (out, b, w')"
      by (auto simp: result_conv dest!: matches_Inr(1) split: if_splits)
    with False Cons.prems(2) Cons.IH[of selected w2] show ?thesis by (auto simp: x page_hits_def)
  qed
qed (simp add: page_hits_def)

lemma map_of_member_insert: "map_of (member_insert k v ms) l = (if l = k then Some v else map_of ms l)"
  by (induction k v ms rule: member_insert.induct) auto

lemma member_at_members [simp]:
  "member_at k (JObject (members_of kvs)) = (case map_of (rev kvs) k of None \<Rightarrow> JNull | Some v \<Rightarrow> v)"
proof -
  have "map_of (fold (\<lambda>(k, v). member_insert k v) kvs ms) l = map_of (rev kvs @ ms) l" for ms :: members and l
    by (induction kvs arbitrary: ms) (auto simp: map_of_member_insert map_add_def split: option.split)
  then show ?thesis by (simp add: member_at_def members_of_def)
qed

definition row_ids :: "json \<Rightarrow> json list" where
  "row_ids out = (case member_at ''rows'' out of JArray rows \<Rightarrow> map (member_at ''recordId'') rows | _ \<Rightarrow> [])"

definition id_json :: "record_id \<times> json \<Rightarrow> json" where
  "id_json x = JString (record_str (fst x))"

lemma page_rows_ids: "page_rows projection summary selected w = Inr (rows, w') \<Longrightarrow> map (member_at ''recordId'') rows = map id_json selected"
proof (induction selected arbitrary: rows w)
  case (Cons x selected)
  obtain r v where x: "x = (r, v)" by fastforce
  from Cons.prems show ?case by (auto simp: x rbind_Inr id_json_def dest!: Cons.IH)
qed simp

lemma lifted_Inr [result_conv]: "lifted r = Inr x \<longleftrightarrow> r = Inr x"
  by (cases r) (auto simp: lifted_def)

lemma read_page_Inr:
  assumes "read_page vs rt j tok sel projection cap meta query after = Inr out"
  defines "hits \<equiv> page_hits sel after (visible_rows (rt_state rt))"
  shows "row_ids out = map id_json (take (unat cap) hits)
    \<and> (\<exists>cursor. next_cursor vs rt j meta query tok (take (unat cap) hits) (unat cap < length hits) = Inr cursor
         \<and> member_at ''nextCursor'' out = (case cursor of None \<Rightarrow> JNull | Some t \<Rightarrow> JString t))"
proof -
  from assms(1) obtain rows w1 selected b w2 summary w3 jsons w4 cursor where
    eff: "effective rt no_work = Inr (rows, w1)" and
    loop: "page_loop after sel (unat cap) (entries rows) [] w1 = Inr (selected, b, w2)" and
    out: "page_rows projection summary selected w3 = Inr (jsons, w4)"
      "next_cursor vs rt j meta query tok selected b = Inr cursor"
      "out = JObject (members_of [(''protocolVersion'', JNumber (PosInt 1)), (''kind'', JString ''page''),
       (''rows'', JArray jsons), (''nextCursor'', case cursor of None \<Rightarrow> JNull | Some t \<Rightarrow> JString t),
       (''metadata'', meta), (''work'', work_json w4)])"
    by (auto simp: read_page_def result_conv)
  have "selected = take (unat cap) hits \<and> b = (unat cap < length hits)"
    using page_loop_Inr[OF loop] by (simp add: hits_def effective_rows[OF eff])
  with out page_rows_ids[OF out(1)] show ?thesis by (simp add: row_ids_def)
qed

lemma view_page_Inr:
  assumes "vs_request vs input = Some (ViewPage version sel projection cap raw)"
    and "view_read vs rt j tok input = Inr out" "member_at ''kind'' out = JString ''page''"
  obtains meta query after where "cursor_start vs rt j meta query raw = Inr (StartAfter after)"
    "read_page vs rt j tok sel projection cap meta query after = Inr out" "0 < unat cap"
proof -
  from assms(1,2) obtain meta query start where q: "page_query vs (ViewPage version sel projection cap raw) = Inr query"
    and start: "cursor_start vs rt j meta query raw = Inr start"
    and out: "(case start of StaleCursor \<Rightarrow> Inr (JObject (members_of [(''protocolVersion'', JNumber (PosInt 1)),
              (''kind'', JString ''stale_cursor''), (''metadata'', meta)]))
          | StartAfter after \<Rightarrow> read_page vs rt j tok sel projection cap meta query after) = Inr out"
    by (auto simp: view_read_def result_conv split: if_splits)
  have "0 < unat cap" using q by (auto simp: page_query_def word_less_nat_alt split: if_splits)
  with start out assms(3) that show ?thesis by (cases start) auto
qed

section \<open>Following the cursors\<close>

text \<open>
  A reader that asks for pages of one query until there is no next cursor, while the state
  stays the same; the journal of issued cursors may change in between.
\<close>

inductive paging ::
  "view_serde \<Rightarrow> json client_runtime \<Rightarrow> selector \<Rightarrow> string list list \<Rightarrow> u32 \<Rightarrow> string option \<Rightarrow> json list \<Rightarrow> bool"
  for vs rt sel projection cap where
  last_page: "vs_request vs input = Some (ViewPage version sel projection cap raw) \<Longrightarrow>
    view_read vs rt j tok input = Inr out \<Longrightarrow> member_at ''kind'' out = JString ''page'' \<Longrightarrow>
    member_at ''nextCursor'' out = JNull \<Longrightarrow> paging vs rt sel projection cap raw (row_ids out)"
| next_page: "vs_request vs input = Some (ViewPage version sel projection cap raw) \<Longrightarrow>
    view_read vs rt j tok input = Inr out \<Longrightarrow> member_at ''kind'' out = JString ''page'' \<Longrightarrow>
    member_at ''nextCursor'' out = JString t \<Longrightarrow> paging vs rt sel projection cap (Some t) ids \<Longrightarrow>
    paging vs rt sel projection cap raw (row_ids out @ ids)"

definition start_of :: "view_serde \<Rightarrow> string option \<Rightarrow> string option" where
  "start_of vs raw = Option.bind raw (\<lambda>t. map_option vc_last_record_id (vs_cursor vs t))"

lemma cursor_start_after: "cursor_start vs rt j meta query raw = Inr (StartAfter after) \<Longrightarrow> after = start_of vs raw"
  by (auto simp: cursor_start_def start_of_def result_conv split: option.splits if_splits)

lemma next_cursor_start:
  assumes "next_cursor vs rt j meta query tok selected b = Inr (Some t)"
    and "\<And>c t. vs_cursor_text vs c = Some t \<Longrightarrow> vs_cursor vs t = Some c"
  shows "b \<and> selected \<noteq> [] \<and> start_of vs (Some t) = Some (record_str (fst (last selected)))"
  using assms by (auto simp: next_cursor_def start_of_def result_conv split: if_splits)

lemma filter_past:
  fixes xs :: "('k::linorder \<times> 'v) list"
  assumes "sorted_wrt (\<lambda>x y. fst x < fst y) xs" "0 < n" "n < length xs"
  shows "filter (\<lambda>x. fst (xs ! (n - 1)) < fst x) xs = drop n xs"
proof -
  have "\<not> fst (xs ! (n - 1)) < fst x" if "x \<in> set (take n xs)" for x
  proof -
    from that obtain i where i: "i < n" "x = xs ! i" by (auto simp: in_set_conv_nth)
    show ?thesis
    proof (cases "i = n - 1")
      case False
      with i(1) have "i < n - 1" by simp
      from sorted_wrt_nth_less[OF assms(1) this] assms(3) i(2) show ?thesis by (fastforce simp: not_less)
    qed (simp add: i)
  qed
  moreover have "fst (xs ! (n - 1)) < fst x" if "x \<in> set (drop n xs)" for x
  proof -
    from that obtain i where "i < length (drop n xs)" "x = drop n xs ! i" by (metis in_set_conv_nth)
    then have "n + i < length xs" "x = xs ! (n + i)" by auto
    then show ?thesis using sorted_wrt_nth_less[OF assms(1), of "n - 1" "n + i"] assms(2) by simp
  qed
  ultimately have "filter (\<lambda>x. fst (xs ! (n - 1)) < fst x) (take n xs @ drop n xs) = drop n xs"
    unfolding filter_append by (simp add: filter_empty_conv filter_id_conv)
  then show ?thesis by simp
qed

lemma page_hits_past:
  assumes "\<And>r. e < r \<Longrightarrow> after_start after r"
  shows "page_hits sel (Some (record_str e)) rows = filter (\<lambda>x. e < fst x) (page_hits sel after rows)"
  using assms by (induction rows) (auto simp: page_hits_def after_start_def record_id_less)

text \<open>Past the last record of a page come exactly the hits the page left out.\<close>

lemma hits_after:
  assumes "sorted_wrt (<) (map fst rows)" "0 < n" "n < length (page_hits sel after rows)"
  shows "page_hits sel (Some (record_str (fst (last (take n (page_hits sel after rows)))))) rows = drop n (page_hits sel after rows)"
proof -
  let ?hits = "page_hits sel after rows"
  let ?edge = "fst (last (take n ?hits))"
  have sorted: "sorted_wrt (\<lambda>x y. fst x < fst y) rows" using assms(1) by (simp add: sorted_wrt_map)
  then have hits: "sorted_wrt (\<lambda>x y. fst x < fst y) ?hits" unfolding page_hits_def by (rule sorted_wrt_filter)
  have last: "last (take n ?hits) = ?hits ! (n - 1)" using assms(2,3) by (subst last_conv_nth) (auto simp: min_def)
  have in_hits: "?hits ! (n - 1) \<in> set ?hits" using assms(3) by auto
  have "after_start after (fst x)" if "x \<in> set ?hits" for x using that by (auto simp: page_hits_def)
  from this[OF in_hits] have "after_start after ?edge" unfolding last .
  then have start: "after_start after r" if "?edge < r" for r
    using that unfolding after_start_def record_id_less by (auto intro: order.strict_trans)
  have "page_hits sel (Some (record_str ?edge)) rows = filter (\<lambda>x. ?edge < fst x) ?hits"
    by (rule page_hits_past[OF start])
  also have "\<dots> = drop n ?hits"
    unfolding last using filter_past[OF hits assms(2,3)] .
  finally show ?thesis .
qed

lemma visible_sorted: "effective rt w = Inr x \<Longrightarrow> sorted_wrt (<) (map fst (visible_rows (rt_state rt)))"
  using effective_rows sorted_entries by (metis prod.exhaust)

lemma paging_hits:
  assumes "paging vs rt sel projection cap raw ids"
    and law: "\<And>c t. vs_cursor_text vs c = Some t \<Longrightarrow> vs_cursor vs t = Some c"
  shows "ids = map id_json (page_hits sel (start_of vs raw) (visible_rows (rt_state rt)))"
  using assms(1)
proof (induction rule: paging.induct)
  case (last_page input version raw j tok out)
  let ?hits = "page_hits sel (start_of vs raw) (visible_rows (rt_state rt))"
  from view_page_Inr[OF last_page(1-3)] obtain meta query where
    page: "read_page vs rt j tok sel projection cap meta query (start_of vs raw) = Inr out"
    by (metis cursor_start_after)
  from read_page_Inr[OF page] obtain cursor where c: "row_ids out = map id_json (take (unat cap) ?hits)"
    "next_cursor vs rt j meta query tok (take (unat cap) ?hits) (unat cap < length ?hits) = Inr cursor"
    "member_at ''nextCursor'' out = (case cursor of None \<Rightarrow> JNull | Some t \<Rightarrow> JString t)" by blast
  have "cursor = None" using c(3) last_page(4) by (cases cursor) auto
  with c(2) have "\<not> unat cap < length ?hits" by (auto simp: next_cursor_def result_conv split: if_splits)
  with c(1) show ?case by simp
next
  case (next_page input version raw j tok out t ids)
  let ?rows = "visible_rows (rt_state rt)"
  let ?hits = "page_hits sel (start_of vs raw) ?rows"
  from view_page_Inr[OF next_page(1-3)] obtain meta query where
    page: "read_page vs rt j tok sel projection cap meta query (start_of vs raw) = Inr out" "0 < unat cap"
    by (metis cursor_start_after)
  from read_page_Inr[OF page(1)] obtain cursor where c: "row_ids out = map id_json (take (unat cap) ?hits)"
    "next_cursor vs rt j meta query tok (take (unat cap) ?hits) (unat cap < length ?hits) = Inr cursor"
    "member_at ''nextCursor'' out = (case cursor of None \<Rightarrow> JNull | Some t \<Rightarrow> JString t)" by blast
  have "cursor = Some t" using c(3) next_page(4) by (cases cursor) auto
  from next_cursor_start[OF c(2)[unfolded this] law] have n: "unat cap < length ?hits"
    "start_of vs (Some t) = Some (record_str (fst (last (take (unat cap) ?hits))))" by auto
  have "sorted_wrt (<) (map fst ?rows)"
    using page(1) visible_sorted by (fastforce simp: read_page_def result_conv)
  from hits_after[OF this page(2) n(1)] n(2) next_page.IH c(1) show ?case
    by (simp flip: map_append)
qed

section \<open>The work budget\<close>

definition within_work :: "view_work \<Rightarrow> bool" where
  "within_work w \<longleftrightarrow> unat (vw_records w) + unat (vw_operations w) \<le> 16384 \<and> unat (vw_nodes w) \<le> 65536
     \<and> vw_bytes w \<le> 4 * 1024 * 1024"

lemma within_no_work: "within_work no_work"
  by (simp add: within_work_def no_work_def)

lemma unat_Suc_small: "unat (x :: u32) \<le> 65536 \<Longrightarrow> unat (x + 1) = Suc (unat x)"
  by (simp add: unat_word_ariths)

lemma visit_within: "visit b w = Inr w' \<Longrightarrow> within_work w \<Longrightarrow> within_work w'"
  by (auto simp: visit_def Let_def within_work_def max_visits_def word_less_nat_alt unat_word_ariths split: if_splits)

lemma charge_within: "charge n w = Inr w' \<Longrightarrow> within_work w \<Longrightarrow> within_work w'"
  by (auto simp: charge_def Let_def within_work_def max_value_bytes_def split: if_splits)

lemma node_within:
  "\<not> vw_nodes (w\<lparr>vw_nodes := vw_nodes w + 1\<rparr>) > max_nodes \<Longrightarrow> within_work w \<Longrightarrow> within_work (w\<lparr>vw_nodes := vw_nodes w + 1\<rparr>)"
  by (simp add: within_work_def max_nodes_def word_less_nat_alt unat_Suc_small)

lemma charge_value_within:
  "charge_value v d w = Inr w' \<Longrightarrow> within_work w \<Longrightarrow> within_work w'"
  "charge_values xs d w = Inr w' \<Longrightarrow> within_work w \<Longrightarrow> within_work w'"
  "charge_members ms d w = Inr w' \<Longrightarrow> within_work w \<Longrightarrow> within_work w'"
proof (induction v d w and xs d w and ms d w arbitrary: w' and w' and w' rule: charge_value_charge_values_charge_members.induct)
  case (1 v depth w)
  from 1(3) have ok: "\<not> vw_nodes (w\<lparr>vw_nodes := vw_nodes w + 1\<rparr>) > max_nodes" "\<not> depth > 64"
    by (auto simp: Let_def split: if_splits)
  note n = node_within[OF ok(1) 1(4)]
  show ?case
    using 1(1,2)[OF refl] 1(3) ok n by (cases v) (auto simp: Let_def split: if_splits intro: charge_within)
next
  case (3 x xs depth w)
  then show ?case by (fastforce simp: rbind_Inr)
next
  case (5 k v ms depth w)
  then show ?case by (fastforce simp: rbind_Inr dest: charge_within)
qed auto

declare charge_value.simps [simp del]

definition keeps_budget :: "('s \<Rightarrow> view_work) \<Rightarrow> ('s \<Rightarrow> 'a \<Rightarrow> 'e + 's) \<Rightarrow> bool" where
  "keeps_budget g f \<longleftrightarrow> (\<forall>s x s'. f s x = Inr s' \<longrightarrow> within_work (g s) \<longrightarrow> within_work (g s'))"

lemma try_fold_within: "keeps_budget g f \<Longrightarrow> try_fold f s xs = Inr s' \<Longrightarrow> within_work (g s) \<Longrightarrow> within_work (g s')"
  by (induction xs arbitrary: s) (auto simp: keeps_budget_def rbind_Inr)

lemma field_within: "field v path w = Inr (x, w') \<Longrightarrow> within_work w \<Longrightarrow> within_work w'"
proof (induction v path w rule: field.induct)
  case (2 v key path w)
  then show ?case using node_within[of w] by (auto simp: Let_def split: if_splits option.splits)
qed simp

lemma matches_within:
  "sel_matches sel v w = Inr (b, w') \<Longrightarrow> within_work w \<Longrightarrow> within_work w'"
  "all_match ts v w = Inr (b, w') \<Longrightarrow> within_work w \<Longrightarrow> within_work w'"
proof (induction sel v w and ts v w arbitrary: b w' and b w' rule: sel_matches_all_match.induct)
  case (2 path wanted v w)
  then show ?case by (auto simp: rbind_Inr dest: field_within)
next
  case (5 t ts v w)
  then show ?case by (fastforce simp: rbind_Inr split: if_splits)
qed auto

lemmas step_within = visit_within charge_within charge_value_within(1) field_within matches_within(1)

lemma confirmed_within: "view_confirmed xs rows w = Inr (rows', w') \<Longrightarrow> within_work w \<Longrightarrow> within_work w'"
proof (induction xs arbitrary: rows w)
  case (Cons x xs)
  obtain q s where x: "x = (q, s)" by fastforce
  from Cons show ?case
    by (cases s) (auto simp: x rbind_Inr split: if_splits dest!: step_within dest: Cons.IH)
qed simp

lemma charge_operation_keeps: "keeps_budget id charge_operation"
proof -
  have "within_work w'" if "charge_operation w op = Inr w'" "within_work w" for w w' op
    using that by (cases op) (auto simp: charge_operation_def rbind_Inr dest!: step_within)
  then show ?thesis by (auto simp: keeps_budget_def)
qed

lemma charge_commit_keeps: "keeps_budget id charge_commit"
  using try_fold_within[OF charge_operation_keeps]
  by (fastforce simp: keeps_budget_def charge_commit_def rbind_Inr dest!: step_within)

lemma visit_keeps: "keeps_budget id (\<lambda>w _. visit True w)"
  by (auto simp: keeps_budget_def dest: visit_within)

lemma overlay_within: "overlay ops rows w = Inr (rows', w') \<Longrightarrow> within_work w \<Longrightarrow> within_work w'"
  by (induction ops arbitrary: rows w) (auto simp: rbind_Inr dest!: step_within)

lemma effective_within:
  assumes "effective rt w = Inr (rows, w')" "within_work w"
  shows "within_work w'"
proof -
  from assms(1) obtain base w1 w2 w3 where run: "view_confirmed (entries (confirmed (rt_state rt))) fmempty w = Inr (base, w1)"
    "try_fold charge_commit w1 (map local_commit (outcomes (rt_state rt)) @ outbox (rt_state rt)) = Inr w2"
    "try_fold (\<lambda>w _. visit True w) w2 (map local_commit (outcomes (rt_state rt)) @ outbox (rt_state rt)) = Inr w3"
    "overlay (optimistic_operations (rt_state rt)) base w3 = Inr (rows, w')"
    by (auto simp: effective_def Let_def rbind_Inr)
  have "within_work w2"
    using try_fold_within[OF charge_commit_keeps run(2)] confirmed_within[OF run(1) assms(2)] by simp
  then have "within_work w3" using try_fold_within[OF visit_keeps run(3)] by simp
  with run(4) show ?thesis by (rule overlay_within)
qed

lemma count_within: "count_loop sel vs n w = Inr (n', w') \<Longrightarrow> within_work w \<Longrightarrow> within_work w'"
  by (induction vs arbitrary: n w) (auto simp: rbind_Inr dest!: step_within)

lemma page_loop_within: "page_loop after sel cap rows selected w = Inr (out, b, w') \<Longrightarrow> within_work w \<Longrightarrow> within_work w'"
  by (induction rows arbitrary: selected w) (auto simp: rbind_Inr dest!: step_within split: if_splits)

lemma project_within: "project_fields v paths w = Inr (out, w') \<Longrightarrow> within_work w \<Longrightarrow> within_work w'"
  by (induction paths arbitrary: w out) (fastforce simp: rbind_Inr dest: step_within split: option.splits)+

lemma page_rows_within: "page_rows projection summary rows w = Inr (out, w') \<Longrightarrow> within_work w \<Longrightarrow> within_work w'"
proof (induction rows arbitrary: w out)
  case (Cons x rows)
  obtain r v where x: "x = (r, v)" by fastforce
  from Cons show ?case by (fastforce simp: x rbind_Inr dest: project_within)
qed simp

lemma summaries_within:
  assumes "summaries vs rt ids w = Inr (summary, w')" "within_work w"
  shows "within_work w'"
proof -
  have pending: "keeps_budget snd (summarize_pending vs ids c)" for ids c
    by (auto simp: keeps_budget_def summarize_pending_def Let_def result_conv split: prod.splits if_splits dest!: step_within)
  have resolved: "keeps_budget snd (summarize_resolved vs ids c)" for ids c
    by (auto simp: keeps_budget_def summarize_resolved_def Let_def result_conv split: prod.splits if_splits option.splits
        dest!: step_within)
  have commit: "keeps_budget snd (summarize_commit vs ids)" for ids
    using try_fold_within[OF pending]
    by (fastforce simp: keeps_budget_def summarize_commit_def result_conv split: prod.splits dest!: visit_within)
  have history: "keeps_budget snd (summarize_history vs ids)" for ids
    using try_fold_within[OF resolved]
    by (fastforce simp: keeps_budget_def summarize_history_def result_conv split: prod.splits dest!: visit_within)
  show ?thesis
    using assms try_fold_within[OF commit] try_fold_within[OF history]
    by (fastforce simp: summaries_def Let_def rbind_Inr)
qed

lemma view_read_work:
  assumes "view_read vs rt j tok input = Inr out"
  shows "member_at ''kind'' out = JString ''stale_cursor'' \<or> (\<exists>w. member_at ''work'' out = work_json w \<and> within_work w)"
proof -
  have count: "\<exists>w. member_at ''work'' out = work_json w \<and> within_work w" if "read_count rt sel meta = Inr out" for sel meta
  proof -
    from that obtain rows w1 n w2 where "effective rt no_work = Inr (rows, w1)"
      "count_loop sel (map snd (entries rows)) 0 w1 = Inr (n, w2)" "member_at ''work'' out = work_json w2"
      by (auto simp: read_count_def result_conv)
    then show ?thesis using effective_within count_within within_no_work by blast
  qed
  have page: "\<exists>w. member_at ''work'' out = work_json w \<and> within_work w"
    if "read_page vs rt j tok sel projection cap meta query after = Inr out" for sel projection cap meta query after
  proof -
    from that obtain rows w1 selected b w2 summary w3 jsons w4 where "effective rt no_work = Inr (rows, w1)"
      "page_loop after sel (unat cap) (entries rows) [] w1 = Inr (selected, b, w2)"
      "summaries vs rt (map fst selected) w2 = Inr (summary, w3)" "page_rows projection summary selected w3 = Inr (jsons, w4)"
      "member_at ''work'' out = work_json w4"
      by (auto simp: read_page_def result_conv)
    then show ?thesis
      using effective_within page_loop_within summaries_within page_rows_within within_no_work by meson
  qed
  from assms obtain request meta query where run: "(case request of
        ViewCount version sel \<Rightarrow> read_count rt sel meta
      | ViewPage version sel projection cap raw \<Rightarrow>
          rbind (cursor_start vs rt j meta query raw) (\<lambda>start.
          case start of
            StaleCursor \<Rightarrow> Inr (JObject (members_of [(''protocolVersion'', JNumber (PosInt 1)),
              (''kind'', JString ''stale_cursor''), (''metadata'', meta)]))
          | StartAfter after \<Rightarrow> read_page vs rt j tok sel projection cap meta query after)) = Inr out"
    unfolding view_read_def by (fastforce simp: rbind_Inr[of "ok_or _ _"] rbind_Inr[of "lifted _"] rbind_Inr[of "metadata_wire _"]
        rbind_Inr[of "page_query _ _"] split: if_splits)
  show ?thesis
  proof (cases request)
    case (ViewPage version sel projection cap raw)
    with run obtain start where "(case start of StaleCursor \<Rightarrow> Inr (JObject (members_of [(''protocolVersion'', JNumber (PosInt 1)),
              (''kind'', JString ''stale_cursor''), (''metadata'', meta)]))
          | StartAfter after \<Rightarrow> read_page vs rt j tok sel projection cap meta query after) = Inr out"
      by (auto simp: rbind_Inr)
    then show ?thesis by (cases start) (auto dest: page)
  qed (use run in \<open>auto dest: count\<close>)
qed

section \<open>A view of two records\<close>

definition shown :: "string \<Rightarrow> json" where
  "shown name = JObject [(''name'', JString name)]"

definition shown_runtime :: "json client_runtime" where
  "shown_runtime = \<lparr>rt_state = (empty_state (PartitionId ''p'') (ClientId ''c'') (ScopeIdentity ''s'') 1)
     \<lparr>confirmed := fmap_of_list [(RecordId ''t:1'', Present (shown ''a'') 1 None), (RecordId ''t:2'', Present (shown ''b'') 1 None)]\<rparr>\<rparr>"

definition shown_meta :: json where
  "shown_meta = JObject (members_of [(''coverage'', JObject []), (''revision'', JNumber (PosInt 0)),
     (''scope'', JObject [(''subscriptionRevision'', JNumber (PosInt 1))])])"

definition shown_cursor :: view_cursor where
  "shown_cursor = \<lparr>vc_token = ''u'', vc_process_epoch = ''e:0'', vc_revision = ''0'',
     vc_scope = JObject [(''subscriptionRevision'', JString ''1'')], vc_query = ''q'', vc_last_record_id = ''t:1''\<rparr>"

definition shown_serde :: view_serde where
  "shown_serde = \<lparr>vs_request = (\<lambda>t. if t = ''one'' then Some (ViewPage 1 SelAll [[''name'']] 1 None)
       else if t = ''two'' then Some (ViewPage 1 SelAll [[''name'']] 1 (Some ''k''))
       else if t = ''count'' then Some (ViewCount 1 (SelEq [''name''] (JString ''b''))) else None),
     vs_metadata = (\<lambda>_. Some shown_meta), vs_query = (\<lambda>_ _ _. Some ''q''),
     vs_cursor = (\<lambda>t. if t = ''k'' then Some shown_cursor else None),
     vs_cursor_text = (\<lambda>c. if c = shown_cursor then Some ''k'' else None),
     vs_identity = (\<lambda>_. None), vs_resolution = (\<lambda>_. None), vs_writer = (\<lambda>_. ([], True))\<rparr>"

definition shown_page :: "string \<Rightarrow> native_fault + json" where
  "shown_page t = view_read shown_serde shown_runtime ((new_journal ''e'')\<lparr>rj_view_cursors := [''k'']\<rparr>) ''u'' t"

lemma shown_entries:
  "entries (confirmed (rt_state shown_runtime)) =
     [(RecordId ''t:1'', Present (shown ''a'') 1 None), (RecordId ''t:2'', Present (shown ''b'') 1 None)]"
  "entries (fmupd (RecordId ''t:2'') (shown ''b'') (fmupd (RecordId ''t:1'') (shown ''a'') fmempty)) =
     [(RecordId ''t:1'', shown ''a''), (RecordId ''t:2'', shown ''b'')]"
  by code_simp+

lemma shown_state: "outcomes (rt_state shown_runtime) = []" "outbox (rt_state shown_runtime) = []"
  "revision (rt_state shown_runtime) = 0" "partition_id (rt_state shown_runtime) = PartitionId ''p''"
  "requested_scope (rt_state shown_runtime) = ScopeIdentity ''s''"
  by (simp_all add: shown_runtime_def empty_state_def)

lemmas work_defs = visit_def charge_def charge_value.simps max_visits_def max_nodes_def max_value_bytes_def

lemma shown_effective:
  "effective shown_runtime no_work = Inr (fmupd (RecordId ''t:2'') (shown ''b'') (fmupd (RecordId ''t:1'') (shown ''a'') fmempty),
     \<lparr>vw_records = 2, vw_operations = 0, vw_nodes = 4, vw_bytes = 16\<rparr>)"
  by (simp add: effective_def shown_entries(1) no_work_def work_defs shown_state optimistic_operations_def List.map_filter_simps
      shown_def)

definition shown_wire :: json where
  "shown_wire = JObject (members_of [(''coverage'', JObject []), (''revision'', JString ''0''),
     (''scope'', JObject [(''subscriptionRevision'', JString ''1'')])])"

lemma shown_metadata: "metadata_wire shown_meta = Inr shown_wire"
  by code_simp

lemma shown_scope: "member_at ''scope'' shown_wire = vc_scope shown_cursor"
  by code_simp

lemma shown_texts: "epoch_value (rj_epoch (new_journal ''e'')) = ''e:0''" "u64_text 0 = ''0''"
  by code_simp+

definition shown_rows :: "(record_id \<times> json) list" where
  "shown_rows = [(RecordId ''t:1'', shown ''a''), (RecordId ''t:2'', shown ''b'')]"

definition shown_work :: view_work where
  "shown_work = \<lparr>vw_records = 4, vw_operations = 0, vw_nodes = 4, vw_bytes = 16\<rparr>"

lemma shown_loops:
  "page_loop None SelAll (Suc 0) shown_rows [] \<lparr>vw_records = 2, vw_operations = 0, vw_nodes = 4, vw_bytes = 16\<rparr>
     = Inr ([(RecordId ''t:1'', shown ''a'')], True, shown_work)"
  "page_loop (Some ''t:1'') SelAll (Suc 0) shown_rows [] \<lparr>vw_records = 2, vw_operations = 0, vw_nodes = 4, vw_bytes = 16\<rparr>
     = Inr ([(RecordId ''t:2'', shown ''b'')], False, shown_work)"
  by (simp_all add: shown_rows_def shown_work_def work_defs)

lemma shown_summaries: "summaries shown_serde shown_runtime ids w = Inr (fold (\<lambda>r. fmupd (record_str r) no_summary) ids fmempty, w)"
  by (simp add: summaries_def shown_state)

lemma shown_projection:
  "\<exists>rows w. page_rows [[''name'']] m [(RecordId ''t:1'', shown ''a'')] shown_work = Inr (rows, w)"
  "\<exists>rows w. page_rows [[''name'']] m [(RecordId ''t:2'', shown ''b'')] shown_work = Inr (rows, w)"
  by (simp_all add: shown_def shown_work_def work_defs tagged_object_def get_member_def wire_tag_def)

lemma shown_cursors:
  "next_cursor shown_serde shown_runtime ((new_journal ''e'')\<lparr>rj_view_cursors := [''k'']\<rparr>) shown_wire ''q'' ''u''
     [(RecordId ''t:1'', shown ''a'')] True = Inr (Some ''k'')"
  "cursor_start shown_serde shown_runtime ((new_journal ''e'')\<lparr>rj_view_cursors := [''k'']\<rparr>) shown_wire ''q'' (Some ''k'')
     = Inr (StartAfter (Some ''t:1''))"
  using shown_texts shown_scope
  by (simp_all add: next_cursor_def cursor_start_def shown_serde_def shown_cursor_def shown_state issued_view_cursor_def new_journal_def)

lemma shown_valid: "path_valid [''name'']"
  by code_simp

lemma shown_request:
  "vs_request shown_serde ''one'' = Some (ViewPage 1 SelAll [[''name'']] 1 None)"
  "vs_request shown_serde ''two'' = Some (ViewPage 1 SelAll [[''name'']] 1 (Some ''k''))"
  "vs_metadata shown_serde m = Some shown_meta" "vs_query shown_serde sel p n = Some ''q''"
  by (simp_all add: shown_serde_def)

lemma shown_view:
  "shown_page ''one'' = read_page shown_serde shown_runtime ((new_journal ''e'')\<lparr>rj_view_cursors := [''k'']\<rparr>) ''u''
     SelAll [[''name'']] 1 shown_wire ''q'' None"
  "shown_page ''two'' = read_page shown_serde shown_runtime ((new_journal ''e'')\<lparr>rj_view_cursors := [''k'']\<rparr>) ''u''
     SelAll [[''name'']] 1 shown_wire ''q'' (Some ''t:1'')"
  by (simp_all add: shown_page_def view_read_def max_view_input_def shown_request lifted_def shown_state shown_metadata
      page_query_def shown_valid shown_cursors(2)) (simp_all add: cursor_start_def)

lemmas shown_runs = shown_view read_page_def shown_effective shown_entries(2) shown_rows_def[symmetric] lifted_def shown_loops
  shown_summaries

lemma shown_first:
  "\<exists>out. shown_page ''one'' = Inr out \<and> member_at ''kind'' out = JString ''page'' \<and> member_at ''nextCursor'' out = JString ''k''"
proof -
  obtain rows w where "page_rows [[''name'']] (fmupd ''t:1'' no_summary fmempty) [(RecordId ''t:1'', shown ''a'')] shown_work = Inr (rows, w)"
    using shown_projection(1) by blast
  then show ?thesis by (simp add: shown_runs shown_cursors(1) del: page_rows.simps)
qed

lemma shown_second:
  "\<exists>out. shown_page ''two'' = Inr out \<and> member_at ''kind'' out = JString ''page'' \<and> member_at ''nextCursor'' out = JNull"
proof -
  obtain rows w where "page_rows [[''name'']] (fmupd ''t:2'' no_summary fmempty) [(RecordId ''t:2'', shown ''b'')] shown_work = Inr (rows, w)"
    using shown_projection(2) by blast
  then show ?thesis by (simp add: shown_runs next_cursor_def del: page_rows.simps)
qed

section \<open>Properties\<close>

text \<open>
  C25: Following the cursors lists the view: a reader who asks for page after page of one
  query until there is no next cursor gets the record ID of every visible record that the
  selector picks, in order, each exactly once; the visible records are those the optimistic
  projection holds as present.
\<close>
theorem paging_complete:
  assumes "paging vs rt sel projection cap None ids"
    and "\<And>c t. vs_cursor_text vs c = Some t \<Longrightarrow> vs_cursor vs t = Some c"
  shows "ids = map (\<lambda>(r, v). JString (record_str r)) (filter (\<lambda>(r, v). selects sel v) (visible_rows (rt_state rt)))"
  using paging_hits[OF assms]
  by (simp add: start_of_def page_hits_def after_start_def id_json_def case_prod_beta)

theorem paging_complete_witness:
  "\<exists>ids. paging shown_serde shown_runtime SelAll [[''name'']] 1 None ids
    \<and> ids = map (\<lambda>(r, v). JString (record_str r)) (filter (\<lambda>(r, v). selects SelAll v) (visible_rows (rt_state shown_runtime)))"
proof -
  obtain one where one: "shown_page ''one'' = Inr one" "member_at ''kind'' one = JString ''page''"
    "member_at ''nextCursor'' one = JString ''k''" using shown_first by blast
  obtain two where two: "shown_page ''two'' = Inr two" "member_at ''kind'' two = JString ''page''"
    "member_at ''nextCursor'' two = JNull" using shown_second by blast
  have "paging shown_serde shown_runtime SelAll [[''name'']] 1 (Some ''k'') (row_ids two)"
    by (rule last_page[OF shown_request(2) two(1)[unfolded shown_page_def] two(2,3)])
  then have run: "paging shown_serde shown_runtime SelAll [[''name'']] 1 None (row_ids one @ row_ids two)"
    by (rule next_page[OF shown_request(1) one(1)[unfolded shown_page_def] one(2,3)])
  have "vs_cursor shown_serde t = Some c" if "vs_cursor_text shown_serde c = Some t" for c t
    using that by (auto simp: shown_serde_def split: if_splits)
  from paging_complete[OF run this] run show ?thesis by blast
qed

text \<open>
  C26: A bounded read stays within its budget: whatever it answers, other than that a cursor
  is stale, it visited at most 16384 records and operations and 65536 nodes and read at most
  4 MiB of values, and it reports that work.
\<close>
theorem view_work_bounded:
  assumes "view_read vs rt j tok input = Inr out" "member_at ''kind'' out \<noteq> JString ''stale_cursor''"
  shows "\<exists>w. member_at ''work'' out = work_json w \<and> unat (vw_records w) + unat (vw_operations w) \<le> 16384
    \<and> unat (vw_nodes w) \<le> 65536 \<and> vw_bytes w \<le> 4 * 1024 * 1024"
  using view_read_work[OF assms(1)] assms(2) unfolding within_work_def by blast

theorem view_work_bounded_witness:
  "\<exists>out w. shown_page ''one'' = Inr out \<and> member_at ''work'' out = work_json w \<and> vw_bytes w \<le> 4 * 1024 * 1024"
proof -
  obtain one where one: "shown_page ''one'' = Inr one" "member_at ''kind'' one = JString ''page''" using shown_first by blast
  from view_work_bounded[OF one(1)[unfolded shown_page_def]] one show ?thesis by auto
qed

end
