(* ===== verification/Native_Properties.thy ===== *)
theory Native_Properties
  imports Native_Runs Store_Properties Native_Bridge Native_Paging
begin

text \<open>
  What an application can rely on when it calls the native client: the calls refine the
  abstract journal, a status that was returned describes what the store holds, a commit
  that was acknowledged is never lost, and a cell that lost track of its store refuses
  every call.  The environment of the client (engine, session, serde, stage checks) is a
  parameter; \<open>demo_env\<close> is one that satisfies the laws.
\<close>

section \<open>A concrete environment\<close>

definition demo_env :: "string native_env" where
  "demo_env =
     \<lparr>ev_bridge = \<lparr>br_lib = bridge_lib, br_ser = rfc_ser, br_sha256 = (\<lambda>_. [])\<rparr>,
      ev_codec = demo_codec, ev_stage = no_stage, ev_barrier_stage = (\<lambda>_ _. tx_lift (Inr ())),
      ev_encoded = length,
      ev_read = \<lparr>snapshot_json = (\<lambda>_. None), batch_json = (\<lambda>_. None), json_text = (\<lambda>_. None),
        parse_json = (\<lambda>_. None), parse_read_cursor = (\<lambda>_. None)\<rparr>,
      ev_query = \<lparr>qs_text = (\<lambda>_. None), qs_parse = (\<lambda>_. None), qs_request_json = (\<lambda>_. None),
        qs_json_request = (\<lambda>_. None), qs_response_json = (\<lambda>_. None), qs_json_response = (\<lambda>_. None),
        qs_snapshot_json = (\<lambda>_. None), qs_cursor = (\<lambda>_. None)\<rparr>,
      ev_sub = \<lparr>request_item = (\<lambda>_. None), item_request = (\<lambda>_. None), response_item = (\<lambda>_. None),
        item_response = (\<lambda>_. None), plan_item = (\<lambda>_ _. None)\<rparr>,
      ev_view = shown_serde, ev_token = (\<lambda>_. ''u''),
      ev_commit = (\<lambda>t. if t = ''c1'' then Some stored_commit else None),
      ev_push = (\<lambda>_. None), ev_pull = (\<lambda>_. None), ev_commit_text = (\<lambda>_. None), ev_outcome_text = (\<lambda>_. None),
      ev_writer = (\<lambda>_. ([], False)), ev_quote = (\<lambda>t. [t]),
      ev_embedded = True, ev_closed = (\<lambda>_. False), ev_session = (\<lambda>_. True), ev_engine = (\<lambda>_. demo_engine),
      ev_schema = (\<lambda>_. Inr ()), ev_tables = (\<lambda>_. Some (set all_tables)),
      ev_record_key = (\<lambda>n. case n of NativeRecord _ (KeyString k) \<Rightarrow> k | _ \<Rightarrow> []), ev_component = (\<lambda>_. None)\<rparr>"

lemma demo_faithful_all: "faithful_codec demo_codec s"
  by (auto simp: faithful_codec_def demo_number_law serde_ok_def)
    (auto simp: demo_codec_def stored_neq split: if_splits)

interpretation demo: native_laws demo_env
proof
  show "faithful_codec (ev_codec demo_env) s" for s by (simp add: demo_env_def demo_faithful_all)
  show "stage_reads (ev_stage demo_env)" by (simp add: demo_env_def no_stage_reads)
  show "fault_monotone (ev_barrier_stage demo_env k a)" "reads_only (ev_barrier_stage demo_env k a)" for k a
    unfolding demo_env_def native_env.simps by (intro tx_intros)+
  show "\<exists>listed. ev_tables demo_env t = Some listed \<and> set all_tables \<subseteq> listed" for t by (simp add: demo_env_def)
qed

definition demo_world :: "string native_world" where
  "demo_world = \<lparr>w_db = demo_db, w_slot = (new_slot ''r'' ''q'')\<lparr>ns_runtime := Some \<lparr>rt_state = stored_before\<rparr>\<rparr>,
     w_phase = Clean, w_poisoned = False, w_tick = 0\<rparr>"

lemma demo_world_stored: "stored_in demo_env demo_key demo_world stored_before"
  by (simp add: stored_in_def demo_env_def demo_world_def demo_stored)

lemma demo_world_free: "free demo_env demo_key demo_world"
  using demo_world_stored by (auto simp: free_def synced_def demo_world_def)

lemma demo_fingerprint:
  "canonical_fingerprint (ev_bridge demo_env) stored_before stored_commit = Inr (Fingerprint ''sha256:'')"
  by code_simp

lemma demo_state_codec: "validate_state_codec (ev_bridge demo_env) stored_after = Inr ()"
  by code_simp

lemma demo_prepared: "prepare_enqueue \<lparr>rt_state = stored_before\<rparr> stored_commit
    = Inr \<lparr>base_revision = 0, prepared_state = stored_after\<rparr>"
  by code_simp

lemma demo_content_native:
  "native_record_id bridge_lib (native_schema demo_env) (RecordId ''task:1'') = Inr (NativeRecord ''task'' (KeyString ''1''))"
  "from_wire_value bridge_lib (JObject []) = Inr (SObject [])"
  "app_only demo_env (RecordId ''task:1'')"
  "\<not> schema_refuses (native_schema demo_env) (NativeRecord ''task'' (KeyString ''1'')) c"
  by code_simp+

lemma demo_applies:
  "\<exists>db'. apply_transition_atomic demo_codec no_stage bridge_lib (native_schema demo_env) demo_engine demo_db stored_before
     stored_after = (Inr Applied, db')"
proof -
  have "\<forall>r \<in> fset (fmdom (optimistic_projection stored_before) |\<union>| fmdom (optimistic_projection stored_after)).
      projectable bridge_lib (native_schema demo_env) (optimistic_projection stored_after) r"
    by (simp add: demo_projections projectable_def demo_content_native)
  with demo_write_prepared demo_stored demo_applicable show ?thesis by (meson transition_applies)
qed

lemma demo_names: "names_only (app_only demo_env) stored_before" "call_on demo_env key (CallEnqueue ''c1'')"
proof -
  show "names_only (app_only demo_env) stored_before"
    by (simp add: names_only_def all_commits_def stored_before_def empty_state_def)
  have "ev_commit demo_env ''c1'' = Some stored_commit" by (simp add: demo_env_def)
  then show "call_on demo_env key (CallEnqueue ''c1'')"
    by (simp add: commit_names_def stored_commit_def demo_content_native)
qed

lemma demo_status: "status \<lparr>rt_state = stored_after\<rparr> = Inr \<lparr>nst_revision = 1, nst_pending_count = 1, nst_outcome_count = 0,
    nst_conflict_count = 0, nst_cursor_epoch = None, nst_cursor_sequence = None\<rparr>"
  by (simp add: status_def u32_try_from_def stored_after_def stored_before_def empty_state_def)

lemma demo_batch: "encode_batch (ev_read demo_env) batch = Inr None"
  by (simp add: encode_batch_def batch_wire_def demo_env_def)

lemmas op_defs = nbind_def nget_def nslot_def nlift_def nreturn_def set_phase_def ensure_session_def session_current_def
  guard_client_def slot_client_def faulting_def

lemma demo_env_fields:
  "ev_closed demo_env t = False" "ev_session demo_env t = True" "ev_engine demo_env t = demo_engine"
  "ev_codec demo_env = demo_codec" "ev_stage demo_env = no_stage" "br_lib (ev_bridge demo_env) = bridge_lib"
  "decode_input (ev_commit demo_env) ''c1'' = Inr stored_commit"
  by (simp_all add: demo_env_def decode_input_def max_sync_state_bytes_def)

lemma demo_enqueues: "\<exists>w. enqueue demo_env ''c1'' demo_world = (Inr \<lparr>nst_revision = 1, nst_pending_count = 1,
    nst_outcome_count = 0, nst_conflict_count = 0, nst_cursor_epoch = None, nst_cursor_sequence = None\<rparr>, w)"
proof -
  obtain db' where applies: "apply_transition_atomic demo_codec no_stage bridge_lib (native_schema demo_env) demo_engine demo_db
      stored_before stored_after = (Inr Applied, db')" using demo_applies by blast
  have same: "with_fingerprint stored_commit (Fingerprint ''sha256:'') = stored_commit" "revision stored_before = 0"
      "revision stored_after = 1" "subscriptions stored_after = None"
    by (simp_all add: with_fingerprint_def stored_commit_def stored_before_def stored_after_def empty_state_def)
  show ?thesis
    by (simp add: enqueue_def run_mutation_def enqueue_owned_def locked_def persist_and_install_def op_defs demo_env_fields demo_world_def
      demo_fingerprint same prepared_op_def demo_prepared demo_state_codec arm_with_state_def apply_prepared_def store_write_def
      applies finish_persist_def settled_mutation_def unknown_outcome_def install_published_def install_with_read_batch_def
      publish_def demo_status journal_record_def demo_batch subscription_record_def new_slot_def split: option.split)
qed

definition demo_status_value :: native_sync_status where
  "demo_status_value = \<lparr>nst_revision = 1, nst_pending_count = 1, nst_outcome_count = 0, nst_conflict_count = 0,
     nst_cursor_epoch = None, nst_cursor_sequence = None\<rparr>"

definition demo_enqueued_world :: "string native_world" where
  "demo_enqueued_world = snd (enqueue demo_env ''c1'' demo_world)"

definition demo_restarted :: "string native_world" where
  "demo_restarted = demo_enqueued_world\<lparr>w_slot := new_slot ''s'' ''t'', w_phase := Clean, w_poisoned := False\<rparr>"

lemma demo_enqueued_run: "enqueue demo_env ''c1'' demo_world = (Inr demo_status_value, demo_enqueued_world)"
  using demo_enqueues by (auto simp: demo_enqueued_world_def demo_status_value_def)

lemma demo_call_run: "exec_call demo_env (CallEnqueue ''c1'') demo_world = (Inr (Some demo_status_value), demo_enqueued_world)"
  by (simp add: returning_def nbind_def nreturn_def demo_enqueued_run)

lemma demo_steps:
  "native_step demo_env demo_key demo_world demo_enqueued_world"
  "(native_step demo_env demo_key)\<^sup>*\<^sup>* demo_enqueued_world demo_restarted"
  by (rule n_call[OF _ demo_names(2) demo_call_run], simp_all add: demo_world_def demo_restarted_def)
    (intro r_into_rtranclp n_restart)

lemma demo_run: "(native_step demo_env demo_key)\<^sup>*\<^sup>* demo_world demo_restarted"
  by (rule converse_rtranclp_into_rtranclp[OF demo_steps])

section \<open>Properties\<close>







text \<open>
  Along every run the stored journal only grows: no commit identity disappears, the
  owner and the requested scope stay, and the revision never decreases.
\<close>
theorem native_journal_grows:
  assumes "native_laws env" "free env key w" "stored_in env key w s" "names_only (app_only env) s"
    and "(native_step env key)\<^sup>*\<^sup>* w w'"
  shows "\<exists>s'. stored_in env key w' s'
    \<and> mset (map identity (all_commits s)) \<subseteq># mset (map identity (all_commits s'))
    \<and> requested_scope s' = requested_scope s \<and> subscription_revision s' = subscription_revision s
    \<and> revision s \<le> revision s'"
  using native_laws.run_grows[OF assms] by (auto simp: grows_def keeps_intent_def same_owner_def)

theorem native_journal_grows_witness:
  "\<exists>s'. stored_in demo_env demo_key demo_restarted s' \<and> requested_scope s' = ScopeIdentity ''scope''"
  using native_journal_grows[OF demo.native_laws_axioms demo_world_free demo_world_stored demo_names(1) demo_run]
  by (auto simp: stored_before_def empty_state_def)

text \<open>
  C11: A cell that lost track of its store stays shut: once it is poisoned every call fails,
  no call changes the tables, and the cell stays poisoned until the process restarts.
\<close>
theorem poisoned_refuses_calls:
  assumes "w_poisoned w"
  shows "\<exists>f w'. exec_call env call w = (Inl f, w') \<and> w_db w' = w_db w \<and> w_poisoned w'"
  using call_refused assms unfolding refuses_def by blast

theorem poisoned_refuses_calls_witness:
  "\<exists>f w'. exec_call demo_env (CallEnqueue ''c1'') (demo_world\<lparr>w_poisoned := True\<rparr>) = (Inl f, w') \<and> w_db w' = demo_db"
  using poisoned_refuses_calls[of "demo_world\<lparr>w_poisoned := True\<rparr>" demo_env "CallEnqueue ''c1''"]
  by (auto simp: demo_world_def)

lemma load_scope_barrier_Inr: "load_scope_barrier en db key = Inr b \<Longrightarrow> fmlookup (db_barriers db) (key_row key) = b"
  by (auto simp: load_scope_barrier_def run_reads_def tx_bind_def tx_select_def tx_call_def tx_lift_def rbind_Inr
      split: if_splits option.splits sum.splits)

lemma returning_Inr: "returning f m w = (Inr x, w') \<Longrightarrow> \<exists>a. m w = (Inr a, w')"
  by (auto simp: returning_def nbind_def nreturn_def split: prod.splits sum.splits)

lemma guarded_read_Inr:
  assumes "locked (nbind (refresh_scope_barrier env) (\<lambda>_. nbind (guard_read_client env) g)) w = (Inr x, w')"
  shows "\<exists>rt. ns_runtime (w_slot w) = Some rt \<and> ns_blocked (w_slot w) = None
    \<and> fmlookup (db_barriers (w_db w)) (key_row (partition_id (rt_state rt), client_id (rt_state rt))) = None"
proof -
  obtain rt where rt: "ns_runtime (w_slot w) = Some rt"
    using assms
    by (cases "ns_runtime (w_slot w)")
      (auto simp: refresh_scope_barrier_def locked_def op_defs split: if_splits)
  show ?thesis
  proof (cases "load_scope_barrier (ev_engine env (w_tick w + 1)) (w_db w) (partition_id (rt_state rt), client_id (rt_state rt))")
    case (Inl e)
    then show ?thesis using assms rt
      by (auto simp: refresh_scope_barrier_def locked_def op_defs store_read_def nfail_def split: if_splits)
  next
    case (Inr b)
    then show ?thesis using assms rt load_scope_barrier_Inr[OF Inr]
      by (cases b)
        (auto simp: refresh_scope_barrier_def locked_def op_defs store_read_def nfail_def guard_read_client_def
          slot_read_client_def split: if_splits option.splits)
  qed
qed

lemma demo_barrier: "load_scope_barrier demo_engine demo_db demo_key = Inr None"
  by code_simp

fun reads_view :: "native_call \<Rightarrow> bool" where
  "reads_view CallSnapshot = True"
| "reads_view (CallChanges c n) = True"
| "reads_view (CallQuerySnapshot i) = True"
| "reads_view (CallQueryChanges i c n) = True"
| "reads_view (CallQueryRequest i) = True"
| "reads_view CallReset = True"
| "reads_view (CallView t) = True"
| "reads_view _ = False"

text \<open>
  C10: No view is read behind a scope barrier: a read of the view or of a query succeeds only
  when the store has no barrier for the client whose runtime is in the cell, and the cell
  is not blocked.
\<close>
theorem reads_respect_barrier:
  assumes "reads_view call" "exec_call env call w = (Inr x, w')"
  shows "\<exists>rt. ns_runtime (w_slot w) = Some rt \<and> ns_blocked (w_slot w) = None
    \<and> fmlookup (db_barriers (w_db w)) (key_row (partition_id (rt_state rt), client_id (rt_state rt))) = None"
  using assms
  by (cases call)
    (auto simp: read_snapshot_json_def read_changes_json_def subscription_snapshot_json_def subscription_changes_json_def
      subscription_request_json_def requires_authorized_reset_def scoped_read_def read_view_json_def
      dest!: returning_Inr dest: guarded_read_Inr)

theorem reads_respect_barrier_witness:
  "\<exists>x w'. exec_call demo_env CallReset demo_world = (Inr x, w')
    \<and> fmlookup (db_barriers (w_db demo_world)) (key_row demo_key) = None"
proof -
  have "\<exists>w'. exec_call demo_env CallReset demo_world = (Inr None, w')"
    by (simp add: requires_authorized_reset_def scoped_read_def refresh_scope_barrier_def returning_def locked_def op_defs
      demo_env_fields demo_world_def store_read_def guard_read_client_def slot_read_client_def new_slot_def demo_keys drop_guard_def
      demo_barrier)
  then obtain w' where run: "exec_call demo_env CallReset demo_world = (Inr None, w')" by blast
  from reads_respect_barrier[OF _ run] run show ?thesis
    by (auto simp: demo_world_def demo_keys)
qed

end
