(* ===== verification/Stage_Store.thy ===== *)
theory Stage_Store
  imports Store_Inspect Native_Codec Bootstrap_Verify
begin

text \<open>
  The store of a staged bootstrap (\<open>crates/surrealdb-rn-core/src/sync_bootstrap_store.rs\<close>):
  a header row and page rows beside a journal's own tables, the inspection that admits
  them, the budgets, and the operations that open a stage, add a page, verify and install
  the whole, report progress and cancel.

  The stage's tables are \<open>stage_tables\<close>; a transaction of this store works on them and, in
  the state of \<open>tx\<close>, on the journal's tables.  An operation of the journal does not write
  rows of a stage, so the guards it calls take them as an argument; a record that the
  journal projects into one of the stage's tables (\<open>native_record_id\<close> does not refuse them)
  is a record of \<open>db_app\<close> here, and what the stage's queries make of it is not modelled.
  Staged pages cannot name a table of the store: \<open>record_reservation\<close> refuses every table
  whose name starts with \<open>_sync_\<close>.  The libraries are the
  fields of \<open>stage_env\<close>: the codecs, the lengths the engine's JSON encoder reports, and the
  tables the engine lists after the schema statements (\<open>None\<close>: the namespace or the database
  does not exist).  Lengths are those of lists in memory, as in \<open>Store_Codec\<close>, so sums of
  them are plain sums.
\<close>

section \<open>Tables\<close>

definition header_table :: string where "header_table = ''_sync_bootstrap_header''"
definition page_table :: string where "page_table = ''_sync_bootstrap_page''"
definition final_overhead :: nat where "final_overhead = 3 * max_sync_state_bytes"

record stage_header =
  sh_format_version :: int
  sh_cancelled :: bool
  sh_incarnation :: string
  sh_start :: "byte list"
  sh_manifest :: "byte list"
  sh_consumed_receipt :: "byte list option"
  sh_consumed_revision :: "string option"

record page_row =
  pg_format_version :: int
  pg_partition_id :: string
  pg_client_id :: string
  pg_index :: string
  pg_payload :: "byte list"

record stage_tables =
  st_schema :: "string set option"
  st_headers :: "(row_id, stage_header) fmap"
  st_pages :: "(row_id, page_row) fmap"

record stage_lengths =
  ln_bytes :: nat
  ln_key_bytes :: nat
  ln_canonical :: bool

record stage =
  sg_header :: stage_header
  sg_manifest :: bootstrap_manifest
  sg_pages :: "(u64, byte list) fmap"

record inspected_stage =
  is_budget :: "nat \<times> nat"
  is_stage :: "stage option"

record 'y stage_env =
  se_codec :: store_codec
  se_bridge :: "'y bridge"
  se_records :: "'y native_scalar record_schema"
  se_de :: deserializer
  se_encoded :: "string \<Rightarrow> nat"
  se_encoded_key :: "string list \<Rightarrow> nat"
  se_define :: "string set option \<Rightarrow> string set option"

type_synonym ('y, 'a) stage_tx = "('y native_scalar, 'a) tx"

definition page_row_id :: "sync_state_key \<Rightarrow> u64 \<Rightarrow> row_id" where
  "page_row_id key index = key_row key @ [u64_text index]"

definition corrupt :: "'e + 'a \<Rightarrow> sync_state_error + 'a" where
  "corrupt r = (case r of Inl _ \<Rightarrow> Inl CorruptState | Inr a \<Rightarrow> Inr a)"

abbreviation se_ser :: "'y stage_env \<Rightarrow> serializer" where
  "se_ser env \<equiv> br_ser (se_bridge env)"

abbreviation se_sha256 :: "'y stage_env \<Rightarrow> byte list \<Rightarrow> byte list" where
  "se_sha256 env \<equiv> br_sha256 (se_bridge env)"

abbreviation se_lib :: "'y stage_env \<Rightarrow> 'y native_lib" where
  "se_lib env \<equiv> br_lib (se_bridge env)"

section \<open>Validation\<close>

definition same_owner :: "bootstrap_context \<Rightarrow> bootstrap_context \<Rightarrow> bool" where
  "same_owner a b \<longleftrightarrow> bx_authority_id a = bx_authority_id b \<and> bx_principal_id a = bx_principal_id b
     \<and> bx_partition_id a = bx_partition_id b \<and> bx_client_id a = bx_client_id b
     \<and> bx_journal_generation a = bx_journal_generation b
     \<and> scope_id (bx_scope a) = scope_id (bx_scope b)
     \<and> scope_subscription_revision (bx_scope a) = scope_subscription_revision (bx_scope b)"

definition admit_context :: "bootstrap_context \<Rightarrow> bootstrap_context \<Rightarrow> bool \<Rightarrow> sync_state_error + unit" where
  "admit_context previous incoming terminal =
     (if \<not> same_owner previous incoming
         \<or> authorization_revision (bx_scope incoming) < authorization_revision (bx_scope previous)
         \<or> (\<not> terminal \<and> previous \<noteq> incoming)
      then Inl RevisionConflict else Inr ())"

definition validate_header ::
  "'y stage_env \<Rightarrow> byte list \<Rightarrow> bootstrap_manifest \<Rightarrow> bootstrap_context \<Rightarrow> sync_state_error + unit" where
  "validate_header env start manifest expected =
     rbind (corrupt (decode_bootstrap_start (se_ser env) (se_de env) start)) (\<lambda>start.
     corrupt (validate_bootstrap_manifest_context (se_ser env) (se_sha256 env) manifest start expected))"

definition validate_page :: "'y stage_env \<Rightarrow> bootstrap_manifest \<Rightarrow> bootstrap_page \<Rightarrow> sync_state_error + unit" where
  "validate_page env manifest page =
     (if bp_session_id page \<noteq> bm_session_id manifest then Inl CorruptState
      else rbind (corrupt (bootstrap_manifest_digest (se_ser env) (se_sha256 env) manifest)) (\<lambda>d.
      if bp_manifest_digest page \<noteq> d \<or> bp_index page \<ge> bm_page_count manifest then Inl CorruptState
      else Inr ()))"

definition decode_page :: "'y stage_env \<Rightarrow> byte list \<Rightarrow> sync_state_error + bootstrap_page" where
  "decode_page env raw = corrupt (decode_bootstrap_page (se_ser env) (se_de env) raw)"

section \<open>Budgets\<close>

definition reserved_state ::
  "'y stage_env \<Rightarrow> canonical_value record_state \<Rightarrow> sync_state_error + json record_state" where
  "reserved_state env state =
     (case state of
        Present value version reference \<Rightarrow>
          (case value of
             VObject _ \<Rightarrow>
               rbind (corrupt (canonical_to_json value (se_lib env))) (\<lambda>value.
               (case from_wire_value (se_lib env) value of
                  Inl e \<Rightarrow> Inl (ValueCodec e)
                | Inr (SObject _) \<Rightarrow> Inr (Present value version reference)
                | Inr _ \<Rightarrow> Inl RecordValueMustBeObject))
           | _ \<Rightarrow> Inl RecordValueMustBeObject)
      | Tombstone version \<Rightarrow> Inr (Tombstone version)
      | Absent \<Rightarrow> Inl CorruptState)"

definition record_reservation ::
  "'y stage_env \<Rightarrow> nat \<Rightarrow> canonical_value snapshot_record \<Rightarrow> sync_state_error + nat" where
  "record_reservation env reserved r =
     rbind (native_record_id (se_lib env) (se_records env) (sr_record_id r)) (\<lambda>native.
     if strip_prefix ''_sync_'' (sx_table (se_records env) native) \<noteq> None then Inl UnsupportedRecordId
     else rbind (reserved_state env (sr_state r)) (\<lambda>state.
     rbind (encode_tagged (se_codec env) (record_value (se_codec env) state)) (\<lambda>payload.
     rbind (encode_tagged (se_codec env) (mapping_value (se_codec env) (sr_record_id r))) (\<lambda>id_bytes.
     Inr (reserved + (length payload + length id_bytes))))))"

definition page_reservation :: "'y stage_env \<Rightarrow> bootstrap_page \<Rightarrow> sync_state_error + nat" where
  "page_reservation env page = try_fold (record_reservation env) 0 (bp_records page)"

definition check_inactive_budget :: "nat \<times> nat \<Rightarrow> sync_state_error + unit" where
  "check_inactive_budget budget =
     (if fst budget + (max_sync_state_bytes + 65536) > max_aggregate_state_bytes
         \<or> snd budget + 4 > max_component_items
      then Inl StateTooLarge else Inr ())"

definition row_key_bytes :: "'y stage_env \<Rightarrow> sync_state_key \<Rightarrow> string \<Rightarrow> sync_state_error + nat" where
  "row_key_bytes env key index =
     rbind (encode_tagged (se_codec env)
              (Some (JArray [JString (partition_str (fst key)), JString (client_str (snd key)), JString index])))
       (\<lambda>bytes. Inr (length bytes))"

record stage_usage =
  us_bytes :: nat
  us_count :: nat
  us_records :: u64
  us_ids :: "record_id set"
  us_last :: "record_id option"

definition order_record ::
  "stage_usage \<Rightarrow> canonical_value snapshot_record \<Rightarrow> sync_state_error + stage_usage" where
  "order_record u r =
     (if sr_record_id r \<in> us_ids u \<or> is_some_and (us_last u) (\<lambda>i. i \<ge> sr_record_id r) then Inl CorruptState
      else Inr (u\<lparr>us_ids := insert (sr_record_id r) (us_ids u), us_last := Some (sr_record_id r)\<rparr>))"

definition page_usage ::
  "'y stage_env \<Rightarrow> sync_state_key \<Rightarrow> bootstrap_manifest \<Rightarrow> stage_usage \<Rightarrow> u64 \<times> byte list \<Rightarrow>
   sync_state_error + stage_usage" where
  "page_usage env key manifest u entry =
     (let index = fst entry; raw = snd entry in
      rbind (decode_page env raw) (\<lambda>page.
      rbind (validate_page env manifest page) (\<lambda>_.
      if bp_index page \<noteq> index then Inl CorruptState
      else rbind (try_fold order_record u (bp_records page)) (\<lambda>u.
      rbind (ok_or StateTooLarge (checked_add (us_records u) (of_nat (length (bp_records page))))) (\<lambda>recs.
      rbind (row_key_bytes env key (u64_text index)) (\<lambda>key_bytes.
      rbind (page_reservation env page) (\<lambda>reservation.
      Inr (u\<lparr>us_records := recs,
             us_bytes := us_bytes u + length raw + reservation + (2 * key_bytes + 128),
             us_count := us_count u + (length (bp_records page) + 1)\<rparr>))))))))"

definition check_budget ::
  "'y stage_env \<Rightarrow> sync_state_key \<Rightarrow> nat \<times> nat \<Rightarrow> stage \<Rightarrow> sync_state_error + unit" where
  "check_budget env key current stage =
     (let header = sg_header stage in
      if sh_cancelled header
      then (if map_len (sg_pages stage) \<noteq> 0 then Inl CorruptState else check_inactive_budget current)
      else
        rbind (try_fold (page_usage env key (sg_manifest stage))
                 \<lparr>us_bytes = 2 * fst current + final_overhead + (length (sh_start header) + length (sh_manifest header)),
                  us_count = 2 * snd current + 4, us_records = 0, us_ids = {}, us_last = None\<rparr>
                 (entries (sg_pages stage))) (\<lambda>u.
        rbind (row_key_bytes env key (u64_text (- 1))) (\<lambda>key_bytes.
        if us_bytes u + key_bytes > max_aggregate_state_bytes \<or> us_count u > max_component_items
           \<or> us_records u > bm_record_count (sg_manifest stage)
        then Inl StateTooLarge else Inr ())))"

definition final_page_usage ::
  "'y stage_env \<Rightarrow> sync_state_key \<Rightarrow> nat \<times> nat \<Rightarrow> u64 \<times> byte list \<Rightarrow> sync_state_error + nat \<times> nat" where
  "final_page_usage env key sizes entry =
     (case row_key_bytes env key (u64_text (fst entry)) of
        Inl _ \<Rightarrow> Inl StateTooLarge
      | Inr key_bytes \<Rightarrow> Inr (fst sizes + length (snd entry) + (2 * key_bytes + 128), snd sizes + 1))"

definition final_budget ::
  "'y stage_env \<Rightarrow> sync_state_key \<Rightarrow> stored_sync_state \<Rightarrow> stored_sync_state \<Rightarrow> stage \<Rightarrow> byte list \<Rightarrow>
   sync_state_error + unit" where
  "final_budget env key current next_state stage receipt =
     rbind (state_budget (se_codec env) current) (\<lambda>current.
     rbind (state_budget (se_codec env) next_state) (\<lambda>next_budget.
     let header = length (sh_start (sg_header stage)) + length (sh_manifest (sg_header stage)) + length receipt in
     if header > max_sync_state_bytes then Inl StateTooLarge
     else rbind (try_fold (final_page_usage env key)
                   (fst current + fst next_budget + final_overhead + header, snd current + snd next_budget + 4)
                   (entries (sg_pages stage))) (\<lambda>(bytes, items).
     if bytes > max_aggregate_state_bytes \<or> items > max_component_items then Inl StateTooLarge else Inr ())))"

section \<open>Inspection\<close>

definition check_barrier :: "sync_state_key \<Rightarrow> ('x, unit) tx" where
  "check_barrier key =
     tx_bind (tx_select (\<lambda>db. fmlookup (db_barriers db) (key_row key))) (\<lambda>barrier.
     tx_lift (if barrier \<noteq> None then Inl RevisionConflict else Inr ()))"

definition header_lengths :: "stage_header \<Rightarrow> stage_lengths" where
  "header_lengths h =
     \<lparr>ln_bytes = length (sh_start h) + length (sh_manifest h)
        + (case sh_consumed_receipt h of None \<Rightarrow> 0 | Some receipt \<Rightarrow> length receipt),
      ln_key_bytes = length (sh_incarnation h)
        + (case sh_consumed_revision h of None \<Rightarrow> 0 | Some r \<Rightarrow> length r),
      ln_canonical = (sh_format_version h = 1
        \<and> (sh_consumed_receipt h = None \<and> sh_consumed_revision h = None
           \<or> sh_consumed_receipt h \<noteq> None \<and> sh_consumed_revision h \<noteq> None \<and> sh_cancelled h))\<rparr>"

definition page_lengths :: "'y stage_env \<Rightarrow> row_id \<times> page_row \<Rightarrow> stage_lengths" where
  "page_lengths env entry =
     (let row = snd entry; row_key = [pg_partition_id row, pg_client_id row, pg_index row] in
      \<lparr>ln_bytes = length (pg_payload row), ln_key_bytes = se_encoded_key env row_key,
       ln_canonical = (pg_format_version row = 1 \<and> fst entry = row_key)\<rparr>)"

definition select_pages :: "stage_tables \<Rightarrow> sync_state_key \<Rightarrow> (row_id \<times> page_row) list" where
  "select_pages st key =
     take (max_component_items + 1)
       (filter (\<lambda>(_, row). pg_partition_id row = partition_str (fst key) \<and> pg_client_id row = client_str (snd key))
         (entries (st_pages st)))"

definition admit_lengths :: "nat \<Rightarrow> stage_lengths \<Rightarrow> sync_state_error + nat" where
  "admit_lengths aggregate row =
     (if \<not> ln_canonical row then Inl CorruptState
      else if ln_bytes row > max_sync_state_bytes \<or> ln_key_bytes row > 12 * 512 + 128 then Inl StateTooLarge
      else Inr (aggregate + ln_bytes row + ln_key_bytes row))"

definition check_consumed :: "stage_header \<Rightarrow> sync_state_error + unit" where
  "check_consumed h =
     (if (sh_consumed_receipt h \<noteq> None) \<noteq> (sh_consumed_revision h \<noteq> None) then Inl CorruptState
      else case sh_consumed_revision h of
        None \<Rightarrow> Inr ()
      | Some r \<Rightarrow> rbind (parse_revision r) (\<lambda>n.
          if n = 0 then Inl CorruptState else if \<not> sh_cancelled h then Inl CorruptState else Inr ()))"

definition check_fence :: "stage_header \<Rightarrow> u64 \<Rightarrow> string option \<Rightarrow> sync_state_error + unit" where
  "check_fence h incarnation fence =
     rbind (ok_or CorruptState fence) (\<lambda>fence.
     rbind (parse_metadata_fence fence) (\<lambda>(counter, active).
     if sh_cancelled h = active \<or> incarnation > counter then Inl CorruptState else Inr ()))"

definition decode_receipt :: "'y stage_env \<Rightarrow> byte list \<Rightarrow> sync_state_error + bootstrap_receipt" where
  "decode_receipt env bytes = corrupt (decode_bootstrap_receipt (se_ser env) (se_de env) bytes)"

definition check_receipt :: "'y stage_env \<Rightarrow> bootstrap_manifest \<Rightarrow> bootstrap_receipt \<Rightarrow> sync_state_error + unit" where
  "check_receipt env manifest receipt =
     corrupt (validate_bootstrap_receipt (se_ser env) (se_sha256 env) manifest receipt)"

definition decode_header ::
  "'y stage_env \<Rightarrow> sync_state_key \<Rightarrow> stage_header \<Rightarrow> bool \<Rightarrow> sync_state_error + bootstrap_manifest" where
  "decode_header env key h has_pages =
     rbind (corrupt (decode_bootstrap_manifest (se_ser env) (se_de env) (sh_manifest h))) (\<lambda>manifest.
     rbind (validate_header env (sh_start h) manifest (bm_context manifest)) (\<lambda>_.
     rbind (case sh_consumed_receipt h of
              None \<Rightarrow> Inr ()
            | Some bytes \<Rightarrow> rbind (decode_receipt env bytes) (check_receipt env manifest)) (\<lambda>_.
     if bx_partition_id (bm_context manifest) \<noteq> fst key \<or> bx_client_id (bm_context manifest) \<noteq> snd key
        \<or> sh_cancelled h \<and> has_pages
     then Inl CorruptState else Inr manifest)))"

definition insert_page ::
  "sync_state_key \<Rightarrow> (u64, byte list) fmap \<Rightarrow> page_row \<Rightarrow> sync_state_error + (u64, byte list) fmap" where
  "insert_page key pages row =
     rbind (parse_revision (pg_index row)) (\<lambda>index.
     if pg_partition_id row \<noteq> partition_str (fst key) \<or> pg_client_id row \<noteq> client_str (snd key)
        \<or> contains_key pages index
     then Inl CorruptState else Inr (fmupd index (pg_payload row) pages))"

definition inspect_stage_with_tables ::
  "'y stage_env \<Rightarrow> stage_tables \<Rightarrow> sync_state_key \<Rightarrow> string set \<Rightarrow> ('y, inspected_stage) stage_tx" where
  "inspect_stage_with_tables env st key tables =
     (if header_table \<notin> tables \<or> page_table \<notin> tables then tx_lift (Inl CorruptState)
      else tx_bind tx_call (\<lambda>_.
      let header = fmlookup (st_headers st) (key_row key); rows = select_pages st key;
        headers = (case header of None \<Rightarrow> [] | Some h \<Rightarrow> [header_lengths h]) in
      tx_bind (preflight_inspection (se_encoded env) tables key) (\<lambda>current.
      tx_bind (tx_lift (try_fold admit_lengths 0 (headers @ map (page_lengths env) rows))) (\<lambda>aggregate.
      if aggregate + fst current > max_aggregate_state_bytes
         \<or> length rows + length headers + snd current > max_component_items
      then tx_lift (Inl StateTooLarge)
      else tx_bind tx_call (\<lambda>_.
      case header of
        None \<Rightarrow> tx_lift (if rows = [] then Inr \<lparr>is_budget = current, is_stage = None\<rparr> else Inl CorruptState)
      | Some h \<Rightarrow>
          tx_bind (tx_lift (check_consumed h)) (\<lambda>_.
          tx_bind (tx_lift (parse_revision (sh_incarnation h))) (\<lambda>incarnation.
          tx_bind (read_fence key) (\<lambda>fence.
          tx_bind (tx_lift (check_fence h incarnation fence)) (\<lambda>_.
          tx_bind (tx_lift (decode_header env key h (rows \<noteq> []))) (\<lambda>manifest.
          tx_bind tx_call (\<lambda>_.
          tx_bind (tx_lift (try_fold (insert_page key) fmempty (map snd rows))) (\<lambda>pages.
          tx_lift (Inr \<lparr>is_budget = current,
            is_stage = Some \<lparr>sg_header = h, sg_manifest = manifest, sg_pages = pages\<rparr>\<rparr>)))))))))))))"

definition inspect_stage ::
  "'y stage_env \<Rightarrow> stage_tables \<Rightarrow> sync_state_key \<Rightarrow> ('y, inspected_stage) stage_tx" where
  "inspect_stage env st key =
     tx_bind tx_call (\<lambda>_.
     case st_schema st of
       None \<Rightarrow> tx_lift (Inl Database)
     | Some tables \<Rightarrow> inspect_stage_with_tables env st key tables)"

definition load_stage :: "'y stage_env \<Rightarrow> stage_tables \<Rightarrow> sync_state_key \<Rightarrow> ('y, stage option) stage_tx" where
  "load_stage env st key = tx_bind (inspect_stage env st key) (\<lambda>inspected. tx_lift (Inr (is_stage inspected)))"

definition transaction_state_after_preflight ::
  "store_codec \<Rightarrow> sync_state_key \<Rightarrow> ('x, stored_sync_state) tx" where
  "transaction_state_after_preflight cd key =
     tx_bind (load_v2 cd key) (\<lambda>state. tx_lift (ok_or CorruptState state))"

text \<open>
  The inspection of the whole physical store: no row of the stage's tables belongs to another
  client, and an occupied stage is one that every other check admits.
\<close>

definition foreign_header :: "sync_state_key \<Rightarrow> row_id \<times> stage_header \<Rightarrow> bool" where
  "foreign_header key entry \<longleftrightarrow> fst entry \<noteq> key_row key"

definition foreign_page :: "sync_state_key \<Rightarrow> row_id \<times> page_row \<Rightarrow> bool" where
  "foreign_page key entry \<longleftrightarrow> (let row = snd entry in
     \<not> (pg_partition_id row = partition_str (fst key) \<and> pg_client_id row = client_str (snd key)
        \<and> length (pg_index row) \<le> 20 \<and> fst entry = key_row key @ [pg_index row]))"

definition scan_owners :: "string set \<Rightarrow> string \<Rightarrow> ('r \<Rightarrow> bool) \<Rightarrow> 'r list \<Rightarrow> ('x, bool) tx" where
  "scan_owners tables table foreign rows =
     (if table \<notin> tables then tx_lift (Inr False)
      else tx_bind tx_call (\<lambda>_. tx_lift (if list_ex foreign rows then Inl CorruptState else Inr (rows \<noteq> []))))"

definition inspect_all_owners ::
  "'y stage_env \<Rightarrow> stage_tables \<Rightarrow> string set \<Rightarrow> sync_state_key \<Rightarrow> ('y, bool) stage_tx" where
  "inspect_all_owners env st tables key =
     (if (header_table \<in> tables) \<noteq> (page_table \<in> tables) then tx_lift (Inl CorruptState)
      else tx_bind (scan_owners tables header_table (foreign_header key) (entries (st_headers st))) (\<lambda>headers.
      tx_bind (scan_owners tables page_table (foreign_page key) (entries (st_pages st))) (\<lambda>pages.
      if \<not> (headers \<or> pages)
      then (if meta_table \<notin> tables then tx_lift (Inr False)
            else tx_bind (read_fence key) (\<lambda>fence. tx_lift (if fence \<noteq> None then Inl CorruptState else Inr False)))
      else tx_bind (inspect_stage_with_tables env st key tables) (\<lambda>inspected.
      tx_lift (rbind (ok_or CorruptState (is_stage inspected)) (\<lambda>stage.
        rbind (for_each (\<lambda>(index, bytes). rbind (decode_page env bytes) (\<lambda>page.
                 if bp_index page \<noteq> index then Inl CorruptState else validate_page env (sg_manifest stage) page))
               (entries (sg_pages stage))) (\<lambda>_. Inr True)))))))"

section \<open>The guards of the journal\<close>

text \<open>What \<open>guard_state_write\<close> and \<open>guard_barrier_write\<close> check against the stage.\<close>

definition state_write_guard :: "'y stage_env \<Rightarrow> stage_tables \<Rightarrow> 'y native_scalar stage_guard" where
  "state_write_guard env st = (\<lambda>key active budget.
     tx_bind (load_stage env st key) (\<lambda>found.
     tx_lift (rbind (ok_or CorruptState found) (\<lambda>stage.
       if sh_cancelled (sg_header stage) = active then Inl CorruptState
       else if active then check_budget env key budget stage
       else check_inactive_budget budget))))"

definition barrier_write_guard ::
  "'y stage_env \<Rightarrow> stage_tables \<Rightarrow> sync_state_key \<Rightarrow> bool \<Rightarrow> ('y, unit) stage_tx" where
  "barrier_write_guard env st = (\<lambda>key active.
     tx_bind (inspect_stage env st key) (\<lambda>inspected.
     tx_bind (tx_lift (ok_or CorruptState (is_stage inspected))) (\<lambda>stage.
     tx_bind (transaction_state_after_preflight (se_codec env) key) (\<lambda>state.
     tx_lift (
       if active then rbind (state_budget (se_codec env) state) (\<lambda>budget. check_budget env key budget stage)
       else if \<not> sh_cancelled (sg_header stage) then Inl CorruptState
       else rbind (state_budget (se_codec env) state) check_inactive_budget)))))"

end
