(* ===== verification/Stage_Operations.thy ===== *)
theory Stage_Operations
  imports Stage_Store
begin

text \<open>
  The operations of the bootstrap store
  (\<open>crates/surrealdb-rn-core/src/sync_bootstrap_store.rs\<close>, \<open>BootstrapStore\<close>).  Each runs one
  transaction over the journal's tables and the stage's tables; it ends like a transaction
  of the journal's store, with the session checked again before the commit.  The readings
  of the clock a completion is given are functions of the number of the check.
\<close>

section \<open>Transactions over both groups of tables\<close>

type_synonym 'y stage_world = "'y native_scalar store_db \<times> stage_tables"

definition finish_stage ::
  "engine \<Rightarrow> 'y stage_world \<Rightarrow> sync_state_error + ('a \<times> stage_tables) \<times> 'y native_scalar tx_state \<Rightarrow>
   (sync_state_error + 'a) \<times> 'y stage_world" where
  "finish_stage en before operation =
     (case rbind operation (\<lambda>r. if en_session en then Inr r else Inl RevisionConflict) of
        Inr ((value, st), s) \<Rightarrow>
          (case en_commit en of
             Committed \<Rightarrow> (Inr value, (tx_db s, st))
           | CommitError applied \<Rightarrow> (Inl CommitUnknown, if applied then (tx_db s, st) else before))
      | Inl e \<Rightarrow> (if en_cancel en then Inl e else Inl (RollbackFailed e), before))"

definition run_stage ::
  "engine \<Rightarrow> 'y stage_world \<Rightarrow> (stage_tables \<Rightarrow> ('y, 'a \<times> stage_tables) stage_tx) \<Rightarrow>
   (sync_state_error + 'a) \<times> 'y stage_world" where
  "run_stage en w body =
     (if \<not> en_core en then (Inl Core, w)
      else if \<not> en_begin en then (Inl Database, w)
      else finish_stage en w (body (snd w) \<lparr>tx_db = fst w, tx_calls = en_calls en\<rparr>))"

text \<open>A transaction that only reads is cancelled, whatever it found.\<close>

definition read_stage ::
  "engine \<Rightarrow> 'y stage_world \<Rightarrow> (stage_tables \<Rightarrow> ('y, 'a) stage_tx) \<Rightarrow> sync_state_error + 'a" where
  "read_stage en w body =
     (if \<not> en_core en then Inl Core
      else if \<not> en_begin en then Inl Database
      else let result = body (snd w) \<lparr>tx_db = fst w, tx_calls = en_calls en\<rparr> in
      if \<not> en_cancel en then Inl Database else rbind result (\<lambda>(a, _). Inr a))"

definition after_check :: "sync_state_error + unit \<Rightarrow> 'w \<Rightarrow> (sync_state_error + 'a) \<times> 'w \<Rightarrow> (sync_state_error + 'a) \<times> 'w" where
  "after_check check w rest = (case check of Inl e \<Rightarrow> (Inl e, w) | Inr _ \<Rightarrow> rest)"

definition context_key :: "bootstrap_context \<Rightarrow> sync_state_key" where
  "context_key x = (bx_partition_id x, bx_client_id x)"

definition put_header :: "sync_state_key \<Rightarrow> stage_header \<Rightarrow> stage_tables \<Rightarrow> ('x, stage_tables) tx" where
  "put_header key h st = tx_bind tx_call (\<lambda>_. tx_lift (Inr (st\<lparr>st_headers := fmupd (key_row key) h (st_headers st)\<rparr>)))"

definition put_page :: "sync_state_key \<Rightarrow> u64 \<Rightarrow> page_row \<Rightarrow> stage_tables \<Rightarrow> ('x, stage_tables) tx" where
  "put_page key index row st = tx_bind tx_call (\<lambda>_. tx_lift (Inr (st\<lparr>st_pages := fmupd (page_row_id key index) row (st_pages st)\<rparr>)))"

fun delete_pages :: "sync_state_key \<Rightarrow> u64 list \<Rightarrow> stage_tables \<Rightarrow> ('x, stage_tables) tx" where
  "delete_pages key [] st = tx_lift (Inr st)"
| "delete_pages key (index # indices) st =
     tx_bind tx_call (\<lambda>_. delete_pages key indices (st\<lparr>st_pages := fmdrop (page_row_id key index) (st_pages st)\<rparr>))"

definition page_indices :: "stage \<Rightarrow> u64 list" where
  "page_indices stage = map fst (entries (sg_pages stage))"

section \<open>Opening a stage\<close>

definition create_barrier :: "sync_state_key \<Rightarrow> scope_barrier \<Rightarrow> ('x, scope_barrier option) tx" where
  "create_barrier key barrier = tx_bind tx_call (\<lambda>_ s.
     if fmlookup (db_barriers (tx_db s)) (key_row key) \<noteq> None then Inl Database
     else Inr (Some barrier, s\<lparr>tx_db := (tx_db s)\<lparr>db_barriers := fmupd (key_row key) barrier (db_barriers (tx_db s))\<rparr>\<rparr>))"

definition delete_barrier :: "sync_state_key \<Rightarrow> ('x, scope_barrier option) tx" where
  "delete_barrier key = tx_bind tx_call (\<lambda>_ s.
     Inr (fmlookup (db_barriers (tx_db s)) (key_row key),
          s\<lparr>tx_db := (tx_db s)\<lparr>db_barriers := fmdrop (key_row key) (db_barriers (tx_db s))\<rparr>\<rparr>))"

definition fence_first_barrier :: "sync_state_key \<Rightarrow> bootstrap_context \<Rightarrow> ('x, unit) tx" where
  "fence_first_barrier key context =
     (let temporary = \<lparr>sb_reason = ''needs_new_scope_journal'',
        sb_required_scope = scope_str (scope_id (bx_scope context)),
        sb_required_subscription_revision = u64_text (scope_subscription_revision (bx_scope context)),
        sb_required_authorization_revision = u64_text (authorization_revision (bx_scope context))\<rparr> in
      tx_bind (check_barrier key) (\<lambda>_.
      tx_bind (create_barrier key temporary) (\<lambda>created.
      tx_bind (delete_barrier key) (\<lambda>deleted.
      tx_bind (tx_select (\<lambda>db. fmlookup (db_barriers db) (key_row key))) (\<lambda>absent.
      tx_lift (if created \<noteq> Some temporary \<or> deleted \<noteq> Some temporary \<or> absent \<noteq> None
               then Inl CorruptState else Inr ()))))))"

definition check_scope :: "stored_sync_state \<Rightarrow> bootstrap_context \<Rightarrow> sync_state_error + unit" where
  "check_scope state expected =
     (if requested_scope state \<noteq> scope_id (bx_scope expected)
         \<or> subscription_revision state \<noteq> scope_subscription_revision (bx_scope expected)
      then Inl CorruptState
      else if is_some_and (checkpoint state)
        (\<lambda>cp. authorization_revision (bx_scope expected) < authorization_revision (scope cp))
      then Inl RevisionConflict else Inr ())"

text \<open>An existing stage: an exact retry returns its incarnation; a closed one may be replaced.\<close>

definition check_existing ::
  "'y stage_env \<Rightarrow> sync_state_key \<Rightarrow> stored_sync_state \<Rightarrow> byte list \<Rightarrow> byte list \<Rightarrow> bootstrap_context \<Rightarrow>
   stage \<Rightarrow> sync_state_error + u64 option" where
  "check_existing env key state start manifest expected existing =
     (let h = sg_header existing in
      rbind (admit_context (bm_context (sg_manifest existing)) expected (sh_cancelled h)) (\<lambda>_.
      rbind (validate_header env (sh_start h) (sg_manifest existing) (bm_context (sg_manifest existing))) (\<lambda>_.
      rbind (rbind (state_budget (se_codec env) state) (\<lambda>budget. check_budget env key budget existing)) (\<lambda>_.
      if sh_cancelled h then (if sh_manifest h = manifest then Inl RevisionConflict else Inr None)
      else rbind (validate_header env (sh_start h) (sg_manifest existing) expected) (\<lambda>_.
      if sh_start h = start \<and> sh_manifest h = manifest
      then rbind (parse_revision (sh_incarnation h)) (\<lambda>n. Inr (Some n))
      else Inl RevisionConflict)))))"

definition next_incarnation :: "string option \<Rightarrow> sync_state_error + u64" where
  "next_incarnation fence =
     rbind (next_fence fence) (\<lambda>f. rbind (parse_metadata_fence f) (\<lambda>(incarnation, _). Inr incarnation))"

definition new_header :: "byte list \<Rightarrow> byte list \<Rightarrow> u64 \<Rightarrow> stage_header" where
  "new_header start manifest incarnation =
     \<lparr>sh_format_version = 1, sh_cancelled = False, sh_incarnation = u64_text incarnation,
      sh_start = start, sh_manifest = manifest, sh_consumed_receipt = None, sh_consumed_revision = None\<rparr>"

text \<open>Everything a beginning checks: the journal's state, and the incarnation of an exact retry.\<close>

definition begin_checks ::
  "'y stage_env \<Rightarrow> byte list \<Rightarrow> byte list \<Rightarrow> bootstrap_manifest \<Rightarrow> bootstrap_context \<Rightarrow> stage_tables \<Rightarrow>
   ('y, stored_sync_state \<times> u64 option) stage_tx" where
  "begin_checks env start manifest decoded expected st =
     (let key = context_key expected in
      tx_bind (inspect_stage env st key) (\<lambda>inspection.
      if is_stage inspection = None
         \<and> (2 * fst (is_budget inspection) + final_overhead + (length start + length manifest) > max_aggregate_state_bytes
            \<or> 2 * snd (is_budget inspection) + 4 > max_component_items)
      then tx_lift (Inl StateTooLarge)
      else tx_bind (transaction_state_after_preflight (se_codec env) key) (\<lambda>state.
      tx_bind (check_barrier key) (\<lambda>_.
      tx_bind (read_fence key) (\<lambda>fence.
      tx_bind (if fence = None then fence_first_barrier key (bm_context decoded) else tx_lift (Inr ())) (\<lambda>_.
      tx_bind (tx_lift (check_scope state expected)) (\<lambda>_.
      tx_bind (tx_lift (case is_stage inspection of
                 None \<Rightarrow> Inr None
               | Some existing \<Rightarrow> check_existing env key state start manifest expected existing)) (\<lambda>retry.
      tx_lift (Inr (state, retry))))))))))"

definition open_stage ::
  "'y stage_env \<Rightarrow> sync_state_key \<Rightarrow> byte list \<Rightarrow> byte list \<Rightarrow> bootstrap_manifest \<Rightarrow> stored_sync_state \<Rightarrow>
   stage_tables \<Rightarrow> ('y, u64 \<times> stage_tables) stage_tx" where
  "open_stage env key start manifest decoded state st =
     tx_bind (read_fence key) (\<lambda>fence.
     tx_bind (tx_lift (next_incarnation fence)) (\<lambda>incarnation.
     let header = new_header start manifest incarnation in
     tx_bind (tx_lift (rbind (state_budget (se_codec env) state) (\<lambda>budget.
       check_budget env key budget \<lparr>sg_header = header, sg_manifest = decoded, sg_pages = fmempty\<rparr>))) (\<lambda>_.
     tx_bind (put_header key header st) (\<lambda>st.
     tx_bind (write_fence key (u64_text incarnation @ '':a'')) (\<lambda>_.
     tx_lift (Inr (incarnation, st)))))))"

definition begin_body ::
  "'y stage_env \<Rightarrow> byte list \<Rightarrow> byte list \<Rightarrow> bootstrap_manifest \<Rightarrow> bootstrap_context \<Rightarrow> stage_tables \<Rightarrow>
   ('y, u64 \<times> stage_tables) stage_tx" where
  "begin_body env start manifest decoded expected st =
     (let st = st\<lparr>st_schema := se_define env (st_schema st)\<rparr> in
      tx_bind tx_call (\<lambda>_.
      tx_bind (begin_checks env start manifest decoded expected st) (\<lambda>(state, retry).
      case retry of
        Some incarnation \<Rightarrow> tx_lift (Inr (incarnation, st))
      | None \<Rightarrow> open_stage env (context_key expected) start manifest decoded state st)))"

definition begin_stage ::
  "'y stage_env \<Rightarrow> engine \<Rightarrow> byte list \<Rightarrow> byte list \<Rightarrow> bootstrap_context \<Rightarrow> 'y stage_world \<Rightarrow>
   (sync_state_error + u64) \<times> 'y stage_world" where
  "begin_stage env en start manifest expected w =
     after_check (validate_key (context_key expected)) w
     (case corrupt (decode_bootstrap_manifest (se_ser env) (se_de env) manifest) of
        Inl e \<Rightarrow> (Inl e, w)
      | Inr decoded \<Rightarrow>
          after_check (validate_header env start decoded expected) w
          (if length start + length manifest > max_sync_state_bytes then (Inl StateTooLarge, w)
           else run_stage en w (begin_body env start manifest decoded expected)))"

section \<open>Adding a page\<close>

definition check_incarnation :: "stage_header \<Rightarrow> u64 \<Rightarrow> sync_state_error + unit" where
  "check_incarnation h incarnation =
     rbind (parse_revision (sh_incarnation h)) (\<lambda>n. if n \<noteq> incarnation then Inl RevisionConflict else Inr ())"

definition page_row_of :: "sync_state_key \<Rightarrow> u64 \<Rightarrow> byte list \<Rightarrow> page_row" where
  "page_row_of key index raw =
     \<lparr>pg_format_version = 1, pg_partition_id = partition_str (fst key), pg_client_id = client_str (snd key),
      pg_index = u64_text index, pg_payload = raw\<rparr>"

definition add_page ::
  "'y stage_env \<Rightarrow> sync_state_key \<Rightarrow> byte list \<Rightarrow> bootstrap_page \<Rightarrow> string \<Rightarrow> stage \<Rightarrow> stage_tables \<Rightarrow>
   ('y, unit \<times> stage_tables) stage_tx" where
  "add_page env key raw page fence stage st =
     tx_bind (transaction_state_after_preflight (se_codec env) key) (\<lambda>state.
     tx_bind (tx_lift (rbind (state_budget (se_codec env) state) (\<lambda>budget.
       check_budget env key budget (stage\<lparr>sg_pages := fmupd (bp_index page) raw (sg_pages stage)\<rparr>)))) (\<lambda>_.
     tx_bind (put_page key (bp_index page) (page_row_of key (bp_index page) raw) st) (\<lambda>st.
     tx_bind (tx_lift (next_fence (Some fence))) (\<lambda>f.
     tx_bind (write_fence key f) (\<lambda>_. tx_lift (Inr ((), st)))))))"

definition page_body ::
  "'y stage_env \<Rightarrow> byte list \<Rightarrow> bootstrap_page \<Rightarrow> bootstrap_context \<Rightarrow> u64 \<Rightarrow> stage_tables \<Rightarrow>
   ('y, unit \<times> stage_tables) stage_tx" where
  "page_body env raw page expected incarnation st =
     (let key = context_key expected in
      tx_bind (read_fence key) (\<lambda>found.
      tx_bind (tx_lift (ok_or CorruptState found)) (\<lambda>fence.
      tx_bind (inspect_stage env st key) (\<lambda>inspection.
      tx_bind (tx_lift (ok_or CorruptState (is_stage inspection))) (\<lambda>stage.
      tx_bind (tx_lift (validate_header env (sh_start (sg_header stage)) (sg_manifest stage) expected)) (\<lambda>_.
      tx_bind (tx_lift (check_incarnation (sg_header stage) incarnation)) (\<lambda>_.
      if sh_cancelled (sg_header stage) then tx_lift (Inl RevisionConflict)
      else tx_bind (check_barrier key) (\<lambda>_.
      tx_bind (tx_lift (validate_page env (sg_manifest stage) page)) (\<lambda>_.
      case fmlookup (sg_pages stage) (bp_index page) of
        Some old \<Rightarrow> tx_lift (if old = raw then Inr ((), st) else Inl RevisionConflict)
      | None \<Rightarrow> add_page env key raw page fence stage st)))))))))"

definition stage_page ::
  "'y stage_env \<Rightarrow> engine \<Rightarrow> byte list \<Rightarrow> bootstrap_context \<Rightarrow> u64 \<Rightarrow> 'y stage_world \<Rightarrow>
   (sync_state_error + unit) \<times> 'y stage_world" where
  "stage_page env en raw expected incarnation w =
     after_check (validate_key (context_key expected)) w
     (case decode_page env raw of
        Inl e \<Rightarrow> (Inl e, w)
      | Inr page \<Rightarrow>
          (case page_reservation env page of
             Inl e \<Rightarrow> (Inl e, w)
           | Inr _ \<Rightarrow> run_stage en w (page_body env raw page expected incarnation)))"

section \<open>Completion\<close>

record completion_clock =
  cc_now :: "nat \<Rightarrow> nat"
  cc_deadline :: nat
  cc_utc_seconds :: "nat \<Rightarrow> sync_state_error + u64"

text \<open>Instants count nanoseconds.\<close>

definition clock_check :: "completion_clock \<Rightarrow> nat \<Rightarrow> u64 \<Rightarrow> sync_state_error + unit" where
  "clock_check clock k expires_at =
     (if cc_now clock k \<ge> cc_deadline clock \<or> cc_deadline clock - cc_now clock k > 30 * 10 ^ 9
      then Inl RevisionConflict
      else rbind (cc_utc_seconds clock k) (\<lambda>utc. if utc \<ge> expires_at then Inl RevisionConflict else Inr ()))"

datatype completion = AppliedSnapshot stored_sync_state | HistoricalSuccess

definition staged_record ::
  "'y stage_env \<Rightarrow> canonical_value snapshot_record \<Rightarrow> sync_state_error + json snapshot_record" where
  "staged_record env r =
     rbind (case sr_state r of
              Present value version reference \<Rightarrow>
                rbind (corrupt (canonical_to_json value (se_lib env))) (\<lambda>value. Inr (Present value version reference))
            | Tombstone version \<Rightarrow> Inr (Tombstone version)
            | Absent \<Rightarrow> Inl CorruptState)
       (\<lambda>state. Inr \<lparr>sr_record_id = sr_record_id r, sr_state = state\<rparr>)"

record completing =
  co_verifier :: bootstrap_verifier
  co_records :: "json snapshot_record list"
  co_checks :: nat

definition complete_page ::
  "'y stage_env \<Rightarrow> completion_clock \<Rightarrow> u64 \<Rightarrow> completing \<Rightarrow> byte list \<Rightarrow> sync_state_error + completing" where
  "complete_page env clock expires_at c raw =
     rbind (clock_check clock (co_checks c) expires_at) (\<lambda>_.
     rbind (decode_page env raw) (\<lambda>page.
     rbind (corrupt (verifier_push (se_ser env) (se_sha256 env) (co_verifier c) page)) (\<lambda>verifier.
     rbind (page_reservation env page) (\<lambda>_.
     rbind (try_map (staged_record env) (bp_records page)) (\<lambda>rows.
     Inr \<lparr>co_verifier = verifier, co_records = co_records c @ rows, co_checks = Suc (co_checks c)\<rparr>)))))"

text \<open>The part of a completion between the first check of the clock and the first write.\<close>

definition prepare_completion ::
  "'y stage_env \<Rightarrow> completion_clock \<Rightarrow> sync_state_key \<Rightarrow> byte list \<Rightarrow> bootstrap_receipt \<Rightarrow> stage \<Rightarrow>
   stored_sync_state \<Rightarrow> sync_state_error + stored_sync_state \<times> nat" where
  "prepare_completion env clock key receipt_bytes receipt stage current =
     (let manifest = sg_manifest stage; expires_at = bm_expires_at manifest in
      rbind (rbind (state_budget (se_codec env) current) (\<lambda>budget. check_budget env key budget stage)) (\<lambda>_.
      rbind (corrupt (verifier_new (se_ser env) (se_sha256 env) manifest)) (\<lambda>verifier.
      rbind (try_fold (complete_page env clock expires_at)
               \<lparr>co_verifier = verifier, co_records = [], co_checks = 1\<rparr> (map snd (entries (sg_pages stage)))) (\<lambda>c.
      rbind (corrupt (verifier_finish (se_sha256 env) (co_verifier c))) (\<lambda>_.
      rbind (clock_check clock (co_checks c) expires_at) (\<lambda>_.
      rbind (case open_runtime current of Inl e \<Rightarrow> Inl (InvalidState e) | Inr rt \<Rightarrow> Inr rt) (\<lambda>rt.
      rbind (case prepare_bootstrap_snapshot rt (br_checkpoint receipt) (co_records c) of
               Inl e \<Rightarrow> Inl (InvalidState e) | Inr p \<Rightarrow> Inr (prepared_state p)) (\<lambda>next_state.
      rbind (corrupt (validate_state_codec (se_bridge env) next_state)) (\<lambda>_.
      rbind (final_budget env key current next_state stage receipt_bytes) (\<lambda>_.
      Inr (next_state, Suc (co_checks c))))))))))))"

definition apply_transition_in_transaction ::
  "'y stage_env \<Rightarrow> stage_tables \<Rightarrow> stored_sync_state \<Rightarrow> stored_sync_state \<Rightarrow> ('y, sync_state_write) stage_tx" where
  "apply_transition_in_transaction env st current next_state =
     tx_bind (tx_lift (prepare_state_write (se_codec env) (Some (revision current)) next_state)) (\<lambda>(key, rows).
     transition_body (se_codec env) (state_write_guard env st) (se_lib env) (se_records env) key current next_state rows)"

definition close_fence :: "sync_state_key \<Rightarrow> string option \<Rightarrow> ('x, unit) tx" where
  "close_fence key fence =
     tx_bind (tx_lift (next_incarnation fence)) (\<lambda>n. write_fence key (u64_text n @ '':i''))"

definition check_marker :: "byte list \<Rightarrow> string \<Rightarrow> stage_header option \<Rightarrow> sync_state_error + unit" where
  "check_marker receipt_bytes rev_text marker =
     rbind (ok_or CorruptState marker) (\<lambda>h.
     if sh_consumed_receipt h \<noteq> Some receipt_bytes \<or> sh_consumed_revision h \<noteq> Some rev_text \<or> \<not> sh_cancelled h
     then Inl CorruptState else Inr ())"

definition install_stage ::
  "'y stage_env \<Rightarrow> sync_state_key \<Rightarrow> byte list \<Rightarrow> stage \<Rightarrow> stored_sync_state \<Rightarrow> stored_sync_state \<Rightarrow>
   stage_tables \<Rightarrow> ('y, stage_tables) stage_tx" where
  "install_stage env key receipt_bytes stage current next_state st =
     tx_bind tx_call (\<lambda>_.
     tx_bind (apply_transition_in_transaction env st current next_state) (\<lambda>_.
     tx_bind (delete_pages key (page_indices stage) st) (\<lambda>st.
     tx_bind (put_header key ((sg_header stage)\<lparr>sh_cancelled := True, sh_consumed_receipt := Some receipt_bytes,
                sh_consumed_revision := Some (u64_text (revision next_state))\<rparr>) st) (\<lambda>st.
     tx_bind (tx_lift (check_marker receipt_bytes (u64_text (revision next_state))
                (fmlookup (st_headers st) (key_row key)))) (\<lambda>_.
     tx_bind (read_fence key) (\<lambda>fence.
     tx_bind (close_fence key fence) (\<lambda>_. tx_lift (Inr st))))))))"

text \<open>A stage that was installed before is only recalled; an open one is verified and installed.\<close>

definition recall_completion ::
  "'y stage_env \<Rightarrow> sync_state_key \<Rightarrow> byte list \<Rightarrow> stage \<Rightarrow> byte list \<Rightarrow> stage_tables \<Rightarrow>
   ('y, completion \<times> stage_tables) stage_tx" where
  "recall_completion env key receipt_bytes stage consumed st =
     (if consumed \<noteq> receipt_bytes then tx_lift (Inl RevisionConflict)
      else tx_bind (transaction_state_after_preflight (se_codec env) key) (\<lambda>current.
      tx_lift (rbind (ok_or CorruptState (sh_consumed_revision (sg_header stage))) (\<lambda>rev_text.
        rbind (parse_revision rev_text) (\<lambda>n.
        if revision current < n then Inl CorruptState else Inr (HistoricalSuccess, st))))))"

definition perform_completion ::
  "'y stage_env \<Rightarrow> completion_clock \<Rightarrow> sync_state_key \<Rightarrow> byte list \<Rightarrow> bootstrap_receipt \<Rightarrow> stage \<Rightarrow>
   stage_tables \<Rightarrow> ('y, completion \<times> stage_tables) stage_tx" where
  "perform_completion env clock key receipt_bytes receipt stage st =
     tx_bind (check_barrier key) (\<lambda>_.
     tx_bind (tx_lift (clock_check clock 0 (bm_expires_at (sg_manifest stage)))) (\<lambda>_.
     tx_bind (transaction_state_after_preflight (se_codec env) key) (\<lambda>current.
     tx_bind (tx_lift (prepare_completion env clock key receipt_bytes receipt stage current)) (\<lambda>(next_state, k).
     tx_bind (install_stage env key receipt_bytes stage current next_state st) (\<lambda>st.
     tx_bind (tx_lift (clock_check clock k (bm_expires_at (sg_manifest stage)))) (\<lambda>_.
     tx_lift (Inr (AppliedSnapshot next_state, st))))))))"

definition complete_in_transaction ::
  "'y stage_env \<Rightarrow> completion_clock \<Rightarrow> byte list \<Rightarrow> bootstrap_receipt \<Rightarrow> bootstrap_context \<Rightarrow> u64 \<Rightarrow>
   stage_tables \<Rightarrow> ('y, completion \<times> stage_tables) stage_tx" where
  "complete_in_transaction env clock receipt_bytes receipt expected incarnation st =
     (let key = context_key expected in
      tx_bind (inspect_stage env st key) (\<lambda>inspection.
      tx_bind (tx_lift (ok_or CorruptState (is_stage inspection))) (\<lambda>stage.
      tx_bind (tx_lift (validate_header env (sh_start (sg_header stage)) (sg_manifest stage) expected)) (\<lambda>_.
      tx_bind (tx_lift (check_incarnation (sg_header stage) incarnation)) (\<lambda>_.
      tx_bind (tx_lift (check_receipt env (sg_manifest stage) receipt)) (\<lambda>_.
      case sh_consumed_receipt (sg_header stage) of
        Some consumed \<Rightarrow> recall_completion env key receipt_bytes stage consumed st
      | None \<Rightarrow>
          if sh_cancelled (sg_header stage) then tx_lift (Inl RevisionConflict)
          else perform_completion env clock key receipt_bytes receipt stage st))))))"

definition complete_stage ::
  "'y stage_env \<Rightarrow> engine \<Rightarrow> completion_clock \<Rightarrow> byte list \<Rightarrow> bootstrap_context \<Rightarrow> u64 \<Rightarrow> 'y stage_world \<Rightarrow>
   (sync_state_error + completion) \<times> 'y stage_world" where
  "complete_stage env en clock receipt_bytes expected incarnation w =
     after_check (validate_key (context_key expected)) w
     (if length receipt_bytes > max_sync_state_bytes then (Inl StateTooLarge, w)
      else case decode_receipt env receipt_bytes of
        Inl e \<Rightarrow> (Inl e, w)
      | Inr receipt \<Rightarrow> run_stage en w (complete_in_transaction env clock receipt_bytes receipt expected incarnation))"

section \<open>Cancelling\<close>

definition close_stage :: "sync_state_key \<Rightarrow> string \<Rightarrow> stage \<Rightarrow> stage_tables \<Rightarrow> ('x, unit \<times> stage_tables) tx" where
  "close_stage key fence stage st =
     tx_bind (delete_pages key (page_indices stage) st) (\<lambda>st.
     tx_bind (put_header key ((sg_header stage)\<lparr>sh_cancelled := True\<rparr>) st) (\<lambda>st.
     tx_bind (close_fence key (Some fence)) (\<lambda>_. tx_lift (Inr ((), st)))))"

definition cancel_in_transaction ::
  "'y stage_env \<Rightarrow> byte list \<Rightarrow> bootstrap_context \<Rightarrow> u64 \<Rightarrow> stage_tables \<Rightarrow> ('y, unit \<times> stage_tables) stage_tx" where
  "cancel_in_transaction env manifest expected incarnation st =
     (let key = context_key expected in
      tx_bind (read_fence key) (\<lambda>found.
      case found of
        None \<Rightarrow> tx_lift (Inr ((), st))
      | Some fence \<Rightarrow>
          tx_bind (load_stage env st key) (\<lambda>loaded_stage.
          case loaded_stage of
            None \<Rightarrow> tx_lift (Inr ((), st))
          | Some stage \<Rightarrow>
              tx_bind (tx_lift (validate_header env (sh_start (sg_header stage)) (sg_manifest stage) expected)) (\<lambda>_.
              tx_bind (tx_lift (check_incarnation (sg_header stage) incarnation)) (\<lambda>_.
              if sh_manifest (sg_header stage) \<noteq> manifest then tx_lift (Inl RevisionConflict)
              else if sh_consumed_receipt (sg_header stage) \<noteq> None then tx_lift (Inr ((), st))
              else close_stage key fence stage st)))))"

definition cancel_stage ::
  "'y stage_env \<Rightarrow> engine \<Rightarrow> byte list \<Rightarrow> bootstrap_context \<Rightarrow> u64 \<Rightarrow> 'y stage_world \<Rightarrow>
   (sync_state_error + unit) \<times> 'y stage_world" where
  "cancel_stage env en manifest expected incarnation w =
     after_check (validate_key (context_key expected)) w
     (run_stage en w (cancel_in_transaction env manifest expected incarnation))"

section \<open>Reading a stage\<close>

datatype stage_state = Staging | Cancelled | Consumed u64

record stage_inventory =
  sv_incarnation :: u64
  sv_state :: stage_state
  sv_indices :: "u64 list"
  sv_expected_pages :: u64

definition stage_state_of :: "stage_header \<Rightarrow> sync_state_error + stage_state" where
  "stage_state_of h =
     (case sh_consumed_revision h of
        Some r \<Rightarrow> rbind (parse_revision r) (\<lambda>n. Inr (Consumed n))
      | None \<Rightarrow> Inr (if sh_cancelled h then Cancelled else Staging))"

definition resume_body ::
  "'y stage_env \<Rightarrow> byte list option \<Rightarrow> bootstrap_context \<Rightarrow> u64 option \<Rightarrow> stage_tables \<Rightarrow>
   ('y, stage_inventory option) stage_tx" where
  "resume_body env manifest expected incarnation st =
     (let key = context_key expected;
        unless_fenced = tx_bind (read_fence key) (\<lambda>fence. tx_lift (if fence \<noteq> None then Inl CorruptState else Inr None)) in
      tx_bind tx_call (\<lambda>_.
      case st_schema st of
        None \<Rightarrow> tx_lift (Inr None)
      | Some tables \<Rightarrow>
          if header_table \<notin> tables \<and> page_table \<notin> tables
          then (if meta_table \<in> tables then unless_fenced else tx_lift (Inr None))
          else tx_bind (inspect_stage env st key) (\<lambda>inspected.
          case is_stage inspected of
            None \<Rightarrow> unless_fenced
          | Some stage \<Rightarrow>
              let h = sg_header stage; persisted = bm_context (sg_manifest stage) in
              tx_bind (tx_lift (admit_context persisted expected (manifest = None \<and> sh_cancelled h))) (\<lambda>_.
              tx_bind (tx_lift (validate_header env (sh_start h) (sg_manifest stage) persisted)) (\<lambda>_.
              tx_bind (tx_lift (parse_revision (sh_incarnation h))) (\<lambda>current_incarnation.
              if is_some_and manifest (\<lambda>m. sh_manifest h \<noteq> m)
                 \<or> is_some_and incarnation (\<lambda>n. n \<noteq> current_incarnation)
              then tx_lift (Inl RevisionConflict)
              else tx_bind (transaction_state_after_preflight (se_codec env) key) (\<lambda>current.
              tx_lift (
                rbind (rbind (state_budget (se_codec env) current) (\<lambda>budget. check_budget env key budget stage)) (\<lambda>_.
                rbind (stage_state_of h) (\<lambda>state.
                Inr (Some \<lparr>sv_incarnation = current_incarnation, sv_state = state,
                  sv_indices = page_indices stage, sv_expected_pages = bm_page_count (sg_manifest stage)\<rparr>)))))))))))"

definition resume ::
  "'y stage_env \<Rightarrow> engine \<Rightarrow> byte list option \<Rightarrow> bootstrap_context \<Rightarrow> u64 option \<Rightarrow> 'y stage_world \<Rightarrow>
   sync_state_error + stage_inventory option" where
  "resume env en manifest expected incarnation w =
     rbind (validate_key (context_key expected)) (\<lambda>_.
     rbind (case manifest of
              None \<Rightarrow> Inr ()
            | Some bytes \<Rightarrow>
                if length bytes > max_sync_state_bytes then Inl StateTooLarge
                else rbind (corrupt (decode_bootstrap_manifest (se_ser env) (se_de env) bytes)) (\<lambda>incoming.
                if bm_context incoming \<noteq> expected then Inl CorruptState else Inr ())) (\<lambda>_.
     read_stage en w (resume_body env manifest expected incarnation)))"

definition progress_body ::
  "'y stage_env \<Rightarrow> bootstrap_context \<Rightarrow> u64 \<Rightarrow> stage_tables \<Rightarrow> ('y, u64 list option) stage_tx" where
  "progress_body env expected incarnation st =
     (let key = context_key expected in
      tx_bind (read_fence key) (\<lambda>fence.
      if fence = None then tx_lift (Inr None)
      else tx_bind (inspect_stage env st key) (\<lambda>inspection.
      case is_stage inspection of
        None \<Rightarrow> tx_lift (Inr None)
      | Some stage \<Rightarrow>
          tx_bind (tx_lift (validate_header env (sh_start (sg_header stage)) (sg_manifest stage) expected)) (\<lambda>_.
          tx_bind (tx_lift (check_incarnation (sg_header stage) incarnation)) (\<lambda>_.
          if sh_cancelled (sg_header stage) then tx_lift (Inr None)
          else tx_bind (transaction_state_after_preflight (se_codec env) key) (\<lambda>state.
          tx_lift (rbind (state_budget (se_codec env) state) (\<lambda>budget.
            rbind (check_budget env key budget stage) (\<lambda>_. Inr (Some (page_indices stage)))))))))))"

definition progress ::
  "'y stage_env \<Rightarrow> engine \<Rightarrow> bootstrap_context \<Rightarrow> u64 \<Rightarrow> 'y stage_world \<Rightarrow> sync_state_error + u64 list option" where
  "progress env en expected incarnation w =
     rbind (validate_key (context_key expected)) (\<lambda>_.
     read_stage en w (progress_body env expected incarnation))"

end
