(* ===== verification/Stage_Effects.thy ===== *)
theory Stage_Effects
  imports Stage_Operations Client_Snapshot
begin

text \<open>
  What one operation of the bootstrap store does to the tables: inspection admits exactly
  the rows of one stage, reading never writes, and an operation that ends well has one of a
  few effects.
\<close>

section \<open>Reading\<close>

lemma tx_call_tx [tx_intros]: "fault_monotone tx_call" "reads_only tx_call"
  by (auto simp: fault_monotone_def reads_only_def dest!: tx_call_Inr)

lemma read_fence_tx [tx_intros]: "fault_monotone (read_fence key)" "reads_only (read_fence key)"
  unfolding read_fence_def by (intro tx_intros)+

lemma check_barrier_tx [tx_intros]: "fault_monotone (check_barrier key)" "reads_only (check_barrier key)"
  unfolding check_barrier_def by (intro tx_intros)+

lemma state_after_preflight_tx [tx_intros]:
  "fault_monotone (transaction_state_after_preflight cd key)" "reads_only (transaction_state_after_preflight cd key)"
  unfolding transaction_state_after_preflight_def by (intro tx_intros)+

lemmas [tx_intros] = preflight_reads

lemma inspect_stage_tx [tx_intros]:
  "fault_monotone (inspect_stage env st key)" "reads_only (inspect_stage env st key)"
  unfolding inspect_stage_def inspect_stage_with_tables_def Let_def
  by (auto intro!: tx_intros split: option.splits)

lemma inspect_all_owners_tx:
  "fault_monotone (inspect_all_owners env st tables key)" "reads_only (inspect_all_owners env st tables key)"
proof -
  have t: "fault_monotone (inspect_stage_with_tables env st key tables)" "reads_only (inspect_stage_with_tables env st key tables)"
    unfolding inspect_stage_with_tables_def Let_def by (auto intro!: tx_intros split: option.splits)
  show "fault_monotone (inspect_all_owners env st tables key)" "reads_only (inspect_all_owners env st tables key)"
    unfolding inspect_all_owners_def scan_owners_def by (auto intro!: tx_intros t)
qed

lemma load_stage_tx [tx_intros]: "fault_monotone (load_stage env st key)" "reads_only (load_stage env st key)"
  unfolding load_stage_def by (intro tx_intros)+

text \<open>The guards of the journal satisfy the law its store relies on.\<close>

lemma state_write_guard_reads: "stage_reads (state_write_guard env st)"
  unfolding stage_reads_def state_write_guard_def by (intro allI conjI tx_intros)

lemma barrier_write_guard_tx:
  "fault_monotone (barrier_write_guard env st key active)" "reads_only (barrier_write_guard env st key active)"
  unfolding barrier_write_guard_def by (intro tx_intros)+

section \<open>Rows of a stage\<close>

definition db_fence :: "sync_state_key \<Rightarrow> 'x store_db \<Rightarrow> string option" where
  "db_fence key db = Option.bind (fmlookup (db_meta db) (key_row key)) (\<lambda>row. map_option (take 24) (mr_bootstrap_fence row))"

lemma read_fence_Inr:
  assumes "read_fence key s = Inr (fence, s')"
  shows "fence = db_fence key (tx_db s)" "tx_db s' = tx_db s"
    and "fence = Some v \<Longrightarrow> \<exists>c a. parse_metadata_fence v = Inr (c, a)"
  using assms unfolding read_fence_def db_fence_def tx_select_def
  by (auto simp: tx_bind_Inr tx_lift_Inr rbind_Inr dest!: tx_call_Inr split: option.splits)

definition stored_page :: "stage_tables \<Rightarrow> sync_state_key \<Rightarrow> u64 \<Rightarrow> byte list option" where
  "stored_page st key index =
     (case fmlookup (st_pages st) (page_row_id key index) of
        None \<Rightarrow> None
      | Some row \<Rightarrow>
          if pg_partition_id row = partition_str (fst key) \<and> pg_client_id row = client_str (snd key)
          then Some (pg_payload row) else None)"

lemma insert_pages:
  assumes "try_fold (insert_page key) m rows = Inr pages"
  shows "fmlookup pages i = Some p \<longleftrightarrow>
    fmlookup m i = Some p \<or> (\<exists>row \<in> set rows. parse_revision (pg_index row) = Inr i \<and> pg_payload row = p)"
  using assms
proof (induction rows arbitrary: m)
  case (Cons row rows)
  from Cons.prems obtain j where j: "parse_revision (pg_index row) = Inr j" "\<not> contains_key m j"
    and rest: "try_fold (insert_page key) (fmupd j (pg_payload row) m) rows = Inr pages"
    by (auto simp: insert_page_def[of key m row] rbind_Inr split: if_splits)
  from j(2) have "fmlookup m j = None" by (auto simp: contains_key_def)
  with Cons.IH[OF rest] j(1) show ?case by auto
qed simp

lemma admit_fold_canonical:
  "try_fold admit_lengths a rows = Inr b \<Longrightarrow> row \<in> set rows \<Longrightarrow> ln_canonical row"
  by (drule (1) try_fold_each) (auto simp: admit_lengths_def split: if_splits)

text \<open>The rows an inspection has admitted are all the rows of the client, each under its own ID.\<close>

lemma stage_pages_stored:
  assumes "length (select_pages st key) \<le> max_component_items"
    and "\<forall>x \<in> set (select_pages st key). ln_canonical (page_lengths env x)"
    and "try_fold (insert_page key) fmempty (map snd (select_pages st key)) = Inr pages"
  shows "fmlookup pages i = stored_page st key i"
proof -
  let ?owned = "\<lambda>(_, row). pg_partition_id row = partition_str (fst key) \<and> pg_client_id row = client_str (snd key)"
  have all: "set (select_pages st key) = {x. x \<in> set (entries (st_pages st)) \<and> ?owned x}"
    using assms(1) unfolding select_pages_def by (auto simp: min_def split: if_splits)
  have id: "x = page_row_id key i" if "(x, row) \<in> set (select_pages st key)" "parse_revision (pg_index row) = Inr i" for x row i
    using that assms(2) all parse_revision_Inr[OF that(2)]
    by (auto simp: page_lengths_def Let_def page_row_id_def key_row_def)
  have parsed: "\<exists>j. parse_revision (pg_index row) = Inr j" if "(x, row) \<in> set (select_pages st key)" for x row
    using try_fold_each[OF assms(3)] that by (force simp: insert_page_def rbind_Inr)
  have "fmlookup pages i = Some p \<longleftrightarrow> stored_page st key i = Some p" for p
  proof
    assume "fmlookup pages i = Some p"
    then obtain x row where "(x, row) \<in> set (select_pages st key)" "parse_revision (pg_index row) = Inr i" "pg_payload row = p"
      by (auto simp: insert_pages[OF assms(3)])
    with id[of x row i] all show "stored_page st key i = Some p"
      by (auto simp: stored_page_def in_entries)
  next
    assume "stored_page st key i = Some p"
    then obtain row where row: "fmlookup (st_pages st) (page_row_id key i) = Some row" "?owned (page_row_id key i, row)" "pg_payload row = p"
      by (auto simp: stored_page_def split: option.splits if_splits)
    then have mem: "(page_row_id key i, row) \<in> set (select_pages st key)" using all by (auto simp: in_entries)
    then have "pg_index row = u64_text i"
      using assms(2) by (auto simp: page_lengths_def Let_def page_row_id_def key_row_def)
    then show "fmlookup pages i = Some p" using mem row(3) by (force simp: insert_pages[OF assms(3)])
  qed
  then show ?thesis by (metis option.exhaust)
qed

section \<open>What an inspection found\<close>

definition stage_found :: "'y stage_env \<Rightarrow> 'x store_db \<Rightarrow> stage_tables \<Rightarrow> sync_state_key \<Rightarrow> stage \<Rightarrow> bool" where
  "stage_found env db st key stage \<longleftrightarrow>
     fmlookup (st_headers st) (key_row key) = Some (sg_header stage)
     \<and> (\<exists>inc fence counter. parse_revision (sh_incarnation (sg_header stage)) = Inr inc \<and> db_fence key db = Some fence
          \<and> parse_metadata_fence fence = Inr (counter, \<not> sh_cancelled (sg_header stage)) \<and> inc \<le> counter)
     \<and> check_consumed (sg_header stage) = Inr ()
     \<and> corrupt (decode_bootstrap_manifest (se_ser env) (se_de env) (sh_manifest (sg_header stage))) = Inr (sg_manifest stage)
     \<and> (sh_cancelled (sg_header stage) \<longrightarrow> sg_pages stage = fmempty)
     \<and> (\<forall>i. fmlookup (sg_pages stage) i = stored_page st key i)"

lemma select_pages_empty:
  "select_pages st key = [] \<Longrightarrow> stored_page st key i = None"
  by (auto simp: select_pages_def filter_empty_conv in_entries stored_page_def split: option.splits)

lemma inspect_tables_found:
  assumes "inspect_stage_with_tables env st key tables s = Inr (inspected, s')"
  shows "case is_stage inspected of
      None \<Rightarrow> fmlookup (st_headers st) (key_row key) = None \<and> (\<forall>i. stored_page st key i = None)
    | Some stage \<Rightarrow> stage_found env (tx_db s) st key stage"
proof -
  let ?rows = "select_pages st key"
  let ?headers = "case fmlookup (st_headers st) (key_row key) of None \<Rightarrow> [] | Some h \<Rightarrow> [header_lengths h]"
  from assms obtain s1 current s2 aggregate s3 where s1: "tx_call s = Inr ((), s1)"
    and s2: "preflight_inspection (se_encoded env) tables key s1 = Inr (current, s2)"
    and lengths: "try_fold admit_lengths 0 (?headers @ map (page_lengths env) ?rows) = Inr aggregate"
    and small: "length ?rows + length ?headers + snd current \<le> max_component_items"
    and s3: "tx_call s2 = Inr ((), s3)"
    and rest: "(case fmlookup (st_headers st) (key_row key) of
        None \<Rightarrow> tx_lift (if ?rows = [] then Inr \<lparr>is_budget = current, is_stage = None\<rparr> else Inl CorruptState)
      | Some h \<Rightarrow>
          tx_bind (tx_lift (check_consumed h)) (\<lambda>_.
          tx_bind (tx_lift (parse_revision (sh_incarnation h))) (\<lambda>incarnation.
          tx_bind (read_fence key) (\<lambda>fence.
          tx_bind (tx_lift (check_fence h incarnation fence)) (\<lambda>_.
          tx_bind (tx_lift (decode_header env key h (?rows \<noteq> []))) (\<lambda>manifest.
          tx_bind tx_call (\<lambda>_.
          tx_bind (tx_lift (try_fold (insert_page key) fmempty (map snd ?rows))) (\<lambda>pages.
          tx_lift (Inr \<lparr>is_budget = current,
            is_stage = Some \<lparr>sg_header = h, sg_manifest = manifest, sg_pages = pages\<rparr>\<rparr>))))))))) s3 = Inr (inspected, s')"
    unfolding inspect_stage_with_tables_def Let_def tx_bind_Inr tx_lift_Inr
    by (auto simp: tx_bind_Inr tx_lift_Inr split: if_splits)
  have db: "tx_db s3 = tx_db s"
    using tx_call_Inr[OF s1] tx_call_Inr[OF s3] reads_onlyD[OF preflight_reads(1) s2] by simp
  have canonical: "\<forall>x \<in> set ?rows. ln_canonical (page_lengths env x)"
    using admit_fold_canonical[OF lengths] by auto
  show ?thesis
  proof (cases "fmlookup (st_headers st) (key_row key)")
    case None
    with rest show ?thesis by (auto simp: tx_lift_Inr select_pages_empty split: if_splits)
  next
    case (Some h)
    with rest obtain incarnation fence s4 manifest s5 pages where
      p: "check_consumed h = Inr ()" "parse_revision (sh_incarnation h) = Inr incarnation"
        "read_fence key s3 = Inr (fence, s4)" "check_fence h incarnation fence = Inr ()"
        "decode_header env key h (?rows \<noteq> []) = Inr manifest"
        "try_fold (insert_page key) fmempty (map snd ?rows) = Inr pages"
        "is_stage inspected = Some \<lparr>sg_header = h, sg_manifest = manifest, sg_pages = pages\<rparr>"
      by (auto simp: tx_bind_Inr tx_lift_Inr)
    have "\<forall>i. fmlookup pages i = stored_page st key i"
      using stage_pages_stored[OF _ canonical p(6)] small by simp
    moreover have "sh_cancelled h \<longrightarrow> pages = fmempty"
      using p(5,6) by (auto simp: decode_header_def rbind_Inr split: if_splits)
    moreover have "corrupt (decode_bootstrap_manifest (se_ser env) (se_de env) (sh_manifest h)) = Inr manifest"
      using p(5) by (auto simp: decode_header_def rbind_Inr split: if_splits)
    moreover have "\<exists>v counter. db_fence key (tx_db s) = Some v
        \<and> parse_metadata_fence v = Inr (counter, \<not> sh_cancelled h) \<and> incarnation \<le> counter"
      using p(4) read_fence_Inr(1)[OF p(3)] db
      by (auto simp: check_fence_def rbind_Inr ok_or_Inr not_less split: if_splits)
    ultimately show ?thesis using p(1,2,7) Some by (simp add: stage_found_def)
  qed
qed

lemma inspect_stage_found:
  assumes "inspect_stage env st key s = Inr (inspected, s')"
  shows "tx_db s' = tx_db s"
    and "is_stage inspected = Some stage \<Longrightarrow> stage_found env (tx_db s) st key stage"
    and "is_stage inspected = None \<Longrightarrow> fmlookup (st_headers st) (key_row key) = None \<and> (\<forall>i. stored_page st key i = None)"
proof -
  show "tx_db s' = tx_db s" by (rule reads_onlyD[OF inspect_stage_tx(2) assms])
  from assms obtain s0 tables where s0: "tx_db s0 = tx_db s"
    and i: "inspect_stage_with_tables env st key tables s0 = Inr (inspected, s')"
    by (auto simp: inspect_stage_def tx_bind_Inr tx_lift_Inr split: option.splits dest!: tx_call_Inr)
  from inspect_tables_found[OF i] s0
  show "is_stage inspected = Some stage \<Longrightarrow> stage_found env (tx_db s) st key stage"
    "is_stage inspected = None \<Longrightarrow> fmlookup (st_headers st) (key_row key) = None \<and> (\<forall>i. stored_page st key i = None)"
    by auto
qed

section \<open>Operations without faults\<close>

lemma run_stage_cases:
  assumes "run_stage en (db, st) body = (r, w')" "fault_monotone (body st)"
  shows "w' = (db, st) \<and> (\<forall>a. r \<noteq> Inr a)
    \<or> (\<exists>a st' s'. body st \<lparr>tx_db = db, tx_calls = None\<rparr> = Inr ((a, st'), s') \<and> w' = (tx_db s', st')
         \<and> (r = Inr a \<or> r = Inl CommitUnknown))"
proof -
  let ?s = "\<lparr>tx_db = db, tx_calls = en_calls en\<rparr>"
  have s: "unlimited ?s = \<lparr>tx_db = db, tx_calls = None\<rparr>" by (simp add: unlimited_def)
  show ?thesis
  proof (cases "body st ?s")
    case (Inl e)
    with assms(1) show ?thesis by (auto simp: run_stage_def finish_stage_def split: if_splits)
  next
    case (Inr as)
    obtain a st' s' where as: "as = ((a, st'), s')" by (metis prod.exhaust)
    from Inr as have "body st \<lparr>tx_db = db, tx_calls = None\<rparr> = Inr ((a, st'), unlimited s')"
      using fault_monotoneD[OF assms(2), of ?s "(a, st')" s'] s by simp
    with assms(1) Inr as show ?thesis
      by (auto simp: run_stage_def finish_stage_def split: if_splits commit_end.splits)
  qed
qed

lemma put_tx [tx_intros]:
  "fault_monotone (put_header key h st)" "reads_only (put_header key h st)"
  "fault_monotone (put_page key i row st)" "reads_only (put_page key i row st)"
  unfolding put_header_def put_page_def by (intro tx_intros)+

lemma delete_pages_tx [tx_intros]: "fault_monotone (delete_pages key indices st)" "reads_only (delete_pages key indices st)"
  by (induction indices arbitrary: st) (auto intro: tx_intros)

lemma put_effects:
  "put_header key h st s = Inr (st', s') \<Longrightarrow> st' = st\<lparr>st_headers := fmupd (key_row key) h (st_headers st)\<rparr> \<and> tx_db s' = tx_db s"
  "put_page key i row st s = Inr (st', s') \<Longrightarrow> st' = st\<lparr>st_pages := fmupd (page_row_id key i) row (st_pages st)\<rparr> \<and> tx_db s' = tx_db s"
  by (auto simp: put_header_def put_page_def tx_bind_Inr tx_lift_Inr dest!: tx_call_Inr)

lemma delete_pages_effect:
  assumes "delete_pages key indices st s = Inr (st', s')"
  shows "st' = st\<lparr>st_pages := fold (\<lambda>i. fmdrop (page_row_id key i)) indices (st_pages st)\<rparr> \<and> tx_db s' = tx_db s"
  using assms by (induction indices arbitrary: st s) (fastforce simp: tx_bind_Inr tx_lift_Inr dest!: tx_call_Inr)+

lemma barrier_tx [tx_intros]: "fault_monotone (create_barrier key b)" "fault_monotone (delete_barrier key)"
  unfolding create_barrier_def delete_barrier_def fault_monotone_def tx_bind_Inr
  by (auto simp: tx_bind_def split: if_splits dest!: tx_call_Inr)

lemma write_fence_tx [tx_intros]: "fault_monotone (write_fence key f)"
  unfolding write_fence_def by (intro tx_intros)

lemma fence_first_barrier_tx [tx_intros]: "fault_monotone (fence_first_barrier key x)"
  unfolding fence_first_barrier_def Let_def by (intro tx_intros)

lemma close_fence_tx [tx_intros]: "fault_monotone (close_fence key fence)"
  unfolding close_fence_def by (intro tx_intros)

lemma transition_in_transaction_tx [tx_intros]:
  "fault_monotone (apply_transition_in_transaction env st current next_state)"
  unfolding apply_transition_in_transaction_def
  by (auto intro!: tx_intros transition_monotone state_write_guard_reads split: prod.splits)

lemma install_stage_tx [tx_intros]: "fault_monotone (install_stage env key bytes stage current next_state st)"
  unfolding install_stage_def by (intro tx_intros)

lemma begin_parts_tx [tx_intros]:
  "fault_monotone (begin_checks env start manifest decoded expected st)"
  "fault_monotone (open_stage env key start manifest decoded state st)"
  unfolding begin_checks_def open_stage_def Let_def by (auto intro!: tx_intros split: option.splits)

lemma begin_body_tx: "fault_monotone (begin_body env start manifest decoded expected st)"
  unfolding begin_body_def Let_def by (auto intro!: tx_intros split: option.splits)

lemma page_body_tx: "fault_monotone (page_body env raw page expected incarnation st)"
  unfolding page_body_def add_page_def Let_def by (auto intro!: tx_intros split: option.splits)

lemma recall_completion_tx [tx_intros]:
  "fault_monotone (recall_completion env key bytes stage consumed st)"
  "reads_only (recall_completion env key bytes stage consumed st)"
  unfolding recall_completion_def by (auto intro!: tx_intros)

lemma perform_completion_tx [tx_intros]: "fault_monotone (perform_completion env clock key bytes receipt stage st)"
  unfolding perform_completion_def by (auto intro!: tx_intros split: prod.splits)

lemma complete_body_tx: "fault_monotone (complete_in_transaction env clock bytes receipt expected incarnation st)"
  unfolding complete_in_transaction_def Let_def by (auto intro!: tx_intros split: option.splits)

lemma cancel_body_tx: "fault_monotone (cancel_in_transaction env manifest expected incarnation st)"
  unfolding cancel_in_transaction_def close_stage_def Let_def by (auto intro!: tx_intros split: option.splits)

text \<open>The row that opens a stage leaves the barrier table as it was.\<close>

lemma fence_first_barrier_effect:
  assumes "fence_first_barrier key x s = Inr (u, s')"
  shows "tx_db s' = tx_db s"
proof -
  have "fmlookup (db_barriers (tx_db s)) (key_row key) = None"
    using assms by (auto simp: fence_first_barrier_def Let_def check_barrier_def tx_select_def tx_bind_Inr tx_lift_Inr
        dest!: tx_call_Inr split: if_splits)
  then have "fmdrop (key_row key) (fmupd (key_row key) b (db_barriers (tx_db s))) = db_barriers (tx_db s)" for b
    by (intro fmap_ext) auto
  with assms show ?thesis
    by (auto simp: fence_first_barrier_def Let_def check_barrier_def create_barrier_def delete_barrier_def tx_select_def
        tx_bind_Inr tx_lift_Inr dest!: tx_call_Inr split: if_splits)
qed

end
