(* ===== verification/Stage_Attempts.thy ===== *)
theory Stage_Attempts
  imports Stage_Effects
begin

text \<open>
  The bootstrap store as a sequence of attempts.  An attempt is opened under a new
  incarnation, takes pages one by one, and ends installed or closed; the rows of the stage
  represent one attempt per client.  Every operation of the store, on every outcome of the
  engine, leaves the attempt of each client as it is or makes the one step its name stands for.
\<close>

section \<open>Attempts\<close>

datatype attempt =
    NoAttempt
  | OpenAttempt u64 "byte list" "u64 \<rightharpoonup> byte list"
  | ClosedAttempt u64 "byte list"
  | InstalledAttempt u64 "byte list" "byte list"

fun attempt_incarnation :: "attempt \<Rightarrow> u64" where
  "attempt_incarnation NoAttempt = 0"
| "attempt_incarnation (OpenAttempt n m pages) = n"
| "attempt_incarnation (ClosedAttempt n m) = n"
| "attempt_incarnation (InstalledAttempt n m receipt) = n"

fun ended :: "attempt \<Rightarrow> bool" where
  "ended (OpenAttempt n m pages) = False"
| "ended a = True"

definition incarnation_of :: "stage_header \<Rightarrow> u64" where
  "incarnation_of h = (case parse_revision (sh_incarnation h) of Inl _ \<Rightarrow> 0 | Inr n \<Rightarrow> n)"

definition attempt_of :: "stage_tables \<Rightarrow> sync_state_key \<Rightarrow> attempt" where
  "attempt_of st key =
     (case fmlookup (st_headers st) (key_row key) of
        None \<Rightarrow> NoAttempt
      | Some h \<Rightarrow>
          (case sh_consumed_receipt h of
             Some receipt \<Rightarrow> InstalledAttempt (incarnation_of h) (sh_manifest h) receipt
           | None \<Rightarrow>
               if sh_cancelled h then ClosedAttempt (incarnation_of h) (sh_manifest h)
               else OpenAttempt (incarnation_of h) (sh_manifest h) (stored_page st key)))"

datatype stage_call =
    CallBegin "byte list" "byte list" bootstrap_context
  | CallPage "byte list" bootstrap_context u64
  | CallComplete completion_clock "byte list" bootstrap_context u64
  | CallCancel "byte list" bootstrap_context u64

fun call_context :: "stage_call \<Rightarrow> bootstrap_context" where
  "call_context (CallBegin start manifest x) = x"
| "call_context (CallPage raw x n) = x"
| "call_context (CallComplete clock receipt x n) = x"
| "call_context (CallCancel manifest x n) = x"

fun call_stage :: "'y stage_env \<Rightarrow> engine \<Rightarrow> stage_call \<Rightarrow> 'y stage_world \<Rightarrow> bool \<times> 'y stage_world" where
  "call_stage env en (CallBegin start manifest x) w = map_prod (\<lambda>r. \<not> isl r) id (begin_stage env en start manifest x w)"
| "call_stage env en (CallPage raw x n) w = map_prod (\<lambda>r. \<not> isl r) id (stage_page env en raw x n w)"
| "call_stage env en (CallComplete clock receipt x n) w =
     map_prod (\<lambda>r. \<not> isl r) id (complete_stage env en clock receipt x n w)"
| "call_stage env en (CallCancel manifest x n) w = map_prod (\<lambda>r. \<not> isl r) id (cancel_stage env en manifest x n w)"

inductive attempt_step :: "stage_call \<Rightarrow> attempt \<Rightarrow> attempt \<Rightarrow> bool" where
  opened: "ended a \<Longrightarrow> attempt_incarnation a < n \<Longrightarrow>
    attempt_step (CallBegin start m x) a (OpenAttempt n m Map.empty)"
| staged: "pages i = None \<Longrightarrow> attempt_step (CallPage raw x n) (OpenAttempt n m pages) (OpenAttempt n m (pages(i \<mapsto> raw)))"
| installed: "attempt_step (CallComplete clock receipt x n) (OpenAttempt n m pages) (InstalledAttempt n m receipt)"
| closed: "attempt_step (CallCancel m x n) (OpenAttempt n m pages) (ClosedAttempt n m)"

inductive_cases attempt_stepE: "attempt_step c a b"

section \<open>Rows and attempts\<close>

lemma page_row_id_inject [simp]: "page_row_id key i = page_row_id key' j \<longleftrightarrow> key = key' \<and> i = j"
  using decimal_inject by (auto simp: page_row_id_def u64_text_def unsigned_word_eqI)

lemma attempt_cong:
  assumes "fmlookup (st_headers st) (key_row key) = fmlookup (st_headers st') (key_row key)"
    and "\<And>i. fmlookup (st_pages st) (page_row_id key i) = fmlookup (st_pages st') (page_row_id key i)"
  shows "attempt_of st key = attempt_of st' key"
proof -
  have "stored_page st key = stored_page st' key" using assms(2) by (simp add: stored_page_def fun_eq_iff)
  with assms(1) show ?thesis by (auto simp: attempt_of_def split: option.splits)
qed

lemma attempt_schema [simp]: "attempt_of (st\<lparr>st_schema := t\<rparr>) key = attempt_of st key"
  by (rule attempt_cong) simp_all

lemma drop_pages_lookup:
  "fmlookup (fold (\<lambda>i. fmdrop (page_row_id key i)) indices pages) x =
     (if \<exists>i \<in> set indices. x = page_row_id key i then None else fmlookup pages x)"
  by (induction indices arbitrary: pages) auto

text \<open>The attempt of a stage that an inspection found.\<close>

lemma found_attempt:
  assumes "stage_found env db st key stage"
  shows "attempt_of st key =
      (case sh_consumed_receipt (sg_header stage) of
         Some receipt \<Rightarrow> InstalledAttempt (incarnation_of (sg_header stage)) (sh_manifest (sg_header stage)) receipt
       | None \<Rightarrow>
           if sh_cancelled (sg_header stage)
           then ClosedAttempt (incarnation_of (sg_header stage)) (sh_manifest (sg_header stage))
           else OpenAttempt (incarnation_of (sg_header stage)) (sh_manifest (sg_header stage)) (fmlookup (sg_pages stage)))"
    and "sh_consumed_receipt (sg_header stage) \<noteq> None \<Longrightarrow> sh_cancelled (sg_header stage)"
    and "check_incarnation (sg_header stage) n = Inr () \<Longrightarrow> incarnation_of (sg_header stage) = n"
proof -
  have "fmlookup (sg_pages stage) = stored_page st key" using assms by (auto simp: stage_found_def)
  then show "attempt_of st key =
      (case sh_consumed_receipt (sg_header stage) of
         Some receipt \<Rightarrow> InstalledAttempt (incarnation_of (sg_header stage)) (sh_manifest (sg_header stage)) receipt
       | None \<Rightarrow>
           if sh_cancelled (sg_header stage)
           then ClosedAttempt (incarnation_of (sg_header stage)) (sh_manifest (sg_header stage))
           else OpenAttempt (incarnation_of (sg_header stage)) (sh_manifest (sg_header stage)) (fmlookup (sg_pages stage)))"
    using assms by (auto simp: stage_found_def attempt_of_def split: option.splits)
  show "sh_consumed_receipt (sg_header stage) \<noteq> None \<Longrightarrow> sh_cancelled (sg_header stage)"
    using assms by (auto simp: stage_found_def check_consumed_def rbind_Inr split: if_splits option.splits)
  show "check_incarnation (sg_header stage) n = Inr () \<Longrightarrow> incarnation_of (sg_header stage) = n"
    by (auto simp: check_incarnation_def incarnation_of_def rbind_Inr split: if_splits)
qed

section \<open>Fences\<close>

lemma split_fence: "c \<notin> set xs \<Longrightarrow> split_once c (xs @ c # ys) = Some (xs, ys)"
  by (induction xs) auto

lemma parse_fence_text [simp]:
  "parse_metadata_fence (u64_text n @ '':a'') = Inr (n, True)" "parse_metadata_fence (u64_text n @ '':i'') = Inr (n, False)"
  by (simp_all add: parse_metadata_fence_def u64_text_def split_fence[OF decimal_no_colon] parse_revision_text[unfolded u64_text_def])

lemma next_fence_Inr:
  assumes "next_fence (Some raw) = Inr f"
  shows "\<exists>c n a. parse_metadata_fence raw = Inr (c, a) \<and> parse_metadata_fence f = Inr (n, a) \<and> c < n"
  using assms checked_add_1_gt
  by (auto simp: next_fence_def rbind_Inr ok_or_Inr split: if_splits)

lemma next_incarnation_None: "next_incarnation None = Inr n \<Longrightarrow> n = 1"
  by (auto simp: next_incarnation_def next_fence_def rbind_Inr ok_or_Inr checked_add_def)

lemma next_incarnation_Some:
  assumes "next_incarnation (Some raw) = Inr n" "parse_metadata_fence raw = Inr (c, a)"
  shows "c < n"
  using assms by (auto simp: next_incarnation_def rbind_Inr dest!: next_fence_Inr)

lemma next_incarnation_pos: "next_incarnation fence = Inr n \<Longrightarrow> 0 < n"
proof (cases fence)
  case None
  moreover assume "next_incarnation fence = Inr n"
  ultimately show ?thesis by (auto dest: next_incarnation_None)
next
  case (Some raw)
  assume "next_incarnation fence = Inr n"
  with Some obtain c a where "parse_metadata_fence raw = Inr (c, a)"
    by (auto simp: next_incarnation_def next_fence_def rbind_Inr)
  with Some \<open>next_incarnation fence = Inr n\<close> next_incarnation_Some have "c < n" by blast
  then show ?thesis by (rule order.strict_trans1[rotated]) simp
qed

section \<open>One operation, one step\<close>

lemma attempt_other:
  assumes "key' \<noteq> key"
  shows "attempt_of (st\<lparr>st_headers := fmupd (key_row key) h (st_headers st)\<rparr>) key' = attempt_of st key'"
    and "attempt_of (st\<lparr>st_pages := fmupd (page_row_id key i) row (st_pages st)\<rparr>) key' = attempt_of st key'"
    and "attempt_of (st\<lparr>st_pages := fold (\<lambda>i. fmdrop (page_row_id key i)) indices (st_pages st)\<rparr>) key' = attempt_of st key'"
  using assms by (auto intro!: attempt_cong simp: drop_pages_lookup)

text \<open>What the checks of a beginning leave: no stage, or one that has ended.\<close>

lemma begin_checks_Inr:
  assumes "begin_checks env start manifest decoded x st s = Inr ((state, None), s')"
  shows "tx_db s' = tx_db s" "ended (attempt_of st (context_key x))" "stored_page st (context_key x) i = None"
    and "attempt_of st (context_key x) \<noteq> NoAttempt \<Longrightarrow> \<exists>fence c a. db_fence (context_key x) (tx_db s) = Some fence
      \<and> parse_metadata_fence fence = Inr (c, a) \<and> attempt_incarnation (attempt_of st (context_key x)) \<le> c"
proof -
  let ?key = "context_key x"
  from assms obtain inspected s2 s3 s4 f s5 where
    insp: "inspect_stage env st ?key s = Inr (inspected, s2)"
    and state: "transaction_state_after_preflight (se_codec env) ?key s2 = Inr (state, s3)"
    and barrier: "check_barrier ?key s3 = Inr ((), s4)" and f: "read_fence ?key s4 = Inr (f, s5)"
    and first: "(if f = None then fence_first_barrier ?key (bm_context decoded) else tx_lift (Inr ())) s5 = Inr ((), s')"
    and retry: "(case is_stage inspected of None \<Rightarrow> Inr None
         | Some existing \<Rightarrow> check_existing env ?key state start manifest x existing) = Inr None"
    unfolding begin_checks_def Let_def tx_bind_Inr tx_lift_Inr by (auto simp: tx_bind_Inr tx_lift_Inr split: if_splits)
  show "tx_db s' = tx_db s"
    using inspect_stage_found(1)[OF insp] reads_onlyD[OF state_after_preflight_tx(2) state]
      reads_onlyD[OF check_barrier_tx(2) barrier] read_fence_Inr(2)[OF f] first
    by (auto simp: tx_lift_Inr split: if_splits dest: fence_first_barrier_effect)
  have "ended (attempt_of st ?key) \<and> stored_page st ?key i = None
    \<and> (attempt_of st ?key \<noteq> NoAttempt \<longrightarrow> (\<exists>fence c a. db_fence ?key (tx_db s) = Some fence
      \<and> parse_metadata_fence fence = Inr (c, a) \<and> attempt_incarnation (attempt_of st ?key) \<le> c))"
  proof (cases "is_stage inspected")
    case None
    from inspect_stage_found(3)[OF insp None] show ?thesis by (simp add: attempt_of_def)
  next
    case (Some stage)
    from inspect_stage_found(2)[OF insp Some] have found: "stage_found env (tx_db s) st ?key stage" .
    from retry Some have "sh_cancelled (sg_header stage)"
      by (auto simp: check_existing_def Let_def rbind_Inr split: if_splits)
    with found have "ended (attempt_of st ?key)" "stored_page st ?key i = None"
      "attempt_incarnation (attempt_of st ?key) = incarnation_of (sg_header stage)"
      using found_attempt(1)[OF found] by (auto simp: stage_found_def split: option.splits)
    then show ?thesis using found by (auto simp: stage_found_def incarnation_of_def)
  qed
  then show "ended (attempt_of st ?key)" "stored_page st ?key i = None"
    "attempt_of st ?key \<noteq> NoAttempt \<Longrightarrow> \<exists>fence c a. db_fence ?key (tx_db s) = Some fence
      \<and> parse_metadata_fence fence = Inr (c, a) \<and> attempt_incarnation (attempt_of st ?key) \<le> c"
    by auto
qed

lemma open_stage_Inr:
  assumes "open_stage env key start manifest decoded state st s = Inr ((n, st'), s')"
  shows "next_incarnation (db_fence key (tx_db s)) = Inr n"
    and "st' = st\<lparr>st_headers := fmupd (key_row key) (new_header start manifest n) (st_headers st)\<rparr>"
  using assms by (auto simp: open_stage_def Let_def tx_bind_Inr tx_lift_Inr dest!: put_effects(1) read_fence_Inr(1))

lemma begin_step:
  assumes "begin_body env start manifest decoded x st s = Inr ((n, st'), s')"
  shows "attempt_of st' key = attempt_of st key
    \<or> key = context_key x \<and> attempt_step (CallBegin start manifest x) (attempt_of st key) (attempt_of st' key)"
proof -
  let ?key = "context_key x" and ?st = "st\<lparr>st_schema := se_define env (st_schema st)\<rparr>"
  from assms obtain s1 state retry s2 where s1: "tx_db s1 = tx_db s"
    and checks: "begin_checks env start manifest decoded x ?st s1 = Inr ((state, retry), s2)"
    and rest: "(case retry of Some n \<Rightarrow> tx_lift (Inr (n, ?st))
        | None \<Rightarrow> open_stage env ?key start manifest decoded state ?st) s2 = Inr ((n, st'), s')"
    by (auto simp: begin_body_def Let_def tx_bind_Inr dest!: tx_call_Inr)
  show ?thesis
  proof (cases retry)
    case (Some m)
    with rest show ?thesis by (auto simp: tx_lift_Inr)
  next
    case None
    note c = begin_checks_Inr[OF checks[unfolded None], simplified]
    from rest None have "open_stage env ?key start manifest decoded state ?st s2 = Inr ((n, st'), s')" by simp
    note o = open_stage_Inr[OF this]
    have new: "attempt_of st' ?key = OpenAttempt n manifest Map.empty"
      using c(3) by (simp add: o(2) attempt_of_def incarnation_of_def new_header_def stored_page_def fun_eq_iff)
    have "attempt_incarnation (attempt_of st ?key) < n"
    proof (cases "attempt_of st ?key = NoAttempt")
      case True
      have "0 < n" using o(1) by (rule next_incarnation_pos)
      with True show ?thesis by simp
    next
      case False
      with c(4) o(1) c(1) show ?thesis using next_incarnation_Some by fastforce
    qed
    with new c(2) show ?thesis
      using attempt_other(1)[of key ?key _ ?st] by (cases "key = ?key") (auto simp: o(2) intro: attempt_step.opened)
  qed
qed

lemma page_step:
  assumes "page_body env raw page x n st s = Inr ((u, st'), s')"
  shows "attempt_of st' key = attempt_of st key
    \<or> key = context_key x \<and> attempt_step (CallPage raw x n) (attempt_of st key) (attempt_of st' key)"
proof -
  let ?key = "context_key x"
  from assms obtain fence s1 inspected s2 stage s3 where s1: "tx_db s1 = tx_db s"
    and insp: "inspect_stage env st ?key s1 = Inr (inspected, s2)" and stage: "is_stage inspected = Some stage"
    and inc: "check_incarnation (sg_header stage) n = Inr ()" and live: "\<not> sh_cancelled (sg_header stage)"
    and rest: "(case fmlookup (sg_pages stage) (bp_index page) of
        Some old \<Rightarrow> tx_lift (if old = raw then Inr ((), st) else Inl RevisionConflict)
      | None \<Rightarrow> add_page env ?key raw page fence stage st) s3 = Inr ((u, st'), s')"
    by (auto simp: page_body_def Let_def tx_bind_Inr tx_lift_Inr ok_or_Inr split: if_splits dest!: read_fence_Inr(2))
  from inspect_stage_found(2)[OF insp stage] have found: "stage_found env (tx_db s1) st ?key stage" .
  have old: "attempt_of st ?key = OpenAttempt n (sh_manifest (sg_header stage)) (stored_page st ?key)"
    using found_attempt[OF found] inc live found by (auto simp: stage_found_def split: option.splits)
  show ?thesis
  proof (cases "fmlookup (sg_pages stage) (bp_index page)")
    case (Some old)
    with rest show ?thesis by (auto simp: tx_lift_Inr split: if_splits)
  next
    case None
    with rest have st': "st' = st\<lparr>st_pages := fmupd (page_row_id ?key (bp_index page))
        (page_row_of ?key (bp_index page) raw) (st_pages st)\<rparr>"
      by (auto simp: add_page_def tx_bind_Inr tx_lift_Inr dest!: put_effects(2))
    have "attempt_of st' ?key = OpenAttempt n (sh_manifest (sg_header stage)) ((stored_page st ?key)(bp_index page \<mapsto> raw))"
      using old unfolding st'
      by (auto simp: attempt_of_def stored_page_def page_row_of_def fun_eq_iff split: option.splits if_splits)
    moreover have "stored_page st ?key (bp_index page) = None" using None found by (simp add: stage_found_def)
    ultimately show ?thesis
      using old attempt_other(2)[of key ?key] by (cases "key = ?key") (auto simp: st' intro: attempt_step.staged)
  qed
qed

lemma cancel_step:
  assumes "cancel_in_transaction env m x n st s = Inr ((u, st'), s')"
  shows "attempt_of st' key = attempt_of st key
    \<or> key = context_key x \<and> attempt_step (CallCancel m x n) (attempt_of st key) (attempt_of st' key)"
proof -
  let ?key = "context_key x"
  from assms obtain f s1 where s1: "read_fence ?key s = Inr (f, s1)"
    and rest: "(case f of None \<Rightarrow> tx_lift (Inr ((), st))
      | Some fence \<Rightarrow> tx_bind (load_stage env st ?key) (\<lambda>loaded_stage.
          case loaded_stage of
            None \<Rightarrow> tx_lift (Inr ((), st))
          | Some stage \<Rightarrow>
              tx_bind (tx_lift (validate_header env (sh_start (sg_header stage)) (sg_manifest stage) x)) (\<lambda>_.
              tx_bind (tx_lift (check_incarnation (sg_header stage) n)) (\<lambda>_.
              if sh_manifest (sg_header stage) \<noteq> m then tx_lift (Inl RevisionConflict)
              else if sh_consumed_receipt (sg_header stage) \<noteq> None then tx_lift (Inr ((), st))
              else close_stage ?key fence stage st)))) s1 = Inr ((u, st'), s')"
    by (auto simp: cancel_in_transaction_def Let_def tx_bind_Inr)
  consider "st' = st" | (close) fence stage s2 s3 where "load_stage env st ?key s1 = Inr (Some stage, s2)"
    "check_incarnation (sg_header stage) n = Inr ()"
    "sh_manifest (sg_header stage) = m" "sh_consumed_receipt (sg_header stage) = None"
    "close_stage ?key fence stage st s3 = Inr ((u, st'), s')"
  proof (cases f)
    case None
    with rest that(1) show ?thesis by (simp add: tx_lift_Inr)
  next
    case (Some fence)
    with rest obtain ls s2 where ls: "load_stage env st ?key s1 = Inr (ls, s2)" by (auto simp: tx_bind_Inr)
    with rest Some that show ?thesis
      by (cases ls) (auto simp: tx_bind_Inr tx_lift_Inr split: if_splits)
  qed
  then show ?thesis
  proof cases
    case close
    from close(1) obtain inspected where insp: "inspect_stage env st ?key s1 = Inr (inspected, s2)"
      and stage: "is_stage inspected = Some stage"
      by (auto simp: load_stage_def tx_bind_Inr tx_lift_Inr)
    from inspect_stage_found(2)[OF insp stage] have found: "stage_found env (tx_db s1) st ?key stage" .
    from close(5) have st': "st' = st\<lparr>st_pages := fold (\<lambda>i. fmdrop (page_row_id ?key i)) (page_indices stage) (st_pages st),
        st_headers := fmupd (key_row ?key) ((sg_header stage)\<lparr>sh_cancelled := True\<rparr>) (st_headers st)\<rparr>"
      by (auto simp: close_stage_def tx_bind_Inr tx_lift_Inr dest!: put_effects(1) delete_pages_effect)
    have "attempt_of st' ?key = ClosedAttempt n m"
      using close(3,4) found_attempt(3)[OF found close(2)]
      by (simp add: st' attempt_of_def incarnation_of_def)
    moreover have "attempt_of st ?key = ClosedAttempt n m \<or> (\<exists>pages. attempt_of st ?key = OpenAttempt n m pages)"
      using close(3,4) found_attempt(1)[OF found] found_attempt(3)[OF found close(2)] by auto
    moreover have "attempt_of st' key = attempt_of st key" if "key \<noteq> ?key"
      unfolding st' using that by (intro attempt_cong) (auto simp: drop_pages_lookup)
    ultimately show ?thesis by (cases "key = ?key") (auto intro: attempt_step.closed)
  qed simp
qed

lemma install_stage_Inr:
  assumes "install_stage env key bytes stage current next_state st s = Inr (st', s')"
  shows "st' = st\<lparr>st_pages := fold (\<lambda>i. fmdrop (page_row_id key i)) (page_indices stage) (st_pages st),
    st_headers := fmupd (key_row key) ((sg_header stage)\<lparr>sh_cancelled := True, sh_consumed_receipt := Some bytes,
      sh_consumed_revision := Some (u64_text (revision next_state))\<rparr>) (st_headers st)\<rparr>"
    and "\<exists>s1 d s2 fence. tx_db s1 = tx_db s \<and> apply_transition_in_transaction env st current next_state s1 = Inr (d, s2)
      \<and> close_fence key (db_fence key (tx_db s2)) fence = Inr ((), s') \<and> tx_db fence = tx_db s2"
proof -
  from assms obtain s1 d s2 st2 s3 s4 f s5 where s1: "tx_db s1 = tx_db s"
    and app: "apply_transition_in_transaction env st current next_state s1 = Inr (d, s2)"
    and del: "delete_pages key (page_indices stage) st s2 = Inr (st2, s3)"
    and put: "put_header key ((sg_header stage)\<lparr>sh_cancelled := True, sh_consumed_receipt := Some bytes,
      sh_consumed_revision := Some (u64_text (revision next_state))\<rparr>) st2 s3 = Inr (st', s4)"
    and f: "read_fence key s4 = Inr (f, s5)" "close_fence key f s5 = Inr ((), s')"
    by (auto simp: install_stage_def tx_bind_Inr tx_lift_Inr dest!: tx_call_Inr)
  from put_effects(1)[OF put] delete_pages_effect[OF del]
  show "st' = st\<lparr>st_pages := fold (\<lambda>i. fmdrop (page_row_id key i)) (page_indices stage) (st_pages st),
    st_headers := fmupd (key_row key) ((sg_header stage)\<lparr>sh_cancelled := True, sh_consumed_receipt := Some bytes,
      sh_consumed_revision := Some (u64_text (revision next_state))\<rparr>) (st_headers st)\<rparr>" by simp
  have "tx_db s4 = tx_db s2" using put_effects(1)[OF put] delete_pages_effect[OF del] by simp
  with read_fence_Inr(1,2)[OF f(1)] f(2) s1 app
  show "\<exists>s1 d s2 fence. tx_db s1 = tx_db s \<and> apply_transition_in_transaction env st current next_state s1 = Inr (d, s2)
      \<and> close_fence key (db_fence key (tx_db s2)) fence = Inr ((), s') \<and> tx_db fence = tx_db s2"
    by (intro exI[of _ s1] exI[of _ d] exI[of _ s2] exI[of _ s5]) simp
qed

text \<open>A completion recalls an installed stage or installs the open one.\<close>

lemma complete_cases:
  assumes "complete_in_transaction env clock bytes receipt x n st s = Inr ((c, st'), s')"
  obtains (recalled) m where "c = HistoricalSuccess" "st' = st" "tx_db s' = tx_db s"
      "attempt_of st (context_key x) = InstalledAttempt n m bytes"
    | (performed) stage s1 where "stage_found env (tx_db s) st (context_key x) stage" "tx_db s1 = tx_db s"
      "validate_header env (sh_start (sg_header stage)) (sg_manifest stage) x = Inr ()"
      "check_receipt env (sg_manifest stage) receipt = Inr ()"
      "attempt_of st (context_key x) = OpenAttempt n (sh_manifest (sg_header stage)) (stored_page st (context_key x))"
      "incarnation_of (sg_header stage) = n"
      "perform_completion env clock (context_key x) bytes receipt stage st s1 = Inr ((c, st'), s')"
proof -
  let ?key = "context_key x"
  from assms obtain inspected s1 stage where insp: "inspect_stage env st ?key s = Inr (inspected, s1)"
    and stage: "is_stage inspected = Some stage"
    and valid: "validate_header env (sh_start (sg_header stage)) (sg_manifest stage) x = Inr ()"
    and inc: "check_incarnation (sg_header stage) n = Inr ()"
    and receipt: "check_receipt env (sg_manifest stage) receipt = Inr ()"
    and rest: "(case sh_consumed_receipt (sg_header stage) of
        Some consumed \<Rightarrow> recall_completion env ?key bytes stage consumed st
      | None \<Rightarrow> if sh_cancelled (sg_header stage) then tx_lift (Inl RevisionConflict)
          else perform_completion env clock ?key bytes receipt stage st) s1 = Inr ((c, st'), s')"
    by (auto simp: complete_in_transaction_def Let_def tx_bind_Inr tx_lift_Inr ok_or_Inr)
  from inspect_stage_found(2)[OF insp stage] have found: "stage_found env (tx_db s) st ?key stage" .
  note a = found_attempt(1)[OF found, unfolded found_attempt(3)[OF found inc]]
  have pages: "fmlookup (sg_pages stage) = stored_page st ?key" using found by (auto simp: stage_found_def)
  show ?thesis
  proof (cases "sh_consumed_receipt (sg_header stage)")
    case (Some consumed)
    with rest have r: "recall_completion env ?key bytes stage consumed st s1 = Inr ((c, st'), s')" by simp
    from reads_onlyD[OF recall_completion_tx(2) r] inspect_stage_found(1)[OF insp] have "tx_db s' = tx_db s" by simp
    with recalled r a Some show ?thesis
      by (auto simp: recall_completion_def tx_bind_Inr tx_lift_Inr rbind_Inr split: if_splits)
  next
    case None
    with performed[OF found inspect_stage_found(1)[OF insp] valid receipt _ found_attempt(3)[OF found inc]] rest a pages
    show ?thesis by (auto simp: tx_lift_Inr split: if_splits)
  qed
qed

lemma perform_Inr:
  assumes "perform_completion env clock key bytes receipt stage st s = Inr ((c, st'), s')"
  obtains current next_state s1 k where
    "loaded (se_codec env) (tx_db s) key = Inr (Some current)"
    "prepare_completion env clock key bytes receipt stage current = Inr (next_state, k)"
    "tx_db s1 = tx_db s" "install_stage env key bytes stage current next_state st s1 = Inr (st', s')"
    "c = AppliedSnapshot next_state"
proof -
  from assms obtain s1 current s2 next_state k s3 where
    b: "check_barrier key s = Inr ((), s1)"
    and l: "transaction_state_after_preflight (se_codec env) key s1 = Inr (current, s2)"
    and p: "prepare_completion env clock key bytes receipt stage current = Inr (next_state, k)"
    and i: "install_stage env key bytes stage current next_state st s2 = Inr (st', s3)" "s' = s3"
    "c = AppliedSnapshot next_state"
    by (auto simp: perform_completion_def tx_bind_Inr tx_lift_Inr)
  have db: "tx_db s1 = tx_db s" by (rule reads_onlyD[OF check_barrier_tx(2) b])
  from l have "loaded (se_codec env) (tx_db s1) key = Inr (Some current)"
    by (auto simp: transaction_state_after_preflight_def tx_bind_Inr tx_lift_Inr ok_or_Inr dest!: load_v2_loaded(1))
  with that[OF _ p _ i(1)[folded i(2)] i(3)] db reads_onlyD[OF state_after_preflight_tx(2) l] show thesis by simp
qed

lemma complete_step:
  assumes "complete_in_transaction env clock bytes receipt x n st s = Inr ((c, st'), s')"
  shows "attempt_of st' key = attempt_of st key
    \<or> key = context_key x \<and> attempt_step (CallComplete clock bytes x n) (attempt_of st key) (attempt_of st' key)"
  using assms
proof (cases rule: complete_cases)
  case (performed stage s1)
  let ?key = "context_key x"
  from performed(7) obtain current next_state s2 where
    "install_stage env ?key bytes stage current next_state st s2 = Inr (st', s')" by (rule perform_Inr)
  note st' = install_stage_Inr(1)[OF this]
  have "attempt_of st' ?key = InstalledAttempt n (sh_manifest (sg_header stage)) bytes"
    using performed(6) by (simp add: st' attempt_of_def incarnation_of_def)
  moreover have "attempt_of st' key = attempt_of st key" if "key \<noteq> ?key"
    unfolding st' using that by (intro attempt_cong) (auto simp: drop_pages_lookup)
  ultimately show ?thesis using performed(5) by (cases "key = ?key") (auto intro: attempt_step.installed)
qed simp

end
