(* ===== verification/Stage_Completion.thy ===== *)
theory Stage_Completion
  imports Stage_Attempts Store_Outcomes Client_Names
begin

text \<open>
  What a completion installs: the decoded pages pass the streaming verifier as a whole, the
  canonical rows of the new state are the rows of those pages, and the journal's tables hold
  exactly that state.
\<close>

section \<open>The verified pages\<close>

lemma corrupt_Inr [simp]: "corrupt r = Inr a \<longleftrightarrow> r = Inr a"
  by (cases r) (simp_all add: corrupt_def)

lemma corrupt_ok [simp]: "corrupt (Inr a) = Inr a"
  by simp

lemma case_error_Inr: "(case r of Inl e \<Rightarrow> Inl (g e) | Inr a \<Rightarrow> Inr (f a)) = Inr b \<longleftrightarrow> (\<exists>a. r = Inr a \<and> b = f a)"
  by (auto split: sum.splits)

lemma reserved_outside:
  assumes "record_reservation env reserved r = Inr n"
  shows "outside_store (se_lib env) (se_records env) (sr_record_id r)"
proof -
  have "list_all (\<lambda>t. strip_prefix ''_sync_'' t \<noteq> None) journal_tables" by code_simp
  then have "strip_prefix ''_sync_'' t = None \<Longrightarrow> t \<notin> set journal_tables" for t by (auto simp: list_all_iff)
  with assms show ?thesis
    by (auto simp: record_reservation_def outside_store_def rbind_Inr split: if_splits)
qed

lemma page_outside:
  assumes "page_reservation env page = Inr n" "try_map (staged_record env) (bp_records page) = Inr rows"
  shows "\<forall>r \<in> set rows. outside_store (se_lib env) (se_records env) (sr_record_id r)"
proof -
  have "try_fold (record_reservation env) k rs = Inr n \<Longrightarrow>
      \<forall>r \<in> set rs. outside_store (se_lib env) (se_records env) (sr_record_id r)" for k rs
    by (induction rs arbitrary: k) (auto simp: rbind_Inr intro: reserved_outside)
  then have recs: "\<forall>r \<in> set (bp_records page). outside_store (se_lib env) (se_records env) (sr_record_id r)"
    using assms(1) by (simp add: page_reservation_def)
  have "list_all2 (\<lambda>r x. sr_record_id x = sr_record_id r) (bp_records page) rows"
    using assms(2) by (auto simp: try_map_Inr staged_record_def rbind_Inr elim!: list_all2_mono)
  then have "sr_record_id ` set rows = sr_record_id ` set (bp_records page)"
    by (induction rule: list_all2_induct) auto
  with recs show ?thesis by (metis imageE image_eqI)
qed

lemma complete_pages:
  assumes "try_fold (complete_page env clock expires_at) c raws = Inr c'"
  shows "\<exists>pages rows. try_map (decode_page env) raws = Inr pages
    \<and> try_fold (verifier_push (se_ser env) (se_sha256 env)) (co_verifier c) pages = Inr (co_verifier c')
    \<and> try_map (staged_record env) (records_of pages) = Inr rows \<and> co_records c' = co_records c @ rows
    \<and> (\<forall>r \<in> set rows. outside_store (se_lib env) (se_records env) (sr_record_id r))"
  using assms
proof (induction raws arbitrary: c)
  case Nil
  then show ?case by (intro exI[of _ "[]"]) simp
next
  case (Cons raw raws)
  from Cons.prems obtain page v rows budget where page: "decode_page env raw = Inr page"
    "verifier_push (se_ser env) (se_sha256 env) (co_verifier c) page = Inr v"
    "try_map (staged_record env) (bp_records page) = Inr rows" "page_reservation env page = Inr budget"
    and rest: "try_fold (complete_page env clock expires_at)
      \<lparr>co_verifier = v, co_records = co_records c @ rows, co_checks = Suc (co_checks c)\<rparr> raws = Inr c'"
    by (auto simp: complete_page_def[of env clock expires_at c raw] rbind_Inr)
  from Cons.IH[OF rest] obtain pages more_rows where "try_map (decode_page env) raws = Inr pages"
    "try_fold (verifier_push (se_ser env) (se_sha256 env)) v pages = Inr (co_verifier c')"
    "try_map (staged_record env) (records_of pages) = Inr more_rows" "co_records c' = co_records c @ rows @ more_rows"
    "\<forall>r \<in> set more_rows. outside_store (se_lib env) (se_records env) (sr_record_id r)"
    by auto
  moreover from this(3) page(3) have "try_map (staged_record env) (bp_records page @ records_of pages) = Inr (rows @ more_rows)"
    by (simp add: try_map_Inr list_all2_appendI)
  ultimately show ?case
    using page(1,2) page_outside[OF page(4,3)]
    by (intro exI[of _ "page # pages"] exI[of _ "rows @ more_rows"]) (auto simp del: try_map.simps simp: try_map.simps(2)[of _ raw])
qed

lemma prepare_completion_Inr:
  assumes "prepare_completion env clock key bytes receipt stage current = Inr (next_state, k)"
  obtains pages rows summary p where
    "try_map (decode_page env) (map snd (entries (sg_pages stage))) = Inr pages"
    "verify_pages (se_ser env) (se_sha256 env) (sg_manifest stage) pages = Inr summary"
    "try_map (staged_record env) (records_of pages) = Inr rows"
    "prepare_bootstrap_snapshot \<lparr>rt_state = current\<rparr> (br_checkpoint receipt) rows = Inr p"
    "next_state = prepared_state p" "\<forall>r \<in> set rows. outside_store (se_lib env) (se_records env) (sr_record_id r)"
proof -
  from assms obtain v c summary rt p where v: "verifier_new (se_ser env) (se_sha256 env) (sg_manifest stage) = Inr v"
    and c: "try_fold (complete_page env clock (bm_expires_at (sg_manifest stage)))
      \<lparr>co_verifier = v, co_records = [], co_checks = 1\<rparr> (map snd (entries (sg_pages stage))) = Inr c"
    and s: "verifier_finish (se_sha256 env) (co_verifier c) = Inr summary"
    and rt: "open_runtime current = Inr rt"
    and p: "prepare_bootstrap_snapshot rt (br_checkpoint receipt) (co_records c) = Inr p" "next_state = prepared_state p"
    by (auto simp: prepare_completion_def Let_def rbind_Inr case_error_Inr)
  from rt have "rt = \<lparr>rt_state = current\<rparr>" by (auto simp: open_runtime_def rbind_Inr)
  with complete_pages[OF c] p v s that show thesis by (auto simp: verify_pages_def rbind_Inr)
qed

section \<open>The installed state\<close>

definition set_fence :: "sync_state_key \<Rightarrow> string \<Rightarrow> 'x store_db \<Rightarrow> 'x store_db" where
  "set_fence key fence db =
     (case fmlookup (db_meta db) (key_row key) of
        None \<Rightarrow> db
      | Some row \<Rightarrow> db\<lparr>db_meta := fmupd (key_row key) (row\<lparr>mr_bootstrap_fence := Some fence\<rparr>) (db_meta db)\<rparr>)"

lemma tx_update_Inr: "tx_update g s = Inr (u, s') \<Longrightarrow> tx_db s' = g (tx_db s)"
  by (auto simp: tx_update_def tx_bind_Inr dest!: tx_call_Inr)

lemma write_fence_Inr: "write_fence key f s = Inr (u, s') \<Longrightarrow> tx_db s' = set_fence key f (tx_db s)"
  unfolding write_fence_def set_fence_def by (rule tx_update_Inr)

lemma close_fence_Inr: "close_fence key f s = Inr (u, s') \<Longrightarrow> \<exists>n. tx_db s' = set_fence key (u64_text n @ '':i'') (tx_db s)"
  by (auto simp: close_fence_def tx_bind_Inr tx_lift_Inr dest!: write_fence_Inr)

lemma decode_state_fence: "decode_state cd key (row\<lparr>mr_bootstrap_fence := f\<rparr>) m = decode_state cd key row m"
  by (simp add: decode_state_def validate_meta_row_def validate_meta_def)

text \<open>A fence is no part of the journal.\<close>

lemma set_fence_journal:
  "loaded cd (set_fence key f db) key' = loaded cd db key'"
  "journal_stored cd (set_fence key f db) key' s = journal_stored cd db key' s"
proof -
  have sel: "select_components t k (set_fence key f db) = select_components t k db"
    "client_rows t k (set_fence key f db) = client_rows t k db" for t k
    by (simp_all add: set_fence_def select_components_def client_rows_def split: option.splits)
  then have inv: "inventory_of key' (set_fence key f db) = inventory_of key' db" by (simp add: inventory_of_def)
  have "db_components (set_fence key f db) = db_components db" by (simp add: set_fence_def split: option.splits)
  then have owned: "rows_owned (set_fence key f db) = rows_owned db" by (simp add: rows_owned_def)
  show load: "loaded cd (set_fence key f db) key' = loaded cd db key'"
    unfolding loaded_pure sel
    by (cases "fmlookup (db_meta db) (key_row key)") (auto simp: set_fence_def decode_state_fence)
  show "journal_stored cd (set_fence key f db) key' s = journal_stored cd db key' s"
    by (simp add: journal_stored_def owned load inv)
qed

lemma transition_in_transaction_stored:
  assumes "apply_transition_in_transaction env st current next_state s = Inr (d, s')"
    and "journal_stored (se_codec env) (tx_db s) key current" "faithful_codec (se_codec env) next_state"
    and "(partition_id next_state, client_id next_state) = key"
    and "\<forall>r \<in> fset (fmdom (optimistic_projection next_state)). outside_store (se_lib env) (se_records env) r"
  shows "journal_stored (se_codec env) (tx_db s') key next_state"
    and "other \<noteq> key \<Longrightarrow> loaded (se_codec env) (tx_db s') other = loaded (se_codec env) (tx_db s) other"
    and "db_barriers (tx_db s') = db_barriers (tx_db s)"
proof -
  from assms(1) obtain key' rows where prep: "prepare_state_write (se_codec env) (Some (revision current)) next_state = Inr (key', rows)"
    and body: "transition_body (se_codec env) (state_write_guard env st) (se_lib env) (se_records env) key' current next_state rows s
      = Inr (d, s')"
    by (auto simp: apply_transition_in_transaction_def tx_bind_Inr tx_lift_Inr)
  have key: "key' = key" using prepare_state_write_Inr(1)[OF prep] assms(4) by simp
  have "unlimited s = \<lparr>tx_db = tx_db s, tx_calls = None\<rparr>" by (simp add: unlimited_def)
  with fault_monotoneD[OF transition_monotone[OF state_write_guard_reads] body]
  have "transition_body (se_codec env) (state_write_guard env st) (se_lib env) (se_records env) key current next_state rows
      \<lparr>tx_db = tx_db s, tx_calls = None\<rparr> = Inr (d, unlimited s')" by (simp add: key)
  note a = applied_transition[OF state_write_guard_reads assms(3,2) prep[unfolded key] this assms(5), simplified]
  from a(1,3,4) show "journal_stored (se_codec env) (tx_db s') key next_state"
    "other \<noteq> key \<Longrightarrow> loaded (se_codec env) (tx_db s') other = loaded (se_codec env) (tx_db s) other"
    "db_barriers (tx_db s') = db_barriers (tx_db s)" by (cases other; simp)+
qed

lemma install_stage_stored:
  assumes "install_stage env key bytes stage current next_state st s = Inr (st', s')"
    and "journal_stored (se_codec env) (tx_db s) key current" "faithful_codec (se_codec env) next_state"
    and "(partition_id next_state, client_id next_state) = key"
    and "\<forall>r \<in> fset (fmdom (optimistic_projection next_state)). outside_store (se_lib env) (se_records env) r"
  shows "journal_stored (se_codec env) (tx_db s') key next_state"
    and "other \<noteq> key \<Longrightarrow> loaded (se_codec env) (tx_db s') other = loaded (se_codec env) (tx_db s) other"
proof -
  from install_stage_Inr(2)[OF assms(1)] obtain s1 d s2 s3 where s1: "tx_db s1 = tx_db s"
    and app: "apply_transition_in_transaction env st current next_state s1 = Inr (d, s2)"
    and close: "close_fence key (db_fence key (tx_db s2)) s3 = Inr ((), s')" "tx_db s3 = tx_db s2" by blast
  from close_fence_Inr[OF close(1)] close(2) obtain n where s': "tx_db s' = set_fence key (u64_text n @ '':i'') (tx_db s2)"
    by auto
  show "journal_stored (se_codec env) (tx_db s') key next_state"
    "other \<noteq> key \<Longrightarrow> loaded (se_codec env) (tx_db s') other = loaded (se_codec env) (tx_db s) other"
    using transition_in_transaction_stored[OF app _ assms(3-5)] assms(2) s1 unfolding s' set_fence_journal by simp_all
qed

lemma load_v2_unlimited:
  assumes "loaded cd db key = Inr r"
  shows "load_v2 cd key \<lparr>tx_db = db, tx_calls = None\<rparr> = Inr (r, \<lparr>tx_db = db, tx_calls = None\<rparr>)"
proof -
  let ?s = "\<lparr>tx_db = db, tx_calls = None\<rparr>"
  from assms obtain s1 where l: "load_v2 cd key ?s = Inr (r, s1)" by (auto simp: loaded_def rbind_Inr)
  have "tx_db s1 = db" using load_v2_loaded(2)[OF l] by simp
  moreover have "tx_calls s1 = None"
    using fault_monotoneD[OF load_v2_tx(1) l] l unlimited_same[of ?s]
    by (metis Inr_inject prod.inject unlimited_simps(2) tx_state.select_convs(2))
  ultimately show ?thesis using l by simp
qed

text \<open>A transition to the same state is refused, since its revision does not move.\<close>

lemma unchanged_refused: "\<exists>e. apply_transition_in_transaction env st state state s = Inl e"
proof (cases "apply_transition_in_transaction env st state state s")
  case (Inr r)
  then obtain key rows where "prepare_state_write (se_codec env) (Some (revision state)) state = Inr (key, rows)"
    by (cases r) (auto simp: apply_transition_in_transaction_def tx_bind_Inr tx_lift_Inr)
  from prepare_state_write_Inr(4)[OF this] show ?thesis by simp
qed blast

section \<open>Calls\<close>

text \<open>A call is refused before its transaction, or runs it.\<close>

lemma call_runs:
  "begin_stage env en start manifest x w = (r, w') \<Longrightarrow>
     w' = w \<and> isl r \<or> (\<exists>decoded. run_stage en w (begin_body env start manifest decoded x) = (r, w'))"
  "stage_page env en raw x n w = (q, w') \<Longrightarrow>
     w' = w \<and> isl q \<or> (\<exists>page. run_stage en w (page_body env raw page x n) = (q, w'))"
  "complete_stage env en clock bytes x n w = (c, w') \<Longrightarrow>
     w' = w \<and> isl c \<or> (\<exists>receipt. decode_receipt env bytes = Inr receipt
       \<and> run_stage en w (complete_in_transaction env clock bytes receipt x n) = (c, w'))"
  "cancel_stage env en manifest x n w = (q, w') \<Longrightarrow>
     w' = w \<and> isl q \<or> run_stage en w (cancel_in_transaction env manifest x n) = (q, w')"
  by (auto simp: begin_stage_def stage_page_def complete_stage_def cancel_stage_def after_check_def
      split: sum.splits if_splits) (metis isl_def)+

lemmas body_runs = run_stage_cases[OF _ begin_body_tx] run_stage_cases[OF _ page_body_tx]
  run_stage_cases[OF _ complete_body_tx] run_stage_cases[OF _ cancel_body_tx]

lemma map_prod_id: "map_prod f id p = (a, b) \<Longrightarrow> \<exists>r. p = (r, b)"
  by (cases p) simp

lemma call_step:
  assumes "call_stage env en c (db, st) = (ok, (db', st'))"
  shows "attempt_of st' key = attempt_of st key
    \<or> key = context_key (call_context c) \<and> attempt_step c (attempt_of st key) (attempt_of st' key)"
proof (cases c)
  case (CallBegin start manifest x)
  with assms obtain r where "begin_stage env en start manifest x (db, st) = (r, (db', st'))" by (auto dest!: map_prod_id)
  with CallBegin show ?thesis by (auto dest!: call_runs(1) body_runs(1) begin_step[where key = key])
next
  case (CallPage raw x n)
  with assms obtain r where "stage_page env en raw x n (db, st) = (r, (db', st'))" by (auto dest!: map_prod_id)
  with CallPage show ?thesis by (auto dest!: call_runs(2) body_runs(2) page_step[where key = key])
next
  case (CallComplete clock bytes x n)
  with assms obtain r where "complete_stage env en clock bytes x n (db, st) = (r, (db', st'))" by (auto dest!: map_prod_id)
  with CallComplete show ?thesis by (auto dest!: call_runs(3) body_runs(3) complete_step[where key = key])
next
  case (CallCancel manifest x n)
  with assms obtain r where "cancel_stage env en manifest x n (db, st) = (r, (db', st'))" by (auto dest!: map_prod_id)
  with CallCancel show ?thesis by (auto dest!: call_runs(4) body_runs(4) cancel_step[where key = key])
qed

fun run_calls :: "'y stage_env \<Rightarrow> (engine \<times> stage_call) list \<Rightarrow> 'y stage_world \<Rightarrow> 'y stage_world" where
  "run_calls env [] w = w"
| "run_calls env ((en, c) # cs) w = run_calls env cs (snd (call_stage env en c w))"

lemma step_incarnation:
  "attempt_step c a b \<Longrightarrow> attempt_incarnation a \<le> attempt_incarnation b
    \<and> (attempt_incarnation b = attempt_incarnation a \<longrightarrow> \<not> ended a)"
  by (auto elim!: attempt_stepE)

lemma call_incarnation:
  assumes "before = attempt_of (snd w) key" "after = attempt_of (snd (snd (call_stage env en c w))) key"
  shows "attempt_incarnation before \<le> attempt_incarnation after
    \<and> (ended before \<and> attempt_incarnation after = attempt_incarnation before \<longrightarrow> after = before)"
proof -
  obtain db st ok db' st' where w: "w = (db, st)" "call_stage env en c (db, st) = (ok, (db', st'))" by (metis prod.exhaust)
  from call_step[OF w(2), of key] step_incarnation[of c before after] show ?thesis
    unfolding assms w by auto
qed

lemma runs_incarnation:
  "attempt_incarnation (attempt_of (snd w) key) \<le> attempt_incarnation (attempt_of (snd (run_calls env cs w)) key)
    \<and> (ended (attempt_of (snd w) key)
       \<and> attempt_incarnation (attempt_of (snd (run_calls env cs w)) key) = attempt_incarnation (attempt_of (snd w) key)
       \<longrightarrow> attempt_of (snd (run_calls env cs w)) key = attempt_of (snd w) key)"
proof (induction cs arbitrary: w)
  case (Cons c cs)
  obtain en d where c: "c = (en, d)" by force
  let ?w = "snd (call_stage env en d w)"
  from Cons.IH[of ?w] call_incarnation[OF refl refl, of w key env en d]
  show ?case unfolding c by (auto dest: order.antisym)
qed simp

end
