(* ===== verification/Stage_Sample.thy ===== *)
theory Stage_Sample
  imports Stage_Completion Store_Properties Bootstrap_Properties Native_Bridge
begin

text \<open>
  A concrete run of a completion.
  An empty scope is installed: one client's new journal, an open stage whose manifest has no
  pages, and the receipt.  The hash is constant, and the codec of the store knows the two
  states and the row keys.
\<close>

definition zero_digest :: bootstrap_digest where "zero_digest = BootstrapDigest (replicate 32 0)"

definition install_start :: bootstrap_start_request where
  "install_start = \<lparr>bs_partition_id = PartitionId ''p'', bs_client_id = ClientId ''c'', bs_request_id = ''q'',
     bs_requested_scope = ScopeIdentity ''s'', bs_subscription_revision = 1, bs_journal_generation = ''g''\<rparr>"

definition install_manifest :: bootstrap_manifest where
  "install_manifest = (demo_manifest 0 zero_digest)\<lparr>bm_start_fingerprint := zero_digest, bm_page_count := 0, bm_record_count := 0\<rparr>"

definition install_context :: bootstrap_context where
  "install_context = bm_context install_manifest"

definition install_checkpoint :: checkpoint where
  "install_checkpoint = \<lparr>token = OpaqueCheckpoint ''t'', cursor = \<lparr>epoch = 1, sequence = 9\<rparr>, scope = demo_scope\<rparr>"

definition install_receipt :: bootstrap_receipt where
  "install_receipt = \<lparr>br_session_id = ''x'', br_manifest_digest = zero_digest, br_checkpoint = install_checkpoint, br_expires_at = 100\<rparr>"

definition start_bytes :: "byte list" where
  "start_bytes = projr (encode_bootstrap_start rfc_ser install_start)"

definition manifest_bytes :: "byte list" where
  "manifest_bytes = projr (encode_bootstrap_manifest rfc_ser install_manifest)"

definition receipt_bytes :: "byte list" where
  "receipt_bytes = projr (encode_bootstrap_receipt rfc_ser install_receipt)"

definition install_before :: stored_sync_state where
  "install_before = empty_state (PartitionId ''p'') (ClientId ''c'') (ScopeIdentity ''s'') 1"

definition install_after :: stored_sync_state where
  "install_after = install_before\<lparr>revision := 1, checkpoint := Some install_checkpoint,
     reset_coverage := Some \<lparr>cov_cursor = cursor install_checkpoint, cov_scope = scope install_checkpoint\<rparr>\<rparr>"

definition install_codec :: store_codec where
  "install_codec = demo_codec\<lparr>
     to_vec := (\<lambda>t. if t = TString ''0'' then Some [48] else if t = TString ''1'' then Some [49]
                   else case t of TArray _ \<Rightarrow> Some [50] | _ \<Rightarrow> None),
     from_slice := (\<lambda>b. if b = [48] then Some (TString ''0'') else if b = [49] then Some (TString ''1'') else None),
     meta_value := (\<lambda>m. if m = state_meta_of install_before then Some (JString ''0'')
                   else if m = state_meta_of install_after then Some (JString ''1'') else None),
     value_meta := (\<lambda>v. if v = JString ''0'' then Some (state_meta_of install_before)
                   else if v = JString ''1'' then Some (state_meta_of install_after) else None),
     commit_value := (\<lambda>_. None), value_commit := (\<lambda>_. None)\<rparr>"

definition install_env :: "string stage_env" where
  "install_env = \<lparr>se_codec = install_codec,
     se_bridge = \<lparr>br_lib = bridge_lib, br_ser = rfc_ser, br_sha256 = (\<lambda>_. replicate 32 0)\<rparr>,
     se_records = \<lparr>sx_table = (\<lambda>n. case n of NativeRecord t _ \<Rightarrow> t | NativeScalar _ \<Rightarrow> []),
       sx_key = (\<lambda>n. case n of NativeRecord _ (KeyString k) \<Rightarrow> k | _ \<Rightarrow> []), sx_component = (\<lambda>_. None)\<rparr>,
     se_de = rfc_de,
     se_encoded = length, se_encoded_key = (\<lambda>ks. length (concat ks)), se_define = (\<lambda>t. t)\<rparr>"

definition install_key :: sync_state_key where
  "install_key = (PartitionId ''p'', ClientId ''c'')"

definition install_header :: stage_header where
  "install_header = new_header start_bytes manifest_bytes 1"

definition install_tables :: stage_tables where
  "install_tables = \<lparr>st_schema = Some (set (header_table # page_table # all_tables)),
     st_headers = fmupd (key_row install_key) install_header fmempty, st_pages = fmempty\<rparr>"

definition install_rows :: "byte list \<Rightarrow> normalized_rows" where
  "install_rows payload = \<lparr>nr_format_version = 2, nr_meta = payload, nr_components = fmempty\<rparr>"

definition install_db :: "string native_scalar store_db" where
  "install_db = written install_key fmempty (install_rows [48]) (Some ''1:a'') empty_db"

definition install_clock :: completion_clock where
  "install_clock = \<lparr>cc_now = (\<lambda>_. 0), cc_deadline = 1, cc_utc_seconds = (\<lambda>_. Inr 1)\<rparr>"

lemma install_fields [simp]:
  "se_codec install_env = install_codec" "se_ser install_env = rfc_ser" "se_de install_env = rfc_de"
  "se_sha256 install_env = (\<lambda>_. replicate 32 0)" "se_encoded install_env = length"
  by (simp_all add: install_env_def)

section \<open>Messages\<close>

lemma install_encodes:
  "encode_bootstrap_start rfc_ser install_start = Inr start_bytes"
  "encode_bootstrap_manifest rfc_ser install_manifest = Inr manifest_bytes"
  "encode_bootstrap_receipt rfc_ser install_receipt = Inr receipt_bytes"
proof -
  have "\<not> isl (encode_bootstrap_start rfc_ser install_start)" by code_simp
  then show "encode_bootstrap_start rfc_ser install_start = Inr start_bytes" by (simp add: start_bytes_def)
  have "\<not> isl (encode_bootstrap_manifest rfc_ser install_manifest)" by code_simp
  then show "encode_bootstrap_manifest rfc_ser install_manifest = Inr manifest_bytes" by (simp add: manifest_bytes_def)
  have "\<not> isl (encode_bootstrap_receipt rfc_ser install_receipt)" by code_simp
  then show "encode_bootstrap_receipt rfc_ser install_receipt = Inr receipt_bytes" by (simp add: receipt_bytes_def)
qed

lemma install_lengths: "length start_bytes \<le> 1024" "length manifest_bytes \<le> 1024" "length receipt_bytes \<le> 1024"
proof -
  have "len start_bytes \<le> 1024" "len manifest_bytes \<le> 1024" "len receipt_bytes \<le> 1024" by code_simp+
  then show "length start_bytes \<le> 1024" "length manifest_bytes \<le> 1024" "length receipt_bytes \<le> 1024" by simp_all
qed

lemma install_decodes:
  "decode_bootstrap_start rfc_ser rfc_de start_bytes = Inr install_start"
  "decode_bootstrap_manifest rfc_ser rfc_de manifest_bytes = Inr install_manifest"
  "decode_bootstrap_receipt rfc_ser rfc_de receipt_bytes = Inr install_receipt"
proof -
  have t: "typed_start install_start" "typed_manifest install_manifest" "typed_receipt install_receipt" by code_simp+
  show "decode_bootstrap_start rfc_ser rfc_de start_bytes = Inr install_start"
    "decode_bootstrap_manifest rfc_ser rfc_de manifest_bytes = Inr install_manifest"
    "decode_bootstrap_receipt rfc_ser rfc_de receipt_bytes = Inr install_receipt"
    using start_part.bootstrap_iff[OF rfc.cbor_library_axioms t(1)] manifest_part.bootstrap_iff[OF rfc.cbor_library_axioms t(2)]
      receipt_part.bootstrap_iff[OF rfc.cbor_library_axioms t(3)] install_encodes
    unfolding read_bootstraps write_bootstraps by simp_all
qed

lemma install_digest: "bootstrap_manifest_digest rfc_ser (\<lambda>_. replicate 32 0) install_manifest = Inr zero_digest"
  by (simp add: bootstrap_manifest_digest_def install_encodes digest_def zero_digest_def)

lemma install_validated:
  "validate_header install_env start_bytes install_manifest install_context = Inr ()"
  "check_receipt install_env install_manifest install_receipt = Inr ()"
proof -
  have "bootstrap_start_fingerprint rfc_ser (\<lambda>_. replicate 32 0) install_start = Inr zero_digest"
    by (simp add: bootstrap_start_fingerprint_def install_encodes digest_def zero_digest_def)
  then show "validate_header install_env start_bytes install_manifest install_context = Inr ()"
    by (simp add: validate_header_def install_env_def install_decodes validate_bootstrap_manifest_context_def install_encodes
        install_context_def) (simp add: install_manifest_def demo_manifest_def install_start_def demo_scope_def)
  show "check_receipt install_env install_manifest install_receipt = Inr ()"
    by (simp add: check_receipt_def install_env_def validate_bootstrap_receipt_def install_encodes install_digest)
      (simp add: install_manifest_def demo_manifest_def install_receipt_def install_checkpoint_def)
qed

section \<open>The journal\<close>

lemma install_neq: "state_meta_of install_after \<noteq> state_meta_of install_before"
  by (simp add: install_before_def install_after_def empty_state_def state_meta_of_def)

lemma install_faithful: "faithful_codec install_codec s"
proof -
  have "number_law install_codec" by (simp add: number_law_def install_codec_def demo_codec_def)
  then show ?thesis
    by (auto simp: faithful_codec_def serde_ok_def)
      (auto simp: install_codec_def demo_codec_def install_neq split: if_splits)
qed

lemma install_valid: "valid_state install_before" "valid_state install_after"
  unfolding validate_iff[symmetric] by code_simp+

lemma install_normalized:
  "normalize_state install_codec install_before = Inr (install_rows [48])"
  "normalize_state install_codec install_after = Inr (install_rows [49])"
proof -
  have items: "component_items install_codec install_before = []" "component_items install_codec install_after = []"
    by (simp_all add: component_items_def subscription_records_def install_before_def install_after_def empty_state_def)
  have meta: "encode_tagged install_codec (meta_value install_codec (state_meta_of install_before)) = Inr [48]"
    "encode_tagged install_codec (meta_value install_codec (state_meta_of install_after)) = Inr [49]"
    by (simp_all add: encode_tagged_def install_codec_def install_neq max_sync_state_bytes_def)
  show "normalize_state install_codec install_before = Inr (install_rows [48])"
    "normalize_state install_codec install_after = Inr (install_rows [49])"
    using meta
    by (simp_all add: normalize_state_def items component_count_def validate_state_keys_def payload_bytes_def
        insert_component_def max_component_items_def max_aggregate_state_bytes_def install_rows_def)
      (simp_all add: install_before_def install_after_def empty_state_def subscription_records_def format_version_def)
qed

lemma install_keys:
  "(partition_id install_before, client_id install_before) = install_key" "context_key install_context = install_key"
  by (simp_all add: install_before_def empty_state_def install_key_def install_context_def install_manifest_def
      demo_manifest_def context_key_def)

lemma install_stored: "journal_stored install_codec install_db install_key install_before"
  unfolding install_db_def
  by (rule written_stored[OF _ _ _ install_normalized(1) install_faithful install_valid(1) install_keys(1)[symmetric]])
    (simp_all add: rows_owned_def inventory_of_def client_rows_def empty_db_def rows_of_def component_tables_def
      add_rows_def)

section \<open>The run\<close>

abbreviation install_tx :: "string native_scalar tx_state" where
  "install_tx \<equiv> \<lparr>tx_db = install_db, tx_calls = None\<rparr>"

abbreviation install_open :: stage where
  "install_open \<equiv> \<lparr>sg_header = install_header, sg_manifest = install_manifest, sg_pages = fmempty\<rparr>"

lemma install_meta: "fmlookup (db_meta install_db) (key_row install_key) = Some (meta_row install_key (install_rows [48]) (Some ''1:a''))"
  by (simp add: install_db_def written_def)

lemma install_fence: "read_fence install_key install_tx = Inr (Some ''1:a'', install_tx)" "parse_metadata_fence ''1:a'' = Inr (1, True)"
proof -
  have "u64_text 1 = ''1''" by code_simp
  with parse_fence_text(1)[of 1] show p: "parse_metadata_fence ''1:a'' = Inr (1, True)" by simp
  show "read_fence install_key install_tx = Inr (Some ''1:a'', install_tx)"
    by (simp add: read_fence_def tx_bind_def tx_lift_def install_meta meta_row_def p)
qed

lemma install_load: "load_v2 install_codec install_key install_tx = Inr (Some install_before, install_tx)"
  using install_stored by (intro load_v2_unlimited) (simp add: journal_stored_def)

lemma install_inspected:
  "inspect_stage install_env install_tables install_key install_tx
     = Inr (\<lparr>is_budget = (1, 1), is_stage = Some install_open\<rparr>, install_tx)"
proof -
  let ?tables = "set (header_table # page_table # all_tables)"
  have pages: "select_pages install_tables install_key = []"
    by (simp add: select_pages_def install_tables_def)
  have header: "fmlookup (st_headers install_tables) (key_row install_key) = Some install_header"
    by (simp add: install_tables_def)
  have tables: "\<forall>t \<in> set all_tables. t \<in> ?tables" "header_table \<in> ?tables" "page_table \<in> ?tables" by auto
  have comps: "component_lengths length install_key install_db t = []" for t
    by (simp add: component_lengths_def select_components_def install_db_def written_def rows_written_def empty_db_def install_rows_def)
  have meta: "meta_lengths length install_key install_db = [\<lparr>il_payload_bytes = 1, il_partition_bytes = 1, il_client_bytes = 1, il_key_bytes = 0\<rparr>]"
    by (simp add: meta_lengths_def install_meta meta_row_def install_rows_def) (simp add: install_key_def)
  have other: "legacy_lengths length install_key install_db = []" "fmlookup (db_barriers install_db) (key_row install_key) = None"
    by (simp_all add: legacy_lengths_def install_db_def written_def empty_db_def)
  have "inspection_length_budget \<lparr>il_payload_bytes = 1, il_partition_bytes = 1, il_client_bytes = 1, il_key_bytes = 0\<rparr> False (0, 0) = Inr (1, 0)"
    by (simp add: inspection_length_budget_def max_encoded_identity_def max_state_identity_bytes_def max_sync_state_bytes_def
        max_aggregate_state_bytes_def max_component_items_def max_component_key_bytes_def)
  then have "inspection_sizes length ?tables install_key install_db = Inr (1, 1)"
    by (simp add: inspection_sizes_def meta other is_some_and_def)
      (simp add: all_tables_def inspected_components_def comps)
  then have pre: "preflight_inspection (se_encoded install_env) ?tables install_key install_tx = Inr ((1, 1), install_tx)"
    by (simp add: preflight_inspection_def tx_bind_def tx_lift_def install_env_def) (simp add: all_tables_def)
  have digits: "length (u64_text 1) = 1" by code_simp
  have admitted: "try_fold admit_lengths 0 [header_lengths install_header] = Inr (length start_bytes + length manifest_bytes + length (u64_text 1))"
    using install_lengths digits
    by (simp add: admit_lengths_def header_lengths_def install_header_def new_header_def max_sync_state_bytes_def)
  have decoded: "decode_header install_env install_key install_header False = Inr install_manifest"
    using install_validated(1)
    by (simp add: decode_header_def install_header_def new_header_def install_context_def context_key_def install_decodes
        flip: install_keys(2))
  have checks: "check_consumed install_header = Inr ()" "parse_revision (sh_incarnation install_header) = Inr 1"
    "check_fence install_header 1 (Some ''1:a'') = Inr ()"
    by (simp_all add: check_consumed_def check_fence_def install_header_def new_header_def install_fence)
  have schema: "st_schema install_tables = Some ?tables" by (simp add: install_tables_def)
  have "inspect_stage_with_tables install_env install_tables install_key ?tables install_tx
     = Inr (\<lparr>is_budget = (1, 1), is_stage = Some install_open\<rparr>, install_tx)"
    using install_lengths pre admitted digits tables
    by (simp add: inspect_stage_with_tables_def tx_bind_def Let_def tx_lift_def pages header decoded install_fence checks
        max_aggregate_state_bytes_def max_component_items_def del: set_simps)
  then show ?thesis by (simp add: inspect_stage_def schema tx_bind_def)
qed

lemma install_row_key: "row_key_bytes install_env install_key index = Inr 1"
  by (simp add: row_key_bytes_def encode_tagged_def install_codec_def max_sync_state_bytes_def)

lemma install_budget:
  "state_budget install_codec install_before = Inr (1, 1)" "state_budget install_codec install_after = Inr (1, 1)"
  "normalized_budget (install_rows payload) = (length payload, 1)"
  by (simp_all add: state_budget_def install_normalized normalized_budget_def payload_bytes_def) (simp_all add: install_rows_def)

lemma install_fits: "check_budget install_env install_key (1, 1) install_open = Inr ()"
  using install_lengths
  by (simp add: check_budget_def install_header_def new_header_def install_row_key final_overhead_def
      max_sync_state_bytes_def max_aggregate_state_bytes_def max_component_items_def)

lemma install_prepared:
  "prepare_bootstrap_snapshot \<lparr>rt_state = install_before\<rparr> install_checkpoint [] =
     Inr \<lparr>base_revision = 0, prepared_state = install_after\<rparr>"
  by code_simp

lemma install_completion:
  "prepare_completion install_env install_clock install_key receipt_bytes install_receipt install_open install_before
     = Inr (install_after, 2)"
proof -
  have clock: "clock_check install_clock k (bm_expires_at install_manifest) = Inr ()" for k
    by (simp add: clock_check_def install_clock_def install_manifest_def demo_manifest_def word_le_nat_alt)
  have new: "verifier_new rfc_ser (\<lambda>_. replicate 32 0) install_manifest = Inr
      \<lparr>bv_manifest = install_manifest, bv_manifest_digest = zero_digest,
       bv_content = \<lparr>h_session_id = ''x'', next_index = 0, h_records = 0, h_bytes = 0, last_id = None, root_input = frame [] root_domain\<rparr>\<rparr>"
    by (simp add: verifier_new_def install_env_def install_digest)
      (simp add: hasher_new_def install_manifest_def demo_manifest_def max_identity_bytes_def)
  have fin: "verifier_finish (\<lambda>_. replicate 32 0) \<lparr>bv_manifest = install_manifest, bv_manifest_digest = zero_digest,
       bv_content = \<lparr>h_session_id = ''x'', next_index = 0, h_records = 0, h_bytes = 0, last_id = None, root_input = frame [] root_domain\<rparr>\<rparr>
    = Inr \<lparr>su_page_count = 0, su_record_count = 0, su_content_bytes = 0, su_root = zero_digest\<rparr>"
    by (simp add: verifier_finish_def hasher_summary_def Let_def install_env_def)
      (simp add: install_manifest_def demo_manifest_def zero_digest_def)
  have opened: "open_runtime install_before = Inr \<lparr>rt_state = install_before\<rparr>"
    using install_valid(1) by (simp add: open_runtime_def validate_iff[symmetric])
  have codec: "validate_state_codec (se_bridge install_env) install_after = Inr ()"
    by (simp add: validate_state_codec_def install_after_def install_before_def empty_state_def subscription_records_def)
  have "final_budget install_env install_key install_before install_after install_open receipt_bytes = Inr ()"
    using install_lengths
    by (simp add: final_budget_def install_budget Let_def install_header_def new_header_def final_overhead_def
        max_sync_state_bytes_def max_aggregate_state_bytes_def max_component_items_def)
  then show ?thesis
    by (simp add: prepare_completion_def Let_def install_budget install_fits[simplified] new fin clock opened codec)
      (simp add: install_receipt_def install_prepared codec)
qed

definition install_final :: "string native_scalar store_db" where
  "install_final = written install_key fmempty (install_rows [49]) (Some ''2:a'') install_db"

lemma install_transition:
  "apply_transition_in_transaction install_env install_tables install_before install_after install_tx
     = Inr (Applied, \<lparr>tx_db = install_final, tx_calls = None\<rparr>)"
proof -
  have key: "validate_key install_key = Inr ()" by (simp add: validate_key_def install_key_def max_state_identity_bytes_def)
  have prep: "prepare_state_write install_codec (Some (revision install_before)) install_after = Inr (install_key, install_rows [49])"
    using install_valid(2) key
    by (simp add: prepare_state_write_def Let_def validate_iff[symmetric] install_normalized)
      (simp add: install_after_def install_before_def empty_state_def install_key_def validate_next_revision_def checked_add_def)
  have guard: "state_write_guard install_env install_tables install_key True (1, 1) install_tx = Inr ((), install_tx)"
    by (simp add: state_write_guard_def load_stage_def tx_bind_def install_inspected tx_lift_def install_fits[simplified])
      (simp add: install_header_def new_header_def)
  have two: "u64_text 2 = ''2''" by code_simp
  have "next_fence (Some ''1:a'') = Inr ''2:a''"
    by (simp add: next_fence_def install_fence checked_add_def two)
  then have g: "guard_state_write (state_write_guard install_env install_tables) install_key (1, 1) install_tx = Inr (Some ''2:a'', install_tx)"
    by (simp add: guard_state_write_def tx_bind_def install_fence guard[simplified] tx_lift_def)
  have rows: "nr_components (install_rows p) = fmempty" "nr_format_version (install_rows p) = 2" "nr_meta (install_rows p) = p" for p
    by (simp_all add: install_rows_def)
  have "write_row_diff (state_write_guard install_env install_tables) install_key (Some (install_rows [48])) (install_rows [49]) install_tx
      = Inr ((), \<lparr>tx_db = install_final, tx_calls = None\<rparr>)"
    by (simp add: write_row_diff_def install_budget rows Let_def tx_bind_def g[simplified] upsert_meta_def write_fence_def tx_lift_def)
      (simp add: install_final_def written_def rows_written_def rows meta_row_def)
  moreover have "revision install_before \<noteq> revision install_after" "subscriptions install_before = None"
    by (simp_all add: install_after_def install_before_def empty_state_def)
  moreover have "optimistic_projection install_before = fmempty" "optimistic_projection install_after = fmempty" by code_simp+
  ultimately show ?thesis
    by (simp add: apply_transition_in_transaction_def prep tx_bind_def tx_lift_def transition_body_def
        replace_v2_in_transaction_def install_load install_normalized is_some_and_def apply_projection_diff_def
        sorted_list_of_fset.rep_eq)
qed

lemma install_completes:
  "\<exists>db' st'. complete_stage install_env demo_engine install_clock receipt_bytes install_context 1 (install_db, install_tables)
     = (Inr (AppliedSnapshot install_after), (db', st'))"
proof -
  let ?h = "install_header\<lparr>sh_cancelled := True, sh_consumed_receipt := Some receipt_bytes,
      sh_consumed_revision := Some (u64_text (revision install_after))\<rparr>"
  have "fmlookup (db_meta install_final) (key_row install_key) = Some (meta_row install_key (install_rows [49]) (Some ''2:a''))"
    by (simp add: install_final_def written_def)
  moreover have two: "parse_metadata_fence ''2:a'' = Inr (2, True)" 
  proof -
    have "u64_text 2 = ''2''" by code_simp
    with parse_fence_text(1)[of 2] show ?thesis by simp
  qed
  ultimately have fence: "read_fence install_key \<lparr>tx_db = install_final, tx_calls = None\<rparr> = Inr (Some ''2:a'', \<lparr>tx_db = install_final, tx_calls = None\<rparr>)"
    by (simp add: read_fence_def tx_bind_def tx_lift_def meta_row_def)
  have "next_incarnation (Some ''2:a'') = Inr 3"
    by (simp add: next_incarnation_def next_fence_def two checked_add_def)
  then have close: "\<exists>db'. close_fence install_key (Some ''2:a'') \<lparr>tx_db = install_final, tx_calls = None\<rparr> = Inr ((), \<lparr>tx_db = db', tx_calls = None\<rparr>)"
    by (simp add: close_fence_def tx_bind_def tx_lift_def write_fence_def)
  have install: "\<exists>st' db'. install_stage install_env install_key receipt_bytes install_open install_before install_after install_tables install_tx
      = Inr (st', \<lparr>tx_db = db', tx_calls = None\<rparr>)"
    using close by (auto simp: install_stage_def tx_bind_def install_transition page_indices_def tx_lift_def put_header_def fence
        check_marker_def)
  have barrier: "check_barrier install_key install_tx = Inr ((), install_tx)"
    by (simp add: check_barrier_def tx_bind_def tx_lift_def) (simp add: install_db_def written_def empty_db_def)
  have clock: "clock_check install_clock k (bm_expires_at install_manifest) = Inr ()" for k
    by (simp add: clock_check_def install_clock_def install_manifest_def demo_manifest_def word_le_nat_alt)
  have state: "transaction_state_after_preflight install_codec install_key install_tx = Inr (install_before, install_tx)"
    by (simp add: transaction_state_after_preflight_def tx_bind_def install_load tx_lift_def)
  have perform: "\<exists>st' db'. perform_completion install_env install_clock install_key receipt_bytes install_receipt install_open install_tables install_tx
      = Inr ((AppliedSnapshot install_after, st'), \<lparr>tx_db = db', tx_calls = None\<rparr>)"
    using install by (auto simp: perform_completion_def tx_bind_def barrier tx_lift_def clock state install_completion)
  have header: "sh_start install_header = start_bytes" "sh_consumed_receipt install_header = None" "\<not> sh_cancelled install_header"
    "check_incarnation install_header 1 = Inr ()"
    by (simp_all add: install_header_def new_header_def check_incarnation_def)
  have "\<exists>st' db'. complete_in_transaction install_env install_clock receipt_bytes install_receipt install_context 1 install_tables install_tx
      = Inr ((AppliedSnapshot install_after, st'), \<lparr>tx_db = db', tx_calls = None\<rparr>)"
    using perform by (simp add: complete_in_transaction_def install_keys tx_bind_def install_inspected tx_lift_def header install_validated)
  moreover have "validate_key install_key = Inr ()" by (simp add: validate_key_def install_key_def max_state_identity_bytes_def)
  moreover have "decode_receipt install_env receipt_bytes = Inr install_receipt"
    by (simp add: decode_receipt_def install_env_def install_decodes)
  ultimately show ?thesis
    using install_lengths(3)
    by (auto simp: complete_stage_def after_check_def install_keys run_stage_def finish_stage_def demo_engine_def max_sync_state_bytes_def)
qed

definition installed_tables :: stage_tables where
  "installed_tables = install_tables\<lparr>st_headers := fmupd (key_row install_key)
     (install_header\<lparr>sh_cancelled := True, sh_consumed_receipt := Some receipt_bytes, sh_consumed_revision := Some (u64_text 1)\<rparr>) fmempty\<rparr>"

lemma installed_attempt: "attempt_of installed_tables install_key = InstalledAttempt 1 manifest_bytes receipt_bytes"
  by (simp add: attempt_of_def installed_tables_def install_header_def new_header_def incarnation_of_def)

end
