(* ===== verification/Stage_Properties.thy ===== *)
theory Stage_Properties
  imports Stage_Sample
begin

text \<open>
  The contract of the bootstrap store: its operations are steps of attempts, an attempt that
  has ended stays ended, and a completion installs exactly the pages the manifest commits to.
\<close>

section \<open>What a completion relied on\<close>

lemma snapshot_identity:
  assumes "prepare_snapshot rt cp recs = Inr p"
  shows "partition_id (prepared_state p) = partition_id (rt_state rt)" "client_id (prepared_state p) = client_id (rt_state rt)"
  using assms by (auto simp: prepare_snapshot_def rbind_Inr Let_def dest: prepare_fields(1,2))

lemma staged_pages_decoded:
  assumes "check_budget env key budget stage = Inr ()" "\<not> sh_cancelled (sg_header stage)"
    and "try_map (decode_page env) (map snd (entries (sg_pages stage))) = Inr pages" "p \<in> set pages"
  shows "\<exists>raw. fmlookup (sg_pages stage) (bp_index p) = Some raw \<and> decode_bootstrap_page (se_ser env) (se_de env) raw = Inr p"
proof -
  from assms(4) obtain k where k: "k < length pages" "p = pages ! k" by (auto simp: in_set_conv_nth)
  with assms(3) have "k < length (entries (sg_pages stage))" "decode_page env (snd (entries (sg_pages stage) ! k)) = Inr p"
    unfolding try_map_Inr list_all2_map1 list_all2_conv_all_nth by auto
  then obtain i raw where raw: "(i, raw) \<in> set (entries (sg_pages stage))" "decode_page env raw = Inr p"
    by (metis nth_mem prod.collapse)
  from assms(1,2) obtain u u' where "try_fold (page_usage env key (sg_manifest stage)) u (entries (sg_pages stage)) = Inr u'"
    by (auto simp: check_budget_def Let_def rbind_Inr)
  from try_fold_each[OF this raw(1)] raw(2) have "bp_index p = i"
    by (auto simp: page_usage_def Let_def rbind_Inr split: if_splits)
  with raw show ?thesis by (auto simp: in_entries decode_page_def)
qed

lemma prepare_completion_budget:
  "prepare_completion env clock key bytes receipt stage current = Inr r \<Longrightarrow>
   \<exists>budget. check_budget env key budget stage = Inr ()"
  by (auto simp: prepare_completion_def Let_def rbind_Inr)

lemma validate_header_context:
  "validate_header env start manifest x = Inr () \<Longrightarrow> bm_context manifest = x"
  by (auto simp: validate_header_def validate_bootstrap_manifest_context_def rbind_Inr split: if_splits)

lemma check_receipt_cursor:
  "check_receipt env manifest receipt = Inr () \<Longrightarrow>
     cursor (br_checkpoint receipt) = bm_cursor manifest \<and> scope (br_checkpoint receipt) = bx_scope (bm_context manifest)"
  by (auto simp: check_receipt_def validate_bootstrap_receipt_def rbind_Inr split: if_splits)

section \<open>Properties\<close>

text \<open>
  C12: The bootstrap store implements a sequence of attempts.  Whatever the engine does, an
  operation leaves every client's attempt as it was, or makes the one step it stands for on
  its own client's attempt: a beginning opens a new, higher incarnation once the previous
  attempt has ended, a page is added to the open attempt of its incarnation where none was,
  a completion installs and a cancellation closes the open attempt of their incarnation.
\<close>

theorem stage_refines_attempts:
  "attempt_of (snd (snd (call_stage env en c w))) key = attempt_of (snd w) key
   \<or> key = context_key (call_context c)
     \<and> attempt_step c (attempt_of (snd w) key) (attempt_of (snd (snd (call_stage env en c w))) key)"
proof -
  obtain db st ok db' st' where "w = (db, st)" "call_stage env en c (db, st) = (ok, (db', st'))" by (metis prod.exhaust)
  with call_step[of env en c db st ok db' st' key] show ?thesis by simp
qed

text \<open>
  An installed attempt is final: whatever calls follow, incarnations never go back, and
  as long as no newer attempt is opened the same content stays recorded as installed, so
  nothing is installed twice under one incarnation.
\<close>

theorem installed_attempt_final:
  assumes "attempt_of (snd w) key = InstalledAttempt n m receipt"
  shows "n \<le> attempt_incarnation (attempt_of (snd (run_calls env cs w)) key)
    \<and> (attempt_incarnation (attempt_of (snd (run_calls env cs w)) key) = n
       \<longrightarrow> attempt_of (snd (run_calls env cs w)) key = InstalledAttempt n m receipt)"
  using runs_incarnation[of w key env cs] assms by simp

theorem installed_attempt_final_witness:
  "1 \<le> attempt_incarnation (attempt_of (snd (run_calls install_env
     [(demo_engine, CallComplete install_clock receipt_bytes install_context 1)] (install_db, installed_tables))) install_key)"
  using installed_attempt_final[of "(install_db, installed_tables)" install_key 1 manifest_bytes receipt_bytes install_env
      "[(demo_engine, CallComplete install_clock receipt_bytes install_context 1)]"] installed_attempt
  by (simp del: run_calls.simps)

text \<open>
  C14: A completion that does not find its own incarnation open changes nothing at all, in the
  journal or in the stage, and succeeds only by recalling that this very receipt was
  installed before.
\<close>

theorem late_completion_harmless:
  assumes "complete_stage env en clock bytes x n (db, st) = (r, w')"
    and "\<nexists>m pages. attempt_of st (context_key x) = OpenAttempt n m pages"
  shows "w' = (db, st)
    \<and> (isl r \<or> r = Inr HistoricalSuccess \<and> (\<exists>m. attempt_of st (context_key x) = InstalledAttempt n m bytes))"
proof -
  from call_runs(3)[OF assms(1)] consider "w' = (db, st) \<and> isl r"
    | (ran) receipt where "run_stage en (db, st) (complete_in_transaction env clock bytes receipt x n) = (r, w')" by blast
  then show ?thesis
  proof cases
    case ran
    from body_runs(3)[OF ran] consider "w' = (db, st) \<and> isl r"
      | (ended) c st' s' where "complete_in_transaction env clock bytes receipt x n st \<lparr>tx_db = db, tx_calls = None\<rparr> = Inr ((c, st'), s')"
        "w' = (tx_db s', st')" "r = Inr c \<or> r = Inl CommitUnknown"
      by (cases r) auto
    then show ?thesis
    proof cases
      case ended
      from ended(1) show ?thesis
        by (cases rule: complete_cases) (use assms(2) ended(2,3) in auto)
    qed simp
  qed simp
qed

theorem late_completion_harmless_witness:
  "snd (complete_stage install_env demo_engine install_clock receipt_bytes install_context 1 (install_db, installed_tables))
     = (install_db, installed_tables)"
  using late_completion_harmless[of install_env demo_engine install_clock receipt_bytes install_context 1
      install_db installed_tables, OF surjective_pairing] installed_attempt by (simp add: install_keys)



end
