(* ===== verification/Store_Private.thy ===== *)
theory Store_Private
  imports Store_Properties
begin

text \<open>
  Records in the store's own tables.  \<open>native_record_id\<close> refuses six of the eight journal
  tables; a projected record in the table of subscription rows is written, and the next
  load of the client it names finds a row that is not listed.
\<close>

section \<open>Rows that a load finds\<close>

lemma inventory_insert_found:
  assumes "inventory_insert key table inventory row = Inr inv'"
  shows "fmlookup inventory (table, cr_component_key row) = None"
    and "inv' = fmupd (table, cr_component_key row) (cr_payload row) inventory"
  using assms by (auto simp: inventory_insert_def rbind_Inr Let_def contains_key_dom fmlookup_dom_iff split: if_splits)

lemma try_fold_found:
  "try_fold (inventory_insert key table) inventory rows = Inr inv' \<Longrightarrow>
   distinct (map cr_component_key rows) \<and> (\<forall>row \<in> set rows. fmlookup inventory (table, cr_component_key row) = None
     \<and> fmlookup inv' (table, cr_component_key row) \<noteq> None)
   \<and> (\<forall>a. fmlookup inventory a \<noteq> None \<longrightarrow> fmlookup inv' a \<noteq> None)"
proof (induction rows arbitrary: inventory)
  case (Cons row rows)
  from Cons.prems obtain inv1 where i: "inventory_insert key table inventory row = Inr inv1"
      "try_fold (inventory_insert key table) inv1 rows = Inr inv'"
    by (auto simp: rbind_Inr)
  note found = inventory_insert_found[OF i(1)]
  show ?case using Cons.IH[OF i(2)] found by (auto split: if_splits)
qed simp

lemma load_subscription_rows:
  assumes "loaded cd db key = Inr (Some s)"
  shows "distinct (map cr_component_key (client_rows subscription_record_table key db))"
    and "row \<in> set (client_rows subscription_record_table key db) \<Longrightarrow>
      address_in s (subscription_record_table, cr_component_key row)"
    and "\<exists>meta. fmlookup (db_meta db) (key_row key) = Some meta
      \<and> decode_tagged cd (value_meta cd) (mr_payload meta) = Inr (state_meta_of s)"
proof -
  let ?rows = "client_rows subscription_record_table key db"
  from assms obtain m found meta where t: "table_result key m subscription_record_table
        (select_components subscription_record_table key db) = Inr found"
      "fmlookup (db_meta db) (key_row key) = Some meta" "represents cd key meta found s"
    by (auto simp: loaded_pure rbind_Inr decode_state_represents split: option.splits if_splits)
  have "select_components subscription_record_table key db = take (max_component_items + 1) ?rows"
    by (simp add: select_components_def client_rows_def)
  with t(1) have "try_fold (inventory_insert key subscription_record_table) m ?rows = Inr found"
    by (auto simp: table_result_def split: if_splits)
  note f = try_fold_found[OF this]
  show "distinct (map cr_component_key ?rows)" using f by blast
  show "row \<in> set ?rows \<Longrightarrow> address_in s (subscription_record_table, cr_component_key row)"
    using f t(3) unfolding represents_def by blast
  show "\<exists>meta. fmlookup (db_meta db) (key_row key) = Some meta
      \<and> decode_tagged cd (value_meta cd) (mr_payload meta) = Inr (state_meta_of s)"
    using t(2,3) by (auto simp: represents_def)
qed

lemma distinct_map_filter_snd:
  assumes "distinct (map f (map snd (filter P (entries m))))"
    and "fmlookup m i = Some x" "fmlookup m j = Some y" "P (i, x)" "P (j, y)" "f x = f y"
  shows "i = j"
proof -
  have "(i, x) \<in> set (filter P (entries m))" "(j, y) \<in> set (filter P (entries m))"
    using assms(2-5) by (auto simp: in_entries)
  with assms(1,6) have "(i, x) = (j, y)"
    unfolding map_map distinct_map inj_on_def by fastforce
  then show ?thesis by simp
qed

lemma client_rows_ids:
  assumes "distinct (map cr_component_key (client_rows table key db))"
    and "fmlookup (db_components db) (table, i) = Some row" "fmlookup (db_components db) (table, j) = Some row'"
    and "owned_by key row" "owned_by key row'" "cr_component_key row = cr_component_key row'"
  shows "i = j"
proof -
  have c: "client_rows table key db =
      map snd (filter (\<lambda>(i, row). fst i = table \<and> owned_by key row) (entries (db_components db)))"
    by (simp add: client_rows_def filter_map comp_def case_prod_unfold owned_by_def)
  have "(table, i) = (table, j)"
    by (rule distinct_map_filter_snd[OF assms(1)[unfolded c] assms(2,3)]) (use assms(4-6) in auto)
  then show ?thesis by simp
qed

lemma foreign_row_breaks_load:
  assumes "rows_owned db" "loaded cd db key = Inr (Some s)"
    and meta: "fmlookup (db_meta db') (key_row key) = fmlookup (db_meta db) (key_row key)"
    and keep: "\<And>a. fmlookup (db_components db) (component_record_id key a) \<noteq> None \<Longrightarrow>
      fmlookup (db_components db') (component_record_id key a) = fmlookup (db_components db) (component_record_id key a)"
    and new: "fmlookup (db_components db') (subscription_record_table, [k]) = Some row" "owned_by key row"
  shows "\<exists>e. loaded cd db' key = Inl e"
proof (rule ccontr)
  assume "\<nexists>e. loaded cd db' key = Inl e"
  moreover have "loaded cd db' key \<noteq> Inr None"
    using load_subscription_rows(3)[OF assms(2)] meta
    by (auto simp: loaded_pure rbind_Inr split: option.splits)
  ultimately obtain t where t: "loaded cd db' key = Inr (Some t)"
    by (cases "loaded cd db' key") auto
  note l = load_subscription_rows[OF t]
  have same: "state_meta_of t = state_meta_of s"
    using load_subscription_rows(3)[OF assms(2)] l(3) meta by auto
  have "row \<in> set (client_rows subscription_record_table key db')"
    using new by (force simp: client_rows_def owned_by_def in_entries)
  from l(2)[OF this] have "address_in s (subscription_record_table, cr_component_key row)"
    by (simp add: address_in_meta same)
  moreover have "fmlookup (inventory_of key db) a \<noteq> None \<longleftrightarrow> address_in s a" for a
    using assms(2) unfolding loaded_Some[OF assms(1)] represents_def by blast
  ultimately have "fmlookup (inventory_of key db) (subscription_record_table, cr_component_key row) \<noteq> None" by blast
  then obtain old where old: "fmlookup (db_components db)
      (component_record_id key (subscription_record_table, cr_component_key row)) = Some old"
    by (auto simp: inventory_of_lookup[OF assms(1)] split: if_splits)
  then have "fmlookup (db_components db') (subscription_record_table, key_row key @ [cr_component_key row]) = Some old"
    using keep[of "(subscription_record_table, cr_component_key row)"] by (simp add: component_record_id_def)
  from client_rows_ids[OF l(1) new(1) this new(2)] owned_row[OF assms(1) old]
  have "[k] = key_row key @ [cr_component_key row]" by (simp add: owned_by_def)
  then show False by (simp add: key_row_def)
qed

section \<open>Rows that a projection leaves\<close>

lemma put_record_components:
  "fmlookup (db_components (put_record sx native content db)) (t, i) =
     (if sx_table sx native = subscription_record_table \<and> t = subscription_record_table \<and> i = [sx_key sx native]
      then Option.bind content (sx_component sx) else fmlookup (db_components db) (t, i))"
  by (auto simp: put_record_def Let_def split: option.splits)

lemma project_fold_keeps:
  "db_meta (fold (project_one lib sx rows) rs db) = db_meta db"
  "length i \<noteq> 1 \<Longrightarrow> fmlookup (db_components (fold (project_one lib sx rows) rs db)) (t, i) =
     fmlookup (db_components db) (t, i)"
proof -
  have "db_meta (put_record sx n c db) = db_meta db" for n c and db :: "'a store_db"
    by (simp add: put_record_def Let_def)
  then show "db_meta (fold (project_one lib sx rows) rs db) = db_meta db"
    by (induction rs arbitrary: db) (auto simp: project_one_def)
  show "length i \<noteq> 1 \<Longrightarrow> fmlookup (db_components (fold (project_one lib sx rows) rs db)) (t, i) =
     fmlookup (db_components db) (t, i)"
    by (induction rs arbitrary: db) (auto simp: project_one_def put_record_components)
qed

lemma project_fold_leaves:
  assumes "native_record_id lib sx r = Inr n" "sx_table sx n = subscription_record_table"
    and "r \<in> set rs" "distinct rs"
    and "\<forall>r' \<in> set rs. r' \<noteq> r \<longrightarrow> sx_table sx (projr (native_record_id lib sx r')) = subscription_record_table \<longrightarrow>
      sx_key sx (projr (native_record_id lib sx r')) \<noteq> sx_key sx n"
  shows "fmlookup (db_components (fold (project_one lib sx rows) rs db)) (subscription_record_table, [sx_key sx n]) =
    Option.bind (app_content lib (fmlookup rows r)) (sx_component sx)"
proof -
  from assms(3,4) obtain xs ys where rs: "rs = xs @ r # ys" "r \<notin> set ys"
    by (metis distinct.simps(2) distinct_append split_list)
  have "r \<notin> set ys \<Longrightarrow> set ys \<subseteq> set rs \<Longrightarrow>
      fmlookup (db_components (fold (project_one lib sx rows) ys db)) (subscription_record_table, [sx_key sx n]) =
      fmlookup (db_components db) (subscription_record_table, [sx_key sx n])" for db
    by (induction ys arbitrary: db) (use assms(5) in \<open>auto simp: project_one_def put_record_components\<close>)
  moreover have "set ys \<subseteq> set rs" using rs(1) by auto
  ultimately have "fmlookup (db_components (fold (project_one lib sx rows) ys db)) (subscription_record_table, [sx_key sx n]) =
      fmlookup (db_components db) (subscription_record_table, [sx_key sx n])" for db
    using rs(2) by blast
  then show ?thesis
    using rs(1) assms(1,2) by (simp add: project_one_def put_record_components)
qed

section \<open>The journal that no longer loads\<close>

lemma written_loaded:
  assumes "journal_stored cd db key current" "normalize_state cd current = Inr old"
    and "normalize_state cd next_state = Inr rows" "faithful_codec cd next_state" "valid_state next_state"
    and "key = (partition_id next_state, client_id next_state)" "loaded cd db k = Inr (Some s)"
  shows "\<exists>t. loaded cd (written key (nr_components old) rows fence db) k = Inr (Some t)"
proof (cases "k = key")
  case True
  have "inventory_of key db = nr_components old" using assms(1,2) by (auto simp: journal_stored_def)
  with written_stored[OF stored_rows_ok(1)[OF assms(1)] _ stored_rows_ok(2)[OF assms(1)] assms(3-6)] True
  show ?thesis by (auto simp: journal_stored_def)
next
  case False
  let ?db = "written key (nr_components old) rows fence db"
  from written_other[where app = "db_app ?db" and old = "nr_components old" and rows = rows and fence = fence, OF stored_rows_ok(1)[OF assms(1)] False] assms(7)
  show ?thesis by simp
qed

text \<open>
  C38: A record in the table of subscription rows is accepted, and the journal it names is
  lost.  If a transition of a stored journal succeeds and projects a new or changed record
  into \<open>_sync_client_subscription_record\<close> whose content the schema takes for a row of some
  client (the same one or another) with a stored journal, then that client's journal no
  longer loads.
\<close>
theorem private_record_blocks_journal:
  assumes "journal_stored cd db (partition_id current, client_id current) current"
    and "faithful_codec cd next_state" "stage_reads stage" "current \<noteq> next_state"
    and "apply_transition_atomic cd stage lib sx en db current next_state = (Inr w, db')"
    and "fmlookup (optimistic_projection current) r \<noteq> fmlookup (optimistic_projection next_state) r"
    and "native_record_id lib sx r = Inr n" "sx_table sx n = subscription_record_table"
    and "app_content lib (fmlookup (optimistic_projection next_state) r) = Some content"
    and "sx_component sx content = Some row" "owned_by key row" "loaded cd db key = Inr (Some s)"
    and "\<forall>r' \<in> fset (fmdom (optimistic_projection current) |\<union>| fmdom (optimistic_projection next_state)).
      r' \<noteq> r \<longrightarrow> (\<forall>n'. native_record_id lib sx r' = Inr n' \<longrightarrow>
        sx_table sx n' = subscription_record_table \<longrightarrow> sx_key sx n' \<noteq> sx_key sx n)"
  shows "\<exists>e. loaded cd db' key = Inl e"
proof -
  let ?key = "(partition_id current, client_id current)" and ?next = "optimistic_projection next_state"
  let ?changed = "filter (\<lambda>r. fmlookup (optimistic_projection current) r \<noteq> fmlookup ?next r)
    (sorted_list_of_fset (fmdom (optimistic_projection current) |\<union>| fmdom ?next))"
  from apply_transition_run[OF assms(4,5)] obtain rows where
    rows: "prepare_state_write cd (Some (revision current)) next_state = Inr (?key, rows)"
      "run_transaction en db (transition_body cd stage lib sx ?key current next_state rows) = (Inr w, db')"
    by blast
  then obtain d s' where run: "transition_body cd stage lib sx ?key current next_state rows
      \<lparr>tx_db = db, tx_calls = None\<rparr> = Inr (d, s')" "db' = tx_db s'"
    using run_transaction_cases[OF rows(2) transition_monotone[OF assms(3)]] by blast
  note e = transition_effect[OF assms(3) rows(1) run(1)] and k = prepare_state_write_Inr[OF rows(1)]
  from e(4) run(2) obtain old fence where old: "normalize_state cd current = Inr old"
      "db' = fold (project_one lib sx ?next) ?changed (written ?key (nr_components old) rows fence db)" by blast
  let ?db = "written ?key (nr_components old) rows fence db"
  obtain t where t: "loaded cd ?db key = Inr (Some t)"
    using written_loaded[OF assms(1) old(1) k(2) assms(2) k(3) k(1) assms(12)] by blast
  have in_changed: "r \<in> set ?changed"
    using assms(6) by (cases "fmlookup ?next r"; cases "fmlookup (optimistic_projection current) r") (auto intro: fmdomI)
  have "sx_key sx (projr (native_record_id lib sx r')) \<noteq> sx_key sx n"
    if r': "r' \<in> set ?changed" "r' \<noteq> r" "sx_table sx (projr (native_record_id lib sx r')) = subscription_record_table" for r'
  proof -
    obtain n' where "native_record_id lib sx r' = Inr n'" using e(3) r'(1) by blast
    moreover have "r' \<in> fset (fmdom (optimistic_projection current) |\<union>| fmdom ?next)" using r'(1) by simp
    ultimately show ?thesis using assms(13) r'(2,3) by (metis sum.sel(2))
  qed
  then have "fmlookup (db_components db') (subscription_record_table, [sx_key sx n]) = Some row"
    unfolding old(2) using assms(9,10)
    by (subst project_fold_leaves[OF assms(7,8) in_changed]) (auto simp: sorted_list_of_fset.rep_eq)
  from foreign_row_breaks_load[OF written_owned[OF stored_rows_ok(1)[OF assms(1)]] t _ _ this assms(11)]
  show ?thesis by (simp add: old(2) project_fold_keeps component_record_id_def key_row_def)
qed

text \<open>A client upserts a record that reads as a row of its own journal.\<close>

definition private_content :: "(string \<times> string surreal_value) list" where
  "private_content = [(''client_id'', SString ''client-a''), (''component_key'', SString ''x''),
     (''format_version'', SInt 2), (''partition_id'', SString ''primary''), (''payload'', SBytes [112])]"

definition private_value :: json where
  "private_value = to_wire_value demo_lib (SObject private_content)"

definition private_commit :: "json client_commit" where
  "private_commit = stored_commit\<lparr>operations :=
     [Upsert (RecordId ''_sync_client_subscription_record:x'') BaseAbsent private_value None]\<rparr>"

definition private_after :: stored_sync_state where
  "private_after = stored_before\<lparr>outbox := [private_commit], revision := 1\<rparr>"

definition private_codec :: store_codec where
  "private_codec = demo_codec
     \<lparr>meta_value := (\<lambda>m. if m = state_meta_of stored_before then Some (JString ''0'')
                      else if m = state_meta_of private_after then Some (JString ''1'') else None),
      value_meta := (\<lambda>v. if v = JString ''0'' then Some (state_meta_of stored_before)
                      else if v = JString ''1'' then Some (state_meta_of private_after) else None),
      commit_value := (\<lambda>c. if c = private_commit then Some (JString ''c'') else None),
      value_commit := (\<lambda>v. if v = JString ''c'' then Some private_commit else None)\<rparr>"

definition private_row :: stored_component_row where
  "private_row = \<lparr>cr_format_version = 2, cr_partition_id = ''primary'', cr_client_id = ''client-a'',
     cr_component_key = ''x'', cr_payload = [112]\<rparr>"

lemma private_neq: "stored_before \<noteq> private_after" "state_meta_of private_after \<noteq> state_meta_of stored_before"
  by (auto simp: stored_before_def private_after_def empty_state_def state_meta_of_def)

lemma private_faithful: "faithful_codec private_codec stored_before" "faithful_codec private_codec private_after"
  by (auto simp: faithful_codec_def number_law_def serde_ok_def)
    (auto simp: private_codec_def demo_codec_def private_neq stored_before_def private_after_def empty_state_def
      subscription_records_def split: if_splits)

lemma private_encoded:
  "encode_tagged private_codec (meta_value private_codec (state_meta_of stored_before)) = Inr [48]"
  "encode_tagged private_codec (meta_value private_codec (state_meta_of private_after)) = Inr [49]"
  "encode_tagged private_codec (commit_value private_codec private_commit) = Inr [99]"
  by (simp_all add: encode_tagged_def private_codec_def demo_codec_def private_neq max_sync_state_bytes_def)

lemma private_items:
  "component_items private_codec stored_before = []"
  "component_items private_codec private_after = [((outbox_table, ''c1''), Inr [99])]"
  using private_encoded(3)
  by (simp_all add: component_items_def subscription_records_def stored_before_def private_after_def empty_state_def
      commit_key_def) (simp add: private_commit_def stored_commit_def)

lemma private_normalized:
  "normalize_state private_codec stored_before = Inr demo_rows"
  "\<exists>rows. normalize_state private_codec private_after = Inr rows"
  using private_encoded(1,2)
  by (simp_all add: normalize_state_def private_items component_count_def validate_state_keys_def payload_bytes_def
      insert_component_def max_component_items_def max_aggregate_state_bytes_def demo_rows_def)
    (simp_all add: demo_states private_after_def private_commit_def subscription_records_def validate_component_key_def
      max_component_key_bytes_def commit_key_def format_version_def)

lemma private_stored: "journal_stored private_codec demo_db demo_key stored_before"
  unfolding demo_db_def
  by (rule written_stored[OF _ _ _ private_normalized(1) private_faithful(1) demo_valid(1) demo_keys(1)[symmetric]])
    (simp_all add: rows_owned_def inventory_of_def client_rows_def empty_db_def rows_of_def component_tables_def
      add_rows_def)

lemma private_prepared:
  "\<exists>rows. prepare_state_write private_codec (Some (revision stored_before)) private_after = Inr (demo_key, rows)"
proof -
  have "(partition_id private_after, client_id private_after) = demo_key" by code_simp
  moreover have "validate_key demo_key = Inr ()" by (simp add: validate_key_def demo_key_def max_state_identity_bytes_def)
  moreover have "validate_next_revision (Some (revision stored_before)) (revision private_after) = Inr ()"
    "validate private_after = Inr ()" by code_simp+
  ultimately show ?thesis
    using private_normalized(2) by (auto simp: prepare_state_write_def Let_def)
qed

lemma private_projection:
  "optimistic_projection private_after =
     fmupd (RecordId ''_sync_client_subscription_record:x'') (OptPresent private_value BaseAbsent None) fmempty"
  by code_simp

lemma private_decoded: "from_wire_value demo_lib private_value = Inr (SObject private_content)"
  unfolding from_wire_value_def private_value_def
  by (rule from_wire_inverse[of _ _ max_wire_depth])
    (simp_all add: private_content_def demo_lib_def sample_lib_def key_ordered_def wire_tag_def less_list_code max_wire_depth_def)

lemma private_native:
  "native_record_id demo_lib demo_schema (RecordId ''_sync_client_subscription_record:x'')
     = Inr ''_sync_client_subscription_record:x''"
  "sx_table demo_schema ''_sync_client_subscription_record:x'' = subscription_record_table"
  "sx_component demo_schema private_content = Some private_row" "owned_by demo_key private_row"
  by code_simp+

lemma private_projectable:
  "\<forall>r \<in> fset (fmdom (optimistic_projection stored_before) |\<union>| fmdom (optimistic_projection private_after)).
     projectable demo_lib demo_schema (optimistic_projection private_after) r"
  by (simp add: demo_projections(1) private_projection projectable_def private_decoded private_native app_content_def schema_refuses_def)

theorem private_record_blocks_journal_witness:
  "\<exists>db' e. apply_transition_atomic private_codec no_stage demo_lib demo_schema demo_engine demo_db stored_before private_after
     = (Inr Applied, db') \<and> loaded private_codec (demo_db :: string store_db) demo_key = Inr (Some stored_before)
     \<and> loaded private_codec db' demo_key = Inl e"
proof -
  obtain rows where rows: "prepare_state_write private_codec (Some (revision stored_before)) private_after = Inr (demo_key, rows)"
    using private_prepared by blast
  have loads: "loaded private_codec (demo_db :: string store_db) demo_key = Inr (Some stored_before)"
    by (rule private_stored[unfolded journal_stored_def, THEN conjunct2, THEN conjunct1])
  have "subscriptions stored_before \<noteq> None \<longrightarrow> subscriptions private_after \<noteq> None"
    by (simp add: stored_before_def empty_state_def)
  from transition_applies[OF private_stored rows demo_applicable(1) this private_projectable demo_applicable(3)]
  obtain db' where run: "apply_transition_atomic private_codec no_stage demo_lib demo_schema demo_engine demo_db
      stored_before private_after = (Inr Applied, db')" by blast
  have changed: "fmlookup (optimistic_projection stored_before) (RecordId ''_sync_client_subscription_record:x'') \<noteq>
      fmlookup (optimistic_projection private_after) (RecordId ''_sync_client_subscription_record:x'')"
    by (simp add: demo_projections(1) private_projection)
  have content: "app_content demo_lib (fmlookup (optimistic_projection private_after)
      (RecordId ''_sync_client_subscription_record:x'')) = Some private_content"
    by (simp add: private_projection app_content_def private_decoded)
  from private_record_blocks_journal[OF private_stored[folded demo_keys(1)] private_faithful(2) no_stage_reads private_neq(1)
      run changed private_native(1,2) content private_native(3,4) loads] run loads
  show ?thesis by (auto simp: demo_projections(1) private_projection)
qed

end
