(* ===== verification/Spec2Isabelle.thy ===== *)
theory Spec2Isabelle
  imports Client_Read_View Client_Conflict Client_Windows Codec_Properties Http_Properties
    Bootstrap_Properties Native_Queue Native_Properties Stage_Properties Store_Private
begin

text \<open>
  Verification of the sync core of react-native-surrealdb.

  The program lets a mobile application work on a local copy of its records while offline.
  Local edits are commits in an outbox; a push sends them to the server, which accepts,
  rejects or reports a conflict for each; a pull brings the commits of the server's log, or
  a reset replaces the local copy.  Two crates carry that logic: the transport-neutral
  protocol (\<open>crates/surrealdb-sync-protocol\<close>) and the client state machine
  (\<open>crates/surrealdb-sync-client\<close>).  The native crate (\<open>crates/surrealdb-rn-core\<close>)
  connects them to storage, transport and the JavaScript side.

  \<^bold>\<open>Theories and the code they model.\<close>

  \<^item> \<open>Sync_Prelude\<close>: results as sums (\<open>rbind\<close> is Rust's question mark), \<open>try_fold\<close>, ordered
    maps as finite maps with sorted entries (\<open>BTreeMap\<close>), 64-bit words, checked addition,
    and the rewrite rules shared by all theories.
  \<^item> \<open>Protocol_Types\<close> (\<open>sync-protocol/src/lib.rs\<close>) and \<open>Subscription_Types\<close>
    (\<open>subscription.rs\<close>): the messages, with both subscription validators.
  \<^item> \<open>Client_State\<close>, \<open>Client_Runtime\<close> (\<open>sync-client/src/lib.rs\<close>): the durable state and its
    validation; every \<open>prepare_*\<close> transition, \<open>install\<close>, pull-batch validation, ID mapping,
    conflict resolution and the optimistic projection.  \<open>Client_Read\<close> (\<open>read.rs\<close>) and
    \<open>Client_Subscriptions\<close> (\<open>subscriptions.rs\<close>) are the read view and the query windows.
  \<^item> \<open>Client_Transitions\<close>: what every transition has in common (one record update through
    \<open>prepare\<close>, validity of the result, the revision as the only guard of \<open>install\<close>).
  \<^item> \<open>Client_Journal\<close>: the adapter protocol the crate documents, as a step relation over disk,
    memory and the transition in flight, with failed writes, lost acknowledgements and
    crashes; \<open>Client_Push\<close>, \<open>Client_Pull\<close>, \<open>Client_Snapshot\<close>, \<open>Client_Conflict\<close>,
    \<open>Client_Read_View\<close>, \<open>Client_Windows\<close> hold the lemmas and properties of each operation;
    \<open>Client_Names\<close> follows the record ids that a state and a transition name.
  \<^item> \<open>Canonical_Value\<close>, \<open>Canonical_Codec\<close> (\<open>canonical.rs\<close>): the bounded value profile, its
    CBOR conversion, budgets, preflight and the commit fingerprint; \<open>Reference_Cbor\<close> is a
    codec after RFC 8949 that meets the law assumed of the CBOR library, and
    \<open>Codec_Properties\<close> states the properties.
  \<^item> \<open>Http_Codec\<close> (\<open>http_codec.rs\<close>): the message envelopes; \<open>Http_Roundtrip\<close> gives each part
    of a message the law of the locale \<open>wire_part\<close>, and \<open>Http_Properties\<close> composes them.
  \<^item> \<open>Bootstrap_Codec\<close>, \<open>Bootstrap_Verify\<close>, \<open>Bootstrap_Properties\<close> (\<open>bootstrap.rs\<close>,
    \<open>bootstrap_codec.rs\<close>): the bootstrap messages, digests, content hasher and verifier.
  \<^item> \<open>Subscription_Codec\<close> (\<open>subscription_codec.rs\<close>): the CBOR envelopes of the query messages.
  \<^item> \<open>Json_Value\<close>, \<open>Wire_Value\<close> (\<open>rn-core/src/wire.rs\<close>), \<open>Native_Codec\<close> (\<open>sync_codec.rs\<close>,
    \<open>sync_http_codec.rs\<close>), \<open>Native_Bridge\<close>: JSON trees, database values as tagged JSON, and
    the conversions between JSON messages and canonical ones.
  \<^item> \<open>Store_Codec\<close>, \<open>Store_Decode\<close>, \<open>Store_Database\<close>, \<open>Store_Write\<close>, \<open>Store_Load\<close>,
    \<open>Store_Transitions\<close>, \<open>Store_Outcomes\<close>, \<open>Store_Inspect\<close>, \<open>Store_Properties\<close>
    (\<open>sync_state.rs\<close>): a state as rows of seven tables, transactions over them with engine
    faults, loading, migration, row-wise replacement, the projection onto the application's
    tables, scope barriers and the read-only inspection.  The projected records are written
    into the same database as the journal: a record whose table is one of the journal's own
    becomes a row there, or is refused by that table's schema.  \<open>Store_Private\<close> shows what
    happens to the two journal tables that the code does not reserve.
  \<^item> \<open>Stage_Store\<close>, \<open>Stage_Operations\<close> (\<open>sync_bootstrap_store.rs\<close>): the two bootstrap tables
    (a header per attempt and its pages), row validation, budgets, inspection and guards; and
    begin, stage a page, resume, complete, cancel and progress.  \<open>Stage_Effects\<close> says what each
    operation does to the rows, \<open>Stage_Attempts\<close> relates them to an abstract machine of
    attempts, \<open>Stage_Completion\<close> to the transition that a completion installs;
    \<open>Stage_Sample\<close> runs a bootstrap and \<open>Stage_Properties\<close> states the properties.  The guard
    \<open>state_write_guard\<close> is the instance of the guard that the store's transactions take.
  \<^item> \<open>Native_Queue\<close> (\<open>sync_queue.rs\<close>), \<open>Native_Read\<close> (\<open>sync_read.rs\<close>), \<open>Native_Subscription\<close>
    (\<open>sync_subscription.rs\<close>): the bounded queue window and both replay journals;
    \<open>Native_View\<close> (\<open>sync_view.rs\<close>): counts and pages of the view under a work budget, with
    their properties in \<open>Native_Paging\<close>.
  \<^item> \<open>Native_State\<close>, \<open>Native_Client\<close> (\<open>sync_client.rs\<close>): the shared cell with its lock guard,
    mutation phases and poison flag, and the operations of the native client.
    \<open>Native_Simulation\<close> and \<open>Native_Runs\<close> show that every operation is a run of the
    abstract journal of \<open>Client_Journal\<close>; \<open>Native_Properties\<close> states what callers rely on.

  \<^bold>\<open>How the code is represented.\<close>  A fallible function returns \<open>error + result\<close> with the
  source's error constructors, in the order the source checks.  A \<open>u64\<close> is a 64-bit word
  and every addition that the code checks is checked here; a \<open>usize\<close> is an integer whose
  subtractions are checked.  A \<open>&mut\<close> budget is passed in and out.  Strings are byte
  sequences.  Values stored in records are a type variable in the client theories, since
  the client never looks into them.  Definitions are executable, and the witnesses run
  them.

  \<^bold>\<open>What is shown.\<close>  For the client: no local intent is lost and no update is overwritten
  over any interleaving of transitions, failures and crashes; disk always reopens; the pull
  cursor is monotone; canonical rows refine the server's log; retries of pushes, pulls,
  resets and window responses change nothing; an accepted commit's id mapping reaches the record names of the
  whole journal except the mappings kept as a record of it; the optimistic projection of a
  record is its last queued operation, else its last accepted operation that was not pulled
  yet, else its canonical row; a read batch turns the old rows into the new ones; windows
  stay ordered and bounded and a cancellation is final.  For the codec: encoding and decoding
  are inverse, encodings are unique, inputs are bounded before they are decoded, and a
  fingerprint binds its commit.  For the store: a transition whose projection stays outside the journal's tables is applied
  whole or not at all whatever engine call fails, and the application's tables follow the
  projection; an acknowledged transition that projects a record into an unreserved journal
  table can leave a journal that no longer loads.  For the
  bootstrap store: its operations refine the abstract attempts, a completion installs exactly
  the verified pages, and a completion that comes late changes nothing.  For the native client, as long as its records name no journal table: its calls refine the
  journal protocol over the store, a returned status is
  a durable fact, an acknowledged commit is never lost.  Views are not read behind a scope
  barrier, a poisoned cell refuses every call, and following the cursors of a view lists
  every selected record once.

  \<^bold>\<open>Faults.\<close>  The engine may fail before any call of a transaction, fail to roll back, and
  lose the acknowledgement of a commit that took effect or did not.  The native client sees
  the engine, the session and the schema through functions of a tick that advances with
  every observation, so every schedule of faults is covered.  A panic and a loop that does
  not end are results of their own (\<open>native_fault\<close>).  Concurrency is the lock of the cell:
  operations run one after the other, and a restart of the process may come between any two.

  \<^bold>\<open>Termination and bounds.\<close>  All recursion is structural except the preflight scan, whose
  depth limit of 32 is its measure, and the eviction loops of the journals, whose measure is
  what they still hold; no fuel is used for the program's own code.  The
  reference CBOR decoder bounds its nesting by 129, above what validation admits.

  \<^bold>\<open>Parameters.\<close>  ciborium is the pair \<open>ser\<close> and \<open>de\<close> with the law of the locale
  \<open>cbor_library\<close>; SHA-256 is an arbitrary function.  serde's derived conversions and
  \<open>serde_json\<close>'s text are fields of \<open>store_codec\<close>, \<open>read_serde\<close>, \<open>query_serde\<close> and
  \<open>subscription_serde\<close>; the database's textual conversions are \<open>surreal_lib\<close>.  What the native
  client relies on is the locale \<open>native_laws\<close>.  The encodings of bootstrap rows and the clock
  readings of the bootstrap store are fields of \<open>stage_env\<close> and arguments of its operations.  What the engine's schema lets into a journal table, and the row it becomes there, is
  \<open>record_schema\<close>.  Of \<open>serde_json\<close> the store's theorems assume that the number texts and the
  trees it writes are read back unchanged (\<open>number_law\<close>, \<open>serde_ok\<close>, \<open>text_law\<close>); its
  documentation promises this for floats with the feature \<open>float_roundtrip\<close> and for trees up to
  its recursion limit, so a state that leaves these bounds is outside those theorems.  The item variants ciborium has are all
  modelled, so the decoder's branch for an unknown variant has no counterpart.

  \<^bold>\<open>Not modelled.\<close>  The bootstrap session that drives the store over the transport
  (\<open>sync_bootstrap.rs\<close>) and the calls of the native client that begin, feed, complete and
  cancel it, its close and its inspection: a run of calls in \<open>Native_Properties\<close> has none of
  them; the registry that maps keys to cells; the schema
  definition; storage inspection reports and diagnostics counters, which only read; the
  database surface of \<open>lib.rs\<close>, thin calls into the SurrealDB library; tests, and the
  TypeScript, C++, Kotlin and Swift bindings.
\<close>

section \<open>A bootstrap from its pages to the journal\<close>

lemma snapshot_confirmed_total:
  assumes "distinct (map sr_record_id recs)" and "sr_record_id ` set recs \<inter> seen = {}"
  shows "\<exists>conf. snapshot_confirmed seen m recs = Inr conf"
  using assms by (induction seen m recs rule: snapshot_confirmed.induct) auto

lemma installable_checked: "installable (sr_state r) \<Longrightarrow> check_bootstrap_record r = Inr ()"
  by (cases "sr_state r") auto

lemma installable_lookup:
  assumes "\<forall>x \<in> set recs. installable (sr_state x)"
  shows "snapshot_lookup recs r = map_of (map (\<lambda>x. (sr_record_id x, sr_state x)) recs) r"
proof -
  have "sr_state x \<noteq> Absent" if "x \<in> set recs" for x using assms that by (cases "sr_state x") auto
  then show ?thesis by (induction recs) (auto simp: snapshot_lookup_def)
qed

lemma verified_records_confirmed:
  assumes "verify_pages ser sha256 manifest pages = Inr summary"
  shows "for_each check_bootstrap_record (records_of pages) = Inr ()
    \<and> (\<exists>conf. snapshot_confirmed {} fmempty (records_of pages) = Inr conf
         \<and> (\<forall>r. fmlookup conf r = map_of (map (\<lambda>x. (sr_record_id x, sr_state x)) (records_of pages)) r))"
proof -
  from assms obtain v where v: "run_inv ser sha256 \<lparr>run_manifest = manifest, run_pages = pages\<rparr> v"
    by (rule verify_pages_Inr)
  then have ok: "\<forall>r \<in> set (records_of pages). installable (sr_state r)"
    and sorted: "sorted_wrt (<) (map sr_record_id (records_of pages))"
    by (simp_all add: run_inv_def Let_def)
  from sorted have "distinct (map sr_record_id (records_of pages))" by (simp only: strict_sorted_iff)
  then obtain conf where conf: "snapshot_confirmed {} fmempty (records_of pages) = Inr conf"
    using snapshot_confirmed_total [of "records_of pages" "{}" fmempty] by auto
  have "fmlookup conf r = map_of (map (\<lambda>x. (sr_record_id x, sr_state x)) (records_of pages)) r" for r
    using snapshot_confirmed_Inr [OF conf] installable_lookup [OF ok, of r] by (simp split: option.splits)
  moreover have "for_each check_bootstrap_record (records_of pages) = Inr ()"
    using ok by (simp add: for_each_Inr installable_checked del: check_bootstrap_record.simps)
  ultimately show ?thesis using conf by blast
qed

lemma receipt_checkpoint:
  assumes "validate_bootstrap_receipt ser sha256 m r = Inr ()"
  shows "token_str (token (br_checkpoint r)) \<noteq> [] \<and> scope (br_checkpoint r) = bx_scope (bm_context m)
    \<and> cursor (br_checkpoint r) = bm_cursor m"
proof -
  from assms obtain bytes where "encode_bootstrap_receipt ser r = Inr bytes"
    by (auto simp: validate_bootstrap_receipt_def rbind_Inr)
  then obtain b b' c where "encoder_family bootstrap_name = Inr b" "enc_receipt r b = Inr (b', c)"
    by (auto simp: encode_bootstrap_receipt_def encode_bootstrap_message_def rbind_Inr encode_family_message_Inr)
  then have "token_str (token (br_checkpoint r)) \<noteq> []"
    by (auto simp: enc_receipt_def enc_checkpoint_def enc_conv
        dest!: encoder_family_within item_within identity_text_within digest_within checkpoint_text_within)
  then show ?thesis using assms by (auto simp: validate_bootstrap_receipt_def rbind_Inr split: if_splits)
qed

lemma context_scope:
  assumes "validate_bootstrap_manifest_context ser sha256 m q expected = Inr ()"
  shows "bm_context m = expected \<and> bs_requested_scope q = scope_id (bx_scope expected)
    \<and> bs_subscription_revision q = scope_subscription_revision (bx_scope expected)"
  using assms by (auto simp: validate_bootstrap_manifest_context_def rbind_Inr split: if_splits)

section \<open>Sample bootstrap of a new client\<close>

definition boot_request :: bootstrap_start_request where
  "boot_request = \<lparr>bs_partition_id = PartitionId ''p'', bs_client_id = ClientId ''c'', bs_request_id = ''q'',
     bs_requested_scope = ScopeIdentity ''s'', bs_subscription_revision = 1, bs_journal_generation = ''g''\<rparr>"

definition boot_manifest :: bootstrap_manifest where
  "boot_manifest = demo_final\<lparr>bm_start_fingerprint :=
     projr (bootstrap_start_fingerprint rfc_ser demo_sha boot_request)\<rparr>"

definition boot_digest :: bootstrap_digest where
  "boot_digest = projr (bootstrap_manifest_digest rfc_ser demo_sha boot_manifest)"

definition boot_receipt :: bootstrap_receipt where
  "boot_receipt = \<lparr>br_session_id = ''x'', br_manifest_digest = boot_digest,
     br_checkpoint = \<lparr>token = OpaqueCheckpoint ''t'', cursor = \<lparr>epoch = 1, sequence = 9\<rparr>, scope = demo_scope\<rparr>,
     br_expires_at = 100\<rparr>"

lemma boot_verified: "\<not> isl (verify_pages rfc_ser demo_sha boot_manifest [demo_page boot_digest])"
  by code_simp

lemma boot_context_ok:
  "validate_bootstrap_manifest_context rfc_ser demo_sha boot_manifest boot_request (bm_context boot_manifest) = Inr ()"
  by code_simp

lemma boot_receipt_ok: "validate_bootstrap_receipt rfc_ser demo_sha boot_manifest boot_receipt = Inr ()"
  by code_simp

text \<open>A manifest of epoch 0 and its receipt pass every check of the protocol.\<close>

lemma protocol_accepts_epoch_zero:
  "let zero = \<lparr>epoch = 0, sequence = 9\<rparr>; m = boot_manifest\<lparr>bm_cursor := zero\<rparr>;
     d = projr (bootstrap_manifest_digest rfc_ser demo_sha m);
     r = boot_receipt\<lparr>br_manifest_digest := d, br_checkpoint := (br_checkpoint boot_receipt)\<lparr>cursor := zero\<rparr>\<rparr>
   in validate_bootstrap_manifest_context rfc_ser demo_sha m boot_request (bm_context m) = Inr ()
     \<and> \<not> isl (verify_pages rfc_ser demo_sha m [demo_page d])
     \<and> validate_bootstrap_receipt rfc_ser demo_sha m r = Inr ()"
  by code_simp

lemma epoch_zero_refused:
  assumes "validate_bootstrap_receipt ser sha256 manifest receipt = Inr ()" and "epoch (bm_cursor manifest) = 0"
  shows "\<exists>e. prepare_bootstrap_snapshot rt (br_checkpoint receipt) recs = Inl e"
proof (rule ccontr)
  assume "\<not> ?thesis"
  then obtain p where "prepare_bootstrap_snapshot rt (br_checkpoint receipt) recs = Inr p"
    by (cases "prepare_bootstrap_snapshot rt (br_checkpoint receipt) recs") auto
  then have "prepare_snapshot rt (br_checkpoint receipt) recs = Inr p" by (rule bootstrap_snapshot)
  then have "checkpoint (prepared_state p) = Some (br_checkpoint receipt)" "valid_state (prepared_state p)"
    by (auto dest: snapshot_cases)
  then have "epoch (cursor (br_checkpoint receipt)) \<noteq> 0" by (simp add: valid_state_def valid_position_def)
  then show False using receipt_checkpoint [OF assms(1)] assms(2) by simp
qed

lemma verified_bootstrap_prepares:
  assumes "validate_bootstrap_manifest_context ser sha256 manifest request expected = Inr ()"
    and "verify_pages ser sha256 manifest pages = Inr summary"
    and "validate_bootstrap_receipt ser sha256 manifest receipt = Inr ()"
    and "epoch (bm_cursor manifest) \<noteq> 0"
  shows "\<exists>p. prepare_bootstrap_snapshot
      \<lparr>rt_state = empty_state (bs_partition_id request) (bs_client_id request)
         (bs_requested_scope request) (bs_subscription_revision request)\<rparr>
      (br_checkpoint receipt) (records_of pages) = Inr p
    \<and> checkpoint (prepared_state p) = Some (br_checkpoint receipt)
    \<and> (\<forall>r. fmlookup (confirmed (prepared_state p)) r =
         map_of (map (\<lambda>x. (sr_record_id x, sr_state x)) (records_of pages)) r)"
proof -
  let ?cp = "br_checkpoint receipt" and ?recs = "records_of pages"
  let ?s = "empty_state (bs_partition_id request) (bs_client_id request) (bs_requested_scope request)
      (bs_subscription_revision request)"
  from verified_records_confirmed [OF assms(2)] obtain conf where check: "for_each check_bootstrap_record ?recs = Inr ()"
    and conf: "snapshot_confirmed {} fmempty ?recs = Inr conf"
    "\<And>r. fmlookup conf r = map_of (map (\<lambda>x. (sr_record_id x, sr_state x)) ?recs) r" by blast
  let ?n = "?s\<lparr>confirmed := conf, reset_coverage := Some \<lparr>cov_cursor = cursor ?cp, cov_scope = scope ?cp\<rparr>,
      checkpoint := Some ?cp\<rparr>"
  have cp: "token_str (token ?cp) \<noteq> []" "epoch (cursor ?cp) \<noteq> 0"
    "scope_id (scope ?cp) = bs_requested_scope request"
    "scope_subscription_revision (scope ?cp) = bs_subscription_revision request"
    using receipt_checkpoint [OF assms(3)] context_scope [OF assms(1)] assms(4) by auto
  have "fmlookup conf r \<noteq> Some Absent" for r
    using snapshot_confirmed_Inr [OF conf(1)] by (auto simp: snapshot_lookup_def split: option.splits if_splits)
  then have "valid_state (?n\<lparr>revision := revision ?s + 1\<rparr>)"
    using cp by (simp add: valid_state_def valid_position_def valid_mappings_def all_commits_def empty_state_def)
  then have "prepare \<lparr>rt_state = ?s\<rparr> ?n =
      Inr \<lparr>base_revision = revision ?s, prepared_state = ?n\<lparr>revision := revision ?s + 1\<rparr>\<rparr>"
    using prepare_changed [of ?n "\<lparr>rt_state = ?s\<rparr>"] by (simp add: empty_state_def)
  then have "prepare_bootstrap_snapshot \<lparr>rt_state = ?s\<rparr> ?cp ?recs =
      Inr \<lparr>base_revision = revision ?s, prepared_state = ?n\<lparr>revision := revision ?s + 1\<rparr>\<rparr>"
    using check conf(1) cp
    by (simp add: prepare_bootstrap_snapshot_def prepare_snapshot_def validate_scope_def
        guard_subscription_scope_def check_snapshot_frontier_def empty_state_def del: check_bootstrap_record.simps)
  then show ?thesis by (intro exI conjI allI) (assumption, simp_all add: conf(2))
qed

section \<open>Properties across components\<close>

text \<open>
  C30: what becomes of the bootstrap of a new client is decided by the epoch of the manifest.
  Suppose the manifest answers the client's request in the expected context, the streaming
  verifier accepted every page, and the receipt matches the manifest.  If the epoch of the
  manifest's cursor is not 0, the client runtime installs the pages: the transition is
  prepared, its rows are exactly the records of the pages, and the receipt's checkpoint is
  where pulling goes on.  If the epoch is 0, which the protocol's own checks let pass, the
  runtime refuses the snapshot.
\<close>

theorem new_client_bootstraps:
  assumes "validate_bootstrap_manifest_context ser sha256 manifest request expected = Inr ()"
    and "verify_pages ser sha256 manifest pages = Inr summary"
    and "validate_bootstrap_receipt ser sha256 manifest receipt = Inr ()"
  shows "case prepare_bootstrap_snapshot
      \<lparr>rt_state = empty_state (bs_partition_id request) (bs_client_id request)
         (bs_requested_scope request) (bs_subscription_revision request)\<rparr>
      (br_checkpoint receipt) (records_of pages) of
      Inl _ \<Rightarrow> epoch (bm_cursor manifest) = 0
    | Inr p \<Rightarrow> epoch (bm_cursor manifest) \<noteq> 0
        \<and> checkpoint (prepared_state p) = Some (br_checkpoint receipt)
        \<and> (\<forall>r. fmlookup (confirmed (prepared_state p)) r =
             map_of (map (\<lambda>x. (sr_record_id x, sr_state x)) (records_of pages)) r)"
proof (cases "epoch (bm_cursor manifest) = 0")
  case True
  with epoch_zero_refused [OF assms(3)] obtain e where "prepare_bootstrap_snapshot
      \<lparr>rt_state = empty_state (bs_partition_id request) (bs_client_id request)
         (bs_requested_scope request) (bs_subscription_revision request)\<rparr>
      (br_checkpoint receipt) (records_of pages) = Inl e" by blast
  then show ?thesis using True by simp
next
  case False
  from verified_bootstrap_prepares [OF assms False] show ?thesis using False by (auto split: sum.splits)
qed

theorem new_client_bootstraps_witness:
  "\<exists>p. prepare_bootstrap_snapshot
      \<lparr>rt_state = empty_state (PartitionId ''p'') (ClientId ''c'') (ScopeIdentity ''s'') 1\<rparr>
      (br_checkpoint boot_receipt) demo_records = Inr p
    \<and> fmlookup (confirmed (prepared_state p)) (RecordId ''b'') = Some (Tombstone 2)"
proof -
  have "epoch (bm_cursor boot_manifest) \<noteq> 0"
    by (simp add: boot_manifest_def demo_final_def demo_manifest_def Let_def)
  with new_client_bootstraps [OF boot_context_ok sum.collapse(2) [OF boot_verified, symmetric] boot_receipt_ok]
  show ?thesis by (auto simp: boot_request_def demo_page_def demo_records_def split: sum.splits)
qed

end
